(* ===== verification/Go_Prelude.thy ===== *)
theory Go_Prelude
  imports Main "HOL-Library.Word"
begin

text \<open>
  What every component of the scheduler shares: the parts of the Go language and its standard
  library that the sources use.

  \<^item> \<open>time.Time\<close> is an integer number of nanoseconds since the Unix epoch, \<open>time.Duration\<close> an
    integer number of nanoseconds; \<open>Sub\<close> saturates at the bounds of an \<open>int64\<close>, as Go's does.
  \<^item> a Go map is a partial function; \<open>range\<close> over it takes the iteration order the runtime chose
    as an argument (\<open>iter_order\<close> says which orders are possible).
  \<^item> \<open>strconv\<close>/\<open>%d\<close> formatting of an integer is \<open>itoa\<close>, with its inverse \<open>atoi\<close>.
  \<^item> \<open>int64\<close> counters wrap around (\<open>i64\<close>).
\<close>

named_theorems go_defs \<open>definitions that are unfolded to evaluate the model\<close>
named_theorems frame_simps \<open>fields an operation leaves unchanged\<close>

section \<open>Time\<close>

type_synonym time = int
type_synonym duration = int

definition nanosecond :: duration where "nanosecond = 1"
definition millisecond :: duration where "millisecond = 1000000"
definition second :: duration where "second = 1000000000"
definition minute :: duration where "minute = 60 * 1000000000"
definition hour :: duration where "hour = 3600 * 1000000000"

lemmas duration_defs = nanosecond_def millisecond_def second_def minute_def hour_def
declare duration_defs [go_defs]

definition i64_min :: int where "i64_min = - (2 ^ 63)"
definition i64_max :: int where "i64_max = 2 ^ 63 - 1"

text \<open>The zero \<open>time.Time\<close>, January 1 of year 1, is before the epoch.\<close>

definition zero_time :: time where "zero_time = - 62135596800 * 1000000000"

definition is_zero_time :: "time \<Rightarrow> bool" where "is_zero_time t \<longleftrightarrow> t = zero_time"

definition time_sub :: "time \<Rightarrow> time \<Rightarrow> duration" where
  "time_sub a b = max i64_min (min i64_max (a - b))"

definition time_truncate :: "time \<Rightarrow> duration \<Rightarrow> time" where
  "time_truncate t d = t - (t - zero_time) mod d"

lemma time_sub_le_zero [simp]: "time_sub a b \<le> 0 \<longleftrightarrow> a \<le> b"
  by (auto simp: time_sub_def i64_min_def i64_max_def)

lemma time_sub_exact: "\<bar>a - b\<bar> < 2 ^ 62 \<Longrightarrow> time_sub a b = a - b"
  by (auto simp: time_sub_def i64_min_def i64_max_def)

lemma time_sub_less_iff: "d \<le> i64_max \<Longrightarrow> i64_min < d \<Longrightarrow> time_sub a b < d \<longleftrightarrow> a - b < d"
  by (auto simp: time_sub_def)

lemma time_truncate_le: "0 < d \<Longrightarrow> time_truncate t d \<le> t"
  by (simp add: time_truncate_def)

lemma time_truncate_gt: "0 < d \<Longrightarrow> t - d < time_truncate t d"
  by (simp add: time_truncate_def)

section \<open>Fixed-width integers\<close>

text \<open>The value an \<open>int64\<close> variable holds after an operation whose exact result is \<open>x\<close>.\<close>

definition i64 :: "int \<Rightarrow> int" where
  "i64 x = (x + 2 ^ 63) mod 2 ^ 64 - 2 ^ 63"

lemma i64_id: "i64_min \<le> x \<Longrightarrow> x \<le> i64_max \<Longrightarrow> i64 x = x"
  by (simp add: i64_def i64_min_def i64_max_def)

lemma i64_range: "i64_min \<le> i64 x \<and> i64 x \<le> i64_max"
proof -
  have "0 \<le> (x + 2 ^ 63) mod 2 ^ 64" and "(x + 2 ^ 63) mod 2 ^ 64 < 2 ^ 64"
    by simp_all
  then show ?thesis by (simp add: i64_def i64_min_def i64_max_def)
qed

text \<open>Go's integer division and remainder truncate towards zero.\<close>

definition go_div :: "int \<Rightarrow> int \<Rightarrow> int" where
  "go_div a b = sgn a * sgn b * (\<bar>a\<bar> div \<bar>b\<bar>)"

definition go_mod :: "int \<Rightarrow> int \<Rightarrow> int" where
  "go_mod a b = a - b * go_div a b"

lemma go_div_nonneg: "0 \<le> a \<Longrightarrow> 0 < b \<Longrightarrow> go_div a b = a div b"
  by (cases "a = 0") (auto simp: go_div_def)

lemma go_mod_nonneg: "0 \<le> a \<Longrightarrow> 0 < b \<Longrightarrow> go_mod a b = a mod b"
  by (simp add: go_mod_def go_div_nonneg minus_mult_div_eq_mod)

section \<open>Maps and their iteration order\<close>

text \<open>
  \<open>for k, v := range m\<close> visits every key once, in an order the runtime picks at each loop. The
  order is an argument of the model; \<open>go_range\<close> skips what is not a key, so it is total.
\<close>

definition iter_order :: "('k \<rightharpoonup> 'v) \<Rightarrow> 'k list \<Rightarrow> bool" where
  "iter_order m ord \<longleftrightarrow> distinct ord \<and> set ord = dom m"

fun go_range :: "('k \<rightharpoonup> 'v) \<Rightarrow> 'k list \<Rightarrow> ('k \<times> 'v) list" where
  "go_range m [] = []"
| "go_range m (k # ks) = (case m k of None \<Rightarrow> go_range m ks | Some v \<Rightarrow> (k, v) # go_range m ks)"

lemma set_go_range: "set (go_range m ks) = {(k, v). k \<in> set ks \<and> m k = Some v}"
  by (induction ks) (auto split: option.splits)

lemma go_range_iter: "iter_order m ord \<Longrightarrow> set (go_range m ord) = {(k, v). m k = Some v}"
  by (auto simp: set_go_range iter_order_def)

lemma map_fst_go_range: "map fst (go_range m ks) = filter (\<lambda>k. m k \<noteq> None) ks"
  by (induction ks) (auto split: option.splits)

lemma distinct_go_range: "distinct ks \<Longrightarrow> distinct (map fst (go_range m ks))"
  by (simp add: map_fst_go_range)

lemma length_go_range: "iter_order m ord \<Longrightarrow> length (go_range m ord) = card (dom m)"
proof -
  assume o: "iter_order m ord"
  then have "map fst (go_range m ord) = ord"
    by (auto simp: map_fst_go_range iter_order_def filter_id_conv)
  then have "length (go_range m ord) = length ord" by (metis length_map)
  then show ?thesis using o by (metis distinct_card iter_order_def)
qed

definition map_len :: "('k \<rightharpoonup> 'v) \<Rightarrow> nat" where
  "map_len m = card (dom m)"

lemma map_len_upd_new: "finite (dom m) \<Longrightarrow> m k = None \<Longrightarrow> map_len (m(k \<mapsto> v)) = Suc (map_len m)"
  by (simp add: map_len_def domIff)

lemma map_len_upd_old: "m k = Some w \<Longrightarrow> map_len (m(k \<mapsto> v)) = map_len m"
  by (simp add: map_len_def insert_absorb domI)

lemma map_len_delete: "finite (dom m) \<Longrightarrow> m k = Some w \<Longrightarrow> Suc (map_len (m(k := None))) = map_len m"
  unfolding map_len_def dom_fun_upd by (simp add: card_Suc_Diff1 domI del: card_Diff_insert)

section \<open>Formatting integers\<close>

definition digit_char :: "nat \<Rightarrow> char" where
  "digit_char d = (char_of :: nat \<Rightarrow> char) (48 + d)"

definition char_digit :: "char \<Rightarrow> nat" where
  "char_digit c = (of_char c :: nat) - 48"

lemma char_digit_char [simp]: "d < 10 \<Longrightarrow> char_digit (digit_char d) = d"
  by (simp add: char_digit_def digit_char_def of_char_of)

fun utoa :: "nat \<Rightarrow> string" where
  "utoa n = (if n < 10 then [digit_char n] else utoa (n div 10) @ [digit_char (n mod 10)])"

declare utoa.simps [simp del]

definition itoa :: "int \<Rightarrow> string" where
  "itoa x = (if x < 0 then CHR ''-'' # utoa (nat (- x)) else utoa (nat x))"

definition atou :: "string \<Rightarrow> nat" where
  "atou s = foldl (\<lambda>n c. 10 * n + char_digit c) 0 s"

definition atoi :: "string \<Rightarrow> int" where
  "atoi s = (case s of [] \<Rightarrow> 0
     | c # cs \<Rightarrow> if c = CHR ''-'' then - int (atou cs) else int (atou s))"

lemma atou_utoa [simp]: "atou (utoa n) = n"
proof (induction n rule: utoa.induct)
  case (1 n)
  then show ?case
    by (cases "n < 10") (simp_all add: utoa.simps [of n] atou_def)
qed

lemma utoa_nonempty [simp]: "utoa n \<noteq> []"
  by (subst utoa.simps) simp

lemma digit_char_not_minus [simp]: "d < 10 \<Longrightarrow> digit_char d \<noteq> CHR ''-''"
proof
  assume "d < 10" "digit_char d = CHR ''-''"
  then have "(of_char (digit_char d) :: nat) = of_char (CHR ''-'')" by simp
  then show False using \<open>d < 10\<close> by (simp add: digit_char_def of_char_of)
qed

lemma utoa_no_minus: "CHR ''-'' \<notin> set (utoa n)"
proof (induction n rule: utoa.induct)
  case (1 n)
  then show ?case
    by (cases "n < 10") (auto simp: utoa.simps [of n] digit_char_not_minus [symmetric])
qed

lemma atoi_itoa [simp]: "atoi (itoa x) = x"
proof (cases "x < 0")
  case True
  then show ?thesis by (simp add: itoa_def atoi_def)
next
  case False
  then obtain c cs where s: "utoa (nat x) = c # cs" by (meson list.exhaust utoa_nonempty)
  moreover have "c \<noteq> CHR ''-''" using utoa_no_minus [of "nat x"] s by auto
  moreover have "atou (c # cs) = nat x" using s atou_utoa by metis
  ultimately show ?thesis using False by (simp add: itoa_def atoi_def)
qed

lemma itoa_inject [simp]: "itoa x = itoa y \<longleftrightarrow> x = y"
  by (metis atoi_itoa)

text \<open>\<open>%x\<close> of an unsigned integer.\<close>

definition hex_char :: "nat \<Rightarrow> char" where
  "hex_char d = (char_of :: nat \<Rightarrow> char) (if d < 10 then 48 + d else 87 + d)"

fun hexa :: "nat \<Rightarrow> string" where
  "hexa n = (if n < 16 then [hex_char n] else hexa (n div 16) @ [hex_char (n mod 16)])"

declare hexa.simps [simp del]

section \<open>Results and lookups\<close>

text \<open>A call returns a value, returns an error, or panics.\<close>

datatype 'a go_result = Ok 'a | Err string | Panic

text \<open>Reading a map yields the zero value for an absent key.\<close>

definition go_get :: "'v \<Rightarrow> ('k \<rightharpoonup> 'v) \<Rightarrow> 'k \<Rightarrow> 'v" where
  "go_get d m k = (case m k of None \<Rightarrow> d | Some v \<Rightarrow> v)"

lemma go_get_upd [simp]: "go_get d (m(k \<mapsto> v)) k' = (if k' = k then v else go_get d m k')"
  by (simp add: go_get_def)

lemma go_get_empty [simp]: "go_get d Map.empty k = d"
  by (simp add: go_get_def)

end
