(* ===== verification/Go_Heap.thy ===== *)
theory Go_Heap
  imports Go_Prelude "HOL-Library.Multiset"
begin

text \<open>
  The standard library's \<open>container/heap\<close> over the two heaps of the program: the trigger heap of
  \<open>pkg/jobstore\<close> (\<open>jobHeap\<close>) and the overflow heap of \<open>pkg/timewheel\<close> (\<open>overflowHeap\<close>). Both
  are slices of pointers whose elements record their own position (\<open>heapIdx\<close>, \<open>index\<close>), so the
  state is a pair: the slice, and the position field of every object. \<open>h_swap\<close>, \<open>h_append\<close> and
  \<open>h_chop\<close> are the \<open>Swap\<close>, \<open>Push\<close> and \<open>Pop\<close> methods the two packages define;
  \<open>heap_up\<close>, \<open>heap_down\<close>, \<open>heap_push\<close>, \<open>heap_pop\<close>, \<open>heap_remove\<close> and \<open>heap_fix\<close> are the
  library's functions, driven by the package's \<open>Less\<close>.

  The locale \<open>less_order\<close> states what \<open>Less\<close> has to satisfy; inside it every operation is shown to
  restore the heap order, keep the elements and keep the positions in step with the slice.
\<close>

section \<open>The operations\<close>

type_synonym 'a pheap = "'a list \<times> ('a \<Rightarrow> int)"

definition h_swap :: "nat \<Rightarrow> nat \<Rightarrow> 'a pheap \<Rightarrow> 'a pheap" where
  "h_swap i j h =
     (let xs = (fst h)[i := fst h ! j, j := fst h ! i]
      in (xs, (snd h)(xs ! i := int i, xs ! j := int j)))"

definition h_append :: "'a \<Rightarrow> 'a pheap \<Rightarrow> 'a pheap" where
  "h_append x h = (fst h @ [x], (snd h)(x := int (length (fst h))))"

definition h_chop :: "'a pheap \<Rightarrow> 'a \<times> 'a pheap" where
  "h_chop h = (last (fst h), (butlast (fst h), (snd h)(last (fst h) := - 1)))"

function heap_up :: "('a \<Rightarrow> 'a \<Rightarrow> bool) \<Rightarrow> nat \<Rightarrow> 'a pheap \<Rightarrow> 'a pheap" where
  "heap_up lt j h =
     (let i = (j - 1) div 2
      in if i = j \<or> \<not> lt (fst h ! j) (fst h ! i) then h else heap_up lt i (h_swap i j h))"
  by pat_completeness auto
termination
  by (relation "measure (\<lambda>(lt, j, h). j)") auto

definition min_child :: "('a \<Rightarrow> 'a \<Rightarrow> bool) \<Rightarrow> 'a list \<Rightarrow> nat \<Rightarrow> nat \<Rightarrow> nat" where
  "min_child lt xs n i =
     (if 2 * i + 2 < n \<and> lt (xs ! (2 * i + 2)) (xs ! (2 * i + 1)) then 2 * i + 2 else 2 * i + 1)"

function heap_down :: "('a \<Rightarrow> 'a \<Rightarrow> bool) \<Rightarrow> nat \<Rightarrow> nat \<Rightarrow> 'a pheap \<Rightarrow> nat \<times> 'a pheap" where
  "heap_down lt i n h =
     (if 2 * i + 1 \<ge> n then (i, h)
      else let j = min_child lt (fst h) n i
           in if \<not> lt (fst h ! j) (fst h ! i) then (i, h)
              else heap_down lt j n (h_swap i j h))"
  by pat_completeness auto
termination
  by (relation "measure (\<lambda>(lt, i, n, h). n - i)") (auto simp: min_child_def split: if_splits)

declare heap_up.simps [simp del] heap_down.simps [simp del]

text \<open>\<open>Fix\<close> (and the tail of \<open>Remove\<close>): sift down, and if nothing moved, sift up.\<close>

definition sift :: "('a \<Rightarrow> 'a \<Rightarrow> bool) \<Rightarrow> nat \<Rightarrow> nat \<Rightarrow> 'a pheap \<Rightarrow> 'a pheap" where
  "sift lt i n h =
     (let r = heap_down lt i n h in if fst r > i then snd r else heap_up lt i (snd r))"

definition heap_push :: "('a \<Rightarrow> 'a \<Rightarrow> bool) \<Rightarrow> 'a \<Rightarrow> 'a pheap \<Rightarrow> 'a pheap" where
  "heap_push lt x h = heap_up lt (length (fst h)) (h_append x h)"

definition heap_pop :: "('a \<Rightarrow> 'a \<Rightarrow> bool) \<Rightarrow> 'a pheap \<Rightarrow> 'a \<times> 'a pheap" where
  "heap_pop lt h =
     (let n = length (fst h) - 1 in h_chop (snd (heap_down lt 0 n (h_swap 0 n h))))"

definition heap_remove :: "('a \<Rightarrow> 'a \<Rightarrow> bool) \<Rightarrow> nat \<Rightarrow> 'a pheap \<Rightarrow> 'a \<times> 'a pheap" where
  "heap_remove lt i h =
     (let n = length (fst h) - 1
      in h_chop (if n = i then h else sift lt i n (h_swap i n h)))"

definition heap_fix :: "('a \<Rightarrow> 'a \<Rightarrow> bool) \<Rightarrow> nat \<Rightarrow> 'a pheap \<Rightarrow> 'a pheap" where
  "heap_fix lt i h = sift lt i (length (fst h)) h"

section \<open>Positions and elements\<close>

text \<open>Every object knows where it is in the slice, and the objects outside it hold \<open>-1\<close>.\<close>

definition pos_ok :: "'a pheap \<Rightarrow> bool" where
  "pos_ok h \<longleftrightarrow> distinct (fst h) \<and> (\<forall>i < length (fst h). snd h (fst h ! i) = int i) \<and>
     (\<forall>a. a \<notin> set (fst h) \<longrightarrow> snd h a = - 1)"

lemma pos_ok_iff_mem: "pos_ok h \<Longrightarrow> 0 \<le> snd h a \<longleftrightarrow> a \<in> set (fst h)"
  by (auto simp: pos_ok_def in_set_conv_nth)

lemma pos_ok_nth: "pos_ok h \<Longrightarrow> a \<in> set (fst h) \<Longrightarrow>
  nat (snd h a) < length (fst h) \<and> fst h ! nat (snd h a) = a"
  by (auto simp: pos_ok_def in_set_conv_nth)

lemma mset_h_swap [simp]:
  "i < length (fst h) \<Longrightarrow> j < length (fst h) \<Longrightarrow> mset (fst (h_swap i j h)) = mset (fst h)"
  by (simp add: h_swap_def mset_swap Let_def)

lemma length_h_swap [simp]: "length (fst (h_swap i j h)) = length (fst h)"
  by (simp add: h_swap_def Let_def)

lemma nth_h_swap:
  "i < length (fst h) \<Longrightarrow> j < length (fst h) \<Longrightarrow> k < length (fst h) \<Longrightarrow>
   fst (h_swap i j h) ! k = (if k = i then fst h ! j else if k = j then fst h ! i else fst h ! k)"
  by (auto simp: h_swap_def Let_def nth_list_update)

lemma pos_ok_h_swap:
  assumes "pos_ok h" "i < length (fst h)" "j < length (fst h)"
  shows "pos_ok (h_swap i j h)"
proof -
  let ?g = "h_swap i j h"
  have s: "mset (fst ?g) = mset (fst h)" using assms by simp
  then have d: "distinct (fst ?g)"
    using assms(1) by (metis pos_ok_def mset_eq_imp_distinct_iff)
  have set: "set (fst ?g) = set (fst h)" using s by (metis set_mset_mset)
  have "snd ?g (fst ?g ! k) = int k" if "k < length (fst ?g)" for k
  proof (cases "k = i \<or> k = j")
    case True
    then show ?thesis
      using d assms
      by (auto simp: h_swap_def Let_def nth_eq_iff_index_eq nth_list_update split: if_splits)
  next
    case False
    then have "fst ?g ! k \<noteq> fst ?g ! i" "fst ?g ! k \<noteq> fst ?g ! j"
      using d that assms by (simp_all add: nth_eq_iff_index_eq)
    moreover have "fst ?g ! k = fst h ! k" using that False assms by (simp add: nth_h_swap)
    ultimately show ?thesis
      using assms(1) that by (auto simp: h_swap_def Let_def pos_ok_def)
  qed
  moreover have "snd ?g a = - 1" if "a \<notin> set (fst ?g)" for a
  proof -
    have "a \<noteq> fst ?g ! i" "a \<noteq> fst ?g ! j" using that assms by (metis length_h_swap nth_mem)+
    moreover have "snd h a = - 1" using that set assms(1) by (simp add: pos_ok_def)
    ultimately show ?thesis by (auto simp: h_swap_def Let_def)
  qed
  ultimately show ?thesis using d by (simp add: pos_ok_def)
qed

text \<open>What sifting keeps, whatever \<open>Less\<close> is: length, elements, positions, and the slice outside
  the indices it works on.\<close>

lemma heap_up_keeps:
  "j < length (fst h) \<Longrightarrow> mset (fst (heap_up lt j h)) = mset (fst h) \<and>
     (pos_ok h \<longrightarrow> pos_ok (heap_up lt j h)) \<and>
     (\<forall>k. j < k \<longrightarrow> k < length (fst h) \<longrightarrow> fst (heap_up lt j h) ! k = fst h ! k)"
proof (induction lt j h rule: heap_up.induct)
  case (1 lt j h)
  let ?i = "(j - 1) div 2"
  show ?case
  proof (cases "?i = j \<or> \<not> lt (fst h ! j) (fst h ! ?i)")
    case True
    then show ?thesis by (simp add: heap_up.simps [of lt j h])
  next
    case False
    then have i: "?i < j" by linarith
    let ?g = "h_swap ?i j h"
    have IH: "mset (fst (heap_up lt ?i ?g)) = mset (fst ?g) \<and>
        (pos_ok ?g \<longrightarrow> pos_ok (heap_up lt ?i ?g)) \<and>
        (\<forall>k. ?i < k \<longrightarrow> k < length (fst ?g) \<longrightarrow> fst (heap_up lt ?i ?g) ! k = fst ?g ! k)"
      using 1 False i by simp
    show ?thesis
      using IH i "1.prems" False
      by (auto simp: heap_up.simps [of lt j h] Let_def pos_ok_h_swap nth_h_swap)
  qed
qed

lemma length_heap_up [simp]: "j < length (fst h) \<Longrightarrow> length (fst (heap_up lt j h)) = length (fst h)"
  using heap_up_keeps by (metis mset_eq_length)

lemma min_child_bounds: "2 * i + 1 < n \<Longrightarrow> min_child lt xs n i < n \<and> i < min_child lt xs n i"
  by (auto simp: min_child_def)

lemma heap_down_keeps:
  "i < n \<or> n = 0 \<Longrightarrow> n \<le> length (fst h) \<Longrightarrow>
     mset (fst (snd (heap_down lt i n h))) = mset (fst h) \<and>
     (pos_ok h \<longrightarrow> pos_ok (snd (heap_down lt i n h))) \<and>
     (\<forall>k. n \<le> k \<longrightarrow> k < length (fst h) \<longrightarrow> fst (snd (heap_down lt i n h)) ! k = fst h ! k) \<and>
     i \<le> fst (heap_down lt i n h) \<and>
     (fst (heap_down lt i n h) = i \<longrightarrow> snd (heap_down lt i n h) = h)"
proof (induction lt i n h rule: heap_down.induct)
  case (1 lt i n h)
  let ?j = "min_child lt (fst h) n i"
  show ?case
  proof (cases "2 * i + 1 \<ge> n \<or> \<not> lt (fst h ! ?j) (fst h ! i)")
    case True
    then show ?thesis by (auto simp: heap_down.simps [of lt i n h] Let_def)
  next
    case False
    then have j: "?j < n" "i < ?j" using min_child_bounds by (metis not_le)+
    let ?g = "h_swap i ?j h"
    have eq: "heap_down lt i n h = heap_down lt ?j n ?g"
      using False by (simp add: heap_down.simps [of lt i n h] Let_def)
    have IH: "mset (fst (snd (heap_down lt ?j n ?g))) = mset (fst ?g) \<and>
       (pos_ok ?g \<longrightarrow> pos_ok (snd (heap_down lt ?j n ?g))) \<and>
       (\<forall>k. n \<le> k \<longrightarrow> k < length (fst ?g) \<longrightarrow> fst (snd (heap_down lt ?j n ?g)) ! k = fst ?g ! k) \<and>
       ?j \<le> fst (heap_down lt ?j n ?g)"
      using 1 False j by simp
    then show ?thesis
      using j "1.prems" unfolding eq by (auto simp: pos_ok_h_swap nth_h_swap)
  qed
qed

lemma length_heap_down [simp]:
  "i < n \<or> n = 0 \<Longrightarrow> n \<le> length (fst h) \<Longrightarrow>
   length (fst (snd (heap_down lt i n h))) = length (fst h)"
  using heap_down_keeps by (metis mset_eq_length)

lemma sift_keeps:
  assumes "i < n" "n \<le> length (fst h)" "pos_ok h"
  shows "mset (fst (sift lt i n h)) = mset (fst h) \<and> pos_ok (sift lt i n h) \<and>
    (\<forall>k. n \<le> k \<longrightarrow> k < length (fst h) \<longrightarrow> fst (sift lt i n h) ! k = fst h ! k)"
proof -
  have d: "mset (fst (snd (heap_down lt i n h))) = mset (fst h)" "pos_ok (snd (heap_down lt i n h))"
    "\<forall>k. n \<le> k \<longrightarrow> k < length (fst h) \<longrightarrow> fst (snd (heap_down lt i n h)) ! k = fst h ! k"
    using heap_down_keeps [of i n h lt] assms by auto
  have "length (fst (snd (heap_down lt i n h))) = length (fst h)" using d by (metis mset_eq_length)
  then show ?thesis
    using d heap_up_keeps [of i "snd (heap_down lt i n h)" lt] assms by (simp add: sift_def Let_def)
qed

lemma pos_ok_chop: "pos_ok h \<Longrightarrow> fst h \<noteq> [] \<Longrightarrow> pos_ok (snd (h_chop h))"
proof -
  assume p: "pos_ok h" and ne: "fst h \<noteq> []"
  then obtain xs x where xs: "fst h = xs @ [x]" by (metis append_butlast_last_id)
  have "snd h (xs ! i) = int i \<and> xs ! i \<noteq> x" if "i < length xs" for i
    using p that unfolding pos_ok_def xs
    by (metis distinct_append distinct_singleton disjoint_insert(1) length_append_singleton
        less_SucI list.set(2) nth_append nth_mem)
  moreover have "distinct xs" "\<forall>a. a \<notin> set xs \<longrightarrow> a \<noteq> x \<longrightarrow> snd h a = - 1"
    using p by (auto simp: pos_ok_def xs)
  ultimately show ?thesis by (simp add: pos_ok_def h_chop_def xs)
qed

lemma h_swap_same: "pos_ok h \<Longrightarrow> i < length (fst h) \<Longrightarrow> h_swap i i h = h"
  by (auto simp: h_swap_def Let_def pos_ok_def prod_eq_iff fun_eq_iff)

lemma heap_pop_eq_remove:
  assumes "pos_ok h" "fst h \<noteq> []"
  shows "heap_pop lt h = heap_remove lt 0 h"
proof -
  have up: "heap_up lt 0 g = g" for g :: "'a pheap" by (simp add: heap_up.simps Let_def)
  let ?n = "length (fst h) - 1"
  show ?thesis
  proof (cases "?n = 0")
    case True
    then show ?thesis
      using assms h_swap_same [of h 0]
      by (simp add: heap_pop_def heap_remove_def heap_down.simps [of lt 0 0 h])
  next
    case False
    then show ?thesis
      using heap_down_keeps [of 0 ?n "h_swap 0 ?n h" lt]
      by (auto simp: heap_pop_def heap_remove_def sift_def Let_def up)
  qed
qed

lemma length_heap_pop: "fst h \<noteq> [] \<Longrightarrow> Suc (length (fst (snd (heap_pop lt h)))) = length (fst h)"
proof -
  assume "fst h \<noteq> []"
  moreover have "length (fst (snd (heap_down lt 0 (length (fst h) - 1)
      (h_swap 0 (length (fst h) - 1) h)))) = length (fst h)"
    by (subst length_heap_down) auto
  ultimately show ?thesis by (simp add: heap_pop_def h_chop_def Let_def)
qed

lemma length_heap_pop_less: "xs \<noteq> [] \<Longrightarrow> length (fst (snd (heap_pop lt (xs, p)))) < length xs"
  using length_heap_pop [of "(xs, p)" lt] by simp

text \<open>One and two elements, for evaluating scenarios.\<close>

lemma heap_pop_single: "heap_pop lt ([a], p) = (a, ([], p(a := - 1)))"
  by (simp add: heap_pop_def h_chop_def h_swap_def heap_down.simps [of lt 0 0])

lemma heap_pop_pair: "heap_pop lt ([a, b], p) = (a, ([b], p(b := 0, a := - 1)))"
  by (simp add: heap_pop_def h_chop_def h_swap_def heap_down.simps [of lt 0 "Suc 0"])

lemma heap_push_empty: "heap_push lt a ([], p) = ([a], p(a := 0))"
  by (simp add: heap_push_def h_append_def heap_up.simps [of lt 0])

lemma heap_push_above: "\<not> lt b a \<Longrightarrow> heap_push lt b ([a], p) = ([a, b], p(b := 1))"
  by (simp add: heap_push_def h_append_def heap_up.simps [of lt "Suc 0"])

section \<open>The heap order\<close>

definition par :: "nat \<Rightarrow> nat" where
  "par j = (j - 1) div 2"

lemma par_eq_iff: "0 < m \<Longrightarrow> par m = i \<longleftrightarrow> m = 2 * i + 1 \<or> m = 2 * i + 2"
  unfolding par_def by presburger

lemma par_less [simp]: "0 < m \<Longrightarrow> par m < m"
  unfolding par_def by linarith

text \<open>\<open>Init\<close>'s contract: no element is less than its parent, up to index \<open>n\<close>. \<open>almost_heap\<close> is
  the same but at index \<open>k\<close>, whose element was exchanged: its children are still not less than its
  parent.\<close>

definition heap_order :: "('a \<Rightarrow> 'a \<Rightarrow> bool) \<Rightarrow> 'a list \<Rightarrow> nat \<Rightarrow> bool" where
  "heap_order lt xs n \<longleftrightarrow> (\<forall>j < n. 0 < j \<longrightarrow> \<not> lt (xs ! j) (xs ! par j))"

definition almost_heap :: "('a \<Rightarrow> 'a \<Rightarrow> bool) \<Rightarrow> 'a list \<Rightarrow> nat \<Rightarrow> nat \<Rightarrow> bool" where
  "almost_heap lt xs n k \<longleftrightarrow>
     (\<forall>j < n. 0 < j \<longrightarrow> j \<noteq> k \<longrightarrow> par j \<noteq> k \<longrightarrow> \<not> lt (xs ! j) (xs ! par j)) \<and>
     (\<forall>j < n. 0 < j \<longrightarrow> par j = k \<longrightarrow> 0 < k \<longrightarrow> \<not> lt (xs ! j) (xs ! par k))"

definition children_ok :: "('a \<Rightarrow> 'a \<Rightarrow> bool) \<Rightarrow> 'a list \<Rightarrow> nat \<Rightarrow> nat \<Rightarrow> bool" where
  "children_ok lt xs n k \<longleftrightarrow> (\<forall>j < n. 0 < j \<longrightarrow> par j = k \<longrightarrow> \<not> lt (xs ! j) (xs ! k))"

definition parent_ok :: "('a \<Rightarrow> 'a \<Rightarrow> bool) \<Rightarrow> 'a list \<Rightarrow> nat \<Rightarrow> bool" where
  "parent_ok lt xs k \<longleftrightarrow> (0 < k \<longrightarrow> \<not> lt (xs ! k) (xs ! par k))"

lemma heap_orderI:
  "almost_heap lt xs n k \<Longrightarrow> children_ok lt xs n k \<Longrightarrow> parent_ok lt xs k \<Longrightarrow> heap_order lt xs n"
  unfolding heap_order_def almost_heap_def children_ok_def parent_ok_def by metis

lemma heap_order_take:
  "heap_order lt xs n \<Longrightarrow> m \<le> n \<Longrightarrow> (\<And>k. k < m \<Longrightarrow> ys ! k = xs ! k) \<Longrightarrow> heap_order lt ys m"
  unfolding heap_order_def by (metis less_le_trans less_trans par_less)

lemma heap_order_cong:
  assumes "heap_order lt xs n" "n \<le> length xs"
    and "\<And>a b. a \<in> set xs \<Longrightarrow> b \<in> set xs \<Longrightarrow> lt' a b = lt a b"
  shows "heap_order lt' xs n"
  using assms less_trans [OF par_less] unfolding heap_order_def
  by (metis less_le_trans nth_mem)

locale less_order =
  fixes lt :: "'a \<Rightarrow> 'a \<Rightarrow> bool"
  assumes asym: "lt a b \<Longrightarrow> \<not> lt b a"
    and neg_trans: "\<not> lt a b \<Longrightarrow> \<not> lt b c \<Longrightarrow> \<not> lt a c"
begin

lemma root_minimal: "heap_order lt xs n \<Longrightarrow> j < n \<Longrightarrow> \<not> lt (xs ! j) (xs ! 0)"
proof (induction j rule: less_induct)
  case (less j)
  show ?case
  proof (cases "j = 0")
    case True
    then show ?thesis using asym by blast
  next
    case False
    then have "\<not> lt (xs ! j) (xs ! par j)" "\<not> lt (xs ! par j) (xs ! 0)"
      using less par_less [of j] by (auto simp: heap_order_def dest: less_trans)
    then show ?thesis by (rule neg_trans)
  qed
qed

lemma heap_order_almost:
  assumes "heap_order lt xs n" "i < n" "\<And>k. k < n \<Longrightarrow> k \<noteq> i \<Longrightarrow> ys ! k = xs ! k"
  shows "almost_heap lt ys n i"
proof -
  have 1: "\<not> lt (ys ! j) (ys ! par j)" if "j < n" "0 < j" "j \<noteq> i" "par j \<noteq> i" for j
    using assms that by (metis heap_order_def less_trans par_less)
  have 2: "\<not> lt (ys ! j) (ys ! par i)" if j: "j < n" "0 < j" "par j = i" "0 < i" for j
  proof -
    have "par i < i" "i < j" using j par_less by blast+
    then have "ys ! j = xs ! j" "ys ! par i = xs ! par i"
      using assms(2) j(1) by (simp_all add: assms(3))
    moreover have "\<not> lt (xs ! j) (xs ! i)" "\<not> lt (xs ! i) (xs ! par i)"
      using assms j by (auto simp: heap_order_def)
    ultimately show ?thesis using neg_trans by simp
  qed
  show ?thesis unfolding almost_heap_def using 1 2 by blast
qed

text \<open>Changing what \<open>Less\<close> says about one element leaves an exception at its index.\<close>

lemma heap_order_rekey:
  assumes "heap_order lt xs n" "i < n" "n \<le> length xs" "distinct xs"
    and agree: "\<And>a b. a \<noteq> xs ! i \<Longrightarrow> b \<noteq> xs ! i \<Longrightarrow> lt' a b = lt a b"
  shows "almost_heap lt' xs n i"
proof -
  have neq: "xs ! j \<noteq> xs ! i" if "j < n" "j \<noteq> i" for j
    using assms that by (simp add: nth_eq_iff_index_eq)
  have 1: "\<not> lt' (xs ! j) (xs ! par j)" if "j < n" "0 < j" "j \<noteq> i" "par j \<noteq> i" for j
    using assms(1) that less_trans [OF par_less that(1)] agree [OF neq neq]
    by (simp add: heap_order_def)
  have 2: "\<not> lt' (xs ! j) (xs ! par i)" if j: "j < n" "0 < j" "par j = i" "0 < i" for j
  proof -
    have o: "par i < i" "i < j" using j par_less by blast+
    have "\<not> lt (xs ! j) (xs ! i)" "\<not> lt (xs ! i) (xs ! par i)"
      using assms(1,2) j by (auto simp: heap_order_def)
    then have "\<not> lt (xs ! j) (xs ! par i)" using neg_trans by blast
    moreover have "par i < n" "par i \<noteq> i" "j \<noteq> i" using o assms(2) by auto
    ultimately show ?thesis using agree [OF neq neq] j(1) by simp
  qed
  show ?thesis unfolding almost_heap_def using 1 2 by blast
qed

lemma min_child_least:
  assumes "2 * i + 1 < n" "m < n" "0 < m" "par m = i"
  shows "\<not> lt (xs ! m) (xs ! min_child lt xs n i)"
  using assms asym by (auto simp: min_child_def par_eq_iff)

lemma par_min_child: "2 * i + 1 < n \<Longrightarrow> par (min_child lt xs n i) = i"
  by (auto simp: min_child_def par_def)

text \<open>One step of sifting down moves the exception to the child and leaves it below its parent.\<close>

lemma down_step:
  assumes a: "almost_heap lt (fst h) n i" and n: "n \<le> length (fst h)" "2 * i + 1 < n"
    and j: "j = min_child lt (fst h) n i" and l: "lt (fst h ! j) (fst h ! i)"
  shows "almost_heap lt (fst (h_swap i j h)) n j \<and> parent_ok lt (fst (h_swap i j h)) j"
proof -
  let ?xs = "fst h" and ?ys = "fst (h_swap i j h)"
  have ij: "i < j" "j < n" "par j = i"
    using min_child_bounds [of i n lt ?xs] par_min_child n j by auto
  then have ys: "?ys ! i = ?xs ! j" "?ys ! j = ?xs ! i"
    "\<And>k. k < n \<Longrightarrow> k \<noteq> i \<Longrightarrow> k \<noteq> j \<Longrightarrow> ?ys ! k = ?xs ! k"
    using n by (simp_all add: nth_h_swap)
  have 1: "\<not> lt (?ys ! m) (?ys ! par m)" if m: "m < n" "0 < m" "m \<noteq> j" "par m \<noteq> j" for m
  proof -
    have pm: "par m < m" using m by simp
    consider "m = i" | "m \<noteq> i" "par m = i" | "m \<noteq> i" "par m \<noteq> i" by blast
    then show ?thesis
    proof cases
      case 1
      then have "?ys ! par m = ?xs ! par m" using pm m less_trans [OF pm m(1)] ys(3) by fastforce
      then show ?thesis using 1 a ij m ys by (auto simp: almost_heap_def)
    next
      case 2
      then show ?thesis using min_child_least [of i n m ?xs] n m ys j by auto
    next
      case 3
      then show ?thesis using a m ys(3) [of m] ys(3) [of "par m"] pm
        by (simp add: almost_heap_def)
    qed
  qed
  have 2: "\<not> lt (?ys ! m) (?ys ! par j)" if m: "m < n" "0 < m" "par m = j" for m
  proof -
    have "j < m" using m par_less by blast
    then show ?thesis using a m ys ij by (auto simp: almost_heap_def)
  qed
  show ?thesis unfolding almost_heap_def parent_ok_def using 1 2 ij ys asym [OF l] by auto
qed

lemma heap_down_order:
  "i < n \<Longrightarrow> n \<le> length (fst h) \<Longrightarrow> almost_heap lt (fst h) n i \<Longrightarrow> parent_ok lt (fst h) i \<Longrightarrow>
   heap_order lt (fst (snd (heap_down lt i n h))) n"
proof (induction "n - i" arbitrary: i h rule: less_induct)
  case (less i h)
  let ?j = "min_child lt (fst h) n i"
  consider "2 * i + 1 \<ge> n" | "2 * i + 1 < n" "\<not> lt (fst h ! ?j) (fst h ! i)"
    | "2 * i + 1 < n" "lt (fst h ! ?j) (fst h ! i)" by linarith
  then show ?case
  proof cases
    case 1
    then have "children_ok lt (fst h) n i" by (auto simp: children_ok_def par_eq_iff)
    then show ?thesis using 1 less.prems by (simp add: heap_down.simps [of lt i n h] heap_orderI)
  next
    case 2
    then have "children_ok lt (fst h) n i"
      unfolding children_ok_def using min_child_least neg_trans by blast
    then show ?thesis using 2 less.prems by (simp add: heap_down.simps [of lt i n h] heap_orderI)
  next
    case 3
    then have "almost_heap lt (fst (h_swap i ?j h)) n ?j \<and> parent_ok lt (fst (h_swap i ?j h)) ?j"
      using down_step less.prems by blast
    moreover have "n - ?j < n - i" using min_child_bounds [of i n lt "fst h"] 3 by auto
    ultimately show ?thesis
      using less.hyps [of ?j "h_swap i ?j h"] 3 less.prems min_child_bounds [of i n lt "fst h"]
      by (simp add: heap_down.simps [of lt i n h] Let_def)
  qed
qed

lemma up_step:
  assumes a: "almost_heap lt (fst h) n j" and c: "children_ok lt (fst h) n j"
    and n: "n \<le> length (fst h)" "0 < j" "j < n" and l: "lt (fst h ! j) (fst h ! par j)"
  shows "almost_heap lt (fst (h_swap (par j) j h)) n (par j) \<and>
    children_ok lt (fst (h_swap (par j) j h)) n (par j)"
proof -
  let ?i = "par j"
  let ?xs = "fst h" and ?ys = "fst (h_swap ?i j h)"
  have ij: "?i < j" using n by simp
  then have ys: "?ys ! ?i = ?xs ! j" "?ys ! j = ?xs ! ?i"
    "\<And>k. k < n \<Longrightarrow> k \<noteq> ?i \<Longrightarrow> k \<noteq> j \<Longrightarrow> ?ys ! k = ?xs ! k"
    using n less_trans [OF ij n(3)] by (simp_all add: nth_h_swap)
  have sib: "\<not> lt (?xs ! m) (?xs ! ?i)" if "m < n" "0 < m" "m \<noteq> j" "par m = ?i" for m
    using a that ij by (auto simp: almost_heap_def)
  have 1: "\<not> lt (?ys ! m) (?ys ! par m)" if m: "m < n" "0 < m" "m \<noteq> ?i" "par m \<noteq> ?i" for m
  proof (cases "par m = j")
    case True
    then have "j < m" using m par_less by blast
    then have "?ys ! m = ?xs ! m" using ys(3) [of m] m ij by auto
    then show ?thesis using a True m n ys(2) by (simp add: almost_heap_def)
  next
    case False
    have pm: "par m < m" "par m < n" using m by (auto intro: less_trans par_less)
    have "m \<noteq> j" using m by auto
    then show ?thesis using a m ys(3) [of m] ys(3) [of "par m"] pm False
      by (simp add: almost_heap_def)
  qed
  have 2: "\<not> lt (?ys ! m) (?ys ! par ?i)" if m: "m < n" "0 < m" "par m = ?i" "0 < ?i" for m
  proof -
    have p: "par ?i < ?i" using m by simp
    then have g: "?ys ! par ?i = ?xs ! par ?i" using ys(3) [of "par ?i"] ij n by auto
    have "par ?i \<noteq> j" "?i \<noteq> j" "?i < n" using less_trans [OF p ij] less_trans [OF ij n(3)] ij by auto
    then have i: "\<not> lt (?xs ! ?i) (?xs ! par ?i)" using a m(4) by (simp add: almost_heap_def)
    show ?thesis
    proof (cases "m = j")
      case True
      then show ?thesis using g i ys(2) by simp
    next
      case False
      then have "?ys ! m = ?xs ! m" using ys(3) [of m] m par_less [of m] by auto
      then show ?thesis using g neg_trans [OF sib [OF m(1,2) False m(3)] i] by simp
    qed
  qed
  have 3: "\<not> lt (?ys ! m) (?ys ! ?i)" if m: "m < n" "0 < m" "par m = ?i" for m
  proof (cases "m = j")
    case True
    then show ?thesis using ys asym [OF l] by simp
  next
    case False
    then have "?ys ! m = ?xs ! m" using ys(3) [of m] m par_less [of m] by auto
    then show ?thesis using neg_trans [OF sib [OF m(1,2) False m(3)] asym [OF l]] ys(1) by simp
  qed
  show ?thesis unfolding almost_heap_def children_ok_def using 1 2 3 by blast
qed

lemma heap_up_order:
  "j < n \<Longrightarrow> n \<le> length (fst h) \<Longrightarrow> almost_heap lt (fst h) n j \<Longrightarrow> children_ok lt (fst h) n j \<Longrightarrow>
   heap_order lt (fst (heap_up lt j h)) n"
proof (induction j arbitrary: h rule: less_induct)
  case (less j h)
  show ?case
  proof (cases "par j = j \<or> \<not> lt (fst h ! j) (fst h ! par j)")
    case True
    moreover have "par j \<noteq> j" if "0 < j" using par_less [OF that] by simp
    ultimately have "parent_ok lt (fst h) j" by (auto simp: parent_ok_def)
    moreover have "heap_up lt j h = h"
      using True by (auto simp: heap_up.simps [of lt j h] par_def Let_def)
    ultimately show ?thesis using less.prems by (simp add: heap_orderI)
  next
    case False
    then have j: "0 < j" by (cases j) (auto simp: par_def)
    then have "heap_up lt j h = heap_up lt (par j) (h_swap (par j) j h)"
      using False by (simp add: heap_up.simps [of lt j h] par_def Let_def)
    moreover have "almost_heap lt (fst (h_swap (par j) j h)) n (par j) \<and>
        children_ok lt (fst (h_swap (par j) j h)) n (par j)"
      using up_step less.prems j False by blast
    moreover have "par j < n" using j less.prems par_less less_trans by blast
    ultimately show ?thesis
      using less.IH [of "par j" "h_swap (par j) j h"] j less.prems by simp
  qed
qed

lemma sift_order:
  assumes "i < n" "n \<le> length (fst h)" "almost_heap lt (fst h) n i"
  shows "heap_order lt (fst (sift lt i n h)) n"
proof -
  let ?j = "min_child lt (fst h) n i"
  show ?thesis
  proof (cases "2 * i + 1 < n \<and> lt (fst h ! ?j) (fst h ! i)")
    case True
    then have eq: "heap_down lt i n h = heap_down lt ?j n (h_swap i ?j h)"
      by (simp add: heap_down.simps [of lt i n h] Let_def)
    have j: "?j < n" "i < ?j" using True min_child_bounds by blast+
    have "heap_order lt (fst (snd (heap_down lt ?j n (h_swap i ?j h)))) n"
      using heap_down_order [OF j(1)] down_step [OF assms(3,2)] assms(2) True by simp
    moreover have "?j \<le> fst (heap_down lt ?j n (h_swap i ?j h))"
      using heap_down_keeps [of ?j n "h_swap i ?j h" lt] j assms by simp
    ultimately show ?thesis using eq j by (simp add: sift_def Let_def)
  next
    case False
    have "children_ok lt (fst h) n i"
    proof (cases "2 * i + 1 < n")
      case True
      then show ?thesis
        unfolding children_ok_def using False min_child_least neg_trans by blast
    next
      case False
      then show ?thesis by (auto simp: children_ok_def par_eq_iff)
    qed
    moreover have "heap_down lt i n h = (i, h)"
      using False by (auto simp: heap_down.simps [of lt i n h] Let_def)
    ultimately show ?thesis using assms heap_up_order by (simp add: sift_def Let_def)
  qed
qed

text \<open>The contracts of the exported operations.\<close>

lemma heap_push_ok:
  assumes "heap_order lt (fst h) (length (fst h))" "pos_ok h" "x \<notin> set (fst h)"
  shows "heap_order lt (fst (heap_push lt x h)) (length (fst (heap_push lt x h)))"
    and "pos_ok (heap_push lt x h)"
    and "mset (fst (heap_push lt x h)) = add_mset x (mset (fst h))"
proof -
  let ?n = "length (fst h)" and ?g = "h_append x h"
  have g: "fst ?g = fst h @ [x]" by (simp add: h_append_def)
  have p: "pos_ok ?g"
    using assms(2,3) by (auto simp: pos_ok_def h_append_def nth_append less_Suc_eq)
  have k: "mset (fst (heap_up lt ?n ?g)) = mset (fst ?g) \<and> (pos_ok ?g \<longrightarrow> pos_ok (heap_up lt ?n ?g))"
    using heap_up_keeps [of ?n ?g lt] g by simp
  then show "pos_ok (heap_push lt x h)"
    and m: "mset (fst (heap_push lt x h)) = add_mset x (mset (fst h))"
    using p g by (simp_all add: heap_push_def)
  have old: "\<not> lt ((fst h @ [x]) ! j) ((fst h @ [x]) ! par j)" if "j < ?n" "0 < j" for j
    using assms(1) that less_trans [OF par_less that(1)] by (simp add: heap_order_def nth_append)
  have beyond: "par j \<noteq> ?n" if "j < Suc ?n" "0 < j" for j
    using par_less [OF that(2)] that(1) by linarith
  have "almost_heap lt (fst ?g) (Suc ?n) ?n"
    unfolding almost_heap_def g using old beyond by (auto simp: less_Suc_eq)
  moreover have "children_ok lt (fst ?g) (Suc ?n) ?n"
    unfolding children_ok_def using beyond by blast
  moreover have "length (fst (heap_push lt x h)) = Suc ?n"
    using m by (metis size_add_mset size_mset)
  ultimately show "heap_order lt (fst (heap_push lt x h)) (length (fst (heap_push lt x h)))"
    using heap_up_order [of ?n "Suc ?n" ?g] g by (simp add: heap_push_def)
qed

lemma heap_fix_ok:
  assumes "almost_heap lt (fst h) (length (fst h)) i" "pos_ok h" "i < length (fst h)"
  shows "heap_order lt (fst (heap_fix lt i h)) (length (fst (heap_fix lt i h)))"
    and "pos_ok (heap_fix lt i h)"
    and "mset (fst (heap_fix lt i h)) = mset (fst h)"
proof -
  let ?n = "length (fst h)"
  have k: "mset (fst (sift lt i ?n h)) = mset (fst h) \<and> pos_ok (sift lt i ?n h)"
    using sift_keeps assms by blast
  then show "pos_ok (heap_fix lt i h)" and m: "mset (fst (heap_fix lt i h)) = mset (fst h)"
    by (simp_all add: heap_fix_def)
  then have "length (fst (heap_fix lt i h)) = ?n" by (metis mset_eq_length)
  then show "heap_order lt (fst (heap_fix lt i h)) (length (fst (heap_fix lt i h)))"
    using sift_order [of i ?n h] assms by (simp add: heap_fix_def)
qed

lemma heap_remove_ok:
  assumes "heap_order lt (fst h) (length (fst h))" "pos_ok h" "i < length (fst h)"
  shows "fst (heap_remove lt i h) = fst h ! i"
    and "heap_order lt (fst (snd (heap_remove lt i h))) (length (fst (snd (heap_remove lt i h))))"
    and "pos_ok (snd (heap_remove lt i h))"
    and "add_mset (fst h ! i) (mset (fst (snd (heap_remove lt i h)))) = mset (fst h)"
proof -
  let ?n = "length (fst h) - 1"
  define g where "g = (if ?n = i then h else sift lt i ?n (h_swap i ?n h))"
  have R: "heap_remove lt i h = h_chop g" by (simp add: heap_remove_def g_def Let_def)
  have keep: "mset (fst g) = mset (fst h) \<and> pos_ok g \<and> fst g ! ?n = fst h ! i"
    and ord: "heap_order lt (fst g) ?n"
  proof -
    have "mset (fst g) = mset (fst h) \<and> pos_ok g \<and> fst g ! ?n = fst h ! i \<and> heap_order lt (fst g) ?n"
    proof (cases "?n = i")
      case True
      then show ?thesis using assms by (auto simp: g_def intro: heap_order_take)
    next
      case False
      let ?s = "h_swap i ?n h"
      have i: "i < ?n" using False assms(3) by linarith
      have s: "mset (fst ?s) = mset (fst h)" "pos_ok ?s" "length (fst ?s) = length (fst h)"
        using assms i by (simp_all add: pos_ok_h_swap)
      have "heap_order lt (fst h) ?n" using assms(1) by (rule heap_order_take) auto
      then have "almost_heap lt (fst ?s) ?n i"
        by (rule heap_order_almost) (use i assms in \<open>auto simp: nth_h_swap\<close>)
      then have "heap_order lt (fst (sift lt i ?n ?s)) ?n"
        using i s by (intro sift_order) auto
      moreover have "mset (fst (sift lt i ?n ?s)) = mset (fst ?s)" "pos_ok (sift lt i ?n ?s)"
        "fst (sift lt i ?n ?s) ! ?n = fst ?s ! ?n"
        using sift_keeps [of i ?n ?s lt] i s by auto
      moreover have "fst ?s ! ?n = fst h ! i" using i assms(3) by (simp add: nth_h_swap)
      ultimately show ?thesis using False s by (simp add: g_def)
    qed
    then show "mset (fst g) = mset (fst h) \<and> pos_ok g \<and> fst g ! ?n = fst h ! i"
      and "heap_order lt (fst g) ?n" by blast+
  qed
  have len: "length (fst g) = length (fst h)" using keep by (metis mset_eq_length)
  have ne: "fst g \<noteq> []" using len assms(3) by (metis less_zeroE list.size(3))
  have last: "last (fst g) = fst h ! i" using keep len ne by (simp add: last_conv_nth)
  show "fst (heap_remove lt i h) = fst h ! i" using R last by (simp add: h_chop_def)
  have bl: "fst (snd (heap_remove lt i h)) = butlast (fst g)" using R by (simp add: h_chop_def)
  show "heap_order lt (fst (snd (heap_remove lt i h))) (length (fst (snd (heap_remove lt i h))))"
    unfolding bl using ord len by (auto simp: nth_butlast intro: heap_order_take)
  show "pos_ok (snd (heap_remove lt i h))"
    using pos_ok_chop [OF _ ne] keep R by metis
  have "mset (fst g) = add_mset (last (fst g)) (mset (butlast (fst g)))"
    using ne by (metis append_butlast_last_id mset_append mset.simps(1,2) add_mset_add_single)
  then show "add_mset (fst h ! i) (mset (fst (snd (heap_remove lt i h)))) = mset (fst h)"
    using keep last bl by simp
qed

text \<open>\<open>Pop\<close> is \<open>Remove\<close> of the root.\<close>

lemma heap_pop_ok:
  assumes "heap_order lt (fst h) (length (fst h))" "pos_ok h" "fst h \<noteq> []"
  shows "fst (heap_pop lt h) = fst h ! 0"
    and "heap_order lt (fst (snd (heap_pop lt h))) (length (fst (snd (heap_pop lt h))))"
    and "pos_ok (snd (heap_pop lt h))"
    and "add_mset (fst h ! 0) (mset (fst (snd (heap_pop lt h)))) = mset (fst h)"
  using heap_remove_ok [of h 0] heap_pop_eq_remove [of h lt] assms by simp_all

end

end
