(* ===== verification/Job_Model.thy ===== *)
theory Job_Model
  imports Go_Prelude
begin

text \<open>
  \<open>internal/model/model.go\<close>: the records every component passes around and the constants of their
  enumerations. The enumerations are \<open>int8\<close> or \<open>string\<close> types in Go, any value of which can arrive
  from the database or the API, so they stay integers and strings here and every \<open>switch\<close> of the
  code keeps its default branch. A \<open>*time.Time\<close> is a \<open>time option\<close>.
\<close>

section \<open>Executor\<close>

type_synonym executor_status = int
definition ExecutorOffline :: executor_status where "ExecutorOffline = 0"
definition ExecutorOnline :: executor_status where "ExecutorOnline = 1"

type_synonym register_type = int
definition RegisterAuto :: register_type where "RegisterAuto = 0"
definition RegisterManual :: register_type where "RegisterManual = 1"

record Executor =
  ex_ID :: int
  ex_AppName :: string
  ex_Title :: string
  ex_Address :: string
  ex_RegisterType :: register_type
  ex_Status :: executor_status
  ex_Weight :: int
  ex_HeartbeatTime :: "time option"
  ex_Version :: string
  ex_Tags :: string

definition IsOnline :: "Executor \<Rightarrow> bool" where
  "IsOnline e \<longleftrightarrow> ex_Status e = ExecutorOnline"

section \<open>JobInfo\<close>

type_synonym job_type = int
definition JobTypeCron :: job_type where "JobTypeCron = 1"
definition JobTypeDelay :: job_type where "JobTypeDelay = 2"
definition JobTypeOnce :: job_type where "JobTypeOnce = 3"
definition JobTypeSharding :: job_type where "JobTypeSharding = 4"

type_synonym execute_type = string
definition ExecuteTypeBean :: execute_type where "ExecuteTypeBean = ''BEAN''"
definition ExecuteTypeShell :: execute_type where "ExecuteTypeShell = ''SHELL''"
definition ExecuteTypeCmd :: execute_type where "ExecuteTypeCmd = ''CMD''"
definition ExecuteTypePython :: execute_type where "ExecuteTypePython = ''PYTHON''"

type_synonym route_strategy = string
definition RouteFirst :: route_strategy where "RouteFirst = ''FIRST''"
definition RouteLast :: route_strategy where "RouteLast = ''LAST''"
definition RouteRoundRobin :: route_strategy where "RouteRoundRobin = ''ROUND_ROBIN''"
definition RouteRandom :: route_strategy where "RouteRandom = ''RANDOM''"
definition RouteConsistentHash :: route_strategy where "RouteConsistentHash = ''CONSISTENT_HASH''"
definition RouteLFU :: route_strategy where "RouteLFU = ''LFU''"
definition RouteLRU :: route_strategy where "RouteLRU = ''LRU''"
definition RouteFailover :: route_strategy where "RouteFailover = ''FAILOVER''"
definition RouteBusyTransfer :: route_strategy where "RouteBusyTransfer = ''BUSY_TRANSFER''"
definition RouteShardingBroadcast :: route_strategy
  where "RouteShardingBroadcast = ''SHARDING_BROADCAST''"

type_synonym block_strategy = int
definition BlockSerial :: block_strategy where "BlockSerial = 1"
definition BlockDiscard :: block_strategy where "BlockDiscard = 2"
definition BlockOverride :: block_strategy where "BlockOverride = 3"

type_synonym misfire_strategy = int
definition MisfireIgnore :: misfire_strategy where "MisfireIgnore = 1"
definition MisfireRunOnce :: misfire_strategy where "MisfireRunOnce = 2"

type_synonym job_status = int
definition JobStop :: job_status where "JobStop = 0"
definition JobRun :: job_status where "JobRun = 1"

record JobInfo =
  ji_ID :: int
  ji_ExecutorID :: int
  ji_ExecutorApp :: string
  ji_JobName :: string
  ji_JobDesc :: string
  ji_JobType :: job_type
  ji_CronExpression :: string
  ji_ExecuteType :: execute_type
  ji_ExecuteParam :: string
  ji_ExecuteHandler :: string
  ji_RouteStrategy :: route_strategy
  ji_BlockStrategy :: block_strategy
  ji_MisfireStrategy :: misfire_strategy
  ji_Timeout :: int
  ji_RetryCount :: int
  ji_RetryInterval :: int
  ji_ShardingNum :: int
  ji_AlarmEmail :: string
  ji_AlarmWebhook :: string
  ji_Status :: job_status
  ji_NextTriggerTime :: "time option"
  ji_LastTriggerTime :: "time option"
  ji_CreateUser :: string

text \<open>\<open>internal/model/job.go\<close> declares the same struct with three more columns; the scheduler uses none of
  them, the services do.\<close>

record JobRow = JobInfo +
  jr_ChildJobIDs :: string
  jr_GroupID :: int
  jr_TriggerCount :: int

definition IsRunning :: "JobInfo \<Rightarrow> bool" where
  "IsRunning j \<longleftrightarrow> ji_Status j = JobRun"

section \<open>JobLog\<close>

type_synonym log_status = int
definition LogInit :: log_status where "LogInit = 0"
definition LogSuccess :: log_status where "LogSuccess = 1"
definition LogFail :: log_status where "LogFail = 2"
definition LogRunning :: log_status where "LogRunning = 3"
definition LogTimeout :: log_status where "LogTimeout = 4"
definition LogKilled :: log_status where "LogKilled = 5"

type_synonym trigger_type = int
definition TriggerCron :: trigger_type where "TriggerCron = 1"
definition TriggerManual :: trigger_type where "TriggerManual = 2"
definition TriggerRetry :: trigger_type where "TriggerRetry = 3"
definition TriggerChild :: trigger_type where "TriggerChild = 4"

record JobLog =
  jl_ID :: int
  jl_JobID :: int
  jl_ExecutorID :: int
  jl_ExecutorAddress :: string
  jl_ExecuteParam :: string
  jl_Status :: log_status
  jl_ErrorMsg :: string
  jl_ShardingIndex :: int
  jl_ShardingTotal :: int
  jl_TriggerTime :: time
  jl_StartTime :: "time option"
  jl_EndTime :: "time option"
  jl_DurationMs :: int
  jl_TriggerType :: trigger_type

record JobLogDetail =
  jd_ID :: int
  jd_LogID :: int
  jd_JobID :: int
  jd_LogContent :: string

section \<open>SysUser\<close>

type_synonym user_role = int
definition RoleAdmin :: user_role where "RoleAdmin = 1"
definition RoleNormal :: user_role where "RoleNormal = 2"

type_synonym user_status = int
definition UserDisabled :: user_status where "UserDisabled = 0"
definition UserEnabled :: user_status where "UserEnabled = 1"

record SysUser =
  su_ID :: int
  su_Username :: string
  su_Password :: string
  su_Nickname :: string
  su_Email :: string
  su_Role :: user_role
  su_Status :: user_status
  su_LastLogin :: "time option"

definition IsAdmin :: "SysUser \<Rightarrow> bool" where
  "IsAdmin u \<longleftrightarrow> su_Role u = RoleAdmin"

definition IsActive :: "SysUser \<Rightarrow> bool" where
  "IsActive u \<longleftrightarrow> su_Status u = UserEnabled"

lemmas status_defs = ExecutorOffline_def ExecutorOnline_def JobStop_def JobRun_def
  LogInit_def LogSuccess_def LogFail_def LogRunning_def LogTimeout_def LogKilled_def
lemmas strategy_defs = RouteFirst_def RouteLast_def RouteRoundRobin_def RouteRandom_def
  RouteConsistentHash_def RouteLFU_def RouteLRU_def RouteFailover_def RouteBusyTransfer_def
  RouteShardingBroadcast_def BlockSerial_def BlockDiscard_def BlockOverride_def
  MisfireIgnore_def MisfireRunOnce_def TriggerCron_def TriggerManual_def TriggerRetry_def
  TriggerChild_def
declare status_defs [go_defs] strategy_defs [go_defs]

lemma JobStop_neq_JobRun [simp]: "JobStop \<noteq> JobRun" "JobRun \<noteq> JobStop"
  by (simp_all add: status_defs)

text \<open>A job with the fields a scenario needs and zero values elsewhere; the evaluations start from it.\<close>

definition zero_job :: "int \<Rightarrow> JobInfo" where
  "zero_job n = \<lparr>ji_ID = n, ji_ExecutorID = 0, ji_ExecutorApp = [], ji_JobName = [], ji_JobDesc = [],
     ji_JobType = 0, ji_CronExpression = [], ji_ExecuteType = [], ji_ExecuteParam = [],
     ji_ExecuteHandler = [], ji_RouteStrategy = [], ji_BlockStrategy = 0, ji_MisfireStrategy = 0,
     ji_Timeout = 0, ji_RetryCount = 0, ji_RetryInterval = 0, ji_ShardingNum = 0,
     ji_AlarmEmail = [], ji_AlarmWebhook = [], ji_Status = 0, ji_NextTriggerTime = None,
     ji_LastTriggerTime = None, ji_CreateUser = []\<rparr>"

lemma zero_job_simps [simp]:
  "ji_ID (zero_job n) = n" "ji_Status (zero_job n) = 0" "ji_NextTriggerTime (zero_job n) = None"
  "ji_CronExpression (zero_job n) = []" "ji_ExecutorApp (zero_job n) = []"
  "ji_BlockStrategy (zero_job n) = 0" "ji_RouteStrategy (zero_job n) = []"
  by (simp_all add: zero_job_def)

section \<open>Trigger order\<close>

text \<open>
  The order \<open>jobHeap.Less\<close> compares two jobs by: the next trigger time, a missing time after every
  present one. As a linear order the library's facts about \<open>sorted\<close> and \<open><\<close> apply to it.
\<close>

datatype trigger_key = At time | Never

instantiation trigger_key :: linorder
begin

fun less_eq_trigger_key :: "trigger_key \<Rightarrow> trigger_key \<Rightarrow> bool" where
  "less_eq_trigger_key (At s) (At t) = (s \<le> t)"
| "less_eq_trigger_key _ Never = True"
| "less_eq_trigger_key Never (At _) = False"

definition less_trigger_key :: "trigger_key \<Rightarrow> trigger_key \<Rightarrow> bool" where
  "less_trigger_key a b \<longleftrightarrow> a \<le> b \<and> \<not> b \<le> (a :: trigger_key)"

instance
proof
  fix a b c :: trigger_key
  show "a < b \<longleftrightarrow> a \<le> b \<and> \<not> b \<le> a" by (rule less_trigger_key_def)
  show "a \<le> a" by (cases a) auto
  show "a \<le> b \<Longrightarrow> b \<le> c \<Longrightarrow> a \<le> c" by (cases a; cases b; cases c) auto
  show "a \<le> b \<Longrightarrow> b \<le> a \<Longrightarrow> a = b" by (cases a; cases b) auto
  show "a \<le> b \<or> b \<le> a" by (cases a; cases b) auto
qed

end

lemma less_trigger_key_simps [simp]:
  "At s < At t \<longleftrightarrow> s < t" "At s < Never" "\<not> Never < k"
  by (auto simp: less_trigger_key_def)

fun key_of :: "time option \<Rightarrow> trigger_key" where
  "key_of None = Never"
| "key_of (Some t) = At t"

end
