(* ===== verification/Job_Store.thy ===== *)
theory Job_Store
  imports Go_Heap Job_Model
begin

text \<open>
  \<open>pkg/jobstore/jobstore.go\<close>: the in-memory registry of jobs and its trigger heap. An \<open>*Entry\<close> is an
  address; \<open>st_job\<close> and \<open>st_dirty\<close> are its fields, and its \<open>heapIdx\<close> field is the position map of
  the trigger heap \<open>st_heap\<close>. Addresses make the aliasing visible that the code relies on: the map
  \<open>jobByID\<close> and the heap point at the same entries.

  Every method is one transition of the whole store, which is how a method that nobody interrupts runs;
  \<open>Store_Interleaving\<close> cuts the methods at the points where another call can come in between. The invariant
  \<open>store_inv\<close> is kept by every method but \<open>LoadAll\<close>, which keeps it when the loaded ids are new; the
  functional lemmas give the effect of each method on the abstract registry \<open>registry\<close>.
\<close>

section \<open>State\<close>

datatype store_error = JobNotFound int

record Store =
  st_jobByID :: "int \<rightharpoonup> nat"
  st_job :: "nat \<Rightarrow> JobInfo"
  st_dirty :: "nat \<Rightarrow> bool"
  st_heap :: "nat pheap"
  st_count :: int
  st_fresh :: nat

definition store_New :: Store where
  "store_New = \<lparr>st_jobByID = Map.empty, st_job = (\<lambda>_. zero_job 0), st_dirty = (\<lambda>_. False),
     st_heap = ([], \<lambda>_. - 1), st_count = 0, st_fresh = 0\<rparr>"

fun job_less :: "(nat \<Rightarrow> JobInfo) \<Rightarrow> nat \<Rightarrow> nat \<Rightarrow> bool" where
  "job_less job a b =
     (case (ji_NextTriggerTime (job a), ji_NextTriggerTime (job b)) of
        (None, None) \<Rightarrow> False
      | (None, Some tj) \<Rightarrow> False
      | (Some ti, None) \<Rightarrow> True
      | (Some ti, Some tj) \<Rightarrow> ti < tj)"

definition heapIdx :: "Store \<Rightarrow> nat \<Rightarrow> int" where
  "heapIdx s a = snd (st_heap s) a"

definition copyJob :: "JobInfo \<Rightarrow> JobInfo" where
  "copyJob j = j\<lparr>ji_NextTriggerTime := map_option id (ji_NextTriggerTime j),
     ji_LastTriggerTime := map_option id (ji_LastTriggerTime j)\<rparr>"

lemma copyJob_id [simp]: "copyJob j = j"
  by (simp add: copyJob_def option.map_id)

section \<open>Operations\<close>

definition addToHeap :: "nat \<Rightarrow> Store \<Rightarrow> Store" where
  "addToHeap a s =
     (if heapIdx s a < 0 then s\<lparr>st_heap := heap_push (job_less (st_job s)) a (st_heap s)\<rparr> else s)"

definition removeFromHeap :: "nat \<Rightarrow> Store \<Rightarrow> Store" where
  "removeFromHeap a s =
     (if 0 \<le> heapIdx s a
      then let h = snd (heap_remove (job_less (st_job s)) (nat (heapIdx s a)) (st_heap s))
           in s\<lparr>st_heap := (fst h, (snd h)(a := - 1))\<rparr>
      else s)"

definition newEntry :: "JobInfo \<Rightarrow> bool \<Rightarrow> Store \<Rightarrow> nat \<times> Store" where
  "newEntry job dirty s =
     (let a = st_fresh s
      in (a, s\<lparr>st_job := (st_job s)(a := copyJob job), st_dirty := (st_dirty s)(a := dirty),
             st_heap := (fst (st_heap s), (snd (st_heap s))(a := - 1)), st_fresh := Suc a\<rparr>))"

definition store_Add :: "JobInfo \<Rightarrow> Store \<Rightarrow> Store" where
  "store_Add job s =
     (let (e, s1) = newEntry job True s;
          old = st_jobByID s1 (ji_ID job);
          s2 = s1\<lparr>st_jobByID := (st_jobByID s1)(ji_ID job \<mapsto> e)\<rparr>;
          s3 = (case old of Some a \<Rightarrow> removeFromHeap a s2
                | None \<Rightarrow> s2\<lparr>st_count := i64 (st_count s2 + 1)\<rparr>)
      in if ji_Status job = JobRun \<and> ji_NextTriggerTime job \<noteq> None then addToHeap e s3 else s3)"

definition store_Remove :: "int \<Rightarrow> Store \<Rightarrow> Store" where
  "store_Remove jid s =
     (case st_jobByID s jid of
        None \<Rightarrow> s
      | Some a \<Rightarrow>
          let s1 = removeFromHeap a (s\<lparr>st_jobByID := (st_jobByID s)(jid := None)\<rparr>)
          in s1\<lparr>st_count := i64 (st_count s1 - 1)\<rparr>)"

definition store_Get :: "int \<Rightarrow> Store \<Rightarrow> JobInfo option" where
  "store_Get jid s = map_option (\<lambda>a. copyJob (st_job s a)) (st_jobByID s jid)"

definition store_UpdateNextTrigger :: "int \<Rightarrow> time \<Rightarrow> time \<Rightarrow> Store \<Rightarrow> store_error + Store" where
  "store_UpdateNextTrigger jid nxt lst s =
     (case st_jobByID s jid of
        None \<Rightarrow> Inl (JobNotFound jid)
      | Some a \<Rightarrow>
          let job = (st_job s)(a := (st_job s a)\<lparr>ji_NextTriggerTime := Some nxt,
                                                 ji_LastTriggerTime := Some lst\<rparr>);
              s1 = s\<lparr>st_job := job, st_dirty := (st_dirty s)(a := True)\<rparr>
          in Inr (if 0 \<le> heapIdx s1 a
                  then s1\<lparr>st_heap := heap_fix (job_less job) (nat (heapIdx s1 a)) (st_heap s1)\<rparr>
                  else if ji_Status (job a) = JobRun
                  then s1\<lparr>st_heap := heap_push (job_less job) a (st_heap s1)\<rparr>
                  else s1))"

definition store_UpdateStatus :: "int \<Rightarrow> job_status \<Rightarrow> Store \<Rightarrow> store_error + Store" where
  "store_UpdateStatus jid status s =
     (case st_jobByID s jid of
        None \<Rightarrow> Inl (JobNotFound jid)
      | Some a \<Rightarrow>
          let job = (st_job s)(a := (st_job s a)\<lparr>ji_Status := status\<rparr>);
              s1 = s\<lparr>st_job := job, st_dirty := (st_dirty s)(a := True)\<rparr>
          in Inr (if status = JobStop \<and> 0 \<le> heapIdx s1 a
                  then let h = snd (heap_remove (job_less job) (nat (heapIdx s1 a)) (st_heap s1))
                       in s1\<lparr>st_heap := (fst h, (snd h)(a := - 1))\<rparr>
                  else if status = JobRun \<and> heapIdx s1 a < 0 \<and> ji_NextTriggerTime (job a) \<noteq> None
                  then s1\<lparr>st_heap := heap_push (job_less job) a (st_heap s1)\<rparr>
                  else s1))"

text \<open>The loop \<open>PeekDue\<close> and \<open>PopDue\<close> share: take the root while it is due and the result is
  shorter than the limit; an entry that is not running is dropped.\<close>

function due_loop ::
  "(nat \<Rightarrow> JobInfo) \<Rightarrow> time \<Rightarrow> int \<Rightarrow> nat pheap \<Rightarrow> JobInfo list \<Rightarrow> JobInfo list \<times> nat pheap" where
  "due_loop job deadline limit h result =
     (if fst h = [] \<or> \<not> int (length result) < limit then (result, h)
      else let top = fst h ! 0
           in case ji_NextTriggerTime (job top) of
                None \<Rightarrow> (result, h)
              | Some t \<Rightarrow>
                  if t > deadline then (result, h)
                  else let h1 = snd (heap_pop (job_less job) h)
                       in if ji_Status (job top) \<noteq> JobRun
                          then due_loop job deadline limit h1 result
                          else due_loop job deadline limit h1 (result @ [copyJob (job top)]))"
  by pat_completeness auto
termination
  by (relation "measure (\<lambda>(job, d, l, h, r). length (fst h))")
    (auto simp: length_heap_pop_less)

declare due_loop.simps [simp del]

definition store_PopDue :: "time \<Rightarrow> int \<Rightarrow> Store \<Rightarrow> JobInfo list \<times> Store" where
  "store_PopDue deadline limit s =
     (let (result, h) = due_loop (st_job s) deadline limit (st_heap s) []
      in (result, s\<lparr>st_heap := h\<rparr>))"

fun pushBack :: "JobInfo list \<Rightarrow> Store \<Rightarrow> Store" where
  "pushBack [] s = s"
| "pushBack (j # js) s =
     (case st_jobByID s (ji_ID j) of
        None \<Rightarrow> pushBack js s
      | Some a \<Rightarrow>
          pushBack js (if heapIdx s a < 0
                       then s\<lparr>st_heap := heap_push (job_less (st_job s)) a (st_heap s)\<rparr> else s))"

definition store_PeekDue :: "time \<Rightarrow> int \<Rightarrow> Store \<Rightarrow> JobInfo list \<times> Store" where
  "store_PeekDue deadline limit s =
     (let (result, h) = due_loop (st_job s) deadline limit (st_heap s) []
      in (result, pushBack result (s\<lparr>st_heap := h\<rparr>)))"

definition store_Len :: "Store \<Rightarrow> int" where "store_Len s = st_count s"

definition store_HeapLen :: "Store \<Rightarrow> nat" where "store_HeapLen s = length (fst (st_heap s))"

definition store_Range :: "int list \<Rightarrow> Store \<Rightarrow> JobInfo list" where
  "store_Range ord s = map (\<lambda>(k, a). copyJob (st_job s a)) (go_range (st_jobByID s) ord)"

fun drainLoop :: "nat list \<Rightarrow> Store \<Rightarrow> JobInfo list \<Rightarrow> JobInfo list \<times> Store" where
  "drainLoop [] s out = (out, s)"
| "drainLoop (a # as) s out =
     (if st_dirty s a
      then drainLoop as (s\<lparr>st_dirty := (st_dirty s)(a := False)\<rparr>) (out @ [copyJob (st_job s a)])
      else drainLoop as s out)"

definition store_DrainDirty :: "int list \<Rightarrow> Store \<Rightarrow> JobInfo list \<times> Store" where
  "store_DrainDirty ord s = drainLoop (map snd (go_range (st_jobByID s) ord)) s []"

definition store_MarkDirty :: "int \<Rightarrow> Store \<Rightarrow> Store" where
  "store_MarkDirty jid s =
     (case st_jobByID s jid of
        None \<Rightarrow> s
      | Some a \<Rightarrow> s\<lparr>st_dirty := (st_dirty s)(a := True)\<rparr>)"

fun store_LoadAll :: "JobInfo list \<Rightarrow> Store \<Rightarrow> Store" where
  "store_LoadAll [] s = s"
| "store_LoadAll (j # js) s =
     (let (e, s1) = newEntry j False s;
          s2 = s1\<lparr>st_jobByID := (st_jobByID s1)(ji_ID j \<mapsto> e),
                  st_count := i64 (st_count s1 + 1)\<rparr>
      in store_LoadAll js
           (if ji_Status j = JobRun \<and> ji_NextTriggerTime j \<noteq> None then addToHeap e s2 else s2))"

text \<open>One flush cycle. \<open>fails j\<close> is the outcome of the flusher (the job DAO) for \<open>j\<close> in this
  cycle; every job is passed to it at most once per cycle.\<close>

fun flushLoop :: "(JobInfo \<Rightarrow> bool) \<Rightarrow> JobInfo list \<Rightarrow> Store \<Rightarrow> Store" where
  "flushLoop fails [] s = s"
| "flushLoop fails (j # js) s =
     flushLoop fails js (if fails j then store_MarkDirty (ji_ID j) s else s)"

definition store_flush :: "int list \<Rightarrow> (JobInfo \<Rightarrow> bool) \<Rightarrow> Store \<Rightarrow> Store" where
  "store_flush ord fails s =
     (let (dirty, s1) = store_DrainDirty ord s in flushLoop fails dirty s1)"

section \<open>The heap order is a strict weak order\<close>

lemma job_less_key: "job_less job a b \<longleftrightarrow>
  key_of (ji_NextTriggerTime (job a)) < key_of (ji_NextTriggerTime (job b))"
  by (cases "ji_NextTriggerTime (job a)"; cases "ji_NextTriggerTime (job b)") simp_all

declare job_less.simps [simp del]

interpretation job_heap: less_order "job_less job" for job
  by unfold_locales (auto simp: job_less_key)

section \<open>The trigger heap under updates of the jobs\<close>

definition heap_wf :: "(nat \<Rightarrow> JobInfo) \<Rightarrow> nat pheap \<Rightarrow> bool" where
  "heap_wf job h \<longleftrightarrow> heap_order (job_less job) (fst h) (length (fst h)) \<and> pos_ok h"

lemma heap_wf_idx: "heap_wf job h \<Longrightarrow> 0 \<le> snd h a \<longleftrightarrow> a \<in> set (fst h)"
  by (simp add: heap_wf_def pos_ok_iff_mem)

lemma heap_wf_idx_neg: "heap_wf job h \<Longrightarrow> snd h a < 0 \<longleftrightarrow> a \<notin> set (fst h)"
  using heap_wf_idx [of job h a] by auto

lemma heap_wf_nth:
  "heap_wf job h \<Longrightarrow> a \<in> set (fst h) \<Longrightarrow>
   nat (snd h a) < length (fst h) \<and> fst h ! nat (snd h a) = a"
  by (simp add: heap_wf_def pos_ok_nth)

lemma heap_wf_cong:
  assumes "heap_wf job h"
    and "\<And>a. a \<in> set (fst h) \<Longrightarrow> ji_NextTriggerTime (job' a) = ji_NextTriggerTime (job a)"
  shows "heap_wf job' h"
  using assms heap_order_cong [of "job_less job" "fst h" "length (fst h)" "job_less job'"]
  by (simp add: heap_wf_def job_less_key)

lemma heap_wf_outside:
  assumes "heap_wf job h" "a \<notin> set (fst h)"
  shows "heap_wf (job(a := j)) h" and "heap_wf job (fst h, (snd h)(a := - 1))"
proof -
  show "heap_wf (job(a := j)) h" by (rule heap_wf_cong [OF assms(1)]) (use assms(2) in auto)
  have "(snd h)(a := - 1) = snd h" using assms by (auto simp: heap_wf_def pos_ok_def)
  then show "heap_wf job (fst h, (snd h)(a := - 1))" using assms(1) by simp
qed

lemma heap_push_wf:
  assumes "heap_wf job h" "a \<notin> set (fst h)"
  shows "heap_wf job (heap_push (job_less job) a h)"
    and "set (fst (heap_push (job_less job) a h)) = insert a (set (fst h))"
proof -
  note ok = job_heap.heap_push_ok [of job h a]
  show "heap_wf job (heap_push (job_less job) a h)" using ok(1,2) assms by (simp add: heap_wf_def)
  have "set_mset (mset (fst (heap_push (job_less job) a h))) = insert a (set_mset (mset (fst h)))"
    using ok(3) assms by (simp add: heap_wf_def)
  then show "set (fst (heap_push (job_less job) a h)) = insert a (set (fst h))" by simp
qed

lemma heap_remove_wf:
  assumes "heap_wf job h" "a \<in> set (fst h)"
  shows "heap_wf job (fst (snd (heap_remove (job_less job) (nat (snd h a)) h)),
      (snd (snd (heap_remove (job_less job) (nat (snd h a)) h)))(a := - 1))"
    and "set (fst (snd (heap_remove (job_less job) (nat (snd h a)) h))) = set (fst h) - {a}"
proof -
  let ?h = "snd (heap_remove (job_less job) (nat (snd h a)) h)"
  note n = heap_wf_nth [OF assms]
  note ok = job_heap.heap_remove_ok [of job h "nat (snd h a)"]
  have m: "add_mset a (mset (fst ?h)) = mset (fst h)"
    using ok(4) assms(1) n by (simp add: heap_wf_def)
  have "distinct (fst h)" using assms(1) by (simp add: heap_wf_def pos_ok_def)
  then have "a \<notin> set (fst ?h)"
    using m by (metis distinct.simps(2) mset.simps(2) mset_eq_imp_distinct_iff)
  moreover have "insert a (set (fst ?h)) = set (fst h)"
    using m by (metis set_mset_add_mset_insert set_mset_mset)
  ultimately show "set (fst ?h) = set (fst h) - {a}" by auto
  have "heap_wf job ?h" using ok(2,3) assms(1) n by (simp add: heap_wf_def)
  then show "heap_wf job (fst ?h, (snd ?h)(a := - 1))"
    using \<open>a \<notin> set (fst ?h)\<close> by (rule heap_wf_outside(2))
qed

lemma heap_fix_wf:
  assumes "heap_wf job h" "a \<in> set (fst h)"
  shows "heap_wf (job(a := j)) (heap_fix (job_less (job(a := j))) (nat (snd h a)) h)"
    and "set (fst (heap_fix (job_less (job(a := j))) (nat (snd h a)) h)) = set (fst h)"
proof -
  let ?lt = "job_less (job(a := j))" and ?i = "nat (snd h a)"
  note n = heap_wf_nth [OF assms]
  have "almost_heap ?lt (fst h) (length (fst h)) ?i"
    by (rule job_heap.heap_order_rekey [where job = job])
      (use assms n in \<open>auto simp: heap_wf_def pos_ok_def job_less_key\<close>)
  note ok = job_heap.heap_fix_ok [OF this]
  show "heap_wf (job(a := j)) (heap_fix ?lt ?i h)" using ok(1,2) assms n by (simp add: heap_wf_def)
  have "set_mset (mset (fst (heap_fix ?lt ?i h))) = set_mset (mset (fst h))"
    using ok(3) assms n by (simp add: heap_wf_def)
  then show "set (fst (heap_fix ?lt ?i h)) = set (fst h)" by simp
qed

section \<open>Invariant and abstract registry\<close>

definition queue_set :: "Store \<Rightarrow> nat set" where
  "queue_set s = set (fst (st_heap s))"

definition store_inv :: "Store \<Rightarrow> bool" where
  "store_inv s \<longleftrightarrow>
     heap_wf (st_job s) (st_heap s) \<and>
     (\<forall>i a. st_jobByID s i = Some a \<longrightarrow> a < st_fresh s \<and> ji_ID (st_job s a) = i) \<and>
     (\<forall>a \<in> queue_set s. st_jobByID s (ji_ID (st_job s a)) = Some a \<and>
        ji_Status (st_job s a) = JobRun \<and> ji_NextTriggerTime (st_job s a) \<noteq> None) \<and>
     finite (dom (st_jobByID s)) \<and>
     st_count s = i64 (int (map_len (st_jobByID s)))"

text \<open>What the store promises: for every job id the job, whether it waits to be flushed, and
  whether it is in the trigger heap.\<close>

definition registry :: "Store \<Rightarrow> int \<Rightarrow> (JobInfo \<times> bool \<times> bool) option" where
  "registry s i =
     map_option (\<lambda>a. (st_job s a, st_dirty s a, a \<in> queue_set s)) (st_jobByID s i)"

lemma store_invD:
  assumes "store_inv s"
  shows "heap_wf (st_job s) (st_heap s)"
    and "st_jobByID s i = Some a \<Longrightarrow> a < st_fresh s \<and> ji_ID (st_job s a) = i"
    and "a \<in> queue_set s \<Longrightarrow> st_jobByID s (ji_ID (st_job s a)) = Some a \<and>
      ji_Status (st_job s a) = JobRun \<and> ji_NextTriggerTime (st_job s a) \<noteq> None"
    and "finite (dom (st_jobByID s))"
    and "st_count s = i64 (int (map_len (st_jobByID s)))"
  using assms by (auto simp: store_inv_def)

lemma store_inv_fresh: "store_inv s \<Longrightarrow> st_fresh s \<notin> queue_set s"
  using store_invD(2,3) by fastforce

lemma jobByID_inj: "store_inv s \<Longrightarrow> st_jobByID s i = Some a \<Longrightarrow> st_jobByID s k = Some a \<Longrightarrow> i = k"
  using store_invD(2) by blast

lemma queued_iff: "store_inv s \<Longrightarrow> 0 \<le> snd (st_heap s) a \<longleftrightarrow> a \<in> queue_set s"
  by (simp add: queue_set_def heap_wf_idx [OF store_invD(1)])

lemma store_Get_registry: "store_Get i s = map_option fst (registry s i)"
  by (simp add: store_Get_def registry_def option.map_comp comp_def)

lemma i64_plus: "i64 (i64 x + y) = i64 (x + y)" "i64 (y + i64 x) = i64 (y + x)"
  unfolding i64_def by (simp_all add: mod_simps algebra_simps)

lemma store_New_inv: "store_inv store_New"
  by (simp add: store_inv_def store_New_def heap_wf_def heap_order_def pos_ok_def queue_set_def
      map_len_def i64_def)

section \<open>Effect of the operations\<close>

subsection \<open>The heap helpers\<close>

lemma addToHeap_frame [frame_simps]:
  "st_jobByID (addToHeap a s) = st_jobByID s" "st_job (addToHeap a s) = st_job s"
  "st_dirty (addToHeap a s) = st_dirty s" "st_count (addToHeap a s) = st_count s"
  "st_fresh (addToHeap a s) = st_fresh s"
  by (simp_all add: addToHeap_def)

lemma removeFromHeap_frame [frame_simps]:
  "st_jobByID (removeFromHeap a s) = st_jobByID s" "st_job (removeFromHeap a s) = st_job s"
  "st_dirty (removeFromHeap a s) = st_dirty s" "st_count (removeFromHeap a s) = st_count s"
  "st_fresh (removeFromHeap a s) = st_fresh s"
  by (simp_all add: removeFromHeap_def Let_def)

lemma queue_set_update [simp]:
  "queue_set (s\<lparr>st_jobByID := m\<rparr>) = queue_set s" "queue_set (s\<lparr>st_count := c\<rparr>) = queue_set s"
  "queue_set (s\<lparr>st_dirty := d\<rparr>) = queue_set s" "queue_set (s\<lparr>st_job := j\<rparr>) = queue_set s"
  "queue_set (s\<lparr>st_heap := h\<rparr>) = set (fst h)"
  by (simp_all add: queue_set_def)

lemma addToHeap_wf:
  assumes "heap_wf (st_job s) (st_heap s)"
  shows "heap_wf (st_job s) (st_heap (addToHeap a s)) \<and>
    queue_set (addToHeap a s) = insert a (queue_set s)"
proof (cases "a \<in> queue_set s")
  case True
  then have "addToHeap a s = s"
    using heap_wf_idx_neg [OF assms, of a] by (simp add: addToHeap_def heapIdx_def queue_set_def)
  then show ?thesis using True assms by (simp add: insert_absorb)
next
  case False
  then show ?thesis
    using heap_wf_idx_neg [OF assms, of a] heap_push_wf [OF assms, of a]
    by (simp add: addToHeap_def heapIdx_def queue_set_def)
qed

lemma removeFromHeap_wf:
  assumes "heap_wf (st_job s) (st_heap s)"
  shows "heap_wf (st_job s) (st_heap (removeFromHeap a s)) \<and>
    queue_set (removeFromHeap a s) = queue_set s - {a}"
proof (cases "a \<in> queue_set s")
  case True
  then show ?thesis
    using heap_wf_idx [OF assms, of a] heap_remove_wf [OF assms, of a]
    by (simp add: removeFromHeap_def heapIdx_def queue_set_def Let_def)
next
  case False
  then have "removeFromHeap a s = s"
    using heap_wf_idx [OF assms, of a] by (simp add: removeFromHeap_def heapIdx_def queue_set_def)
  then show ?thesis using False assms by simp
qed

subsection \<open>Add and LoadAll\<close>

text \<open>Both install a new entry for the job's id; \<open>install\<close> is what they leave behind once the old
  entry (if any) is out of the heap.\<close>

definition enqueues :: "JobInfo \<Rightarrow> bool" where
  "enqueues j \<longleftrightarrow> ji_Status j = JobRun \<and> ji_NextTriggerTime j \<noteq> None"

lemma newEntry_wf:
  assumes "heap_wf (st_job s) (st_heap s)" "st_fresh s \<notin> queue_set s"
  shows "heap_wf (st_job (snd (newEntry j d s))) (st_heap (snd (newEntry j d s)))"
    and "queue_set (snd (newEntry j d s)) = queue_set s"
    and "fst (newEntry j d s) = st_fresh s"
    and "st_job (snd (newEntry j d s)) = (st_job s)(st_fresh s := j)"
    and "st_dirty (snd (newEntry j d s)) = (st_dirty s)(st_fresh s := d)"
    and "st_fresh (snd (newEntry j d s)) = Suc (st_fresh s)"
    and "st_jobByID (snd (newEntry j d s)) = st_jobByID s"
    and "st_count (snd (newEntry j d s)) = st_count s"
  using heap_wf_outside(2) [OF heap_wf_outside(1) [OF assms(1)]] assms(2)
  by (simp_all add: newEntry_def queue_set_def Let_def)

lemma install:
  assumes inv: "store_inv s" and a: "a = st_fresh s"
    and t: "st_jobByID t = (st_jobByID s)(ji_ID j \<mapsto> a)" "st_job t = (st_job s)(a := j)"
      "st_dirty t = (st_dirty s)(a := d)" "st_fresh t = Suc a"
      "st_count t = i64 (int (map_len (st_jobByID t)))"
    and wf: "heap_wf (st_job t) (st_heap t)"
    and q: "queue_set t = (queue_set s - set_option (st_jobByID s (ji_ID j))) \<union>
      (if enqueues j then {a} else {})"
  shows "store_inv t" and "registry t = (registry s)(ji_ID j \<mapsto> (j, d, enqueues j))"
proof -
  note fresh = store_inv_fresh [OF inv]
  have live: "st_jobByID s i = Some b \<Longrightarrow> b \<noteq> a \<and> b < a \<and> ji_ID (st_job s b) = i" for i b
    using store_invD(2) [OF inv] a by blast
  have dom: "finite (dom (st_jobByID t))" using store_invD(4) [OF inv] t(1) by simp
  have old: "ji_ID (st_job s b) \<noteq> ji_ID j"
    if b: "b \<in> queue_set s" "b \<notin> set_option (st_jobByID s (ji_ID j))" for b
    using store_invD(3) [OF inv b(1)] b(2) by auto
  have other: "st_jobByID t (ji_ID (st_job t b)) = Some b \<and> ji_Status (st_job t b) = JobRun \<and>
      ji_NextTriggerTime (st_job t b) \<noteq> None" if "b \<in> queue_set t" for b
  proof (cases "b = a")
    case True
    then have "enqueues j" using that q fresh a by (auto split: if_splits)
    then show ?thesis using True t by (simp add: enqueues_def)
  next
    case False
    then have b: "b \<in> queue_set s" "b \<notin> set_option (st_jobByID s (ji_ID j))"
      using that q by (auto split: if_splits)
    then show ?thesis using store_invD(3) [OF inv b(1)] old [OF b] False t by simp
  qed
  show "store_inv t" unfolding store_inv_def
  proof (intro conjI)
    show "\<forall>i b. st_jobByID t i = Some b \<longrightarrow> b < st_fresh t \<and> ji_ID (st_job t b) = i"
    proof (intro allI impI)
      fix i b assume ib: "st_jobByID t i = Some b"
      show "b < st_fresh t \<and> ji_ID (st_job t b) = i"
      proof (cases "i = ji_ID j")
        case True
        then show ?thesis using ib t by simp
      next
        case False
        then have "st_jobByID s i = Some b" using ib t by simp
        then show ?thesis using live t by fastforce
      qed
    qed
  qed (use wf dom other t(5) in auto)
  show "registry t = (registry s)(ji_ID j \<mapsto> (j, d, enqueues j))"
  proof
    fix i
    show "registry t i = ((registry s)(ji_ID j \<mapsto> (j, d, enqueues j))) i"
    proof (cases "i = ji_ID j")
      case True
      then show ?thesis using t q fresh a by (auto simp: registry_def split: if_splits)
    next
      case False
      have "b \<in> queue_set t \<longleftrightarrow> b \<in> queue_set s" if "st_jobByID s i = Some b" for b
        using q live [OF that] jobByID_inj [OF inv that] False by auto
      then show ?thesis using False t live by (cases "st_jobByID s i") (auto simp: registry_def)
    qed
  qed
qed

lemma store_Add_effect:
  assumes inv: "store_inv s"
  shows "store_inv (store_Add j s)"
    and "registry (store_Add j s) = (registry s)(ji_ID j \<mapsto> (j, True, enqueues j))"
proof -
  let ?a = "st_fresh s"
  define s1 where "s1 = snd (newEntry j True s)"
  define s2 where "s2 = s1\<lparr>st_jobByID := (st_jobByID s1)(ji_ID j \<mapsto> ?a)\<rparr>"
  define s3 where "s3 = (case st_jobByID s (ji_ID j) of Some b \<Rightarrow> removeFromHeap b s2
      | None \<Rightarrow> s2\<lparr>st_count := i64 (st_count s2 + 1)\<rparr>)"
  note n = newEntry_wf [OF store_invD(1) [OF inv] store_inv_fresh [OF inv], of j True, folded s1_def]
  have add: "store_Add j s = (if enqueues j then addToHeap ?a s3 else s3)"
    by (auto simp: store_Add_def s3_def s2_def s1_def enqueues_def newEntry_def Let_def
        split: option.split)
  have wf3: "heap_wf (st_job s3) (st_heap s3)"
    and q3: "queue_set s3 = queue_set s - set_option (st_jobByID s (ji_ID j))"
    using removeFromHeap_wf [of s2] n
    by (auto simp: s3_def s2_def frame_simps split: option.split)
  have f3: "st_jobByID s3 = (st_jobByID s)(ji_ID j \<mapsto> ?a)" "st_job s3 = (st_job s)(?a := j)"
    "st_dirty s3 = (st_dirty s)(?a := True)" "st_fresh s3 = Suc ?a"
    using n by (auto simp: s3_def s2_def frame_simps split: option.split)
  have c3: "st_count s3 = i64 (int (map_len (st_jobByID s3)))"
    using store_invD(4,5) [OF inv] n f3(1)
    by (auto simp: s3_def s2_def frame_simps map_len_upd_new map_len_upd_old i64_plus add.commute
        split: option.split)
  have "queue_set (store_Add j s) = (queue_set s - set_option (st_jobByID s (ji_ID j))) \<union>
      (if enqueues j then {?a} else {})"
    and "heap_wf (st_job (store_Add j s)) (st_heap (store_Add j s))"
    using addToHeap_wf [OF wf3, of ?a] wf3 q3 by (auto simp: add frame_simps)
  note facts = install [OF inv refl _ _ _ _ _ this(2,1), of True]
  show "store_inv (store_Add j s)"
    and "registry (store_Add j s) = (registry s)(ji_ID j \<mapsto> (j, True, enqueues j))"
    using facts f3 c3 by (simp_all add: add frame_simps)
qed

lemma store_load_one:
  assumes inv: "store_inv s" and new: "st_jobByID s (ji_ID j) = None"
  shows "store_inv (store_LoadAll [j] s)"
    and "registry (store_LoadAll [j] s) = (registry s)(ji_ID j \<mapsto> (j, False, enqueues j))"
proof -
  let ?a = "st_fresh s"
  define s1 where "s1 = snd (newEntry j False s)"
  define s2 where "s2 = s1\<lparr>st_jobByID := (st_jobByID s1)(ji_ID j \<mapsto> ?a),
      st_count := i64 (st_count s1 + 1)\<rparr>"
  note n = newEntry_wf [OF store_invD(1) [OF inv] store_inv_fresh [OF inv], of j False, folded s1_def]
  have load: "store_LoadAll [j] s = (if enqueues j then addToHeap ?a s2 else s2)"
    by (auto simp: s2_def s1_def enqueues_def newEntry_def Let_def)
  have wf2: "heap_wf (st_job s2) (st_heap s2)" and q2: "queue_set s2 = queue_set s"
    using n by (simp_all add: s2_def)
  have f2: "st_jobByID s2 = (st_jobByID s)(ji_ID j \<mapsto> ?a)" "st_job s2 = (st_job s)(?a := j)"
    "st_dirty s2 = (st_dirty s)(?a := False)" "st_fresh s2 = Suc ?a"
    "st_count s2 = i64 (int (map_len (st_jobByID s2)))"
    using n store_invD(4,5) [OF inv] new
    by (simp_all add: s2_def map_len_upd_new i64_plus add.commute)
  have "queue_set (store_LoadAll [j] s) = (queue_set s - set_option (st_jobByID s (ji_ID j))) \<union>
      (if enqueues j then {?a} else {})"
    and "heap_wf (st_job (store_LoadAll [j] s)) (st_heap (store_LoadAll [j] s))"
    using addToHeap_wf [OF wf2, of ?a] wf2 q2 new unfolding load by (auto simp: frame_simps)
  note facts = install [OF inv refl _ _ _ _ _ this(2,1), of False]
  show "store_inv (store_LoadAll [j] s)"
    and "registry (store_LoadAll [j] s) = (registry s)(ji_ID j \<mapsto> (j, False, enqueues j))"
    using facts f2 unfolding load by (simp_all add: frame_simps)
qed

lemma store_LoadAll_Cons: "store_LoadAll (j # js) s = store_LoadAll js (store_LoadAll [j] s)"
  by (simp add: Let_def split: prod.split)

declare store_LoadAll.simps(2) [simp del]

lemma store_LoadAll_effect:
  "store_inv s \<Longrightarrow> distinct (map ji_ID js) \<Longrightarrow> (\<And>j. j \<in> set js \<Longrightarrow> registry s (ji_ID j) = None) \<Longrightarrow>
   store_inv (store_LoadAll js s) \<and>
   registry (store_LoadAll js s) = registry s ++ map_of (map (\<lambda>j. (ji_ID j, j, False, enqueues j)) js)"
proof (induction js arbitrary: s)
  case Nil
  then show ?case by simp
next
  case (Cons j js)
  let ?t = "store_LoadAll [j] s"
  have "st_jobByID s (ji_ID j) = None" using Cons.prems(3) [of j] by (simp add: registry_def)
  note t = store_load_one [OF Cons.prems(1) this]
  have "store_inv (store_LoadAll js ?t) \<and> registry (store_LoadAll js ?t) =
      registry ?t ++ map_of (map (\<lambda>j. (ji_ID j, j, False, enqueues j)) js)"
  proof (rule Cons.IH [OF t(1)])
    show "distinct (map ji_ID js)" using Cons.prems(2) by simp
    fix k assume "k \<in> set js"
    moreover have "ji_ID k \<noteq> ji_ID j"
      using Cons.prems(2) imageI [OF \<open>k \<in> set js\<close>, of ji_ID] by auto
    ultimately show "registry ?t (ji_ID k) = None" using Cons.prems(3) t(2) by simp
  qed
  moreover have "map_of (map (\<lambda>j. (ji_ID j, j, False, enqueues j)) js) (ji_ID j) = None"
    using Cons.prems(2) by (auto simp: map_of_eq_None_iff image_image)
  ultimately show ?case using t(2)
    by (subst (1 2) store_LoadAll_Cons) (auto simp: map_add_def fun_eq_iff split: option.split)
qed

subsection \<open>Remove and the updates\<close>

lemma store_Remove_effect:
  assumes inv: "store_inv s"
  shows "store_inv (store_Remove i s)" and "registry (store_Remove i s) = (registry s)(i := None)"
proof -
  have "store_inv (store_Remove i s) \<and> registry (store_Remove i s) = (registry s)(i := None)"
  proof (cases "st_jobByID s i")
    case None
    then show ?thesis using inv by (auto simp: store_Remove_def registry_def)
  next
    case (Some a)
    let ?t = "store_Remove i s"
    define s1 where "s1 = s\<lparr>st_jobByID := (st_jobByID s)(i := None)\<rparr>"
    have t: "?t = (removeFromHeap a s1)\<lparr>st_count := i64 (st_count s - 1)\<rparr>"
      using Some by (simp add: store_Remove_def s1_def Let_def frame_simps)
    note wf = removeFromHeap_wf [of s1 a]
    have q: "queue_set ?t = queue_set s - {a}" and h: "heap_wf (st_job ?t) (st_heap ?t)"
      using wf store_invD(1) [OF inv] by (simp_all add: t s1_def frame_simps)
    have f: "st_jobByID ?t = (st_jobByID s)(i := None)" "st_job ?t = st_job s"
      "st_dirty ?t = st_dirty s" "st_fresh ?t = st_fresh s"
      by (simp_all add: t s1_def frame_simps)
    have "Suc (map_len ((st_jobByID s)(i := None))) = map_len (st_jobByID s)"
      by (rule map_len_delete [OF store_invD(4) [OF inv] Some])
    then have "int (map_len (st_jobByID s)) - 1 = int (map_len (st_jobByID ?t))"
      unfolding f(1) by linarith
    then have c: "st_count ?t = i64 (int (map_len (st_jobByID ?t)))"
      using i64_plus(1) [of "int (map_len (st_jobByID s))" "- 1"] store_invD(5) [OF inv]
      by (simp add: t)
    have "i \<noteq> ji_ID (st_job s b)" if "b \<in> queue_set ?t" for b
      using store_invD(3) [OF inv] that q Some by fastforce
    then have "store_inv ?t"
      unfolding store_inv_def using h f c q store_invD(2,3,4) [OF inv] by auto
    moreover have "registry ?t k = ((registry s)(i := None)) k" for k
    proof (cases "k = i \<or> st_jobByID s k = None")
      case True
      then show ?thesis using f by (auto simp: registry_def)
    next
      case False
      then obtain b where "st_jobByID s k = Some b" "b \<noteq> a" using jobByID_inj [OF inv Some] by auto
      then show ?thesis using f q False by (simp add: registry_def)
    qed
    ultimately show ?thesis by blast
  qed
  then show "store_inv (store_Remove i s)" and "registry (store_Remove i s) = (registry s)(i := None)"
    by blast+
qed

lemma update_live:
  assumes inv: "store_inv s" and a: "st_jobByID s i = Some a" and j: "ji_ID j = i"
    and t: "st_jobByID t = st_jobByID s" "st_job t = (st_job s)(a := j)"
      "st_dirty t = (st_dirty s)(a := True)" "st_fresh t = st_fresh s" "st_count t = st_count s"
    and wf: "heap_wf (st_job t) (st_heap t)"
    and q: "queue_set t - {a} = queue_set s - {a}" "a \<in> queue_set t \<Longrightarrow> enqueues j"
  shows "store_inv t" and "registry t = (registry s)(i \<mapsto> (j, True, a \<in> queue_set t))"
proof -
  have live: "st_jobByID t (ji_ID (st_job t b)) = Some b \<and> ji_Status (st_job t b) = JobRun \<and>
      ji_NextTriggerTime (st_job t b) \<noteq> None" if b: "b \<in> queue_set t" for b
  proof (cases "b = a")
    case True
    then show ?thesis using b q(2) t a j by (simp add: enqueues_def)
  next
    case False
    then show ?thesis using store_invD(3) [OF inv, of b] b q(1) t by auto
  qed
  have ids: "b < st_fresh t \<and> ji_ID (st_job t b) = k" if "st_jobByID t k = Some b" for k b
    using that t j a store_invD(2) [OF inv, of k b] jobByID_inj [OF inv a, of k] by auto
  have dom: "finite (dom (st_jobByID t))" "st_count t = i64 (int (map_len (st_jobByID t)))"
    using store_invD(4,5) [OF inv] t by simp_all
  show "store_inv t" unfolding store_inv_def using wf live ids dom by blast
  show "registry t = (registry s)(i \<mapsto> (j, True, a \<in> queue_set t))"
  proof
    fix k
    show "registry t k = ((registry s)(i \<mapsto> (j, True, a \<in> queue_set t))) k"
    proof (cases "k = i \<or> st_jobByID s k = None")
      case True
      then show ?thesis using t a by (auto simp: registry_def)
    next
      case False
      then obtain b where "st_jobByID s k = Some b" "b \<noteq> a" using jobByID_inj [OF inv a] by auto
      then show ?thesis using t q(1) False by (auto simp: registry_def)
    qed
  qed
qed

lemma store_UpdateNextTrigger_error:
  "registry s i = None \<longleftrightarrow> store_UpdateNextTrigger i nxt lst s = Inl (JobNotFound i)"
  by (auto simp: store_UpdateNextTrigger_def registry_def Let_def split: option.split)

lemma store_UpdateNextTrigger_effect:
  assumes inv: "store_inv s" and r: "registry s i = Some (j, d, q)"
  obtains t where "store_UpdateNextTrigger i nxt lst s = Inr t" "store_inv t"
    "registry t = (registry s)(i \<mapsto> (j\<lparr>ji_NextTriggerTime := Some nxt, ji_LastTriggerTime := Some lst\<rparr>,
       True, ji_Status j = JobRun))"
proof -
  obtain a where a: "st_jobByID s i = Some a" "st_job s a = j" "q \<longleftrightarrow> a \<in> queue_set s"
    using r by (auto simp: registry_def)
  let ?j = "j\<lparr>ji_NextTriggerTime := Some nxt, ji_LastTriggerTime := Some lst\<rparr>"
  let ?job = "(st_job s)(a := ?j)"
  define h where "h = (if a \<in> queue_set s
      then heap_fix (job_less ?job) (nat (snd (st_heap s) a)) (st_heap s)
      else if ji_Status j = JobRun then heap_push (job_less ?job) a (st_heap s) else st_heap s)"
  define t where "t = s\<lparr>st_job := ?job, st_dirty := (st_dirty s)(a := True), st_heap := h\<rparr>"
  have res: "store_UpdateNextTrigger i nxt lst s = Inr t"
    using a queued_iff [OF inv, of a]
    by (auto simp: store_UpdateNextTrigger_def t_def h_def heapIdx_def Let_def)
  have run: "a \<in> queue_set s \<Longrightarrow> ji_Status j = JobRun" using store_invD(3) [OF inv] a by blast
  have hs: "heap_wf ?job h \<and> set (fst h) = queue_set s \<union> (if ji_Status j = JobRun then {a} else {})"
    using heap_fix_wf [OF store_invD(1) [OF inv], of a ?j] run
      heap_wf_outside(1) [OF store_invD(1) [OF inv], of a ?j]
      heap_push_wf [OF heap_wf_outside(1) [OF store_invD(1) [OF inv], of a ?j]]
    by (auto simp: h_def queue_set_def)
  have qt: "a \<in> queue_set t \<longleftrightarrow> ji_Status j = JobRun" using hs run by (auto simp: t_def)
  have f: "st_jobByID t = st_jobByID s" "st_job t = ?job" "st_dirty t = (st_dirty s)(a := True)"
    "st_fresh t = st_fresh s" "st_count t = st_count s" "heap_wf (st_job t) (st_heap t)"
    "ji_ID ?j = i" "queue_set t - {a} = queue_set s - {a}" "a \<in> queue_set t \<Longrightarrow> enqueues ?j"
    using hs qt store_invD(2) [OF inv a(1)] a(2)
    by (simp_all add: t_def enqueues_def insert_Diff_if split: if_splits)
  show ?thesis
    using that [OF res update_live(1) [OF inv a(1) f(7,1-6,8,9)]]
      update_live(2) [OF inv a(1) f(7,1-6,8,9)] qt by simp
qed

lemma store_UpdateStatus_error:
  "registry s i = None \<longleftrightarrow> store_UpdateStatus i status s = Inl (JobNotFound i)"
  by (auto simp: store_UpdateStatus_def registry_def Let_def split: option.split)

lemma store_UpdateStatus_effect:
  assumes inv: "store_inv s" and r: "registry s i = Some (j, d, q)"
    and status: "status = JobRun \<or> status = JobStop"
  obtains t where "store_UpdateStatus i status s = Inr t" "store_inv t"
    "registry t = (registry s)(i \<mapsto> (j\<lparr>ji_Status := status\<rparr>, True,
       status = JobRun \<and> ji_NextTriggerTime j \<noteq> None))"
proof -
  obtain a where a: "st_jobByID s i = Some a" "st_job s a = j" "q \<longleftrightarrow> a \<in> queue_set s"
    using r by (auto simp: registry_def)
  let ?j = "j\<lparr>ji_Status := status\<rparr>"
  let ?job = "(st_job s)(a := ?j)"
  define g where "g = snd (heap_remove (job_less ?job) (nat (snd (st_heap s) a)) (st_heap s))"
  define h where "h = (if status = JobStop \<and> a \<in> queue_set s then (fst g, (snd g)(a := - 1))
      else if status = JobRun \<and> a \<notin> queue_set s \<and> ji_NextTriggerTime j \<noteq> None
      then heap_push (job_less ?job) a (st_heap s) else st_heap s)"
  define t where "t = s\<lparr>st_job := ?job, st_dirty := (st_dirty s)(a := True), st_heap := h\<rparr>"
  have res: "store_UpdateStatus i status s = Inr t"
    using a queued_iff [OF inv, of a] not_le [of 0 "snd (st_heap s) a"]
    by (auto simp: store_UpdateStatus_def t_def h_def g_def heapIdx_def Let_def)
  have wf: "heap_wf ?job (st_heap s)"
    by (rule heap_wf_cong [OF store_invD(1) [OF inv]]) (use a in auto)
  have nxt: "a \<in> queue_set s \<Longrightarrow> ji_NextTriggerTime j \<noteq> None" using store_invD(3) [OF inv] a by blast
  have hs: "heap_wf ?job h \<and> set (fst h) = (queue_set s - {a}) \<union>
      (if status = JobRun \<and> ji_NextTriggerTime j \<noteq> None then {a} else {})"
  proof (cases "a \<in> queue_set s")
    case True
    then show ?thesis
      using heap_remove_wf [OF wf, of a] wf nxt status
      by (cases "status = JobRun") (auto simp: h_def g_def queue_set_def insert_absorb)
  next
    case False
    then show ?thesis
      using heap_push_wf [OF wf, of a] wf status
      by (cases "status = JobRun") (auto simp: h_def queue_set_def)
  qed
  have qt: "a \<in> queue_set t \<longleftrightarrow> status = JobRun \<and> ji_NextTriggerTime j \<noteq> None"
    using hs by (auto simp: t_def)
  have f: "st_jobByID t = st_jobByID s" "st_job t = ?job" "st_dirty t = (st_dirty s)(a := True)"
    "st_fresh t = st_fresh s" "st_count t = st_count s" "heap_wf (st_job t) (st_heap t)"
    "ji_ID ?j = i" "queue_set t - {a} = queue_set s - {a}" "a \<in> queue_set t \<Longrightarrow> enqueues ?j"
    using hs qt store_invD(2) [OF inv a(1)] a(2)
    by (simp_all add: t_def enqueues_def insert_Diff_if split: if_splits)
  show ?thesis
    using that [OF res update_live(1) [OF inv a(1) f(7,1-6,8,9)]]
      update_live(2) [OF inv a(1) f(7,1-6,8,9)] qt by simp
qed

subsection \<open>Due jobs\<close>

definition keys :: "(nat \<Rightarrow> JobInfo) \<Rightarrow> nat \<Rightarrow> trigger_key" where
  "keys job a = key_of (ji_NextTriggerTime (job a))"

lemma heap_pop_wf:
  assumes "heap_wf job h" "fst h \<noteq> []"
  shows "heap_wf job (snd (heap_pop (job_less job) h))"
    and "mset (fst h) = add_mset (fst h ! 0) (mset (fst (snd (heap_pop (job_less job) h))))"
    and "\<And>b. b \<in> set (fst h) \<Longrightarrow> keys job (fst h ! 0) \<le> keys job b"
proof -
  note ok = job_heap.heap_pop_ok [of job h]
  show "heap_wf job (snd (heap_pop (job_less job) h))"
    and "mset (fst h) = add_mset (fst h ! 0) (mset (fst (snd (heap_pop (job_less job) h))))"
    using ok assms by (simp_all add: heap_wf_def)
  fix b assume "b \<in> set (fst h)"
  then obtain k where "k < length (fst h)" "fst h ! k = b" by (auto simp: in_set_conv_nth)
  then show "keys job (fst h ! 0) \<le> keys job b"
    using job_heap.root_minimal [of job "fst h" "length (fst h)" k] assms
    by (auto simp: heap_wf_def job_less_key keys_def not_less)
qed

text \<open>What one run of the loop takes: an ascending list of due entries, every one not later than
  what stays, and it stops only at the limit or when nothing due is left.\<close>

definition due_spec ::
  "(nat \<Rightarrow> JobInfo) \<Rightarrow> time \<Rightarrow> int \<Rightarrow> nat pheap \<Rightarrow> int \<Rightarrow> nat list \<Rightarrow> nat pheap \<Rightarrow> bool" where
  "due_spec job deadline limit h got as h' \<longleftrightarrow>
     heap_wf job h' \<and> mset (fst h) = mset as + mset (fst h') \<and>
     sorted (map (keys job) as) \<and> (\<forall>a \<in> set as. keys job a \<le> At deadline) \<and>
     (\<forall>a \<in> set as. \<forall>b \<in> set (fst h'). keys job a \<le> keys job b) \<and>
     (as \<noteq> [] \<longrightarrow> got + int (length as) \<le> limit) \<and>
     (got + int (length as) < limit \<longrightarrow> (\<forall>b \<in> set (fst h'). At deadline < keys job b))"

lemma due_spec_Nil:
  "heap_wf job h \<Longrightarrow> \<not> got < limit \<or> (\<forall>b \<in> set (fst h). At deadline < keys job b) \<Longrightarrow>
   due_spec job deadline limit h got [] h"
  by (auto simp: due_spec_def)

lemma due_spec_Cons:
  assumes wf: "heap_wf job h" "fst h \<noteq> []" and a: "a = fst h ! 0" "keys job a \<le> At deadline" "got < limit"
    and spec: "due_spec job deadline limit (snd (heap_pop (job_less job) h)) (got + 1) as h'"
  shows "due_spec job deadline limit h got (a # as) h'"
proof -
  let ?h = "snd (heap_pop (job_less job) h)"
  note pop = heap_pop_wf [OF wf]
  have m: "mset (fst ?h) = mset as + mset (fst h')" using spec by (simp add: due_spec_def)
  then have "set (fst ?h) = set as \<union> set (fst h')" by (metis set_mset_mset set_mset_union)
  moreover have "set (fst h) = insert a (set (fst ?h))"
    using pop(2) a(1) by (metis set_mset_add_mset_insert set_mset_mset)
  ultimately have least: "keys job a \<le> keys job b" if "b \<in> set as \<union> set (fst h')" for b
    using pop(3) [of b] that a(1) by simp
  show ?thesis
    using spec m pop(2) least a by (auto simp: due_spec_def)
qed

lemma due_loop_spec:
  assumes "heap_wf job h" "\<And>a. a \<in> set (fst h) \<Longrightarrow> enqueues (job a)"
  shows "\<exists>as. fst (due_loop job deadline limit h res) = res @ map job as \<and>
    due_spec job deadline limit h (int (length res)) as (snd (due_loop job deadline limit h res))"
  using assms
proof (induction job deadline limit h res rule: due_loop.induct)
  case (1 job deadline limit h res)
  let ?top = "fst h ! 0"
  show ?case
  proof (cases "fst h = [] \<or> \<not> int (length res) < limit")
    case True
    then have "due_loop job deadline limit h res = (res, h)" by (subst due_loop.simps) auto
    moreover have "due_spec job deadline limit h (int (length res)) [] h"
      using True "1.prems"(1) by (intro due_spec_Nil) auto
    ultimately show ?thesis by (intro exI [of _ "[]"]) simp
  next
    case ne: False
    then obtain t where t: "ji_NextTriggerTime (job ?top) = Some t" and run: "ji_Status (job ?top) = JobRun"
      using "1.prems"(2) [of ?top] by (auto simp: enqueues_def)
    note pop = heap_pop_wf [OF "1.prems"(1)]
    show ?thesis
    proof (cases "deadline < t")
      case True
      then have "due_loop job deadline limit h res = (res, h)"
        using ne t by (subst due_loop.simps) auto
      moreover have "At deadline < keys job b" if "b \<in> set (fst h)" for b
        using pop(3) [OF _ that] ne True t by (auto simp: keys_def intro: less_le_trans [of _ "At t"])
      then have "due_spec job deadline limit h (int (length res)) [] h"
        using "1.prems"(1) by (intro due_spec_Nil) auto
      ultimately show ?thesis by (intro exI [of _ "[]"]) simp
    next
      case False
      let ?h = "snd (heap_pop (job_less job) h)"
      have eq: "due_loop job deadline limit h res =
          due_loop job deadline limit ?h (res @ [job ?top])"
        using ne t run False by (subst due_loop.simps) (simp add: Let_def)
      have "set (fst ?h) \<subseteq> set (fst h)"
        using pop(2) ne by (metis set_mset_add_mset_insert set_mset_mset subset_insertI)
      then obtain as where as: "fst (due_loop job deadline limit ?h (res @ [job ?top])) =
            (res @ [job ?top]) @ map job as"
          "due_spec job deadline limit ?h (int (length (res @ [job ?top]))) as
            (snd (due_loop job deadline limit ?h (res @ [job ?top])))"
        using "1.IH"(2) [of ?top t ?h] ne t run False pop(1) "1.prems"(2) by auto
      have "due_spec job deadline limit h (int (length res)) (?top # as)
          (snd (due_loop job deadline limit h res))"
        using due_spec_Cons [OF "1.prems"(1), of ?top] as(2) ne False t eq
        by (simp add: keys_def add.commute)
      then show ?thesis using as(1) eq by (intro exI [of _ "?top # as"]) simp
    qed
  qed
qed

text \<open>The two queries in terms of the registry. \<open>due_result\<close> is what both return: the due queued
  jobs in ascending order of trigger time, cut off at the limit.\<close>

definition due_result :: "Store \<Rightarrow> time \<Rightarrow> int \<Rightarrow> JobInfo list \<Rightarrow> bool" where
  "due_result s deadline limit js \<longleftrightarrow>
     sorted (map (\<lambda>j. key_of (ji_NextTriggerTime j)) js) \<and> distinct (map ji_ID js) \<and>
     (\<forall>j \<in> set js. key_of (ji_NextTriggerTime j) \<le> At deadline \<and>
        (\<exists>d. registry s (ji_ID j) = Some (j, d, True))) \<and>
     (\<forall>i j d. registry s i = Some (j, d, True) \<longrightarrow> i \<notin> ji_ID ` set js \<longrightarrow>
        (\<forall>k \<in> set js. key_of (ji_NextTriggerTime k) \<le> key_of (ji_NextTriggerTime j)) \<and>
        (int (length js) < limit \<longrightarrow> At deadline < key_of (ji_NextTriggerTime j))) \<and>
     (js \<noteq> [] \<longrightarrow> int (length js) \<le> limit)"

lemma due_loop_store:
  assumes inv: "store_inv s" and loop: "due_loop (st_job s) deadline limit (st_heap s) [] = (js, h)"
  obtains as where "js = map (st_job s) as" "distinct as" "set as \<union> set (fst h) = queue_set s"
    "set as \<inter> set (fst h) = {}" "heap_wf (st_job s) h" "due_result s deadline limit js"
proof -
  have "\<And>a. a \<in> set (fst (st_heap s)) \<Longrightarrow> enqueues (st_job s a)"
    using store_invD(3) [OF inv] by (simp add: enqueues_def queue_set_def)
  then obtain as where js: "js = map (st_job s) as"
    and spec: "due_spec (st_job s) deadline limit (st_heap s) 0 as h"
    using due_loop_spec [OF store_invD(1) [OF inv], of deadline limit "[]"] loop by auto
  have m: "mset (fst (st_heap s)) = mset (as @ fst h)" using spec by (simp add: due_spec_def)
  have "distinct (fst (st_heap s))" using store_invD(1) [OF inv] by (simp add: heap_wf_def pos_ok_def)
  then have d: "distinct (as @ fst h)" using m by (metis mset_eq_imp_distinct_iff)
  have q: "set as \<union> set (fst h) = queue_set s"
    using m unfolding queue_set_def by (metis set_append set_mset_mset)
  have live: "st_jobByID s (ji_ID (st_job s a)) = Some a" if "a \<in> set as" for a
    using store_invD(3) [OF inv] that q by blast
  have inj: "inj_on (\<lambda>a. ji_ID (st_job s a)) (set as)"
    by (rule inj_onI) (metis live option.inject)
  have rest: "b \<in> set (fst h)"
    if "registry s i = Some (j, dd, True)" "i \<notin> ji_ID ` set js" "st_jobByID s i = Some b" for i j dd b
  proof -
    have "b \<in> queue_set s" "ji_ID (st_job s b) = i"
      using that store_invD(2) [OF inv that(3)] by (auto simp: registry_def)
    then show ?thesis using that(2) q js by (metis Un_iff image_eqI image_set)
  qed
  have "due_result s deadline limit js"
    unfolding due_result_def
  proof (intro conjI allI impI ballI)
    show "sorted (map (\<lambda>j. key_of (ji_NextTriggerTime j)) js)"
      using spec by (simp add: due_spec_def js comp_def keys_def [abs_def])
    show "distinct (map ji_ID js)"
      using d inj by (simp add: js distinct_map comp_def)
  next
    fix i j dd k
    assume r: "registry s i = Some (j, dd, True)" "i \<notin> ji_ID ` set js" and k: "k \<in> set js"
    then obtain b where "st_jobByID s i = Some b" "st_job s b = j" by (auto simp: registry_def)
    then show "key_of (ji_NextTriggerTime k) \<le> key_of (ji_NextTriggerTime j)"
      using spec rest r k js by (auto simp: due_spec_def keys_def)
  next
    fix i j dd
    assume r: "registry s i = Some (j, dd, True)" "i \<notin> ji_ID ` set js" "int (length js) < limit"
    then obtain b where "st_jobByID s i = Some b" "st_job s b = j" by (auto simp: registry_def)
    then show "At deadline < key_of (ji_NextTriggerTime j)"
      using spec rest r js by (auto simp: due_spec_def keys_def)
  next
    fix k assume "k \<in> set js"
    then obtain a where "a \<in> set as" "k = st_job s a" using js by auto
    then show "key_of (ji_NextTriggerTime k) \<le> At deadline"
      and "\<exists>dd. registry s (ji_ID k) = Some (k, dd, True)"
      using spec live [of a] q by (auto simp: due_spec_def keys_def registry_def)
  qed (use spec js in \<open>auto simp: due_spec_def\<close>)
  then show ?thesis using that js d q spec by (auto simp: due_spec_def)
qed

lemma store_PopDue_effect:
  assumes inv: "store_inv s" and pop: "store_PopDue deadline limit s = (js, t)"
  shows "store_inv t" and "due_result s deadline limit js"
    and "registry t i = map_option (\<lambda>(j, d, q). (j, d, q \<and> i \<notin> ji_ID ` set js)) (registry s i)"
proof -
  obtain h where loop: "due_loop (st_job s) deadline limit (st_heap s) [] = (js, h)"
    and t: "t = s\<lparr>st_heap := h\<rparr>"
    using pop by (auto simp: store_PopDue_def split: prod.splits)
  from due_loop_store [OF inv loop] obtain as where
    as: "js = map (st_job s) as" "distinct as" "set as \<union> set (fst h) = queue_set s"
      "set as \<inter> set (fst h) = {}" "heap_wf (st_job s) h" and res: "due_result s deadline limit js"
    by blast
  show "due_result s deadline limit js" by (rule res)
  have "st_jobByID s (ji_ID (st_job s a)) = Some a \<and> ji_Status (st_job s a) = JobRun \<and>
      ji_NextTriggerTime (st_job s a) \<noteq> None" if "a \<in> set (fst h)" for a
    using store_invD(3) [OF inv] that as(3) by blast
  then show "store_inv t"
    unfolding store_inv_def t using as(5) store_invD(2,4,5) [OF inv] by simp
  show "registry t i = map_option (\<lambda>(j, d, q). (j, d, q \<and> i \<notin> ji_ID ` set js)) (registry s i)"
  proof (cases "st_jobByID s i")
    case None
    then show ?thesis by (simp add: registry_def t)
  next
    case (Some b)
    have "i \<in> ji_ID ` set js \<longleftrightarrow> b \<in> set as"
    proof
      assume "i \<in> ji_ID ` set js"
      then obtain a where "a \<in> set as" "ji_ID (st_job s a) = i" using as(1) by auto
      then show "b \<in> set as" using store_invD(3) [OF inv, of a] as(3) Some by auto
    next
      assume "b \<in> set as"
      then show "i \<in> ji_ID ` set js" using store_invD(2) [OF inv Some] as(1) by force
    qed
    then show ?thesis using Some as(3,4) by (auto simp: registry_def t)
  qed
qed

lemma pushBack_effect:
  "heap_wf (st_job s) (st_heap s) \<Longrightarrow>
   (\<And>a. a \<in> set as \<Longrightarrow> st_jobByID s (ji_ID (st_job s a)) = Some a) \<Longrightarrow>
   (\<exists>h. pushBack (map (st_job s) as) s = s\<lparr>st_heap := h\<rparr> \<and> heap_wf (st_job s) h \<and>
      set (fst h) = queue_set s \<union> set as)"
proof (induction as arbitrary: s)
  case Nil
  then show ?case by (intro exI [of _ "st_heap s"]) (simp add: queue_set_def)
next
  case (Cons a as)
  define t where "t = addToHeap a s"
  have t: "t = s\<lparr>st_heap := st_heap t\<rparr>" by (simp add: t_def addToHeap_def)
  have step: "pushBack (map (st_job s) (a # as)) s = pushBack (map (st_job s) as) t"
    using Cons.prems(2) [of a] by (simp add: t_def addToHeap_def)
  note wf = addToHeap_wf [OF Cons.prems(1), of a, folded t_def]
  have f: "st_job t = st_job s" "st_jobByID t = st_jobByID s" by (simp_all add: t_def frame_simps)
  obtain h where h: "pushBack (map (st_job t) as) t = t\<lparr>st_heap := h\<rparr>" "heap_wf (st_job t) h"
      "set (fst h) = queue_set t \<union> set as"
    using Cons.IH [of t] wf Cons.prems(2) f by auto
  have "pushBack (map (st_job s) (a # as)) s = s\<lparr>st_heap := h\<rparr>"
    using step h(1) f by (subst (asm) (4) t) simp
  then show ?case using h wf f by (intro exI [of _ h]) auto
qed

lemma store_PeekDue_effect:
  assumes inv: "store_inv s" and peek: "store_PeekDue deadline limit s = (js, t)"
  shows "store_inv t" and "due_result s deadline limit js" and "registry t = registry s"
proof -
  obtain h where loop: "due_loop (st_job s) deadline limit (st_heap s) [] = (js, h)"
    and t: "t = pushBack js (s\<lparr>st_heap := h\<rparr>)"
    using peek by (auto simp: store_PeekDue_def split: prod.splits)
  from due_loop_store [OF inv loop] obtain as where
    as: "js = map (st_job s) as" "set as \<union> set (fst h) = queue_set s"
      "heap_wf (st_job s) h" and res: "due_result s deadline limit js"
    by blast
  show "due_result s deadline limit js" by (rule res)
  have "st_jobByID s (ji_ID (st_job s a)) = Some a" if "a \<in> set as" for a
    using store_invD(3) [OF inv] that as(2) by blast
  then obtain g where g: "t = s\<lparr>st_heap := g\<rparr>" "heap_wf (st_job s) g" "set (fst g) = queue_set s"
    using pushBack_effect [of "s\<lparr>st_heap := h\<rparr>" as] as t by (auto simp: Un_commute)
  show "store_inv t"
    unfolding store_inv_def g(1) using g(2,3) store_invD(2-5) [OF inv] by simp
  show "registry t = registry s" using g by (simp add: registry_def fun_eq_iff)
qed

subsection \<open>Flushing\<close>

lemma drainLoop_eq:
  "distinct as \<Longrightarrow> drainLoop as s out =
     (out @ map (st_job s) (filter (st_dirty s) as),
      s\<lparr>st_dirty := (\<lambda>a. st_dirty s a \<and> a \<notin> set as)\<rparr>)"
proof (induction as arbitrary: s out)
  case Nil
  then show ?case by simp
next
  case (Cons a as)
  have f: "filter ((st_dirty s)(a := False)) as = filter (st_dirty s) as"
    using Cons.prems by (intro filter_cong) auto
  have d: "(\<lambda>b. ((st_dirty s)(a := False)) b \<and> b \<notin> set as) =
      (\<lambda>b. st_dirty s b \<and> b \<noteq> a \<and> b \<notin> set as)" by auto
  show ?case
  proof (cases "st_dirty s a")
    case True
    then show ?thesis using Cons.IH [of "s\<lparr>st_dirty := (st_dirty s)(a := False)\<rparr>"] Cons.prems
      by (simp add: f d del: fun_upd_apply)
  next
    case False
    then have "(\<lambda>b. st_dirty s b \<and> b \<noteq> a \<and> b \<notin> set as) = (\<lambda>b. st_dirty s b \<and> b \<notin> set as)" by auto
    then show ?thesis using Cons.IH [of s] Cons.prems False by simp
  qed
qed

definition live_addrs :: "int list \<Rightarrow> Store \<Rightarrow> nat list" where
  "live_addrs ord s = map snd (go_range (st_jobByID s) ord)"

lemma live_addrs:
  assumes "store_inv s" "iter_order (st_jobByID s) ord"
  shows "distinct (live_addrs ord s)" and "set (live_addrs ord s) = ran (st_jobByID s)"
proof -
  have r: "set (go_range (st_jobByID s) ord) = {(k, v). st_jobByID s k = Some v}"
    by (rule go_range_iter [OF assms(2)])
  have "inj_on snd (set (go_range (st_jobByID s) ord))"
    using jobByID_inj [OF assms(1)] by (auto simp: r inj_on_def)
  moreover have "distinct (go_range (st_jobByID s) ord)"
    using distinct_go_range [of ord "st_jobByID s"] assms(2) by (auto simp: iter_order_def distinct_map)
  ultimately show "distinct (live_addrs ord s)" by (simp add: live_addrs_def distinct_map)
  show "set (live_addrs ord s) = ran (st_jobByID s)" by (force simp: live_addrs_def r ran_def)
qed

lemma store_DrainDirty_eq:
  assumes "store_inv s" "iter_order (st_jobByID s) ord"
  shows "store_DrainDirty ord s =
    (map (st_job s) (filter (st_dirty s) (live_addrs ord s)),
     s\<lparr>st_dirty := (\<lambda>a. st_dirty s a \<and> a \<notin> ran (st_jobByID s))\<rparr>)"
  using drainLoop_eq [OF live_addrs(1) [OF assms], of s "[]"] live_addrs(2) [OF assms]
  by (simp add: store_DrainDirty_def live_addrs_def)

lemma store_DrainDirty_jobs:
  assumes "store_inv s" "iter_order (st_jobByID s) ord"
  shows "set (fst (store_DrainDirty ord s)) = {j. \<exists>i q. registry s i = Some (j, True, q)}"
    and "distinct (map ji_ID (fst (store_DrainDirty ord s)))"
proof -
  show "set (fst (store_DrainDirty ord s)) = {j. \<exists>i q. registry s i = Some (j, True, q)}"
    using live_addrs(2) [OF assms]
    by (auto simp: store_DrainDirty_eq [OF assms] registry_def ran_def)
  have "inj_on (\<lambda>a. ji_ID (st_job s a)) (ran (st_jobByID s))"
    using store_invD(2) [OF assms(1)] by (auto simp: inj_on_def ran_def)
  then show "distinct (map ji_ID (fst (store_DrainDirty ord s)))"
    using live_addrs [OF assms]
    by (auto simp: store_DrainDirty_eq [OF assms] distinct_map comp_def intro: inj_on_subset)
qed

lemma store_MarkDirty_eq:
  "store_MarkDirty i s = s\<lparr>st_dirty := (\<lambda>a. st_dirty s a \<or> st_jobByID s i = Some a)\<rparr>"
  by (cases "st_jobByID s i") (auto simp: store_MarkDirty_def fun_eq_iff)

lemma flushLoop_eq:
  "flushLoop fails js s =
     s\<lparr>st_dirty := (\<lambda>a. st_dirty s a \<or> (\<exists>j \<in> set js. fails j \<and> st_jobByID s (ji_ID j) = Some a))\<rparr>"
  by (induction js arbitrary: s) (auto simp: store_MarkDirty_eq fun_eq_iff)

lemma store_inv_dirty [simp]: "store_inv (s\<lparr>st_dirty := d\<rparr>) = store_inv s"
  by (simp add: store_inv_def)

lemma store_flush_effect:
  assumes inv: "store_inv s" and ord: "iter_order (st_jobByID s) ord"
  shows "store_inv (store_flush ord fails s)"
    and "registry (store_flush ord fails s) i =
      map_option (\<lambda>(j, d, q). (j, d \<and> fails j, q)) (registry s i)"
proof -
  define js where "js = map (st_job s) (filter (st_dirty s) (live_addrs ord s))"
  have eq: "store_flush ord fails s = s\<lparr>st_dirty := (\<lambda>a. st_dirty s a \<and> a \<notin> ran (st_jobByID s) \<or>
      (\<exists>j \<in> set js. fails j \<and> st_jobByID s (ji_ID j) = Some a))\<rparr>"
    by (simp add: store_flush_def store_DrainDirty_eq [OF inv ord] flushLoop_eq js_def)
  show "store_inv (store_flush ord fails s)" using inv by (simp add: eq)
  show "registry (store_flush ord fails s) i =
      map_option (\<lambda>(j, d, q). (j, d \<and> fails j, q)) (registry s i)"
  proof (cases "st_jobByID s i")
    case None
    then show ?thesis by (simp add: registry_def eq)
  next
    case (Some a)
    have "(\<exists>j \<in> set js. fails j \<and> st_jobByID s (ji_ID j) = Some a) \<longleftrightarrow> st_dirty s a \<and> fails (st_job s a)"
    proof
      assume "\<exists>j \<in> set js. fails j \<and> st_jobByID s (ji_ID j) = Some a"
      then obtain b where b: "b \<in> ran (st_jobByID s)" "st_dirty s b" "fails (st_job s b)"
          "st_jobByID s (ji_ID (st_job s b)) = Some a"
        using live_addrs(2) [OF inv ord] by (auto simp: js_def)
      then have "b = a" using store_invD(2) [OF inv] by (auto simp: ran_def)
      then show "st_dirty s a \<and> fails (st_job s a)" using b by simp
    next
      assume "st_dirty s a \<and> fails (st_job s a)"
      moreover have "a \<in> set (live_addrs ord s)" using live_addrs(2) [OF inv ord] Some by (auto intro: ranI)
      ultimately show "\<exists>j \<in> set js. fails j \<and> st_jobByID s (ji_ID j) = Some a"
        using Some store_invD(2) [OF inv Some] by (auto simp: js_def)
    qed
    then show ?thesis using Some by (auto simp: registry_def eq intro: ranI)
  qed
qed

lemma store_Range_jobs:
  assumes "iter_order (st_jobByID s) ord"
  shows "set (store_Range ord s) = {j. \<exists>i. store_Get i s = Some j}"
  by (auto simp: store_Range_def store_Get_def go_range_iter [OF assms] split: prod.splits)

section \<open>The contract of the registry\<close>

text \<open>The interface the scheduler uses: what it may rely on about adding, removing, enabling and
  rescheduling jobs. \<open>view\<close> shows for every id the job, its dirty flag and whether it waits in the
  trigger heap.\<close>

locale job_registry =
  fixes view :: "'s \<Rightarrow> int \<Rightarrow> (JobInfo \<times> bool \<times> bool) option"
    and ok :: "'s \<Rightarrow> bool"
    and add :: "JobInfo \<Rightarrow> 's \<Rightarrow> 's"
    and remove :: "int \<Rightarrow> 's \<Rightarrow> 's"
    and update_next :: "int \<Rightarrow> time \<Rightarrow> time \<Rightarrow> 's \<Rightarrow> store_error + 's"
    and update_status :: "int \<Rightarrow> job_status \<Rightarrow> 's \<Rightarrow> store_error + 's"
  assumes view_id: "ok s \<Longrightarrow> view s i = Some (j, d, q) \<Longrightarrow> ji_ID j = i"
    and view_queued: "ok s \<Longrightarrow> view s i = Some (j, d, True) \<Longrightarrow> enqueues j"
    and add_ok: "ok s \<Longrightarrow> ok (add j s)"
    and add_view: "ok s \<Longrightarrow> view (add j s) = (view s)(ji_ID j \<mapsto> (j, True, enqueues j))"
    and remove_ok: "ok s \<Longrightarrow> ok (remove i s)"
    and remove_view: "ok s \<Longrightarrow> view (remove i s) = (view s)(i := None)"
    and update_next_None: "view s i = None \<Longrightarrow> update_next i t l s = Inl (JobNotFound i)"
    and update_next_Some: "ok s \<Longrightarrow> view s i = Some (j, d, q) \<Longrightarrow>
      \<exists>s'. update_next i t l s = Inr s' \<and> ok s' \<and> view s' = (view s)
        (i \<mapsto> (j\<lparr>ji_NextTriggerTime := Some t, ji_LastTriggerTime := Some l\<rparr>, True, ji_Status j = JobRun))"
    and update_status_None: "view s i = None \<Longrightarrow> update_status i st s = Inl (JobNotFound i)"
    and update_status_Some: "ok s \<Longrightarrow> view s i = Some (j, d, q) \<Longrightarrow> st = JobRun \<or> st = JobStop \<Longrightarrow>
      \<exists>s'. update_status i st s = Inr s' \<and> ok s' \<and> view s' = (view s)
        (i \<mapsto> (j\<lparr>ji_Status := st\<rparr>, True, st = JobRun \<and> ji_NextTriggerTime j \<noteq> None))"
begin

text \<open>A job that is rescheduled waits in the heap exactly if it is enabled, and a disabled job stays
  out of the heap until it is enabled again.\<close>

lemma reschedule_queued:
  assumes "ok s" "view s i = Some (j, d, q)" "update_next i t l s = Inr s'"
  shows "\<exists>j'. view s' i = Some (j', True, ji_Status j = JobRun) \<and> ji_Status j' = ji_Status j \<and>
    ji_NextTriggerTime j' = Some t"
  using update_next_Some [OF assms(1,2), of t l] assms(3) by auto

lemma stop_then_reschedule:
  assumes "ok s" "view s i = Some (j, d, q)" "update_status i JobStop s = Inr s1"
    "update_next i t l s1 = Inr s2"
  shows "ok s2 \<and> (\<exists>j'. view s2 i = Some (j', True, False))"
proof -
  obtain j1 where j1: "ok s1" "view s1 i = Some (j1, True, False)" "ji_Status j1 = JobStop"
    using update_status_Some [OF assms(1,2), of JobStop] assms(3) by auto
  then show ?thesis using update_next_Some [OF j1(1,2), of t l] assms(4) by auto
qed

lemma enable_after_reschedule:
  assumes "ok s" "view s i = Some (j, d, q)" "update_next i t l s = Inr s1"
    "update_status i JobRun s1 = Inr s2"
  shows "ok s2 \<and> (\<exists>j'. view s2 i = Some (j', True, True) \<and> ji_NextTriggerTime j' = Some t)"
proof -
  obtain j1 q1 where j1: "ok s1" "view s1 i = Some (j1, True, q1)" "ji_NextTriggerTime j1 = Some t"
    using update_next_Some [OF assms(1,2), of t l] assms(3) by auto
  then show ?thesis using update_status_Some [OF j1(1,2), of JobRun] assms(4) by auto
qed

end

interpretation job_store: job_registry registry store_inv store_Add store_Remove
  store_UpdateNextTrigger store_UpdateStatus
proof unfold_locales
  fix s i j d q t l st
  show "store_inv s \<Longrightarrow> registry s i = Some (j, d, q) \<Longrightarrow> ji_ID j = i"
    using store_invD(2) by (auto simp: registry_def)
  show "store_inv s \<Longrightarrow> registry s i = Some (j, d, True) \<Longrightarrow> enqueues j"
    using store_invD(3) by (auto simp: registry_def enqueues_def)
  show "registry s i = None \<Longrightarrow> store_UpdateNextTrigger i t l s = Inl (JobNotFound i)"
    using store_UpdateNextTrigger_error by blast
  show "registry s i = None \<Longrightarrow> store_UpdateStatus i st s = Inl (JobNotFound i)"
    using store_UpdateStatus_error by blast
  show "store_inv s \<Longrightarrow> registry s i = Some (j, d, q) \<Longrightarrow>
      \<exists>s'. store_UpdateNextTrigger i t l s = Inr s' \<and> store_inv s' \<and> registry s' = (registry s)
        (i \<mapsto> (j\<lparr>ji_NextTriggerTime := Some t, ji_LastTriggerTime := Some l\<rparr>, True, ji_Status j = JobRun))"
    using store_UpdateNextTrigger_effect by metis
  show "store_inv s \<Longrightarrow> registry s i = Some (j, d, q) \<Longrightarrow> st = JobRun \<or> st = JobStop \<Longrightarrow>
      \<exists>s'. store_UpdateStatus i st s = Inr s' \<and> store_inv s' \<and> registry s' = (registry s)
        (i \<mapsto> (j\<lparr>ji_Status := st\<rparr>, True, st = JobRun \<and> ji_NextTriggerTime j \<noteq> None))"
    using store_UpdateStatus_effect by metis
qed (simp_all add: store_Add_effect store_Remove_effect)

section \<open>Reachable stores and properties\<close>

text \<open>Every store the methods can produce when they run one after another, a bulk load being of new and
  distinct ids and \<open>UpdateStatus\<close> setting \<open>JobRun\<close> or \<open>JobStop\<close>.\<close>

inductive store_reachable :: "Store \<Rightarrow> bool" where
  sr_new: "store_reachable store_New"
| sr_add: "store_reachable s \<Longrightarrow> store_reachable (store_Add j s)"
| sr_remove: "store_reachable s \<Longrightarrow> store_reachable (store_Remove i s)"
| sr_next: "store_reachable s \<Longrightarrow> store_UpdateNextTrigger i nxt lst s = Inr t \<Longrightarrow> store_reachable t"
| sr_status: "store_reachable s \<Longrightarrow> st = JobRun \<or> st = JobStop \<Longrightarrow>
    store_UpdateStatus i st s = Inr t \<Longrightarrow> store_reachable t"
| sr_pop: "store_reachable s \<Longrightarrow> store_PopDue d l s = (js, t) \<Longrightarrow> store_reachable t"
| sr_peek: "store_reachable s \<Longrightarrow> store_PeekDue d l s = (js, t) \<Longrightarrow> store_reachable t"
| sr_flush: "store_reachable s \<Longrightarrow> iter_order (st_jobByID s) ord \<Longrightarrow>
    store_reachable (store_flush ord fails s)"
| sr_load: "store_reachable s \<Longrightarrow> distinct (map ji_ID js) \<Longrightarrow>
    (\<And>j. j \<in> set js \<Longrightarrow> st_jobByID s (ji_ID j) = None) \<Longrightarrow> store_reachable (store_LoadAll js s)"

lemma store_reachable_inv: "store_reachable s \<Longrightarrow> store_inv s"
proof (induction rule: store_reachable.induct)
  case (sr_next s i nxt lst t)
  then have "registry s i \<noteq> None"
    using store_UpdateNextTrigger_error [of s i nxt lst] by (metis sum.distinct(1))
  then obtain j d q where "registry s i = Some (j, d, q)" by auto
  then obtain t' where "store_UpdateNextTrigger i nxt lst s = Inr t'" "store_inv t'"
    using job_store.update_next_Some [OF sr_next.IH, of i j d q nxt lst] by blast
  then show ?case using sr_next.hyps(2) by simp
next
  case (sr_status s st i t)
  then have "registry s i \<noteq> None"
    using store_UpdateStatus_error [of s i st] by (metis sum.distinct(1))
  then obtain j d q where "registry s i = Some (j, d, q)" by auto
  then obtain t' where "store_UpdateStatus i st s = Inr t'" "store_inv t'"
    using job_store.update_status_Some [OF sr_status.IH, of i j d q st] sr_status.hyps(2) by blast
  then show ?case using sr_status.hyps(3) by simp
next
  case (sr_load s js)
  then show ?case using store_LoadAll_effect [of s js] by (simp add: registry_def)
next
  case (sr_pop s d l js t)
  then show ?case using store_PopDue_effect(1) by blast
next
  case (sr_peek s d l js t)
  then show ?case using store_PeekDue_effect(1) by blast
next
  case (sr_flush s ord fails)
  then show ?case using store_flush_effect(1) by blast
qed (simp_all add: store_New_inv store_Add_effect(1) store_Remove_effect(1))

lemma iter_order_registry: "iter_order (st_jobByID s) ord = iter_order (registry s) ord"
  by (auto simp: iter_order_def registry_def dom_def)

lemma registry_New [simp]: "registry store_New = Map.empty"
  by (simp add: registry_def store_New_def fun_eq_iff)

text \<open>The job of the evaluations: enabled, next due at 10.\<close>

definition demo_job :: "int \<Rightarrow> time \<Rightarrow> JobInfo" where
  "demo_job i t = (zero_job i)\<lparr>ji_Status := JobRun, ji_NextTriggerTime := Some t\<rparr>"

lemma demo_job [simp]:
  "ji_ID (demo_job i t) = i" "enqueues (demo_job i t)" "ji_NextTriggerTime (demo_job i t) = Some t"
  "ji_Status (demo_job i t) = JobRun"
  by (simp_all add: demo_job_def enqueues_def)

lemma demo_store_reachable: "store_reachable (store_Add (demo_job 2 5) (store_Add (demo_job 1 10) store_New))"
  by (intro store_reachable.intros)

text \<open>Property C27: \<open>PopDue\<close> returns the queued jobs that are due, in ascending order of trigger time,
  at most \<open>limit\<close> of them and all of them if fewer; exactly these leave the trigger heap, and nothing
  else of the registry changes.\<close>

theorem store_PopDue_correct:
  assumes "store_reachable s" and "store_PopDue deadline limit s = (js, t)"
  shows "due_result s deadline limit js \<and>
    (\<forall>i. registry t i = map_option (\<lambda>(j, d, q). (j, d, q \<and> i \<notin> ji_ID ` set js)) (registry s i))"
  using store_PopDue_effect [OF store_reachable_inv [OF assms(1)] assms(2)] by blast

theorem store_PopDue_correct_witness:
  "due_result (store_Add (demo_job 2 5) (store_Add (demo_job 1 10) store_New)) 7 3
     (fst (store_PopDue 7 3 (store_Add (demo_job 2 5) (store_Add (demo_job 1 10) store_New))))"
  by (rule store_PopDue_correct [OF demo_store_reachable prod.collapse [symmetric], THEN conjunct1])

text \<open>\<open>PeekDue\<close> returns the jobs \<open>PopDue\<close> would return and leaves the registry, the
  membership in the trigger heap included, as it was.\<close>

lemma store_PeekDue_correct:
  assumes "store_reachable s" and "store_PeekDue deadline limit s = (js, t)"
  shows "js = fst (store_PopDue deadline limit s) \<and> due_result s deadline limit js \<and>
    registry t = registry s"
  using store_PeekDue_effect [OF store_reachable_inv [OF assms(1)] assms(2)] assms(2)
  by (auto simp: store_PeekDue_def store_PopDue_def split: prod.splits)

theorem store_PeekDue_correct_witness:
  "registry (snd (store_PeekDue 7 3 (store_Add (demo_job 2 5) (store_Add (demo_job 1 10) store_New)))) =
     registry (store_Add (demo_job 2 5) (store_Add (demo_job 1 10) store_New))"
  by (rule store_PeekDue_correct [OF demo_store_reachable prod.collapse [symmetric],
        THEN conjunct2, THEN conjunct2])

text \<open>A flush cycle passes every job that was dirty to the flusher, once, and afterwards
  exactly the jobs whose flush failed are still dirty; no update is lost and nothing else changes.\<close>

lemma store_flush_correct:
  assumes "store_reachable s" and "iter_order (st_jobByID s) ord"
  shows "set (fst (store_DrainDirty ord s)) = {j. \<exists>i q. registry s i = Some (j, True, q)} \<and>
    distinct (map ji_ID (fst (store_DrainDirty ord s))) \<and>
    (\<forall>i. registry (store_flush ord fails s) i =
      map_option (\<lambda>(j, d, q). (j, d \<and> fails j, q)) (registry s i))"
  using store_DrainDirty_jobs [OF store_reachable_inv [OF assms(1)] assms(2)]
    store_flush_effect(2) [OF store_reachable_inv [OF assms(1)] assms(2)] by blast

theorem store_flush_correct_witness:
  "registry (store_flush [1] (\<lambda>j. True) (store_Add (demo_job 1 10) store_New)) 1 =
     map_option (\<lambda>(j, d, q). (j, d \<and> True, q)) (registry (store_Add (demo_job 1 10) store_New) 1)"
proof -
  have "store_reachable (store_Add (demo_job 1 10) store_New)"
    by (intro store_reachable.intros)
  moreover have "iter_order (st_jobByID (store_Add (demo_job 1 10) store_New)) [1]"
    unfolding iter_order_registry store_Add_effect(2) [OF store_New_inv]
    by (simp add: iter_order_def)
  ultimately show ?thesis
    using store_flush_correct [of _ "[1]" "\<lambda>j. True"] by blast
qed

lemma due_loop_pair:
  assumes "job 0 = j" "job (Suc 0) = j" "ji_NextTriggerTime j = Some t" "t \<le> deadline"
    "ji_Status j = JobRun" "2 \<le> limit"
  shows "fst (due_loop job deadline limit ([0, 1], p) []) = [j, j]"
proof -
  have "due_loop job deadline limit ([0, 1], p) [] =
      due_loop job deadline limit ([1], p(1 := 0, 0 := - 1)) [j]"
    using assms by (subst due_loop.simps) (simp add: heap_pop_pair)
  also have "\<dots> = due_loop job deadline limit ([], p(1 := 0, 0 := - 1, 1 := - 1)) [j, j]"
    using assms by (subst due_loop.simps) (simp add: heap_pop_single)
  finally show ?thesis by (subst (asm) (2) due_loop.simps) simp
qed

text \<open>Loading a job whose id is already present does not replace the old entry as the
  comment of \<open>LoadAll\<close> says: the old entry stays in the trigger heap, the job is counted twice and
  \<open>PopDue\<close> returns it twice.\<close>

lemma store_LoadAll_twice:
  assumes "enqueues j" and "key_of (ji_NextTriggerTime j) \<le> At deadline" and "2 \<le> limit"
  shows "store_Len (store_LoadAll [j, j] store_New) = 2 \<and>
    dom (st_jobByID (store_LoadAll [j, j] store_New)) = {ji_ID j} \<and>
    fst (store_PopDue deadline limit (store_LoadAll [j, j] store_New)) = [j, j]"
proof -
  obtain t where t: "ji_NextTriggerTime j = Some t" "t \<le> deadline" "ji_Status j = JobRun"
    using assms by (auto simp: enqueues_def)
  let ?job = "(\<lambda>_. zero_job 0)(0 := j, 1 := j)"
  have eq: "\<not> job_less ?job (Suc 0) 0" by (simp add: job_less_key)
  have load: "store_LoadAll [j, j] store_New =
    \<lparr>st_jobByID = [ji_ID j \<mapsto> 1], st_job = ?job,
     st_dirty = (\<lambda>_. False)(0 := False, 1 := False),
     st_heap = ([0, 1], (\<lambda>_. - 1)(0 := - 1, 0 := 0, 1 := - 1, 1 := 1)),
     st_count = i64 (i64 1 + 1), st_fresh = 2\<rparr>"
    using t eq by (simp add: store_LoadAll.simps(2) store_New_def newEntry_def addToHeap_def
        heapIdx_def heap_push_empty heap_push_above del: fun_upd_apply)
      (simp add: heap_push_empty heap_push_above)
  have "fst (due_loop ?job deadline limit ([0, 1], p) []) = [j, j]" for p
    by (rule due_loop_pair) (use t assms(3) in auto)
  then show ?thesis
    unfolding load by (simp add: store_Len_def store_PopDue_def i64_def case_prod_beta)
qed

theorem store_LoadAll_twice_witness:
  "store_Len (store_LoadAll [demo_job 1 10, demo_job 1 10] store_New) = 2"
  by (rule store_LoadAll_twice [of "demo_job 1 10" 20 5, THEN conjunct1]) simp_all

end
