(* ===== verification/Store_Interleaving.thy ===== *)
theory Store_Interleaving
  imports Job_Store "HOL-Library.Multiset"
begin

text \<open>
  The job store under concurrent calls. \<open>Job_Store\<close> has each method as one transition; here a method is cut
  where another goroutine can come in between: after each operation on the \<open>sync.Map\<close>, each atomic
  operation on \<open>count\<close> and each section under \<open>heapMu\<close>. The state is the store, the calls that are under
  way with what is left of them, whether \<open>PeekDue\<close> holds \<open>heapMu\<close> (and the jobs it still has to push back),
  and the number of entries that \<open>LoadAll\<close> has replaced. The lemmas \<open>sections\<close> say that a method that is not
  interrupted is the transition of \<open>Job_Store\<close>.
\<close>

section \<open>The sections of the methods\<close>

definition swap_in :: "bool \<Rightarrow> JobInfo \<Rightarrow> Store \<Rightarrow> (nat \<times> nat option) \<times> Store" where
  "swap_in dirty job s =
     (let (e, s1) = newEntry job dirty s
      in ((e, st_jobByID s1 (ji_ID job)), s1\<lparr>st_jobByID := (st_jobByID s1)(ji_ID job \<mapsto> e)\<rparr>))"

definition take_out :: "int \<Rightarrow> Store \<Rightarrow> Store" where
  "take_out jid s = s\<lparr>st_jobByID := (st_jobByID s)(jid := None)\<rparr>"

definition count_up :: "Store \<Rightarrow> Store" where "count_up s = s\<lparr>st_count := i64 (st_count s + 1)\<rparr>"

definition count_down :: "Store \<Rightarrow> Store" where "count_down s = s\<lparr>st_count := i64 (st_count s - 1)\<rparr>"

definition push_new :: "JobInfo \<Rightarrow> nat \<Rightarrow> Store \<Rightarrow> Store" where
  "push_new job e s = (if ji_Status job = JobRun \<and> ji_NextTriggerTime job \<noteq> None then addToHeap e s else s)"

definition retime :: "nat \<Rightarrow> time \<Rightarrow> time \<Rightarrow> Store \<Rightarrow> Store" where
  "retime a nxt lst s =
     (let job = (st_job s)(a := (st_job s a)\<lparr>ji_NextTriggerTime := Some nxt, ji_LastTriggerTime := Some lst\<rparr>);
          s1 = s\<lparr>st_job := job, st_dirty := (st_dirty s)(a := True)\<rparr>
      in if 0 \<le> heapIdx s1 a then s1\<lparr>st_heap := heap_fix (job_less job) (nat (heapIdx s1 a)) (st_heap s1)\<rparr>
         else if ji_Status (job a) = JobRun then s1\<lparr>st_heap := heap_push (job_less job) a (st_heap s1)\<rparr>
         else s1)"

definition switch :: "nat \<Rightarrow> job_status \<Rightarrow> Store \<Rightarrow> Store" where
  "switch a status s =
     (let job = (st_job s)(a := (st_job s a)\<lparr>ji_Status := status\<rparr>);
          s1 = s\<lparr>st_job := job, st_dirty := (st_dirty s)(a := True)\<rparr>
      in if status = JobStop \<and> 0 \<le> heapIdx s1 a
         then let h = snd (heap_remove (job_less job) (nat (heapIdx s1 a)) (st_heap s1))
              in s1\<lparr>st_heap := (fst h, (snd h)(a := - 1))\<rparr>
         else if status = JobRun \<and> heapIdx s1 a < 0 \<and> ji_NextTriggerTime (job a) \<noteq> None
         then s1\<lparr>st_heap := heap_push (job_less job) a (st_heap s1)\<rparr>
         else s1)"

lemma sections_Add: "store_Add job s = (case swap_in True job s of ((e, old), s1) \<Rightarrow>
     push_new job e (case old of Some a \<Rightarrow> removeFromHeap a s1 | None \<Rightarrow> count_up s1))"
  by (cases "st_jobByID (snd (newEntry job True s)) (ji_ID job)")
    (auto simp: store_Add_def swap_in_def count_up_def push_new_def Let_def case_prod_beta)

lemma sections_Remove: "store_Remove jid s = (case st_jobByID s jid of None \<Rightarrow> s
     | Some a \<Rightarrow> count_down (removeFromHeap a (take_out jid s)))"
  by (simp add: store_Remove_def take_out_def count_down_def Let_def split: option.split)

lemma sections_Update:
  "store_UpdateNextTrigger jid nxt lst s =
     (case st_jobByID s jid of None \<Rightarrow> Inl (JobNotFound jid) | Some a \<Rightarrow> Inr (retime a nxt lst s))"
  "store_UpdateStatus jid status s =
     (case st_jobByID s jid of None \<Rightarrow> Inl (JobNotFound jid) | Some a \<Rightarrow> Inr (switch a status s))"
  by (simp_all add: store_UpdateNextTrigger_def store_UpdateStatus_def retime_def switch_def Let_def cong: option.case_cong)

lemma sections_LoadAll: "store_LoadAll (j # js) s =
     (case swap_in False j s of ((e, old), s1) \<Rightarrow> store_LoadAll js (push_new j e (count_up s1)))"
  unfolding store_LoadAll.simps(2) swap_in_def count_up_def push_new_def Let_def case_prod_beta
  by (auto simp: if_distrib)

lemmas sections = sections_Add sections_Remove sections_Update sections_LoadAll

section \<open>Interleavings\<close>

text \<open>What is left of a call: the job, its new entry and the old one of \<open>Add\<close>; the entry of \<open>Remove\<close>,
  \<open>UpdateNextTrigger\<close> and \<open>UpdateStatus\<close>; the rest of the jobs of \<open>LoadAll\<close>.\<close>

datatype call =
    AddDrop JobInfo nat nat | AddCount JobInfo nat | AddPush JobInfo nat
  | RemoveDrop nat | RemoveCount
  | Retime nat time time | Switch nat job_status
  | Load "JobInfo list" | LoadCount JobInfo nat "JobInfo list" | LoadPush JobInfo nat "JobInfo list"

type_synonym store_sys = "Store \<times> call multiset \<times> JobInfo list option \<times> nat"

inductive store_step :: "store_sys \<Rightarrow> store_sys \<Rightarrow> bool" where
  ss_add: "swap_in True j s = ((e, old), s') \<Longrightarrow>
    store_step (s, P, k, n) (s', add_mset (case old of Some a \<Rightarrow> AddDrop j e a | None \<Rightarrow> AddCount j e) P, k, n)"
| ss_add_drop: "store_step (s, add_mset (AddDrop j e a) P, None, n) (removeFromHeap a s, add_mset (AddPush j e) P, None, n)"
| ss_add_count: "store_step (s, add_mset (AddCount j e) P, k, n) (count_up s, add_mset (AddPush j e) P, k, n)"
| ss_add_push: "store_step (s, add_mset (AddPush j e) P, None, n) (push_new j e s, P, None, n)"
| ss_remove: "st_jobByID s i = Some a \<Longrightarrow> store_step (s, P, k, n) (take_out i s, add_mset (RemoveDrop a) P, k, n)"
| ss_remove_drop: "store_step (s, add_mset (RemoveDrop a) P, None, n) (removeFromHeap a s, add_mset RemoveCount P, None, n)"
| ss_remove_count: "store_step (s, add_mset RemoveCount P, k, n) (count_down s, P, k, n)"
| ss_next: "st_jobByID s i = Some a \<Longrightarrow> store_step (s, P, k, n) (s, add_mset (Retime a nxt lst) P, k, n)"
| ss_retime: "store_step (s, add_mset (Retime a nxt lst) P, None, n) (retime a nxt lst s, P, None, n)"
| ss_status: "st_jobByID s i = Some a \<Longrightarrow> store_step (s, P, k, n) (s, add_mset (Switch a st) P, k, n)"
| ss_switch: "store_step (s, add_mset (Switch a st) P, None, n) (switch a st s, P, None, n)"
| ss_load: "store_step (s, P, k, n) (s, add_mset (Load js) P, k, n)"
| ss_load_swap: "swap_in False j s = ((e, old), s') \<Longrightarrow> store_step (s, add_mset (Load (j # js)) P, k, n)
    (s', add_mset (LoadCount j e js) P, k, if old = None then n else Suc n)"
| ss_load_count: "store_step (s, add_mset (LoadCount j e js) P, k, n) (count_up s, add_mset (LoadPush j e js) P, k, n)"
| ss_load_push: "store_step (s, add_mset (LoadPush j e js) P, None, n) (push_new j e s, add_mset (Load js) P, None, n)"
| ss_load_end: "store_step (s, add_mset (Load []) P, k, n) (s, P, k, n)"
| ss_pop: "store_PopDue deadline limit s = (js, s') \<Longrightarrow> store_step (s, P, None, n) (s', P, None, n)"
| ss_peek: "due_loop (st_job s) deadline limit (st_heap s) [] = (js, h) \<Longrightarrow>
    store_step (s, P, None, n) (s\<lparr>st_heap := h\<rparr>, P, Some js, n)"
| ss_peek_back: "store_step (s, P, Some (j # js), n) (pushBack [j] s, P, Some js, n)"
| ss_peek_end: "store_step (s, P, Some [], n) (s, P, None, n)"
| ss_dirty: "a < st_fresh s \<Longrightarrow> store_step (s, P, k, n) (s\<lparr>st_dirty := (st_dirty s)(a := b)\<rparr>, P, k, n)"

section \<open>What every interleaving keeps\<close>

fun entries :: "call \<Rightarrow> nat set" where
  "entries (AddDrop j e a) = {e, a}" | "entries (AddCount j e) = {e}" | "entries (AddPush j e) = {e}"
| "entries (RemoveDrop a) = {a}" | "entries RemoveCount = {}"
| "entries (Retime a nxt lst) = {a}" | "entries (Switch a st) = {a}"
| "entries (Load js) = {}" | "entries (LoadCount j e js) = {e}" | "entries (LoadPush j e js) = {e}"

text \<open>The counts that the calls under way still owe.\<close>

fun owed :: "call \<Rightarrow> int" where
  "owed (AddCount j e) = 1" | "owed (LoadCount j e js) = 1" | "owed (RemoveDrop a) = - 1" | "owed RemoveCount = - 1"
| "owed _ = 0"

definition shape_ok :: "Store \<Rightarrow> bool" where
  "shape_ok s \<longleftrightarrow> heap_wf (st_job s) (st_heap s) \<and> queue_set s \<subseteq> {..<st_fresh s} \<and> finite (dom (st_jobByID s)) \<and>
     (\<forall>i a. st_jobByID s i = Some a \<longrightarrow> a < st_fresh s \<and> ji_ID (st_job s a) = i)"

fun sys_ok :: "store_sys \<Rightarrow> bool" where
  "sys_ok (s, P, k, n) \<longleftrightarrow> shape_ok s \<and> (\<forall>c \<in># P. entries c \<subseteq> {..<st_fresh s}) \<and>
     st_count s = i64 (int (map_len (st_jobByID s)) + int n - sum_mset (image_mset owed P))"

lemma shape_okD:
  assumes "shape_ok s"
  shows "heap_wf (st_job s) (st_heap s)" "queue_set s \<subseteq> {..<st_fresh s}" "finite (dom (st_jobByID s))"
    "st_jobByID s i = Some a \<Longrightarrow> a < st_fresh s \<and> ji_ID (st_job s a) = i"
  using assms by (auto simp: shape_ok_def)

text \<open>A section under \<open>heapMu\<close>: the heap stays one, its new entries are known, the identity of no entry changes.\<close>

definition heap_section :: "Store \<Rightarrow> Store \<Rightarrow> bool" where
  "heap_section s s' \<longleftrightarrow> heap_wf (st_job s') (st_heap s') \<and> queue_set s' \<subseteq> {..<st_fresh s'} \<and>
     st_fresh s' = st_fresh s \<and> st_jobByID s' = st_jobByID s \<and> st_count s' = st_count s \<and>
     (\<forall>a. ji_ID (st_job s' a) = ji_ID (st_job s a))"

lemma heap_section_shape: "heap_section s s' \<Longrightarrow> shape_ok s \<Longrightarrow> shape_ok s'"
  by (auto simp: heap_section_def shape_ok_def)

lemma removeFromHeap_section: "shape_ok s \<Longrightarrow> heap_section s (removeFromHeap a s)"
  using removeFromHeap_wf [of s a] shape_okD(1,2) [of s] by (auto simp: heap_section_def frame_simps)

lemma push_new_section: "shape_ok s \<Longrightarrow> e < st_fresh s \<Longrightarrow> heap_section s (push_new j e s)"
  using addToHeap_wf [of s e] shape_okD(1,2) [of s] by (auto simp: heap_section_def push_new_def frame_simps)

lemma pushBack_section:
  assumes "shape_ok s"
  shows "heap_section s (pushBack [j] s)"
proof (cases "st_jobByID s (ji_ID j)")
  case None
  then show ?thesis using shape_okD(1,2) [OF assms] by (simp add: heap_section_def)
next
  case (Some a)
  then have "pushBack [j] s = addToHeap a s" by (simp add: addToHeap_def)
  then show ?thesis
    using addToHeap_wf [OF shape_okD(1) [OF assms], of a] shape_okD(2) [OF assms] shape_okD(4) [OF assms Some]
    by (auto simp: heap_section_def frame_simps)
qed

lemma retime_section:
  assumes "shape_ok s" "a < st_fresh s"
  shows "heap_section s (retime a nxt lst s)"
proof -
  let ?j = "(st_job s a)\<lparr>ji_NextTriggerTime := Some nxt, ji_LastTriggerTime := Some lst\<rparr>"
  note wf = shape_okD(1) [OF assms(1)]
  show ?thesis
  proof (cases "a \<in> set (fst (st_heap s))")
    case True
    then show ?thesis
      using heap_fix_wf [OF wf True, of ?j] heap_wf_idx [OF wf, of a] shape_okD(2) [OF assms(1)]
      by (simp add: retime_def heapIdx_def Let_def heap_section_def queue_set_def)
  next
    case False
    have out: "heap_wf ((st_job s)(a := ?j)) (st_heap s)" by (rule heap_wf_outside(1) [OF wf False])
    show ?thesis
      using out heap_push_wf [OF out False] heap_wf_idx_neg [OF wf, of a] shape_okD(2) [OF assms(1)] assms(2) False
      by (simp add: retime_def heapIdx_def Let_def heap_section_def queue_set_def)
  qed
qed

lemma switch_section:
  assumes "shape_ok s" "a < st_fresh s"
  shows "heap_section s (switch a st s)"
proof -
  let ?job = "(st_job s)(a := (st_job s a)\<lparr>ji_Status := st\<rparr>)"
  have wf: "heap_wf ?job (st_heap s)" by (rule heap_wf_cong [OF shape_okD(1) [OF assms(1)]]) simp
  show ?thesis
  proof (cases "a \<in> set (fst (st_heap s))")
    case True
    then show ?thesis
      using wf heap_remove_wf [OF wf True] heap_wf_idx [OF wf, of a] shape_okD(2) [OF assms(1)]
      by (auto simp: switch_def heapIdx_def Let_def heap_section_def queue_set_def)
  next
    case False
    then show ?thesis
      using wf heap_push_wf [OF wf False] heap_wf_idx_neg [OF wf, of a] shape_okD(2) [OF assms(1)] assms(2)
      by (auto simp: switch_def heapIdx_def Let_def heap_section_def queue_set_def)
  qed
qed

lemma due_loop_heap:
  assumes "heap_wf job h"
  shows "heap_wf job (snd (due_loop job deadline limit h res)) \<and>
    set (fst (snd (due_loop job deadline limit h res))) \<subseteq> set (fst h)"
  using assms
proof (induction job deadline limit h res rule: due_loop.induct)
  case (1 job deadline limit h res)
  let ?top = "fst h ! 0" and ?h = "snd (heap_pop (job_less job) h)"
  note pop = heap_pop_wf [OF "1.prems"]
  have stay: ?case if "due_loop job deadline limit h res = (res, h)" using that "1.prems" by simp
  show ?case
  proof (cases "(fst h = [] \<or> \<not> int (length res) < limit) \<or> ji_NextTriggerTime (job ?top) = None")
    case True
    then show ?thesis by (intro stay) (subst due_loop.simps, auto simp: Let_def)
  next
    case False
    then obtain u where u: "ji_NextTriggerTime (job ?top) = Some u" by auto
    have sub: "set (fst ?h) \<subseteq> set (fst h)"
      using pop(2) False by (metis set_mset_add_mset_insert set_mset_mset subset_insertI)
    show ?thesis
    proof (cases "deadline < u")
      case True
      then show ?thesis using False u by (intro stay) (subst due_loop.simps, simp add: Let_def)
    next
      case due: False
      let ?res = "if ji_Status (job ?top) \<noteq> JobRun then res else res @ [copyJob (job ?top)]"
      have "due_loop job deadline limit h res = due_loop job deadline limit ?h ?res"
        using False u due by (subst due_loop.simps) (simp add: Let_def)
      moreover have "heap_wf job (snd (due_loop job deadline limit ?h ?res)) \<and>
          set (fst (snd (due_loop job deadline limit ?h ?res))) \<subseteq> set (fst ?h)"
        using "1.IH" [of ?top u ?h] False u due pop(1) by (cases "ji_Status (job ?top) \<noteq> JobRun") simp_all
      ultimately show ?thesis using sub by (simp only:) blast
    qed
  qed
qed

lemma due_loop_section:
  "shape_ok s \<Longrightarrow> due_loop (st_job s) deadline limit (st_heap s) [] = (js, h) \<Longrightarrow> heap_section s (s\<lparr>st_heap := h\<rparr>)"
  using due_loop_heap [of "st_job s" "st_heap s" deadline limit "[]"] shape_okD(1,2) [of s]
  by (auto simp: heap_section_def queue_set_def)

text \<open>A new entry in the index.\<close>

lemma swap_in_ok:
  assumes "shape_ok s" "swap_in d j s = ((e, old), s')"
  shows "shape_ok s'" "e = st_fresh s" "st_fresh s' = Suc (st_fresh s)" "old = st_jobByID s (ji_ID j)"
    "st_count s' = st_count s" "map_len (st_jobByID s') = map_len (st_jobByID s) + (if old = None then 1 else 0)"
proof -
  have fresh: "st_fresh s \<notin> queue_set s" using shape_okD(2) [OF assms(1)] by auto
  note N = newEntry_wf [OF shape_okD(1) [OF assms(1)] fresh, of j d]
  have e: "e = st_fresh s" "old = st_jobByID s (ji_ID j)"
    "s' = (snd (newEntry j d s))\<lparr>st_jobByID := (st_jobByID s)(ji_ID j \<mapsto> st_fresh s)\<rparr>"
    using assms(2) N(3,7) by (auto simp: swap_in_def case_prod_beta)
  then show "e = st_fresh s" "old = st_jobByID s (ji_ID j)" by simp_all
  show "st_fresh s' = Suc (st_fresh s)" "st_count s' = st_count s" by (simp_all add: e(3) N)
  show "map_len (st_jobByID s') = map_len (st_jobByID s) + (if old = None then 1 else 0)"
    using shape_okD(3) [OF assms(1)] by (auto simp: e map_len_upd_new map_len_upd_old)
  have "a < Suc (st_fresh s) \<and> ji_ID (((st_job s)(st_fresh s := j)) a) = i"
    if "((st_jobByID s)(ji_ID j \<mapsto> st_fresh s)) i = Some a" for i a
    using that shape_okD(4) [OF assms(1), of i a] by (auto split: if_splits)
  then show "shape_ok s'"
    using N(1,2) shape_okD(2,3) [OF assms(1)]
    by (simp add: shape_ok_def e(3) N(4-8) queue_set_def subset_eq less_SucI)
qed

lemma sys_ok_section:
  assumes "sys_ok (s, add_mset c P, k, n)" "heap_section s s'" "owed c = sum_mset (image_mset owed Q)"
    "\<forall>d \<in># Q. entries d \<subseteq> entries c"
  shows "sys_ok (s', Q + P, k, n)"
proof -
  have "shape_ok s'" using heap_section_shape [OF assms(2)] assms(1) by simp
  moreover have "\<forall>d \<in># Q + P. entries d \<subseteq> {..<st_fresh s'}"
    using assms(1,2,4) by (force simp: heap_section_def)
  ultimately show ?thesis using assms by (simp add: heap_section_def algebra_simps)
qed

lemma sys_ok_same: "sys_ok (s, P, k, n) \<Longrightarrow> heap_section s s' \<Longrightarrow> sys_ok (s', P, k', n)"
  using heap_section_shape [of s s'] by (auto simp: heap_section_def)

lemma i64_shift: "i64 (i64 x + 1) = i64 (x + 1)" "i64 (1 + i64 x) = i64 (x + 1)" "i64 (i64 x - 1) = i64 (x - 1)"
  using i64_plus(1) [of x 1] i64_plus(1) [of x "- 1"] by (simp_all add: add.commute)

lemma take_out_ok:
  assumes "shape_ok s" "st_jobByID s i = Some a"
  shows "shape_ok (take_out i s)" "int (map_len (st_jobByID (take_out i s))) = int (map_len (st_jobByID s)) - 1"
proof -
  show "shape_ok (take_out i s)"
    using assms(1) by (simp add: shape_ok_def take_out_def queue_set_def)
  show "int (map_len (st_jobByID (take_out i s))) = int (map_len (st_jobByID s)) - 1"
    using map_len_delete [OF shape_okD(3) [OF assms(1)] assms(2)] by (simp add: take_out_def)
qed

lemma store_step_ok:
  assumes "store_step x y" "sys_ok x"
  shows "sys_ok y"
  using assms
proof (cases rule: store_step.cases)
  case (ss_add j s e old s' P k n)
  have ok: "shape_ok s" using assms(2) ss_add(1) by simp
  note S = swap_in_ok [OF ok ss_add(3)]
  have P: "\<forall>c \<in># P. entries c \<subseteq> {..<Suc (st_fresh s)}" using assms(2) unfolding ss_add(1) by force
  show ?thesis
  proof (cases old)
    case None
    then show ?thesis using assms(2) S P unfolding ss_add(1,2) by (simp add: algebra_simps)
  next
    case (Some a)
    then have "a < Suc (st_fresh s)" using S(4) shape_okD(4) [OF ok, of "ji_ID j" a] by simp
    then show ?thesis using assms(2) S(1,2,3,5,6) P Some unfolding ss_add(1,2) by (simp add: algebra_simps)
  qed
next
  case (ss_load_swap j s e old s' js P k n)
  have ok: "shape_ok s" using assms(2) ss_load_swap(1) by simp
  note S = swap_in_ok [OF ok ss_load_swap(3)]
  have P: "\<forall>c \<in># P. entries c \<subseteq> {..<Suc (st_fresh s)}" using assms(2) unfolding ss_load_swap(1) by force
  then show ?thesis using assms(2) S unfolding ss_load_swap(1,2) by (simp add: algebra_simps)
next
  case (ss_remove s i a P k n)
  have "shape_ok s" using assms(2) ss_remove(1) by simp
  note T = take_out_ok [OF this ss_remove(3)]
  have a: "a < st_fresh s" using shape_okD(4) [OF \<open>shape_ok s\<close> ss_remove(3)] by simp
  have f: "st_fresh (take_out i s) = st_fresh s" "st_count (take_out i s) = st_count s" by (simp_all add: take_out_def)
  have S: "int (map_len (st_jobByID (take_out i s))) + int n - sum_mset (image_mset owed (add_mset (RemoveDrop a) P)) =
      int (map_len (st_jobByID s)) + int n - sum_mset (image_mset owed P)" by (simp add: T(2))
  have P: "\<forall>c \<in># add_mset (RemoveDrop a) P. entries c \<subseteq> {..<st_fresh s}" using assms(2) a ss_remove(1) by simp
  have "st_count s = i64 (int (map_len (st_jobByID s)) + int n - sum_mset (image_mset owed P))"
    using assms(2) unfolding ss_remove(1) sys_ok.simps by blast
  then show ?thesis unfolding ss_remove(2) sys_ok.simps f S using T(1) P by blast
next
  case (ss_add_drop s j e a P n)
  have "heap_section s (removeFromHeap a s)" using assms(2) ss_add_drop(1) by (intro removeFromHeap_section) simp
  from sys_ok_section [OF assms(2) [unfolded ss_add_drop(1)] this, of "{#AddPush j e#}"] show ?thesis by (simp add: ss_add_drop(2))
next
  case (ss_add_push s j e P n)
  have "heap_section s (push_new j e s)" using assms(2) ss_add_push(1) by (intro push_new_section) simp_all
  from sys_ok_section [OF assms(2) [unfolded ss_add_push(1)] this, of "{#}"] show ?thesis by (simp add: ss_add_push(2))
next
  case (ss_remove_drop s a P n)
  have "heap_section s (removeFromHeap a s)" using assms(2) ss_remove_drop(1) by (intro removeFromHeap_section) simp
  from sys_ok_section [OF assms(2) [unfolded ss_remove_drop(1)] this, of "{#RemoveCount#}"] show ?thesis by (simp add: ss_remove_drop(2))
next
  case (ss_retime s a nxt lst P n)
  have "heap_section s (retime a nxt lst s)" using assms(2) ss_retime(1) by (intro retime_section) simp_all
  from sys_ok_section [OF assms(2) [unfolded ss_retime(1)] this, of "{#}"] show ?thesis by (simp add: ss_retime(2))
next
  case (ss_switch s a st P n)
  have "heap_section s (switch a st s)" using assms(2) ss_switch(1) by (intro switch_section) simp_all
  from sys_ok_section [OF assms(2) [unfolded ss_switch(1)] this, of "{#}"] show ?thesis by (simp add: ss_switch(2))
next
  case (ss_load_push s j e js P n)
  have "heap_section s (push_new j e s)" using assms(2) ss_load_push(1) by (intro push_new_section) simp_all
  from sys_ok_section [OF assms(2) [unfolded ss_load_push(1)] this, of "{#Load js#}"] show ?thesis by (simp add: ss_load_push(2))
next
  case (ss_pop deadline limit s js s' P n)
  obtain h where "due_loop (st_job s) deadline limit (st_heap s) [] = (js, h)" "s' = s\<lparr>st_heap := h\<rparr>"
    using ss_pop(3) by (auto simp: store_PopDue_def split: prod.splits)
  then have "heap_section s s'" using due_loop_section assms(2) ss_pop(1) by simp
  from sys_ok_same [OF assms(2) [unfolded ss_pop(1)] this] show ?thesis by (simp add: ss_pop(2))
next
  case (ss_peek s deadline limit js h P n)
  then have "heap_section s (s\<lparr>st_heap := h\<rparr>)" using due_loop_section assms(2) by simp
  from sys_ok_same [OF assms(2) [unfolded ss_peek(1)] this] show ?thesis by (simp add: ss_peek(2))
next
  case (ss_peek_back s P j js n)
  then have "heap_section s (pushBack [j] s)" using pushBack_section assms(2) by simp
  from sys_ok_same [OF assms(2) [unfolded ss_peek_back(1)] this] show ?thesis by (simp only: ss_peek_back(2))
next
  case (ss_next s i a P k n nxt lst)
  then show ?thesis using assms(2) shape_okD(4) [of s i a] by simp
next
  case (ss_status s i a P k n st)
  then show ?thesis using assms(2) shape_okD(4) [of s i a] by simp
qed (auto simp: count_up_def count_down_def i64_shift shape_ok_def algebra_simps)

lemma store_steps_ok: "store_step\<^sup>*\<^sup>* x y \<Longrightarrow> sys_ok x \<Longrightarrow> sys_ok y"
  by (induction rule: rtranclp_induct) (auto intro: store_step_ok)

lemma store_New_ok: "sys_ok (store_New, {#}, None, 0)"
  using store_New_inv by (simp add: shape_ok_def store_inv_def) (simp add: queue_set_def store_New_def)

section \<open>The store under every interleaving\<close>

text \<open>Property C14: whatever calls are made, with whatever arguments, and however their sections follow one
  another, the trigger heap is a heap in the order of the next trigger times, every entry knows its position
  in it, and the index leads to the entry of the right job; once every call has returned, \<open>Len\<close> is the number
  of jobs (as an \<open>int64\<close>) plus the number of entries that \<open>LoadAll\<close> has replaced. If the calls came one after
  another, loaded only jobs with new ids and set no status but \<open>JobRun\<close> and \<open>JobStop\<close>, the heap holds only
  live entries of enabled jobs with a trigger time.\<close>

theorem store_invariant:
  assumes "store_step\<^sup>*\<^sup>* (store_New, {#}, None, 0) (s, P, k, n)"
  shows "heap_order (job_less (st_job s)) (fst (st_heap s)) (length (fst (st_heap s))) \<and>
    pos_ok (st_heap s) \<and>
    (\<forall>i j. store_Get i s = Some j \<longrightarrow> ji_ID j = i) \<and>
    (P = {#} \<longrightarrow> store_Len s = i64 (int (map_len (st_jobByID s)) + int n)) \<and>
    (store_reachable s \<longrightarrow> (\<forall>a \<in> set (fst (st_heap s)). st_jobByID s (ji_ID (st_job s a)) = Some a \<and>
      ji_Status (st_job s a) = JobRun \<and> ji_NextTriggerTime (st_job s a) \<noteq> None))"
proof -
  have "sys_ok (s, P, k, n)" by (rule store_steps_ok [OF assms store_New_ok])
  then have "shape_ok s" "P = {#} \<Longrightarrow> st_count s = i64 (int (map_len (st_jobByID s)) + int n)" by simp_all
  moreover have "store_reachable s \<Longrightarrow> a \<in> queue_set s \<Longrightarrow> st_jobByID s (ji_ID (st_job s a)) = Some a \<and>
      ji_Status (st_job s a) = JobRun \<and> ji_NextTriggerTime (st_job s a) \<noteq> None" for a
    using store_invD [OF store_reachable_inv] by blast
  ultimately show ?thesis
    by (auto simp: shape_ok_def heap_wf_def queue_set_def store_Get_def store_Len_def)
qed

theorem store_invariant_witness:
  "pos_ok (st_heap (snd (swap_in True (demo_job 1 10) store_New)))"
proof -
  have "store_step\<^sup>*\<^sup>* (store_New, {#}, None, 0)
      (snd (swap_in True (demo_job 1 10) store_New), {#AddCount (demo_job 1 10) 0#}, None, 0)"
    by (rule r_into_rtranclp)
      (use ss_add [of "demo_job 1 10" store_New 0 None _ "{#}" None 0] in
        \<open>simp add: swap_in_def newEntry_def store_New_def Let_def\<close>)
  then show ?thesis by (rule store_invariant [THEN conjunct2, THEN conjunct1])
qed




end
