(* ===== verification/Time_Wheel.thy ===== *)
theory Time_Wheel
  imports Go_Heap "HOL-Library.Monad_Syntax"
begin

text \<open>
  \<open>pkg/timewheel/timewheel.go\<close>: the four-level timing wheel that fires the scheduler's callbacks.

  A \<open>*Task\<close> is an address into \<open>tw_task\<close>: the slots, the overflow heap and the index point at the
  same task, and cancelling sets a flag that every later visit sees. A started callback
  (\<open>go t.fn()\<close>) is an element of the log \<open>tw_fired\<close> with the wheel's time. The goroutine can block
  for ever: \<open>place\<close> locks \<open>overflowMu\<close> while \<open>cascadeOverflow\<close> may hold it, and Go's mutexes are
  not reentrant, so the operations of the tick loop return an \<open>option\<close> whose \<open>None\<close> is a goroutine
  that never continues.

  Client calls and the loop meet at two channels: \<open>tw_step\<close> is the step relation of the wheel, with
  one rule per client call, channel receive and tick.
\<close>

section \<open>Constants and state\<close>

definition lvl0Slots :: nat where "lvl0Slots = 256"
definition lvl1Slots :: nat where "lvl1Slots = 64"
definition lvl2Slots :: nat where "lvl2Slots = 64"
definition lvl3Slots :: nat where "lvl3Slots = 64"
definition lvl0Tick :: duration where "lvl0Tick = millisecond"
definition lvl1Tick :: duration where "lvl1Tick = int lvl0Slots * lvl0Tick"
definition lvl2Tick :: duration where "lvl2Tick = int lvl1Slots * lvl1Tick"
definition lvl3Tick :: duration where "lvl3Tick = int lvl2Slots * lvl2Tick"
definition maxWheelSpan :: duration where "maxWheelSpan = int lvl3Slots * lvl3Tick"
definition maxSlotLen :: nat where "maxSlotLen = 100000"
definition addChCap :: nat where "addChCap = 4096"
definition cancelChCap :: nat where "cancelChCap = 1024"

lemmas wheel_consts = lvl0Slots_def lvl1Slots_def lvl2Slots_def lvl3Slots_def lvl0Tick_def
  lvl1Tick_def lvl2Tick_def lvl3Tick_def maxWheelSpan_def millisecond_def

record 'f Task =
  tk_ID :: string
  tk_FireAt :: time
  tk_fn :: 'f
  tk_cancelled :: bool
  tk_level :: nat
  tk_slot :: nat

record 'f TimeWheel =
  tw_wheels :: "nat \<Rightarrow> nat \<Rightarrow> nat list"
  tw_cursor :: "nat \<Rightarrow> nat"
  tw_now :: time
  tw_overflow :: "nat pheap"
  tw_overflowMu :: bool
  tw_index :: "string \<rightharpoonup> nat"
  tw_task :: "nat \<Rightarrow> 'f Task"
  tw_fresh :: nat
  tw_addCh :: "nat list"
  tw_cancelCh :: "string list"
  tw_started :: bool
  tw_stopped :: bool
  tw_fired :: "(nat \<times> time) list"

definition tw_New :: "time \<Rightarrow> 'f Task \<Rightarrow> 'f TimeWheel" where
  "tw_New startTime unused =
     \<lparr>tw_wheels = (\<lambda>_ _. []), tw_cursor = (\<lambda>_. 0), tw_now = time_truncate startTime lvl0Tick,
      tw_overflow = ([], \<lambda>_. - 1), tw_overflowMu = False, tw_index = Map.empty,
      tw_task = (\<lambda>_. unused), tw_fresh = 0, tw_addCh = [], tw_cancelCh = [],
      tw_started = False, tw_stopped = False, tw_fired = []\<rparr>"

definition task_less :: "(nat \<Rightarrow> 'f Task) \<Rightarrow> nat \<Rightarrow> nat \<Rightarrow> bool" where
  "task_less task a b \<longleftrightarrow> tk_FireAt (task a) < tk_FireAt (task b)"

interpretation task_heap: less_order "task_less task" for task
  by unfold_locales (auto simp: task_less_def)

section \<open>Operations of the loop\<close>

definition task_Cancel :: "nat \<Rightarrow> 'f TimeWheel \<Rightarrow> 'f TimeWheel" where
  "task_Cancel a tw = tw\<lparr>tw_task := (tw_task tw)(a := (tw_task tw a)\<lparr>tk_cancelled := True\<rparr>)\<rparr>"

definition isCancelled :: "'f TimeWheel \<Rightarrow> nat \<Rightarrow> bool" where
  "isCancelled tw a = tk_cancelled (tw_task tw a)"

definition slot_add :: "nat \<Rightarrow> nat list \<Rightarrow> nat list" where
  "slot_add a sl = (if length sl \<ge> maxSlotLen then sl else sl @ [a])"

definition slot_drain :: "nat \<Rightarrow> nat \<Rightarrow> 'f TimeWheel \<Rightarrow> nat list \<times> 'f TimeWheel" where
  "slot_drain l s tw =
     (tw_wheels tw l s, tw\<lparr>tw_wheels := (tw_wheels tw)(l := (tw_wheels tw l)(s := []))\<rparr>)"

definition fire :: "nat \<Rightarrow> 'f TimeWheel \<Rightarrow> 'f TimeWheel" where
  "fire a tw = tw\<lparr>tw_index := (tw_index tw)(tk_ID (tw_task tw a) := None),
     tw_fired := tw_fired tw @ [(a, tw_now tw)]\<rparr>"

definition put :: "nat \<Rightarrow> nat \<Rightarrow> duration \<Rightarrow> nat \<Rightarrow> duration \<Rightarrow> 'f TimeWheel \<Rightarrow> 'f TimeWheel" where
  "put l slots tick a delay tw =
     (let ticks = nat (go_div delay tick) + 1;
          slot = (tw_cursor tw l + ticks) mod slots
      in tw\<lparr>tw_task := (tw_task tw)(a := (tw_task tw a)\<lparr>tk_level := l, tk_slot := slot\<rparr>),
            tw_wheels := (tw_wheels tw)(l := (tw_wheels tw l)(slot := slot_add a (tw_wheels tw l slot)))\<rparr>)"

definition place :: "nat \<Rightarrow> 'f TimeWheel \<Rightarrow> 'f TimeWheel option" where
  "place a tw =
     (let delay = time_sub (tk_FireAt (tw_task tw a)) (tw_now tw)
      in if delay \<le> 0 then Some (if isCancelled tw a then tw else fire a tw)
         else if delay < lvl1Tick then Some (put 0 lvl0Slots lvl0Tick a delay tw)
         else if delay < lvl2Tick then Some (put 1 lvl1Slots lvl1Tick a delay tw)
         else if delay < lvl3Tick then Some (put 2 lvl2Slots lvl2Tick a delay tw)
         else if delay < maxWheelSpan then Some (put 3 lvl3Slots lvl3Tick a delay tw)
         else if tw_overflowMu tw then None
         else Some (tw\<lparr>tw_overflow := heap_push (task_less (tw_task tw)) a (tw_overflow tw)\<rparr>))"

definition insert_task :: "nat \<Rightarrow> 'f TimeWheel \<Rightarrow> 'f TimeWheel option" where
  "insert_task a tw =
     (let i = tk_ID (tw_task tw a);
          tw1 = (case tw_index tw i of Some old \<Rightarrow> task_Cancel old tw | None \<Rightarrow> tw);
          tw2 = tw1\<lparr>tw_index := (tw_index tw1)(i \<mapsto> a)\<rparr>
      in place a tw2)"

definition doCancel :: "string \<Rightarrow> 'f TimeWheel \<Rightarrow> 'f TimeWheel" where
  "doCancel i tw =
     (case tw_index tw i of
        None \<Rightarrow> tw
      | Some a \<Rightarrow> let tw1 = task_Cancel a tw in tw1\<lparr>tw_index := (tw_index tw1)(i := None)\<rparr>)"

fun fire_list :: "nat list \<Rightarrow> 'f TimeWheel \<Rightarrow> 'f TimeWheel" where
  "fire_list [] tw = tw"
| "fire_list (a # as) tw = fire_list as (if isCancelled tw a then tw else fire a tw)"

definition fireTasks :: "nat \<Rightarrow> nat \<Rightarrow> 'f TimeWheel \<Rightarrow> 'f TimeWheel" where
  "fireTasks l s tw = (let (tasks, tw1) = slot_drain l s tw in fire_list tasks tw1)"

fun place_list :: "nat list \<Rightarrow> 'f TimeWheel \<Rightarrow> 'f TimeWheel option" where
  "place_list [] tw = Some tw"
| "place_list (a # as) tw =
     (if isCancelled tw a then place_list as tw
      else do { tw1 \<leftarrow> place a tw; place_list as tw1 })"

definition cascade :: "nat \<Rightarrow> nat \<Rightarrow> 'f TimeWheel \<Rightarrow> 'f TimeWheel option" where
  "cascade l s tw = (let (tasks, tw1) = slot_drain l s tw in place_list tasks tw1)"

partial_function (option) overflow_loop :: "time \<Rightarrow> 'f TimeWheel \<Rightarrow> 'f TimeWheel option" where
  "overflow_loop horizon tw =
     (if fst (tw_overflow tw) = [] then Some tw
      else let top = fst (tw_overflow tw) ! 0
           in if tk_FireAt (tw_task tw top) > horizon then Some tw
              else let tw1 = tw\<lparr>tw_overflow := snd (heap_pop (task_less (tw_task tw)) (tw_overflow tw))\<rparr>
                   in if isCancelled tw1 top then overflow_loop horizon tw1
                      else do { tw2 \<leftarrow> place top tw1; overflow_loop horizon tw2 })"

definition cascadeOverflow :: "'f TimeWheel \<Rightarrow> 'f TimeWheel option" where
  "cascadeOverflow tw =
     (if tw_overflowMu tw then None
      else do { tw1 \<leftarrow> overflow_loop (tw_now tw + maxWheelSpan) (tw\<lparr>tw_overflowMu := True\<rparr>);
                Some (tw1\<lparr>tw_overflowMu := False\<rparr>) })"

definition set_cursor :: "nat \<Rightarrow> nat \<Rightarrow> 'f TimeWheel \<Rightarrow> 'f TimeWheel" where
  "set_cursor l c tw = tw\<lparr>tw_cursor := (tw_cursor tw)(l := c)\<rparr>"

text \<open>The body of \<open>tick\<close> once both channels are drained.\<close>

definition tick_body :: "time \<Rightarrow> 'f TimeWheel \<Rightarrow> 'f TimeWheel option" where
  "tick_body wallNow tw = do {
     tw \<leftarrow> cascadeOverflow (tw\<lparr>tw_now := time_truncate wallNow lvl0Tick\<rparr>);
     let c0 = (tw_cursor tw 0 + 1) mod lvl0Slots;
     let tw = fireTasks 0 c0 (set_cursor 0 c0 tw);
     if c0 \<noteq> 0 then Some tw
     else do {
       let c1 = (tw_cursor tw 1 + 1) mod lvl1Slots;
       tw \<leftarrow> cascade 1 c1 (set_cursor 1 c1 tw);
       if c1 \<noteq> 0 then Some tw
       else do {
         let c2 = (tw_cursor tw 2 + 1) mod lvl2Slots;
         tw \<leftarrow> cascade 2 c2 (set_cursor 2 c2 tw);
         if c2 \<noteq> 0 then Some tw
         else do {
           let c3 = (tw_cursor tw 3 + 1) mod lvl3Slots;
           cascade 3 c3 (set_cursor 3 c3 tw)
         }
       }
     }
   }"

section \<open>Clients and the step relation\<close>

definition new_task :: "string \<Rightarrow> time \<Rightarrow> 'f \<Rightarrow> 'f TimeWheel \<Rightarrow> nat \<times> 'f TimeWheel" where
  "new_task i fireAt fn tw =
     (tw_fresh tw, tw\<lparr>tw_task := (tw_task tw)(tw_fresh tw :=
         \<lparr>tk_ID = i, tk_FireAt = fireAt, tk_fn = fn, tk_cancelled = False, tk_level = 0, tk_slot = 0\<rparr>),
        tw_fresh := Suc (tw_fresh tw)\<rparr>)"

text \<open>\<open>Add\<close> and \<open>Cancel\<close> select between the channel and \<open>stopCh\<close>: a message is queued when there is
  room, and may be dropped once the wheel is stopped.\<close>

definition tw_Add :: "string \<Rightarrow> time \<Rightarrow> 'f \<Rightarrow> 'f TimeWheel \<Rightarrow> 'f TimeWheel" where
  "tw_Add i fireAt fn tw =
     (let (a, tw1) = new_task i fireAt fn tw in tw1\<lparr>tw_addCh := tw_addCh tw1 @ [a]\<rparr>)"

definition tw_Cancel :: "string \<Rightarrow> 'f TimeWheel \<Rightarrow> 'f TimeWheel" where
  "tw_Cancel i tw = tw\<lparr>tw_cancelCh := tw_cancelCh tw @ [i]\<rparr>"

definition tw_Start :: "'f TimeWheel \<Rightarrow> 'f TimeWheel" where
  "tw_Start tw = tw\<lparr>tw_started := True\<rparr>"

definition tw_Stop :: "'f TimeWheel \<Rightarrow> 'f TimeWheel" where
  "tw_Stop tw = (if \<not> tw_started tw then tw else tw\<lparr>tw_stopped := True\<rparr>)"

text \<open>The goroutine of \<open>run\<close> lives between the two.\<close>

abbreviation running :: "'f TimeWheel \<Rightarrow> bool" where
  "running tw \<equiv> tw_started tw \<and> \<not> tw_stopped tw"

inductive chan_step :: "'f TimeWheel \<Rightarrow> 'f TimeWheel \<Rightarrow> bool" where
  client_add: "length (tw_addCh tw) < addChCap \<Longrightarrow> chan_step tw (tw_Add i fireAt fn tw)"
| client_add_stopped: "tw_stopped tw \<Longrightarrow> chan_step tw (snd (new_task i fireAt fn tw))"
| client_cancel: "length (tw_cancelCh tw) < cancelChCap \<Longrightarrow> chan_step tw (tw_Cancel i tw)"
| client_start: "chan_step tw (tw_Start tw)"
| client_stop: "\<not> tw_stopped tw \<Longrightarrow> chan_step tw (tw_Stop tw)"
| recv_add: "running tw \<Longrightarrow> tw_addCh tw = a # as \<Longrightarrow>
    insert_task a (tw\<lparr>tw_addCh := as\<rparr>) = Some tw' \<Longrightarrow> chan_step tw tw'"
| recv_cancel: "running tw \<Longrightarrow> tw_cancelCh tw = i # is \<Longrightarrow>
    chan_step tw (doCancel i (tw\<lparr>tw_cancelCh := is\<rparr>))"

inductive tw_step :: "'f TimeWheel \<Rightarrow> 'f TimeWheel \<Rightarrow> bool" where
  channel: "chan_step tw tw' \<Longrightarrow> tw_step tw tw'"
| tick: "running tw \<Longrightarrow> tw_addCh tw = [] \<Longrightarrow> tw_cancelCh tw = [] \<Longrightarrow>
    tick_body wallNow tw = Some tw' \<Longrightarrow> tw_step tw tw'"

inductive_cases chan_step_cases: "chan_step tw tw'"
inductive_cases tw_step_cases: "tw_step tw tw'"

record TWStats =
  IndexSize :: nat
  OverflowSize :: nat

definition tw_Stats :: "'f TimeWheel \<Rightarrow> TWStats" where
  "tw_Stats tw = \<lparr>IndexSize = map_len (tw_index tw), OverflowSize = length (fst (tw_overflow tw))\<rparr>"

end
