(* ===== verification/Wheel_Timing.thy ===== *)
theory Wheel_Timing
  imports Time_Wheel
begin

text \<open>
  When the timing wheel fires a task. \<open>ticks_to c l s\<close> is the number of ticks until slot \<open>s\<close> of level
  \<open>l\<close> is drained when the cursors are \<open>c\<close>; \<open>slot_ok\<close> relates it to the delay of the tasks in the
  slot, \<open>wheel_inv\<close> is the invariant of the loop under a ticker that advances the clock by one
  millisecond per tick (an \<open>ideal\<close> tick). From it follow that no task fires early, how late it can
  fire, that none is lost, and when the loop blocks for ever.
\<close>

section \<open>Counting ticks\<close>

abbreviation ms :: int where "ms \<equiv> millisecond"

definition nslots :: "nat \<Rightarrow> nat" where
  "nslots l = (if l = 0 then 256 else 64)"

definition unit_ms :: "nat \<Rightarrow> nat" where
  "unit_ms l = (if l = 0 then 1 else if l = 1 then 256 else if l = 2 then 16384 else 1048576)"

definition cursor_ok :: "(nat \<Rightarrow> nat) \<Rightarrow> bool" where
  "cursor_ok c \<longleftrightarrow> c 0 < 256 \<and> c 1 < 64 \<and> c 2 < 64 \<and> c 3 < 64"

text \<open>How far level \<open>l\<close> is into its current slot, and how many slots ahead of the cursor \<open>s\<close> is
  (counting from 0 for the next one).\<close>

definition phase :: "(nat \<Rightarrow> nat) \<Rightarrow> nat \<Rightarrow> nat" where
  "phase c l = (if l = 0 then 0 else if l = 1 then c 0 else if l = 2 then c 0 + 256 * c 1
     else c 0 + 256 * c 1 + 16384 * c 2)"

definition ahead :: "nat \<Rightarrow> nat \<Rightarrow> nat \<Rightarrow> nat" where
  "ahead n c s = (if c < s then s - 1 - c else s + n - 1 - c)"

definition ticks_to :: "(nat \<Rightarrow> nat) \<Rightarrow> nat \<Rightarrow> nat \<Rightarrow> nat" where
  "ticks_to c l s = (ahead (nslots l) (c l) s + 1) * unit_ms l - phase c l"

definition next_cursor :: "(nat \<Rightarrow> nat) \<Rightarrow> nat \<Rightarrow> nat" where
  "next_cursor c = (let c0 = (c 0 + 1) mod 256; c1 = (c 1 + 1) mod 64;
      c2 = (c 2 + 1) mod 64; c3 = (c 3 + 1) mod 64
    in if c0 \<noteq> 0 then c(0 := c0)
       else if c1 \<noteq> 0 then c(0 := c0, 1 := c1)
       else if c2 \<noteq> 0 then c(0 := c0, 1 := c1, 2 := c2)
       else c(0 := c0, 1 := c1, 2 := c2, 3 := c3))"

lemma level_cases: "l < 4 \<Longrightarrow> l = 0 \<or> l = 1 \<or> l = 2 \<or> l = (3::nat)"
  by linarith

lemma phase_less: "cursor_ok c \<Longrightarrow> l < 4 \<Longrightarrow> phase c l < unit_ms l"
  using level_cases by (fastforce simp: phase_def unit_ms_def cursor_ok_def)

lemma ticks_to_pos: "cursor_ok c \<Longrightarrow> l < 4 \<Longrightarrow> 0 < ticks_to c l s"
  using phase_less [of c l] by (simp add: ticks_to_def)

lemma cursor_less: "cursor_ok c \<Longrightarrow> l < 4 \<Longrightarrow> c l < nslots l"
  using level_cases by (fastforce simp: cursor_ok_def nslots_def)

lemma succ_mod: "c < n \<Longrightarrow> (c + 1) mod n = (if c + 1 = n then 0 else c + (1::nat))"
  by auto

lemma ahead_0: "c < n \<Longrightarrow> s < n \<Longrightarrow> ahead n c s = 0 \<longleftrightarrow> s = (c + 1) mod n"
  unfolding ahead_def succ_mod by auto

lemma ahead_succ: "c < n \<Longrightarrow> s < n \<Longrightarrow>
  ahead n ((c + 1) mod n) s = (if ahead n c s = 0 then n - 1 else ahead n c s - 1)"
  unfolding ahead_def succ_mod by auto

lemma next_cursor_ok: "cursor_ok c \<Longrightarrow> cursor_ok (next_cursor c)"
  by (simp add: cursor_ok_def next_cursor_def Let_def)

text \<open>The cursors of the levels below roll over exactly when the phase is at its last value.\<close>

lemma next_cursor_level:
  assumes "cursor_ok c" "l < 4"
  shows "next_cursor c l = (if phase c l + 1 = unit_ms l then (c l + 1) mod nslots l else c l)"
    and "phase (next_cursor c) l = (if phase c l + 1 = unit_ms l then 0 else phase c l + 1)"
proof -
  have c: "c 0 < 256" "c 1 < 64" "c 2 < 64" "c 3 < 64" using assms by (auto simp: cursor_ok_def)
  have roll: "c 0 + 256 * c 1 + 1 = 16384 \<longleftrightarrow> c 0 = 255 \<and> c 1 = 63"
    using c by (intro iffI conjI; linarith)
  have roll2: "c 0 + 256 * c 1 + 16384 * c 2 + 1 = 1048576 \<longleftrightarrow> c 0 = 255 \<and> c 1 = 63 \<and> c 2 = 63"
    using c by (intro iffI conjI; linarith)
  consider "l = 0" | "l = 1" | "l = 2" | "l = 3" using level_cases assms(2) by blast
  note l = this
  show "next_cursor c l = (if phase c l + 1 = unit_ms l then (c l + 1) mod nslots l else c l)"
    by (cases rule: l) (use c roll roll2 in \<open>simp_all add: next_cursor_def Let_def mod_Suc phase_def unit_ms_def nslots_def\<close>)
  show "phase (next_cursor c) l = (if phase c l + 1 = unit_ms l then 0 else phase c l + 1)"
    by (cases rule: l) (use c roll roll2 in \<open>simp_all add: next_cursor_def Let_def mod_Suc phase_def unit_ms_def\<close>)
qed

lemma ticks_to_1_iff:
  assumes "cursor_ok c" "l < 4" "s < nslots l"
  shows "ticks_to c l s = 1 \<longleftrightarrow> phase c l + 1 = unit_ms l \<and> s = (c l + 1) mod nslots l"
proof -
  let ?k = "ahead (nslots l) (c l) s"
  have p: "phase c l < unit_ms l" by (rule phase_less [OF assms(1,2)])
  have "ticks_to c l s = 1 \<longleftrightarrow> ?k = 0 \<and> phase c l + 1 = unit_ms l"
  proof (cases ?k)
    case 0
    then show ?thesis using p by (auto simp: ticks_to_def)
  next
    case (Suc k)
    then show ?thesis using p by (simp add: ticks_to_def)
  qed
  then show ?thesis using ahead_0 cursor_less assms by blast
qed

lemma ticks_to_next:
  assumes "cursor_ok c" "l < 4" "s < nslots l" "ticks_to c l s \<noteq> 1"
  shows "ticks_to (next_cursor c) l s + 1 = ticks_to c l s"
proof (cases "phase c l + 1 = unit_ms l")
  case True
  then have k: "ahead (nslots l) (c l) s \<noteq> 0"
    using assms ticks_to_1_iff ahead_0 cursor_less by metis
  then obtain k where k: "ahead (nslots l) (c l) s = Suc k" by (cases "ahead (nslots l) (c l) s") auto
  then have "ahead (nslots l) (next_cursor c l) s = k"
    using ahead_succ [of "c l" "nslots l" s] cursor_less assms next_cursor_level(1) [OF assms(1,2)] True
    by simp
  then show ?thesis
    using next_cursor_level(2) [OF assms(1,2)] True k by (simp add: ticks_to_def algebra_simps)
next
  case False
  then have "phase c l + 1 < unit_ms l" using phase_less [OF assms(1,2)] by linarith
  then show ?thesis
    using next_cursor_level [OF assms(1,2)] False by (simp add: ticks_to_def algebra_simps)
qed

section \<open>Where a task is and when its slot is drained\<close>

abbreviation fire_at :: "'f TimeWheel \<Rightarrow> nat \<Rightarrow> time" where
  "fire_at tw a \<equiv> tk_FireAt (tw_task tw a)"

text \<open>The delay of a task in slot \<open>s\<close> of level \<open>l\<close>: at most one slot of that level less than the
  time until the slot is drained, and less than one slot more (on level 0: not more at all).\<close>

definition slot_ok :: "(nat \<Rightarrow> nat) \<Rightarrow> nat \<Rightarrow> nat \<Rightarrow> int \<Rightarrow> bool" where
  "slot_ok c l s delay \<longleftrightarrow>
     (int (ticks_to c l s) - int (unit_ms l)) * ms \<le> delay \<and>
     delay < (int (ticks_to c l s) + (if l = 0 then 0 else int (unit_ms l))) * ms"

lemma slot_ok_next:
  assumes "cursor_ok c" "l < 4" "s < nslots l" "ticks_to c l s \<noteq> 1" "slot_ok c l s d"
  shows "slot_ok (next_cursor c) l s (d - ms)"
proof -
  have "ticks_to c l s = ticks_to (next_cursor c) l s + 1"
    using ticks_to_next [OF assms(1-4)] by simp
  then show ?thesis using assms(5) by (auto simp: slot_ok_def algebra_simps split: if_splits)
qed

text \<open>A slot that is drained now: its tasks are due on level 0, and are closer than one slot on the
  other levels.\<close>

lemma slot_ok_drained:
  assumes "ticks_to c l s = 1" "slot_ok c l s d"
  shows "- (int (unit_ms l) * ms) \<le> d - ms" and "d - ms < (if l = 0 then 0 else int (unit_ms l) * ms)"
  using assms by (auto simp: slot_ok_def algebra_simps split: if_splits)

definition tick_of :: "nat \<Rightarrow> duration" where
  "tick_of l = int (unit_ms l) * ms"

lemma tick_of_pos: "0 < tick_of l"
  by (simp add: tick_of_def unit_ms_def millisecond_def)

lemma ticks_to_put:
  assumes "cursor_ok c" "l < 4" "0 < d" "d < int (nslots l) * tick_of l"
    and slot: "slot = (c l + (nat (go_div d (tick_of l)) + 1)) mod nslots l"
  shows "slot < nslots l"
    and "int (ticks_to c l slot) = (d div tick_of l + 1) * int (unit_ms l) - int (phase c l)"
    and "slot_ok c l slot d"
proof -
  let ?T = "tick_of l" and ?n = "nslots l"
  define q where "q = nat (d div ?T)"
  have q: "int q = d div ?T" using assms(3) tick_of_pos [of l] by (simp add: q_def pos_imp_zdiv_nonneg_iff)
  have g: "nat (go_div d ?T) = q"
    using assms(3) tick_of_pos [of l] by (simp add: q_def go_div_nonneg)
  have "int q * ?T = d - d mod ?T" unfolding q by (simp add: minus_mod_eq_div_mult)
  moreover have "(int q + 1) * ?T = int q * ?T + ?T" by (simp add: distrib_right)
  ultimately have qd: "int q * ?T \<le> d" "d < (int q + 1) * ?T"
    using pos_mod_bound [OF tick_of_pos, of d l] pos_mod_sign [OF tick_of_pos, of d l] by linarith+
  have qn: "q < ?n"
  proof (rule ccontr)
    assume "\<not> q < ?n"
    then have "int ?n * ?T \<le> int q * ?T" using tick_of_pos [of l] by (simp add: mult_right_mono)
    then show False using qd(1) assms(4) by linarith
  qed
  have n: "c l < ?n" by (rule cursor_less [OF assms(1,2)])
  show s: "slot < ?n" using n unfolding slot by simp
  have sl: "slot = (if c l + (q + 1) < ?n then c l + (q + 1) else c l + (q + 1) - ?n)"
    unfolding slot g using n qn by (auto simp: mod_if le_mod_geq)
  have a: "ahead ?n (c l) slot = q" unfolding ahead_def sl using n qn by auto
  have p: "phase c l < unit_ms l" by (rule phase_less [OF assms(1,2)])
  have t: "int (ticks_to c l slot) = (int q + 1) * int (unit_ms l) - int (phase c l)"
    using p by (simp add: ticks_to_def a of_nat_diff algebra_simps)
  then show "int (ticks_to c l slot) = (d div ?T + 1) * int (unit_ms l) - int (phase c l)"
    using q by simp
  note qd
  moreover have "int (phase c l) \<le> (if l = 0 then 0 else int (unit_ms l))"
    using p by (auto simp: phase_def)
  then have "int (phase c l) * ms \<le> (if l = 0 then 0 else int (unit_ms l)) * ms"
    by (rule mult_right_mono) (simp add: millisecond_def)
  moreover have "0 \<le> int (phase c l) * ms" by (simp add: millisecond_def)
  ultimately show "slot_ok c l slot d"
    unfolding slot_ok_def t tick_of_def by (simp add: algebra_simps)
qed

text \<open>\<open>place\<close>, case by case: at once, into a slot, or into the overflow heap.\<close>

lemma tick_of_eq: "tick_of 0 = lvl0Tick" "tick_of 1 = lvl1Tick" "tick_of 2 = lvl2Tick"
  "tick_of 3 = lvl3Tick"
  by (simp_all add: tick_of_def unit_ms_def wheel_consts)

definition put_at :: "nat \<Rightarrow> nat \<Rightarrow> 'f TimeWheel \<Rightarrow> 'f TimeWheel" where
  "put_at l a tw = put l (nslots l) (tick_of l) a (fire_at tw a - tw_now tw) tw"

lemma place_cases:
  fixes tw :: "'f TimeWheel" and a :: nat
  defines "d \<equiv> fire_at tw a - tw_now tw"
  obtains (due) "d \<le> 0" "place a tw = Some (if isCancelled tw a then tw else fire a tw)"
  | (slot) l where "l < 4" "0 < d" "d < int (nslots l) * tick_of l" "place a tw = Some (put_at l a tw)"
      "l = 0 \<or> tick_of l \<le> d"
  | (far) "maxWheelSpan \<le> d" "place a tw = (if tw_overflowMu tw then None
      else Some (tw\<lparr>tw_overflow := heap_push (task_less (tw_task tw)) a (tw_overflow tw)\<rparr>))"
proof -
  have sub: "time_sub (fire_at tw a) (tw_now tw) < k \<longleftrightarrow> d < k" if "0 \<le> k" "k \<le> i64_max" for k
    using time_sub_less_iff [of k "fire_at tw a" "tw_now tw"] that by (simp add: d_def i64_min_def)
  have lt: "time_sub (fire_at tw a) (tw_now tw) < lvl1Tick \<longleftrightarrow> d < lvl1Tick"
    "time_sub (fire_at tw a) (tw_now tw) < lvl2Tick \<longleftrightarrow> d < lvl2Tick"
    "time_sub (fire_at tw a) (tw_now tw) < lvl3Tick \<longleftrightarrow> d < lvl3Tick"
    "time_sub (fire_at tw a) (tw_now tw) < maxWheelSpan \<longleftrightarrow> d < maxWheelSpan"
    by (rule sub; simp add: wheel_consts i64_max_def)+
  have eq: "time_sub (fire_at tw a) (tw_now tw) = d" if "0 < d" "d < maxWheelSpan"
    using that time_sub_exact by (simp add: d_def wheel_consts)
  have n: "nslots 0 = lvl0Slots" "nslots 1 = lvl1Slots" "nslots 2 = lvl2Slots" "nslots 3 = lvl3Slots"
    by (simp_all add: nslots_def wheel_consts)
  have spans: "int (nslots 0) * tick_of 0 = lvl1Tick" "int (nslots 1) * tick_of 1 = lvl2Tick"
    "int (nslots 2) * tick_of 2 = lvl3Tick" "int (nslots 3) * tick_of 3 = maxWheelSpan"
    "lvl1Tick < lvl2Tick" "lvl2Tick < lvl3Tick" "lvl3Tick < maxWheelSpan"
    by (simp_all add: nslots_def tick_of_def unit_ms_def wheel_consts)
  have le: "time_sub (fire_at tw a) (tw_now tw) \<le> 0 \<longleftrightarrow> d \<le> 0" by (simp add: d_def)
  have put: "put_at l a tw = put l (nslots l) (tick_of l) a d tw" for l
    by (simp add: put_at_def d_def)
  note P = place_def [of a tw, unfolded Let_def le lt]
  consider "d \<le> 0" | "0 < d" "d < lvl1Tick" | "lvl1Tick \<le> d" "d < lvl2Tick"
    | "lvl2Tick \<le> d" "d < lvl3Tick" | "lvl3Tick \<le> d" "d < maxWheelSpan" | "maxWheelSpan \<le> d"
    by linarith
  then show thesis
  proof cases
    case 1
    then show ?thesis using due P by simp
  next
    case 2
    then show ?thesis using slot [of 0] P spans eq by (simp add: put n tick_of_eq)
  next
    case 3
    then have d: "0 < d" by (simp add: wheel_consts)
    then show ?thesis using slot [of 1] P spans eq 3 by (simp add: put n tick_of_eq del: One_nat_def)
  next
    case 4
    then have d: "0 < d" by (simp add: wheel_consts)
    then show ?thesis using slot [of 2] P spans eq 4 by (simp add: put n tick_of_eq)
  next
    case 5
    then have d: "0 < d" by (simp add: wheel_consts)
    then show ?thesis using slot [of 3] P spans eq 5 by (simp add: put n tick_of_eq)
  next
    case 6
    then have d: "0 < d" by (simp add: wheel_consts)
    then show ?thesis using far P spans 6 by simp
  qed
qed

end
