(* ===== verification/Wheel_Firing.thy ===== *)
theory Wheel_Firing
  imports Wheel_Timing "HOL-Library.Multiset"
begin

text \<open>
  What one tick of the wheel does to the tasks. \<open>residents\<close> is the multiset of the tasks in the slots
  and in the overflow heap; \<open>carries A tw B tw'\<close> says that an operation that starts with the tasks
  \<open>A\<close> taken out of the wheel and ends with \<open>B\<close> taken out loses no live task: each is still there or
  was fired, once, and the index still leads to it. \<open>wheel_inv\<close> is the timing invariant of the loop
  under a ticker that advances the clock by one millisecond per tick.
\<close>

section \<open>Residents\<close>

definition slots_mset :: "(nat \<Rightarrow> nat \<Rightarrow> nat list) \<Rightarrow> nat multiset" where
  "slots_mset w = (\<Sum>l<4. \<Sum>s<nslots l. mset (w l s))"

definition residents :: "'f TimeWheel \<Rightarrow> nat multiset" where
  "residents tw = slots_mset (tw_wheels tw) + mset (fst (tw_overflow tw))"

abbreviation upd_slot :: "nat \<Rightarrow> nat \<Rightarrow> 'a \<Rightarrow> (nat \<Rightarrow> nat \<Rightarrow> 'a) \<Rightarrow> nat \<Rightarrow> nat \<Rightarrow> 'a" where
  "upd_slot l s xs w \<equiv> w(l := (w l)(s := xs))"

lemma sum_upd:
  assumes "finite I" "i \<in> I"
  shows "(\<Sum>j\<in>I. (if j = i then y else f j)) + f i = (\<Sum>j\<in>I. f j) + (y :: 'a :: comm_monoid_add)"
proof -
  have "(\<Sum>j\<in>I - {i}. (if j = i then y else f j)) = (\<Sum>j\<in>I - {i}. f j)"
    by (rule sum.cong) auto
  then show ?thesis using assms by (simp add: sum.remove [of I i] ac_simps)
qed

lemma slots_mset_upd:
  assumes "l < 4" "s < nslots l"
  shows "slots_mset (upd_slot l s xs w) + mset (w l s) = slots_mset w + mset xs"
proof -
  let ?f = "\<lambda>l. \<Sum>s<nslots l. mset (w l s)"
  let ?y = "\<Sum>t<nslots l. mset ((upd_slot l s xs w) l t)"
  have "?y = (\<Sum>t<nslots l. (if t = s then mset xs else mset (w l t)))"
    by (rule sum.cong) auto
  then have y: "?y + mset (w l s) = ?f l + mset xs"
    using sum_upd [of "{..<nslots l}" s "mset xs" "\<lambda>t. mset (w l t)"] assms by simp
  have "slots_mset (upd_slot l s xs w) = (\<Sum>k<4. (if k = l then ?y else ?f k))"
    unfolding slots_mset_def by (rule sum.cong) auto
  then have "slots_mset (upd_slot l s xs w) + ?f l = slots_mset w + ?y"
    using sum_upd [of "{..<4}" l ?y ?f] assms by (simp add: slots_mset_def)
  then have "slots_mset (upd_slot l s xs w) + ?f l + mset (w l s) = slots_mset w + ?y + mset (w l s)"
    by simp
  also have "\<dots> = slots_mset w + (?f l + mset xs)" by (simp only: add.assoc y)
  finally have "slots_mset (upd_slot l s xs w) + mset (w l s) + ?f l = slots_mset w + mset xs + ?f l"
    by (simp only: ac_simps)
  then show ?thesis by simp
qed

lemma slot_mset_le: "l < 4 \<Longrightarrow> s < nslots l \<Longrightarrow> mset (w l s) \<subseteq># slots_mset w"
  using slots_mset_upd [where xs = "[]" and l = l and s = s and w = w]
  by (metis add.right_neutral mset.simps(1) mset_subset_eq_add_right)

lemma slots_mset_empty [simp]: "slots_mset (\<lambda>_ _. []) = {#}"
  by (simp add: slots_mset_def)

section \<open>Operations that carry tasks\<close>

definition live :: "'f TimeWheel \<Rightarrow> nat \<Rightarrow> bool" where
  "live tw a \<longleftrightarrow> \<not> tk_cancelled (tw_task tw a)"

text \<open>What the operations of a tick leave alone.\<close>

definition frame :: "'f TimeWheel \<Rightarrow> 'f TimeWheel \<Rightarrow> bool" where
  "frame tw tw' \<longleftrightarrow> tw_now tw' = tw_now tw \<and> tw_addCh tw' = tw_addCh tw \<and>
     tw_cancelCh tw' = tw_cancelCh tw \<and> tw_started tw' = tw_started tw \<and> tw_stopped tw' = tw_stopped tw \<and>
     tw_fresh tw' = tw_fresh tw \<and> tw_index tw' \<subseteq>\<^sub>m tw_index tw \<and>
     (\<forall>a. tk_ID (tw_task tw' a) = tk_ID (tw_task tw a) \<and> fire_at tw' a = fire_at tw a \<and>
        tk_fn (tw_task tw' a) = tk_fn (tw_task tw a) \<and> live tw' a = live tw a)"

lemma frame_refl: "frame tw tw" by (simp add: frame_def)

lemma frame_trans: "frame t1 t2 \<Longrightarrow> frame t2 t3 \<Longrightarrow> frame t1 t3"
  using map_le_trans by (auto simp: frame_def)

text \<open>The index leads to every live task, and a live task is in one place only.\<close>

definition indexed :: "nat multiset \<Rightarrow> 'f TimeWheel \<Rightarrow> bool" where
  "indexed M tw \<longleftrightarrow> (\<forall>a \<in># M. live tw a \<longrightarrow> count M a = 1 \<and> tw_index tw (tk_ID (tw_task tw a)) = Some a)"

definition carries :: "nat multiset \<Rightarrow> 'f TimeWheel \<Rightarrow> nat multiset \<Rightarrow> 'f TimeWheel \<Rightarrow> bool" where
  "carries A tw B tw' \<longleftrightarrow> frame tw tw' \<and>
     (\<exists>new. tw_fired tw' = tw_fired tw @ map (\<lambda>a. (a, tw_now tw)) new \<and>
        (\<forall>a \<in> set new. live tw a \<and> fire_at tw a \<le> tw_now tw) \<and>
        filter_mset (live tw) (residents tw + A) = filter_mset (live tw) (residents tw' + B) + mset new) \<and>
     residents tw' + B \<subseteq># residents tw + A \<and>
     (indexed (residents tw + A) tw \<longrightarrow> indexed (residents tw' + B) tw')"

lemma carries_refl: "carries A tw A tw"
  by (auto simp: carries_def frame_refl intro: exI [of _ "[]"])

lemma carries_size: "carries A tw B tw' \<Longrightarrow> size (residents tw') + size B \<le> size (residents tw) + size A"
  unfolding carries_def by (metis size_mset_mono size_union)

lemma carries_frame: "carries A tw B tw' \<Longrightarrow> frame tw tw'"
  by (simp add: carries_def)

lemma carries_trans:
  assumes "carries A t1 B t2" "carries B t2 C t3"
  shows "carries A t1 C t3"
proof -
  from assms(1) obtain n1 where 1: "tw_fired t2 = tw_fired t1 @ map (\<lambda>a. (a, tw_now t1)) n1"
    "\<forall>a \<in> set n1. live t1 a \<and> fire_at t1 a \<le> tw_now t1"
    "filter_mset (live t1) (residents t1 + A) = filter_mset (live t1) (residents t2 + B) + mset n1"
    and f: "frame t1 t2" by (auto simp: carries_def)
  from assms(2) obtain n2 where 2: "tw_fired t3 = tw_fired t2 @ map (\<lambda>a. (a, tw_now t2)) n2"
    "\<forall>a \<in> set n2. live t2 a \<and> fire_at t2 a \<le> tw_now t2"
    "filter_mset (live t2) (residents t2 + B) = filter_mset (live t2) (residents t3 + C) + mset n2"
    by (auto simp: carries_def)
  have fr: "tw_now t2 = tw_now t1" "live t2 = live t1" "\<And>a. fire_at t2 a = fire_at t1 a"
    using f by (auto simp: frame_def)
  have "tw_fired t3 = tw_fired t1 @ map (\<lambda>a. (a, tw_now t1)) (n1 @ n2)"
    "\<forall>a \<in> set (n1 @ n2). live t1 a \<and> fire_at t1 a \<le> tw_now t1"
    "filter_mset (live t1) (residents t1 + A) = filter_mset (live t1) (residents t3 + C) + mset (n1 @ n2)"
    using 1 2 fr by auto
  moreover have "frame t1 t3" using assms frame_trans by (auto simp: carries_def)
  moreover have "residents t3 + C \<subseteq># residents t1 + A"
    using assms subset_mset.order_trans by (auto simp: carries_def)
  ultimately show ?thesis using assms unfolding carries_def by blast
qed

text \<open>Dropping a cancelled task, and firing a live one that is due.\<close>

lemma filter_mset_eq_empty: "(\<And>x. x \<in># M \<Longrightarrow> \<not> P x) \<Longrightarrow> filter_mset P M = {#}"
  by (induction M) auto

lemma indexed_mono: "indexed M tw \<Longrightarrow> N \<subseteq># M \<Longrightarrow> indexed N tw"
  unfolding indexed_def
  by (metis Suc_leI count_greater_zero_iff le_antisym mset_subset_eqD mset_subset_eq_count One_nat_def)

lemma carries_drop: "\<not> live tw a \<Longrightarrow> carries (add_mset a A) tw A tw"
  unfolding carries_def using indexed_mono [of "residents tw + add_mset a A" tw "residents tw + A"]
  by (auto simp: frame_refl intro!: exI [of _ "[]"])

lemma carries_fire:
  assumes "live tw a" "fire_at tw a \<le> tw_now tw"
  shows "carries (add_mset a A) tw A (fire a tw)"
proof -
  have r: "residents (fire a tw) = residents tw" by (simp add: fire_def residents_def)
  have f: "frame tw (fire a tw)" by (simp add: frame_def fire_def live_def map_le_def)
  have "indexed (residents tw + A) (fire a tw)" if i: "indexed (residents tw + add_mset a A) tw"
  proof -
    let ?M = "residents tw + A" and ?id = "\<lambda>b. tk_ID (tw_task tw b)"
    have m: "indexed ?M tw" by (rule indexed_mono [OF i]) simp
    have "a \<in># residents tw + add_mset a A" by simp
    then have c: "count (residents tw + add_mset a A) a = 1" "tw_index tw (?id a) = Some a"
      using i assms(1) unfolding indexed_def by blast+
    then have "a \<notin># ?M" by (simp add: not_in_iff)
    then have "?id b \<noteq> ?id a" if "b \<in># ?M" "live tw b" for b
      using that m c(2) unfolding indexed_def by (metis option.inject)
    then show ?thesis using m by (simp add: indexed_def fire_def live_def)
  qed
  then show ?thesis
    unfolding carries_def r using f assms by (auto simp: fire_def intro!: exI [of _ "[a]"])
qed

text \<open>Taking the tasks of a slot out, and putting one in.\<close>

lemma carries_drain:
  assumes "l < 4" "s < nslots l" "slot_drain l s tw = (tasks, tw')"
  shows "carries A tw (mset tasks + A) tw'" and "tasks = tw_wheels tw l s"
    and "tw' = tw\<lparr>tw_wheels := upd_slot l s [] (tw_wheels tw)\<rparr>"
proof -
  show t: "tasks = tw_wheels tw l s" "tw' = tw\<lparr>tw_wheels := upd_slot l s [] (tw_wheels tw)\<rparr>"
    using assms(3) by (auto simp: slot_drain_def)
  have r: "residents tw' + (mset tasks + A) = residents tw + A"
    using slots_mset_upd [OF assms(1,2), where xs = "[]" and w = "tw_wheels tw"] unfolding t
    by (simp add: residents_def ac_simps)
  have "frame tw tw'" unfolding t by (simp add: frame_def live_def)
  moreover have "indexed M tw' = indexed M tw" for M unfolding t by (simp add: indexed_def live_def)
  ultimately show "carries A tw (mset tasks + A) tw'"
    unfolding carries_def r by (auto simp: t intro!: exI [of _ "[]"])
qed

lemma residents_put:
  assumes "l < 4" "slot < nslots l" "size (residents tw) < maxSlotLen"
    and slot: "slot = (tw_cursor tw l + (nat (go_div d (tick_of l)) + 1)) mod nslots l"
  shows "residents (put l (nslots l) (tick_of l) a d tw) = add_mset a (residents tw)"
    and "tw_wheels (put l (nslots l) (tick_of l) a d tw) =
      upd_slot l slot (tw_wheels tw l slot @ [a]) (tw_wheels tw)"
proof -
  have "size (mset (tw_wheels tw l slot)) \<le> size (residents tw)"
    by (rule size_mset_mono) (use slot_mset_le [OF assms(1,2)] in \<open>simp add: residents_def subset_mset.add_increasing2\<close>)
  then have add: "slot_add a (tw_wheels tw l slot) = tw_wheels tw l slot @ [a]"
    using assms(3) by (simp add: slot_add_def)
  then show w: "tw_wheels (put l (nslots l) (tick_of l) a d tw) =
      upd_slot l slot (tw_wheels tw l slot @ [a]) (tw_wheels tw)"
    by (simp add: put_def slot Let_def)
  have "tw_overflow (put l (nslots l) (tick_of l) a d tw) = tw_overflow tw" by (simp add: put_def Let_def)
  then show "residents (put l (nslots l) (tick_of l) a d tw) = add_mset a (residents tw)"
    using slots_mset_upd [OF assms(1,2), where xs = "tw_wheels tw l slot @ [a]" and w = "tw_wheels tw"]
    by (simp add: residents_def w)
qed

definition heap_ok :: "'f TimeWheel \<Rightarrow> bool" where
  "heap_ok tw \<longleftrightarrow> heap_order (task_less (tw_task tw)) (fst (tw_overflow tw)) (length (fst (tw_overflow tw))) \<and>
     pos_ok (tw_overflow tw)"

lemma task_less_frame: "frame tw tw' \<Longrightarrow> task_less (tw_task tw') = task_less (tw_task tw)"
  by (auto simp: frame_def task_less_def fun_eq_iff)

lemma heap_ok_frame: "frame tw tw' \<Longrightarrow> tw_overflow tw' = tw_overflow tw \<Longrightarrow> heap_ok tw' = heap_ok tw"
  by (simp add: heap_ok_def task_less_frame)

lemma carries_put:
  fixes a :: nat
  assumes "cursor_ok (tw_cursor tw)" "l < 4" "size (residents tw) < maxSlotLen"
  shows "carries (add_mset a A) tw A (put_at l a tw)"
    and "frame tw (put_at l a tw)" and "tw_cursor (put_at l a tw) = tw_cursor tw"
    and "tw_overflow (put_at l a tw) = tw_overflow tw"
    and "tw_overflowMu (put_at l a tw) = tw_overflowMu tw"
proof -
  let ?d = "fire_at tw a - tw_now tw"
  let ?slot = "(tw_cursor tw l + (nat (go_div ?d (tick_of l)) + 1)) mod nslots l"
  have "?slot < nslots l" by (simp add: nslots_def)
  then have r: "residents (put_at l a tw) = add_mset a (residents tw)"
    unfolding put_at_def by (rule residents_put(1) [OF assms(2) _ assms(3) refl])
  show f: "frame tw (put_at l a tw)" by (auto simp: frame_def put_at_def put_def Let_def live_def)
  have "tw_index (put_at l a tw) = tw_index tw" by (simp add: put_at_def put_def Let_def)
  then have "indexed M (put_at l a tw) = indexed M tw" for M
    using f by (simp add: indexed_def frame_def)
  moreover have "tw_fired (put_at l a tw) = tw_fired tw" by (simp add: put_at_def put_def Let_def)
  ultimately show "carries (add_mset a A) tw A (put_at l a tw)"
    unfolding carries_def r using f by (auto intro!: exI [of _ "[]"])
qed (simp_all add: put_at_def put_def Let_def)

lemma carries_push:
  assumes "heap_ok tw" "a \<notin> set (fst (tw_overflow tw))"
  defines "tw' \<equiv> tw\<lparr>tw_overflow := heap_push (task_less (tw_task tw)) a (tw_overflow tw)\<rparr>"
  shows "carries (add_mset a A) tw A tw'" and "heap_ok tw'"
    and "set (fst (tw_overflow tw')) = insert a (set (fst (tw_overflow tw)))"
proof -
  note P = task_heap.heap_push_ok [of "tw_task tw" "tw_overflow tw" a]
  have m: "mset (fst (tw_overflow tw')) = add_mset a (mset (fst (tw_overflow tw)))"
    using P(3) assms(1,2) by (simp add: heap_ok_def tw'_def)
  then show "set (fst (tw_overflow tw')) = insert a (set (fst (tw_overflow tw)))"
    by (metis set_mset_add_mset_insert set_mset_mset)
  show "heap_ok tw'" using P assms(1,2) by (simp add: heap_ok_def tw'_def)
  have "residents tw' = add_mset a (residents tw)" using m by (simp add: residents_def tw'_def)
  moreover have "indexed M tw' = indexed M tw" for M by (simp add: indexed_def tw'_def live_def)
  moreover have "frame tw tw'" by (simp add: frame_def tw'_def live_def)
  ultimately show "carries (add_mset a A) tw A tw'"
    unfolding carries_def by (auto simp: tw'_def intro!: exI [of _ "[]"])
qed

lemma carries_pop:
  assumes "heap_ok tw" "fst (tw_overflow tw) \<noteq> []"
  defines "tw' \<equiv> tw\<lparr>tw_overflow := snd (heap_pop (task_less (tw_task tw)) (tw_overflow tw))\<rparr>"
    and "r0 \<equiv> fst (tw_overflow tw) ! 0"
  shows "carries A tw (add_mset r0 A) tw'" and "heap_ok tw'"
    and "set (fst (tw_overflow tw)) = insert r0 (set (fst (tw_overflow tw')))"
    and "b \<in> set (fst (tw_overflow tw)) \<Longrightarrow> fire_at tw r0 \<le> fire_at tw b"
    and "length (fst (tw_overflow tw')) < length (fst (tw_overflow tw))"
proof -
  note P = task_heap.heap_pop_ok [of "tw_task tw" "tw_overflow tw"]
  have m: "mset (fst (tw_overflow tw)) = add_mset r0 (mset (fst (tw_overflow tw')))"
    using P(4) assms(1,2) by (simp add: heap_ok_def tw'_def r0_def)
  then show "set (fst (tw_overflow tw)) = insert r0 (set (fst (tw_overflow tw')))"
    by (metis set_mset_add_mset_insert set_mset_mset)
  show "length (fst (tw_overflow tw')) < length (fst (tw_overflow tw))"
    using arg_cong [OF m, of size] by simp
  show "heap_ok tw'" using P assms(1,2) by (simp add: heap_ok_def tw'_def)
  have "residents tw = add_mset r0 (residents tw')" using m by (simp add: residents_def tw'_def)
  moreover have "indexed M tw' = indexed M tw" for M by (simp add: indexed_def tw'_def live_def)
  moreover have "frame tw tw'" by (simp add: frame_def tw'_def live_def)
  ultimately show "carries A tw (add_mset r0 A) tw'"
    unfolding carries_def by (auto simp: tw'_def intro!: exI [of _ "[]"])
  show "fire_at tw r0 \<le> fire_at tw b" if "b \<in> set (fst (tw_overflow tw))"
  proof -
    obtain j where "j < length (fst (tw_overflow tw))" "b = fst (tw_overflow tw) ! j"
      using \<open>b \<in> _\<close> by (auto simp: in_set_conv_nth)
    then show ?thesis
      using task_heap.root_minimal [OF conjunct1 [OF assms(1) [unfolded heap_ok_def]], of j]
      by (simp add: task_less_def r0_def not_less)
  qed
qed

lemma place_carries:
  assumes "place a tw = Some tw'" "cursor_ok (tw_cursor tw)" "size (residents tw) < maxSlotLen"
    "heap_ok tw" "a \<notin> set (fst (tw_overflow tw))"
  shows "carries (add_mset a A) tw A tw' \<and> heap_ok tw'"
proof (cases rule: place_cases [of tw a, case_names due slot far])
  case due
  have "fire_at tw a \<le> tw_now tw" using due(1) by simp
  then show ?thesis
    using due(2) assms(1,4) carries_fire [of tw a A] carries_drop [of tw a A]
    by (auto simp: isCancelled_def live_def fire_def heap_ok_def split: if_splits)
next
  case (slot l)
  note P = carries_put [OF assms(2) \<open>l < 4\<close> assms(3)]
  have "heap_ok (put_at l a tw)" using heap_ok_frame [OF P(2) P(4)] assms(4) by blast
  then show ?thesis using P(1) slot(4) assms(1) by simp
next
  case far
  then show ?thesis using carries_push [OF assms(4,5)] assms(1) by (auto split: if_splits)
qed

lemma fire_list_carries:
  "(\<And>a. a \<in> set tasks \<Longrightarrow> fire_at tw a \<le> tw_now tw) \<Longrightarrow>
   carries (mset tasks + A) tw A (fire_list tasks tw) \<and>
   tw_wheels (fire_list tasks tw) = tw_wheels tw \<and> tw_overflow (fire_list tasks tw) = tw_overflow tw \<and>
   tw_cursor (fire_list tasks tw) = tw_cursor tw \<and> tw_overflowMu (fire_list tasks tw) = tw_overflowMu tw"
proof (induction tasks arbitrary: tw)
  case Nil
  then show ?case by (simp add: carries_refl)
next
  case (Cons a as)
  let ?tw = "if isCancelled tw a then tw else fire a tw"
  have c: "carries (mset (a # as) + A) tw (mset as + A) ?tw"
    using carries_drop [of tw a "mset as + A"] carries_fire [of tw a "mset as + A"] Cons.prems
    by (auto simp: isCancelled_def live_def)
  have eq: "tw_wheels ?tw = tw_wheels tw" "tw_overflow ?tw = tw_overflow tw"
    "tw_cursor ?tw = tw_cursor tw" "tw_overflowMu ?tw = tw_overflowMu tw" "tw_now ?tw = tw_now tw"
    "tw_task ?tw = tw_task tw" by (simp_all add: fire_def)
  have "carries (mset as + A) ?tw A (fire_list as ?tw) \<and>
    tw_wheels (fire_list as ?tw) = tw_wheels ?tw \<and> tw_overflow (fire_list as ?tw) = tw_overflow ?tw \<and>
    tw_cursor (fire_list as ?tw) = tw_cursor ?tw \<and> tw_overflowMu (fire_list as ?tw) = tw_overflowMu ?tw"
    by (rule Cons.IH) (use Cons.prems eq in simp)
  then show ?case using carries_trans [OF c] unfolding eq by simp
qed

section \<open>The timing invariant inside a tick\<close>

text \<open>\<open>c\<close> are the cursors before the tick; the slots the tick drains are still pending on the levels
  from \<open>k\<close> on that roll over.\<close>

definition rolled :: "(nat \<Rightarrow> nat) \<Rightarrow> nat \<Rightarrow> bool" where
  "rolled c l \<longleftrightarrow> phase c l + 1 = unit_ms l"

abbreviation wait :: "'f TimeWheel \<Rightarrow> nat \<Rightarrow> int" where
  "wait tw a \<equiv> fire_at tw a - tw_now tw"

definition slots_shape :: "'f TimeWheel \<Rightarrow> bool" where
  "slots_shape tw \<longleftrightarrow> (\<forall>l s. \<not> (l < 4 \<and> s < nslots l) \<longrightarrow> tw_wheels tw l s = [])"

definition drain_ok :: "nat \<Rightarrow> int \<Rightarrow> bool" where
  "drain_ok l d \<longleftrightarrow> - tick_of l \<le> d \<and> d < (if l = 0 then 0 else tick_of l)"

definition mid_inv :: "(nat \<Rightarrow> nat) \<Rightarrow> nat \<Rightarrow> 'f TimeWheel \<Rightarrow> bool" where
  "mid_inv c k tw \<longleftrightarrow> slots_shape tw \<and>
     (\<forall>l < 4. \<forall>s < nslots l. \<forall>a \<in> set (tw_wheels tw l s).
        if k \<le> l \<and> rolled c l \<and> s = next_cursor c l then drain_ok l (wait tw a)
        else slot_ok (next_cursor c) l s (wait tw a))"

lemma mid_inv_cong:
  "mid_inv c k tw \<Longrightarrow> tw_wheels tw' = tw_wheels tw \<Longrightarrow> frame tw tw' \<Longrightarrow> mid_inv c k tw'"
  by (simp add: mid_inv_def slots_shape_def frame_def)

lemma ticks_to_cong:
  assumes "l < 4" "\<And>j. j \<le> l \<Longrightarrow> c j = c' j"
  shows "ticks_to c l s = ticks_to c' l s"
  using level_cases [OF assms(1)] assms(2) by (auto simp: ticks_to_def phase_def)

lemma slot_ok_cong:
  assumes "l < 4" "\<And>j. j \<le> l \<Longrightarrow> c j = c' j"
  shows "slot_ok c l s d = slot_ok c' l s d"
  using ticks_to_cong [OF assms] by (simp add: slot_ok_def)

lemma mid_inv_put:
  assumes "mid_inv c k tw" "cursor_ok (tw_cursor tw)" "l < 4" "size (residents tw) < maxSlotLen"
    and slot: "slot = (tw_cursor tw l + (nat (go_div (wait tw a) (tick_of l)) + 1)) mod nslots l"
    and ok: "slot_ok (next_cursor c) l slot (wait tw a)"
    and free: "\<not> (k \<le> l \<and> rolled c l \<and> slot = next_cursor c l)"
  shows "mid_inv c k (put_at l a tw)"
proof -
  have s: "slot < nslots l" unfolding slot by (simp add: nslots_def)
  have w: "tw_wheels (put_at l a tw) = upd_slot l slot (tw_wheels tw l slot @ [a]) (tw_wheels tw)"
    unfolding put_at_def by (rule residents_put(2) [OF assms(3) s assms(4) slot])
  have f: "frame tw (put_at l a tw)" by (rule carries_put(2) [OF assms(2-4)])
  then have d: "wait (put_at l a tw) b = wait tw b" for b by (simp add: frame_def)
  show ?thesis
    unfolding mid_inv_def slots_shape_def w d using assms(1,3) s ok free
    by (auto simp: mid_inv_def slots_shape_def)
qed

lemma tick_of_mono: "j \<le> l \<Longrightarrow> tick_of j \<le> tick_of l"
  by (simp add: tick_of_def unit_ms_def millisecond_def)

lemma maxWheelSpan_eq: "maxWheelSpan = 64 * tick_of 3"
  by (simp add: wheel_consts tick_of_def unit_ms_def)

text \<open>Placing a task of a slot that was drained.\<close>

lemma place_drained:
  assumes inv: "mid_inv c (Suc l) tw" "cursor_ok c" "cursor_ok (tw_cursor tw)" "l < 4"
    and agree: "\<And>j. j \<le> l \<Longrightarrow> tw_cursor tw j = next_cursor c j"
    and size: "size (residents tw) < maxSlotLen"
    and d: "wait tw a < tick_of l"
  shows "\<exists>tw'. place a tw = Some tw' \<and> mid_inv c (Suc l) tw' \<and> tw_cursor tw' = tw_cursor tw \<and>
    tw_overflow tw' = tw_overflow tw \<and> tw_overflowMu tw' = tw_overflowMu tw"
proof (cases rule: place_cases [of tw a, case_names due slot far])
  case due
  have "mid_inv c (Suc l) (fire a tw)"
    by (rule mid_inv_cong [OF inv(1)]) (simp_all add: fire_def frame_def live_def)
  then show ?thesis using due inv(1) by (auto simp: fire_def)
next
  case (slot j)
  have j: "j \<le> l"
  proof (rule ccontr)
    assume "\<not> j \<le> l"
    then show False using slot(5) d tick_of_mono [of l j] by auto
  qed
  let ?slot = "(tw_cursor tw j + (nat (go_div (wait tw a) (tick_of j)) + 1)) mod nslots j"
  have "slot_ok (tw_cursor tw) j ?slot (wait tw a)"
    by (rule ticks_to_put(3) [OF inv(3) slot(1-3) refl])
  then have "slot_ok (next_cursor c) j ?slot (wait tw a)"
    using slot_ok_cong [OF \<open>j < 4\<close>, of "tw_cursor tw" "next_cursor c"] agree j by auto
  then have "mid_inv c (Suc l) (put_at j a tw)"
    using j by (intro mid_inv_put [OF inv(1,3) \<open>j < 4\<close> size refl]) auto
  then show ?thesis using slot(4) carries_put [OF inv(3) \<open>j < 4\<close> size, of a] by auto
next
  case far
  then show ?thesis using d tick_of_mono [of l 3] assms(4) tick_of_pos [of 3]
    by (simp add: maxWheelSpan_eq)
qed

lemma place_list_ok:
  assumes "mid_inv c (Suc l) tw" "cursor_ok c" "cursor_ok (tw_cursor tw)" "l < 4"
    and "\<And>j. j \<le> l \<Longrightarrow> tw_cursor tw j = next_cursor c j"
    and "size (residents tw) + length tasks \<le> maxSlotLen" "heap_ok tw"
    and "\<And>a. a \<in> set tasks \<Longrightarrow> wait tw a < tick_of l \<and> a \<notin> set (fst (tw_overflow tw))"
  shows "\<exists>tw'. place_list tasks tw = Some tw' \<and> mid_inv c (Suc l) tw' \<and> tw_cursor tw' = tw_cursor tw \<and>
    tw_overflow tw' = tw_overflow tw \<and> tw_overflowMu tw' = tw_overflowMu tw \<and>
    heap_ok tw' \<and> carries (mset tasks) tw {#} tw'"
  using assms(1,3,5-)
proof (induction tasks arbitrary: tw)
  case Nil
  then show ?case by (simp add: carries_refl)
next
  case (Cons a as)
  have c1: "\<exists>tw1. (if isCancelled tw a then Some tw else place a tw) = Some tw1 \<and> mid_inv c (Suc l) tw1 \<and>
    tw_cursor tw1 = tw_cursor tw \<and> tw_overflow tw1 = tw_overflow tw \<and>
    tw_overflowMu tw1 = tw_overflowMu tw \<and> heap_ok tw1 \<and> carries (mset (a # as)) tw (mset as) tw1"
  proof (cases "isCancelled tw a")
    case True
    then show ?thesis using Cons.prems carries_drop [of tw a "mset as"] by (simp add: live_def isCancelled_def)
  next
    case False
    have s: "size (residents tw) < maxSlotLen" using Cons.prems(4) by simp
    obtain tw1 where tw1: "place a tw = Some tw1" "mid_inv c (Suc l) tw1" "tw_cursor tw1 = tw_cursor tw"
      "tw_overflow tw1 = tw_overflow tw" "tw_overflowMu tw1 = tw_overflowMu tw"
      using place_drained [OF Cons.prems(1) assms(2) Cons.prems(2) assms(4) Cons.prems(3) s, of a]
        Cons.prems(6) by auto
    then show ?thesis
      using False place_carries [OF tw1(1) Cons.prems(2) s Cons.prems(5), of "mset as"] Cons.prems(6) by auto
  qed
  then obtain tw1 where tw1: "(if isCancelled tw a then Some tw else place a tw) = Some tw1"
    "mid_inv c (Suc l) tw1" "tw_cursor tw1 = tw_cursor tw" "tw_overflow tw1 = tw_overflow tw"
    "tw_overflowMu tw1 = tw_overflowMu tw" "heap_ok tw1" "carries (mset (a # as)) tw (mset as) tw1" by blast
  have sz: "size (residents tw1) + length as \<le> maxSlotLen"
    using carries_size [OF tw1(7)] Cons.prems(4) by simp
  have wait: "wait tw1 b = wait tw b" for b using tw1(7) by (simp add: carries_def frame_def)
  have "\<exists>tw'. place_list as tw1 = Some tw' \<and> mid_inv c (Suc l) tw' \<and> tw_cursor tw' = tw_cursor tw1 \<and>
    tw_overflow tw' = tw_overflow tw1 \<and> tw_overflowMu tw' = tw_overflowMu tw1 \<and>
    heap_ok tw' \<and> carries (mset as) tw1 {#} tw'"
    by (rule Cons.IH) (use tw1 Cons.prems sz wait in auto)
  then show ?case
    using tw1 carries_trans [OF tw1(7)] by (auto split: if_splits)
qed

lemma mid_inv_drain:
  assumes "mid_inv c l tw" "rolled c l" "l < 4" "cursor_ok c"
    and "x = next_cursor c l" "slot_drain l x tw = (tasks, tw')"
  shows "mid_inv c (Suc l) tw'" and "\<And>a. a \<in> set tasks \<Longrightarrow> drain_ok l (wait tw a)"
proof -
  have s: "next_cursor c l < nslots l" by (rule cursor_less [OF next_cursor_ok [OF assms(4)] assms(3)])
  have t: "tasks = tw_wheels tw l (next_cursor c l)"
    "tw' = tw\<lparr>tw_wheels := upd_slot l (next_cursor c l) [] (tw_wheels tw)\<rparr>"
    using assms(5,6) by (auto simp: slot_drain_def)
  show "drain_ok l (wait tw a)" if "a \<in> set tasks" for a
    using assms(1-3) s that by (auto simp: mid_inv_def t)
  show "mid_inv c (Suc l) tw'"
    using assms(1) by (auto simp: mid_inv_def slots_shape_def t Suc_le_eq le_less)
qed

text \<open>The parts of the state the cascades leave alone.\<close>

definition ov_ok :: "'f TimeWheel \<Rightarrow> bool" where
  "ov_ok tw \<longleftrightarrow> heap_ok tw \<and> (\<forall>a \<in> set (fst (tw_overflow tw)). maxWheelSpan \<le> wait tw a)"

lemma ov_ok_frame: "frame tw tw' \<Longrightarrow> tw_overflow tw' = tw_overflow tw \<Longrightarrow> ov_ok tw' = ov_ok tw"
  using heap_ok_frame by (auto simp: ov_ok_def frame_def)

lemma set_cursor_frame:
  "frame tw (set_cursor l x tw)" "carries {#} tw {#} (set_cursor l x tw)"
  "tw_wheels (set_cursor l x tw) = tw_wheels tw" "tw_overflow (set_cursor l x tw) = tw_overflow tw"
  "tw_overflowMu (set_cursor l x tw) = tw_overflowMu tw"
  "tw_cursor (set_cursor l x tw) = (tw_cursor tw)(l := x)" "residents (set_cursor l x tw) = residents tw"
  by (auto simp: set_cursor_def frame_def carries_def residents_def indexed_def live_def intro!: exI [of _ "[]"])

lemma cascade_ok:
  assumes inv: "mid_inv c l tw" "rolled c l" "0 < l" "l < 4" "cursor_ok c" "ov_ok tw"
    and size: "size (residents tw) \<le> maxSlotLen"
    and cur: "cursor_ok (tw_cursor tw)" "\<And>j. j \<le> l \<Longrightarrow> ((tw_cursor tw)(l := x)) j = next_cursor c j"
    and x: "x = next_cursor c l"
  shows "\<exists>tw'. cascade l x (set_cursor l x tw) = Some tw' \<and> mid_inv c (Suc l) tw' \<and>
    tw_cursor tw' = (tw_cursor tw)(l := x) \<and> tw_overflowMu tw' = tw_overflowMu tw \<and> ov_ok tw' \<and>
    carries {#} tw {#} tw'"
proof -
  let ?tw = "set_cursor l x tw"
  obtain tasks tw1 where d: "slot_drain l x ?tw = (tasks, tw1)" by (rule prod.exhaust)
  have x': "x < nslots l" unfolding x by (rule cursor_less [OF next_cursor_ok [OF inv(5)] inv(4)])
  have m: "mid_inv c l ?tw" by (rule mid_inv_cong [OF inv(1)]) (simp_all add: set_cursor_frame)
  note D = mid_inv_drain [OF m inv(2,4,5) x d]
  note C = carries_drain [OF inv(4) x' d]
  have t1: "tw_cursor tw1 = (tw_cursor tw)(l := x)" "tw_overflow tw1 = tw_overflow tw"
    "tw_overflowMu tw1 = tw_overflowMu tw" using C(3) by (simp_all add: set_cursor_frame)
  have c1: "carries {#} tw (mset tasks) tw1" using carries_trans [OF set_cursor_frame(2) C(1)] by simp
  have f: "frame tw tw1" by (rule carries_frame [OF c1])
  have ok1: "cursor_ok (tw_cursor tw1)"
    using cur(1) x' level_cases [OF inv(4)] by (auto simp: t1 cursor_ok_def nslots_def)
  have sz: "size (residents tw1) + length tasks \<le> maxSlotLen"
    using carries_size [OF c1] size by simp
  have ov: "ov_ok tw1" using inv(6) ov_ok_frame [OF f t1(2)] by simp
  have cl: "wait tw1 a < tick_of l \<and> a \<notin> set (fst (tw_overflow tw1))" if "a \<in> set tasks" for a
  proof -
    have w: "wait tw1 a < tick_of l"
      using D(2) [OF that] f set_cursor_frame(1) [of tw l x] inv(3) by (simp add: drain_ok_def frame_def)
    moreover have "wait tw1 a < maxWheelSpan"
      using w tick_of_mono [of l 3] inv(4) tick_of_pos [of 3] by (simp add: maxWheelSpan_eq)
    ultimately show ?thesis using ov by (auto simp: ov_ok_def)
  qed
  have "\<exists>tw'. place_list tasks tw1 = Some tw' \<and> mid_inv c (Suc l) tw' \<and> tw_cursor tw' = tw_cursor tw1 \<and>
    tw_overflow tw' = tw_overflow tw1 \<and> tw_overflowMu tw' = tw_overflowMu tw1 \<and>
    heap_ok tw' \<and> carries (mset tasks) tw1 {#} tw'"
    by (rule place_list_ok [OF D(1) inv(5) ok1 inv(4) _ sz _ cl]) (use cur(2) t1 ov in \<open>auto simp: ov_ok_def\<close>)
  then obtain tw' where tw': "place_list tasks tw1 = Some tw'" "mid_inv c (Suc l) tw'"
    "tw_cursor tw' = tw_cursor tw1" "tw_overflow tw' = tw_overflow tw1"
    "tw_overflowMu tw' = tw_overflowMu tw1" "carries (mset tasks) tw1 {#} tw'" by blast
  have "ov_ok tw'" using ov ov_ok_frame [OF carries_frame [OF tw'(6)] tw'(4)] by simp
  then show ?thesis
    using tw' t1 carries_trans [OF c1 tw'(6)] by (simp add: cascade_def d)
qed

lemma fireTasks_ok:
  assumes inv: "mid_inv c 0 tw" "cursor_ok c" "ov_ok tw" "tw_cursor tw = c" and x: "x = next_cursor c 0"
  defines "tw' \<equiv> fireTasks 0 x (set_cursor 0 x tw)"
  shows "mid_inv c 1 tw'" "tw_cursor tw' = c(0 := x)" "tw_overflowMu tw' = tw_overflowMu tw"
    "ov_ok tw'" "carries {#} tw {#} tw'"
proof -
  let ?tw = "set_cursor 0 x tw"
  obtain tasks tw1 where d: "slot_drain 0 x ?tw = (tasks, tw1)" by (rule prod.exhaust)
  have x': "x < nslots 0" unfolding x by (rule cursor_less [OF next_cursor_ok [OF inv(2)]]) simp
  have m: "mid_inv c 0 ?tw" by (rule mid_inv_cong [OF inv(1)]) (simp_all add: set_cursor_frame)
  have r: "rolled c 0" by (simp add: rolled_def phase_def unit_ms_def)
  note D = mid_inv_drain [OF m r _ inv(2) x d, simplified]
  note C = carries_drain [OF _ x' d, simplified]
  have t1: "tw_cursor tw1 = c(0 := x)" "tw_overflow tw1 = tw_overflow tw"
    "tw_overflowMu tw1 = tw_overflowMu tw" using C(3) inv(4) by (simp_all add: set_cursor_frame)
  have c1: "carries {#} tw (mset tasks) tw1" using carries_trans [OF set_cursor_frame(2) C(1)] by simp
  have f: "frame tw tw1" by (rule carries_frame [OF c1])
  have due: "fire_at tw1 a \<le> tw_now tw1" if "a \<in> set tasks" for a
    using D(2) [OF that] f set_cursor_frame(1) [of tw 0 x] by (simp add: drain_ok_def frame_def)
  have tw': "tw' = fire_list tasks tw1" by (simp add: tw'_def fireTasks_def d)
  note F = fire_list_carries [of tasks tw1 "{#}", OF due, folded tw', simplified]
  show c': "carries {#} tw {#} tw'" using carries_trans [OF c1] F by simp
  have "frame tw1 tw'" using F carries_frame by blast
  then show "mid_inv c 1 tw'" using mid_inv_cong [OF D(1)] F by simp
  show "tw_cursor tw' = c(0 := x)" "tw_overflowMu tw' = tw_overflowMu tw" using F t1 by simp_all
  show "ov_ok tw'" using inv(3) ov_ok_frame [OF carries_frame [OF c']] F t1(2) by simp
qed

section \<open>The overflow heap\<close>

text \<open>When the tick starts, the overflow tasks wait for more than the span of the wheels less one
  millisecond; those within the horizon go to the last slot of level 3.\<close>

lemma overflow_slot:
  assumes "cursor_ok c" "maxWheelSpan - ms \<le> d" "d < maxWheelSpan"
    and slot: "slot = (c 3 + (nat (go_div d (tick_of 3)) + 1)) mod nslots 3"
  shows "slot_ok (next_cursor c) 3 slot d" and "\<not> (rolled c 3 \<and> slot = next_cursor c 3)"
proof -
  have T: "tick_of 3 = 1048576 * ms" "int (unit_ms 3) = 1048576" "nslots 3 = 64" "0 < ms"
    by (simp_all add: tick_of_def unit_ms_def nslots_def millisecond_def)
  have d0: "0 < d" "d < int (nslots 3) * tick_of 3"
    using assms(2,3) T by (simp_all add: maxWheelSpan_eq millisecond_def)
  have q: "d div tick_of 3 = 63"
    using assms(2,3) T int_div_pos_eq [of d "tick_of 3" 63 "d - 63 * tick_of 3"]
    by (simp add: maxWheelSpan_eq millisecond_def)
  note P = ticks_to_put [OF assms(1) _ d0 slot, simplified]
  have c3: "c 3 < 64" using assms(1) by (simp add: cursor_ok_def)
  have "nat (go_div d (tick_of 3)) = 63" using q d0 T by (simp add: go_div_nonneg)
  then have s: "slot = c 3" using c3 slot by (simp add: nslots_def)
  then show "\<not> (rolled c 3 \<and> slot = next_cursor c 3)"
    using next_cursor_level(1) [OF assms(1), of 3] c3 by (auto simp: rolled_def nslots_def mod_Suc)
  have ph: "phase c 3 < 1048576" using phase_less [OF assms(1), of 3] by (simp add: unit_ms_def)
  have t: "int (ticks_to c 3 slot) = 64 * 1048576 - int (phase c 3)" using P(2) q T by simp
  then have "ticks_to c 3 slot \<noteq> 1" using ph by linarith
  then have t': "int (ticks_to (next_cursor c) 3 slot) = 64 * 1048576 - int (phase c 3) - 1"
    using ticks_to_next [OF assms(1) _ P(1)] t by simp
  have "int (phase c 3) \<le> 1048575" "0 \<le> int (phase c 3)" using ph by simp_all
  then show "slot_ok (next_cursor c) 3 slot d"
    unfolding slot_ok_def t' T(2) using assms(2,3)
    unfolding maxWheelSpan_eq T(1) millisecond_def by simp
qed

text \<open>\<open>blocking tw\<close>: an overflow task is exactly on the horizon, so \<open>place\<close> sends it back to the
  heap whose mutex the loop holds.\<close>

definition blocking :: "'f TimeWheel \<Rightarrow> bool" where
  "blocking tw \<longleftrightarrow> (\<exists>a \<in> set (fst (tw_overflow tw)). live tw a \<and> wait tw a = maxWheelSpan)"

lemma overflow_step:
  assumes inv: "mid_inv c 0 tw" "cursor_ok c" "tw_cursor tw = c" "heap_ok tw" "tw_overflowMu tw"
    and ov: "\<forall>a \<in> set (fst (tw_overflow tw)). maxWheelSpan - ms \<le> wait tw a"
    and size: "size (residents tw) \<le> maxSlotLen"
    and ne: "fst (tw_overflow tw) \<noteq> []"
  defines "r0 \<equiv> fst (tw_overflow tw) ! 0"
  defines "tw1 \<equiv> tw\<lparr>tw_overflow := snd (heap_pop (task_less (tw_task tw)) (tw_overflow tw))\<rparr>"
  assumes near: "wait tw r0 \<le> maxWheelSpan"
  shows "live tw r0 \<Longrightarrow> wait tw r0 = maxWheelSpan \<Longrightarrow> place r0 tw1 = None"
    and "\<not> (live tw r0 \<and> wait tw r0 = maxWheelSpan) \<Longrightarrow>
      \<exists>tw2. (if isCancelled tw1 r0 then Some tw1 else place r0 tw1) = Some tw2 \<and> mid_inv c 0 tw2 \<and>
        tw_cursor tw2 = c \<and> heap_ok tw2 \<and> tw_overflowMu tw2 \<and> carries {#} tw {#} tw2 \<and>
        tw_overflow tw2 = tw_overflow tw1"
proof -
  note P = carries_pop [OF inv(4) ne, folded r0_def tw1_def]
  have c1: "carries {#} tw {#r0#} tw1" by (rule P(1))
  have f1: "frame tw tw1" by (rule carries_frame [OF c1])
  have t1: "tw_cursor tw1 = c" "tw_overflowMu tw1" "tw_wheels tw1 = tw_wheels tw" "wait tw1 r0 = wait tw r0"
    "live tw1 r0 = live tw r0" using inv by (simp_all add: tw1_def live_def)
  have sz: "size (residents tw1) < maxSlotLen" using carries_size [OF c1] size by simp
  have out: "r0 \<notin> set (fst (tw_overflow tw1))"
  proof -
    note Q = task_heap.heap_pop_ok [of "tw_task tw" "tw_overflow tw"]
    have "mset (fst (tw_overflow tw)) = add_mset r0 (mset (fst (tw_overflow tw1)))"
      using Q(4) inv(4) ne by (simp add: heap_ok_def tw1_def r0_def)
    moreover have "distinct (fst (tw_overflow tw))" using inv(4) by (simp add: heap_ok_def pos_ok_def)
    ultimately show ?thesis
      by (metis distinct.simps(2) mset.simps(2) mset_eq_imp_distinct_iff)
  qed
  have m1: "mid_inv c 0 tw1" by (rule mid_inv_cong [OF inv(1) t1(3) f1])
  show "place r0 tw1 = None" if "live tw r0" "wait tw r0 = maxWheelSpan"
    by (rule place_cases [of tw1 r0])
      (use that t1 tick_of_mono [of _ 3] in \<open>auto simp: maxWheelSpan_eq nslots_def tick_of_def unit_ms_def millisecond_def split: if_splits\<close>)
  assume nb: "\<not> (live tw r0 \<and> wait tw r0 = maxWheelSpan)"
  show "\<exists>tw2. (if isCancelled tw1 r0 then Some tw1 else place r0 tw1) = Some tw2 \<and> mid_inv c 0 tw2 \<and>
    tw_cursor tw2 = c \<and> heap_ok tw2 \<and> tw_overflowMu tw2 \<and> carries {#} tw {#} tw2 \<and>
    tw_overflow tw2 = tw_overflow tw1"
  proof (cases "live tw r0")
    case False
    then have "carries {#} tw {#} tw1" using carries_trans [OF c1] carries_drop t1(5) by blast
    then show ?thesis using False m1 t1 P(2) by (simp add: isCancelled_def live_def)
  next
    case True
    have w: "maxWheelSpan - ms \<le> wait tw1 r0" "wait tw1 r0 < maxWheelSpan"
      using ov P(3) nb near True t1(4) by auto
    have far: "64 * tick_of 3 - ms \<le> wait tw1 r0" "0 < ms" using w by (simp_all add: maxWheelSpan_eq millisecond_def)
    have place: "place r0 tw1 = Some (put_at 3 r0 tw1)"
    proof (cases rule: place_cases [of tw1 r0, case_names due slot far])
      case due
      then show ?thesis using far by (simp add: tick_of_def unit_ms_def)
    next
      case (slot l)
      then show ?thesis using far level_cases [OF slot(1)]
        by (auto simp: tick_of_def unit_ms_def nslots_def)
    next
      case far
      then show ?thesis using w by simp
    qed
    have ok: "cursor_ok (tw_cursor tw1)" using t1 inv(2) by simp
    note S = overflow_slot [OF inv(2) w refl]
    have "mid_inv c 0 (put_at 3 r0 tw1)"
      by (rule mid_inv_put [OF m1 ok _ sz refl]) (use S t1(1) in simp_all)
    moreover note C = carries_put [OF ok _ sz, of 3, simplified]
    moreover have "heap_ok (put_at 3 r0 tw1)" using heap_ok_frame [OF C(2) C(4)] P(2) by simp
    ultimately show ?thesis
      using place t1 True carries_trans [OF c1 C(1)] C by (simp add: isCancelled_def live_def)
  qed
qed

definition loop_post :: "(nat \<Rightarrow> nat) \<Rightarrow> 'f TimeWheel \<Rightarrow> 'f TimeWheel \<Rightarrow> bool" where
  "loop_post c tw tw' \<longleftrightarrow> mid_inv c 0 tw' \<and> tw_cursor tw' = c \<and> heap_ok tw' \<and> tw_overflowMu tw' \<and>
     carries {#} tw {#} tw' \<and> (\<forall>a \<in> set (fst (tw_overflow tw')). maxWheelSpan < wait tw' a)"

lemma overflow_loop_ok:
  assumes "mid_inv c 0 tw" "cursor_ok c" "tw_cursor tw = c" "heap_ok tw" "tw_overflowMu tw"
    and "\<forall>a \<in> set (fst (tw_overflow tw)). maxWheelSpan - ms \<le> wait tw a"
    and "size (residents tw) \<le> maxSlotLen"
  shows "(blocking tw \<longrightarrow> overflow_loop (tw_now tw + maxWheelSpan) tw = None) \<and>
    (\<not> blocking tw \<longrightarrow> (\<exists>tw'. overflow_loop (tw_now tw + maxWheelSpan) tw = Some tw' \<and> loop_post c tw tw'))"
  using assms(1,3-)
proof (induction "length (fst (tw_overflow tw))" arbitrary: tw rule: less_induct)
  case less
  let ?h = "tw_now tw + maxWheelSpan" and ?xs = "fst (tw_overflow tw)"
  note L = overflow_loop.simps [of ?h tw]
  consider "?xs = []" | "?xs \<noteq> []" "wait tw (?xs ! 0) > maxWheelSpan" | "?xs \<noteq> []" "wait tw (?xs ! 0) \<le> maxWheelSpan"
    by linarith
  then show ?case
  proof cases
    case 1
    then show ?thesis using L less.prems by (simp add: blocking_def loop_post_def carries_refl)
  next
    case 2
    then have all: "maxWheelSpan < wait tw a" if "a \<in> set ?xs" for a
      using carries_pop(4) [OF less.prems(3) 2(1) that] by simp
    then show ?thesis using L less.prems 2 by (force simp: blocking_def loop_post_def carries_refl)
  next
    case 3
    define r0 where "r0 = ?xs ! 0"
    define tw1 where "tw1 = tw\<lparr>tw_overflow := snd (heap_pop (task_less (tw_task tw)) (tw_overflow tw))\<rparr>"
    have L': "overflow_loop ?h tw = (if isCancelled tw1 r0 then overflow_loop ?h tw1
        else place r0 tw1 \<bind> overflow_loop ?h)"
      using L 3 by (simp add: r0_def tw1_def Let_def)
    note P = carries_pop [OF less.prems(3) 3(1), folded r0_def tw1_def]
    note S = overflow_step [OF less.prems(1) assms(2) less.prems(2-6) 3(1), folded r0_def tw1_def, OF 3(2) [folded r0_def]]
    show ?thesis
    proof (cases "live tw r0 \<and> wait tw r0 = maxWheelSpan")
      case True
      then have "blocking tw" using P(3) by (auto simp: blocking_def)
      moreover have "\<not> isCancelled tw1 r0" using True by (simp add: tw1_def live_def isCancelled_def)
      ultimately show ?thesis using True S(1) L' by simp
    next
      case False
      obtain tw2 where tw2: "(if isCancelled tw1 r0 then Some tw1 else place r0 tw1) = Some tw2"
        "mid_inv c 0 tw2" "tw_cursor tw2 = c" "heap_ok tw2" "tw_overflowMu tw2" "carries {#} tw {#} tw2"
        "tw_overflow tw2 = tw_overflow tw1" using S(2) [OF False] by blast
      have f: "frame tw tw2" by (rule carries_frame [OF tw2(6)])
      then have now: "tw_now tw2 = tw_now tw" and w: "\<And>a. wait tw2 a = wait tw a" "\<And>a. live tw2 a = live tw a"
        by (simp_all add: frame_def)
      have b: "blocking tw2 = blocking tw"
        using False P(3) by (auto simp: blocking_def w tw2(7))
      have L2: "overflow_loop ?h tw = overflow_loop ?h tw2" using L' tw2(1) by (auto split: if_splits)
      have "(blocking tw2 \<longrightarrow> overflow_loop (tw_now tw2 + maxWheelSpan) tw2 = None) \<and> (\<not> blocking tw2 \<longrightarrow>
        (\<exists>tw'. overflow_loop (tw_now tw2 + maxWheelSpan) tw2 = Some tw' \<and> loop_post c tw2 tw'))"
      proof (rule less.hyps [OF _ tw2(2,3,4,5)])
        show "length (fst (tw_overflow tw2)) < length ?xs" using P(5) tw2(7) by simp
        show "\<forall>a \<in> set (fst (tw_overflow tw2)). maxWheelSpan - ms \<le> wait tw2 a"
          using less.prems(5) P(3) unfolding tw2(7) w by auto
        show "size (residents tw2) \<le> maxSlotLen" using carries_size [OF tw2(6)] less.prems(6) by simp
      qed
      moreover have "loop_post c tw2 tw' \<Longrightarrow> loop_post c tw tw'" for tw'
        using carries_trans [OF tw2(6)] by (auto simp: loop_post_def)
      ultimately show ?thesis unfolding L2 now b by blast
    qed
  qed
qed

text \<open>Slots that are not drained only grow.\<close>

definition grows :: "'f TimeWheel \<Rightarrow> 'f TimeWheel \<Rightarrow> bool" where
  "grows tw tw' \<longleftrightarrow> (\<forall>l s. set (tw_wheels tw l s) \<subseteq> set (tw_wheels tw' l s))"

lemma grows_refl: "grows tw tw" by (simp add: grows_def)

lemma grows_trans: "grows t1 t2 \<Longrightarrow> grows t2 t3 \<Longrightarrow> grows t1 t3"
  unfolding grows_def by blast

lemma grows_eq: "tw_wheels tw' = tw_wheels tw \<Longrightarrow> grows tw tw'" by (simp add: grows_def)

lemma grows_put: "grows tw (put l n k a d tw)"
  by (auto simp: grows_def put_def Let_def slot_add_def)

lemma grows_place: "place a tw = Some tw' \<Longrightarrow> grows tw tw'"
  using grows_put grows_refl
  by (auto simp: place_def Let_def grows_eq fire_def split: if_splits)

lemma grows_place_list: "place_list as tw = Some tw' \<Longrightarrow> grows tw tw'"
proof (induction as arbitrary: tw)
  case Nil
  then show ?case by (simp add: grows_refl)
next
  case (Cons a as)
  then show ?case
    by (auto split: if_splits Option.bind_splits intro: grows_trans grows_place)
qed

lemma grows_overflow:
  assumes "overflow_loop h tw = Some tw'"
  shows "grows tw tw'"
proof (rule overflow_loop.raw_induct [where P = "\<lambda>h tw tw'. grows tw tw'", OF _ assms])
  fix loop h and tw tw' :: "'f TimeWheel"
  let ?tw1 = "tw\<lparr>tw_overflow := snd (heap_pop (task_less (tw_task tw)) (tw_overflow tw))\<rparr>"
  assume IH: "\<And>h tw tw'. loop h tw = Some tw' \<Longrightarrow> grows tw tw'"
    and eq: "(if fst (tw_overflow tw) = [] then Some tw
      else let r = fst (tw_overflow tw) ! 0
           in if h < fire_at tw r then Some tw
              else let tw1 = ?tw1 in if isCancelled tw1 r then loop h tw1
                   else place r tw1 \<bind> loop h) = Some tw'"
  have g: "grows ?tw1 t \<Longrightarrow> grows tw t" for t by (simp add: grows_def)
  then have "place r ?tw1 = Some x \<Longrightarrow> loop h x = Some tw' \<Longrightarrow> grows tw tw'" for r x
    using IH grows_place grows_trans by blast
  moreover have "loop h ?tw1 = Some tw' \<Longrightarrow> grows tw tw'" using g IH by blast
  ultimately show "grows tw tw'" using eq
    by (auto simp: Let_def split: if_splits Option.bind_splits intro: grows_refl)
qed

definition keeps :: "(nat \<Rightarrow> nat) \<Rightarrow> 'f TimeWheel \<Rightarrow> 'f TimeWheel \<Rightarrow> bool" where
  "keeps c tw tw' \<longleftrightarrow> (\<forall>l s. \<not> (rolled c l \<and> s = next_cursor c l) \<longrightarrow>
     set (tw_wheels tw l s) \<subseteq> set (tw_wheels tw' l s))"

section \<open>The invariant and the tick\<close>

definition wheel_inv :: "'f TimeWheel \<Rightarrow> bool" where
  "wheel_inv tw \<longleftrightarrow> cursor_ok (tw_cursor tw) \<and> slots_shape tw \<and>
     (\<forall>l < 4. \<forall>s < nslots l. \<forall>a \<in> set (tw_wheels tw l s). slot_ok (tw_cursor tw) l s (wait tw a)) \<and>
     ov_ok tw \<and> \<not> tw_overflowMu tw \<and> size (residents tw) \<le> maxSlotLen \<and> indexed (residents tw) tw"

lemma mid_inv_start:
  assumes "wheel_inv tw"
  shows "mid_inv (tw_cursor tw) 0 (tw\<lparr>tw_now := tw_now tw + ms\<rparr>)"
proof -
  let ?c = "tw_cursor tw"
  have c: "cursor_ok ?c" using assms by (simp add: wheel_inv_def)
  have "if rolled ?c l \<and> s = next_cursor ?c l then drain_ok l (fire_at tw a - (tw_now tw + ms))
      else slot_ok (next_cursor ?c) l s (fire_at tw a - (tw_now tw + ms))"
    if a: "l < 4" "s < nslots l" "a \<in> set (tw_wheels tw l s)" for l s a
  proof -
    have ok: "slot_ok ?c l s (wait tw a)" using assms a by (simp add: wheel_inv_def)
    have iff: "ticks_to ?c l s = 1 \<longleftrightarrow> rolled ?c l \<and> s = next_cursor ?c l"
      using ticks_to_1_iff [OF c a(1,2)] next_cursor_level(1) [OF c a(1)] by (auto simp: rolled_def)
    show ?thesis
      using slot_ok_drained [OF _ ok] slot_ok_next [OF c a(1,2) _ ok] iff
      by (auto simp: drain_ok_def tick_of_def diff_diff_eq)
  qed
  moreover have "slots_shape tw" using assms by (simp add: wheel_inv_def)
  ultimately show ?thesis by (simp add: mid_inv_def slots_shape_def del: if_split)
qed

lemma wheel_inv_end:
  assumes "mid_inv c k tw" "tw_cursor tw = next_cursor c" "cursor_ok c" "ov_ok tw" "\<not> tw_overflowMu tw"
    and "\<And>l. k \<le> l \<Longrightarrow> l < 4 \<Longrightarrow> \<not> rolled c l"
    and "size (residents tw) \<le> maxSlotLen" "indexed (residents tw) tw"
  shows "wheel_inv tw"
proof -
  have "slot_ok (next_cursor c) l s (wait tw a)"
    if "l < 4" "s < nslots l" "a \<in> set (tw_wheels tw l s)" for l s a
    using that assms(1,6) by (auto simp: mid_inv_def split: if_splits)
  then show ?thesis
    using assms next_cursor_ok [OF assms(3)] by (simp add: wheel_inv_def mid_inv_def)
qed

text \<open>A level rolls over with the one below it when that one starts again at slot 0.\<close>

lemma rolled_Suc:
  assumes "cursor_ok c" "l < 3"
  shows "rolled c (Suc l) \<longleftrightarrow> rolled c l \<and> (c l + 1) mod nslots l = 0"
proof -
  have c: "c 0 < 256" "c 1 < 64" "c 2 < 64" using assms by (auto simp: cursor_ok_def)
  have m: "(c 0 + 1) mod 256 = 0 \<longleftrightarrow> c 0 = 255" "(c 1 + 1) mod 64 = 0 \<longleftrightarrow> c 1 = 63"
    "(c 2 + 1) mod 64 = 0 \<longleftrightarrow> c 2 = 63" using c by (auto simp: mod_Suc)
  consider "l = 0" | "l = 1" | "l = 2" using assms(2) by linarith
  then show ?thesis
  proof cases
    case 1
    then show ?thesis using c m by (simp add: rolled_def phase_def unit_ms_def nslots_def)
  next
    case 2
    have "c 0 + 256 * c 1 + 1 = 16384 \<longleftrightarrow> c 0 + 1 = 256 \<and> c 1 = 63" using c by linarith
    then show ?thesis using 2 m by (simp add: rolled_def phase_def unit_ms_def nslots_def numeral_2_eq_2 [symmetric])
  next
    case 3
    have "c 0 + 256 * c 1 + 16384 * c 2 + 1 = 1048576 \<longleftrightarrow> c 0 + 256 * c 1 + 1 = 16384 \<and> c 2 = 63"
      using c by linarith
    then show ?thesis using 3 m by (simp add: rolled_def phase_def unit_ms_def nslots_def numeral_3_eq_3 [symmetric])
  qed
qed

lemma rolled_below: "cursor_ok c \<Longrightarrow> rolled c l \<Longrightarrow> l < 4 \<Longrightarrow> j \<le> l \<Longrightarrow> rolled c j"
  by (induction l) (auto simp: rolled_Suc le_Suc_eq)

lemma set_mu:
  "carries {#} tw {#} (tw\<lparr>tw_overflowMu := b\<rparr>)" "blocking (tw\<lparr>tw_overflowMu := b\<rparr>) = blocking tw"
  "mid_inv c k (tw\<lparr>tw_overflowMu := b\<rparr>) = mid_inv c k tw" "ov_ok (tw\<lparr>tw_overflowMu := b\<rparr>) = ov_ok tw"
  "heap_ok (tw\<lparr>tw_overflowMu := b\<rparr>) = heap_ok tw" "residents (tw\<lparr>tw_overflowMu := b\<rparr>) = residents tw"
  by (auto simp: carries_def frame_def blocking_def mid_inv_def slots_shape_def ov_ok_def heap_ok_def
      residents_def indexed_def live_def intro!: exI [of _ "[]"])

lemma cascadeOverflow_ok:
  assumes "wheel_inv tw"
  defines "tw0 \<equiv> tw\<lparr>tw_now := tw_now tw + ms\<rparr>" and "c \<equiv> tw_cursor tw"
  shows "blocking tw0 \<Longrightarrow> cascadeOverflow tw0 = None"
    and "\<not> blocking tw0 \<Longrightarrow> \<exists>tw1. cascadeOverflow tw0 = Some tw1 \<and> mid_inv c 0 tw1 \<and>
      tw_cursor tw1 = c \<and> ov_ok tw1 \<and> \<not> tw_overflowMu tw1 \<and> carries {#} tw0 {#} tw1 \<and> keeps c tw0 tw1"
proof -
  let ?m = "tw0\<lparr>tw_overflowMu := True\<rparr>"
  have inv: "cursor_ok c" "ov_ok tw" "\<not> tw_overflowMu tw" "size (residents tw) \<le> maxSlotLen"
    using assms(1) by (auto simp: wheel_inv_def c_def)
  have m: "mid_inv c 0 ?m" using mid_inv_start [OF assms(1)] by (simp add: set_mu tw0_def c_def)
  have h: "heap_ok ?m" using inv(2) by (simp add: set_mu tw0_def ov_ok_def heap_ok_def)
  have r: "size (residents ?m) \<le> maxSlotLen" using inv(4) by (simp add: tw0_def residents_def)
  have o: "\<forall>a \<in> set (fst (tw_overflow ?m)). maxWheelSpan - ms \<le> wait ?m a"
    using inv(2) by (auto simp: tw0_def ov_ok_def)
  have cu: "tw_cursor ?m = c" by (simp add: tw0_def c_def)
  note L = overflow_loop_ok [OF m inv(1) cu h _ o r, simplified]
  have C: "cascadeOverflow tw0 = overflow_loop (tw_now tw0 + maxWheelSpan) ?m \<bind>
      (\<lambda>tw1. Some (tw1\<lparr>tw_overflowMu := False\<rparr>))"
    using inv(3) by (simp add: cascadeOverflow_def tw0_def)
  show "cascadeOverflow tw0 = None" if "blocking tw0"
    using L that by (simp add: C set_mu)
  assume "\<not> blocking tw0"
  then obtain tw1 where tw1: "overflow_loop (tw_now tw0 + maxWheelSpan) ?m = Some tw1" "loop_post c ?m tw1"
    using L by (auto simp: set_mu)
  have "carries {#} tw0 {#} (tw1\<lparr>tw_overflowMu := False\<rparr>)"
    using tw1(2) carries_trans set_mu(1) by (metis loop_post_def)
  moreover have "ov_ok tw1" using tw1(2) by (auto simp: loop_post_def ov_ok_def)
  moreover have "keeps c tw0 (tw1\<lparr>tw_overflowMu := False\<rparr>)"
    using grows_overflow [OF tw1(1)] by (simp add: keeps_def grows_def)
  ultimately show "\<exists>tw1. cascadeOverflow tw0 = Some tw1 \<and> mid_inv c 0 tw1 \<and>
      tw_cursor tw1 = c \<and> ov_ok tw1 \<and> \<not> tw_overflowMu tw1 \<and> carries {#} tw0 {#} tw1 \<and> keeps c tw0 tw1"
    using tw1 by (auto simp: C loop_post_def set_mu)
qed

definition tick_post :: "'f TimeWheel \<Rightarrow> 'f TimeWheel \<Rightarrow> bool" where
  "tick_post tw tw' \<longleftrightarrow> wheel_inv tw' \<and> carries {#} (tw\<lparr>tw_now := tw_now tw + ms\<rparr>) {#} tw' \<and>
     tw_cursor tw' = next_cursor (tw_cursor tw) \<and> keeps (tw_cursor tw) tw tw'"

lemma tick_post_intro:
  assumes "wheel_inv tw" "mid_inv c k tw'" "tw_cursor tw' = next_cursor c" "ov_ok tw'" "\<not> tw_overflowMu tw'"
    and "carries {#} (tw\<lparr>tw_now := tw_now tw + ms\<rparr>) {#} tw'" "c = tw_cursor tw"
    and "\<And>l. k \<le> l \<Longrightarrow> l < 4 \<Longrightarrow> \<not> rolled c l" and "keeps c tw tw'"
  shows "tick_post tw tw'"
proof -
  let ?t = "tw\<lparr>tw_now := tw_now tw + ms\<rparr>"
  have i: "cursor_ok c" "size (residents ?t) \<le> maxSlotLen" "indexed (residents ?t) ?t"
    using assms(1,7) by (auto simp: wheel_inv_def residents_def indexed_def live_def)
  have "size (residents tw') \<le> maxSlotLen" "indexed (residents tw') tw'"
    using carries_size [OF assms(6)] i assms(6) by (auto simp: carries_def)
  then show ?thesis using wheel_inv_end [OF assms(2,3) i(1) assms(4,5,8)] assms(3,6,7,9) by (simp add: tick_post_def)
qed

text \<open>A tick in stages: \<open>stage c l tw0 tw\<close> holds when the levels below \<open>l\<close> were drained.\<close>

definition stage :: "(nat \<Rightarrow> nat) \<Rightarrow> nat \<Rightarrow> 'f TimeWheel \<Rightarrow> 'f TimeWheel \<Rightarrow> bool" where
  "stage c l tw0 tw \<longleftrightarrow> mid_inv c l tw \<and> tw_cursor tw = (\<lambda>j. if j < l then next_cursor c j else c j) \<and>
     \<not> tw_overflowMu tw \<and> ov_ok tw \<and> carries {#} tw0 {#} tw \<and> size (residents tw0) \<le> maxSlotLen \<and>
     keeps c tw0 tw"

lemma keeps_trans: "keeps c t1 t2 \<Longrightarrow> keeps c t2 t3 \<Longrightarrow> keeps c t1 t3"
  unfolding keeps_def by blast

lemma keeps_grows: "grows t1 t2 \<Longrightarrow> keeps c t1 t2"
  by (simp add: keeps_def grows_def)

lemma keeps_drain:
  assumes "rolled c l" "x = next_cursor c l" "slot_drain l x (set_cursor l x tw) = (tasks, tw1)" "grows tw1 tw'"
  shows "keeps c tw tw'"
proof -
  have "tw_wheels tw1 = upd_slot l x [] (tw_wheels tw)"
    using assms(3) by (auto simp: slot_drain_def set_cursor_def)
  then have "keeps c tw tw1" using assms(1,2) by (auto simp: keeps_def)
  then show ?thesis using keeps_trans keeps_grows [OF assms(4)] by blast
qed

lemma fire_list_wheels: "tw_wheels (fire_list as tw) = tw_wheels tw"
  by (induction as arbitrary: tw) (simp_all add: fire_def)

lemma keeps_fireTasks:
  assumes "cursor_ok c" "x = next_cursor c 0"
  shows "keeps c tw (fireTasks 0 x (set_cursor 0 x tw))"
proof -
  have "rolled c 0" by (simp add: rolled_def phase_def unit_ms_def)
  then show ?thesis
    by (cases "slot_drain 0 x (set_cursor 0 x tw)")
      (auto simp: fireTasks_def fire_list_wheels intro!: keeps_drain [of c 0 x tw] assms grows_eq)
qed

lemma keeps_cascade:
  assumes "rolled c l" "x = next_cursor c l" "cascade l x (set_cursor l x tw) = Some tw'"
  shows "keeps c tw tw'"
proof -
  obtain tasks tw1 where d: "slot_drain l x (set_cursor l x tw) = (tasks, tw1)" by (rule prod.exhaust)
  then have "grows tw1 tw'" using assms(3) grows_place_list by (simp add: cascade_def)
  then show ?thesis by (rule keeps_drain [OF assms(1,2) d])
qed

lemma stage_fire:
  assumes "stage c 0 tw0 tw" "cursor_ok c" "x = (c 0 + 1) mod nslots 0"
  shows "stage c 1 tw0 (fireTasks 0 x (set_cursor 0 x tw))"
proof -
  have x: "x = next_cursor c 0"
    using assms(3) next_cursor_level(1) [OF assms(2), of 0] by (simp add: phase_def unit_ms_def)
  have s: "mid_inv c 0 tw" "tw_cursor tw = c" "\<not> tw_overflowMu tw" "ov_ok tw" "carries {#} tw0 {#} tw"
    using assms(1) by (simp_all add: stage_def)
  have "keeps c tw0 (fireTasks 0 x (set_cursor 0 x tw))"
    using assms(1) keeps_trans [OF _ keeps_fireTasks [OF assms(2) x]] unfolding stage_def by blast
  then show ?thesis
    using fireTasks_ok [OF s(1) assms(2) s(4,2) x] s assms(1) carries_trans [OF s(5)] x
    by (auto simp: stage_def)
qed

lemma stage_cascade:
  assumes "stage c l tw0 tw" "cursor_ok c" "rolled c l" "0 < l" "l < 4" "x = (c l + 1) mod nslots l"
  shows "\<exists>tw'. cascade l x (set_cursor l x tw) = Some tw' \<and> stage c (Suc l) tw0 tw'"
proof -
  have x: "x = next_cursor c l"
    using assms(3,6) next_cursor_level(1) [OF assms(2,5)] by (simp add: rolled_def)
  have s: "mid_inv c l tw" "\<not> tw_overflowMu tw" "ov_ok tw" "carries {#} tw0 {#} tw"
    and cu: "tw_cursor tw = (\<lambda>j. if j < l then next_cursor c j else c j)"
    using assms(1) by (simp_all add: stage_def)
  have sz: "size (residents tw) \<le> maxSlotLen" using carries_size [OF s(4)] assms(1) by (simp add: stage_def)
  have ok: "cursor_ok (tw_cursor tw)"
    unfolding cu using assms(2) next_cursor_ok [OF assms(2)] by (simp add: cursor_ok_def)
  have up: "((tw_cursor tw)(l := x)) j = next_cursor c j" if "j \<le> l" for j using that cu x by auto
  have "\<exists>tw'. cascade l x (set_cursor l x tw) = Some tw' \<and> mid_inv c (Suc l) tw' \<and>
    tw_cursor tw' = (tw_cursor tw)(l := x) \<and> tw_overflowMu tw' = tw_overflowMu tw \<and> ov_ok tw' \<and>
    carries {#} tw {#} tw'"
    by (rule cascade_ok [OF s(1) assms(3-5,2) s(3) sz ok up x])
  moreover have "(tw_cursor tw)(l := x) = (\<lambda>j. if j < Suc l then next_cursor c j else c j)"
    using cu x by (auto simp: fun_eq_iff)
  moreover have "cascade l x (set_cursor l x tw) = Some tw' \<Longrightarrow> keeps c tw0 tw'" for tw'
    using assms(1) keeps_trans [OF _ keeps_cascade [OF assms(3) x]] unfolding stage_def by blast
  ultimately show ?thesis using s(2) carries_trans [OF s(4)] assms(1) by (auto simp: stage_def)
qed

lemma stage_end:
  assumes "wheel_inv tw" "c = tw_cursor tw" "stage c l (tw\<lparr>tw_now := tw_now tw + ms\<rparr>) tw'"
    and "l < 4 \<Longrightarrow> \<not> rolled c l"
  shows "tick_post tw tw'"
proof -
  have c: "cursor_ok c" using assms(1,2) by (simp add: wheel_inv_def)
  have nr: "\<not> rolled c j" if "l \<le> j" "j < 4" for j using rolled_below [OF c _ that(2,1)] assms(4) that by linarith
  have "next_cursor c j = c j" if "\<not> j < l" for j
  proof (cases "j < 4")
    case True
    then show ?thesis using next_cursor_level(1) [OF c] nr that by (simp add: rolled_def)
  next
    case False
    then show ?thesis by (simp add: next_cursor_def Let_def)
  qed
  then have "tw_cursor tw' = next_cursor c" using assms(3) by (auto simp: stage_def fun_eq_iff)
  then show ?thesis
    using tick_post_intro [OF assms(1) _ _ _ _ _ assms(2), of l tw'] assms(3) nr
    by (simp add: stage_def keeps_def)
qed

lemma nslots_consts: "nslots 0 = lvl0Slots" "nslots 1 = lvl1Slots" "nslots 2 = lvl2Slots" "nslots 3 = lvl3Slots"
  by (simp_all add: nslots_def wheel_consts)

lemma stage_cursor: "stage c l tw0 tw \<Longrightarrow> l \<le> j \<Longrightarrow> tw_cursor tw j = c j"
  by (simp add: stage_def)

lemma tick_ok:
  assumes inv: "wheel_inv tw" and wall: "time_truncate wallNow lvl0Tick = tw_now tw + ms"
  defines "tw0 \<equiv> tw\<lparr>tw_now := tw_now tw + ms\<rparr>"
  shows "blocking tw0 \<Longrightarrow> tick_body wallNow tw = None"
    and "\<not> blocking tw0 \<Longrightarrow> \<exists>tw'. tick_body wallNow tw = Some tw' \<and> tick_post tw tw'"
proof -
  define c where "c = tw_cursor tw"
  have c: "cursor_ok c" using inv by (simp add: wheel_inv_def c_def)
  note O = cascadeOverflow_ok [OF inv, folded tw0_def c_def]
  show "tick_body wallNow tw = None" if "blocking tw0"
    using O(1) [OF that] by (simp add: tick_body_def wall tw0_def)
  assume "\<not> blocking tw0"
  then obtain tw1 where tw1: "cascadeOverflow tw0 = Some tw1" "stage c 0 tw0 tw1"
    using O(2) inv by (auto simp: stage_def wheel_inv_def tw0_def residents_def)
  define x where "x l = (c l + 1) mod nslots l" for l
  note E = stage_end [OF inv c_def, folded tw0_def]
  have R: "rolled c 0" "rolled c 1 \<longleftrightarrow> x 0 = 0" "x 0 = 0 \<Longrightarrow> rolled c 2 \<longleftrightarrow> x 1 = 0"
    "x 0 = 0 \<Longrightarrow> x 1 = 0 \<Longrightarrow> rolled c 3 \<longleftrightarrow> x 2 = 0"
    using rolled_Suc [OF c, of 0] rolled_Suc [OF c, of 1] rolled_Suc [OF c, of 2]
    by (simp_all add: x_def rolled_def [of c 0] phase_def [of c 0] unit_ms_def [of 0] eval_nat_numeral)
  define tw2 where "tw2 = fireTasks 0 (x 0) (set_cursor 0 (x 0) tw1)"
  have s2: "stage c 1 tw0 tw2" unfolding tw2_def by (rule stage_fire [OF tw1(2) c]) (simp add: x_def)
  have x: "stage c l tw0 t \<Longrightarrow> l \<le> j \<Longrightarrow> (tw_cursor t j + 1) mod nslots j = x j" for l t j
    by (simp add: stage_cursor x_def)
  have T: "tick_body wallNow tw = (if x 0 \<noteq> 0 then Some tw2
      else cascade 1 (x 1) (set_cursor 1 (x 1) tw2) \<bind> (\<lambda>tw3. if x 1 \<noteq> 0 then Some tw3
      else let x2 = (tw_cursor tw3 2 + 1) mod nslots 2 in cascade 2 x2 (set_cursor 2 x2 tw3) \<bind>
        (\<lambda>tw4. if x2 \<noteq> 0 then Some tw4
      else let x3 = (tw_cursor tw4 3 + 1) mod nslots 3 in cascade 3 x3 (set_cursor 3 x3 tw4))))"
    unfolding tick_body_def wall tw0_def [symmetric] tw1(1) Option.bind.simps(2) Let_def
      nslots_consts [symmetric] x [OF tw1(2) order.refl] tw2_def [symmetric] x [OF s2 order.refl] ..
  show "\<exists>tw'. tick_body wallNow tw = Some tw' \<and> tick_post tw tw'"
  proof (cases "x 0 = 0")
    case False
    then show ?thesis using T E [OF s2] R by simp
  next
    case x0: True
    then obtain tw3 where tw3: "cascade 1 (x 1) (set_cursor 1 (x 1) tw2) = Some tw3" "stage c 2 tw0 tw3"
      using stage_cascade [OF s2 c] R by (auto simp: x_def numeral_2_eq_2)
    have T3: "tick_body wallNow tw = (if x 1 \<noteq> 0 then Some tw3 else cascade 2 (x 2) (set_cursor 2 (x 2) tw3) \<bind>
        (\<lambda>tw4. if x 2 \<noteq> 0 then Some tw4
      else let x3 = (tw_cursor tw4 3 + 1) mod nslots 3 in cascade 3 x3 (set_cursor 3 x3 tw4)))"
      unfolding T tw3(1) Option.bind.simps(2) Let_def x [OF tw3(2) order.refl] using x0 by simp
    show ?thesis
    proof (cases "x 1 = 0")
      case False
      then show ?thesis using T3 E [OF tw3(2)] R x0 by simp
    next
      case x1: True
      then obtain tw4 where tw4: "cascade 2 (x 2) (set_cursor 2 (x 2) tw3) = Some tw4" "stage c 3 tw0 tw4"
        using stage_cascade [OF tw3(2) c] R x0 by (auto simp: x_def numeral_3_eq_3)
      obtain tw5 where tw5: "x 2 = 0 \<Longrightarrow> cascade 3 (x 3) (set_cursor 3 (x 3) tw4) = Some tw5 \<and> stage c 4 tw0 tw5"
        using stage_cascade [OF tw4(2) c, of "x 3"] R x0 x1 by (auto simp: x_def eval_nat_numeral)
      have "tick_body wallNow tw = (if x 2 \<noteq> 0 then Some tw4 else Some tw5)"
        unfolding T3 tw4(1) Option.bind.simps(2) Let_def x [OF tw4(2) order.refl] using x1 tw5 by simp
      then show ?thesis using E [OF tw4(2)] E [of 4 tw5] tw5 R x0 x1 by auto
    qed
  qed
qed

end
