(* ===== verification/Wheel_Props.thy ===== *)
theory Wheel_Props
  imports Wheel_Firing
begin

text \<open>
  The timing wheel as its clients see it: \<open>insert_task\<close> and the channel steps keep the invariant,
  \<open>wheel_reachable\<close> collects the states a paced loop reaches (each tick one millisecond after the
  last), \<open>paced n\<close> runs \<open>n\<close> such ticks. The properties state when tasks fire, that a run fires each
  live task once, which runs block for ever, how late a task is, and what the two channels do to a
  replaced task.
\<close>

section \<open>Adding a task\<close>

lemma wheel_inv_cong:
  assumes "wheel_inv tw" "tw_wheels tw' = tw_wheels tw" "tw_cursor tw' = tw_cursor tw"
    "tw_now tw' = tw_now tw" "tw_overflow tw' = tw_overflow tw" "tw_overflowMu tw' = tw_overflowMu tw"
    "\<And>a. a \<in># residents tw \<Longrightarrow> fire_at tw' a = fire_at tw a" "indexed (residents tw) tw'"
  shows "wheel_inv tw'"
proof -
  have r: "residents tw' = residents tw" using assms by (simp add: residents_def)
  have slot: "a \<in># residents tw" if "l < 4" "s < nslots l" "a \<in> set (tw_wheels tw l s)" for l s a
  proof -
    have "a \<in># mset (tw_wheels tw l s)" using that by simp
    then show ?thesis using slot_mset_le [OF that(1,2), of "tw_wheels tw"] mset_subset_eqD
      by (fastforce simp: residents_def)
  qed
  have ov: "a \<in># residents tw" if "a \<in> set (fst (tw_overflow tw))" for a
    using that by (simp add: residents_def)
  have h: "heap_ok tw'"
    using assms(1) assms(7) [OF ov] heap_order_cong [of "task_less (tw_task tw)" "fst (tw_overflow tw)" _ "task_less (tw_task tw')"]
    by (auto simp: wheel_inv_def ov_ok_def heap_ok_def assms(5) task_less_def)
  have "slot_ok (tw_cursor tw) l s (wait tw' a)"
    if "l < 4" "s < nslots l" "a \<in> set (tw_wheels tw l s)" for l s a
    using assms(1,4) assms(7) [OF slot [OF that]] that by (simp add: wheel_inv_def)
  moreover have "ov_ok tw'"
    using assms(1,4,5) assms(7) [OF ov] h by (simp add: wheel_inv_def ov_ok_def)
  ultimately show ?thesis using assms(1-6,8) by (simp add: wheel_inv_def slots_shape_def r)
qed

lemma wheel_inv_put:
  assumes "wheel_inv tw" "l < 4" "0 < wait tw a" "wait tw a < int (nslots l) * tick_of l"
    and "size (residents tw) < maxSlotLen" "indexed (add_mset a (residents tw)) tw"
  shows "wheel_inv (put_at l a tw)" and "residents (put_at l a tw) = add_mset a (residents tw)"
proof -
  let ?slot = "(tw_cursor tw l + (nat (go_div (wait tw a) (tick_of l)) + 1)) mod nslots l"
  have c: "cursor_ok (tw_cursor tw)" using assms(1) by (simp add: wheel_inv_def)
  note P = ticks_to_put [OF c assms(2-4) refl]
  note W = residents_put [OF assms(2) P(1) assms(5) refl, of a, folded put_at_def]
  note C = carries_put [OF c assms(2,5)]
  show r: "residents (put_at l a tw) = add_mset a (residents tw)" by (rule W(1))
  have w: "wait (put_at l a tw) b = wait tw b" for b using C(2) [of a] by (simp add: frame_def)
  have "slot_ok (tw_cursor tw) j s (wait tw b)"
    if "j < 4" "s < nslots j" "b \<in> set (tw_wheels (put_at l a tw) j s)" for j s b
    using that assms(1) P(3) unfolding W(2) by (auto simp: wheel_inv_def split: if_splits)
  moreover have "slots_shape (put_at l a tw)"
    using assms(1,2) P(1) unfolding slots_shape_def W(2) by (auto simp: wheel_inv_def slots_shape_def)
  moreover have "indexed (residents (put_at l a tw)) (put_at l a tw)"
    using assms(6) C(1) [of a "{#}"] by (simp add: carries_def)
  ultimately show "wheel_inv (put_at l a tw)"
    using assms(1,5) C(2-5) ov_ok_frame [OF C(2) C(4)] by (simp add: wheel_inv_def r w)
qed

lemma wheel_inv_place:
  assumes "wheel_inv tw" "indexed (add_mset a (residents tw)) tw" "size (residents tw) < maxSlotLen"
    "a \<notin># residents tw" "live tw a"
  shows "\<exists>tw'. place a tw = Some tw' \<and> wheel_inv tw' \<and> frame tw tw' \<and>
    (if fire_at tw a \<le> tw_now tw
     then residents tw' = residents tw \<and> tw_fired tw' = tw_fired tw @ [(a, tw_now tw)]
     else residents tw' = add_mset a (residents tw) \<and> tw_fired tw' = tw_fired tw)"
proof (cases rule: place_cases [of tw a, case_names due slot far])
  case due
  note C = carries_fire [OF assms(5), of "{#}"]
  have d: "fire_at tw a \<le> tw_now tw" using due(1) by simp
  have r: "residents (fire a tw) = residents tw" by (simp add: residents_def fire_def)
  have "indexed (residents tw) (fire a tw)" using C [OF d] assms(2) by (simp add: carries_def r)
  then have "wheel_inv (fire a tw)" by (intro wheel_inv_cong [OF assms(1)]) (simp_all add: fire_def)
  then show ?thesis
    using due(2) d assms(5) r carries_frame [OF C [OF d]] by (simp add: isCancelled_def live_def fire_def)
next
  case (slot l)
  have "cursor_ok (tw_cursor tw)" using assms(1) by (simp add: wheel_inv_def)
  note C = carries_put [OF this slot(1) assms(3)]
  have "tw_fired (put_at l a tw) = tw_fired tw" by (simp add: put_at_def put_def Let_def)
  then show ?thesis
    using slot wheel_inv_put [OF assms(1) slot(1-3) assms(3,2)] C(2) by auto
next
  case far
  let ?tw = "tw\<lparr>tw_overflow := heap_push (task_less (tw_task tw)) a (tw_overflow tw)\<rparr>"
  have o: "heap_ok tw" "a \<notin> set (fst (tw_overflow tw))" "\<not> tw_overflowMu tw"
    using assms(1,4) by (auto simp: wheel_inv_def ov_ok_def residents_def)
  note P = carries_push [OF o(1,2)]
  have r: "residents ?tw = add_mset a (residents tw)"
    using task_heap.heap_push_ok(3) [of "tw_task tw" "tw_overflow tw" a] o by (simp add: residents_def heap_ok_def)
  have "ov_ok ?tw" using P(2,3) far(1) assms(1) by (auto simp: ov_ok_def wheel_inv_def)
  moreover have "indexed (residents ?tw) ?tw" using assms(2) P(1) [of "{#}"] by (simp add: carries_def)
  ultimately have "wheel_inv ?tw"
    using assms(1,3) by (simp add: wheel_inv_def r slots_shape_def)
  moreover have "0 < wait tw a" using far(1) by (simp add: wheel_consts)
  ultimately show ?thesis using far o(3) r carries_frame [OF P(1)] by auto
qed

text \<open>\<open>insert\<close> cancels the task the index holds for the ID and places the new one.\<close>

lemma insert_task_ok:
  assumes inv: "wheel_inv tw" "size (residents tw) < maxSlotLen" "a \<notin># residents tw" "live tw a"
    and idx: "\<And>i. tw_index tw i \<noteq> Some a"
  defines "i \<equiv> tk_ID (tw_task tw a)"
  shows "\<exists>tw'. insert_task a tw = Some tw' \<and> wheel_inv tw' \<and>
    (if fire_at tw a \<le> tw_now tw
     then residents tw' = residents tw \<and> tw_fired tw' = tw_fired tw @ [(a, tw_now tw)]
     else residents tw' = add_mset a (residents tw) \<and> tw_fired tw' = tw_fired tw) \<and>
    (\<forall>b. live tw' b \<longleftrightarrow> live tw b \<and> tw_index tw i \<noteq> Some b) \<and>
    tw_now tw' = tw_now tw \<and> tw_fresh tw' = tw_fresh tw \<and> tw_addCh tw' = tw_addCh tw \<and>
    tw_index tw' \<subseteq>\<^sub>m (tw_index tw)(i \<mapsto> a) \<and>
    (\<forall>b. fire_at tw' b = fire_at tw b \<and> tk_ID (tw_task tw' b) = tk_ID (tw_task tw b))"
proof -
  define tw1 where "tw1 = (case tw_index tw i of Some old \<Rightarrow> task_Cancel old tw | None \<Rightarrow> tw)"
  define tw2 where "tw2 = tw1\<lparr>tw_index := (tw_index tw1)(i \<mapsto> a)\<rparr>"
  have I: "insert_task a tw = place a tw2"
    by (simp add: insert_task_def Let_def tw2_def tw1_def i_def cong: option.case_cong)
  have same: "tw_wheels tw2 = tw_wheels tw" "tw_cursor tw2 = tw_cursor tw" "tw_now tw2 = tw_now tw"
    "tw_overflow tw2 = tw_overflow tw" "tw_overflowMu tw2 = tw_overflowMu tw"
    "tw_fired tw2 = tw_fired tw" "tw_fresh tw2 = tw_fresh tw" "tw_addCh tw2 = tw_addCh tw"
    "fire_at tw2 b = fire_at tw b" "tk_ID (tw_task tw2 b) = tk_ID (tw_task tw b)"
    "tw_index tw2 = (tw_index tw)(i \<mapsto> a)" for b
    by (auto simp: tw2_def tw1_def task_Cancel_def split: option.splits)
  have lv: "live tw2 b \<longleftrightarrow> live tw b \<and> tw_index tw i \<noteq> Some b" for b
    by (auto simp: tw2_def tw1_def task_Cancel_def live_def split: option.splits)
  have r: "residents tw2 = residents tw" by (simp add: residents_def same)
  have old: "count (residents tw) b = 1" "tw_index tw (tk_ID (tw_task tw b)) = Some b"
    if "b \<in># residents tw" "live tw b" for b
    using inv(1) that unfolding wheel_inv_def indexed_def by blast+
  have x: "indexed (add_mset a (residents tw)) tw2"
    unfolding indexed_def lv same(10,11)
  proof (intro ballI impI)
    fix b assume b: "b \<in># add_mset a (residents tw)" "live tw b \<and> tw_index tw i \<noteq> Some b"
    show "count (add_mset a (residents tw)) b = 1 \<and> ((tw_index tw)(i \<mapsto> a)) (tk_ID (tw_task tw b)) = Some b"
    proof (cases "b = a")
      case True
      then show ?thesis using inv(3) by (simp add: not_in_iff i_def)
    next
      case False
      then show ?thesis using b old [of b] by auto
    qed
  qed
  have "wheel_inv tw2"
    by (rule wheel_inv_cong [OF inv(1)]) (simp_all add: same indexed_mono [OF x])
  then obtain tw' where tw': "place a tw2 = Some tw'" "wheel_inv tw'" "frame tw2 tw'"
    "if fire_at tw2 a \<le> tw_now tw2
     then residents tw' = residents tw2 \<and> tw_fired tw' = tw_fired tw2 @ [(a, tw_now tw2)]
     else residents tw' = add_mset a (residents tw2) \<and> tw_fired tw' = tw_fired tw2"
    using wheel_inv_place [of tw2 a] x inv(2-4) idx lv by (auto simp: r)
  then show ?thesis
    using I lv same r by (simp add: frame_def)
qed

lemma doCancel_ok:
  assumes "wheel_inv tw"
  shows "wheel_inv (doCancel i tw)" and "residents (doCancel i tw) = residents tw"
    and "live (doCancel i tw) b \<longleftrightarrow> live tw b \<and> tw_index tw i \<noteq> Some b"
    and "fire_at (doCancel i tw) b = fire_at tw b"
    and "tk_ID (tw_task (doCancel i tw) b) = tk_ID (tw_task tw b)"
    and "tw_index (doCancel i tw) = (tw_index tw)(i := None)"
proof -
  let ?tw = "doCancel i tw"
  note D = doCancel_def task_Cancel_def Let_def
  show r: "residents ?tw = residents tw" by (auto simp: D residents_def split: option.splits)
  show l: "live ?tw b \<longleftrightarrow> live tw b \<and> tw_index tw i \<noteq> Some b" for b
    by (auto simp: D live_def split: option.splits)
  show f: "fire_at ?tw b = fire_at tw b" and t: "tk_ID (tw_task ?tw b) = tk_ID (tw_task tw b)" for b
    by (auto simp: D split: option.splits)
  show x: "tw_index ?tw = (tw_index tw)(i := None)" by (auto simp: D split: option.splits)
  have "indexed (residents tw) ?tw"
    using assms unfolding wheel_inv_def indexed_def x l t by auto
  then show "wheel_inv ?tw"
    by (intro wheel_inv_cong [OF assms]) (auto simp: f D split: option.splits)
qed

section \<open>Reachable states of a paced loop\<close>

definition aligned :: "'f TimeWheel \<Rightarrow> bool" where
  "aligned tw \<longleftrightarrow> (tw_now tw - zero_time) mod ms = 0"

lemma aligned_add: "aligned tw \<Longrightarrow> (tw_now tw + ms - zero_time) mod ms = 0"
  unfolding aligned_def by (metis add_diff_eq add.commute mod_add_self2)

lemma aligned_truncate: "aligned tw \<Longrightarrow> time_truncate (tw_now tw + ms) lvl0Tick = tw_now tw + ms"
  using aligned_add by (simp add: time_truncate_def lvl0Tick_def)

lemma aligned_tick: "aligned tw \<Longrightarrow> tw_now tw' = tw_now tw + ms \<Longrightarrow> aligned tw'"
  using aligned_add [of tw] by (simp add: aligned_def)

definition room :: "'f TimeWheel \<Rightarrow> bool" where
  "room tw \<longleftrightarrow> size (residents tw) + length (tw_addCh tw) < maxSlotLen"

inductive wheel_reachable :: "'f TimeWheel \<Rightarrow> bool" where
  reach_new: "wheel_reachable (tw_New start unused)"
| reach_channel: "wheel_reachable tw \<Longrightarrow> room tw \<Longrightarrow> chan_step tw tw' \<Longrightarrow> wheel_reachable tw'"
| reach_tick: "wheel_reachable tw \<Longrightarrow> running tw \<Longrightarrow> tw_addCh tw = [] \<Longrightarrow> tw_cancelCh tw = [] \<Longrightarrow>
    tick_body (tw_now tw + ms) tw = Some tw' \<Longrightarrow> wheel_reachable tw'"

text \<open>The tasks on their way through the add channel are new ones.\<close>

definition chan_inv :: "'f TimeWheel \<Rightarrow> bool" where
  "chan_inv tw \<longleftrightarrow> distinct (tw_addCh tw) \<and>
     (\<forall>a \<in> set (tw_addCh tw). a < tw_fresh tw \<and> live tw a \<and> a \<notin># residents tw \<and> (\<forall>i. tw_index tw i \<noteq> Some a)) \<and>
     (\<forall>a \<in># residents tw. a < tw_fresh tw) \<and> (\<forall>i a. tw_index tw i = Some a \<longrightarrow> a < tw_fresh tw)"

lemma wheel_inv_new:
  fixes unused :: "'f Task"
  shows "wheel_inv (tw_New start unused)" "aligned (tw_New start unused)" "chan_inv (tw_New start unused)"
proof -
  let ?tw = "tw_New start unused :: 'f TimeWheel"
  have r: "residents ?tw = {#}" by (simp add: residents_def tw_New_def)
  show "wheel_inv ?tw"
    using r by (simp add: wheel_inv_def r cursor_ok_def slots_shape_def ov_ok_def heap_ok_def heap_order_def
        pos_ok_def indexed_def) (simp add: tw_New_def)
  show "chan_inv ?tw" by (simp add: chan_inv_def r) (simp add: tw_New_def)
  have "time_truncate start ms - zero_time = ms * ((start - zero_time) div ms)"
    by (simp add: time_truncate_def minus_mod_eq_mult_div [symmetric])
  then show "aligned ?tw" by (simp add: aligned_def tw_New_def lvl0Tick_def)
qed

lemma tick_step_inv:
  assumes "wheel_inv tw" "aligned tw" "tick_body (tw_now tw + ms) tw = Some tw'"
  shows "tick_post tw tw'"
  using tick_ok [OF assms(1) aligned_truncate [OF assms(2)]] assms(3) by fastforce

lemma tick_post_facts:
  assumes "tick_post tw tw'"
  shows "tw_now tw' = tw_now tw + ms" "tw_fresh tw' = tw_fresh tw" "tw_addCh tw' = tw_addCh tw"
    "fire_at tw' a = fire_at tw a" "live tw' = live tw" "tw_index tw' \<subseteq>\<^sub>m tw_index tw"
    "residents tw' \<subseteq># residents tw"
proof -
  have r: "residents (tw\<lparr>tw_now := t\<rparr>) = residents tw" for t by (simp add: residents_def)
  have "frame (tw\<lparr>tw_now := tw_now tw + ms\<rparr>) tw'" "residents tw' \<subseteq># residents tw"
    using assms by (simp_all add: tick_post_def carries_def r)
  then show "tw_now tw' = tw_now tw + ms" "tw_fresh tw' = tw_fresh tw" "tw_addCh tw' = tw_addCh tw"
    "fire_at tw' a = fire_at tw a" "live tw' = live tw" "tw_index tw' \<subseteq>\<^sub>m tw_index tw"
    "residents tw' \<subseteq># residents tw"
    by (auto simp: frame_def live_def fun_eq_iff)
qed

lemma chan_inv_tick:
  assumes "chan_inv tw" "tick_post tw tw'"
  shows "chan_inv tw'"
proof -
  note F = tick_post_facts [OF assms(2)]
  have "tw_index tw i = Some a" if "tw_index tw' i = Some a" for i a
    using F(6) that by (metis domI map_le_def)
  then show ?thesis
    using assms(1) F(2,3,5) mset_subset_eqD [OF F(7)] unfolding chan_inv_def by metis
qed

lemma inv_new_task:
  assumes "wheel_inv tw" "chan_inv tw" and tw': "tw' = snd (new_task i fireAt fn tw)"
  shows "wheel_inv tw'" "chan_inv tw'" "residents tw' = residents tw"
proof -
  let ?x = "tw_fresh tw"
  have s: "tw_wheels tw' = tw_wheels tw" "tw_cursor tw' = tw_cursor tw" "tw_now tw' = tw_now tw"
    "tw_overflow tw' = tw_overflow tw" "tw_overflowMu tw' = tw_overflowMu tw" "tw_index tw' = tw_index tw"
    "tw_addCh tw' = tw_addCh tw" "tw_fresh tw' = Suc ?x"
    by (simp_all add: tw' new_task_def)
  have o: "tw_task tw' b = tw_task tw b" if "b < ?x" for b
    using that by (simp add: tw' new_task_def)
  then have l: "live tw' b = live tw b" if "b < ?x" for b using that by (simp add: live_def)
  have f: "b < ?x" if "b \<in># residents tw" for b using assms(2) that by (simp add: chan_inv_def)
  have "indexed (residents tw) tw'"
    using assms(1) f o l unfolding wheel_inv_def indexed_def s by simp
  then show "wheel_inv tw'" using f o by (intro wheel_inv_cong [OF assms(1)]) (simp_all add: s)
  show r: "residents tw' = residents tw" by (simp add: residents_def s)
  show "chan_inv tw'"
    using assms(2) l unfolding chan_inv_def r s(6-8) by (auto simp: less_Suc_eq)
qed

lemma chan_inv_add:
  assumes "wheel_inv tw" "chan_inv tw" and tw': "tw' = tw_Add i fireAt fn tw"
  shows "wheel_inv tw'" "chan_inv tw'" "residents tw' = residents tw"
proof -
  define t where "t = snd (new_task i fireAt fn tw)"
  note N = inv_new_task [OF assms(1,2) t_def]
  have a: "tw' = t\<lparr>tw_addCh := tw_addCh t @ [tw_fresh tw]\<rparr>" by (simp add: tw' t_def tw_Add_def new_task_def)
  show r: "residents tw' = residents tw" using N(3) by (simp add: a residents_def)
  show "wheel_inv tw'" using N(1)
    by (intro wheel_inv_cong [OF N(1)]) (auto simp: a wheel_inv_def indexed_def live_def)
  have l: "live t (tw_fresh tw)" "tw_fresh t = Suc (tw_fresh tw)" "tw_addCh t = tw_addCh tw" "tw_index t = tw_index tw"
    by (simp_all add: t_def new_task_def live_def)
  have x: "live tw' = live t" "tw_index tw' = tw_index t" "tw_addCh tw' = tw_addCh t @ [tw_fresh tw]" "tw_fresh tw' = tw_fresh t"
    by (simp_all add: a live_def fun_eq_iff)
  show "chan_inv tw'"
    using N(2) assms(2) l unfolding chan_inv_def r x N(3) by fastforce
qed

lemma chan_step_inv:
  assumes "wheel_inv tw" "aligned tw" "chan_inv tw" "room tw" "chan_step tw tw'"
  shows "wheel_inv tw' \<and> aligned tw' \<and> chan_inv tw'"
  using assms(5)
proof (cases rule: chan_step_cases [consumes 1, case_names add add_stopped cancel start stop recv_add recv_cancel])
  case (add i fireAt fn)
  then show ?thesis
    using chan_inv_add [OF assms(1,3) add(1)] assms(2)
    by (simp add: aligned_def tw_Add_def new_task_def)
next
  case (add_stopped i fireAt fn)
  then show ?thesis
    using inv_new_task [OF assms(1,3) add_stopped(1)] assms(2) by (simp add: aligned_def new_task_def)
next
  case start
  have "residents tw' = residents tw" by (simp add: start residents_def tw_Start_def)
  moreover have "wheel_inv tw'" using assms(1)
    by (intro wheel_inv_cong [OF assms(1)]) (auto simp: start tw_Start_def wheel_inv_def indexed_def live_def)
  ultimately show ?thesis using assms(2,3) by (simp add: start tw_Start_def chan_inv_def aligned_def live_def)
next
  case (cancel i)
  have "residents tw' = residents tw" by (simp add: cancel residents_def tw_Cancel_def)
  moreover have "wheel_inv tw'" using assms(1)
    by (intro wheel_inv_cong [OF assms(1)]) (auto simp: cancel tw_Cancel_def wheel_inv_def indexed_def live_def)
  ultimately show ?thesis using assms(2,3) by (simp add: cancel tw_Cancel_def chan_inv_def aligned_def live_def)
next
  case stop
  have "residents tw' = residents tw" by (simp add: stop residents_def tw_Stop_def)
  moreover have "wheel_inv tw'" using assms(1)
    by (intro wheel_inv_cong [OF assms(1)]) (auto simp: stop tw_Stop_def wheel_inv_def indexed_def live_def)
  ultimately show ?thesis using assms(2,3) by (simp add: stop tw_Stop_def chan_inv_def aligned_def live_def)
next
  case (recv_add a as)
  then have ch: "tw_addCh tw = a # as" and ins: "insert_task a (tw\<lparr>tw_addCh := as\<rparr>) = Some tw'"
    by blast+
  let ?tw = "tw\<lparr>tw_addCh := as\<rparr>"
  have r: "residents ?tw = residents tw" by (simp add: residents_def)
  have w: "wheel_inv ?tw" using assms(1)
    by (intro wheel_inv_cong [OF assms(1)]) (auto simp: wheel_inv_def indexed_def live_def)
  have a: "a \<notin># residents tw" "live tw a" "\<And>i. tw_index tw i \<noteq> Some a" "a < tw_fresh tw"
    using assms(3) ch by (auto simp: chan_inv_def)
  have sz: "size (residents ?tw) < maxSlotLen" using assms(4) by (simp add: room_def r)
  note I = insert_task_ok [OF w sz, of a, unfolded r ins]
  have I: "wheel_inv tw'" "set_mset (residents tw') \<subseteq> insert a (set_mset (residents tw))"
    "\<forall>b. live tw' b \<longleftrightarrow> live tw b \<and> tw_index tw (tk_ID (tw_task tw a)) \<noteq> Some b"
    "tw_now tw' = tw_now tw" "tw_fresh tw' = tw_fresh tw" "tw_addCh tw' = as"
    "tw_index tw' \<subseteq>\<^sub>m (tw_index tw)(tk_ID (tw_task tw a) \<mapsto> a)"
    using I a by (auto simp: live_def split: if_splits)
  have idx: "b = a \<or> tw_index tw i = Some b" if "tw_index tw' i = Some b" for i b
  proof -
    have "((tw_index tw)(tk_ID (tw_task tw a) \<mapsto> a)) i = Some b" using I(7) that by (metis domI map_le_def)
    then show ?thesis by (auto split: if_splits)
  qed
  have "chan_inv tw'"
    using assms(3) ch I(2,3,5,6) idx a(4) unfolding chan_inv_def by fastforce
  then show ?thesis using I assms(2) by (simp add: aligned_def)
next
  case (recv_cancel i "is")
  let ?tw = "tw\<lparr>tw_cancelCh := is\<rparr>"
  have r: "residents ?tw = residents tw" by (simp add: residents_def)
  have w: "wheel_inv ?tw" using assms(1)
    by (intro wheel_inv_cong [OF assms(1)]) (auto simp: wheel_inv_def indexed_def live_def)
  note D = doCancel_ok [OF w, of i, unfolded r]
  have s: "tw_addCh (doCancel i ?tw) = tw_addCh tw" "tw_fresh (doCancel i ?tw) = tw_fresh tw"
    "tw_now (doCancel i ?tw) = tw_now tw"
    by (auto simp: doCancel_def task_Cancel_def Let_def split: option.splits)
  have "live (doCancel i ?tw) b \<longleftrightarrow> live tw b \<and> tw_index tw i \<noteq> Some b" for b
    using D(3) by (simp add: live_def)
  then have "chan_inv (doCancel i ?tw)"
    using assms(3) unfolding chan_inv_def s D(2,6) by (auto split: if_splits)
  then show ?thesis using D(1) assms(2) s recv_cancel(1) by (simp add: aligned_def)
qed

lemma wheel_inv_start: "wheel_inv (tw_Start (tw_New start unused))"
  "aligned (tw_Start (tw_New start unused))" "chan_inv (tw_Start (tw_New start unused))"
proof -
  have "room (tw_New start unused)" by (simp add: room_def maxSlotLen_def tw_New_def residents_def)
  then show "wheel_inv (tw_Start (tw_New start unused))" "aligned (tw_Start (tw_New start unused))"
    "chan_inv (tw_Start (tw_New start unused))"
    using chan_step_inv [OF wheel_inv_new _ client_start] by blast+
qed

lemma reachable_inv: "wheel_reachable tw \<Longrightarrow> wheel_inv tw \<and> aligned tw \<and> chan_inv tw"
proof (induction rule: wheel_reachable.induct)
  case (reach_new start unused)
  then show ?case using wheel_inv_new by blast
next
  case (reach_channel tw tw')
  then show ?case using chan_step_inv by blast
next
  case (reach_tick tw tw')
  then have p: "tick_post tw tw'" using tick_step_inv by blast
  then show ?case
    using reach_tick.IH chan_inv_tick [OF _ p] aligned_tick tick_post_facts(1) [OF p] by (auto simp: tick_post_def)
qed

section \<open>Runs of paced ticks\<close>

primrec paced :: "nat \<Rightarrow> 'f TimeWheel \<Rightarrow> 'f TimeWheel option" where
  "paced 0 tw = Some tw"
| "paced (Suc n) tw = do { tw' \<leftarrow> tick_body (tw_now tw + ms) tw; paced n tw' }"

text \<open>What a run did: the tasks it fired, each live and in time; every live task is still in the
  wheel or among them, as often as before.\<close>

definition accounts :: "'f TimeWheel \<Rightarrow> 'f TimeWheel \<Rightarrow> (nat \<times> time) list \<Rightarrow> bool" where
  "accounts tw tw' new \<longleftrightarrow> tw_fired tw' = tw_fired tw @ new \<and>
     (\<forall>(a, t) \<in> set new. live tw a \<and> fire_at tw a \<le> t \<and> t \<le> fire_at tw a + tick_of 3) \<and>
     filter_mset (live tw) (residents tw) = filter_mset (live tw) (residents tw') + mset (map fst new)"

lemma resident_where:
  assumes "a \<in># residents tw"
  shows "a \<in> set (fst (tw_overflow tw)) \<or> (\<exists>l < 4. \<exists>s < nslots l. a \<in> set (tw_wheels tw l s))"
proof -
  have "\<exists>l < 4. \<exists>s < nslots l. a \<in> set (tw_wheels tw l s)" if "a \<in># slots_mset (tw_wheels tw)"
    using that by (auto simp: slots_mset_def set_mset_sum)
  then show ?thesis using assms by (auto simp: residents_def)
qed

text \<open>How overdue a resident can be: less than one slot of its level.\<close>

lemma resident_wait:
  assumes "wheel_inv tw" "a \<in># residents tw"
  shows "ms - tick_of 3 \<le> wait tw a"
proof -
  have T: "tick_of 3 = 1048576 * ms" "0 < ms" by (simp_all add: tick_of_def unit_ms_def millisecond_def)
  consider "a \<in> set (fst (tw_overflow tw))" | l s where "l < 4" "s < nslots l" "a \<in> set (tw_wheels tw l s)"
    using resident_where [OF assms(2)] by blast
  then show ?thesis
  proof cases
    case 1
    then show ?thesis using assms(1) T by (auto simp: wheel_inv_def ov_ok_def maxWheelSpan_eq)
  next
    case 2
    then have "slot_ok (tw_cursor tw) l s (wait tw a)" using assms(1) by (simp add: wheel_inv_def)
    moreover have "0 < ticks_to (tw_cursor tw) l s"
      using ticks_to_pos [OF _ 2(1)] assms(1) by (simp add: wheel_inv_def)
    then have "(1 - int (unit_ms l)) * ms \<le> (int (ticks_to (tw_cursor tw) l s) - int (unit_ms l)) * ms"
      using T(2) by (intro mult_right_mono) auto
    moreover have "tick_of l \<le> tick_of 3" using tick_of_mono [of l 3] 2(1) by simp
    ultimately show ?thesis by (simp add: slot_ok_def tick_of_def algebra_simps)
  qed
qed

lemma tick_accounts:
  assumes "wheel_inv tw" "tick_post tw tw'"
  shows "\<exists>new. accounts tw tw' new \<and> (\<forall>(a, t) \<in> set new. t = tw_now tw + ms)"
proof -
  have r: "residents (tw\<lparr>tw_now := t\<rparr>) = residents tw" "live (tw\<lparr>tw_now := t\<rparr>) = live tw" for t
    by (simp_all add: residents_def live_def fun_eq_iff)
  from assms(2) obtain n where n: "tw_fired tw' = tw_fired tw @ map (\<lambda>a. (a, tw_now tw + ms)) n"
    "\<forall>a \<in> set n. live tw a \<and> fire_at tw a \<le> tw_now tw + ms"
    "filter_mset (live tw) (residents tw) = filter_mset (live tw) (residents tw') + mset n"
    by (auto simp: tick_post_def carries_def r)
  have "tw_now tw + ms \<le> fire_at tw a + tick_of 3" if "a \<in> set n" for a
  proof -
    have "a \<in># filter_mset (live tw) (residents tw)" using that unfolding n(3) by simp
    then show ?thesis using resident_wait [OF assms(1), of a] by simp
  qed
  then have "accounts tw tw' (map (\<lambda>a. (a, tw_now tw + ms)) n)"
    using n by (auto simp: accounts_def comp_def)
  then show ?thesis by (intro exI [of _ "map (\<lambda>a. (a, tw_now tw + ms)) n"]) auto
qed

lemma accounts_trans:
  assumes "accounts t1 t2 n" "accounts t2 t3 m" "live t2 = live t1" "\<And>a. fire_at t2 a = fire_at t1 a"
  shows "accounts t1 t3 (n @ m)"
  using assms by (auto simp: accounts_def)

lemma accounts_refl: "accounts tw tw []" by (simp add: accounts_def)

text \<open>No overflow task comes to lie exactly on the horizon of one of the next \<open>n\<close> ticks.\<close>

definition clash_free :: "nat \<Rightarrow> 'f TimeWheel \<Rightarrow> bool" where
  "clash_free n tw \<longleftrightarrow> (\<forall>a \<in># residents tw. live tw a \<longrightarrow>
     (\<forall>i. 0 < i \<longrightarrow> i \<le> n \<longrightarrow> wait tw a \<noteq> maxWheelSpan + int i * ms))"

lemma paced_ok:
  "wheel_inv tw \<Longrightarrow> aligned tw \<Longrightarrow> clash_free n tw \<Longrightarrow>
   \<exists>tw' new. paced n tw = Some tw' \<and> accounts tw tw' new \<and> wheel_inv tw' \<and> aligned tw' \<and>
     tw_now tw' = tw_now tw + int n * ms \<and> (\<forall>a. fire_at tw' a = fire_at tw a) \<and> live tw' = live tw"
proof (induction n arbitrary: tw)
  case 0
  then show ?case using accounts_refl by auto
next
  case (Suc n)
  let ?t = "tw\<lparr>tw_now := tw_now tw + ms\<rparr>"
  have "\<not> blocking ?t"
  proof
    assume "blocking ?t"
    then obtain a where "a \<in> set (fst (tw_overflow tw))" "live tw a" "wait tw a = maxWheelSpan + int 1 * ms"
      by (auto simp: blocking_def live_def)
    then show False using Suc.prems(3) by (fastforce simp: clash_free_def residents_def)
  qed
  then obtain tw1 where tw1: "tick_body (tw_now tw + ms) tw = Some tw1" "tick_post tw tw1"
    using tick_ok(2) [OF Suc.prems(1) aligned_truncate [OF Suc.prems(2)]] by blast
  note F = tick_post_facts [OF tw1(2)]
  have i: "wheel_inv tw1" using tw1(2) by (simp add: tick_post_def)
  have a: "aligned tw1" by (rule aligned_tick [OF Suc.prems(2) F(1)])
  have c: "clash_free n tw1"
    unfolding clash_free_def F(1,4,5)
  proof (intro ballI impI allI)
    fix x j assume x: "x \<in># residents tw1" "live tw x" "0 < j" "j \<le> n"
    then have "wait tw x \<noteq> maxWheelSpan + int (Suc j) * ms"
      using Suc.prems(3) mset_subset_eqD [OF F(7)] unfolding clash_free_def by (metis Suc_le_mono zero_less_Suc)
    then show "fire_at tw x - (tw_now tw + ms) \<noteq> maxWheelSpan + int j * ms" by (simp add: algebra_simps)
  qed
  obtain n1 where n1: "accounts tw tw1 n1" using tick_accounts [OF Suc.prems(1) tw1(2)] by blast
  obtain tw' n2 where t': "paced n tw1 = Some tw'" "accounts tw1 tw' n2" "wheel_inv tw'" "aligned tw'"
    "tw_now tw' = tw_now tw1 + int n * ms" "\<forall>a. fire_at tw' a = fire_at tw1 a" "live tw' = live tw1"
    using Suc.IH [OF i a c] by blast
  have "accounts tw tw' (n1 @ n2)" by (rule accounts_trans [OF n1 t'(2) F(5) F(4)])
  moreover have "paced (Suc n) tw = Some tw'" using tw1(1) t'(1) by simp
  moreover have "tw_now tw' = tw_now tw + int (Suc n) * ms" using t'(5) F(1) by (simp add: algebra_simps)
  ultimately show ?case using t'(3,4,6,7) F(4,5) by metis
qed

text \<open>A task stays in its slot until the tick that drains the slot.\<close>

lemma paced_stays:
  "wheel_inv tw \<Longrightarrow> aligned tw \<Longrightarrow> paced n tw = Some tw' \<Longrightarrow> l < 4 \<Longrightarrow> s < nslots l \<Longrightarrow>
   n < ticks_to (tw_cursor tw) l s \<Longrightarrow> a \<in> set (tw_wheels tw l s) \<Longrightarrow> a \<in> set (tw_wheels tw' l s)"
proof (induction n arbitrary: tw)
  case 0
  then show ?case by simp
next
  case (Suc n)
  from Suc.prems(3) obtain tw1 where tw1: "tick_body (tw_now tw + ms) tw = Some tw1" "paced n tw1 = Some tw'"
    by (auto split: Option.bind_splits)
  then have p: "tick_post tw tw1" using tick_step_inv Suc.prems(1,2) by blast
  have c: "cursor_ok (tw_cursor tw)" using Suc.prems(1) by (simp add: wheel_inv_def)
  have n1: "ticks_to (tw_cursor tw) l s \<noteq> 1" using Suc.prems(6) by simp
  then have nd: "\<not> (rolled (tw_cursor tw) l \<and> s = next_cursor (tw_cursor tw) l)"
    using ticks_to_1_iff [OF c Suc.prems(4,5)] next_cursor_level(1) [OF c Suc.prems(4)] by (auto simp: rolled_def)
  have "a \<in> set (tw_wheels tw1 l s)" using p nd Suc.prems(7) by (auto simp: tick_post_def keeps_def)
  moreover have "n < ticks_to (tw_cursor tw1) l s"
    using ticks_to_next [OF c Suc.prems(4,5) n1] Suc.prems(6) p by (simp add: tick_post_def)
  moreover have "wheel_inv tw1" "aligned tw1"
    using p aligned_tick [OF Suc.prems(2) tick_post_facts(1) [OF p]] by (simp_all add: tick_post_def)
  ultimately show ?case using Suc.IH [OF _ _ tw1(2) Suc.prems(4,5)] by blast
qed

lemma insert_head_ok:
  assumes "wheel_inv tw" "chan_inv tw" "room tw" "tw_addCh tw = a # as"
  shows "\<exists>tw'. insert_task a (tw\<lparr>tw_addCh := as\<rparr>) = Some tw' \<and> wheel_inv tw' \<and> tw_addCh tw' = as \<and>
    (if fire_at tw a \<le> tw_now tw
     then residents tw' = residents tw \<and> tw_fired tw' = tw_fired tw @ [(a, tw_now tw)]
     else residents tw' = add_mset a (residents tw) \<and> tw_fired tw' = tw_fired tw) \<and>
    (\<forall>b. live tw' b \<longleftrightarrow> live tw b \<and> tw_index tw (tk_ID (tw_task tw a)) \<noteq> Some b) \<and>
    (\<forall>b. tk_ID (tw_task tw' b) = tk_ID (tw_task tw b))"
proof -
  let ?tw = "tw\<lparr>tw_addCh := as\<rparr>"
  have r: "residents ?tw = residents tw" by (simp add: residents_def)
  have w: "wheel_inv ?tw" using assms(1)
    by (intro wheel_inv_cong [OF assms(1)]) (auto simp: wheel_inv_def indexed_def live_def)
  have "a \<notin># residents tw" "live tw a" "\<And>i. tw_index tw i \<noteq> Some a" "size (residents tw) < maxSlotLen"
    using assms(2-4) by (auto simp: chan_inv_def room_def)
  then show ?thesis using insert_task_ok [OF w, of a, unfolded r] by (auto simp: live_def)
qed

lemma level_unique:
  assumes "l < 4" "k < 4" "tick_of l \<le> d" "d < int (nslots l) * tick_of l"
    and "k = 0 \<or> tick_of k \<le> d" "d < int (nslots k) * tick_of k"
  shows "k = l"
  using level_cases [OF assms(1)] level_cases [OF assms(2)] assms(3-)
  by (auto simp: tick_of_def unit_ms_def nslots_def millisecond_def)

section \<open>A sample wheel\<close>

definition demo_new :: "unit TimeWheel" where
  "demo_new = tw_Start (tw_New 0 \<lparr>tk_ID = [], tk_FireAt = 0, tk_fn = (), tk_cancelled = True, tk_level = 0, tk_slot = 0\<rparr>)"

definition demo_add :: "time \<Rightarrow> unit TimeWheel" where
  "demo_add f = tw_Add ''job'' f () demo_new"

lemma demo_new_facts: "wheel_reachable demo_new" "tw_now demo_new = 0" "residents demo_new = {#}"
  "tw_addCh demo_new = []" "tw_cancelCh demo_new = []" "running demo_new" "tw_fresh demo_new = 0"
  "tw_index demo_new = Map.empty" "tw_overflow demo_new = ([], \<lambda>_. - 1)" "\<not> tw_overflowMu demo_new"
  unfolding demo_new_def
  by (rule wheel_reachable.reach_channel [OF wheel_reachable.reach_new _ client_start])
    (simp_all add: room_def maxSlotLen_def tw_Start_def tw_New_def residents_def time_truncate_def lvl0Tick_def zero_time_def millisecond_def)

lemma demo_add_facts: "wheel_reachable (demo_add f)" "tw_now (demo_add f) = 0" "residents (demo_add f) = {#}"
  "tw_addCh (demo_add f) = [0]" "tw_cancelCh (demo_add f) = []" "running (demo_add f)"
  "fire_at (demo_add f) 0 = f" "live (demo_add f) 0" "room (demo_add f)"
  "tk_ID (tw_task (demo_add f) 0) = ''job''" "tw_index (demo_add f) = Map.empty"
  "tw_overflow (demo_add f) = ([], \<lambda>_. - 1)" "\<not> tw_overflowMu (demo_add f)"
proof -
  have "chan_step demo_new (demo_add f)"
    unfolding demo_add_def by (rule client_add) (simp add: demo_new_facts addChCap_def)
  then show "wheel_reachable (demo_add f)"
    by (rule wheel_reachable.reach_channel [OF demo_new_facts(1), rotated])
      (simp add: room_def demo_new_facts maxSlotLen_def)
  show "residents (demo_add f) = {#}" using demo_new_facts(3) by (simp add: demo_add_def residents_def tw_Add_def new_task_def)
  then show "room (demo_add f)" using demo_new_facts by (simp add: room_def demo_add_def tw_Add_def new_task_def maxSlotLen_def)
qed (simp_all add: demo_add_def tw_Add_def new_task_def demo_new_facts live_def)

lemma demo_inserted:
  assumes "0 < f"
  shows "\<exists>tw. insert_task 0 ((demo_add f)\<lparr>tw_addCh := []\<rparr>) = Some tw \<and> wheel_reachable tw \<and>
    residents tw = {#0#} \<and> live tw 0 \<and> fire_at tw 0 = f \<and> tw_now tw = 0 \<and>
    (maxWheelSpan \<le> f \<longrightarrow> fst (tw_overflow tw) = [0])"
proof -
  let ?tw = "(demo_add f)\<lparr>tw_addCh := []\<rparr>"
  have i: "wheel_inv (demo_add f)" "chan_inv (demo_add f)" using reachable_inv demo_add_facts(1) by blast+
  obtain tw where tw: "insert_task 0 ?tw = Some tw" "residents tw = {#0#}" "live tw 0"
    using insert_head_ok [OF i demo_add_facts(9,4)] assms demo_add_facts by auto
  have "chan_step (demo_add f) tw" by (rule chan_step.recv_add [OF demo_add_facts(6,4) tw(1)])
  then have r: "wheel_reachable tw" by (rule reach_channel [OF demo_add_facts(1,9)])
  let ?t2 = "?tw\<lparr>tw_index := (tw_index ?tw)(''job'' \<mapsto> 0)\<rparr>"
  have pl: "place 0 ?t2 = Some tw"
    using tw(1) by (simp add: insert_task_def demo_add_facts Let_def)
  have w: "wait ?t2 0 = f" "tw_now ?t2 = 0" "fire_at ?t2 0 = f" by (simp_all add: demo_add_facts)
  have "fire_at tw 0 = f \<and> tw_now tw = 0" using pl assms w
    by (auto simp: place_def put_def Let_def split: if_splits)
  moreover have "fst (tw_overflow tw) = [0]" if f: "maxWheelSpan \<le> f"
    using pl f w
    by (cases rule: place_cases [of ?t2 0])
      (auto simp: demo_add_facts heap_push_empty maxWheelSpan_eq nslots_def tick_of_def unit_ms_def millisecond_def
        split: if_splits)
  ultimately show ?thesis using tw r by blast
qed

section \<open>Properties\<close>

text \<open>Property C18: in every state the paced loop reaches, at most one live task per ID is in the wheel
  (so re-adding a job replaces its pending trigger), the index leads to it, no task is more than one
  level-3 slot overdue, and every task in the overflow heap is at least the span of the wheels away.\<close>

theorem wheel_one_task_per_id:
  fixes tw :: "'f TimeWheel"
  assumes "wheel_reachable tw"
  shows "(\<forall>a \<in># residents tw. live tw a \<longrightarrow> count (residents tw) a = 1 \<and>
      tw_index tw (tk_ID (tw_task tw a)) = Some a \<and> tw_now tw \<le> fire_at tw a + tick_of 3) \<and>
    (\<forall>a \<in># residents tw. \<forall>b \<in># residents tw. live tw a \<longrightarrow> live tw b \<longrightarrow>
      tk_ID (tw_task tw a) = tk_ID (tw_task tw b) \<longrightarrow> a = b) \<and>
    (\<forall>a \<in> set (fst (tw_overflow tw)). maxWheelSpan \<le> fire_at tw a - tw_now tw)"
proof -
  have w: "wheel_inv tw" using reachable_inv [OF assms] by blast
  then have i: "\<forall>a \<in># residents tw. live tw a \<longrightarrow> count (residents tw) a = 1 \<and>
      tw_index tw (tk_ID (tw_task tw a)) = Some a" by (simp add: wheel_inv_def indexed_def)
  have "tw_now tw \<le> fire_at tw a + tick_of 3" if "a \<in># residents tw" for a
    using resident_wait [OF w that] by (simp add: millisecond_def)
  moreover have "a = b" if "a \<in># residents tw" "b \<in># residents tw" "live tw a" "live tw b"
    "tk_ID (tw_task tw a) = tk_ID (tw_task tw b)" for a b using i that by (metis option.inject)
  ultimately show ?thesis using i w by (auto simp: wheel_inv_def ov_ok_def)
qed

lemma wheel_one_task_per_id_witness:
  "\<exists>tw :: unit TimeWheel. residents tw = {#0#} \<and> live tw 0 \<and>
     tw_index tw (tk_ID (tw_task tw 0)) = Some 0 \<and> tw_now tw \<le> fire_at tw 0 + tick_of 3"
proof -
  obtain tw :: "unit TimeWheel" where tw: "wheel_reachable tw" "residents tw = {#0#}" "live tw 0"
    using demo_inserted [of 1] by auto
  show ?thesis using wheel_one_task_per_id [OF tw(1)] tw(2,3) by auto
qed

text \<open>Property C28: a tick of the paced loop blocks the goroutine for ever exactly when a live overflow
  task lies at the horizon of the tick: \<open>cascadeOverflow\<close> holds \<open>overflowMu\<close>, \<open>place\<close> finds the
  delay not below the span and locks the mutex again.\<close>

theorem tick_blocks_iff:
  assumes "wheel_inv tw" "aligned tw"
  shows "tick_body (tw_now tw + ms) tw = None \<longleftrightarrow>
    (\<exists>a \<in> set (fst (tw_overflow tw)). live tw a \<and> fire_at tw a = tw_now tw + ms + maxWheelSpan)"
proof -
  have "blocking (tw\<lparr>tw_now := tw_now tw + ms\<rparr>) \<longleftrightarrow>
    (\<exists>a \<in> set (fst (tw_overflow tw)). live tw a \<and> fire_at tw a = tw_now tw + ms + maxWheelSpan)"
    by (auto simp: blocking_def live_def)
  then show ?thesis using tick_ok [OF assms(1) aligned_truncate [OF assms(2)]] by fastforce
qed

lemma tick_blocks_iff_witness:
  "\<exists>tw :: unit TimeWheel. wheel_reachable tw \<and> tick_body (tw_now tw + ms) tw = None"
proof -
  obtain tw :: "unit TimeWheel" where tw: "wheel_reachable tw" "residents tw = {#0#}" "live tw 0" "tw_now tw = 0"
    "fire_at tw 0 = ms + maxWheelSpan" "fst (tw_overflow tw) = [0]"
    using demo_inserted [of "ms + maxWheelSpan"] by (auto simp: wheel_consts)
  then show ?thesis using tick_blocks_iff [of tw] reachable_inv [OF tw(1)] by auto
qed

text \<open>Property C15: from a state that meets the invariant of the loop (at most 100000 tasks in the wheel), a run of \<open>n\<close>
  ticks of an ideal clock, each exactly one millisecond after the one before, with no add or cancel received in
  between and none of the ticks blocking, ends; it fires only live tasks, none before its time and none more than one
  level-3 slot (17.5 minutes) after it, and every live task that was due by then has been fired exactly once. (A
  ticker drops ticks when the loop is late, and a tick moves the cursors by one slot however much time has passed, so
  on a real clock the delay grows with the dropped ticks.)\<close>

theorem paced_fires_all:
  assumes "wheel_inv tw" "aligned tw" "clash_free n tw"
  shows "\<exists>tw' new. paced n tw = Some tw' \<and> tw_fired tw' = tw_fired tw @ new \<and>
    (\<forall>(a, t) \<in> set new. live tw a \<and> fire_at tw a \<le> t \<and> t \<le> fire_at tw a + tick_of 3) \<and>
    (\<forall>a \<in># residents tw. live tw a \<longrightarrow> fire_at tw a + tick_of 3 \<le> tw_now tw + int n * ms \<longrightarrow>
      count (mset (map fst new)) a = 1)"
proof -
  obtain tw' new where p: "paced n tw = Some tw'" "accounts tw tw' new" "wheel_inv tw'"
    "tw_now tw' = tw_now tw + int n * ms" "\<forall>a. fire_at tw' a = fire_at tw a"
    using paced_ok [OF assms] by blast
  have "count (mset (map fst new)) a = 1"
    if a: "a \<in># residents tw" "live tw a" "fire_at tw a + tick_of 3 \<le> tw_now tw + int n * ms" for a
  proof -
    have "a \<notin># residents tw'"
      using resident_wait [OF p(3), of a] a(3) p(4,5) by (auto simp: millisecond_def)
    moreover have "count (filter_mset (live tw) (residents tw)) a = 1"
      using assms(1) a(1,2) by (simp add: wheel_inv_def indexed_def)
    moreover have "filter_mset (live tw) (residents tw) =
      filter_mset (live tw) (residents tw') + mset (map fst new)" using p(2) by (simp add: accounts_def)
    ultimately show ?thesis by (simp add: not_in_iff split: if_splits)
  qed
  then show ?thesis using p(1,2) unfolding accounts_def by blast
qed

lemma paced_fires_all_witness:
  "\<exists>tw tw' new. paced 1048577 tw = Some tw' \<and> tw_fired tw' = tw_fired tw @ new \<and>
     residents (tw :: unit TimeWheel) = {#0#} \<and> count (mset (map fst new)) 0 = 1"
proof -
  obtain tw :: "unit TimeWheel" where tw: "wheel_reachable tw" "residents tw = {#0#}" "live tw 0" "tw_now tw = 0" "fire_at tw 0 = 1"
    using demo_inserted [of 1] by auto
  have "clash_free 1048577 tw" by (simp add: clash_free_def tw wheel_consts)
  moreover have "fire_at tw 0 + tick_of 3 \<le> tw_now tw + int 1048577 * ms"
    by (simp add: tw tick_of_def unit_ms_def millisecond_def)
  moreover have "0 \<in># residents tw" by (simp add: tw)
  ultimately show ?thesis
    using paced_fires_all [of tw 1048577] reachable_inv [OF tw(1)] tw(2,3) by blast
qed

text \<open>Property C29: \<open>insert\<close> fires a task that is due at once and otherwise puts it into the wheel; it
  cancels the task the index held for the ID and no other.\<close>

theorem insert_task_correct:
  assumes "wheel_inv tw" "chan_inv tw" "room tw" "tw_addCh tw = a # as"
  shows "\<exists>tw'. insert_task a (tw\<lparr>tw_addCh := as\<rparr>) = Some tw' \<and> wheel_inv tw' \<and> tw_addCh tw' = as \<and>
    (if fire_at tw a \<le> tw_now tw
     then residents tw' = residents tw \<and> tw_fired tw' = tw_fired tw @ [(a, tw_now tw)]
     else residents tw' = add_mset a (residents tw) \<and> tw_fired tw' = tw_fired tw) \<and>
    (\<forall>b. live tw' b \<longleftrightarrow> live tw b \<and> tw_index tw (tk_ID (tw_task tw a)) \<noteq> Some b)"
  using insert_head_ok [OF assms] by blast

lemma insert_task_correct_witness:
  "\<exists>tw'. insert_task 0 ((demo_add 5)\<lparr>tw_addCh := []\<rparr>) = Some tw' \<and> residents tw' = {#0#} \<and> live tw' 0"
  using insert_task_correct [of "demo_add 5" 0 "[]"] reachable_inv [OF demo_add_facts(1)]
  by (auto simp: demo_add_facts)

text \<open>A new task waits for the tick that drains its slot, however soon it is due: in a
  wheel just started, a task between one slot of level \<open>l\<close> and the span of the level away is still in
  its slot as long as fewer than \<open>(delay div slot + 1) * slot\<close> milliseconds have passed. A task 20
  minutes away is fired after 2097152 ms, almost 35 minutes.\<close>

lemma new_task_waits_for_slot:
  assumes tw: "tw = tw_Start (tw_New start unused)" and l: "l < 4"
    and d: "tick_of l \<le> f - tw_now tw" "f - tw_now tw < int (nslots l) * tick_of l"
    and n: "int n < ((f - tw_now tw) div tick_of l + 1) * int (unit_ms l)"
  shows "\<exists>tw1 tw'. insert_task 0 (tw_Add i f fn tw) = Some tw1 \<and> paced n tw1 = Some tw' \<and>
    0 \<in># residents tw' \<and> tw_fired tw' = []"
proof -
  define ta where "ta = tw_Add i f fn tw"
  have N: "wheel_inv ta" "aligned ta" "residents ta = {#}" "wait ta 0 = f - tw_now tw" "live ta 0"
    "\<And>i. tw_index ta i = None" "tw_cursor ta = (\<lambda>_. 0)" "tw_fired ta = []"
    using chan_inv_add [OF wheel_inv_start(1,3), of ta i f fn start unused] wheel_inv_start(2) [of start unused]
    by (simp_all add: ta_def tw tw_Add_def new_task_def aligned_def live_def residents_def tw_New_def tw_Start_def)
  define t2 where "t2 = ta\<lparr>tw_index := (tw_index ta)(tk_ID (tw_task ta 0) \<mapsto> 0)\<rparr>"
  have I: "insert_task 0 ta = place 0 t2" by (simp add: insert_task_def N(6) t2_def Let_def)
  have T: "wait t2 0 = f - tw_now tw" "live t2 0" "residents t2 = {#}" "tw_cursor t2 = (\<lambda>_. 0)" "aligned t2"
    "tw_fired t2 = []"
    using N by (simp_all add: t2_def live_def residents_def aligned_def)
  have w2: "wheel_inv t2" by (rule wheel_inv_cong [OF N(1)]) (simp_all add: t2_def N(3) indexed_def)
  have x: "indexed (add_mset 0 (residents t2)) t2" by (simp add: T(3) indexed_def) (simp add: t2_def)
  have d0: "0 < wait t2 0" using d(1) T(1) tick_of_pos [of l] by linarith
  have sz: "size (residents t2) < maxSlotLen" by (simp add: T(3) maxSlotLen_def)
  note W = wheel_inv_put [OF w2 l d0 _ sz x, unfolded T(1), OF d(2)]
  let ?t1 = "put_at l 0 t2"
  have p: "place 0 t2 = Some ?t1"
  proof (cases rule: place_cases [of t2 0, case_names due slot far])
    case due
    then show ?thesis using d0 by simp
  next
    case (slot k)
    then have "k = l" using level_unique [OF l slot(1) d] slot(3,5) T(1) by simp
    then show ?thesis using slot(4) by simp
  next
    case far
    then show ?thesis using d(2) T(1) level_cases [OF l]
      by (auto simp: maxWheelSpan_eq nslots_def tick_of_def unit_ms_def millisecond_def)
  qed
  let ?s = "(tw_cursor t2 l + (nat (go_div (wait t2 0) (tick_of l)) + 1)) mod nslots l"
  note P = ticks_to_put [OF _ l d0 _ refl, of "tw_cursor t2", unfolded T(1)]
  have c: "cursor_ok (tw_cursor t2)" using w2 by (simp add: wheel_inv_def)
  have f: "frame t2 ?t1" "tw_cursor ?t1 = tw_cursor t2" using carries_put(2,3) [OF c l sz] by blast+
  have s: "?s < nslots l" by (simp add: nslots_def)
  have at: "0 \<in> set (tw_wheels ?t1 l ?s)"
    using residents_put(2) [OF l s sz refl, of 0, folded put_at_def] by simp
  have al: "aligned ?t1" using T(5) f(1) by (simp add: aligned_def frame_def)
  have ti: "n < ticks_to (tw_cursor ?t1) l ?s"
    using ticks_to_put(2) [OF c l d0 _ refl] d(2) n T(1,4) f(2) by (simp add: phase_def split: if_splits)
  have cf: "clash_free n ?t1"
    using d(2) W(2) f(1) T(1) level_cases [OF l]
    by (auto simp: clash_free_def T(3) frame_def maxWheelSpan_eq nslots_def tick_of_def unit_ms_def millisecond_def)
  obtain tw' new where r: "paced n ?t1 = Some tw'" "accounts ?t1 tw' new"
    using paced_ok [OF W(1) al cf] by blast
  have st: "0 \<in> set (tw_wheels tw' l ?s)" by (rule paced_stays [OF W(1) al r(1) l s ti at])
  then have res: "0 \<in># residents tw'"
    using slot_mset_le [OF l s, of "tw_wheels tw'"] mset_subset_eqD by (fastforce simp: residents_def)
  have "live ?t1 0" using f(1) T(2) by (simp add: frame_def)
  then have "new = []"
    using r(2) res W(2) by (auto simp: accounts_def T(3) dest!: multi_member_split split: if_splits)
  moreover have "tw_fired ?t1 = []" using T(6) by (simp add: put_at_def put_def Let_def)
  ultimately show ?thesis using I p r res by (auto simp: ta_def accounts_def)
qed

lemma new_task_waits_for_slot_witness:
  "\<exists>tw1 tw'. insert_task 0 (demo_add (1200000 * ms)) = Some tw1 \<and> paced 2097151 tw1 = Some tw' \<and>
    0 \<in># residents tw' \<and> tw_fired tw' = []"
proof -
  have "(1200000 * ms) div tick_of 3 = 1" by (simp add: tick_of_def unit_ms_def millisecond_def)
  then show ?thesis
    unfolding demo_add_def
    by (intro new_task_waits_for_slot [OF demo_new_def, of 3])
      (simp_all add: demo_new_facts, simp_all add: tick_of_def unit_ms_def nslots_def millisecond_def)
qed

text \<open>The two channels do not keep the order of their messages. \<open>UpdateJob\<close> cancels a
  job's task and adds the new one. If the loop receives the cancel first, the new task is pending; the
  loop may as well receive the add first, and then the late cancel removes the new task and the job is
  left without a trigger.\<close>

lemma cancel_and_add_race:
  assumes "wheel_inv tw" "aligned tw" "chan_inv tw" "room tw" "running tw"
    and ch: "tw_addCh tw = [a]" "tw_cancelCh tw = [tk_ID (tw_task tw a)]"
    and fut: "tw_now tw < fire_at tw a"
  shows "(\<exists>tw1 tw2. chan_step tw tw1 \<and> chan_step tw1 tw2 \<and> tw_addCh tw2 = [] \<and> tw_cancelCh tw2 = [] \<and>
      a \<in># residents tw2 \<and> live tw2 a) \<and>
    (\<exists>tw1 tw2. chan_step tw tw1 \<and> chan_step tw1 tw2 \<and> tw_addCh tw2 = [] \<and> tw_cancelCh tw2 = [] \<and>
      (\<forall>b \<in># residents tw2. live tw2 b \<longrightarrow> tk_ID (tw_task tw2 b) \<noteq> tk_ID (tw_task tw a)))"
proof
  let ?i = "tk_ID (tw_task tw a)"
  have ev: "tw_cancelCh tw' = tw_cancelCh t \<and> running tw' = running t"
    if "insert_task x t = Some tw'" for x t and tw' :: "'a TimeWheel"
    using that by (auto simp: insert_task_def place_def put_def fire_def task_Cancel_def Let_def
        split: if_splits option.splits)
  have dc: "tw_addCh (doCancel x t) = tw_addCh t \<and> running (doCancel x t) = running t \<and>
    tw_cancelCh (doCancel x t) = tw_cancelCh t \<and> tw_now (doCancel x t) = tw_now t" for x and t :: "'a TimeWheel"
    by (auto simp: doCancel_def task_Cancel_def Let_def split: option.splits)
  have al: "live tw a" "a \<notin># residents tw" "\<And>j. tw_index tw j \<noteq> Some a"
    using assms(3) ch(1) by (auto simp: chan_inv_def)
  show "\<exists>tw1 tw2. chan_step tw tw1 \<and> chan_step tw1 tw2 \<and> tw_addCh tw2 = [] \<and> tw_cancelCh tw2 = [] \<and>
      a \<in># residents tw2 \<and> live tw2 a"
  proof -
    let ?t0 = "tw\<lparr>tw_cancelCh := []\<rparr>" and ?t1 = "doCancel ?i (tw\<lparr>tw_cancelCh := []\<rparr>)"
    have s1: "chan_step tw ?t1" by (rule chan_step.recv_cancel [OF assms(5) ch(2)])
    have w0: "wheel_inv ?t0" using assms(1)
      by (intro wheel_inv_cong [OF assms(1)]) (auto simp: wheel_inv_def indexed_def live_def)
    note D = doCancel_ok [OF w0, of ?i]
    have r: "residents ?t1 = residents tw" using D(2) by (simp add: residents_def)
    have i1: "wheel_inv ?t1" "chan_inv ?t1" "room ?t1" "tw_addCh ?t1 = a # []"
      using chan_step_inv [OF assms(1-4) s1] assms(4) ch(1) dc by (auto simp: room_def r)
    obtain t2 where t2: "insert_task a (?t1\<lparr>tw_addCh := []\<rparr>) = Some t2" "tw_addCh t2 = []"
      "residents t2 = add_mset a (residents ?t1)" "live t2 a"
      using insert_head_ok [OF i1] fut al D(3,4,6) dc by (auto simp: live_def)
    have "chan_step ?t1 t2" by (rule chan_step.recv_add [OF _ i1(4) t2(1)]) (simp add: dc assms(5))
    then show ?thesis using s1 t2 ev [OF t2(1)] dc by (intro exI [of _ ?t1] exI [of _ t2]) auto
  qed
  show "\<exists>tw1 tw2. chan_step tw tw1 \<and> chan_step tw1 tw2 \<and> tw_addCh tw2 = [] \<and> tw_cancelCh tw2 = [] \<and>
      (\<forall>b \<in># residents tw2. live tw2 b \<longrightarrow> tk_ID (tw_task tw2 b) \<noteq> ?i)"
  proof -
    obtain t1 where t1: "insert_task a (tw\<lparr>tw_addCh := []\<rparr>) = Some t1" "tw_addCh t1 = []" "wheel_inv t1"
      using insert_head_ok [OF assms(1,3,4) ch(1)] by auto
    have s1: "chan_step tw t1" by (rule chan_step.recv_add [OF assms(5) ch(1) t1(1)])
    have e: "tw_cancelCh t1 = [?i]" "running t1" using ev [OF t1(1)] ch(2) assms(5) by simp_all
    let ?t2 = "doCancel ?i (t1\<lparr>tw_cancelCh := []\<rparr>)"
    have s2: "chan_step t1 ?t2" by (rule chan_step.recv_cancel [OF e(2,1)])
    have w0: "wheel_inv (t1\<lparr>tw_cancelCh := []\<rparr>)" using t1(3)
      by (intro wheel_inv_cong [OF t1(3)]) (auto simp: wheel_inv_def indexed_def live_def)
    note D = doCancel_ok [OF w0, of ?i]
    have "tk_ID (tw_task ?t2 b) \<noteq> ?i" if "b \<in># residents ?t2" "live ?t2 b" for b
      using that w0 D(2,3,5) unfolding wheel_inv_def indexed_def by metis
    then show ?thesis using s1 s2 t1(2) dc by (intro exI [of _ t1] exI [of _ ?t2]) auto
  qed
qed


lemma cancel_and_add_race_witness:
  "\<exists>tw1 tw2. chan_step (tw_Cancel ''job'' (demo_add 5)) tw1 \<and> chan_step tw1 tw2 \<and>
     tw_addCh tw2 = [] \<and> tw_cancelCh tw2 = [] \<and>
     (\<forall>b \<in># residents tw2. live tw2 b \<longrightarrow> tk_ID (tw_task tw2 b) \<noteq> ''job'')"
proof -
  let ?tw = "tw_Cancel ''job'' (demo_add 5)"
  have s: "tw_addCh ?tw = [0]" "tw_cancelCh ?tw = [''job'']" "running ?tw" "tw_now ?tw = 0"
    "fire_at ?tw 0 = 5" "tk_ID (tw_task ?tw 0) = ''job''" "room ?tw"
    using demo_add_facts by (simp_all add: tw_Cancel_def room_def residents_def)
  have "chan_step (demo_add 5) ?tw" by (rule client_cancel) (simp add: demo_add_facts cancelChCap_def)
  then have "wheel_reachable ?tw" using reach_channel demo_add_facts(1,9) by blast
  then show ?thesis using cancel_and_add_race [of ?tw 0] reachable_inv s by auto
qed

end
