(* ===== verification/Router.thy ===== *)
theory Router
  imports Job_Model "HOL-Library.Word" "HOL-Library.Multiset"
begin

unbundle bit_operations_syntax

text \<open>
  \<open>internal/scheduler/route_strategy.go\<close>: how the scheduler picks one executor address.

  The routers with a memory (round robin, LFU, LRU) are package globals; their maps are the record
  \<open>routers\<close>. \<open>rand.Intn\<close> and \<open>time.Now\<close> are the arguments \<open>rnd\<close> and \<open>now\<close>. Reading the addresses
  at a negative index would panic, which is the value \<open>Panic\<close>.
\<close>

section \<open>Hashes\<close>

definition fnv64_write :: "64 word \<Rightarrow> string \<Rightarrow> 64 word" where
  "fnv64_write h s = foldl (\<lambda>h c. (h XOR of_char c) * 1099511628211) h s"

definition fnv32_write :: "32 word \<Rightarrow> string \<Rightarrow> 32 word" where
  "fnv32_write h s = foldl (\<lambda>h c. (h XOR of_char c) * 16777619) h s"

definition fnv64_new :: "64 word" where "fnv64_new = 14695981039346656037"

definition fnv32_new :: "32 word" where "fnv32_new = 2166136261"

definition listHash :: "string list \<Rightarrow> string" where
  "listHash addrs = hexa (unat (foldl fnv64_write fnv64_new addrs))"

section \<open>Routers\<close>

datatype router = firstRouter | lastRouter | roundRobinRouter | randomRouter | consistentHashRouter
  | lfuRouter | lruRouter | failoverRouter

record routers =
  rr_counter :: "string \<rightharpoonup> int"
  lfu_count :: "string \<rightharpoonup> int"
  lru_lastUsed :: "string \<rightharpoonup> time"

definition routers_init :: routers where
  "routers_init = \<lparr>rr_counter = Map.empty, lfu_count = Map.empty, lru_lastUsed = Map.empty\<rparr>"

definition NewRouter :: "route_strategy \<Rightarrow> router" where
  "NewRouter strategy =
     (if strategy = RouteFirst then firstRouter
      else if strategy = RouteLast then lastRouter
      else if strategy = RouteRoundRobin then roundRobinRouter
      else if strategy = RouteRandom then randomRouter
      else if strategy = RouteConsistentHash then consistentHashRouter
      else if strategy = RouteFailover then failoverRouter
      else if strategy = RouteLFU then lfuRouter
      else if strategy = RouteLRU then lruRouter
      else roundRobinRouter)"

definition noExecutor :: string where "noExecutor = ''route: no executor available''"

definition first_Route :: "string list \<Rightarrow> string go_result" where
  "first_Route addresses = (if addresses = [] then Err noExecutor else Ok (addresses ! 0))"

definition last_Route :: "string list \<Rightarrow> string go_result" where
  "last_Route addresses =
     (if addresses = [] then Err noExecutor else Ok (addresses ! (length addresses - 1)))"

definition roundRobin_Route :: "string list \<Rightarrow> routers \<Rightarrow> string go_result \<times> routers" where
  "roundRobin_Route addresses r =
     (if addresses = [] then (Err noExecutor, r)
      else let key = listHash addresses;
               c = go_get 0 (rr_counter r) key;
               idx = go_mod c (int (length addresses));
               r' = r\<lparr>rr_counter := (rr_counter r)(key \<mapsto> i64 (c + 1))\<rparr>
           in (if idx < 0 then Panic else Ok (addresses ! nat idx), r'))"

definition random_Route :: "(nat \<Rightarrow> nat) \<Rightarrow> string list \<Rightarrow> string go_result" where
  "random_Route rnd addresses =
     (if addresses = [] then Err noExecutor else Ok (addresses ! rnd (length addresses)))"

definition consistentHash_Route :: "string list \<Rightarrow> int \<Rightarrow> string \<Rightarrow> string go_result" where
  "consistentHash_Route addresses jobID param =
     (if addresses = [] then Err noExecutor
      else let h = fnv32_write fnv32_new (itoa jobID @ '':'' @ param)
           in Ok (addresses ! (unat h mod length addresses)))"

fun lfu_scan :: "(string \<rightharpoonup> int) \<Rightarrow> string list \<Rightarrow> string \<Rightarrow> int \<Rightarrow> string" where
  "lfu_scan m [] minAddr minCount = minAddr"
| "lfu_scan m (a # as) minAddr minCount =
     (let c = go_get 0 m a in if c < minCount then lfu_scan m as a c else lfu_scan m as minAddr minCount)"

definition lfu_Route :: "string list \<Rightarrow> routers \<Rightarrow> string go_result \<times> routers" where
  "lfu_Route addresses r =
     (if addresses = [] then (Err noExecutor, r)
      else let a0 = addresses ! 0;
               a = lfu_scan (lfu_count r) (tl addresses) a0 (go_get 0 (lfu_count r) a0)
           in (Ok a, r\<lparr>lfu_count := (lfu_count r)(a \<mapsto> i64 (go_get 0 (lfu_count r) a + 1))\<rparr>))"

fun lru_scan :: "(string \<rightharpoonup> time) \<Rightarrow> string list \<Rightarrow> string \<Rightarrow> time \<Rightarrow> string" where
  "lru_scan m [] oldest oldestTime = oldest"
| "lru_scan m (a # as) oldest oldestTime =
     (let t = go_get zero_time m a
      in if t < oldestTime then lru_scan m as a t else lru_scan m as oldest oldestTime)"

definition lru_Route :: "string list \<Rightarrow> time \<Rightarrow> routers \<Rightarrow> string go_result \<times> routers" where
  "lru_Route addresses now r =
     (if addresses = [] then (Err noExecutor, r)
      else let a0 = addresses ! 0;
               a = lru_scan (lru_lastUsed r) (tl addresses) a0 (go_get zero_time (lru_lastUsed r) a0)
           in (Ok a, r\<lparr>lru_lastUsed := (lru_lastUsed r)(a \<mapsto> now)\<rparr>))"

definition failover_Route :: "string list \<Rightarrow> string go_result" where
  "failover_Route addresses =
     (if addresses = [] then Err ''failover: no healthy executor available'' else Ok (addresses ! 0))"

text \<open>The interface \<open>Router\<close>: a call is dispatched on the router's dynamic type.\<close>

fun Route :: "(nat \<Rightarrow> nat) \<Rightarrow> time \<Rightarrow> router \<Rightarrow> string list \<Rightarrow> int \<Rightarrow> string \<Rightarrow> routers \<Rightarrow>
    string go_result \<times> routers" where
  "Route rnd now firstRouter as jobID param r = (first_Route as, r)"
| "Route rnd now lastRouter as jobID param r = (last_Route as, r)"
| "Route rnd now roundRobinRouter as jobID param r = roundRobin_Route as r"
| "Route rnd now randomRouter as jobID param r = (random_Route rnd as, r)"
| "Route rnd now consistentHashRouter as jobID param r = (consistentHash_Route as jobID param, r)"
| "Route rnd now lfuRouter as jobID param r = lfu_Route as r"
| "Route rnd now lruRouter as jobID param r = lru_Route as now r"
| "Route rnd now failoverRouter as jobID param r = (failover_Route as, r)"

section \<open>Every route is one of the addresses\<close>

definition routers_ok :: "routers \<Rightarrow> bool" where
  "routers_ok r \<longleftrightarrow> (\<forall>k c. rr_counter r k = Some c \<longrightarrow> 0 \<le> c)"

lemma lfu_scan_in: "lfu_scan m as a c \<in> insert a (set as)"
  by (induction as arbitrary: a c) (auto simp: Let_def)

lemma lfu_scan_min: "c = go_get 0 m a \<Longrightarrow> b \<in> insert a (set as) \<Longrightarrow>
  go_get 0 m (lfu_scan m as a c) \<le> go_get 0 m b"
proof (induction as arbitrary: a c b)
  case (Cons x xs)
  have "go_get 0 m (lfu_scan m xs y (go_get 0 m y)) \<le> go_get 0 m b"
    if "b = y \<or> b \<in> set xs \<or> go_get 0 m y \<le> go_get 0 m b" for y b
    using that Cons.IH [of "go_get 0 m y" y y] Cons.IH [of "go_get 0 m y" y b] by auto
  then show ?case using Cons.prems by (auto simp: Let_def not_less)
qed simp

lemma lru_scan_in: "lru_scan m as a c \<in> insert a (set as)"
  by (induction as arbitrary: a c) (auto simp: Let_def)

lemma lru_scan_min: "c = go_get zero_time m a \<Longrightarrow> b \<in> insert a (set as) \<Longrightarrow>
  go_get zero_time m (lru_scan m as a c) \<le> go_get zero_time m b"
proof (induction as arbitrary: a c b)
  case (Cons x xs)
  have "go_get zero_time m (lru_scan m xs y (go_get zero_time m y)) \<le> go_get zero_time m b"
    if "b = y \<or> b \<in> set xs \<or> go_get zero_time m y \<le> go_get zero_time m b" for y b
    using that Cons.IH [of "go_get zero_time m y" y y] Cons.IH [of "go_get zero_time m y" y b] by auto
  then show ?case using Cons.prems by (auto simp: Let_def not_less)
qed simp

lemma go_mod_index: "0 \<le> c \<Longrightarrow> 0 < n \<Longrightarrow> 0 \<le> go_mod c (int n) \<and> nat (go_mod c (int n)) < n"
  by (simp add: go_mod_nonneg) (metis Euclidean_Rings.pos_mod_bound Euclidean_Rings.pos_mod_sign nat_less_iff of_nat_0_less_iff)

lemma insert_hd_tl: "xs \<noteq> [] \<Longrightarrow> insert (xs ! 0) (set (tl xs)) = set xs"
  by (cases xs) auto

lemma lfu_Route_ok:
  assumes "as \<noteq> []" "lfu_Route as r = (res, r')"
  obtains a where "res = Ok a" "a \<in> set as" "\<And>b. b \<in> set as \<Longrightarrow> go_get 0 (lfu_count r) a \<le> go_get 0 (lfu_count r) b"
    "r' = r\<lparr>lfu_count := (lfu_count r)(a \<mapsto> i64 (go_get 0 (lfu_count r) a + 1))\<rparr>"
proof -
  let ?a = "lfu_scan (lfu_count r) (tl as) (as ! 0) (go_get 0 (lfu_count r) (as ! 0))"
  have "?a \<in> set as" using lfu_scan_in insert_hd_tl [OF assms(1)] by metis
  then show thesis
    using that [of ?a] assms lfu_scan_min [OF refl] insert_hd_tl [OF assms(1)] by (auto simp: lfu_Route_def Let_def)
qed

lemma lru_Route_ok:
  assumes "as \<noteq> []" "lru_Route as now r = (res, r')"
  obtains a where "res = Ok a" "a \<in> set as"
    "\<And>b. b \<in> set as \<Longrightarrow> go_get zero_time (lru_lastUsed r) a \<le> go_get zero_time (lru_lastUsed r) b"
    "r' = r\<lparr>lru_lastUsed := (lru_lastUsed r)(a \<mapsto> now)\<rparr>"
proof -
  let ?a = "lru_scan (lru_lastUsed r) (tl as) (as ! 0) (go_get zero_time (lru_lastUsed r) (as ! 0))"
  have "?a \<in> set as" using lru_scan_in insert_hd_tl [OF assms(1)] by metis
  then show thesis
    using that [of ?a] assms lru_scan_min [OF refl] insert_hd_tl [OF assms(1)] by (auto simp: lru_Route_def Let_def)
qed

lemma routers_ok_get: "routers_ok r \<Longrightarrow> 0 \<le> go_get 0 (rr_counter r) k"
  by (auto simp: routers_ok_def go_get_def split: option.splits)

lemma i64_succ: "0 \<le> c \<Longrightarrow> c < i64_max \<Longrightarrow> i64 (c + 1) = c + 1"
  by (intro i64_id) (auto simp: i64_min_def i64_max_def)

lemma Route_ok:
  assumes "routers_ok r" "\<And>n. 0 < n \<Longrightarrow> rnd n < n" "\<And>k c. rr_counter r k = Some c \<Longrightarrow> c < i64_max"
  shows "(as = [] \<longrightarrow> (\<exists>e. fst (Route rnd now (NewRouter strategy) as jobID param r) = Err e)) \<and>
    (as \<noteq> [] \<longrightarrow> (\<exists>a \<in> set as. fst (Route rnd now (NewRouter strategy) as jobID param r) = Ok a)) \<and>
    routers_ok (snd (Route rnd now (NewRouter strategy) as jobID param r))"
proof (cases "as = []")
  case True
  then show ?thesis
    using assms(1) by (cases "NewRouter strategy") (auto simp: first_Route_def last_Route_def
      roundRobin_Route_def random_Route_def consistentHash_Route_def lfu_Route_def lru_Route_def failover_Route_def)
next
  case False
  let ?R = "Route rnd now (NewRouter strategy) as jobID param r"
  have "(\<exists>a \<in> set as. fst ?R = Ok a) \<and> routers_ok (snd ?R)"
  proof (cases "NewRouter strategy")
    case roundRobinRouter
    let ?k = "listHash as"
    have c: "0 \<le> go_get 0 (rr_counter r) ?k" by (rule routers_ok_get [OF assms(1)])
    then have "go_get 0 (rr_counter r) ?k < i64_max"
      using assms(3) by (auto simp: go_get_def i64_max_def split: option.splits)
    then have "i64 (go_get 0 (rr_counter r) ?k + 1) = go_get 0 (rr_counter r) ?k + 1" by (rule i64_succ [OF c])
    then show ?thesis
      using False go_mod_index [OF c, of "length as"] c assms(1) roundRobinRouter
      by (auto simp: roundRobin_Route_def Let_def routers_ok_def)
  next
    case lfuRouter
    obtain res r' where e: "lfu_Route as r = (res, r')" by (rule prod.exhaust)
    show ?thesis by (rule lfu_Route_ok [OF False e]) (use assms(1) e lfuRouter in \<open>auto simp: routers_ok_def\<close>)
  next
    case lruRouter
    obtain res r' where e: "lru_Route as now r = (res, r')" by (rule prod.exhaust)
    show ?thesis by (rule lru_Route_ok [OF False e]) (use assms(1) e lruRouter in \<open>auto simp: routers_ok_def\<close>)
  qed (use False assms(1,2) in \<open>auto simp: first_Route_def last_Route_def random_Route_def
        consistentHash_Route_def failover_Route_def Let_def\<close>)
  then show ?thesis using False by simp
qed

text \<open>Every router returns an error on an empty list of addresses and one of the addresses
  otherwise, and keeps the counters in range, as long as no counter is about to overflow.\<close>

lemma Route_member:
  assumes "routers_ok r" "\<And>n. 0 < n \<Longrightarrow> rnd n < n" "\<And>k c. rr_counter r k = Some c \<Longrightarrow> c < i64_max"
  shows "(as = [] \<longrightarrow> (\<exists>e. fst (Route rnd now (NewRouter strategy) as jobID param r) = Err e)) \<and>
    (as \<noteq> [] \<longrightarrow> (\<exists>a \<in> set as. fst (Route rnd now (NewRouter strategy) as jobID param r) = Ok a)) \<and>
    routers_ok (snd (Route rnd now (NewRouter strategy) as jobID param r))"
  by (rule Route_ok [OF assms])

lemma Route_member_witness:
  "(\<exists>a \<in> set [''a'', ''b'']. fst (Route (\<lambda>n. n - 1) 0 (NewRouter RouteLFU) [''a'', ''b''] 7 [] routers_init) = Ok a)"
  using Route_member [of routers_init "\<lambda>n. n - 1" "[''a'', ''b'']" 0 RouteLFU 7 "[]"]
  by (simp add: routers_ok_def routers_init_def)

section \<open>Fairness\<close>

text \<open>Calls in a row on one list of addresses.\<close>

fun routes :: "(routers \<Rightarrow> string go_result \<times> routers) \<Rightarrow> nat \<Rightarrow> routers \<Rightarrow> string go_result list \<times> routers" where
  "routes f 0 r = ([], r)"
| "routes f (Suc n) r = (let (x, r1) = f r; (xs, r2) = routes f n r1 in (x # xs, r2))"

lemma roundRobin_Route_eq:
  assumes "as \<noteq> []" "c = go_get 0 (rr_counter r) (listHash as)" "0 \<le> c" "c < i64_max"
  shows "roundRobin_Route as r = (Ok (as ! (nat c mod length as)), r\<lparr>rr_counter := (rr_counter r)(listHash as \<mapsto> c + 1)\<rparr>)"
proof -
  have l: "0 < int (length as)" using assms(1) by simp
  have "go_mod c (int (length as)) = c mod int (length as)" by (rule go_mod_nonneg [OF assms(3) l])
  moreover have "nat (c mod int (length as)) = nat c mod length as"
    using assms(3) by (simp add: nat_mod_distrib)
  moreover have "\<not> c mod int (length as) < 0" using pos_mod_sign [OF l, of c] by simp
  ultimately show ?thesis
    using assms i64_succ [OF assms(3,4)] l by (simp add: roundRobin_Route_def Let_def)
qed

lemma roundRobin_routes:
  "as \<noteq> [] \<Longrightarrow> c = go_get 0 (rr_counter r) (listHash as) \<Longrightarrow> 0 \<le> c \<Longrightarrow> c + int n \<le> i64_max \<Longrightarrow>
   fst (routes (roundRobin_Route as) n r) = map (\<lambda>i. Ok (as ! ((nat c + i) mod length as))) [0..<n]"
proof (induction n arbitrary: c r)
  case (Suc n)
  let ?r = "r\<lparr>rr_counter := (rr_counter r)(listHash as \<mapsto> c + 1)\<rparr>"
  have e: "roundRobin_Route as r = (Ok (as ! (nat c mod length as)), ?r)"
    by (rule roundRobin_Route_eq) (use Suc.prems in auto)
  have "fst (routes (roundRobin_Route as) n ?r) = map (\<lambda>i. Ok (as ! ((nat (c + 1) + i) mod length as))) [0..<n]"
    by (rule Suc.IH) (use Suc.prems in \<open>auto simp del: fun_upd_apply\<close>)
  moreover have "[0..<Suc n] = 0 # map Suc [0..<n]" by (simp add: map_Suc_upt upt_conv_Cons)
  ultimately show ?case using e Suc.prems(3) by (auto simp: case_prod_beta nat_add_distrib)
qed simp

lemma mset_rotation:
  assumes "xs \<noteq> []"
  shows "mset (map (\<lambda>i. xs ! ((c + i) mod length xs)) [0..<length xs]) = mset xs"
proof -
  have "map (\<lambda>i. xs ! ((c + i) mod length xs)) [0..<length xs] = rotate c xs"
    by (rule nth_equalityI) (simp_all add: nth_rotate add.commute)
  also have "mset \<dots> = mset xs"
    by (metis mset_append append_take_drop_id rotate_drop_take union_commute)
  finally show ?thesis .
qed

lemma mset_rotations:
  assumes "xs \<noteq> []"
  shows "mset (map (\<lambda>i. xs ! ((c + i) mod length xs)) [0..<k * length xs]) = repeat_mset k (mset xs)"
proof (induction k arbitrary: c)
  case (Suc k)
  let ?n = "length xs" and ?f = "\<lambda>c i. xs ! ((c + i) mod length xs)"
  have "[0..<?n + k * ?n] = [0..<?n] @ map (\<lambda>i. i + ?n) [0..<k * ?n]"
    using upt_add_eq_append [of 0 ?n "k * ?n"] by (simp add: map_add_upt add.commute)
  then have "[0..<Suc k * ?n] = [0..<?n] @ map (\<lambda>i. ?n + i) [0..<k * ?n]" by (simp add: add.commute)
  then have "mset (map (?f c) [0..<Suc k * ?n]) =
      mset (map (?f c) [0..<?n]) + mset (map (\<lambda>i. ?f c (?n + i)) [0..<k * ?n])"
    by (simp only: map_append mset_append map_map comp_def)
  also have "(\<lambda>i. ?f c (?n + i)) = ?f c"
    by (rule ext) (metis add.left_commute mod_add_self1)
  finally show ?case using Suc.IH mset_rotation [OF assms] by simp
qed simp

text \<open>Property C36: over any \<open>k * n\<close> calls on one list of \<open>n\<close> addresses, round robin returns every
  address exactly \<open>k\<close> times (as often as it is listed, times \<open>k\<close>), whatever its counter was.\<close>

theorem roundRobin_fair:
  assumes "as \<noteq> []" "routers_ok r"
    and "go_get 0 (rr_counter r) (listHash as) + int (k * length as) \<le> i64_max"
  shows "mset (fst (routes (roundRobin_Route as) (k * length as) r)) = repeat_mset k (mset (map Ok as))"
proof -
  let ?c = "nat (go_get 0 (rr_counter r) (listHash as))"
  have "fst (routes (roundRobin_Route as) (k * length as) r) =
      map Ok (map (\<lambda>i. as ! ((?c + i) mod length as)) [0..<k * length as])"
    using roundRobin_routes [OF assms(1) refl routers_ok_get [OF assms(2)] assms(3)] by (simp add: comp_def)
  then have "mset (fst (routes (roundRobin_Route as) (k * length as) r)) =
      image_mset Ok (repeat_mset k (mset as))"
    using mset_rotations [OF assms(1), of ?c k] by (metis mset_map)
  also have "\<dots> = repeat_mset k (mset (map Ok as))" by (induction k) simp_all
  finally show ?thesis .
qed

lemma roundRobin_fair_witness:
  "mset (fst (routes (roundRobin_Route [''a'', ''b'']) 6 routers_init)) = repeat_mset 3 {#Ok ''a'', Ok ''b''#}"
  using roundRobin_fair [of "[''a'', ''b'']" routers_init 3]
  by (simp add: routers_ok_def routers_init_def i64_max_def)

definition balanced :: "string list \<Rightarrow> routers \<Rightarrow> bool" where
  "balanced as r \<longleftrightarrow> (\<forall>a \<in> set as. \<forall>b \<in> set as. go_get 0 (lfu_count r) a \<le> go_get 0 (lfu_count r) b + 1)"

definition lfu_total :: "string list \<Rightarrow> routers \<Rightarrow> int" where
  "lfu_total as r = (\<Sum>a \<in> set as. go_get 0 (lfu_count r) a)"

definition lfu_room :: "nat \<Rightarrow> string list \<Rightarrow> routers \<Rightarrow> bool" where
  "lfu_room n as r \<longleftrightarrow> (\<forall>a \<in> set as. 0 \<le> go_get 0 (lfu_count r) a \<and> go_get 0 (lfu_count r) a + int n \<le> i64_max)"

lemma lfu_step:
  assumes "as \<noteq> []" "balanced as r" "lfu_room (Suc n) as r" "lfu_Route as r = (res, r')"
  shows "balanced as r' \<and> lfu_room n as r' \<and> lfu_total as r' = lfu_total as r + 1"
proof (rule lfu_Route_ok [OF assms(1,4)])
  let ?c = "go_get 0 (lfu_count r)"
  fix a assume a: "a \<in> set as" "\<And>b. b \<in> set as \<Longrightarrow> ?c a \<le> ?c b"
    and r': "r' = r\<lparr>lfu_count := (lfu_count r)(a \<mapsto> i64 (?c a + 1))\<rparr>"
  have "i64 (?c a + 1) = ?c a + 1" using assms(3) a(1) by (intro i64_succ) (auto simp: lfu_room_def)
  then have g: "go_get 0 (lfu_count r') b = (if b = a then ?c a + 1 else ?c b)" for b
    by (simp add: r' del: fun_upd_apply)
  have "lfu_total as r' = (\<Sum>b \<in> set as. ?c b + (if b = a then 1 else 0))"
    unfolding lfu_total_def g by (rule sum.cong) auto
  then have "lfu_total as r' = lfu_total as r + 1" using a(1) by (simp add: sum.distrib lfu_total_def)
  moreover have "balanced as r'"
    unfolding balanced_def g
  proof (intro ballI)
    fix x y assume "x \<in> set as" "y \<in> set as"
    then show "(if x = a then ?c a + 1 else ?c x) \<le> (if y = a then ?c a + 1 else ?c y) + 1"
      using a(2) [of y] assms(2) a(1) by (auto simp: balanced_def) force
  qed
  moreover have "lfu_room n as r'"
    unfolding lfu_room_def g
  proof (intro ballI)
    fix x assume "x \<in> set as"
    then show "0 \<le> (if x = a then ?c a + 1 else ?c x) \<and> (if x = a then ?c a + 1 else ?c x) + int n \<le> i64_max"
      using assms(3) by (auto simp: lfu_room_def)
  qed
  ultimately show ?thesis by blast
qed

text \<open>LFU keeps the use counts of a fixed list of addresses within one of each other: each
  call returns an address with the smallest count and counts only that one up.\<close>

lemma lfu_balanced:
  assumes "as \<noteq> []" "balanced as r" "lfu_room n as r"
  shows "balanced as (snd (routes (lfu_Route as) n r)) \<and>
    lfu_total as (snd (routes (lfu_Route as) n r)) = lfu_total as r + int n"
  using assms(2,3)
proof (induction n arbitrary: r)
  case (Suc n)
  obtain res r' where e: "lfu_Route as r = (res, r')" by (rule prod.exhaust)
  note S = lfu_step [OF assms(1) Suc.prems e]
  then show ?case using Suc.IH [of r'] e by (simp add: case_prod_beta)
qed simp

lemma lfu_balanced_witness:
  "balanced [''a'', ''b'', ''c''] (snd (routes (lfu_Route [''a'', ''b'', ''c'']) 1000 routers_init))"
  using lfu_balanced [of "[''a'', ''b'', ''c'']" routers_init 1000]
  by (simp add: balanced_def lfu_room_def routers_init_def i64_max_def)

fun lru_routes :: "string list \<Rightarrow> time list \<Rightarrow> routers \<Rightarrow> string go_result list" where
  "lru_routes as [] r = []"
| "lru_routes as (t # ts) r = (let (x, r1) = lru_Route as t r in x # lru_routes as ts r1)"

lemma lru_routes_distinct:
  assumes "as \<noteq> []" "\<forall>t \<in> set ts. T \<le> t" "\<forall>a \<in> set as - U. go_get zero_time (lru_lastUsed r) a < T"
    "\<forall>a \<in> U. T \<le> go_get zero_time (lru_lastUsed r) a" "length ts \<le> card (set as - U)"
  shows "distinct (lru_routes as ts r) \<and> set (lru_routes as ts r) \<subseteq> Ok ` (set as - U)"
  using assms(2-)
proof (induction ts arbitrary: r U)
  case (Cons t ts)
  let ?g = "go_get zero_time (lru_lastUsed r)"
  obtain res r' where e: "lru_Route as t r = (res, r')" by (rule prod.exhaust)
  obtain a where a: "res = Ok a" "a \<in> set as" "\<And>b. b \<in> set as \<Longrightarrow> ?g a \<le> ?g b"
    "r' = r\<lparr>lru_lastUsed := (lru_lastUsed r)(a \<mapsto> t)\<rparr>" by (rule lru_Route_ok [OF assms(1) e]) blast
  have "set as - U \<noteq> {}" using Cons.prems(4) by (metis card.empty length_Cons not_less_eq_eq zero_le)
  then obtain b where b: "b \<in> set as - U" by blast
  have "?g a < T" using a(3) [of b] b Cons.prems(2) by (meson DiffD1 le_less_trans)
  then have "a \<notin> U" using Cons.prems(3) by (meson leD)
  then have aU: "a \<in> set as - U" using a(2) by simp
  have g': "go_get zero_time (lru_lastUsed r') c = (if c = a then t else ?g c)" for c
    by (simp add: a(4) del: fun_upd_apply)
  have "set as - insert a U = (set as - U) - {a}" by blast
  then have "length ts \<le> card (set as - insert a U)" using Cons.prems(4) aU by simp
  then have "distinct (lru_routes as ts r') \<and> set (lru_routes as ts r') \<subseteq> Ok ` (set as - insert a U)"
    by (intro Cons.IH) (use Cons.prems(1-3) g' in auto)
  then show ?case using e a(1) aU by auto
qed simp

text \<open>LRU visits all \<open>n\<close> addresses in any \<open>n\<close> calls in a row, at times later than every
  earlier use of them.\<close>

lemma lru_visits_all:
  assumes "distinct as" "as \<noteq> []" "length ts = length as"
    and "\<forall>t \<in> set ts. \<forall>a \<in> set as. go_get zero_time (lru_lastUsed r) a < t"
  shows "mset (lru_routes as ts r) = mset (map Ok as)"
proof -
  let ?T = "Min (set ts)"
  have ts: "set ts \<noteq> {}" using assms(2,3) by auto
  then have T: "\<forall>a \<in> set as. go_get zero_time (lru_lastUsed r) a < ?T" "\<forall>t \<in> set ts. ?T \<le> t"
    using assms(4) by simp_all
  have D: "distinct (lru_routes as ts r)" "set (lru_routes as ts r) \<subseteq> Ok ` set as"
    using lru_routes_distinct [OF assms(2) T(2), of "{}" r] T(1) assms(1,3) by (auto simp: distinct_card)
  have "length (lru_routes as ts r) = length ts"
    by (induction ts arbitrary: r) (simp_all add: case_prod_beta)
  then have "card (set (lru_routes as ts r)) = card (Ok ` set as)"
    using assms(1,3) D(1) by (simp add: distinct_card card_image inj_on_def)
  then have "set (lru_routes as ts r) = Ok ` set as" using D(2) by (simp add: card_subset_eq)
  then have "mset (lru_routes as ts r) = mset_set (Ok ` set as)" using D(1) by (metis mset_set_set)
  also have "\<dots> = mset (map Ok as)" using assms(1) by (metis distinct_map inj_on_def list.set_map mset_set_set go_result.inject(1))
  finally show ?thesis .
qed

lemma lru_visits_all_witness:
  "mset (lru_routes [''a'', ''b'', ''c''] [5, 6, 7] routers_init) = {#Ok ''a'', Ok ''b'', Ok ''c''#}"
  using lru_visits_all [of "[''a'', ''b'', ''c'']" "[5, 6, 7]" routers_init]
  by (simp add: routers_init_def zero_time_def)

end
