(* ===== verification/Go_Float.thy ===== *)
theory Go_Float
  imports Complex_Main
begin

text \<open>
  Go's \<open>float64\<close>: a finite value is the real number it stands for, and every operation gives the exact result
  rounded by \<open>f64\<close> to the nearest value, ties to the even significand, with 53 bits and the exponent
  of subnormal numbers at the lower end. There is no upper end: where the source overflows to infinity the
  model has a number above every finite value instead, which compares the same way. NaN and the sign of
  zero do not occur. The lemmas bound the error of one rounding and say that it stays between two values.
\<close>

section \<open>Rounding\<close>

definition round_even :: "real \<Rightarrow> int" where
  "round_even z =
     (let n = \<lfloor>z\<rfloor>; d = z - real_of_int n
      in if d < 1 / 2 then n else if 1 / 2 < d then n + 1 else if even n then n else n + 1)"

definition f64_exp :: "real \<Rightarrow> int" where
  "f64_exp x = max (\<lfloor>log 2 \<bar>x\<bar>\<rfloor> - 52) (- 1074)"

definition f64 :: "real \<Rightarrow> real" where
  "f64 x = (if x = 0 then 0
     else real_of_int (round_even (x / 2 powr real_of_int (f64_exp x))) * 2 powr real_of_int (f64_exp x))"

definition is_f64 :: "real \<Rightarrow> bool" where
  "is_f64 y \<longleftrightarrow> (\<exists>m e :: int. y = real_of_int m * 2 powr real_of_int e \<and> \<bar>m\<bar> \<le> 2 ^ 53 \<and> - 1074 \<le> e)"

lemma round_even_error: "\<bar>real_of_int (round_even z) - z\<bar> \<le> 1 / 2"
  unfolding round_even_def Let_def using floor_correct [of z] by (auto simp: abs_le_iff)

lemma round_even_int [simp]: "round_even (real_of_int k) = k"
  by (simp add: round_even_def)

lemma round_even_le: "z \<le> real_of_int k \<Longrightarrow> round_even z \<le> k"
proof -
  assume z: "z \<le> real_of_int k"
  have "\<lfloor>z\<rfloor> < k \<or> z = real_of_int k" using z by (auto simp: floor_less_iff)
  then show ?thesis by (auto simp: round_even_def Let_def)
qed

lemma round_even_nonneg: "0 \<le> z \<Longrightarrow> 0 \<le> round_even z"
  by (simp add: round_even_def Let_def)

lemma f64_0 [simp]: "f64 0 = 0" by (simp add: f64_def)

lemma f64_nonneg: "0 \<le> x \<Longrightarrow> 0 \<le> f64 x"
  by (simp add: f64_def round_even_nonneg)

lemma log_bounds:
  assumes "0 < x"
  shows "2 powr real_of_int \<lfloor>log 2 x\<rfloor> \<le> x" "x < 2 powr real_of_int (\<lfloor>log 2 x\<rfloor> + 1)"
  using floor_log_eq_powr_iff [of x 2 "\<lfloor>log 2 x\<rfloor>"] assms by auto

lemma f64_exp_bounds:
  assumes "0 < x"
  shows "x < 2 powr real_of_int (f64_exp x + 53)" "- 1074 \<le> f64_exp x"
    "- 1074 < f64_exp x \<Longrightarrow> 2 powr real_of_int (f64_exp x + 52) \<le> x"
proof -
  have "\<lfloor>log 2 x\<rfloor> + 1 \<le> f64_exp x + 53" using assms by (simp add: f64_exp_def)
  then have "(2::real) powr real_of_int (\<lfloor>log 2 x\<rfloor> + 1) \<le> 2 powr real_of_int (f64_exp x + 53)" by (intro powr_mono) linarith+
  then show "x < 2 powr real_of_int (f64_exp x + 53)" using log_bounds(2) [OF assms] by linarith
  show "- 1074 \<le> f64_exp x" by (simp add: f64_exp_def)
  show "2 powr real_of_int (f64_exp x + 52) \<le> x" if "- 1074 < f64_exp x"
    using log_bounds(1) [OF assms] that assms by (simp add: f64_exp_def max_def split: if_splits)
qed

text \<open>Half a unit in the last place: a relative error of at most \<open>2\<^sup>-\<^sup>5\<^sup>3\<close>, or half the least subnormal.\<close>

lemma f64_error:
  assumes "0 \<le> x"
  shows "\<bar>f64 x - x\<bar> \<le> x / 2 ^ 53 + 2 powr - 1075"
proof (cases "x = 0")
  case False
  let ?e = "f64_exp x" let ?u = "2 powr real_of_int ?e :: real"
  have x: "0 < x" using False assms by simp
  have "f64 x - x = (real_of_int (round_even (x / ?u)) - x / ?u) * ?u" using False by (simp add: f64_def left_diff_distrib)
  then have "\<bar>f64 x - x\<bar> = \<bar>real_of_int (round_even (x / ?u)) - x / ?u\<bar> * ?u" by (simp add: abs_mult)
  also have "\<dots> \<le> 1 / 2 * ?u" by (rule mult_right_mono [OF round_even_error]) simp
  finally have e: "\<bar>f64 x - x\<bar> \<le> ?u / 2" by simp
  show ?thesis
  proof (cases "- 1074 < ?e")
    case True
    have "?u * 2 ^ 52 = 2 powr real_of_int (?e + 52)" by (simp add: powr_add powr_realpow [symmetric])
    then have "?u * 2 ^ 52 \<le> x" using f64_exp_bounds(3) [OF x True] by simp
    then have "?u / 2 \<le> x / 2 ^ 53" by simp
    moreover have "0 \<le> (2::real) powr - 1075" by simp
    ultimately show ?thesis using e by linarith
  next
    case low: False
    then have "?e = - 1074" using f64_exp_bounds(2) [OF x] by simp
    then have "?u / 2 = 2 powr - 1075" using powr_diff [of "2 :: real" "- 1074" 1] by simp
    moreover have "0 \<le> x / 2 ^ 53" using x by simp
    ultimately show ?thesis using e by linarith
  qed
qed simp

text \<open>A value that is not below \<open>x\<close> is a multiple of the unit of \<open>x\<close>.\<close>

lemma is_f64_multiple:
  assumes "is_f64 y" "0 < x" "x \<le> y"
  shows "\<exists>k :: int. y = real_of_int k * 2 powr real_of_int (f64_exp x)"
proof -
  obtain m e where y: "y = real_of_int m * 2 powr real_of_int e" "\<bar>m\<bar> \<le> 2 ^ 53" "- 1074 \<le> e"
    using assms(1) by (auto simp: is_f64_def)
  show ?thesis
  proof (cases "f64_exp x \<le> e")
    case True
    then obtain n where n: "e = f64_exp x + int n" by (metis zle_iff_zadd)
    have "y = real_of_int (m * 2 ^ n) * 2 powr real_of_int (f64_exp x)" by (simp add: y(1) n powr_add powr_realpow)
    then show ?thesis by blast
  next
    case False
    then have low: "2 powr real_of_int (f64_exp x + 52) \<le> x" using f64_exp_bounds(3) [OF assms(2)] y(3) by simp
    have "m \<le> 2 ^ 53" using y(2) by (simp only: abs_le_iff)
    then have "real_of_int m \<le> 2 ^ 53" by simp
    then have "y \<le> 2 ^ 53 * 2 powr real_of_int e" unfolding y(1) by (rule mult_right_mono) simp
    also have "\<dots> = 2 powr real_of_int (e + 53)" by (simp add: powr_add powr_realpow [symmetric])
    also have "\<dots> \<le> 2 powr real_of_int (f64_exp x + 52)" using False by (intro powr_mono) linarith+
    finally have "y = 2 powr real_of_int (f64_exp x + 52)" using low assms(3) by linarith
    also have "\<dots> = real_of_int (2 ^ 52) * 2 powr real_of_int (f64_exp x)" by (simp add: powr_add powr_realpow [symmetric])
    finally show ?thesis by blast
  qed
qed

lemma f64_le:
  assumes "0 \<le> x" "x \<le> y" "is_f64 y"
  shows "f64 x \<le> y"
proof (cases "x = 0")
  case False
  then have x: "0 < x" using assms(1) by simp
  let ?u = "2 powr real_of_int (f64_exp x) :: real"
  obtain k :: int where k: "y = real_of_int k * ?u" using is_f64_multiple [OF assms(3) x assms(2)] by blast
  have "x / ?u \<le> real_of_int k" using assms(2) by (simp add: k pos_divide_le_eq)
  then have "real_of_int (round_even (x / ?u)) \<le> real_of_int k" using round_even_le by simp
  then show ?thesis using False by (simp add: f64_def k)
qed (use assms in simp)

lemma f64_id: "is_f64 y \<Longrightarrow> 0 \<le> y \<Longrightarrow> f64 y = y"
proof (cases "y = 0")
  case False
  assume y: "is_f64 y" "0 \<le> y"
  then obtain k :: int where k: "y = real_of_int k * 2 powr real_of_int (f64_exp y)"
    using is_f64_multiple [of y y] False by auto
  then have "y / 2 powr real_of_int (f64_exp y) = real_of_int k" by (metis divide_eq_eq powr_eq_0_iff zero_neq_numeral)
  then show ?thesis using False k by (simp add: f64_def)
qed simp

lemma is_f64_f64: "0 \<le> x \<Longrightarrow> is_f64 (f64 x)"
proof (cases "x = 0")
  case True
  then show ?thesis unfolding is_f64_def by (intro exI [of _ 0]) simp
next
  case False
  assume "0 \<le> x"
  then have x: "0 < x" using False by simp
  let ?u = "2 powr real_of_int (f64_exp x) :: real"
  have "x / ?u \<le> real_of_int (2 ^ 53)"
    using f64_exp_bounds(1) [OF x] by (simp add: pos_divide_le_eq powr_add powr_realpow [symmetric] mult.commute)
  then have "\<bar>round_even (x / ?u)\<bar> \<le> 2 ^ 53" using round_even_le round_even_nonneg [of "x / ?u"] x by simp
  then show ?thesis using False f64_exp_bounds(2) [OF x] unfolding is_f64_def f64_def by auto
qed

text \<open>Integers of up to 53 bits are values, and a rounding is known from the exponent of its argument.\<close>

lemma is_f64_int: "\<bar>m\<bar> \<le> 2 ^ 53 \<Longrightarrow> is_f64 (real_of_int m)"
  unfolding is_f64_def by (intro exI [of _ m] exI [of _ 0]) simp

lemma f64_int: "0 \<le> m \<Longrightarrow> m \<le> 2 ^ 53 \<Longrightarrow> f64 (real_of_int m) = real_of_int m"
  by (rule f64_id) (simp_all add: is_f64_int)

lemma f64_eval:
  assumes "2 powr real_of_int (e + 52) \<le> x" "x < 2 powr real_of_int (e + 53)" "- 1074 \<le> e"
  shows "f64 x = real_of_int (round_even (x / 2 powr real_of_int e)) * 2 powr real_of_int e"
proof -
  have x: "0 < x" using assms(1) powr_gt_zero [of 2 "real_of_int (e + 52)"] by linarith
  then have "\<lfloor>log 2 x\<rfloor> = e + 52" using floor_log_eq_powr_iff [of x 2 "e + 52"] assms(1,2) by (simp add: add.assoc)
  then have "f64_exp x = e" using x assms(3) by (simp add: f64_exp_def)
  then show ?thesis using x by (simp add: f64_def)
qed

end
