(* ===== verification/Rate_Limit.thy ===== *)
theory Rate_Limit
  imports Go_Prelude Go_Float
begin

text \<open>
  \<open>pkg/ratelimit/ratelimit.go\<close>: token bucket, fixed-window quota, their combination per key, and the
  registry the scheduler asks before a trigger.

  \<open>float64\<close> values are the reals of \<open>Go_Float\<close>, and every operation on them is rounded as on amd64, where the
  compiler does not fuse a product with a sum. \<open>time.Now()\<close> is the argument \<open>now\<close> of each call. A limiter lives in the registry under its key; the pointer that \<open>Register\<close> and \<open>Get\<close> return is
  that key.
\<close>

datatype rl_error = ErrRateLimitExceeded | ErrQuotaExceeded

section \<open>Token bucket\<close>

record TokenBucket =
  tb_rate :: real
  tb_capacity :: real
  tb_tokens :: real
  tb_lastRefill :: time

definition NewTokenBucket :: "time \<Rightarrow> real \<Rightarrow> real \<Rightarrow> TokenBucket" where
  "NewTokenBucket now rate capacity =
     (let cap = (if capacity \<le> 0 then rate else capacity)
      in \<lparr>tb_rate = rate, tb_capacity = cap, tb_tokens = cap, tb_lastRefill = now\<rparr>)"

definition minF :: "real \<Rightarrow> real \<Rightarrow> real" where
  "minF a b = (if a < b then a else b)"

text \<open>\<open>Duration.Seconds\<close> of the standard library.\<close>

definition seconds :: "duration \<Rightarrow> real" where
  "seconds d = f64 (f64 (real_of_int (go_div d second)) + f64 (f64 (real_of_int (go_mod d second)) / 1000000000))"

definition refilled :: "time \<Rightarrow> TokenBucket \<Rightarrow> real" where
  "refilled now tb =
     (let elapsed = seconds (time_sub now (tb_lastRefill tb))
      in minF (tb_capacity tb) (f64 (tb_tokens tb + f64 (elapsed * tb_rate tb))))"

definition tb_AllowN :: "time \<Rightarrow> real \<Rightarrow> TokenBucket \<Rightarrow> rl_error option \<times> TokenBucket" where
  "tb_AllowN now n tb =
     (let tb1 = tb\<lparr>tb_tokens := refilled now tb, tb_lastRefill := now\<rparr>
      in if tb_tokens tb1 < n then (Some ErrRateLimitExceeded, tb1)
         else (None, tb1\<lparr>tb_tokens := f64 (tb_tokens tb1 - n)\<rparr>))"

definition tb_Allow :: "time \<Rightarrow> TokenBucket \<Rightarrow> rl_error option \<times> TokenBucket" where
  "tb_Allow now tb = tb_AllowN now 1 tb"

definition tb_Available :: "time \<Rightarrow> TokenBucket \<Rightarrow> real" where
  "tb_Available now tb = refilled now tb"

definition tb_Reset :: "time \<Rightarrow> TokenBucket \<Rightarrow> TokenBucket" where
  "tb_Reset now tb = tb\<lparr>tb_tokens := tb_capacity tb, tb_lastRefill := now\<rparr>"

section \<open>Fixed-window quota\<close>

record FixedWindowQuota =
  q_windowNs :: int
  q_limit :: int
  q_count :: int
  q_winKey :: int

definition window_key :: "time \<Rightarrow> duration \<Rightarrow> int" where
  "window_key now w = go_div now w"

definition NewFixedWindowQuota :: "time \<Rightarrow> duration \<Rightarrow> int \<Rightarrow> FixedWindowQuota go_result" where
  "NewFixedWindowQuota now window limit =
     (if window = 0 then Panic
      else Ok \<lparr>q_windowNs = window, q_limit = limit, q_count = 0, q_winKey = window_key now window\<rparr>)"

definition q_Allow :: "time \<Rightarrow> FixedWindowQuota \<Rightarrow> rl_error option \<times> FixedWindowQuota" where
  "q_Allow now q =
     (let key = window_key now (q_windowNs q);
          q1 = (if key \<noteq> q_winKey q then q\<lparr>q_winKey := key, q_count := 0\<rparr> else q)
      in if q_count q1 \<ge> q_limit q1 then (Some ErrQuotaExceeded, q1)
         else (None, q1\<lparr>q_count := i64 (q_count q1 + 1)\<rparr>))"

definition q_Count :: "time \<Rightarrow> FixedWindowQuota \<Rightarrow> int" where
  "q_Count now q = (if window_key now (q_windowNs q) \<noteq> q_winKey q then 0 else q_count q)"

definition q_Remaining :: "time \<Rightarrow> FixedWindowQuota \<Rightarrow> int" where
  "q_Remaining now q = (let r = i64 (q_limit q - q_Count now q) in if r > 0 then r else 0)"

section \<open>Limiter\<close>

record LimiterConfig =
  lc_Rate :: real
  lc_Burst :: real
  lc_QuotaWindow :: duration
  lc_QuotaLimit :: int

record Limiter =
  l_key :: string
  l_bucket :: "TokenBucket option"
  l_quota :: "FixedWindowQuota option"
  l_allowed :: int
  l_rejected :: int

definition NewLimiter :: "time \<Rightarrow> string \<Rightarrow> LimiterConfig \<Rightarrow> Limiter" where
  "NewLimiter now key cfg =
     \<lparr>l_key = key,
      l_bucket = (if lc_Rate cfg > 0 then Some (NewTokenBucket now (lc_Rate cfg) (lc_Burst cfg)) else None),
      l_quota = (if lc_QuotaWindow cfg > 0 \<and> lc_QuotaLimit cfg > 0
        then (case NewFixedWindowQuota now (lc_QuotaWindow cfg) (lc_QuotaLimit cfg) of Ok q \<Rightarrow> Some q | _ \<Rightarrow> None)
        else None),
      l_allowed = 0, l_rejected = 0\<rparr>"

definition l_reject :: "Limiter \<Rightarrow> Limiter" where
  "l_reject l = l\<lparr>l_rejected := i64 (l_rejected l + 1)\<rparr>"

definition l_Allow :: "time \<Rightarrow> Limiter \<Rightarrow> rl_error option \<times> Limiter" where
  "l_Allow now l =
     (let (err, l1) = (case l_bucket l of None \<Rightarrow> (None, l)
            | Some b \<Rightarrow> (let (e, b') = tb_Allow now b in (e, l\<lparr>l_bucket := Some b'\<rparr>)))
      in if err \<noteq> None then (err, l_reject l1)
         else let (err, l2) = (case l_quota l1 of None \<Rightarrow> (None, l1)
                | Some q \<Rightarrow> (let (e, q') = q_Allow now q in (e, l1\<lparr>l_quota := Some q'\<rparr>)))
              in if err \<noteq> None then (err, l_reject l2)
                 else (None, l2\<lparr>l_allowed := i64 (l_allowed l2 + 1)\<rparr>))"

record LimiterStats =
  ls_Key :: string
  ls_TotalAllowed :: int
  ls_TotalRejected :: int
  ls_HasBucket :: bool
  ls_BucketAvailable :: real
  ls_BucketRate :: real
  ls_BucketCapacity :: real
  ls_HasQuota :: bool
  ls_QuotaRemaining :: int
  ls_QuotaLimit :: int
  ls_QuotaWindow :: duration

definition l_Stats :: "time \<Rightarrow> Limiter \<Rightarrow> LimiterStats" where
  "l_Stats now l =
     (let s = \<lparr>ls_Key = l_key l, ls_TotalAllowed = l_allowed l, ls_TotalRejected = l_rejected l,
               ls_HasBucket = False, ls_BucketAvailable = 0, ls_BucketRate = 0, ls_BucketCapacity = 0,
               ls_HasQuota = False, ls_QuotaRemaining = 0, ls_QuotaLimit = 0, ls_QuotaWindow = 0\<rparr>;
          s1 = (case l_bucket l of None \<Rightarrow> s
                | Some b \<Rightarrow> s\<lparr>ls_HasBucket := True, ls_BucketAvailable := tb_Available now b,
                    ls_BucketRate := tb_rate b, ls_BucketCapacity := tb_capacity b\<rparr>)
      in case l_quota l of None \<Rightarrow> s1
         | Some q \<Rightarrow> s1\<lparr>ls_HasQuota := True, ls_QuotaRemaining := q_Remaining now q,
             ls_QuotaLimit := q_limit q, ls_QuotaWindow := q_windowNs q\<rparr>)"

section \<open>Registry\<close>

type_synonym RLRegistry = "string \<rightharpoonup> Limiter"

definition AppKey :: "string \<Rightarrow> string" where "AppKey appName = ''app:'' @ appName"

definition JobKey :: "int \<Rightarrow> string" where "JobKey jobID = ''job:'' @ itoa jobID"

definition NewRegistry :: RLRegistry where "NewRegistry = Map.empty"

definition rl_Register :: "time \<Rightarrow> string \<Rightarrow> LimiterConfig \<Rightarrow> RLRegistry \<Rightarrow> RLRegistry" where
  "rl_Register now key cfg r = r(key \<mapsto> NewLimiter now key cfg)"

definition rl_RegisterApp :: "time \<Rightarrow> string \<Rightarrow> LimiterConfig \<Rightarrow> RLRegistry \<Rightarrow> RLRegistry" where
  "rl_RegisterApp now appName cfg r = rl_Register now (AppKey appName) cfg r"

definition rl_RegisterJob :: "time \<Rightarrow> int \<Rightarrow> LimiterConfig \<Rightarrow> RLRegistry \<Rightarrow> RLRegistry" where
  "rl_RegisterJob now jobID cfg r = rl_Register now (JobKey jobID) cfg r"

definition rl_Deregister :: "string \<Rightarrow> RLRegistry \<Rightarrow> RLRegistry" where
  "rl_Deregister key r = r(key := None)"

definition rl_Get :: "string \<Rightarrow> RLRegistry \<Rightarrow> Limiter option" where
  "rl_Get key r = r key"

text \<open>The two ways \<open>CheckJob\<close> wraps the limiter's error.\<close>

datatype check_error = JobRateLimited int rl_error | AppRateLimited string rl_error

definition rl_CheckJob :: "time \<Rightarrow> string \<Rightarrow> int \<Rightarrow> RLRegistry \<Rightarrow> check_error option \<times> RLRegistry" where
  "rl_CheckJob now appName jobID r =
     (let (err, r1) = (case rl_Get (JobKey jobID) r of None \<Rightarrow> (None, r)
            | Some l \<Rightarrow> (let (e, l') = l_Allow now l in (e, r(JobKey jobID \<mapsto> l'))))
      in case err of Some e \<Rightarrow> (Some (JobRateLimited jobID e), r1)
         | None \<Rightarrow>
             let (err, r2) = (case rl_Get (AppKey appName) r1 of None \<Rightarrow> (None, r1)
                   | Some l \<Rightarrow> (let (e, l') = l_Allow now l in (e, r1(AppKey appName \<mapsto> l'))))
             in case err of Some e \<Rightarrow> (Some (AppRateLimited appName e), r2) | None \<Rightarrow> (None, r2))"

definition rl_AllStats :: "time \<Rightarrow> string list \<Rightarrow> RLRegistry \<Rightarrow> LimiterStats list" where
  "rl_AllStats now ord r = map (\<lambda>(k, l). l_Stats now l) (go_range r ord)"

definition rl_Len :: "RLRegistry \<Rightarrow> nat" where "rl_Len r = map_len r"

lemma JobKey_neq_AppKey [simp]: "JobKey i \<noteq> AppKey a" "AppKey a \<noteq> JobKey i"
  by (simp_all add: JobKey_def AppKey_def)

section \<open>The bucket bounds the rate\<close>

definition bucket_ok :: "TokenBucket \<Rightarrow> bool" where
  "bucket_ok tb \<longleftrightarrow> 0 \<le> tb_rate tb \<and> 0 \<le> tb_tokens tb \<and> tb_tokens tb \<le> tb_capacity tb \<and>
     is_f64 (tb_tokens tb) \<and> is_f64 (tb_capacity tb)"

fun tb_calls :: "time list \<Rightarrow> TokenBucket \<Rightarrow> rl_error option list \<times> TokenBucket" where
  "tb_calls [] tb = ([], tb)"
| "tb_calls (t # ts) tb =
     (let (x, tb1) = tb_Allow t tb; (xs, tb2) = tb_calls ts tb1 in (x # xs, tb2))"

lemma NewTokenBucket_ok: "0 \<le> rate \<Longrightarrow> is_f64 rate \<Longrightarrow> is_f64 cap \<Longrightarrow> bucket_ok (NewTokenBucket now rate cap)"
  by (simp add: bucket_ok_def NewTokenBucket_def)

lemma time_sub_nonneg: "a \<le> b \<Longrightarrow> 0 \<le> time_sub b a"
  by (auto simp: time_sub_def i64_min_def i64_max_def)

lemma time_sub_le: "a \<le> b \<Longrightarrow> time_sub b a \<le> b - a"
  by (auto simp: time_sub_def i64_min_def i64_max_def)

lemma time_sub_max: "time_sub b a \<le> i64_max"
  by (auto simp: time_sub_def i64_min_def i64_max_def)

text \<open>One rounding, with a slack that also covers the subnormal numbers.\<close>

definition tiny :: real where "tiny = 2 powr - 1075"

lemma tiny: "0 < tiny" "tiny \<le> 1 / 2 ^ 60"
proof -
  have "tiny \<le> 2 powr - 60" unfolding tiny_def by (rule powr_mono) auto
  then show "tiny \<le> 1 / 2 ^ 60" by (simp add: powr_minus powr_realpow [symmetric] divide_simps)
qed (simp add: tiny_def)

lemma f64_upper: "0 \<le> x \<Longrightarrow> f64 x \<le> x * (1 + 1 / 2 ^ 53) + tiny"
  using f64_error [of x] unfolding tiny_def by (simp add: abs_le_iff algebra_simps)

lemma f64_upper_le:
  assumes "0 \<le> x" "x \<le> y"
  shows "f64 x \<le> y * (1 + 1 / 2 ^ 53) + tiny"
proof -
  have "x * (1 + 1 / 2 ^ 53) \<le> y * (1 + 1 / 2 ^ 53)" using assms(2) by (rule mult_right_mono) simp
  then show ?thesis using f64_upper [OF assms(1)] by linarith
qed

lemma f64_within:
  assumes "0 \<le> x" "x \<le> c"
  shows "f64 x \<le> x + (c / 2 ^ 53 + tiny)"
proof -
  have "x / 2 ^ 53 \<le> c / 2 ^ 53" using assms(2) by (rule divide_right_mono) simp
  moreover have "f64 x - x \<le> x / 2 ^ 53 + tiny"
    using f64_error [OF assms(1)] unfolding tiny_def abs_le_iff by (rule conjunct1)
  ultimately show ?thesis by linarith
qed

text \<open>The seconds of a duration, exactly and as computed.\<close>

definition exact_seconds :: "duration \<Rightarrow> real" where
  "exact_seconds d = real_of_int d / 1000000000"

lemma exact_seconds_add: "exact_seconds a + exact_seconds b = exact_seconds (a + b)"
  by (simp add: exact_seconds_def add_divide_distrib)

lemma seconds_bounds:
  assumes "0 \<le> d" "d \<le> i64_max"
  shows "0 \<le> seconds d" "seconds d \<le> exact_seconds d * (1 + 1 / 2 ^ 53) ^ 2 + 3 * tiny"
proof -
  define q where "q = d div second"
  define r where "r = d mod second"
  have qr: "0 \<le> q" "q \<le> 2 ^ 53" "0 \<le> r" "r \<le> 2 ^ 53" "d = q * second + r"
    using assms by (simp_all add: q_def r_def second_def i64_max_def)
  have D: "exact_seconds d = real_of_int q + real_of_int r / 1000000000"
    by (simp add: exact_seconds_def qr(5) second_def add_divide_distrib)
  have sd: "seconds d = f64 (real_of_int q + f64 (real_of_int r / 1000000000))"
  proof -
    have "go_div d second = q" "go_mod d second = r"
      using assms(1) by (simp_all add: q_def r_def go_div_nonneg go_mod_nonneg second_def)
    then show ?thesis by (simp only: seconds_def f64_int [OF qr(1,2)] f64_int [OF qr(3,4)])
  qed
  have nn: "0 \<le> f64 (real_of_int r / 1000000000)" using qr(3) by (simp add: f64_nonneg)
  then show "0 \<le> seconds d" using qr(1) by (simp add: sd f64_nonneg)
  have "f64 (real_of_int r / 1000000000) \<le> real_of_int r / 1000000000 * (1 + 1 / 2 ^ 53) + tiny"
    using qr(3) by (intro f64_upper) simp
  moreover have "real_of_int q \<le> real_of_int q * (1 + 1 / 2 ^ 53)" using qr(1) by simp
  ultimately have "real_of_int q + f64 (real_of_int r / 1000000000) \<le> exact_seconds d * (1 + 1 / 2 ^ 53) + tiny"
    unfolding D distrib_right by linarith
  then have "seconds d \<le> (exact_seconds d * (1 + 1 / 2 ^ 53) + tiny) * (1 + 1 / 2 ^ 53) + tiny"
    unfolding sd using nn qr(1) by (intro f64_upper_le) simp_all
  also have "\<dots> = exact_seconds d * (1 + 1 / 2 ^ 53) ^ 2 + (tiny * (1 + 1 / 2 ^ 53) + tiny)"
    by (simp only: power2_eq_square algebra_simps)
  also have "\<dots> \<le> exact_seconds d * (1 + 1 / 2 ^ 53) ^ 2 + 3 * tiny" using tiny(1) by simp
  finally show "seconds d \<le> exact_seconds d * (1 + 1 / 2 ^ 53) ^ 2 + 3 * tiny" .
qed

definition growth :: real where "growth = 1 + 1 / 2 ^ 51"

text \<open>The product of the seconds and the rate has three roundings.\<close>

lemma earned_bounds:
  assumes "0 \<le> d" "d \<le> i64_max" "0 \<le> rate"
  shows "0 \<le> f64 (seconds d * rate)"
    "f64 (seconds d * rate) \<le> exact_seconds d * rate * growth + (4 * rate + 1) * tiny"
proof -
  let ?u = "1 + 1 / 2 ^ 53 :: real"
  note S = seconds_bounds [OF assms(1,2)]
  have D: "0 \<le> exact_seconds d * rate" using assms by (simp add: exact_seconds_def)
  show "0 \<le> f64 (seconds d * rate)" using S(1) assms(3) by (simp add: f64_nonneg)
  have "f64 (seconds d * rate) \<le> (exact_seconds d * ?u ^ 2 + 3 * tiny) * rate * ?u + tiny"
    by (rule f64_upper_le) (use S assms(3) in \<open>simp_all add: mult_right_mono\<close>)
  also have "\<dots> = exact_seconds d * rate * ?u ^ 3 + (rate * (3 * ?u) + 1) * tiny"
    by (simp only: power2_eq_square power3_eq_cube algebra_simps)
  also have "\<dots> \<le> exact_seconds d * rate * growth + (rate * 4 + 1) * tiny"
    using D assms(3) tiny(1) by (intro add_mono mult_left_mono mult_right_mono) (simp_all add: power3_eq_cube growth_def)
  finally show "f64 (seconds d * rate) \<le> exact_seconds d * rate * growth + (4 * rate + 1) * tiny"
    by (simp add: mult.commute)
qed

definition slack :: "TokenBucket \<Rightarrow> real" where
  "slack tb = (tb_capacity tb + tb_rate tb + 1) / 2 ^ 51"

lemma refilled_bounds:
  assumes "bucket_ok tb" "tb_lastRefill tb \<le> now"
  shows "0 \<le> refilled now tb" "refilled now tb \<le> tb_capacity tb" "is_f64 (refilled now tb)"
    "refilled now tb \<le> tb_tokens tb + exact_seconds (now - tb_lastRefill tb) * tb_rate tb * growth +
       (tb_capacity tb / 2 ^ 53 + (4 * tb_rate tb + 2) * tiny)"
proof -
  let ?d = "time_sub now (tb_lastRefill tb)"
  let ?p = "f64 (seconds ?d * tb_rate tb)"
  have ok: "0 \<le> tb_rate tb" "0 \<le> tb_tokens tb" "tb_tokens tb \<le> tb_capacity tb" "is_f64 (tb_capacity tb)"
    using assms(1) by (simp_all add: bucket_ok_def)
  note P = earned_bounds [OF time_sub_nonneg [OF assms(2)] time_sub_max ok(1)]
  have "exact_seconds ?d * tb_rate tb * growth \<le> exact_seconds (now - tb_lastRefill tb) * tb_rate tb * growth"
    using time_sub_le [OF assms(2)] ok(1) by (intro mult_right_mono) (simp_all add: exact_seconds_def growth_def)
  then have p: "?p \<le> exact_seconds (now - tb_lastRefill tb) * tb_rate tb * growth + (4 * tb_rate tb + 1) * tiny"
    using P(2) by linarith
  have sum: "0 \<le> tb_tokens tb + ?p" using ok(2) P(1) by simp
  have eq: "refilled now tb = (if tb_capacity tb < f64 (tb_tokens tb + ?p) then tb_capacity tb else f64 (tb_tokens tb + ?p))"
    by (simp add: refilled_def minF_def)
  show "0 \<le> refilled now tb" "refilled now tb \<le> tb_capacity tb" using ok sum by (auto simp: eq f64_nonneg)
  show "is_f64 (refilled now tb)" using ok(4) is_f64_f64 [OF sum] by (simp add: eq)
  have "refilled now tb \<le> tb_tokens tb + ?p + (tb_capacity tb / 2 ^ 53 + tiny)"
  proof (cases "tb_tokens tb + ?p \<le> tb_capacity tb")
    case True
    then have "f64 (tb_tokens tb + ?p) \<le> tb_tokens tb + ?p + (tb_capacity tb / 2 ^ 53 + tiny)"
      by (rule f64_within [OF sum])
    then show ?thesis by (simp add: eq)
  next
    case False
    then show ?thesis using ok tiny(1) by (simp add: eq add_nonneg_nonneg)
  qed
  then show "refilled now tb \<le> tb_tokens tb + exact_seconds (now - tb_lastRefill tb) * tb_rate tb * growth +
       (tb_capacity tb / 2 ^ 53 + (4 * tb_rate tb + 2) * tiny)"
    using p by (simp add: algebra_simps)
qed

lemma slack_covers:
  assumes "bucket_ok tb"
  shows "tb_capacity tb / 2 ^ 53 + (4 * tb_rate tb + 2) * tiny + (tb_capacity tb / 2 ^ 53 + tiny) \<le> slack tb"
proof -
  have ok: "0 \<le> tb_rate tb" "0 \<le> tb_capacity tb" using assms by (simp_all add: bucket_ok_def)
  have "(4 * tb_rate tb + 3) * tiny \<le> (4 * tb_rate tb + 3) * (1 / 2 ^ 60)"
    using tiny ok(1) by (intro mult_left_mono) simp_all
  then show ?thesis using ok by (simp add: slack_def field_simps)
qed

lemma tb_Allow_ok:
  assumes "bucket_ok tb" "tb_lastRefill tb \<le> now" "tb_Allow now tb = (e, tb')"
  shows "bucket_ok tb'" "tb_lastRefill tb' = now" "tb_rate tb' = tb_rate tb" "tb_capacity tb' = tb_capacity tb"
    "(if e = None then 1 else 0) + tb_tokens tb' \<le>
       tb_tokens tb + exact_seconds (now - tb_lastRefill tb) * tb_rate tb * growth + slack tb"
proof -
  note R = refilled_bounds [OF assms(1,2)]
  let ?t = "refilled now tb"
  have tb': "tb' = tb\<lparr>tb_tokens := if ?t < 1 then ?t else f64 (?t - 1), tb_lastRefill := now\<rparr>" "e = None \<longleftrightarrow> \<not> ?t < 1"
    using assms(3) by (auto simp: tb_Allow_def tb_AllowN_def split: if_splits)
  show "tb_lastRefill tb' = now" "tb_rate tb' = tb_rate tb" "tb_capacity tb' = tb_capacity tb" by (simp_all add: tb'(1))
  have sub: "0 \<le> f64 (?t - 1)" "f64 (?t - 1) \<le> ?t" "is_f64 (f64 (?t - 1))"
      "f64 (?t - 1) \<le> ?t - 1 + (tb_capacity tb / 2 ^ 53 + tiny)" if "\<not> ?t < 1"
  proof -
    have nn: "0 \<le> ?t - 1" using that by simp
    show "0 \<le> f64 (?t - 1)" "is_f64 (f64 (?t - 1))" by (rule f64_nonneg [OF nn], rule is_f64_f64 [OF nn])
    show "f64 (?t - 1) \<le> ?t" by (rule f64_le [OF nn _ R(3)]) simp
    show "f64 (?t - 1) \<le> ?t - 1 + (tb_capacity tb / 2 ^ 53 + tiny)"
      by (rule f64_within [OF nn]) (use R(2) in simp)
  qed
  show "bucket_ok tb'" using assms(1) R(1-3) sub(1-3) unfolding bucket_ok_def tb'(1) by auto
  show "(if e = None then 1 else 0) + tb_tokens tb' \<le>
       tb_tokens tb + exact_seconds (now - tb_lastRefill tb) * tb_rate tb * growth + slack tb"
  proof -
    have c: "0 \<le> tb_capacity tb / 2 ^ 53 + tiny" using assms(1) tiny(1) by (simp add: bucket_ok_def)
    show ?thesis
    proof (cases "?t < 1")
      case True
      then show ?thesis using R(4) slack_covers [OF assms(1)] c unfolding tb' by simp
    next
      case False
      then show ?thesis using R(4) sub(4) slack_covers [OF assms(1)] c unfolding tb' by simp
    qed
  qed
qed

lemma tb_calls_bound:
  assumes "bucket_ok tb" "sorted (tb_lastRefill tb # ts)" "tb_calls ts tb = (es, tb')"
  shows "bucket_ok tb' \<and> tb_capacity tb' = tb_capacity tb \<and>
    real (count_list es None) + tb_tokens tb' \<le> tb_tokens tb +
      exact_seconds (last (tb_lastRefill tb # ts) - tb_lastRefill tb) * tb_rate tb * growth +
      real (length ts) * slack tb"
  using assms
proof (induction ts arbitrary: tb es tb')
  case Nil
  then show ?case by (simp add: exact_seconds_def)
next
  case (Cons t ts)
  obtain e tb1 where e: "tb_Allow t tb = (e, tb1)" by (rule prod.exhaust)
  obtain es1 tb2 where es: "tb_calls ts tb1 = (es1, tb2)" by (rule prod.exhaust)
  have r: "es = e # es1" "tb' = tb2" using Cons.prems(3) e es by simp_all
  have le: "tb_lastRefill tb \<le> t" using Cons.prems(2) by simp
  note A = tb_Allow_ok [OF Cons.prems(1) le e]
  have sl: "slack tb1 = slack tb" using A(3,4) by (simp add: slack_def)
  have IH: "bucket_ok tb2 \<and> tb_capacity tb2 = tb_capacity tb1 \<and>
    real (count_list es1 None) + tb_tokens tb2 \<le>
      tb_tokens tb1 + exact_seconds (last (t # ts) - t) * tb_rate tb * growth + real (length ts) * slack tb"
    using Cons.IH [OF A(1) _ es] A(2,3) Cons.prems(2) sl by simp
  have "exact_seconds (last (t # ts) - t) + exact_seconds (t - tb_lastRefill tb) = exact_seconds (last (t # ts) - tb_lastRefill tb)"
    by (simp add: exact_seconds_add)
  then have "exact_seconds (last (t # ts) - t) * tb_rate tb * growth +
      exact_seconds (t - tb_lastRefill tb) * tb_rate tb * growth =
      exact_seconds (last (t # ts) - tb_lastRefill tb) * tb_rate tb * growth"
    by (metis distrib_right)
  moreover have "real (length (t # ts)) * slack tb = slack tb + real (length ts) * slack tb" by (simp add: distrib_right)
  moreover have "real (count_list es None) = real (count_list es1 None) + (if e = None then 1 else 0)" by (simp add: r(1))
  ultimately have "real (count_list es None) + tb_tokens tb2 \<le> tb_tokens tb +
      exact_seconds (last (t # ts) - tb_lastRefill tb) * tb_rate tb * growth + real (length (t # ts)) * slack tb"
    using conjunct2 [OF conjunct2 [OF IH]] A(5) by linarith
  then show ?case using IH A(4) unfolding r(2) by simp
qed

text \<open>Property C37: a token bucket whose rate is not negative, in \<open>float64\<close> arithmetic: any run of calls in
  the order of time admits at most the capacity plus the rate times the seconds since the last refill, up to
  the rounding errors, which are a factor of \<open>1 + 2\<^sup>-\<^sup>5\<^sup>1\<close> on what is refilled and \<open>2\<^sup>-\<^sup>5\<^sup>1\<close> times the
  capacity, the rate and one per call; and the bucket never holds less than zero or more than its capacity.\<close>

theorem bucket_bounds_rate:
  assumes "bucket_ok tb" "sorted (tb_lastRefill tb # ts)"
  shows "real (count_list (fst (tb_calls ts tb)) None) \<le> tb_capacity tb +
      exact_seconds (last (tb_lastRefill tb # ts) - tb_lastRefill tb) * tb_rate tb * (1 + 1 / 2 ^ 51) +
      real (length ts) * ((tb_capacity tb + tb_rate tb + 1) / 2 ^ 51) \<and>
    bucket_ok (snd (tb_calls ts tb))"
  using tb_calls_bound [OF assms, of "fst (tb_calls ts tb)" "snd (tb_calls ts tb)"] assms(1)
  by (auto simp: bucket_ok_def slack_def growth_def)

text \<open>The errors do count: with a rate of \<open>1.0/3\<close> and room for one token, a second call after three seconds is
  admitted although the exact product is below one, because it is rounded to one.\<close>

definition third :: real where "third = f64 (1 / 3)"

lemma third: "third = 6004799503160661 / 2 ^ 54" "is_f64 third"
proof -
  have p: "(2::real) powr - 54 = 1 / 2 ^ 54" "(2::real) powr - 2 = 1 / 4" "(2::real) powr - 1 = 1 / 2"
    by (simp_all add: powr_minus powr_realpow [symmetric] divide_simps)
  have "round_even (1 / 3 * 2 ^ 54) = 6004799503160661"
  proof -
    have "\<lfloor>1 / 3 * 2 ^ 54 :: real\<rfloor> = 6004799503160661" by (rule floor_unique) simp_all
    then show ?thesis by (simp add: round_even_def Let_def)
  qed
  then show "third = 6004799503160661 / 2 ^ 54"
    using f64_eval [of "- 54" "1 / 3"] by (simp add: third_def p)
  show "is_f64 third" unfolding third_def by (rule is_f64_f64) simp
qed

lemma three_thirds: "f64 (3 * third) = 1"
proof -
  have p: "(2::real) powr - 53 = 1 / 2 ^ 53" "(2::real) powr - 1 = 1 / 2"
    by (simp_all add: powr_minus powr_realpow [symmetric] divide_simps)
  have "round_even (3 * third * 2 ^ 53) = 2 ^ 53"
  proof -
    have "\<lfloor>3 * third * 2 ^ 53 :: real\<rfloor> = 2 ^ 53 - 1" by (rule floor_unique) (simp_all add: third)
    then show ?thesis by (simp add: round_even_def Let_def third)
  qed
  then show ?thesis using f64_eval [of "- 53" "3 * third"] by (simp add: p third)
qed

lemma bucket_bounds_rate_witness:
  "fst (tb_calls [0, 3000000000] (NewTokenBucket 0 third 1)) = [None, None] \<and> 1 + 3 * third < 2 \<and>
   (2 :: real) \<le> 1 + 3 * third * (1 + 1 / 2 ^ 51) + 2 * ((1 + third + 1) / 2 ^ 51)"
proof -
  let ?tb = "NewTokenBucket 0 third 1"
  have one: "is_f64 1" "f64 1 = 1" "f64 3 = 3"
    using is_f64_int [of 1] f64_int [of 1] f64_int [of 3] by simp_all
  have s: "seconds 0 = 0" "seconds 3000000000 = 3"
    by (simp_all add: seconds_def go_div_def go_mod_def second_def one)
  have run: "fst (tb_calls [0, 3000000000] ?tb) = [None, None]"
    by (simp add: NewTokenBucket_def tb_Allow_def tb_AllowN_def refilled_def time_sub_def i64_min_def i64_max_def s
        one three_thirds minF_def)
  have ok: "bucket_ok ?tb" by (rule NewTokenBucket_ok [OF _ third(2) one(1)]) (simp add: third(1))
  have "sorted (tb_lastRefill ?tb # [0, 3000000000])" by (simp add: NewTokenBucket_def)
  from bucket_bounds_rate [OF ok this] run show ?thesis
    by (simp add: NewTokenBucket_def exact_seconds_def third(1))
qed

section \<open>The quota bounds the count\<close>

fun q_calls :: "time list \<Rightarrow> FixedWindowQuota \<Rightarrow> rl_error option list" where
  "q_calls [] q = []"
| "q_calls (t # ts) q = (let (x, q1) = q_Allow t q in x # q_calls ts q1)"

definition accepted_in :: "int \<Rightarrow> duration \<Rightarrow> time list \<Rightarrow> rl_error option list \<Rightarrow> nat" where
  "accepted_in w window ts es = length (filter (\<lambda>(t, e). window_key t window = w \<and> e = None) (zip ts es))"

definition calls_in :: "int \<Rightarrow> duration \<Rightarrow> time list \<Rightarrow> nat" where
  "calls_in w window ts = length (filter (\<lambda>t. window_key t window = w) ts)"

definition quota_ok :: "FixedWindowQuota \<Rightarrow> bool" where
  "quota_ok q \<longleftrightarrow> 0 \<le> q_count q \<and> q_count q \<le> q_limit q \<and> q_limit q \<le> i64_max"

lemma q_Allow_ok:
  assumes "quota_ok q" "q_Allow t q = (e, q')"
  defines "used \<equiv> (if window_key t (q_windowNs q) = q_winKey q then q_count q else 0)"
  shows "quota_ok q'" "q_windowNs q' = q_windowNs q" "q_limit q' = q_limit q"
    "q_winKey q' = window_key t (q_windowNs q)" "e = None \<longleftrightarrow> used < q_limit q"
    "q_count q' = used + (if e = None then 1 else 0)"
proof -
  have "i64 (used + 1) = used + 1" if "used < q_limit q"
    using that assms(1) by (intro i64_id) (auto simp: used_def quota_ok_def i64_min_def i64_max_def)
  then show "quota_ok q'" "q_windowNs q' = q_windowNs q" "q_limit q' = q_limit q"
    "q_winKey q' = window_key t (q_windowNs q)" "e = None \<longleftrightarrow> used < q_limit q"
    "q_count q' = used + (if e = None then 1 else 0)"
    using assms(1,2) by (auto simp: q_Allow_def Let_def used_def quota_ok_def split: if_splits)
qed

lemma q_calls_count:
  assumes "quota_ok q" "sorted (q_winKey q # map (\<lambda>t. window_key t (q_windowNs q)) ts)"
  defines "used \<equiv> \<lambda>w. if w = q_winKey q then nat (q_count q) else 0"
  shows "accepted_in w (q_windowNs q) ts (q_calls ts q) =
    min (calls_in w (q_windowNs q) ts) (nat (q_limit q) - used w)"
  using assms(1,2) unfolding used_def
proof (induction ts arbitrary: q)
  case Nil
  then show ?case by (simp add: accepted_in_def calls_in_def)
next
  case (Cons t ts)
  obtain e q1 where e: "q_Allow t q = (e, q1)" by (rule prod.exhaust)
  note A = q_Allow_ok [OF Cons.prems(1) e]
  let ?k = "window_key t (q_windowNs q)"
  let ?u = "if ?k = q_winKey q then q_count q else 0"
  have IH: "accepted_in w (q_windowNs q) ts (q_calls ts q1) =
      min (calls_in w (q_windowNs q) ts) (nat (q_limit q) - (if w = ?k then nat (q_count q1) else 0))"
    using Cons.IH [OF A(1)] Cons.prems(2) A(2-4) by simp
  have a: "accepted_in w (q_windowNs q) (t # ts) (q_calls (t # ts) q) =
      (if ?k = w \<and> e = None then 1 else 0) + accepted_in w (q_windowNs q) ts (q_calls ts q1)"
    by (simp add: accepted_in_def e)
  have c: "calls_in w (q_windowNs q) (t # ts) = (if ?k = w then 1 else 0) + calls_in w (q_windowNs q) ts"
    by (simp add: calls_in_def)
  have q: "0 \<le> q_count q" "q_count q \<le> q_limit q" using Cons.prems(1) by (auto simp: quota_ok_def)
  show ?case
  proof (cases "?k = w")
    case True
    define u where "u = nat ?u"
    define n where "n = calls_in w (q_windowNs q) ts"
    have u: "(if w = q_winKey q then nat (q_count q) else 0) = u" using True by (simp add: u_def)
    have e_iff: "e = None \<longleftrightarrow> u < nat (q_limit q)" using A(5) q by (auto simp: u_def)
    have "nat (q_count q1) = u + (if e = None then 1 else 0)"
      unfolding u_def using A(6) q(1) by (auto simp: nat_add_distrib)
    then have "accepted_in w (q_windowNs q) (t # ts) (q_calls (t # ts) q) =
        (if e = None then 1 else 0) + min n (nat (q_limit q) - (u + (if e = None then 1 else 0)))"
      using a IH True by (simp add: n_def)
    also have "\<dots> = min (1 + n) (nat (q_limit q) - u)" using e_iff by (cases "e = None") auto
    finally show ?thesis unfolding u using c True by (simp add: n_def)
  next
    case False
    have "calls_in w (q_windowNs q) ts = 0" if "w = q_winKey q"
    proof -
      have "\<forall>x \<in> set ts. window_key x (q_windowNs q) \<noteq> w"
        using Cons.prems(2) False that by fastforce
      then show ?thesis by (simp add: calls_in_def filter_empty_conv)
    qed
    then show ?thesis using a c IH False by auto
  qed
qed

text \<open>In each window after the one the quota is in, a quota with limit \<open>n\<close> admits exactly
  the first \<open>n\<close> calls; in its current window, what the limit has left.\<close>

lemma quota_exact:
  assumes "quota_ok q" "sorted (q_winKey q # map (\<lambda>t. window_key t (q_windowNs q)) ts)"
  shows "accepted_in w (q_windowNs q) ts (q_calls ts q) = min (calls_in w (q_windowNs q) ts)
    (nat (q_limit q) - (if w = q_winKey q then nat (q_count q) else 0))"
  by (rule q_calls_count [OF assms])

lemma quota_exact_witness:
  "accepted_in 1 10 [1, 2, 11, 12, 13] (q_calls [1, 2, 11, 12, 13]
     \<lparr>q_windowNs = 10, q_limit = 2, q_count = 0, q_winKey = 0\<rparr>) = 2"
  using quota_exact [of "\<lparr>q_windowNs = 10, q_limit = 2, q_count = 0, q_winKey = 0\<rparr>" "[1, 2, 11, 12, 13]" 1]
  by (simp add: quota_ok_def i64_max_def window_key_def go_div_def calls_in_def)

section \<open>The registry\<close>

definition limiter_err :: "time \<Rightarrow> Limiter option \<Rightarrow> rl_error option" where
  "limiter_err now l = (case l of None \<Rightarrow> None | Some l \<Rightarrow> fst (l_Allow now l))"

definition limiter_used :: "time \<Rightarrow> Limiter option \<Rightarrow> Limiter option" where
  "limiter_used now l = map_option (\<lambda>l. snd (l_Allow now l)) l"

text \<open>\<open>CheckJob\<close> admits a trigger exactly when the job's and the app's limiter do; a job
  that is rejected leaves the app's limiter untouched, and an app that rejects has already charged the
  job's limiter. No other limiter changes.\<close>

lemma CheckJob_correct:
  "rl_CheckJob now app i r =
     (let j = r (JobKey i); a = r (AppKey app)
      in case limiter_err now j of
           Some e \<Rightarrow> (Some (JobRateLimited i e), r(JobKey i := limiter_used now j))
         | None \<Rightarrow> (map_option (AppRateLimited app) (limiter_err now a),
             r(JobKey i := limiter_used now j, AppKey app := limiter_used now a)))"
proof -
  have same: "r(JobKey i := None) = r" if "r (JobKey i) = None" using that by (simp add: fun_upd_idem)
  have same2: "f(AppKey app := None) = f" if "f (AppKey app) = None" for f :: RLRegistry
    using that by (simp add: fun_upd_idem)
  show ?thesis
    by (cases "r (JobKey i)"; cases "r (AppKey app)")
      (auto simp: rl_CheckJob_def rl_Get_def limiter_err_def limiter_used_def Let_def case_prod_beta same same2
        split: option.splits)
qed

fun l_calls :: "time list \<Rightarrow> Limiter \<Rightarrow> rl_error option list \<times> Limiter" where
  "l_calls [] l = ([], l)"
| "l_calls (t # ts) l = (let (x, l1) = l_Allow t l; (xs, l2) = l_calls ts l1 in (x # xs, l2))"

lemma l_Allow_totals:
  assumes "l_Allow t l = (e, l')" "0 \<le> l_allowed l" "0 \<le> l_rejected l"
    "l_allowed l + l_rejected l < i64_max"
  shows "l_allowed l' = l_allowed l + (if e = None then 1 else 0)"
    "l_rejected l' = l_rejected l + (if e = None then 0 else 1)"
proof -
  have "i64 (l_allowed l + 1) = l_allowed l + 1" "i64 (l_rejected l + 1) = l_rejected l + 1"
    using assms(2-4) by (auto intro!: i64_id simp: i64_min_def)
  then show "l_allowed l' = l_allowed l + (if e = None then 1 else 0)"
    "l_rejected l' = l_rejected l + (if e = None then 0 else 1)"
    using assms(1) by (auto simp: l_Allow_def l_reject_def Let_def case_prod_beta split: option.splits if_splits)
qed

text \<open>A limiter counts every call once: after \<open>n\<close> calls the two totals have grown by \<open>n\<close>
  together, and the calls that returned no error are the allowed ones.\<close>

lemma limiter_totals:
  assumes "0 \<le> l_allowed l" "0 \<le> l_rejected l" "l_allowed l + l_rejected l + int (length ts) \<le> i64_max"
  shows "l_allowed (snd (l_calls ts l)) = l_allowed l + int (count_list (fst (l_calls ts l)) None) \<and>
    l_allowed (snd (l_calls ts l)) + l_rejected (snd (l_calls ts l)) =
      l_allowed l + l_rejected l + int (length ts)"
  using assms
proof (induction ts arbitrary: l)
  case (Cons t ts)
  obtain e l1 where e: "l_Allow t l = (e, l1)" by (rule prod.exhaust)
  note T = l_Allow_totals [OF e Cons.prems(1,2)]
  have lt: "l_allowed l + l_rejected l < i64_max" using Cons.prems(3) by simp
  have "l_allowed (snd (l_calls ts l1)) = l_allowed l1 + int (count_list (fst (l_calls ts l1)) None) \<and>
    l_allowed (snd (l_calls ts l1)) + l_rejected (snd (l_calls ts l1)) =
      l_allowed l1 + l_rejected l1 + int (length ts)"
    by (rule Cons.IH) (use T lt Cons.prems in auto)
  then show ?case using T lt by (auto simp: e case_prod_beta)
qed simp

definition demo_limiter :: Limiter where
  "demo_limiter = NewLimiter 0 ''job:1'' \<lparr>lc_Rate = 1, lc_Burst = 2, lc_QuotaWindow = 0, lc_QuotaLimit = 0\<rparr>"

lemma limiter_totals_witness:
  "l_allowed (snd (l_calls [1, 2, 3] demo_limiter)) + l_rejected (snd (l_calls [1, 2, 3] demo_limiter)) = 3"
proof -
  have d: "l_allowed demo_limiter = 0" "l_rejected demo_limiter = 0"
    by (simp_all add: demo_limiter_def NewLimiter_def)
  have "l_allowed (snd (l_calls [1, 2, 3] demo_limiter)) + l_rejected (snd (l_calls [1, 2, 3] demo_limiter)) =
      l_allowed demo_limiter + l_rejected demo_limiter + int (length [1 :: time, 2, 3])"
    by (rule conjunct2 [OF limiter_totals]) (simp_all add: d i64_max_def)
  then show ?thesis unfolding d by (simp only: list.size)
qed

end
