(* ===== verification/Idempotency.thy ===== *)
theory Idempotency
  imports Go_Prelude
begin

text \<open>
  \<open>pkg/idempotency/idempotency.go\<close>: the table that keeps an executor from running one log ID twice.

  Each method is a transition on the table, with \<open>time.Now()\<close> as an argument; the \<open>*Record\<close> a method
  returns is the record's value at the return. \<open>gc\<close> is one scan of the background loop, in the order
  \<open>ord\<close> of the map iteration.
\<close>

section \<open>State\<close>

datatype State = StateRunning | StateSuccess | StateFailed

fun State_String :: "State \<Rightarrow> string" where
  "State_String StateRunning = ''running''"
| "State_String StateSuccess = ''success''"
| "State_String StateFailed = ''failed''"

record Record =
  rec_LogID :: int
  rec_State :: State
  rec_Err :: "string option"
  rec_StartTime :: time
  rec_EndTime :: time
  rec_DurationMs :: int
  rec_expireAt :: time

definition rec_Succeeded :: "Record \<Rightarrow> bool" where "rec_Succeeded r \<longleftrightarrow> rec_State r = StateSuccess"
definition rec_Failed :: "Record \<Rightarrow> bool" where "rec_Failed r \<longleftrightarrow> rec_State r = StateFailed"
definition rec_Running :: "Record \<Rightarrow> bool" where "rec_Running r \<longleftrightarrow> rec_State r = StateRunning"

record IdemOptions =
  io_TTL :: duration
  io_GCInterval :: duration
  io_InitialCapacity :: int

definition idem_defaultOptions :: IdemOptions where
  "idem_defaultOptions = \<lparr>io_TTL = 24 * hour, io_GCInterval = 10 * minute, io_InitialCapacity = 1024\<rparr>"

definition idem_WithTTL :: "duration \<Rightarrow> IdemOptions \<Rightarrow> IdemOptions" where
  "idem_WithTTL d ops = ops\<lparr>io_TTL := d\<rparr>"

definition idem_WithGCInterval :: "duration \<Rightarrow> IdemOptions \<Rightarrow> IdemOptions" where
  "idem_WithGCInterval d ops = ops\<lparr>io_GCInterval := d\<rparr>"

definition idem_WithInitialCapacity :: "int \<Rightarrow> IdemOptions \<Rightarrow> IdemOptions" where
  "idem_WithInitialCapacity n ops = ops\<lparr>io_InitialCapacity := n\<rparr>"

record Table =
  tbl_records :: "int \<rightharpoonup> Record"
  tbl_opts :: IdemOptions

definition tbl_New :: "(IdemOptions \<Rightarrow> IdemOptions) list \<Rightarrow> Table" where
  "tbl_New opts = \<lparr>tbl_records = Map.empty, tbl_opts = foldl (\<lambda>a opt. opt a) idem_defaultOptions opts\<rparr>"

section \<open>Methods\<close>

definition tbl_TryAcquire :: "time \<Rightarrow> int \<Rightarrow> Table \<Rightarrow> (Record \<times> bool) \<times> Table" where
  "tbl_TryAcquire now logID t =
     (case tbl_records t logID of
        Some rcd \<Rightarrow> ((rcd, False), t)
      | None \<Rightarrow>
          let rcd = \<lparr>rec_LogID = logID, rec_State = StateRunning, rec_Err = None, rec_StartTime = now,
                rec_EndTime = zero_time, rec_DurationMs = 0, rec_expireAt = zero_time\<rparr>
          in ((rcd, True), t\<lparr>tbl_records := (tbl_records t)(logID \<mapsto> rcd)\<rparr>))"

definition milliseconds :: "duration \<Rightarrow> int" where "milliseconds d = go_div d millisecond"

definition tbl_Complete :: "time \<Rightarrow> int \<Rightarrow> string option \<Rightarrow> Table \<Rightarrow> Table" where
  "tbl_Complete now logID err t =
     (case tbl_records t logID of
        None \<Rightarrow> t
      | Some rcd \<Rightarrow>
          if rec_State rcd \<noteq> StateRunning then t
          else let r1 = rcd\<lparr>rec_EndTime := now,
                   rec_DurationMs := milliseconds (time_sub now (rec_StartTime rcd)),
                   rec_expireAt := now + io_TTL (tbl_opts t)\<rparr>;
                   r2 = (if err \<noteq> None then r1\<lparr>rec_State := StateFailed, rec_Err := err\<rparr>
                         else r1\<lparr>rec_State := StateSuccess\<rparr>)
               in t\<lparr>tbl_records := (tbl_records t)(logID \<mapsto> r2)\<rparr>)"

definition tbl_Get :: "int \<Rightarrow> Table \<Rightarrow> Record option" where
  "tbl_Get logID t = tbl_records t logID"

definition tbl_ForceDelete :: "int \<Rightarrow> Table \<Rightarrow> Table" where
  "tbl_ForceDelete logID t = t\<lparr>tbl_records := (tbl_records t)(logID := None)\<rparr>"

definition tbl_Len :: "Table \<Rightarrow> nat" where "tbl_Len t = map_len (tbl_records t)"

record TableStats =
  ts_Total :: nat
  ts_Running :: nat
  ts_Success :: nat
  ts_Failed :: nat

fun count_states :: "(int \<times> Record) list \<Rightarrow> TableStats \<Rightarrow> TableStats" where
  "count_states [] s = s"
| "count_states ((k, r) # rs) s = count_states rs
     (case rec_State r of
        StateRunning \<Rightarrow> s\<lparr>ts_Running := Suc (ts_Running s)\<rparr>
      | StateSuccess \<Rightarrow> s\<lparr>ts_Success := Suc (ts_Success s)\<rparr>
      | StateFailed \<Rightarrow> s\<lparr>ts_Failed := Suc (ts_Failed s)\<rparr>)"

definition tbl_Stats :: "int list \<Rightarrow> Table \<Rightarrow> TableStats" where
  "tbl_Stats ord t =
     (let s = count_states (go_range (tbl_records t) ord)
                \<lparr>ts_Total = 0, ts_Running = 0, ts_Success = 0, ts_Failed = 0\<rparr>
      in s\<lparr>ts_Total := ts_Running s + ts_Success s + ts_Failed s\<rparr>)"

definition expired :: "time \<Rightarrow> Record \<Rightarrow> bool" where
  "expired now r \<longleftrightarrow> \<not> is_zero_time (rec_expireAt r) \<and> rec_expireAt r < now"

fun gc_loop :: "time \<Rightarrow> (int \<times> Record) list \<Rightarrow> (int \<rightharpoonup> Record) \<Rightarrow> (int \<rightharpoonup> Record)" where
  "gc_loop now [] m = m"
| "gc_loop now ((k, r) # rs) m = gc_loop now rs (if expired now r then m(k := None) else m)"

definition tbl_gc :: "time \<Rightarrow> int list \<Rightarrow> Table \<Rightarrow> Table" where
  "tbl_gc now ord t = t\<lparr>tbl_records := gc_loop now (go_range (tbl_records t) ord) (tbl_records t)\<rparr>"

section \<open>Lemmas\<close>

lemma gc_loop_other: "k \<notin> fst ` set rs \<Longrightarrow> gc_loop now rs m k = m k"
  by (induction now rs m rule: gc_loop.induct) auto

lemma gc_loop_range:
  assumes "distinct ks" "k \<in> set ks"
  shows "gc_loop now (go_range m ks) m' k =
    (case m k of Some r \<Rightarrow> if expired now r then None else m' k | None \<Rightarrow> m' k)"
  using assms
proof (induction ks arbitrary: m')
  case (Cons x xs)
  show ?case
  proof (cases "x = k")
    case True
    have "k \<notin> fst ` set (go_range m xs)" using Cons.prems True by (auto simp: set_go_range)
    then show ?thesis using True by (auto simp: gc_loop_other split: option.splits)
  next
    case False
    then have "gc_loop now (go_range m xs) n k =
      (case m k of Some r \<Rightarrow> if expired now r then None else n k | None \<Rightarrow> n k)" for n
      using Cons by auto
    then show ?thesis using False by (auto split: option.splits)
  qed
qed simp

lemma tbl_gc_records:
  assumes "iter_order (tbl_records t) ord"
  shows "tbl_records (tbl_gc now ord t) k =
    (case tbl_records t k of Some r \<Rightarrow> if expired now r then None else Some r | None \<Rightarrow> None)"
proof (cases "k \<in> set ord")
  case True
  then show ?thesis
    using gc_loop_range [of ord k now "tbl_records t" "tbl_records t"] assms
    by (auto simp: tbl_gc_def iter_order_def split: option.splits)
next
  case False
  then have "tbl_records t k = None" using assms by (auto simp: iter_order_def)
  moreover have "k \<notin> fst ` set (go_range (tbl_records t) ord)" using False by (auto simp: set_go_range)
  ultimately show ?thesis by (simp add: tbl_gc_def gc_loop_other)
qed

text \<open>Clients call in some order, with a clock; the result of a call is the flag of \<open>TryAcquire\<close>.\<close>

datatype event = TryAcquire time int | Complete time int "string option" | ForceDelete int | Gc time "int list"

fun idem_step :: "event \<Rightarrow> Table \<Rightarrow> bool \<times> Table" where
  "idem_step (TryAcquire now i) t = (let (r, t') = tbl_TryAcquire now i t in (snd r, t'))"
| "idem_step (Complete now i err) t = (False, tbl_Complete now i err t)"
| "idem_step (ForceDelete i) t = (False, tbl_ForceDelete i t)"
| "idem_step (Gc now ord) t = (False, tbl_gc now ord t)"

fun event_ok :: "event \<Rightarrow> Table \<Rightarrow> bool" where
  "event_ok (Gc now ord) t \<longleftrightarrow> iter_order (tbl_records t) ord"
| "event_ok e t \<longleftrightarrow> True"

fun idem_run :: "event list \<Rightarrow> Table \<Rightarrow> (event \<times> bool) list \<times> Table" where
  "idem_run [] t = ([], t)"
| "idem_run (e # es) t =
     (let (b, t1) = idem_step e t; (bs, t2) = idem_run es t1 in ((e, b) # bs, t2))"

fun run_ok :: "event list \<Rightarrow> Table \<Rightarrow> bool" where
  "run_ok [] t \<longleftrightarrow> True"
| "run_ok (e # es) t \<longleftrightarrow> event_ok e t \<and> run_ok es (snd (idem_step e t))"

lemma idem_step_opts: "tbl_opts (snd (idem_step e t)) = tbl_opts t"
  by (cases e) (auto simp: tbl_TryAcquire_def tbl_Complete_def tbl_ForceDelete_def tbl_gc_def Let_def
      split: option.splits)

text \<open>A completed record stays until a scan finds it expired.\<close>

lemma completed_step:
  assumes "tbl_records t i = Some r" "rec_State r \<noteq> StateRunning" "event_ok e t" "e \<noteq> ForceDelete i"
    "\<And>g ord. e = Gc g ord \<Longrightarrow> \<not> expired g r"
  shows "tbl_records (snd (idem_step e t)) i = Some r"
  using assms by (cases e) (auto simp: tbl_TryAcquire_def tbl_Complete_def tbl_ForceDelete_def tbl_gc_records Let_def
      split: option.splits)

lemma completed_run:
  assumes "tbl_records t i = Some r" "rec_State r \<noteq> StateRunning" "run_ok es t" "ForceDelete i \<notin> set es"
    "tbl_records (snd (idem_run es t)) i = None"
  shows "\<exists>mid g ord post. es = mid @ Gc g ord # post \<and> rec_expireAt r < g"
  using assms
proof (induction es arbitrary: t)
  case (Cons e es)
  show ?case
  proof (cases "\<exists>g ord. e = Gc g ord \<and> expired g r")
    case True
    then obtain g ord where "e = Gc g ord" "rec_expireAt r < g" by (auto simp: expired_def)
    then show ?thesis by (intro exI [of _ "[]"]) auto
  next
    case False
    then have "tbl_records (snd (idem_step e t)) i = Some r"
      using Cons.prems by (intro completed_step) auto
    then obtain mid g ord post where "es = mid @ Gc g ord # post" "rec_expireAt r < g"
      using Cons.IH [of "snd (idem_step e t)"] Cons.prems by (auto simp: case_prod_beta)
    then show ?thesis by (intro exI [of _ "e # mid"]) auto
  qed
qed simp

text \<open>A running record stays until it is completed, and then expires one TTL later.\<close>

definition running_rec :: "Record \<Rightarrow> bool" where
  "running_rec r \<longleftrightarrow> rec_State r = StateRunning \<and> rec_expireAt r = zero_time"

lemma running_step:
  assumes "tbl_records t i = Some r" "running_rec r" "event_ok e t" "e \<noteq> ForceDelete i"
    "\<And>c err. e \<noteq> Complete c i err"
  shows "tbl_records (snd (idem_step e t)) i = Some r"
  using assms by (cases e) (auto simp: tbl_TryAcquire_def tbl_Complete_def tbl_ForceDelete_def tbl_gc_records
      running_rec_def expired_def is_zero_time_def Let_def split: option.splits)

lemma running_complete:
  assumes "tbl_records t i = Some r" "running_rec r"
  shows "\<exists>r'. tbl_records (snd (idem_step (Complete c i err) t)) i = Some r' \<and> rec_State r' \<noteq> StateRunning \<and>
    rec_expireAt r' = c + io_TTL (tbl_opts t)"
  using assms by (auto simp: tbl_Complete_def running_rec_def Let_def)

lemma running_run:
  assumes "tbl_records t i = Some r" "running_rec r" "run_ok es t" "ForceDelete i \<notin> set es"
    "tbl_records (snd (idem_run es t)) i = None"
  shows "\<exists>pre c err mid g ord post. es = pre @ Complete c i err # mid @ Gc g ord # post \<and>
    (\<forall>c' err'. Complete c' i err' \<notin> set pre) \<and> c + io_TTL (tbl_opts t) < g"
  using assms
proof (induction es arbitrary: t)
  case (Cons e es)
  have rest: "run_ok es (snd (idem_step e t))" "tbl_records (snd (idem_run es (snd (idem_step e t)))) i = None"
    using Cons.prems(3,5) by (simp_all add: case_prod_beta)
  show ?case
  proof (cases "\<exists>c err. e = Complete c i err")
    case True
    then obtain c err where e: "e = Complete c i err" by blast
    obtain r' where r': "tbl_records (snd (idem_step e t)) i = Some r'" "rec_State r' \<noteq> StateRunning"
      "rec_expireAt r' = c + io_TTL (tbl_opts t)" using running_complete [OF Cons.prems(1,2)] e by blast
    then obtain mid g ord post where "es = mid @ Gc g ord # post" "c + io_TTL (tbl_opts t) < g"
      using completed_run [OF r'(1,2) rest(1)] rest(2) Cons.prems(4) by auto
    then show ?thesis using e by (intro exI [of _ "[]"]) auto
  next
    case False
    then have "tbl_records (snd (idem_step e t)) i = Some r" using Cons.prems by (intro running_step) auto
    then obtain pre c err mid g ord post where "es = pre @ Complete c i err # mid @ Gc g ord # post"
      "\<forall>c' err'. Complete c' i err' \<notin> set pre" "c + io_TTL (tbl_opts t) < g"
      using Cons.IH [of "snd (idem_step e t)"] rest Cons.prems(2,4) by (auto simp: idem_step_opts)
    then show ?thesis using False by (intro exI [of _ "e # pre"]) auto
  qed
qed simp

text \<open>Property C17: a log ID is executed at most once until its record has expired: when \<open>TryAcquire\<close> of an ID
  has succeeded and succeeds again after any run of calls in which the record was not deleted by force, then
  the execution was completed in between and, after that, \<open>gc\<close> has run later than one TTL after the first
  completion.\<close>

theorem acquire_once:
  assumes "tbl_TryAcquire s i t = ((rcd, True), t')" "run_ok es t'" "ForceDelete i \<notin> set es"
    and "tbl_TryAcquire x i (snd (idem_run es t')) = ((rcd', True), t'')"
  shows "\<exists>pre c err mid g ord post. es = pre @ Complete c i err # mid @ Gc g ord # post \<and>
    (\<forall>c' err'. Complete c' i err' \<notin> set pre) \<and> c + io_TTL (tbl_opts t) < g"
proof -
  obtain r where "tbl_records t' i = Some r" "running_rec r" and o: "tbl_opts t' = tbl_opts t"
    using assms(1) by (auto simp: tbl_TryAcquire_def running_rec_def Let_def split: option.splits)
  moreover have "tbl_records (snd (idem_run es t')) i = None"
    using assms(4) by (auto simp: tbl_TryAcquire_def split: option.splits)
  ultimately show ?thesis using running_run [of t' i r es] assms(2,3) by simp
qed

lemma acquire_once_witness:
  "\<exists>pre c err mid g ord post. [Complete 20 7 None, Gc 30 [7]] = pre @ Complete c 7 err # mid @ Gc g ord # post \<and>
     (\<forall>c' err'. Complete c' 7 err' \<notin> set pre) \<and> c + 5 < g"
proof -
  let ?t = "tbl_New [idem_WithTTL 5]" and ?es = "[Complete 20 7 None, Gc 30 [7]]"
  have n: "?t = \<lparr>tbl_records = Map.empty, tbl_opts = idem_WithTTL 5 idem_defaultOptions\<rparr>" by (simp add: tbl_New_def)
  let ?t' = "snd (tbl_TryAcquire 10 7 ?t)"
  have a: "tbl_TryAcquire 10 7 ?t = ((fst (fst (tbl_TryAcquire 10 7 ?t)), True), ?t')"
    by (simp add: n tbl_TryAcquire_def Let_def)
  have ok: "run_ok ?es ?t'"
    by (simp add: n tbl_TryAcquire_def tbl_Complete_def iter_order_def Let_def)
  have "tbl_records (snd (idem_run ?es ?t')) 7 = None"
    by (simp add: n tbl_TryAcquire_def tbl_Complete_def tbl_gc_def expired_def is_zero_time_def zero_time_def
        idem_WithTTL_def Let_def)
  then have b: "tbl_TryAcquire 40 7 (snd (idem_run ?es ?t')) =
      ((fst (fst (tbl_TryAcquire 40 7 (snd (idem_run ?es ?t')))), True), snd (tbl_TryAcquire 40 7 (snd (idem_run ?es ?t'))))"
    by (simp add: tbl_TryAcquire_def Let_def)
  have ttl: "io_TTL (tbl_opts ?t) = 5" by (simp add: n idem_WithTTL_def)
  have "ForceDelete 7 \<notin> set ?es" by simp
  from acquire_once [OF a ok this b] show ?thesis unfolding ttl .
qed

text \<open>A running record is never scanned away: until it is completed or deleted, its ID cannot be
  acquired again, however long that takes; and a completed record keeps its result until it expires.\<close>

definition record_fixed :: "int \<Rightarrow> Record \<Rightarrow> event \<Rightarrow> bool" where
  "record_fixed i r e \<longleftrightarrow> e \<noteq> ForceDelete i \<and>
     (case e of Complete now k err \<Rightarrow> k \<noteq> i \<or> \<not> rec_Running r
      | Gc now ord \<Rightarrow> \<not> expired now r | _ \<Rightarrow> True)"

lemma record_fixed_step:
  assumes "tbl_records t i = Some r" "event_ok e t" "record_fixed i r e"
  shows "tbl_records (snd (idem_step e t)) i = Some r"
  using assms
  by (cases e) (auto simp: record_fixed_def tbl_TryAcquire_def tbl_Complete_def tbl_ForceDelete_def
      rec_Running_def tbl_gc_records Let_def split: option.splits)

text \<open>The result of an execution is stable: as long as a record is not expired, no call
  changes it (a second \<open>Complete\<close> is ignored), and every repeated \<open>TryAcquire\<close> returns it; a record
  that is still running stays for ever.\<close>

lemma result_stable:
  assumes "tbl_records t i = Some r" "run_ok es t" "\<forall>e \<in> set es. record_fixed i r e"
  shows "tbl_Get i (snd (idem_run es t)) = Some r \<and>
    fst (tbl_TryAcquire now i (snd (idem_run es t))) = (r, False)"
  using assms
proof (induction es arbitrary: t)
  case Nil
  then show ?case by (simp add: tbl_Get_def tbl_TryAcquire_def)
next
  case (Cons e es)
  then have "tbl_records (snd (idem_step e t)) i = Some r" using record_fixed_step by simp
  then show ?case using Cons by (auto simp: case_prod_beta)
qed

lemma result_stable_witness:
  "tbl_Get 7 (snd (idem_run [Gc 100 [7], TryAcquire 200 7] (snd (tbl_TryAcquire 10 7 (tbl_New []))))) =
   tbl_Get 7 (snd (tbl_TryAcquire 10 7 (tbl_New [])))"
proof -
  let ?t = "snd (tbl_TryAcquire 10 7 (tbl_New []))"
  have r: "tbl_records ?t 7 = Some \<lparr>rec_LogID = 7, rec_State = StateRunning, rec_Err = None,
      rec_StartTime = 10, rec_EndTime = zero_time, rec_DurationMs = 0, rec_expireAt = zero_time\<rparr>"
    by (simp add: tbl_New_def tbl_TryAcquire_def Let_def)
  have "run_ok [Gc 100 [7], TryAcquire 200 7] ?t"
    by (simp add: tbl_New_def tbl_TryAcquire_def iter_order_def Let_def)
  then show ?thesis
    using result_stable [OF r, of "[Gc 100 [7], TryAcquire 200 7]" 0] r
    by (simp add: record_fixed_def expired_def is_zero_time_def tbl_Get_def)
qed

lemma expired_running: "rec_expireAt r = zero_time \<Longrightarrow> \<not> expired now r"
  by (simp add: expired_def is_zero_time_def)

text \<open>The counters of \<open>Stats\<close> add up to \<open>Len\<close>.\<close>

lemma count_states_total:
  "ts_Running (count_states rs s) + ts_Success (count_states rs s) + ts_Failed (count_states rs s) =
   length rs + ts_Running s + ts_Success s + ts_Failed s"
  by (induction rs s rule: count_states.induct) (auto split: State.splits)

lemma Stats_total: "iter_order (tbl_records t) ord \<Longrightarrow> ts_Total (tbl_Stats ord t) = tbl_Len t"
  using count_states_total by (simp add: tbl_Stats_def Let_def tbl_Len_def map_len_def length_go_range)

end
