(* ===== verification/Executor_Store.thy ===== *)
theory Executor_Store
  imports Job_Model Complex_Main
begin

text \<open>
  \<open>pkg/executorstore/executorstore.go\<close>: the in-memory registry of executors the scheduler routes to.

  An \<open>*Entry\<close> is an address into \<open>es_entry\<close>: a registration that replaces an entry leaves the old one
  to the probes that still hold it, and a probe that answers late writes to the entry it was started
  for. The groups are never replaced, so a group is a value of \<open>es_groups\<close>. \<open>es_probing\<close> are the
  entries whose Beat request has not answered yet; \<open>es_step\<close> interleaves answers, sweeps and client
  calls. \<open>float64\<close> metrics are reals; logging is not modelled.
\<close>

section \<open>State\<close>

record Entry =
  en_ID :: int
  en_AppName :: string
  en_Address :: string
  en_Weight :: int
  en_Version :: string
  en_healthy :: bool
  en_lastHeartbeat :: time
  en_cpu :: real
  en_memory :: real

record EntrySnapshot =
  sn_ID :: int
  sn_AppName :: string
  sn_Address :: string
  sn_Weight :: int
  sn_Version :: string
  sn_Healthy :: bool
  sn_LastHeartbeat :: time
  sn_CPU :: real
  sn_Memory :: real

definition en_snapshot :: "Entry \<Rightarrow> EntrySnapshot" where
  "en_snapshot e = \<lparr>sn_ID = en_ID e, sn_AppName = en_AppName e, sn_Address = en_Address e,
     sn_Weight = en_Weight e, sn_Version = en_Version e, sn_Healthy = en_healthy e,
     sn_LastHeartbeat = en_lastHeartbeat e, sn_CPU = en_cpu e, sn_Memory = en_memory e\<rparr>"

definition en_SetHealthy :: "bool \<Rightarrow> Entry \<Rightarrow> Entry" where "en_SetHealthy ok e = e\<lparr>en_healthy := ok\<rparr>"

definition en_touch :: "time \<Rightarrow> Entry \<Rightarrow> Entry" where "en_touch now e = e\<lparr>en_lastHeartbeat := now\<rparr>"

definition en_UpdateResource :: "real \<Rightarrow> real \<Rightarrow> Entry \<Rightarrow> Entry" where
  "en_UpdateResource cpu memory e = e\<lparr>en_cpu := cpu, en_memory := memory\<rparr>"

record EsOptions =
  eo_ProbeInterval :: duration
  eo_ProbeTimeout :: duration
  eo_HeartbeatTTL :: duration
  eo_ProbeConcurrency :: int

definition es_defaultOptions :: EsOptions where
  "es_defaultOptions = \<lparr>eo_ProbeInterval = 10 * second, eo_ProbeTimeout = 2 * second,
     eo_HeartbeatTTL = 90 * second, eo_ProbeConcurrency = 32\<rparr>"

definition es_WithProbeInterval :: "duration \<Rightarrow> EsOptions \<Rightarrow> EsOptions" where
  "es_WithProbeInterval d ops = ops\<lparr>eo_ProbeInterval := d\<rparr>"

definition es_WithProbeTimeout :: "duration \<Rightarrow> EsOptions \<Rightarrow> EsOptions" where
  "es_WithProbeTimeout d ops = ops\<lparr>eo_ProbeTimeout := d\<rparr>"

definition es_WithHeartbeatTTL :: "duration \<Rightarrow> EsOptions \<Rightarrow> EsOptions" where
  "es_WithHeartbeatTTL d ops = ops\<lparr>eo_HeartbeatTTL := d\<rparr>"

definition es_WithProbeConcurrency :: "int \<Rightarrow> EsOptions \<Rightarrow> EsOptions" where
  "es_WithProbeConcurrency n ops = ops\<lparr>eo_ProbeConcurrency := n\<rparr>"

type_synonym appGroup = "string \<rightharpoonup> nat"

record EStore =
  es_groups :: "string \<rightharpoonup> appGroup"
  es_entry :: "nat \<Rightarrow> Entry"
  es_fresh :: nat
  es_opts :: EsOptions
  es_probing :: "nat list"

definition es_New :: "Entry \<Rightarrow> (EsOptions \<Rightarrow> EsOptions) list \<Rightarrow> EStore" where
  "es_New unused opts = \<lparr>es_groups = Map.empty, es_entry = (\<lambda>_. unused), es_fresh = 0,
     es_opts = foldl (\<lambda>a opt. opt a) es_defaultOptions opts, es_probing = []\<rparr>"

section \<open>Groups\<close>

definition newAppGroup :: appGroup where "newAppGroup = Map.empty"

definition grp_add :: "string \<Rightarrow> nat \<Rightarrow> appGroup \<Rightarrow> appGroup" where
  "grp_add address e g = g(address \<mapsto> e)"

definition grp_remove :: "string \<Rightarrow> appGroup \<Rightarrow> bool \<times> appGroup" where
  "grp_remove address g = (g address \<noteq> None, g(address := None))"

definition grp_get :: "string \<Rightarrow> appGroup \<Rightarrow> nat option" where "grp_get address g = g address"

definition grp_listAll :: "string list \<Rightarrow> appGroup \<Rightarrow> nat list" where
  "grp_listAll ord g = map snd (go_range g ord)"

definition getOrCreateGroup :: "string \<Rightarrow> EStore \<Rightarrow> appGroup \<times> EStore" where
  "getOrCreateGroup appName s =
     (case es_groups s appName of Some g \<Rightarrow> (g, s)
      | None \<Rightarrow> (newAppGroup, s\<lparr>es_groups := (es_groups s)(appName \<mapsto> newAppGroup)\<rparr>))"

definition getGroup :: "string \<Rightarrow> EStore \<Rightarrow> appGroup option" where
  "getGroup appName s = es_groups s appName"

definition upd_entry :: "nat \<Rightarrow> (Entry \<Rightarrow> Entry) \<Rightarrow> EStore \<Rightarrow> EStore" where
  "upd_entry p f s = s\<lparr>es_entry := (es_entry s)(p := f (es_entry s p))\<rparr>"

section \<open>Writes\<close>

definition es_Register :: "time \<Rightarrow> Executor \<Rightarrow> EStore \<Rightarrow> EStore" where
  "es_Register now e s =
     (let p = es_fresh s;
          entry = en_touch now \<lparr>en_ID = ex_ID e, en_AppName = ex_AppName e, en_Address = ex_Address e,
            en_Weight = ex_Weight e, en_Version = ex_Version e, en_healthy = True,
            en_lastHeartbeat = 0, en_cpu = 0, en_memory = 0\<rparr>;
          s1 = s\<lparr>es_entry := (es_entry s)(p := entry), es_fresh := Suc p\<rparr>;
          (g, s2) = getOrCreateGroup (ex_AppName e) s1
      in s2\<lparr>es_groups := (es_groups s2)(ex_AppName e \<mapsto> grp_add (ex_Address e) p g)\<rparr>)"

definition es_Heartbeat :: "time \<Rightarrow> string \<Rightarrow> string \<Rightarrow> real \<Rightarrow> real \<Rightarrow> EStore \<Rightarrow> EStore" where
  "es_Heartbeat now appName address cpu memory s =
     (case getGroup appName s of None \<Rightarrow> s
      | Some g \<Rightarrow> (case grp_get address g of None \<Rightarrow> s
          | Some p \<Rightarrow> upd_entry p (en_SetHealthy True \<circ> en_UpdateResource cpu memory \<circ> en_touch now) s))"

definition es_Deregister :: "string \<Rightarrow> string \<Rightarrow> EStore \<Rightarrow> EStore" where
  "es_Deregister appName address s =
     (case getGroup appName s of None \<Rightarrow> s
      | Some g \<Rightarrow> s\<lparr>es_groups := (es_groups s)(appName \<mapsto> snd (grp_remove address g))\<rparr>)"

fun es_Bootstrap :: "time \<Rightarrow> Executor list \<Rightarrow> EStore \<Rightarrow> EStore" where
  "es_Bootstrap now [] s = s"
| "es_Bootstrap now (e # es) s =
     es_Bootstrap now es (if ex_Status e = ExecutorOnline then es_Register now e s else s)"

section \<open>Reads\<close>

definition en_online :: "time \<Rightarrow> duration \<Rightarrow> Entry \<Rightarrow> bool" where
  "en_online now ttl e \<longleftrightarrow> time_sub now (en_lastHeartbeat e) < ttl"

definition es_ListOnlineAddresses :: "time \<Rightarrow> string list \<Rightarrow> string \<Rightarrow> EStore \<Rightarrow> string list" where
  "es_ListOnlineAddresses now ord appName s =
     (case getGroup appName s of None \<Rightarrow> []
      | Some g \<Rightarrow> map en_Address (filter (en_online now (eo_HeartbeatTTL (es_opts s)))
          (map (es_entry s) (grp_listAll ord g))))"

definition es_ListHealthyAddresses :: "time \<Rightarrow> string list \<Rightarrow> string \<Rightarrow> EStore \<Rightarrow> string list" where
  "es_ListHealthyAddresses now ord appName s =
     (case getGroup appName s of None \<Rightarrow> []
      | Some g \<Rightarrow> map en_Address (filter (\<lambda>e. en_online now (eo_HeartbeatTTL (es_opts s)) e \<and> en_healthy e)
          (map (es_entry s) (grp_listAll ord g))))"

definition es_ListEntries :: "string list \<Rightarrow> string \<Rightarrow> EStore \<Rightarrow> EntrySnapshot list" where
  "es_ListEntries ord appName s =
     (case getGroup appName s of None \<Rightarrow> []
      | Some g \<Rightarrow> map (en_snapshot \<circ> es_entry s) (grp_listAll ord g))"

definition es_TotalCount :: "string list \<Rightarrow> EStore \<Rightarrow> nat" where
  "es_TotalCount gord s = sum_list (map (\<lambda>(_, g). map_len g) (go_range (es_groups s) gord))"

section \<open>Probes and sweeps\<close>

text \<open>\<open>gord\<close> and \<open>ord g\<close> are the iteration orders of the groups and of a group's entries.\<close>

definition all_entries :: "string list \<Rightarrow> (string \<Rightarrow> string list) \<Rightarrow> EStore \<Rightarrow> nat list" where
  "all_entries gord ord s = concat (map (\<lambda>(a, g). grp_listAll (ord a) g) (go_range (es_groups s) gord))"

definition probe_targets :: "string list \<Rightarrow> (string \<Rightarrow> string list) \<Rightarrow> EStore \<Rightarrow> EStore" where
  "probe_targets gord ord s = s\<lparr>es_probing := all_entries gord ord s\<rparr>"

definition probeOne :: "nat \<Rightarrow> string option \<Rightarrow> EStore \<Rightarrow> EStore" where
  "probeOne p err s =
     (let s1 = upd_entry p (en_SetHealthy (err = None)) s
      in s1\<lparr>es_probing := remove1 p (es_probing s1)\<rparr>)"

definition sweep_entry :: "time \<Rightarrow> duration \<Rightarrow> nat \<Rightarrow> EStore \<Rightarrow> EStore" where
  "sweep_entry now ttl p s =
     (if time_sub now (en_lastHeartbeat (es_entry s p)) \<ge> ttl \<and> en_healthy (es_entry s p)
      then upd_entry p (en_SetHealthy False) s else s)"

definition sweepTTL :: "time \<Rightarrow> string list \<Rightarrow> (string \<Rightarrow> string list) \<Rightarrow> EStore \<Rightarrow> EStore" where
  "sweepTTL now gord ord s = fold (sweep_entry now (eo_HeartbeatTTL (es_opts s))) (all_entries gord ord s) s"

definition sweepInterval :: "EsOptions \<Rightarrow> duration" where
  "sweepInterval ops = (let i = go_div (eo_HeartbeatTTL ops) 3 in if i < 5 * second then 5 * second else i)"

definition orders_ok :: "string list \<Rightarrow> (string \<Rightarrow> string list) \<Rightarrow> EStore \<Rightarrow> bool" where
  "orders_ok gord ord s \<longleftrightarrow> iter_order (es_groups s) gord \<and>
     (\<forall>a g. es_groups s a = Some g \<longrightarrow> iter_order g (ord a))"

inductive es_step :: "EStore \<Rightarrow> EStore \<Rightarrow> bool" where
  register: "es_step s (es_Register now e s)"
| heartbeat: "es_step s (es_Heartbeat now appName address cpu memory s)"
| deregister: "es_step s (es_Deregister appName address s)"
| bootstrap: "es_step s (es_Bootstrap now es s)"
| probe_all: "es_probing s = [] \<Longrightarrow> orders_ok gord ord s \<Longrightarrow> es_step s (probe_targets gord ord s)"
| probe_one: "p \<in> set (es_probing s) \<Longrightarrow> es_step s (probeOne p err s)"
| sweep: "orders_ok gord ord s \<Longrightarrow> es_step s (sweepTTL now gord ord s)"

inductive es_reachable :: "EStore \<Rightarrow> bool" where
  es_init: "es_reachable (es_New unused opts)"
| es_more: "es_reachable s \<Longrightarrow> es_step s s' \<Longrightarrow> es_reachable s'"

section \<open>The registry it implements\<close>

definition es_lookup :: "EStore \<Rightarrow> string \<Rightarrow> string \<Rightarrow> nat option" where
  "es_lookup s app addr = (case es_groups s app of None \<Rightarrow> None | Some g \<Rightarrow> g addr)"

definition es_abs :: "EStore \<Rightarrow> string \<times> string \<rightharpoonup> Entry" where
  "es_abs s = (\<lambda>(app, addr). map_option (es_entry s) (es_lookup s app addr))"

definition es_inv :: "EStore \<Rightarrow> bool" where
  "es_inv s \<longleftrightarrow> (\<forall>app addr p. es_lookup s app addr = Some p \<longrightarrow>
       p < es_fresh s \<and> en_AppName (es_entry s p) = app \<and> en_Address (es_entry s p) = addr) \<and>
     (\<forall>p \<in> set (es_probing s). p < es_fresh s) \<and> finite (dom (es_groups s)) \<and>
     (\<forall>app g. es_groups s app = Some g \<longrightarrow> finite (dom g))"

definition new_entry :: "time \<Rightarrow> Executor \<Rightarrow> Entry" where
  "new_entry now e = \<lparr>en_ID = ex_ID e, en_AppName = ex_AppName e, en_Address = ex_Address e,
     en_Weight = ex_Weight e, en_Version = ex_Version e, en_healthy = True,
     en_lastHeartbeat = now, en_cpu = 0, en_memory = 0\<rparr>"

definition beat_entry :: "time \<Rightarrow> real \<Rightarrow> real \<Rightarrow> Entry \<Rightarrow> Entry" where
  "beat_entry now cpu memory e = e\<lparr>en_lastHeartbeat := now, en_cpu := cpu, en_memory := memory, en_healthy := True\<rparr>"

definition same_id :: "(Entry \<Rightarrow> Entry) \<Rightarrow> bool" where
  "same_id f \<longleftrightarrow> (\<forall>e. en_AppName (f e) = en_AppName e \<and> en_Address (f e) = en_Address e)"

lemma same_id_simps [simp]: "same_id (en_SetHealthy b)" "same_id (en_touch now)" "same_id (en_UpdateResource c m)"
  "same_id f \<Longrightarrow> same_id g \<Longrightarrow> same_id (f \<circ> g)"
  by (simp_all add: same_id_def en_SetHealthy_def en_touch_def en_UpdateResource_def)

lemma es_lookup_upd_entry [simp]: "es_lookup (upd_entry p f s) = es_lookup s"
  by (simp add: es_lookup_def upd_entry_def fun_eq_iff)

lemma es_inv_upd_entry: "es_inv s \<Longrightarrow> same_id f \<Longrightarrow> es_inv (upd_entry p f s)"
  unfolding es_inv_def es_lookup_upd_entry by (auto simp: upd_entry_def same_id_def)

text \<open>Writing an entry changes the registry at its own key, and nowhere else.\<close>

lemma es_abs_upd_entry:
  "es_abs (upd_entry p f s) = (\<lambda>(app, addr). if es_lookup s app addr = Some p
     then map_option f (es_abs s (app, addr)) else es_abs s (app, addr))"
proof
  fix k :: "string \<times> string"
  obtain a b where k: "k = (a, b)" by (rule prod.exhaust)
  show "es_abs (upd_entry p f s) k = (case k of (app, addr) \<Rightarrow> if es_lookup s app addr = Some p
     then map_option f (es_abs s (app, addr)) else es_abs s (app, addr))"
    by (cases "es_lookup s a b") (auto simp: k es_abs_def upd_entry_def es_lookup_def)
qed

lemma es_lookup_inj:
  "es_inv s \<Longrightarrow> es_lookup s app addr = Some p \<Longrightarrow> es_lookup s app' addr' = Some p \<longleftrightarrow> app' = app \<and> addr' = addr"
  unfolding es_inv_def by metis

lemma es_abs_upd_at:
  assumes "es_inv s" "es_lookup s app addr = Some p"
  shows "es_abs (upd_entry p f s) = (es_abs s)((app, addr) \<mapsto> f (es_entry s p))"
proof
  fix k :: "string \<times> string"
  obtain a b where k: "k = (a, b)" by (rule prod.exhaust)
  show "es_abs (upd_entry p f s) k = ((es_abs s)((app, addr) \<mapsto> f (es_entry s p))) k"
    unfolding k es_abs_upd_entry using es_lookup_inj [OF assms, of a b] assms(2) by (auto simp: es_abs_def)
qed

lemma Register_facts:
  "es_fresh (es_Register now e s) = Suc (es_fresh s)"
  "es_entry (es_Register now e s) = (es_entry s)(es_fresh s := new_entry now e)"
  "es_probing (es_Register now e s) = es_probing s" "es_opts (es_Register now e s) = es_opts s"
  "es_lookup (es_Register now e s) app addr =
     (if app = ex_AppName e \<and> addr = ex_Address e then Some (es_fresh s) else es_lookup s app addr)"
  "dom (es_groups (es_Register now e s)) = insert (ex_AppName e) (dom (es_groups s))"
  by (auto simp: es_Register_def getOrCreateGroup_def newAppGroup_def grp_add_def Let_def en_touch_def
      new_entry_def es_lookup_def fun_eq_iff split: option.splits if_splits)

lemma Register_groups:
  "es_groups (es_Register now e s) app = Some g \<Longrightarrow>
   (\<exists>g0. es_groups s app = Some g0 \<and> (g = g0 \<or> g = g0(ex_Address e \<mapsto> es_fresh s))) \<or> g = [ex_Address e \<mapsto> es_fresh s]"
  by (auto simp: es_Register_def getOrCreateGroup_def newAppGroup_def grp_add_def Let_def
      split: option.splits if_splits)

lemma es_inv_Register: "es_inv s \<Longrightarrow> es_inv (es_Register now e s)"
proof -
  assume i: "es_inv s"
  have "finite (dom g)" if g: "es_groups (es_Register now e s) app = Some g" for app g
    using Register_groups [OF g] i by (auto simp: es_inv_def)
  moreover have "es_lookup s app addr \<noteq> Some (es_fresh s)" for app addr
    using i by (auto simp: es_inv_def)
  ultimately show ?thesis
    using i unfolding es_inv_def Register_facts
    by (auto simp: new_entry_def less_Suc_eq split: if_splits)
qed

lemma es_abs_Register:
  assumes "es_inv s"
  shows "es_abs (es_Register now e s) = (es_abs s)((ex_AppName e, ex_Address e) \<mapsto> new_entry now e)"
proof -
  have "p \<noteq> es_fresh s" if "es_lookup s app addr = Some p" for app addr p
    using assms that by (auto simp: es_inv_def)
  then show ?thesis
    by (auto simp: es_abs_def Register_facts fun_eq_iff option.map_comp split: if_splits intro!: option.map_cong)
qed

lemma Heartbeat_cases:
  obtains (unknown) "es_lookup s app addr = None" "es_Heartbeat now app addr c m s = s"
  | (known) p where "es_lookup s app addr = Some p"
      "es_Heartbeat now app addr c m s = upd_entry p (en_SetHealthy True \<circ> en_UpdateResource c m \<circ> en_touch now) s"
proof (cases "es_lookup s app addr")
  case None
  then show thesis using unknown
    by (auto simp: es_Heartbeat_def es_lookup_def getGroup_def grp_get_def split: option.splits)
next
  case (Some p)
  then show thesis using known [of p]
    by (auto simp: es_Heartbeat_def es_lookup_def getGroup_def grp_get_def split: option.splits)
qed

lemma es_abs_Heartbeat:
  assumes "es_inv s"
  shows "es_abs (es_Heartbeat now app addr c m s) = (case es_abs s (app, addr) of None \<Rightarrow> es_abs s
      | Some e \<Rightarrow> (es_abs s)((app, addr) \<mapsto> beat_entry now c m e))"
proof (cases rule: Heartbeat_cases [of s app addr now c m])
  case (known p)
  have "es_abs s (app, addr) = Some (es_entry s p)" using known by (simp add: es_abs_def)
  then show ?thesis unfolding known(2) es_abs_upd_at [OF assms known(1)]
    by (simp add: beat_entry_def en_SetHealthy_def en_UpdateResource_def en_touch_def)
qed (simp add: es_abs_def)

lemma es_inv_Heartbeat: "es_inv s \<Longrightarrow> es_inv (es_Heartbeat now app addr c m s)"
  by (cases rule: Heartbeat_cases [of s app addr now c m]) (auto intro: es_inv_upd_entry)

lemma Deregister_facts:
  "es_lookup (es_Deregister app addr s) a b = (if a = app \<and> b = addr then None else es_lookup s a b)"
  "es_entry (es_Deregister app addr s) = es_entry s" "es_fresh (es_Deregister app addr s) = es_fresh s"
  "es_probing (es_Deregister app addr s) = es_probing s" "dom (es_groups (es_Deregister app addr s)) = dom (es_groups s)"
  "es_groups (es_Deregister app addr s) a = Some g \<Longrightarrow> \<exists>g0. es_groups s a = Some g0 \<and> dom g \<subseteq> dom g0"
  by (auto simp: es_Deregister_def getGroup_def grp_remove_def es_lookup_def split: option.splits if_splits)

lemma es_abs_Deregister: "es_abs (es_Deregister app addr s) = (es_abs s)((app, addr) := None)"
  by (auto simp: es_abs_def Deregister_facts fun_eq_iff)

lemma es_inv_Deregister: "es_inv s \<Longrightarrow> es_inv (es_Deregister app addr s)"
proof -
  assume i: "es_inv s"
  have "finite (dom g)" if g: "es_groups (es_Deregister app addr s) a = Some g" for a g
  proof -
    obtain g0 where "es_groups s a = Some g0" "dom g \<subseteq> dom g0" using Deregister_facts(6) [OF g] by blast
    moreover then have "finite (dom g0)" using i by (simp add: es_inv_def)
    ultimately show ?thesis using finite_subset by blast
  qed
  then show ?thesis using i unfolding es_inv_def Deregister_facts(1-5) by simp
qed

lemma es_inv_Bootstrap: "es_inv s \<Longrightarrow> es_inv (es_Bootstrap now es s)"
  by (induction es arbitrary: s) (auto simp: es_inv_Register)

definition boot_map :: "time \<Rightarrow> Executor list \<Rightarrow> (string \<times> string \<rightharpoonup> Entry) \<Rightarrow> string \<times> string \<rightharpoonup> Entry" where
  "boot_map now es m = fold (\<lambda>e m. m((ex_AppName e, ex_Address e) \<mapsto> new_entry now e)) (filter IsOnline es) m"

lemma es_abs_Bootstrap: "es_inv s \<Longrightarrow> es_abs (es_Bootstrap now es s) = boot_map now es (es_abs s)"
  by (induction es arbitrary: s) (auto simp: boot_map_def IsOnline_def es_inv_Register es_abs_Register)

section \<open>Listings, probes and sweeps on the registry\<close>

lemma set_listAll: "iter_order g ord \<Longrightarrow> set (grp_listAll ord g) = ran g"
  by (auto simp: grp_listAll_def go_range_iter ran_def image_iff)

lemma group_order: "orders_ok gord ord s \<Longrightarrow> es_groups s app = Some g \<Longrightarrow> iter_order g (ord app)"
  by (simp add: orders_ok_def)

lemma listAll_range: "es_groups s app = Some g \<Longrightarrow>
  map (es_entry s) (grp_listAll ord g) = map (\<lambda>(addr, p). es_entry s p) (go_range g ord)"
  by (simp add: grp_listAll_def case_prod_beta)

text \<open>The addresses a filtered listing returns.\<close>

lemma listing_addresses:
  fixes P :: "Entry \<Rightarrow> bool"
  assumes "es_inv s" "es_groups s app = Some g" "iter_order g ord"
  shows "set (map en_Address (filter P (map (es_entry s) (grp_listAll ord g)))) =
      {addr. \<exists>e. es_abs s (app, addr) = Some e \<and> P e}"
    and "distinct (map en_Address (filter P (map (es_entry s) (grp_listAll ord g))))"
proof -
  have l: "es_lookup s app addr = g addr" for addr using assms(2) by (simp add: es_lookup_def)
  have ad: "en_Address (es_entry s p) = addr" if "g addr = Some p" for addr p
    using assms(1) that l unfolding es_inv_def by metis
  let ?as = "map en_Address (filter P (map (es_entry s) (grp_listAll ord g)))"
  have "set ?as = en_Address ` {e. e \<in> es_entry s ` ran g \<and> P e}"
    by (auto simp: set_listAll [OF assms(3)])
  also have "\<dots> = {addr. \<exists>e. es_abs s (app, addr) = Some e \<and> P e}"
    using ad by (force simp: es_abs_def l ran_def image_iff)
  finally show "set ?as = {addr. \<exists>e. es_abs s (app, addr) = Some e \<and> P e}" .
  have "map en_Address (map (es_entry s) (grp_listAll ord g)) = map fst (go_range g ord)"
    using ad by (auto simp: grp_listAll_def set_go_range)
  then have "distinct (map en_Address (map (es_entry s) (grp_listAll ord g)))"
    using assms(3) distinct_go_range by (metis iter_order_def)
  then show "distinct ?as" by (rule distinct_map_filter)
qed

lemma all_entries_lookup:
  assumes "orders_ok gord ord s"
  shows "set (all_entries gord ord s) = {p. \<exists>app addr. es_lookup s app addr = Some p}"
proof -
  have "set (all_entries gord ord s) = (\<Union>(a, g) \<in> {(a, g). es_groups s a = Some g}. set (grp_listAll (ord a) g))"
    using assms by (auto simp: all_entries_def go_range_iter orders_ok_def)
  also have "\<dots> = (\<Union>(a, g) \<in> {(a, g). es_groups s a = Some g}. ran g)"
    using set_listAll [OF group_order [OF assms]] by auto
  also have "\<dots> = {p. \<exists>app addr. es_lookup s app addr = Some p}"
    by (fastforce simp: es_lookup_def ran_def split: option.splits)
  finally show ?thesis .
qed

text \<open>A sweep in one pass over the entries: each entry is looked at once, or more often to no effect.\<close>

definition swept :: "time \<Rightarrow> duration \<Rightarrow> Entry \<Rightarrow> Entry" where
  "swept now ttl e = (if ttl \<le> time_sub now (en_lastHeartbeat e) then en_SetHealthy False e else e)"

lemma swept_idem [simp]: "swept now ttl (swept now ttl e) = swept now ttl e"
  by (simp add: swept_def en_SetHealthy_def)

lemma sweep_entry_eq: "sweep_entry now ttl p s = upd_entry p (swept now ttl) s"
proof -
  have "swept now ttl (es_entry s p) = es_entry s p" if "\<not> en_healthy (es_entry s p)"
    using that by (simp add: swept_def en_SetHealthy_def)
  then show ?thesis by (auto simp: sweep_entry_def upd_entry_def swept_def)
qed

lemma sweep_fold:
  "es_entry (fold (sweep_entry now ttl) ps s) q = (if q \<in> set ps then swept now ttl (es_entry s q) else es_entry s q) \<and>
   es_groups (fold (sweep_entry now ttl) ps s) = es_groups s \<and>
   es_fresh (fold (sweep_entry now ttl) ps s) = es_fresh s \<and>
   es_probing (fold (sweep_entry now ttl) ps s) = es_probing s \<and>
   es_opts (fold (sweep_entry now ttl) ps s) = es_opts s"
  by (induction ps arbitrary: s) (auto simp: sweep_entry_eq upd_entry_def)

lemma es_abs_sweep:
  assumes "orders_ok gord ord s"
  shows "es_abs (sweepTTL now gord ord s) = map_option (swept now (eo_HeartbeatTTL (es_opts s))) \<circ> es_abs s"
proof
  fix k :: "string \<times> string"
  obtain a b where k: "k = (a, b)" by (rule prod.exhaust)
  have l: "es_lookup (sweepTTL now gord ord s) a b = es_lookup s a b"
    using sweep_fold by (simp add: es_lookup_def sweepTTL_def)
  show "es_abs (sweepTTL now gord ord s) k = (map_option (swept now (eo_HeartbeatTTL (es_opts s))) \<circ> es_abs s) k"
  proof (cases "es_lookup s a b")
    case (Some p)
    then have "p \<in> set (all_entries gord ord s)" using all_entries_lookup [OF assms] by blast
    then have "es_entry (sweepTTL now gord ord s) p = swept now (eo_HeartbeatTTL (es_opts s)) (es_entry s p)"
      using sweep_fold by (simp add: sweepTTL_def)
    then show ?thesis using Some by (simp add: k es_abs_def l)
  qed (simp add: k es_abs_def l)
qed

lemma es_inv_sweep: "es_inv s \<Longrightarrow> es_inv (sweepTTL now gord ord s)"
  unfolding es_inv_def sweepTTL_def using sweep_fold
  by (auto simp: es_lookup_def swept_def en_SetHealthy_def)

lemma es_probing_simps [simp]:
  "es_lookup (s\<lparr>es_probing := ps\<rparr>) = es_lookup s" "es_abs (s\<lparr>es_probing := ps\<rparr>) = es_abs s"
  by (simp_all add: es_lookup_def es_abs_def fun_eq_iff)

lemma es_inv_probing: "es_inv s \<Longrightarrow> \<forall>p \<in> set ps. p < es_fresh s \<Longrightarrow> es_inv (s\<lparr>es_probing := ps\<rparr>)"
  by (simp add: es_inv_def)

lemma es_abs_probe:
  "es_abs (probeOne p err s) = (\<lambda>(app, addr). if es_lookup s app addr = Some p
     then map_option (en_SetHealthy (err = None)) (es_abs s (app, addr)) else es_abs s (app, addr))"
  by (simp add: probeOne_def Let_def es_abs_upd_entry)

lemma es_inv_probe: "es_inv s \<Longrightarrow> es_inv (probeOne p err s)"
proof -
  assume i: "es_inv s"
  let ?s = "upd_entry p (en_SetHealthy (err = None)) s"
  have "es_inv ?s" by (rule es_inv_upd_entry [OF i]) simp
  moreover from this have "\<forall>q \<in> set (remove1 p (es_probing ?s)). q < es_fresh ?s"
    by (meson es_inv_def notin_set_remove1)
  ultimately show ?thesis unfolding probeOne_def Let_def by (rule es_inv_probing)
qed

lemma es_inv_targets: "es_inv s \<Longrightarrow> orders_ok gord ord s \<Longrightarrow> es_inv (probe_targets gord ord s)"
proof -
  assume i: "es_inv s" and o: "orders_ok gord ord s"
  have "\<forall>p \<in> set (all_entries gord ord s). p < es_fresh s"
    using i unfolding all_entries_lookup [OF o] es_inv_def by blast
  then show ?thesis unfolding probe_targets_def by (rule es_inv_probing [OF i])
qed

lemma es_inv_New: "es_inv (es_New unused opts)"
  by (simp add: es_inv_def es_New_def es_lookup_def)

lemma es_reachable_inv: "es_reachable s \<Longrightarrow> es_inv s"
proof (induction rule: es_reachable.induct)
  case (es_more s s')
  from es_more(2) show ?case
    using es_inv_Register [OF es_more(3)] es_inv_Heartbeat [OF es_more(3)] es_inv_Deregister [OF es_more(3)]
      es_inv_Bootstrap [OF es_more(3)] es_inv_targets [OF es_more(3)] es_inv_probe [OF es_more(3)]
      es_inv_sweep [OF es_more(3)]
    by (cases rule: es_step.cases) simp_all
qed (rule es_inv_New)

section \<open>The interface the scheduler uses\<close>

text \<open>What the scheduler relies on when it asks for addresses: both listings hold addresses of
  registered executors, each once, and the healthy ones are among the online ones.\<close>

locale address_source =
  fixes inv :: "'s \<Rightarrow> bool"
    and registry :: "'s \<Rightarrow> string \<times> string \<rightharpoonup> Entry"
    and fresh :: "time \<Rightarrow> 's \<Rightarrow> Entry \<Rightarrow> bool"
    and order :: "'s \<Rightarrow> string \<Rightarrow> string list \<Rightarrow> bool"
    and online :: "time \<Rightarrow> string list \<Rightarrow> string \<Rightarrow> 's \<Rightarrow> string list"
    and healthy :: "time \<Rightarrow> string list \<Rightarrow> string \<Rightarrow> 's \<Rightarrow> string list"
  assumes set_online: "inv s \<Longrightarrow> order s app ord \<Longrightarrow>
      set (online now ord app s) = {a. \<exists>e. registry s (app, a) = Some e \<and> fresh now s e}"
    and set_healthy: "inv s \<Longrightarrow> order s app ord \<Longrightarrow>
      set (healthy now ord app s) = {a. \<exists>e. registry s (app, a) = Some e \<and> fresh now s e \<and> en_healthy e}"
    and distinct_online: "inv s \<Longrightarrow> order s app ord \<Longrightarrow> distinct (online now ord app s)"
    and distinct_healthy: "inv s \<Longrightarrow> order s app ord \<Longrightarrow> distinct (healthy now ord app s)"
begin

lemma healthy_online:
  "inv s \<Longrightarrow> order s app ord \<Longrightarrow> order s app ord' \<Longrightarrow>
   set (healthy now ord app s) \<subseteq> set (online now ord' app s)"
  by (auto simp: set_online set_healthy)

lemma unregistered: "inv s \<Longrightarrow> order s app ord \<Longrightarrow> registry s (app, a) = None \<Longrightarrow>
  a \<notin> set (online now ord app s) \<and> a \<notin> set (healthy now ord app s)"
  by (auto simp: set_online set_healthy)

lemma all_down: "inv s \<Longrightarrow> order s app ord \<Longrightarrow>
  (\<And>a e. registry s (app, a) = Some e \<Longrightarrow> fresh now s e \<Longrightarrow> \<not> en_healthy e) \<Longrightarrow> healthy now ord app s = []"
proof -
  assume "inv s" "order s app ord"
    and down: "\<And>a e. registry s (app, a) = Some e \<Longrightarrow> fresh now s e \<Longrightarrow> \<not> en_healthy e"
  then have "set (healthy now ord app s) = {}" unfolding set_healthy [OF \<open>inv s\<close> \<open>order s app ord\<close>] by blast
  then show ?thesis by simp
qed

end

definition es_order :: "EStore \<Rightarrow> string \<Rightarrow> string list \<Rightarrow> bool" where
  "es_order s app ord \<longleftrightarrow> (case es_groups s app of None \<Rightarrow> True | Some g \<Rightarrow> iter_order g ord)"

definition es_fresh_entry :: "time \<Rightarrow> EStore \<Rightarrow> Entry \<Rightarrow> bool" where
  "es_fresh_entry now s e \<longleftrightarrow> en_online now (eo_HeartbeatTTL (es_opts s)) e"

lemma abs_no_group: "es_groups s app = None \<Longrightarrow> es_abs s (app, a) = None"
  by (simp add: es_abs_def es_lookup_def)

interpretation executors: address_source es_inv es_abs es_fresh_entry es_order
  es_ListOnlineAddresses es_ListHealthyAddresses
proof
  fix s app ord now
  assume i: "es_inv s" "es_order s app ord"
  show "set (es_ListOnlineAddresses now ord app s) = {a. \<exists>e. es_abs s (app, a) = Some e \<and> es_fresh_entry now s e}"
    "distinct (es_ListOnlineAddresses now ord app s)"
    "set (es_ListHealthyAddresses now ord app s) =
       {a. \<exists>e. es_abs s (app, a) = Some e \<and> es_fresh_entry now s e \<and> en_healthy e}"
    "distinct (es_ListHealthyAddresses now ord app s)"
    using i listing_addresses [OF i(1), of app]
    by (auto simp: es_ListOnlineAddresses_def es_ListHealthyAddresses_def getGroup_def es_order_def
        es_fresh_entry_def abs_no_group split: option.splits)
qed

section \<open>Properties\<close>

text \<open>Property C12: the store implements a registry from (app, address) to entries: every operation of a
  reachable store is the abstract one. Registering replaces the entry, a heartbeat of an unknown address
  changes nothing, a probe or a sweep changes the health of the entries it is about and nothing else.\<close>

theorem es_refines:
  assumes "es_reachable s"
  shows "es_abs (es_Register now e s) = (es_abs s)((ex_AppName e, ex_Address e) \<mapsto> new_entry now e) \<and>
    es_abs (es_Heartbeat now app addr c m s) = (case es_abs s (app, addr) of None \<Rightarrow> es_abs s
      | Some en \<Rightarrow> (es_abs s)((app, addr) \<mapsto> beat_entry now c m en)) \<and>
    es_abs (es_Deregister app addr s) = (es_abs s)((app, addr) := None) \<and>
    es_abs (es_Bootstrap now es s) = boot_map now es (es_abs s) \<and>
    es_abs (probeOne p err s) = (\<lambda>(app, addr). if es_lookup s app addr = Some p
      then map_option (en_SetHealthy (err = None)) (es_abs s (app, addr)) else es_abs s (app, addr)) \<and>
    (orders_ok gord ord s \<longrightarrow>
      es_abs (sweepTTL now gord ord s) = map_option (swept now (eo_HeartbeatTTL (es_opts s))) \<circ> es_abs s)"
proof -
  note i = es_reachable_inv [OF assms]
  show ?thesis
    by (intro conjI impI es_abs_Register [OF i] es_abs_Heartbeat [OF i] es_abs_Deregister
        es_abs_Bootstrap [OF i] es_abs_probe es_abs_sweep)
qed

definition demo_entry :: Entry where
  "demo_entry = \<lparr>en_ID = 0, en_AppName = [], en_Address = [], en_Weight = 0, en_Version = [],
     en_healthy = False, en_lastHeartbeat = 0, en_cpu = 0, en_memory = 0\<rparr>"

definition demo_executor :: "string \<Rightarrow> string \<Rightarrow> Executor" where
  "demo_executor app addr = \<lparr>ex_ID = 1, ex_AppName = app, ex_Title = [], ex_Address = addr, ex_RegisterType = RegisterAuto,
     ex_Status = ExecutorOnline, ex_Weight = 1, ex_HeartbeatTime = None, ex_Version = [], ex_Tags = []\<rparr>"

definition demo_store :: EStore where
  "demo_store = es_Register 5 (demo_executor ''app'' ''a1'') (es_New demo_entry [])"

lemma demo_store_facts: "es_reachable demo_store" "es_groups demo_store ''app'' = Some [''a1'' \<mapsto> 0]"
  "es_entry demo_store 0 = new_entry 5 (demo_executor ''app'' ''a1'')"
  "es_opts demo_store = es_defaultOptions"
proof -
  show "es_reachable demo_store" unfolding demo_store_def by (rule es_more [OF es_init register])
  show "es_groups demo_store ''app'' = Some [''a1'' \<mapsto> 0]" "es_opts demo_store = es_defaultOptions"
    by (simp_all add: demo_store_def es_Register_def es_New_def getOrCreateGroup_def newAppGroup_def
        grp_add_def demo_executor_def Let_def)
  show "es_entry demo_store 0 = new_entry 5 (demo_executor ''app'' ''a1'')"
    by (simp add: demo_store_def Register_facts es_New_def)
qed

lemma es_refines_witness:
  "es_abs (es_Deregister ''app'' ''a1'' demo_store) (''app'', ''a1'') = None \<and> es_abs demo_store (''app'', ''a1'') \<noteq> None"
  using es_refines [OF demo_store_facts(1), of 0 undefined "''app''" "''a1''"]
  by (simp add: es_abs_def es_lookup_def demo_store_facts)

text \<open>The listings of a reachable store are exact: the online addresses of an app are those
  of its registered executors with a heartbeat within the TTL, the healthy ones those that also passed
  their last probe, and no address is listed twice.\<close>

lemma es_listings:
  assumes "es_reachable s" "es_order s app ord"
  shows "set (es_ListOnlineAddresses now ord app s) =
      {a. \<exists>e. es_abs s (app, a) = Some e \<and> en_online now (eo_HeartbeatTTL (es_opts s)) e} \<and>
    set (es_ListHealthyAddresses now ord app s) =
      {a. \<exists>e. es_abs s (app, a) = Some e \<and> en_online now (eo_HeartbeatTTL (es_opts s)) e \<and> en_healthy e} \<and>
    distinct (es_ListOnlineAddresses now ord app s) \<and> distinct (es_ListHealthyAddresses now ord app s)"
  using executors.set_online executors.set_healthy executors.distinct_online executors.distinct_healthy
    es_reachable_inv [OF assms(1)] assms(2) unfolding es_fresh_entry_def by blast

lemma es_listings_witness: "set (es_ListHealthyAddresses 6 [''a1''] ''app'' demo_store) = {''a1''}"
proof -
  have "es_order demo_store ''app'' [''a1'']"
    by (simp add: es_order_def demo_store_facts iter_order_def)
  note L = es_listings [OF demo_store_facts(1) this, of 6]
  have "en_online 6 (90 * second) (new_entry 5 (demo_executor ''app'' ''a1''))"
    by (simp add: en_online_def new_entry_def time_sub_def i64_min_def i64_max_def second_def)
  then show ?thesis
    using L by (auto simp: es_abs_def es_lookup_def demo_store_facts es_defaultOptions_def new_entry_def)
qed

text \<open>A probe that was started before an executor registered again answers for the old
  entry: whatever it reports, the new entry is as registered.\<close>

lemma late_probe_harmless:
  assumes "es_reachable s" "p \<in> set (es_probing s)"
  shows "es_abs (probeOne p err (es_Register now e s)) (ex_AppName e, ex_Address e) = Some (new_entry now e)"
proof -
  have i: "es_inv s" by (rule es_reachable_inv [OF assms(1)])
  then have "p \<noteq> es_fresh s" using assms(2) by (auto simp: es_inv_def)
  then show ?thesis
    using es_abs_Register [OF i, of now e] by (simp add: es_abs_probe Register_facts)
qed

lemma late_probe_harmless_witness:
  "es_abs (probeOne 0 (Some ''timeout'') (es_Register 9 (demo_executor ''app'' ''a1'')
     (probe_targets [''app''] (\<lambda>_. [''a1'']) demo_store))) (''app'', ''a1'') =
   Some (new_entry 9 (demo_executor ''app'' ''a1''))"
proof -
  let ?s = "probe_targets [''app''] (\<lambda>_. [''a1'']) demo_store"
  have g: "es_groups demo_store = [''app'' \<mapsto> [''a1'' \<mapsto> 0]]"
    by (simp add: demo_store_def es_Register_def es_New_def getOrCreateGroup_def newAppGroup_def
        grp_add_def demo_executor_def Let_def)
  have "es_probing demo_store = []" by (simp add: demo_store_def Register_facts es_New_def)
  then have "es_step demo_store ?s"
    by (rule probe_all) (auto simp: g orders_ok_def iter_order_def split: if_splits)
  then have "es_reachable ?s" by (rule es_more [OF demo_store_facts(1)])
  moreover have "0 \<in> set (es_probing ?s)"
    by (simp add: probe_targets_def all_entries_def g grp_listAll_def)
  ultimately have "es_abs (probeOne 0 (Some ''timeout'') (es_Register 9 (demo_executor ''app'' ''a1'') ?s))
      (ex_AppName (demo_executor ''app'' ''a1''), ex_Address (demo_executor ''app'' ''a1'')) =
      Some (new_entry 9 (demo_executor ''app'' ''a1''))"
    by (rule late_probe_harmless)
  then show ?thesis by (simp only: demo_executor_def Executor.select_convs)
qed

end
