(* ===== verification/Param_Tpl.thy ===== *)
theory Param_Tpl
  imports Go_Prelude "HOL-Library.Sublist"
begin

text \<open>
  \<open>pkg/paramtpl/paramtpl.go\<close>: the template engine that renders a job's parameter at trigger time.

  \<open>text/template\<close> is two arguments of the model: \<open>parse\<close> (with the engine's function map and
  \<open>missingkey=error\<close>) and \<open>exec\<close>. The calendar part of \<open>time\<close> is written out for a local zone with a
  fixed offset \<open>loc\<close> from UTC. Calls are atomic: the engine's lock is not modelled.
\<close>

section \<open>The calendar\<close>

type_synonym civil = "int \<times> int \<times> int"

text \<open>Days since 1970-01-01 to (year, month, day) of the proleptic Gregorian calendar; years are counted
  from March so that the leap day is the last.\<close>

definition civil_of_days :: "int \<Rightarrow> civil" where
  "civil_of_days z0 =
     (let z = z0 + 719468; era = z div 146097; doe = z mod 146097;
          yoe = (doe - doe div 1460 + doe div 36524 - doe div 146096) div 365;
          doy = doe - (365 * yoe + yoe div 4 - yoe div 100);
          mp = (5 * doy + 2) div 153;
          d = doy - (153 * mp + 2) div 5 + 1;
          m = (if mp < 10 then mp + 3 else mp - 9);
          y = yoe + era * 400 + (if m \<le> 2 then 1 else 0)
      in (y, m, d))"

definition local_secs :: "int \<Rightarrow> time \<Rightarrow> int" where
  "local_secs loc t = t div 1000000000 + loc"

definition local_day :: "int \<Rightarrow> time \<Rightarrow> int" where "local_day loc t = local_secs loc t div 86400"

definition secs_of_day :: "int \<Rightarrow> time \<Rightarrow> int" where "secs_of_day loc t = local_secs loc t mod 86400"

definition pad2 :: "int \<Rightarrow> string" where
  "pad2 n = (if n < 10 then CHR ''0'' # itoa n else itoa n)"

definition pad4 :: "int \<Rightarrow> string" where
  "pad4 n = (let s = utoa (nat \<bar>n\<bar>) in (if n < 0 then ''-'' else []) @ replicate (4 - length s) (CHR ''0'') @ s)"

definition format_date :: "int \<Rightarrow> time \<Rightarrow> string" where
  "format_date loc t = (case civil_of_days (local_day loc t) of (y, m, d) \<Rightarrow>
     pad4 y @ ''-'' @ pad2 m @ ''-'' @ pad2 d)"

definition format_hour :: "int \<Rightarrow> time \<Rightarrow> string" where
  "format_hour loc t = pad2 (secs_of_day loc t div 3600)"

definition format_time :: "int \<Rightarrow> time \<Rightarrow> string" where
  "format_time loc t = format_hour loc t @ '':'' @ pad2 (secs_of_day loc t div 60 mod 60) @ '':'' @
     pad2 (secs_of_day loc t mod 60)"

definition add_days :: "time \<Rightarrow> int \<Rightarrow> time" where "add_days t n = t + n * 86400 * 1000000000"

definition weekday :: "int \<Rightarrow> time \<Rightarrow> string" where
  "weekday loc t = [''Thursday'', ''Friday'', ''Saturday'', ''Sunday'', ''Monday'', ''Tuesday'', ''Wednesday''] !
     nat (local_day loc t mod 7)"

definition month_name :: "int \<Rightarrow> time \<Rightarrow> string" where
  "month_name loc t = [''January'', ''February'', ''March'', ''April'', ''May'', ''June'', ''July'', ''August'',
     ''September'', ''October'', ''November'', ''December''] ! nat (fst (snd (civil_of_days (local_day loc t))) - 1)"

section \<open>Configuration and variables\<close>

datatype anyv = AStr string | AInt int | ATime time

text \<open>The functions a template can call; \<open>WithFuncMap\<close> adds the client's own.\<close>

datatype 'c tfun = DaysAgo | DaysAfter | FormatDate | AddInts | ModInts | DefaultStr | NowUnix | Custom 'c

record TriggerContext =
  tc_JobID :: int
  tc_ShardIndex :: int
  tc_ShardTotal :: int
  tc_TriggerType :: string
  tc_Extra :: "string \<rightharpoonup> anyv"

record TriggerVars =
  tv_Now :: time
  tv_Date :: string
  tv_DateTime :: string
  tv_DateHour :: string
  tv_Yesterday :: string
  tv_Tomorrow :: string
  tv_StartOfDay :: string
  tv_EndOfDay :: string
  tv_Unix :: int
  tv_UnixMilli :: int
  tv_Weekday :: string
  tv_Month :: string
  tv_Year :: int
  tv_ShardIndex :: int
  tv_ShardTotal :: int
  tv_JobID :: int
  tv_TriggerType :: string
  tv_NodeID :: string
  tv_Env :: string
  tv_extra :: "string \<rightharpoonup> anyv"

record 'c engineConfig =
  ec_env :: string
  ec_nodeID :: string
  ec_cacheSize :: int
  ec_funcMap :: "string \<rightharpoonup> 'c tfun"

definition tpl_defaultConfig :: "'c engineConfig" where
  "tpl_defaultConfig = \<lparr>ec_env = ''dev'', ec_nodeID = ''default'', ec_cacheSize = 1024, ec_funcMap = Map.empty\<rparr>"

definition tpl_WithEnv :: "string \<Rightarrow> 'c engineConfig \<Rightarrow> 'c engineConfig" where
  "tpl_WithEnv env c = c\<lparr>ec_env := env\<rparr>"

definition tpl_WithNodeID :: "string \<Rightarrow> 'c engineConfig \<Rightarrow> 'c engineConfig" where
  "tpl_WithNodeID i c = c\<lparr>ec_nodeID := i\<rparr>"

definition tpl_WithCacheSize :: "int \<Rightarrow> 'c engineConfig \<Rightarrow> 'c engineConfig" where
  "tpl_WithCacheSize n c = c\<lparr>ec_cacheSize := n\<rparr>"

definition tpl_WithFuncMap :: "(string \<rightharpoonup> 'c tfun) \<Rightarrow> 'c engineConfig \<Rightarrow> 'c engineConfig" where
  "tpl_WithFuncMap fm c = c\<lparr>ec_funcMap := ec_funcMap c ++ fm\<rparr>"

definition builtinFuncMap :: "string \<rightharpoonup> 'c tfun" where
  "builtinFuncMap = [''daysAgo'' \<mapsto> DaysAgo, ''daysAfter'' \<mapsto> DaysAfter, ''formatDate'' \<mapsto> FormatDate,
     ''add'' \<mapsto> AddInts, ''mod'' \<mapsto> ModInts, ''default'' \<mapsto> DefaultStr, ''now'' \<mapsto> NowUnix]"

text \<open>The bodies of the built-in functions (\<open>formatDate\<close> is \<open>time.Format\<close> itself).\<close>

definition fn_daysAgo :: "int \<Rightarrow> time \<Rightarrow> int \<Rightarrow> string" where
  "fn_daysAgo loc now n = format_date loc (add_days now (i64 (- n)))"

definition fn_daysAfter :: "int \<Rightarrow> time \<Rightarrow> int \<Rightarrow> string" where
  "fn_daysAfter loc now n = format_date loc (add_days now n)"

definition fn_add :: "int \<Rightarrow> int \<Rightarrow> int" where "fn_add a b = i64 (a + b)"

definition fn_mod :: "int \<Rightarrow> int \<Rightarrow> int go_result" where
  "fn_mod a b = (if b = 0 then Panic else Ok (i64 (go_mod a b)))"

definition fn_default :: "string \<Rightarrow> string \<Rightarrow> string" where
  "fn_default def val = (if val = [] then def else val)"

definition fn_now :: "time \<Rightarrow> int" where "fn_now now = now div 1000000000"

section \<open>The engine\<close>

record ('c, 't) Engine =
  en_cfg :: "'c engineConfig"
  en_funcMap :: "string \<rightharpoonup> 'c tfun"
  en_cache :: "string \<rightharpoonup> 't"

definition tpl_New :: "('c engineConfig \<Rightarrow> 'c engineConfig) list \<Rightarrow> ('c, 't) Engine" where
  "tpl_New opts =
     (let cfg = foldl (\<lambda>c opt. opt c) tpl_defaultConfig opts
      in \<lparr>en_cfg = cfg, en_funcMap = builtinFuncMap ++ ec_funcMap cfg, en_cache = Map.empty\<rparr>)"

definition BuildVars :: "int \<Rightarrow> time \<Rightarrow> TriggerContext \<Rightarrow> ('c, 't) Engine \<Rightarrow> TriggerVars" where
  "BuildVars loc now ctx e =
     (let date = format_date loc now
      in \<lparr>tv_Now = now, tv_Date = date, tv_DateTime = date @ '' '' @ format_time loc now,
          tv_DateHour = date @ '' '' @ format_hour loc now,
          tv_Yesterday = format_date loc (add_days now (- 1)),
          tv_Tomorrow = format_date loc (add_days now 1),
          tv_StartOfDay = date @ '' 00:00:00'', tv_EndOfDay = date @ '' 23:59:59'',
          tv_Unix = now div 1000000000, tv_UnixMilli = now div 1000000,
          tv_Weekday = weekday loc now, tv_Month = month_name loc now,
          tv_Year = fst (civil_of_days (local_day loc now)),
          tv_ShardIndex = tc_ShardIndex ctx, tv_ShardTotal = tc_ShardTotal ctx, tv_JobID = tc_JobID ctx,
          tv_TriggerType = tc_TriggerType ctx, tv_NodeID = ec_nodeID (en_cfg e), tv_Env = ec_env (en_cfg e),
          tv_extra = tc_Extra ctx\<rparr>)"

fun hasTemplate :: "string \<Rightarrow> bool" where
  "hasTemplate (c # d # s) \<longleftrightarrow> (c = CHR ''{'' \<and> d = CHR ''{'') \<or> hasTemplate (d # s)"
| "hasTemplate s \<longleftrightarrow> False"

definition builtin_data :: "TriggerVars \<Rightarrow> string \<rightharpoonup> anyv" where
  "builtin_data v = map_of
     [(''Now'', ATime (tv_Now v)), (''Date'', AStr (tv_Date v)), (''DateTime'', AStr (tv_DateTime v)),
      (''DateHour'', AStr (tv_DateHour v)), (''Yesterday'', AStr (tv_Yesterday v)),
      (''Tomorrow'', AStr (tv_Tomorrow v)), (''StartOfDay'', AStr (tv_StartOfDay v)),
      (''EndOfDay'', AStr (tv_EndOfDay v)), (''Unix'', AInt (tv_Unix v)), (''UnixMilli'', AInt (tv_UnixMilli v)),
      (''Weekday'', AStr (tv_Weekday v)), (''Month'', AStr (tv_Month v)), (''Year'', AInt (tv_Year v)),
      (''ShardIndex'', AInt (tv_ShardIndex v)), (''ShardTotal'', AInt (tv_ShardTotal v)),
      (''JobID'', AInt (tv_JobID v)), (''TriggerType'', AStr (tv_TriggerType v)),
      (''NodeID'', AStr (tv_NodeID v)), (''Env'', AStr (tv_Env v))]"

definition mergeData :: "TriggerVars \<Rightarrow> string \<rightharpoonup> anyv" where
  "mergeData v = builtin_data v ++ tv_extra v"

type_synonym ('c, 't) parser = "(string \<rightharpoonup> 'c tfun) \<Rightarrow> string \<Rightarrow> string + 't"

definition tpl_compile :: "('c, 't) parser \<Rightarrow> string \<Rightarrow> ('c, 't) Engine \<Rightarrow> (string + 't) \<times> ('c, 't) Engine" where
  "tpl_compile parse tpl e =
     (case en_cache e tpl of
        Some t \<Rightarrow> (Inr t, e)
      | None \<Rightarrow>
          (case parse (en_funcMap e) tpl of
             Inl err \<Rightarrow> (Inl err, e)
           | Inr t \<Rightarrow>
               let n = ec_cacheSize (en_cfg e);
                   e1 = (if n > 0 \<and> int (map_len (en_cache e)) \<ge> n then e\<lparr>en_cache := Map.empty\<rparr> else e);
                   e2 = (if n > 0 then e1\<lparr>en_cache := (en_cache e1)(tpl \<mapsto> t)\<rparr> else e1)
               in (Inr t, e2)))"

type_synonym 't executor = "'t \<Rightarrow> (string \<rightharpoonup> anyv) \<Rightarrow> string + string"

definition empty_context :: TriggerContext where
  "empty_context = \<lparr>tc_JobID = 0, tc_ShardIndex = 0, tc_ShardTotal = 0, tc_TriggerType = [], tc_Extra = Map.empty\<rparr>"

text \<open>The wrapped errors keep what \<open>fmt.Errorf\<close> puts into their text.\<close>

datatype tpl_error = TplCompile string string | TplExecute string | TplInvalid string

text \<open>The result of \<open>Render\<close> is the pair (string, error) of the code.\<close>

definition tpl_Render :: "('c, 't) parser \<Rightarrow> 't executor \<Rightarrow> int \<Rightarrow> time \<Rightarrow> string \<Rightarrow> TriggerVars option \<Rightarrow>
    ('c, 't) Engine \<Rightarrow> (string \<times> tpl_error option) \<times> ('c, 't) Engine" where
  "tpl_Render parse exec loc now tpl vars e =
     (if \<not> hasTemplate tpl then ((tpl, None), e)
      else let v = (case vars of Some v \<Rightarrow> v | None \<Rightarrow> BuildVars loc now empty_context e);
               (res, e1) = tpl_compile parse tpl e
           in case res of
                Inl err \<Rightarrow> ((tpl, Some (TplCompile tpl err)), e1)
              | Inr t \<Rightarrow>
                  (case exec t (mergeData v) of
                     Inl err \<Rightarrow> ((tpl, Some (TplExecute err)), e1)
                   | Inr s \<Rightarrow> ((s, None), e1)))"

definition tpl_Validate :: "('c, 't) parser \<Rightarrow> string \<Rightarrow> ('c, 't) Engine \<Rightarrow> tpl_error option \<times> ('c, 't) Engine" where
  "tpl_Validate parse tpl e =
     (if \<not> hasTemplate tpl then (None, e)
      else case tpl_compile parse tpl e of
             (Inl err, e1) \<Rightarrow> (Some (TplInvalid err), e1)
           | (Inr t, e1) \<Rightarrow> (None, e1))"

definition tpl_MustRender :: "('c, 't) parser \<Rightarrow> 't executor \<Rightarrow> int \<Rightarrow> time \<Rightarrow> string \<Rightarrow> TriggerVars option \<Rightarrow>
    ('c, 't) Engine \<Rightarrow> string go_result \<times> ('c, 't) Engine" where
  "tpl_MustRender parse exec loc now tpl vars e =
     (case tpl_Render parse exec loc now tpl vars e of
        ((s, Some err), e1) \<Rightarrow> (Panic, e1) | ((s, None), e1) \<Rightarrow> (Ok s, e1))"

definition tpl_CacheLen :: "('c, 't) Engine \<Rightarrow> nat" where "tpl_CacheLen e = map_len (en_cache e)"

definition tpl_ClearCache :: "('c, 't) Engine \<Rightarrow> ('c, 't) Engine" where
  "tpl_ClearCache e = e\<lparr>en_cache := Map.empty\<rparr>"

section \<open>The cache is invisible\<close>

definition engine_inv :: "('c, 't) parser \<Rightarrow> ('c, 't) Engine \<Rightarrow> bool" where
  "engine_inv parse e \<longleftrightarrow> finite (dom (en_cache e)) \<and>
     (\<forall>tpl t. en_cache e tpl = Some t \<longrightarrow> parse (en_funcMap e) tpl = Inr t) \<and>
     (if ec_cacheSize (en_cfg e) > 0 then int (map_len (en_cache e)) \<le> ec_cacheSize (en_cfg e)
      else en_cache e = Map.empty)"

definition same_engine :: "('c, 't) Engine \<Rightarrow> ('c, 't) Engine \<Rightarrow> bool" where
  "same_engine e e' \<longleftrightarrow> en_cfg e' = en_cfg e \<and> en_funcMap e' = en_funcMap e"

lemma engine_inv_New: "engine_inv parse (tpl_New opts)"
  by (simp add: engine_inv_def tpl_New_def Let_def map_len_def)

lemma engine_inv_Clear: "engine_inv parse e \<Longrightarrow> engine_inv parse (tpl_ClearCache e)"
  by (simp add: engine_inv_def tpl_ClearCache_def map_len_def)

lemma engine_inv_insert:
  assumes "engine_inv parse e" "en_cache e tpl = None" "parse (en_funcMap e) tpl = Inr t"
    "ec_cacheSize (en_cfg e) > int (map_len (en_cache e))"
  shows "engine_inv parse (e\<lparr>en_cache := (en_cache e)(tpl \<mapsto> t)\<rparr>)"
  using assms map_len_upd_new [of "en_cache e" tpl t] by (auto simp: engine_inv_def)

lemma tpl_compile_ok:
  assumes "engine_inv parse e" "tpl_compile parse tpl e = (res, e')"
  shows "res = parse (en_funcMap e) tpl \<and> engine_inv parse e' \<and> same_engine e e'"
proof (cases "en_cache e tpl")
  case (Some t)
  then show ?thesis using assms by (auto simp: tpl_compile_def engine_inv_def same_engine_def)
next
  case None
  let ?n = "ec_cacheSize (en_cfg e)"
  show ?thesis
  proof (cases "parse (en_funcMap e) tpl")
    case (Inl err)
    then show ?thesis using None assms by (auto simp: tpl_compile_def same_engine_def)
  next
    case (Inr t)
    let ?e1 = "if ?n > 0 \<and> int (map_len (en_cache e)) \<ge> ?n then tpl_ClearCache e else e"
    have e1: "engine_inv parse ?e1" using assms(1) engine_inv_Clear by auto
    have c: "en_cache ?e1 tpl = None" "en_funcMap ?e1 = en_funcMap e" "en_cfg ?e1 = en_cfg e"
      using None by (simp_all add: tpl_ClearCache_def)
    have "?n > 0 \<Longrightarrow> ?n > int (map_len (en_cache ?e1))" by (simp add: tpl_ClearCache_def map_len_def)
    then have "?n > 0 \<Longrightarrow> engine_inv parse (?e1\<lparr>en_cache := (en_cache ?e1)(tpl \<mapsto> t)\<rparr>)"
      using engine_inv_insert [OF e1 c(1)] c(2,3) Inr by simp
    moreover have "res = Inr t" "e' = (if ?n > 0 then ?e1\<lparr>en_cache := (en_cache ?e1)(tpl \<mapsto> t)\<rparr> else ?e1)"
      using assms(2) None Inr by (simp_all add: tpl_compile_def tpl_ClearCache_def Let_def split: if_splits)
    ultimately show ?thesis using Inr e1 c(2,3) by (auto simp: same_engine_def)
  qed
qed

text \<open>Rendering without a cache.\<close>

definition render_spec :: "('c, 't) parser \<Rightarrow> 't executor \<Rightarrow> (string \<rightharpoonup> 'c tfun) \<Rightarrow> string \<Rightarrow> TriggerVars \<Rightarrow>
    string \<times> tpl_error option" where
  "render_spec parse exec fm tpl v =
     (if \<not> (\<exists>a b. tpl = a @ ''{{'' @ b) then (tpl, None)
      else case parse fm tpl of
             Inl err \<Rightarrow> (tpl, Some (TplCompile tpl err))
           | Inr t \<Rightarrow> (case exec t (mergeData v) of
               Inl err \<Rightarrow> (tpl, Some (TplExecute err)) | Inr s \<Rightarrow> (s, None)))"

lemma hasTemplate_iff: "hasTemplate s \<longleftrightarrow> (\<exists>a b. s = a @ ''{{'' @ b)"
proof (induction s rule: hasTemplate.induct)
  case (1 c d s)
  have "(\<exists>a b. c # d # s = a @ ''{{'' @ b) \<longleftrightarrow>
      (c = CHR ''{'' \<and> d = CHR ''{'') \<or> (\<exists>a b. d # s = a @ ''{{'' @ b)"
    by (auto simp: Cons_eq_append_conv)
  then show ?case using 1 by simp
qed (auto simp: Cons_eq_append_conv)

inductive engine_reachable :: "('c, 't) parser \<Rightarrow> 't executor \<Rightarrow> ('c, 't) Engine \<Rightarrow> bool"
  for parse :: "('c, 't) parser" and exec :: "'t executor" where
  engine_new: "engine_reachable parse exec (tpl_New opts)"
| engine_render: "engine_reachable parse exec e \<Longrightarrow>
    engine_reachable parse exec (snd (tpl_Render parse exec loc now tpl vars e))"
| engine_validate: "engine_reachable parse exec e \<Longrightarrow> engine_reachable parse exec (snd (tpl_Validate parse tpl e))"
| engine_clear: "engine_reachable parse exec e \<Longrightarrow> engine_reachable parse exec (tpl_ClearCache e)"

lemma Render_engine:
  assumes "engine_inv parse e"
  shows "engine_inv parse (snd (tpl_Render parse exec loc now tpl vars e))"
  using tpl_compile_ok [OF assms, of tpl "fst (tpl_compile parse tpl e)" "snd (tpl_compile parse tpl e)"] assms
  by (auto simp: tpl_Render_def Let_def case_prod_beta split: sum.splits option.splits)

lemma Validate_engine:
  assumes "engine_inv parse e"
  shows "engine_inv parse (snd (tpl_Validate parse tpl e))"
  using tpl_compile_ok [OF assms, of tpl "fst (tpl_compile parse tpl e)" "snd (tpl_compile parse tpl e)"] assms
  by (cases "tpl_compile parse tpl e") (auto simp: tpl_Validate_def split: sum.splits)

lemma engine_reachable_inv: "engine_reachable parse exec e \<Longrightarrow> engine_inv parse e"
  by (induction rule: engine_reachable.induct)
    (auto intro: engine_inv_New engine_inv_Clear Render_engine Validate_engine)

text \<open>Property C23: whatever was rendered before, \<open>Render\<close> returns what parsing and executing the
  template afresh returns: a parameter without \<open>{{\<close> is returned as it is, an error comes with the raw
  parameter, and the cache never holds more templates than its size.\<close>

theorem Render_equiv:
  assumes "engine_reachable parse exec e"
  shows "fst (tpl_Render parse exec loc now tpl (Some v) e) = render_spec parse exec (en_funcMap e) tpl v \<and>
    (0 < ec_cacheSize (en_cfg e) \<longrightarrow> int (tpl_CacheLen e) \<le> ec_cacheSize (en_cfg e)) \<and>
    (ec_cacheSize (en_cfg e) \<le> 0 \<longrightarrow> tpl_CacheLen e = 0)"
proof -
  have i: "engine_inv parse e" by (rule engine_reachable_inv [OF assms])
  obtain res e' where c: "tpl_compile parse tpl e = (res, e')" by (rule prod.exhaust)
  have "res = parse (en_funcMap e) tpl" using tpl_compile_ok [OF i c] by blast
  then have "fst (tpl_Render parse exec loc now tpl (Some v) e) = render_spec parse exec (en_funcMap e) tpl v"
    unfolding render_spec_def hasTemplate_iff [symmetric]
    by (simp add: tpl_Render_def c split: sum.splits)
  then show ?thesis using i by (auto simp: engine_inv_def tpl_CacheLen_def map_len_def)
qed

lemma Render_equiv_witness:
  "fst (tpl_Render (\<lambda>fm s. Inr s) (\<lambda>t d. Inr (t @ ''!'')) 0 0 ''a{{b}}''
     (Some (BuildVars 0 0 empty_context (tpl_New [] :: (unit, string) Engine))) (tpl_New [] :: (unit, string) Engine)) = (''a{{b}}!'', None)"
proof -
  have t: "hasTemplate ''a{{b}}''" by simp
  show ?thesis
    using Render_equiv [OF engine_new [of "(\<lambda>fm s. Inr s) :: (unit, string) parser" "\<lambda>t d. Inr (t @ ''!'')" "[]"], of 0 0 "''a{{b}}''"
        "BuildVars 0 0 empty_context (tpl_New [] :: (unit, string) Engine)"]
    unfolding render_spec_def hasTemplate_iff [symmetric] using t by simp
qed

text \<open>In the data of a template a user variable overrides the built-in one of the same
  name, and every built-in variable is there; \<open>missingkey=error\<close> can only strike on a name that is neither.\<close>

lemma mergeData_correct:
  "mergeData v k = (case tv_extra v k of Some x \<Rightarrow> Some x | None \<Rightarrow> builtin_data v k) \<and>
   dom (mergeData v) = dom (tv_extra v) \<union> {''Now'', ''Date'', ''DateTime'', ''DateHour'', ''Yesterday'', ''Tomorrow'',
     ''StartOfDay'', ''EndOfDay'', ''Unix'', ''UnixMilli'', ''Weekday'', ''Month'', ''Year'', ''ShardIndex'',
     ''ShardTotal'', ''JobID'', ''TriggerType'', ''NodeID'', ''Env''}"
  by (auto simp: mergeData_def map_add_def builtin_data_def dom_map_of_conv_image_fst split: option.splits)

end
