(* ===== verification/Dispatch.thy ===== *)
theory Dispatch
  imports Job_Store Time_Wheel Router Rate_Limit Executor_Store Param_Tpl
begin

text \<open>
  The trigger path of \<open>internal/scheduler\<close>: the scheduler's state (\<open>scheduler.go\<close>), what a worker does
  with a trigger (\<open>handleTask\<close> and what it calls), the block and misfire strategies and the HTTP client
  of the executors (\<open>block_strategy.go\<close>, \<open>misfire.go\<close>, \<open>executor_client.go\<close>).

  What the handler asks the outside world (clock, Redis, database, network, random numbers, map
  iteration order) is the record \<open>answers\<close>, one per call; cron and template libraries are the record
  \<open>libs\<close>. What it does to the outside world is appended to \<open>sd_out\<close>. The goroutines it starts are in
  \<open>sd_calls\<close> until they run. Logging is not modelled.
\<close>

section \<open>Executor client\<close>

record ExecutorTrigger =
  et_LogID :: int
  et_JobID :: int
  et_ExecutorHandler :: string
  et_ExecuteType :: string
  et_ExecuteParam :: string
  et_ShardingIndex :: int
  et_ShardingTotal :: int
  et_Timeout :: int

record KillRequest =
  kr_LogID :: int
  kr_JobID :: int

datatype payload = RunBody ExecutorTrigger | KillBody KillRequest | IdleBeatBody int | NoBody

text \<open>What \<open>net/http\<close> can answer: the URL does not parse, no response, or a status with the message of
  its JSON body.\<close>

datatype http_answer = BadURL string | NoResponse string | Response int string

type_synonym network = "string \<Rightarrow> payload \<Rightarrow> http_answer"

definition client_url :: "string \<Rightarrow> string \<Rightarrow> string" where
  "client_url address path = ''http://'' @ address @ path"

definition client_post :: "network \<Rightarrow> string \<Rightarrow> string \<Rightarrow> payload \<Rightarrow> string option" where
  "client_post net address path body =
     (let url = client_url address path
      in case net url body of
           BadURL err \<Rightarrow> Some (''executor client: new request: '' @ err)
         | NoResponse err \<Rightarrow> Some (''executor client: do request to '' @ url @ '': '' @ err)
         | Response code msg \<Rightarrow>
             if code \<noteq> 200 then Some (''executor client: '' @ url @ '' returned '' @ itoa code @ '': '' @ msg)
             else None)"

definition client_Run :: "network \<Rightarrow> string \<Rightarrow> ExecutorTrigger \<Rightarrow> string option" where
  "client_Run net address trigger = client_post net address ''/executor/run'' (RunBody trigger)"

definition client_Kill :: "network \<Rightarrow> string \<Rightarrow> KillRequest \<Rightarrow> string option" where
  "client_Kill net address req = client_post net address ''/executor/kill'' (KillBody req)"

definition client_IdleBeat :: "network \<Rightarrow> string \<Rightarrow> int \<Rightarrow> string option" where
  "client_IdleBeat net address jobID = client_post net address ''/executor/idleBeat'' (IdleBeatBody jobID)"

definition client_Beat :: "network \<Rightarrow> string \<Rightarrow> string option" where
  "client_Beat net address = client_post net address ''/executor/beat'' NoBody"

section \<open>State\<close>

record triggerTask =
  tt_job :: JobInfo
  tt_triggerTime :: time
  tt_triggerType :: trigger_type

datatype effect =
    ReleaseLock string string
  | KillSent string KillRequest
  | LogCreated JobLog
  | RunSent string ExecutorTrigger
  | ResultUpdated int log_status string time time

text \<open>A closure the scheduler gives to the wheel captures the job's ID and its fire time.\<close>

type_synonym closure = "int \<times> time"

record ('c, 't) Scheduler =
  sd_nodeID :: string
  sd_redis :: bool
  sd_store :: Store
  sd_executorStore :: "EStore option"
  sd_wheel :: "closure TimeWheel"
  sd_workerCh :: "triggerTask list"
  sd_workerCap :: int
  sd_flushCtx :: bool
  sd_flushing :: nat
  sd_running :: bool
  sd_stopCh :: bool
  sd_workers :: nat
  sd_rateLimiter :: "RLRegistry option"
  sd_paramEngine :: "('c, 't) Engine option"
  sd_routers :: routers
  sd_callbacks :: "closure list"
  sd_calls :: "(JobInfo \<times> JobLog \<times> string) list"
  sd_out :: "effect list"

record ('c, 't) libs =
  lb_cron :: "string \<Rightarrow> string + (time \<Rightarrow> time)"
  lb_parse :: "('c, 't) parser"
  lb_exec :: "'t executor"
  lb_loc :: int

record answers =
  an_lock :: "string + bool"
  an_uuid :: string
  an_checkNow :: time
  an_running :: "string + JobLog list"
  an_net :: network
  an_order :: "string list"
  an_listNow :: time
  an_byApp :: "string + Executor list"
  an_rnd :: "nat \<Rightarrow> nat"
  an_routeNow :: time
  an_renderNow :: time
  an_create :: "nat \<Rightarrow> string + int"
  an_failNow :: time
  an_schedNow :: time
  an_dropped :: bool

text \<open>A call returns, waits for ever in the state it is in (a full channel, a loop), or panics.\<close>

datatype 'a outcome = Done 'a | Blocked | Crashed

fun and_then :: "'a outcome \<Rightarrow> ('a \<Rightarrow> 'b outcome) \<Rightarrow> 'b outcome" where
  "and_then (Done x) f = f x"
| "and_then Blocked f = Blocked"
| "and_then Crashed f = Crashed"

definition emit :: "effect \<Rightarrow> ('c, 't) Scheduler \<Rightarrow> ('c, 't) Scheduler" where
  "emit ef s = s\<lparr>sd_out := sd_out s @ [ef]\<rparr>"

definition task_id :: "int \<Rightarrow> string" where "task_id jobID = ''job:'' @ itoa jobID"

definition lock_key :: "int \<Rightarrow> string" where "lock_key jobID = ''go-jobs:lock:job:'' @ itoa jobID"

section \<open>The wheel\<close>

text \<open>\<open>Add\<close> selects between the channel and the closed \<open>stopCh\<close>: with room and a stopped wheel either
  branch can win (\<open>dropped\<close>); without room and without a stop it waits.\<close>

definition wheel_add :: "bool \<Rightarrow> string \<Rightarrow> time \<Rightarrow> closure \<Rightarrow> closure TimeWheel \<Rightarrow> closure TimeWheel outcome" where
  "wheel_add dropped i fireAt fn w =
     (if length (tw_addCh w) < addChCap \<and> \<not> (tw_stopped w \<and> dropped) then Done (tw_Add i fireAt fn w)
      else if tw_stopped w then Done (snd (new_task i fireAt fn w))
      else Blocked)"

definition wheel_cancel :: "bool \<Rightarrow> string \<Rightarrow> closure TimeWheel \<Rightarrow> closure TimeWheel outcome" where
  "wheel_cancel dropped i w =
     (if length (tw_cancelCh w) < cancelChCap \<and> \<not> (tw_stopped w \<and> dropped) then Done (tw_Cancel i w)
      else if tw_stopped w then Done w
      else Blocked)"

definition scheduleWheel :: "bool \<Rightarrow> JobInfo \<Rightarrow> ('c, 't) Scheduler \<Rightarrow> ('c, 't) Scheduler outcome" where
  "scheduleWheel dropped job s =
     (case ji_NextTriggerTime job of
        None \<Rightarrow> Crashed
      | Some fireAt \<Rightarrow>
          and_then (wheel_add dropped (task_id (ji_ID job)) fireAt (ji_ID job, fireAt) (sd_wheel s))
            (\<lambda>w. Done (s\<lparr>sd_wheel := w\<rparr>)))"

text \<open>A send to \<open>workerCh\<close> that does not wait: the boolean says whether there was room.\<close>

definition try_send :: "triggerTask \<Rightarrow> ('c, 't) Scheduler \<Rightarrow> bool \<times> ('c, 't) Scheduler" where
  "try_send task s =
     (if int (length (sd_workerCh s)) < sd_workerCap s
      then (True, s\<lparr>sd_workerCh := sd_workerCh s @ [task]\<rparr>) else (False, s))"

definition wheel_callback :: "closure \<Rightarrow> ('c, 't) Scheduler \<Rightarrow> ('c, 't) Scheduler" where
  "wheel_callback fn s =
     (case fn of (jobID, fireAt) \<Rightarrow>
        (case store_Get jobID (sd_store s) of
           None \<Rightarrow> s
         | Some latest \<Rightarrow>
             if ji_Status latest \<noteq> JobRun then s
             else snd (try_send \<lparr>tt_job = latest, tt_triggerTime = fireAt, tt_triggerType = TriggerCron\<rparr> s)))"

section \<open>Block strategy\<close>

fun still_running :: "int \<Rightarrow> JobLog list \<Rightarrow> bool" where
  "still_running jobID [] = False"
| "still_running jobID (l # ls) = (if jl_JobID l = jobID then True else still_running jobID ls)"

fun kill_running :: "int \<Rightarrow> JobLog list \<Rightarrow> ('c, 't) Scheduler \<Rightarrow> ('c, 't) Scheduler" where
  "kill_running jobID [] s = s"
| "kill_running jobID (l # ls) s =
     kill_running jobID ls
       (if jl_JobID l = jobID \<and> jl_ExecutorAddress l \<noteq> []
        then emit (KillSent (jl_ExecutorAddress l) \<lparr>kr_LogID = jl_ID l, kr_JobID = jobID\<rparr>) s else s)"

definition applyBlockStrategy :: "answers \<Rightarrow> JobInfo \<Rightarrow> ('c, 't) Scheduler \<Rightarrow> bool \<times> ('c, 't) Scheduler" where
  "applyBlockStrategy an job s =
     (if ji_BlockStrategy job = BlockDiscard then
        (case an_running an of
           Inl err \<Rightarrow> (True, s)
         | Inr logs \<Rightarrow> (\<not> still_running (ji_ID job) logs, s))
      else if ji_BlockStrategy job = BlockOverride then
        (case an_running an of
           Inl err \<Rightarrow> (True, s)
         | Inr logs \<Rightarrow> (True, kill_running (ji_ID job) logs s))
      else (True, s))"

definition BlockStrategyKey :: "block_strategy \<Rightarrow> string" where
  "BlockStrategyKey bs = (if bs = BlockDiscard then ''DISCARD''
     else if bs = BlockOverride then ''OVERRIDE'' else ''SERIAL'')"

section \<open>Rescheduling\<close>

text \<open>The errors of the store are ignored by the code.\<close>

definition or_same :: "Store \<Rightarrow> store_error + Store \<Rightarrow> Store" where
  "or_same st r = (case r of Inl e \<Rightarrow> st | Inr st' \<Rightarrow> st')"

definition reschedule :: "('c, 't) libs \<Rightarrow> answers \<Rightarrow> JobInfo \<Rightarrow> ('c, 't) Scheduler \<Rightarrow> ('c, 't) Scheduler outcome" where
  "reschedule lb an job s =
     (if ji_CronExpression job = [] then
        Done (s\<lparr>sd_store := or_same (sd_store s) (store_UpdateStatus (ji_ID job) JobStop (sd_store s))\<rparr>)
      else case lb_cron lb (ji_CronExpression job) of
        Inl err \<Rightarrow> Done s
      | Inr sched \<Rightarrow>
          let now = an_schedNow an;
              nxt = sched now;
              lst = (case ji_NextTriggerTime job of Some t \<Rightarrow> t | None \<Rightarrow> now);
              s1 = s\<lparr>sd_store := or_same (sd_store s) (store_UpdateNextTrigger (ji_ID job) nxt lst (sd_store s))\<rparr>
          in case store_Get (ji_ID job) (sd_store s1) of
               None \<Rightarrow> Done s1
             | Some fresh \<Rightarrow>
                 if ji_Status fresh = JobRun then scheduleWheel (an_dropped an) fresh s1 else Done s1)"

section \<open>Dispatching one trigger\<close>

text \<open>\<open>string(t)\<close> of an \<open>int8\<close> is the UTF-8 encoding of the code point \<open>t\<close>.\<close>

definition string_of_int8 :: "int \<Rightarrow> string" where
  "string_of_int8 t = (if 0 \<le> t \<and> t < 128 then [(char_of :: nat \<Rightarrow> char) (nat t)]
     else map (char_of :: nat \<Rightarrow> char) [239, 191, 189])"

definition render_param :: "('c, 't) libs \<Rightarrow> time \<Rightarrow> JobInfo \<Rightarrow> int \<Rightarrow> int \<Rightarrow> trigger_type \<Rightarrow>
    ('c, 't) Scheduler \<Rightarrow> string \<times> ('c, 't) Scheduler" where
  "render_param lb now job shardIdx shardTotal ttype s =
     (case sd_paramEngine s of
        None \<Rightarrow> (ji_ExecuteParam job, s)
      | Some e \<Rightarrow>
          let vars = BuildVars (lb_loc lb) now \<lparr>tc_JobID = ji_ID job, tc_ShardIndex = shardIdx,
                tc_ShardTotal = shardTotal, tc_TriggerType = string_of_int8 ttype, tc_Extra = Map.empty\<rparr> e;
              ((rendered, err), e1) = tpl_Render (lb_parse lb) (lb_exec lb) (lb_loc lb) now
                (ji_ExecuteParam job) (Some vars) e
          in (if err = None then rendered else ji_ExecuteParam job, s\<lparr>sd_paramEngine := Some e1\<rparr>))"

definition running_log :: "JobInfo \<Rightarrow> string \<Rightarrow> string \<Rightarrow> triggerTask \<Rightarrow> int \<Rightarrow> int \<Rightarrow> JobLog" where
  "running_log job address param task shardIdx shardTotal =
     \<lparr>jl_ID = 0, jl_JobID = ji_ID job, jl_ExecutorID = ji_ExecutorID job, jl_ExecutorAddress = address,
      jl_ExecuteParam = param, jl_Status = LogRunning, jl_ErrorMsg = [], jl_ShardingIndex = shardIdx,
      jl_ShardingTotal = shardTotal, jl_TriggerTime = tt_triggerTime task, jl_StartTime = None,
      jl_EndTime = None, jl_DurationMs = 0, jl_TriggerType = tt_triggerType task\<rparr>"

definition sendTrigger :: "('c, 't) libs \<Rightarrow> answers \<Rightarrow> JobInfo \<Rightarrow> string \<Rightarrow> triggerTask \<Rightarrow> nat \<Rightarrow> nat \<Rightarrow>
    ('c, 't) Scheduler \<Rightarrow> ('c, 't) Scheduler" where
  "sendTrigger lb an job address task shardIdx shardTotal s =
     (let (param, s1) = render_param lb (an_renderNow an) job (int shardIdx) (int shardTotal) (tt_triggerType task) s;
          logRec = running_log job address param task (int shardIdx) (int shardTotal)
      in case an_create an shardIdx of
           Inl err \<Rightarrow> s1
         | Inr i \<Rightarrow>
             let logRec = logRec\<lparr>jl_ID := i\<rparr>; s2 = emit (LogCreated logRec) s1
             in s2\<lparr>sd_calls := sd_calls s2 @ [(job, logRec, address)]\<rparr>)"

fun broadcast :: "('c, 't) libs \<Rightarrow> answers \<Rightarrow> JobInfo \<Rightarrow> triggerTask \<Rightarrow> nat \<Rightarrow> nat \<Rightarrow> string list \<Rightarrow>
    ('c, 't) Scheduler \<Rightarrow> ('c, 't) Scheduler" where
  "broadcast lb an job task idx n [] s = s"
| "broadcast lb an job task idx n (addr # addrs) s =
     broadcast lb an job task (Suc idx) n addrs (sendTrigger lb an job addr task idx n s)"

definition callExecutor :: "network \<Rightarrow> time \<Rightarrow> time \<Rightarrow> JobInfo \<Rightarrow> JobLog \<Rightarrow> string \<Rightarrow>
    ('c, 't) Scheduler \<Rightarrow> ('c, 't) Scheduler" where
  "callExecutor net start end job logRec address s =
     (let trigger = \<lparr>et_LogID = jl_ID logRec, et_JobID = ji_ID job, et_ExecutorHandler = ji_ExecuteHandler job,
            et_ExecuteType = ji_ExecuteType job, et_ExecuteParam = jl_ExecuteParam logRec,
            et_ShardingIndex = jl_ShardingIndex logRec, et_ShardingTotal = jl_ShardingTotal logRec,
            et_Timeout = ji_Timeout job\<rparr>;
          (status, errMsg) = (case client_Run net address trigger of
             None \<Rightarrow> (LogSuccess, []) | Some err \<Rightarrow> (LogFail, err))
      in emit (ResultUpdated (jl_ID logRec) status errMsg start end) (emit (RunSent address trigger) s))"

definition recordTriggerFail :: "answers \<Rightarrow> JobInfo \<Rightarrow> triggerTask \<Rightarrow> string \<Rightarrow> ('c, 't) Scheduler \<Rightarrow>
    ('c, 't) Scheduler" where
  "recordTriggerFail an job task reason s =
     (let now = an_failNow an;
          failLog = \<lparr>jl_ID = 0, jl_JobID = ji_ID job, jl_ExecutorID = ji_ExecutorID job, jl_ExecutorAddress = [],
            jl_ExecuteParam = [], jl_Status = LogFail, jl_ErrorMsg = reason, jl_ShardingIndex = 0,
            jl_ShardingTotal = 0, jl_TriggerTime = tt_triggerTime task, jl_StartTime = Some now,
            jl_EndTime = Some now, jl_DurationMs = 0, jl_TriggerType = tt_triggerType task\<rparr>
      in case an_create an 0 of
           Inl err \<Rightarrow> s
         | Inr i \<Rightarrow> emit (LogCreated (failLog\<lparr>jl_ID := i\<rparr>)) s)"

section \<open>The handler\<close>

definition job_addresses :: "answers \<Rightarrow> JobInfo \<Rightarrow> ('c, 't) Scheduler \<Rightarrow> string list" where
  "job_addresses an job s =
     (case sd_executorStore s of
        Some es \<Rightarrow>
          if ji_RouteStrategy job = RouteFailover
          then es_ListHealthyAddresses (an_listNow an) (an_order an) (ji_ExecutorApp job) es
          else es_ListOnlineAddresses (an_listNow an) (an_order an) (ji_ExecutorApp job) es
      | None \<Rightarrow> (case an_byApp an of Inl err \<Rightarrow> [] | Inr executors \<Rightarrow> map ex_Address executors))"

definition check_limit :: "answers \<Rightarrow> JobInfo \<Rightarrow> ('c, 't) Scheduler \<Rightarrow> check_error option \<times> ('c, 't) Scheduler" where
  "check_limit an job s =
     (case sd_rateLimiter s of
        None \<Rightarrow> (None, s)
      | Some r \<Rightarrow> let (err, r1) = rl_CheckJob (an_checkNow an) (ji_ExecutorApp job) (ji_ID job) r
                  in (err, s\<lparr>sd_rateLimiter := Some r1\<rparr>))"

definition dispatch :: "('c, 't) libs \<Rightarrow> answers \<Rightarrow> triggerTask \<Rightarrow> ('c, 't) Scheduler \<Rightarrow> ('c, 't) Scheduler outcome" where
  "dispatch lb an task s =
     (let job = tt_job task; addresses = job_addresses an job s
      in if addresses = [] then reschedule lb an job (recordTriggerFail an job task ''no online executor'' s)
         else if ji_RouteStrategy job = RouteShardingBroadcast
         then reschedule lb an job (broadcast lb an job task 0 (length addresses) addresses s)
         else case Route (an_rnd an) (an_routeNow an) (NewRouter (ji_RouteStrategy job)) addresses (ji_ID job)
                     (ji_ExecuteParam job) (sd_routers s) of
                (Ok addr, r) \<Rightarrow> reschedule lb an job (sendTrigger lb an job addr task 0 1 (s\<lparr>sd_routers := r\<rparr>))
              | (Err e, r) \<Rightarrow> reschedule lb an job (recordTriggerFail an job task e (s\<lparr>sd_routers := r\<rparr>))
              | (Panic, r) \<Rightarrow> Crashed)"

definition handle_locked :: "('c, 't) libs \<Rightarrow> answers \<Rightarrow> triggerTask \<Rightarrow> ('c, 't) Scheduler \<Rightarrow> ('c, 't) Scheduler outcome" where
  "handle_locked lb an task s =
     (case check_limit an (tt_job task) s of
        (Some err, s1) \<Rightarrow> reschedule lb an (tt_job task) s1
      | (None, s1) \<Rightarrow>
          (case applyBlockStrategy an (tt_job task) s1 of
             (False, s2) \<Rightarrow> reschedule lb an (tt_job task) s2
           | (True, s2) \<Rightarrow> dispatch lb an task s2))"

definition handleTask :: "('c, 't) libs \<Rightarrow> answers \<Rightarrow> triggerTask \<Rightarrow> ('c, 't) Scheduler \<Rightarrow> ('c, 't) Scheduler outcome" where
  "handleTask lb an task s =
     (if \<not> sd_redis s then handle_locked lb an task s
      else case an_lock an of
        Inl err \<Rightarrow> Done s
      | Inr False \<Rightarrow> Done s
      | Inr True \<Rightarrow>
          and_then (handle_locked lb an task s)
            (\<lambda>s1. Done (emit (ReleaseLock (lock_key (ji_ID (tt_job task))) (sd_nodeID s @ '':'' @ an_uuid an)) s1)))"

section \<open>Misfire\<close>

definition misfireThreshold :: duration where "misfireThreshold = 5 * second"

definition handleMisfire :: "('c, 't) libs \<Rightarrow> answers \<Rightarrow> JobInfo \<Rightarrow> ('c, 't) Scheduler \<Rightarrow>
    (bool \<times> ('c, 't) Scheduler) outcome" where
  "handleMisfire lb an job s =
     (case ji_NextTriggerTime job of
        None \<Rightarrow> Done (False, s)
      | Some t \<Rightarrow>
          if time_sub (an_checkNow an) t \<le> misfireThreshold then Done (False, s)
          else if ji_MisfireStrategy job = MisfireIgnore
          then and_then (reschedule lb an job s) (\<lambda>s1. Done (True, s1))
          else if ji_MisfireStrategy job = MisfireRunOnce
          then and_then (reschedule lb an job (snd (try_send
                 \<lparr>tt_job = job, tt_triggerTime = an_failNow an, tt_triggerType = TriggerCron\<rparr> s)))
                 (\<lambda>s1. Done (True, s1))
          else Done (False, s))"

end
