(* ===== verification/Lifecycle.thy ===== *)
theory Lifecycle
  imports Dispatch "HOL-Library.Monad_Syntax"
begin

text \<open>
  \<open>internal/scheduler/scheduler.go\<close>: construction, start and stop of the scheduler, the operations its
  clients call, and the step relation in which clients, the wheel's goroutine, its callbacks, the
  workers, the executor calls and the flush loop interleave.
\<close>

section \<open>Options and construction\<close>

definition defaultWorkerNum :: int where "defaultWorkerNum = 64"
definition bootstrapBatchSize :: nat where "bootstrapBatchSize = 2000"

record ('c, 't) SchedOptions =
  so_PreloadWindow :: duration
  so_WorkerNum :: int
  so_NodeID :: string
  so_RateLimiter :: "RLRegistry option"
  so_ParamEngine :: "('c, 't) Engine option"

definition sched_defaultOpts :: "('c, 't) SchedOptions" where
  "sched_defaultOpts = \<lparr>so_PreloadWindow = 5 * second, so_WorkerNum = defaultWorkerNum, so_NodeID = [],
     so_RateLimiter = None, so_ParamEngine = None\<rparr>"

definition sched_WithPreloadWindow :: "duration \<Rightarrow> ('c, 't) SchedOptions \<Rightarrow> ('c, 't) SchedOptions" where
  "sched_WithPreloadWindow d ops = ops\<lparr>so_PreloadWindow := d\<rparr>"

definition sched_WithWorkerNum :: "int \<Rightarrow> ('c, 't) SchedOptions \<Rightarrow> ('c, 't) SchedOptions" where
  "sched_WithWorkerNum n ops = ops\<lparr>so_WorkerNum := n\<rparr>"

definition sched_WithNodeID :: "string \<Rightarrow> ('c, 't) SchedOptions \<Rightarrow> ('c, 't) SchedOptions" where
  "sched_WithNodeID i ops = ops\<lparr>so_NodeID := i\<rparr>"

definition sched_WithRateLimiter :: "RLRegistry option \<Rightarrow> ('c, 't) SchedOptions \<Rightarrow> ('c, 't) SchedOptions" where
  "sched_WithRateLimiter r ops = ops\<lparr>so_RateLimiter := r\<rparr>"

definition sched_WithParamEngine :: "('c, 't) Engine option \<Rightarrow> ('c, 't) SchedOptions \<Rightarrow> ('c, 't) SchedOptions" where
  "sched_WithParamEngine e ops = ops\<lparr>so_ParamEngine := e\<rparr>"

definition no_task :: "closure Task" where
  "no_task = \<lparr>tk_ID = [], tk_FireAt = 0, tk_fn = (0, 0), tk_cancelled = True, tk_level = 0, tk_slot = 0\<rparr>"

definition sched_New :: "time \<Rightarrow> string \<Rightarrow> bool \<Rightarrow> EStore option \<Rightarrow>
    (('c, 't) SchedOptions \<Rightarrow> ('c, 't) SchedOptions) list \<Rightarrow> ('c, 't) Scheduler" where
  "sched_New now uuid redis es opts =
     (let ops = foldl (\<lambda>a opt. opt a) sched_defaultOpts opts;
          ops = (if so_NodeID ops = [] then ops\<lparr>so_NodeID := uuid\<rparr> else ops);
          ops = (if so_WorkerNum ops \<le> 0 then ops\<lparr>so_WorkerNum := defaultWorkerNum\<rparr> else ops)
      in \<lparr>sd_nodeID = so_NodeID ops, sd_redis = redis, sd_store = store_New, sd_executorStore = es,
          sd_wheel = tw_New now no_task, sd_workerCh = [], sd_workerCap = so_WorkerNum ops * 8,
          sd_flushCtx = True, sd_flushing = 0, sd_running = False, sd_stopCh = False, sd_workers = 0,
          sd_rateLimiter = so_RateLimiter ops, sd_paramEngine = so_ParamEngine ops,
          sd_routers = routers_init, sd_callbacks = [], sd_calls = [], sd_out = []\<rparr>)"

section \<open>Start and stop\<close>

text \<open>\<open>page p\<close> is what \<open>jobDAO.List\<close> answers for page \<open>p\<close> of the running jobs; the loop asks for the
  next page as long as the last one was full.\<close>

partial_function (option) load_pages ::
  "(nat \<Rightarrow> string + JobInfo list) \<Rightarrow> nat \<Rightarrow> Store \<Rightarrow> (string option \<times> Store) option" where
  "load_pages page p st =
     (case page p of
        Inl err \<Rightarrow> Some (Some err, st)
      | Inr jobs \<Rightarrow>
          let st1 = store_LoadAll jobs st
          in if length jobs < bootstrapBatchSize then Some (None, st1) else load_pages page (Suc p) st1)"

definition bootstrap :: "(nat \<Rightarrow> string + JobInfo list) \<Rightarrow> string + Executor list \<Rightarrow> time \<Rightarrow>
    ('c, 't) Scheduler \<Rightarrow> (string option \<times> ('c, 't) Scheduler) outcome" where
  "bootstrap page online now s =
     (case load_pages page 1 (sd_store s) of
        None \<Rightarrow> Blocked
      | Some (Some err, st) \<Rightarrow> Done (Some err, s\<lparr>sd_store := st\<rparr>)
      | Some (None, st) \<Rightarrow>
          let s1 = s\<lparr>sd_store := st\<rparr>
          in case (sd_executorStore s1, online) of
               (Some es, Inr executors) \<Rightarrow> Done (None, s1\<lparr>sd_executorStore := Some (es_Bootstrap now executors es)\<rparr>)
             | _ \<Rightarrow> Done (None, s1))"

fun schedule_all :: "bool \<Rightarrow> JobInfo list \<Rightarrow> ('c, 't) Scheduler \<Rightarrow> ('c, 't) Scheduler outcome" where
  "schedule_all dropped [] s = Done s"
| "schedule_all dropped (job # jobs) s =
     (if ji_Status job = JobRun \<and> ji_NextTriggerTime job \<noteq> None
      then and_then (scheduleWheel dropped job s) (schedule_all dropped jobs)
      else schedule_all dropped jobs s)"

definition sched_Start :: "(nat \<Rightarrow> string + JobInfo list) \<Rightarrow> string + Executor list \<Rightarrow> time \<Rightarrow> int list \<Rightarrow> bool \<Rightarrow>
    ('c, 't) Scheduler \<Rightarrow> (string option \<times> ('c, 't) Scheduler) outcome" where
  "sched_Start page online now ord dropped s =
     (if sd_running s then Done (Some ''scheduler: already running'', s)
      else and_then (bootstrap page online now s) (\<lambda>(err, s1).
        case err of
          Some e \<Rightarrow> Done (Some (''scheduler: bootstrap: '' @ e), s1)
        | None \<Rightarrow>
            and_then (schedule_all dropped (store_Range ord (sd_store s1)) s1) (\<lambda>s2.
              Done (None, s2\<lparr>sd_wheel := tw_Start (sd_wheel s2), sd_workers := sd_workers s2 + nat defaultWorkerNum,
                sd_flushing := Suc (sd_flushing s2), sd_running := True\<rparr>))))"

text \<open>Closing a closed channel panics. The wait for the goroutines is instantaneous: the wheel's loop and
  the idle workers see their closed channel.\<close>

definition sched_Stop :: "('c, 't) Scheduler \<Rightarrow> ('c, 't) Scheduler outcome" where
  "sched_Stop s =
     (if \<not> sd_running s then Done s
      else let s1 = s\<lparr>sd_running := False\<rparr>
           in if tw_started (sd_wheel s1) \<and> tw_stopped (sd_wheel s1) then Crashed
              else let s2 = s1\<lparr>sd_wheel := tw_Stop (sd_wheel s1), sd_flushCtx := False\<rparr>
                   in if sd_stopCh s2 then Crashed else Done (s2\<lparr>sd_stopCh := True, sd_workers := 0\<rparr>))"

section \<open>Job management\<close>

definition sched_AddJob :: "bool \<Rightarrow> JobInfo \<Rightarrow> ('c, 't) Scheduler \<Rightarrow> ('c, 't) Scheduler outcome" where
  "sched_AddJob dropped job s =
     (let s1 = s\<lparr>sd_store := store_Add job (sd_store s)\<rparr>
      in if ji_Status job = JobRun \<and> ji_NextTriggerTime job \<noteq> None then scheduleWheel dropped job s1 else Done s1)"

definition cancel_job :: "bool \<Rightarrow> int \<Rightarrow> ('c, 't) Scheduler \<Rightarrow> ('c, 't) Scheduler outcome" where
  "cancel_job dropped jobID s =
     and_then (wheel_cancel dropped (task_id jobID) (sd_wheel s)) (\<lambda>w. Done (s\<lparr>sd_wheel := w\<rparr>))"

definition sched_UpdateJob :: "bool \<Rightarrow> JobInfo \<Rightarrow> ('c, 't) Scheduler \<Rightarrow> ('c, 't) Scheduler outcome" where
  "sched_UpdateJob dropped job s =
     and_then (cancel_job dropped (ji_ID job) (s\<lparr>sd_store := store_Add job (sd_store s)\<rparr>)) (\<lambda>s1.
       if ji_Status job = JobRun \<and> ji_NextTriggerTime job \<noteq> None then scheduleWheel dropped job s1 else Done s1)"

definition sched_RemoveJob :: "bool \<Rightarrow> int \<Rightarrow> ('c, 't) Scheduler \<Rightarrow> ('c, 't) Scheduler outcome" where
  "sched_RemoveJob dropped jobID s = cancel_job dropped jobID (s\<lparr>sd_store := store_Remove jobID (sd_store s)\<rparr>)"

datatype sched_error =
    ErrFind int string
  | ErrCron string string
  | ErrStore store_error
  | ErrWorkerChannelFull

definition CalcNextTriggerTime :: "('c, 't) libs \<Rightarrow> time \<Rightarrow> string \<Rightarrow> sched_error + time" where
  "CalcNextTriggerTime lb now cronExpr =
     (case lb_cron lb cronExpr of Inl err \<Rightarrow> Inl (ErrCron cronExpr err) | Inr sched \<Rightarrow> Inr (sched now))"

text \<open>\<open>found\<close> is the answer of \<open>jobDAO.FindByID\<close>. \<open>start_next\<close> is the step that gives a job without a
  next trigger time one.\<close>

definition start_next :: "('c, 't) libs \<Rightarrow> time \<Rightarrow> JobInfo \<Rightarrow> int \<Rightarrow> ('c, 't) Scheduler \<Rightarrow>
    sched_error + ('c, 't) Scheduler" where
  "start_next lb now job jobID s =
     (if ji_NextTriggerTime job = None \<and> ji_CronExpression job \<noteq> [] then
        (case CalcNextTriggerTime lb now (ji_CronExpression job) of
           Inl err \<Rightarrow> Inl err
         | Inr nxt \<Rightarrow> Inr (s\<lparr>sd_store := or_same (sd_store s) (store_UpdateNextTrigger jobID nxt now (sd_store s))\<rparr>))
      else Inr s)"

definition sched_StartJob :: "('c, 't) libs \<Rightarrow> time \<Rightarrow> string + JobInfo \<Rightarrow> bool \<Rightarrow> int \<Rightarrow> ('c, 't) Scheduler \<Rightarrow>
    (sched_error option \<times> ('c, 't) Scheduler) outcome" where
  "sched_StartJob lb now found dropped jobID s =
     (case (case store_Get jobID (sd_store s) of
              Some job \<Rightarrow> Inr (job, s)
            | None \<Rightarrow> (case found of Inl err \<Rightarrow> Inl (ErrFind jobID err)
                | Inr job \<Rightarrow> Inr (job, s\<lparr>sd_store := store_Add job (sd_store s)\<rparr>))) of
        Inl err \<Rightarrow> Done (Some err, s)
      | Inr (job, s1) \<Rightarrow>
          (case start_next lb now job jobID s1 of
             Inl err \<Rightarrow> Done (Some err, s1)
           | Inr s2 \<Rightarrow>
               (case store_UpdateStatus jobID JobRun (sd_store s2) of
                  Inl err \<Rightarrow> Done (Some (ErrStore err), s2)
                | Inr st \<Rightarrow>
                    let s3 = s2\<lparr>sd_store := st\<rparr>
                    in case store_Get jobID st of
                         Some job' \<Rightarrow>
                           if ji_NextTriggerTime job' \<noteq> None
                           then and_then (scheduleWheel dropped job' s3) (\<lambda>s4. Done (None, s4))
                           else Done (None, s3)
                       | None \<Rightarrow> Done (None, s3))))"

definition sched_StopJob :: "bool \<Rightarrow> int \<Rightarrow> ('c, 't) Scheduler \<Rightarrow>
    (sched_error option \<times> ('c, 't) Scheduler) outcome" where
  "sched_StopJob dropped jobID s =
     (case store_UpdateStatus jobID JobStop (sd_store s) of
        Inl err \<Rightarrow> Done (Some (ErrStore err), s)
      | Inr st \<Rightarrow> and_then (cancel_job dropped jobID (s\<lparr>sd_store := st\<rparr>)) (\<lambda>s1. Done (None, s1)))"

definition sched_TriggerJob :: "time \<Rightarrow> string + JobInfo \<Rightarrow> int \<Rightarrow> string \<Rightarrow> ('c, 't) Scheduler \<Rightarrow>
    sched_error option \<times> ('c, 't) Scheduler" where
  "sched_TriggerJob now found jobID param s =
     (case (case store_Get jobID (sd_store s) of Some job \<Rightarrow> Inr job | None \<Rightarrow> found) of
        Inl err \<Rightarrow> (Some (ErrFind jobID err), s)
      | Inr job \<Rightarrow>
          let job = (if param \<noteq> [] then job\<lparr>ji_ExecuteParam := param\<rparr> else job);
              (sent, s1) = try_send \<lparr>tt_job = job, tt_triggerTime = now, tt_triggerType = TriggerManual\<rparr> s
          in (if sent then None else Some ErrWorkerChannelFull, s1))"

record StoreStats =
  ss_JobCount :: int
  ss_HeapLen :: nat
  ss_WheelIndex :: nat
  ss_WheelOverflow :: nat

definition sched_Stats :: "('c, 't) Scheduler \<Rightarrow> StoreStats" where
  "sched_Stats s = (let ws = tw_Stats (sd_wheel s)
     in \<lparr>ss_JobCount = store_Len (sd_store s), ss_HeapLen = store_HeapLen (sd_store s),
         ss_WheelIndex = IndexSize ws, ss_WheelOverflow = OverflowSize ws\<rparr>)"

section \<open>Steps\<close>

text \<open>A step of the wheel's goroutine; the callbacks it starts are goroutines of their own.\<close>

inductive wheel_runs :: "closure TimeWheel \<Rightarrow> closure TimeWheel \<Rightarrow> bool" where
  wr_add: "running w \<Longrightarrow> tw_addCh w = a # as \<Longrightarrow> insert_task a (w\<lparr>tw_addCh := as\<rparr>) = Some w' \<Longrightarrow> wheel_runs w w'"
| wr_cancel: "running w \<Longrightarrow> tw_cancelCh w = i # is \<Longrightarrow> wheel_runs w (doCancel i (w\<lparr>tw_cancelCh := is\<rparr>))"
| wr_tick: "running w \<Longrightarrow> tw_addCh w = [] \<Longrightarrow> tw_cancelCh w = [] \<Longrightarrow> tick_body wallNow w = Some w' \<Longrightarrow>
    wheel_runs w w'"

definition started_callbacks :: "closure TimeWheel \<Rightarrow> closure TimeWheel \<Rightarrow> closure list" where
  "started_callbacks w w' = map (\<lambda>(a, t). tk_fn (tw_task w' a)) (drop (length (tw_fired w)) (tw_fired w'))"

text \<open>What the scheduler does by itself, without a call of a client.\<close>

inductive internal_step :: "('c, 't) libs \<Rightarrow> ('c, 't) Scheduler \<Rightarrow> ('c, 't) Scheduler \<Rightarrow> bool"
  for lb :: "('c, 't) libs" where
  is_wheel: "wheel_runs (sd_wheel s) w \<Longrightarrow> internal_step lb s
     (s\<lparr>sd_wheel := w, sd_callbacks := sd_callbacks s @ started_callbacks (sd_wheel s) w\<rparr>)"
| is_callback: "fn \<in> set (sd_callbacks s) \<Longrightarrow>
    internal_step lb s (wheel_callback fn (s\<lparr>sd_callbacks := remove1 fn (sd_callbacks s)\<rparr>))"
| is_worker: "0 < sd_workers s \<Longrightarrow> sd_workerCh s = task # tasks \<Longrightarrow>
    handleTask lb an task (s\<lparr>sd_workerCh := tasks\<rparr>) = Done s' \<Longrightarrow> internal_step lb s s'"
| is_call: "c \<in> set (sd_calls s) \<Longrightarrow> internal_step lb s
    (case c of (job, logRec, address) \<Rightarrow>
       callExecutor net start end job logRec address (s\<lparr>sd_calls := remove1 c (sd_calls s)\<rparr>))"
| is_flush: "0 < sd_flushing s \<Longrightarrow> iter_order (st_jobByID (sd_store s)) ord \<Longrightarrow>
    internal_step lb s (s\<lparr>sd_store := store_flush ord fails (sd_store s)\<rparr>)"
| is_last_flush: "0 < sd_flushing s \<Longrightarrow> \<not> sd_flushCtx s \<Longrightarrow> iter_order (st_jobByID (sd_store s)) ord \<Longrightarrow>
    internal_step lb s (s\<lparr>sd_store := store_flush ord fails (sd_store s), sd_flushing := sd_flushing s - 1\<rparr>)"
| is_executors: "sd_executorStore s = Some es \<Longrightarrow> es_step es es' \<Longrightarrow>
    internal_step lb s (s\<lparr>sd_executorStore := Some es'\<rparr>)"

end
