(* ===== verification/Wheel_Scope.thy ===== *)
theory Wheel_Scope
  imports Wheel_Firing
begin

text \<open>
  Which tasks a step of the wheel can touch, without any assumption on the clock: \<open>scope A tw tw'\<close>
  says that an operation on the wheel with the tasks \<open>A\<close> in hand fires only tasks of the wheel or of
  \<open>A\<close> that are not cancelled, and leaves no others in the wheel; closures never change and a
  cancelled task stays cancelled.
\<close>

definition wheel_set :: "'f TimeWheel \<Rightarrow> nat set" where
  "wheel_set tw = {a. \<exists>l s. a \<in> set (tw_wheels tw l s)} \<union> set (fst (tw_overflow tw))"

definition later :: "'f TimeWheel \<Rightarrow> 'f TimeWheel \<Rightarrow> bool" where
  "later tw tw' \<longleftrightarrow> tw_addCh tw' = tw_addCh tw \<and> tw_fresh tw' = tw_fresh tw \<and>
     tw_started tw' = tw_started tw \<and> tw_stopped tw' = tw_stopped tw \<and>
     (\<forall>a. tk_fn (tw_task tw' a) = tk_fn (tw_task tw a) \<and>
        (tk_cancelled (tw_task tw a) \<longrightarrow> tk_cancelled (tw_task tw' a)))"

definition scope :: "nat set \<Rightarrow> 'f TimeWheel \<Rightarrow> 'f TimeWheel \<Rightarrow> bool" where
  "scope A tw tw' \<longleftrightarrow> later tw tw' \<and> wheel_set tw' \<subseteq> wheel_set tw \<union> A \<and>
     (\<exists>new. tw_fired tw' = tw_fired tw @ new \<and>
        (\<forall>(a, t) \<in> set new. a \<in> wheel_set tw \<union> A \<and> \<not> tk_cancelled (tw_task tw a)))"

lemma scope_trans:
  assumes "scope A t1 t2" "scope B t2 t3" "B \<subseteq> wheel_set t1 \<union> A"
  shows "scope A t1 t3"
proof -
  from assms(1) obtain n1 where 1: "tw_fired t2 = tw_fired t1 @ n1"
    "\<forall>(a, t) \<in> set n1. a \<in> wheel_set t1 \<union> A \<and> \<not> tk_cancelled (tw_task t1 a)" by (auto simp: scope_def)
  from assms(2) obtain n2 where 2: "tw_fired t3 = tw_fired t2 @ n2"
    "\<forall>(a, t) \<in> set n2. a \<in> wheel_set t2 \<union> B \<and> \<not> tk_cancelled (tw_task t2 a)" by (auto simp: scope_def)
  have sub: "wheel_set t2 \<union> B \<subseteq> wheel_set t1 \<union> A" using assms(1,3) by (auto simp: scope_def)
  have "\<forall>a. tk_cancelled (tw_task t1 a) \<longrightarrow> tk_cancelled (tw_task t2 a)"
    using assms(1) by (simp add: scope_def later_def)
  then have "\<forall>(a, t) \<in> set (n1 @ n2). a \<in> wheel_set t1 \<union> A \<and> \<not> tk_cancelled (tw_task t1 a)"
    using 1(2) 2(2) sub by fastforce
  moreover have "tw_fired t3 = tw_fired t1 @ n1 @ n2" using 1(1) 2(1) by simp
  moreover have "later t1 t3" using assms(1,2) by (simp add: scope_def later_def)
  moreover have "wheel_set t3 \<subseteq> wheel_set t1 \<union> A" using assms(2) sub by (auto simp: scope_def)
  ultimately show ?thesis unfolding scope_def by blast
qed

lemma scope_quiet: "later tw tw' \<Longrightarrow> wheel_set tw' \<subseteq> wheel_set tw \<union> A \<Longrightarrow> tw_fired tw' = tw_fired tw \<Longrightarrow>
  scope A tw tw'"
  by (simp add: scope_def)

lemma scope_refl: "scope A tw tw"
  by (rule scope_quiet) (auto simp: later_def)

lemma scope_fire: "\<not> tk_cancelled (tw_task tw a) \<Longrightarrow> scope {a} tw (fire a tw)"
  by (auto simp: scope_def later_def fire_def wheel_set_def)

lemma scope_Cancel: "scope {} tw (task_Cancel a tw)"
  by (rule scope_quiet) (auto simp: later_def task_Cancel_def wheel_set_def)

lemma scope_index: "scope {} tw (tw\<lparr>tw_index := ix\<rparr>)" "scope {} tw (tw\<lparr>tw_overflowMu := b\<rparr>)"
  "scope {} tw (tw\<lparr>tw_now := t\<rparr>)" "scope {} tw (set_cursor l c tw)" "scope {} tw (tw\<lparr>tw_cancelCh := is\<rparr>)"
  by (rule scope_quiet; auto simp: later_def wheel_set_def set_cursor_def)+

lemma scope_put: "scope {a} tw (put l n k a d tw)"
proof (rule scope_quiet)
  show "wheel_set (put l n k a d tw) \<subseteq> wheel_set tw \<union> {a}"
    by (auto simp: wheel_set_def put_def Let_def slot_add_def split: if_splits)
qed (auto simp: later_def put_def Let_def)

lemma mset_heap_push: "mset (fst (heap_push lt x h)) = add_mset x (mset (fst h))"
proof -
  have "mset (fst (heap_up lt (length (fst h)) (h_append x h))) = mset (fst (h_append x h))"
    using heap_up_keeps [of "length (fst h)" "h_append x h" lt] by (simp add: h_append_def)
  then show ?thesis by (simp add: heap_push_def h_append_def)
qed

lemma set_heap_push: "set (fst (heap_push lt x h)) = insert x (set (fst h))"
  using mset_heap_push by (metis set_mset_add_mset_insert set_mset_mset)

lemma set_heap_pop:
  assumes "fst h \<noteq> []"
  shows "set (fst (snd (heap_pop lt h))) \<subseteq> set (fst h)"
proof -
  let ?n = "length (fst h) - 1"
  let ?g = "snd (heap_down lt 0 ?n (h_swap 0 ?n h))"
  have l: "0 < length (fst h)" "?n < length (fst h)" using assms by auto
  have "mset (fst ?g) = mset (fst (h_swap 0 ?n h))"
  proof (rule conjunct1 [OF heap_down_keeps])
    show "0 < ?n \<or> ?n = 0" "?n \<le> length (fst (h_swap 0 ?n h))" by auto
  qed
  also have "\<dots> = mset (fst h)" using l by (rule mset_h_swap)
  finally have "set (fst ?g) = set (fst h)" by (metis set_mset_mset)
  moreover have "set (fst (snd (heap_pop lt h))) \<subseteq> set (fst ?g)"
    by (auto simp: heap_pop_def h_chop_def Let_def dest: in_set_butlastD)
  ultimately show ?thesis by blast
qed

lemma scope_push: "scope {a} tw (tw\<lparr>tw_overflow := heap_push lt a (tw_overflow tw)\<rparr>)"
  by (rule scope_quiet) (auto simp: later_def wheel_set_def set_heap_push)

lemma scope_place: "place a tw = Some tw' \<Longrightarrow> scope {a} tw tw'"
  using scope_fire [of tw a] scope_refl [of "{a}" tw] scope_push [of a tw] scope_put [of a tw]
  by (cases rule: place_cases [of tw a]) (auto simp: isCancelled_def put_at_def split: if_splits)

lemma scope_insert:
  assumes "insert_task a tw = Some tw'"
  shows "scope {a} tw tw'"
proof -
  let ?i = "tk_ID (tw_task tw a)"
  let ?t1 = "case tw_index tw ?i of Some old \<Rightarrow> task_Cancel old tw | None \<Rightarrow> tw"
  let ?t2 = "?t1\<lparr>tw_index := (tw_index ?t1)(?i \<mapsto> a)\<rparr>"
  have "scope {} tw ?t1" by (auto simp: scope_Cancel scope_refl split: option.split)
  from scope_trans [OF this scope_index(1)] have 1: "scope {} tw ?t2" by blast
  have w: "wheel_set ?t2 \<subseteq> wheel_set tw" using 1 by (simp add: scope_def)
  have "scope {a} ?t2 tw'" using assms by (intro scope_place) (simp add: insert_task_def Let_def)
  moreover have "scope {a} tw ?t2" using 1 by (auto simp: scope_def)
  ultimately show ?thesis using scope_trans by blast
qed

lemma scope_doCancel: "scope {} tw (doCancel i tw)"
  using scope_trans [OF scope_Cancel scope_index(1)]
  by (auto simp: doCancel_def scope_refl Let_def split: option.split)

lemma scope_weaken: "scope A tw tw' \<Longrightarrow> A \<subseteq> wheel_set tw \<union> B \<Longrightarrow> scope B tw tw'"
  using scope_trans scope_refl by blast

lemma scope_fire_list: "scope (set as) tw (fire_list as tw)"
proof (induction as tw rule: fire_list.induct)
  case (2 a as tw)
  let ?t = "if isCancelled tw a then tw else fire a tw"
  have "scope {a} tw ?t" using scope_fire scope_refl by (auto simp: isCancelled_def)
  then have "scope (set (a # as)) tw ?t" by (rule scope_weaken) auto
  then have "scope (set (a # as)) tw (fire_list as ?t)" by (rule scope_trans [OF _ 2]) auto
  then show ?case by (simp only: fire_list.simps)
qed (simp add: scope_refl)

lemma scope_place_list: "place_list as tw = Some tw' \<Longrightarrow> scope (set as) tw tw'"
proof (induction as arbitrary: tw)
  case (Cons a as)
  show ?case
  proof (cases "isCancelled tw a")
    case True
    then show ?thesis using Cons scope_weaken [of "set as" tw tw' "set (a # as)"] by auto
  next
    case False
    then obtain t where t: "place a tw = Some t" "place_list as t = Some tw'"
      using Cons.prems by (auto split: Option.bind_splits)
    have "scope (set (a # as)) tw t" by (rule scope_weaken [OF scope_place [OF t(1)]]) auto
    then show ?thesis by (rule scope_trans [OF _ Cons.IH [OF t(2)]]) auto
  qed
qed (simp add: scope_refl)

lemma scope_drain:
  assumes "slot_drain l s tw = (tasks, t)"
  shows "scope {} tw t" and "set tasks \<subseteq> wheel_set tw"
proof -
  show "scope {} tw t"
  proof (rule scope_quiet)
    have "set (tw_wheels t k j) \<subseteq> set (tw_wheels tw k j)" for k j
      using assms by (auto simp: slot_drain_def split: if_splits)
    moreover have "tw_overflow t = tw_overflow tw" using assms by (auto simp: slot_drain_def)
    ultimately show "wheel_set t \<subseteq> wheel_set tw \<union> {}" unfolding wheel_set_def by fastforce
  qed (use assms in \<open>auto simp: slot_drain_def later_def\<close>)
  show "set tasks \<subseteq> wheel_set tw" using assms by (auto simp: slot_drain_def wheel_set_def)
qed

lemma scope_fireTasks: "scope {} tw (fireTasks l s tw)"
proof -
  obtain tasks t where d: "slot_drain l s tw = (tasks, t)" by (rule prod.exhaust)
  show ?thesis
    using scope_trans [OF scope_drain(1) [OF d] scope_fire_list, of tasks] scope_drain(2) [OF d]
    by (simp add: fireTasks_def d)
qed

lemma scope_cascade: "cascade l s tw = Some tw' \<Longrightarrow> scope {} tw tw'"
proof -
  assume c: "cascade l s tw = Some tw'"
  obtain tasks t where d: "slot_drain l s tw = (tasks, t)" by (rule prod.exhaust)
  have "scope (set tasks) t tw'" using c by (intro scope_place_list) (simp add: cascade_def d)
  from scope_trans [OF scope_drain(1) [OF d] this] show ?thesis using scope_drain(2) [OF d] by simp
qed

lemma scope_overflow_loop:
  assumes "overflow_loop h tw = Some tw'"
  shows "scope {} tw tw'"
proof (rule overflow_loop.raw_induct [where P = "\<lambda>h tw tw'. scope {} tw tw'", OF _ assms])
  fix loop h and tw tw' :: "'f TimeWheel"
  let ?r = "fst (tw_overflow tw) ! 0"
  let ?tw1 = "tw\<lparr>tw_overflow := snd (heap_pop (task_less (tw_task tw)) (tw_overflow tw))\<rparr>"
  assume IH: "\<And>h tw tw'. loop h tw = Some tw' \<Longrightarrow> scope {} tw tw'"
    and eq: "(if fst (tw_overflow tw) = [] then Some tw
      else let r = fst (tw_overflow tw) ! 0
           in if h < fire_at tw r then Some tw
              else let tw1 = ?tw1 in if isCancelled tw1 r then loop h tw1
                   else place r tw1 \<bind> loop h) = Some tw'"
  show "scope {} tw tw'"
  proof (cases "fst (tw_overflow tw) = [] \<or> h < fire_at tw ?r")
    case True
    then show ?thesis using eq scope_refl by (auto simp: Let_def split: if_splits)
  next
    case False
    then have pop: "set (fst (tw_overflow ?tw1)) \<subseteq> set (fst (tw_overflow tw))"
      using set_heap_pop [of "tw_overflow tw"] by auto
    then have s1: "scope {} tw ?tw1" by (intro scope_quiet) (auto simp: later_def wheel_set_def)
    have r: "?r \<in> wheel_set tw" using False by (auto simp: wheel_set_def)
    have s2: "place ?r ?tw1 = Some t \<Longrightarrow> scope {} tw t" for t
      by (rule scope_trans [OF s1 scope_place]) (use r in auto)
    show ?thesis
    proof (cases "isCancelled ?tw1 ?r")
      case True
      then have "loop h ?tw1 = Some tw'" using eq False by (simp add: Let_def)
      from scope_trans [OF s1 IH [OF this]] show ?thesis by simp
    next
      case False
      then obtain t where t: "place ?r ?tw1 = Some t" "loop h t = Some tw'"
        using eq \<open>\<not> (fst (tw_overflow tw) = [] \<or> h < fire_at tw ?r)\<close>
        by (auto simp: Let_def split: Option.bind_splits)
      from scope_trans [OF s2 [OF t(1)] IH [OF t(2)]] show ?thesis by simp
    qed
  qed
qed

lemma scope_cascadeOverflow: "cascadeOverflow tw = Some tw' \<Longrightarrow> scope {} tw tw'"
proof -
  assume c: "cascadeOverflow tw = Some tw'"
  obtain t where t: "overflow_loop (tw_now tw + maxWheelSpan) (tw\<lparr>tw_overflowMu := True\<rparr>) = Some t"
    "tw' = t\<lparr>tw_overflowMu := False\<rparr>"
    using c by (auto simp: cascadeOverflow_def split: if_splits Option.bind_splits)
  have "scope {} tw t" using scope_trans [OF scope_index(2) scope_overflow_loop [OF t(1)]] by simp
  from scope_trans [OF this scope_index(2)] show ?thesis unfolding t(2) by simp
qed

lemma scope_seq: "scope {} t1 t2 \<Longrightarrow> scope {} t2 t3 \<Longrightarrow> scope {} t1 t3"
  using scope_trans by blast

lemma scope_turn: "scope {} t1 t2 \<Longrightarrow> cascade l c (set_cursor l c t2) = Some t3 \<Longrightarrow> scope {} t1 t3"
  using scope_seq [OF scope_seq [OF _ scope_index(4)] scope_cascade] by blast

lemma scope_level:
  assumes "scope {} tw t" "cascade l c (set_cursor l c t) \<bind> (\<lambda>t1. if c \<noteq> 0 then Some t1 else f t1) = Some tw'"
    "\<And>t1. scope {} tw t1 \<Longrightarrow> f t1 = Some tw' \<Longrightarrow> scope {} tw tw'"
  shows "scope {} tw tw'"
proof -
  obtain t1 where t1: "cascade l c (set_cursor l c t) = Some t1" "(if c \<noteq> 0 then Some t1 else f t1) = Some tw'"
    using assms(2) by (cases "cascade l c (set_cursor l c t)") auto
  have "scope {} tw t1" by (rule scope_turn [OF assms(1) t1(1)])
  then show ?thesis using t1(2) assms(3) by (cases "c = 0") auto
qed

lemma scope_tick:
  assumes "tick_body wallNow tw = Some tw'"
  shows "scope {} tw tw'"
proof -
  obtain t where t: "cascadeOverflow (tw\<lparr>tw_now := time_truncate wallNow lvl0Tick\<rparr>) = Some t"
    using assms by (cases "cascadeOverflow (tw\<lparr>tw_now := time_truncate wallNow lvl0Tick\<rparr>)")
      (simp_all add: tick_body_def)
  define c0 where "c0 = (tw_cursor t 0 + 1) mod lvl0Slots"
  define t0 where "t0 = fireTasks 0 c0 (set_cursor 0 c0 t)"
  have s0: "scope {} tw t0"
    using scope_seq [OF scope_seq [OF scope_index(3) scope_cascadeOverflow [OF t]]
        scope_seq [OF scope_index(4) scope_fireTasks]] by (simp add: t0_def)
  note eq = assms [unfolded tick_body_def t Option.bind.bind_lunit Let_def, folded c0_def, folded t0_def]
  show ?thesis
  proof (cases "c0 = 0")
    case False
    then have "tw' = t0" using eq by simp
    then show ?thesis using s0 by simp
  next
    case True
    note eq0 = eq [unfolded eqTrueI [OF True] not_True_eq_False if_False]
    show ?thesis
    proof (rule scope_level [OF s0 eq0])
      fix t1
      assume s1: "scope {} tw t1" and eq1: "cascade 2 ((tw_cursor t1 2 + 1) mod lvl2Slots)
        (set_cursor 2 ((tw_cursor t1 2 + 1) mod lvl2Slots) t1) \<bind> (\<lambda>t2. if (tw_cursor t1 2 + 1) mod lvl2Slots \<noteq> 0
          then Some t2 else cascade 3 ((tw_cursor t2 3 + 1) mod lvl3Slots)
            (set_cursor 3 ((tw_cursor t2 3 + 1) mod lvl3Slots) t2)) = Some tw'"
      show "scope {} tw tw'" by (rule scope_level [OF s1 eq1]) (rule scope_turn)
    qed
  qed
qed

end
