(* ===== verification/Sched_Props.thy ===== *)
theory Sched_Props
  imports Lifecycle Wheel_Scope
begin

text \<open>
  What the scheduler guarantees and what it does not: which executors a trigger reaches, what a
  rescheduled job's state is, when \<open>Start\<close> comes back, and what happens to a job whose trigger was
  lost. \<open>talks\<close> is what the dispatching part of the handler may change.
\<close>

section \<open>What the handler changes\<close>

definition talks :: "int \<times> trigger_type \<Rightarrow> ('c, 't) Scheduler \<Rightarrow> ('c, 't) Scheduler \<Rightarrow> bool" where
  "talks k s s' \<longleftrightarrow> sd_store s' = sd_store s \<and> sd_wheel s' = sd_wheel s \<and> sd_workerCh s' = sd_workerCh s \<and>
     sd_callbacks s' = sd_callbacks s \<and> sd_executorStore s' = sd_executorStore s \<and>
     sd_redis s' = sd_redis s \<and> sd_workerCap s' = sd_workerCap s \<and> sd_workers s' = sd_workers s \<and>
     (\<exists>new. sd_out s' = sd_out s @ new \<and> (\<forall>l. LogCreated l \<in> set new \<longrightarrow> (jl_JobID l, jl_TriggerType l) = k))"

lemma talks_refl [simp]: "talks k s s" by (simp add: talks_def)

lemma talks_trans: "talks k s1 s2 \<Longrightarrow> talks k s2 s3 \<Longrightarrow> talks k s1 s3"
  by (auto simp: talks_def)

lemma talks_emit: "(\<And>l. e = LogCreated l \<Longrightarrow> (jl_JobID l, jl_TriggerType l) = k) \<Longrightarrow> talks k s (emit e s)"
  by (auto simp: talks_def emit_def)

lemma talks_fields [simp]: "talks k s (s\<lparr>sd_rateLimiter := r\<rparr>)" "talks k s (s\<lparr>sd_paramEngine := e\<rparr>)"
  "talks k s (s\<lparr>sd_routers := ro\<rparr>)" "talks k s (s\<lparr>sd_calls := cs\<rparr>)"
  by (simp_all add: talks_def)

lemma talks_kill: "talks k s (kill_running j ls s)"
proof (induction j ls s rule: kill_running.induct)
  case (2 jobID l ls s)
  let ?s = "if jl_JobID l = jobID \<and> jl_ExecutorAddress l \<noteq> []
    then emit (KillSent (jl_ExecutorAddress l) \<lparr>kr_LogID = jl_ID l, kr_JobID = jobID\<rparr>) s else s"
  have "talks k s ?s" by (auto intro: talks_emit)
  from talks_trans [OF this 2] show ?case by (simp only: kill_running.simps)
qed simp

lemma talks_block: "talks k s (snd (applyBlockStrategy an job s))"
  by (auto simp: applyBlockStrategy_def talks_kill split: sum.splits)

lemma talks_limit: "talks k s (snd (check_limit an job s))"
  by (auto simp: check_limit_def split: option.splits prod.splits)

lemma talks_render: "talks k s (snd (render_param lb now job i n tt s))"
  by (auto simp: render_param_def Let_def split: option.splits prod.splits)

lemma talks_send: "talks (ji_ID job, tt_triggerType task) s (sendTrigger lb an job addr task i n s)"
proof -
  obtain p s1 where r: "render_param lb (an_renderNow an) job (int i) (int n) (tt_triggerType task) s = (p, s1)"
    by (rule prod.exhaust)
  have "talks (ji_ID job, tt_triggerType task) s s1" using talks_render [of "(ji_ID job, tt_triggerType task)" s] r by (metis snd_conv)
  moreover have "talks (ji_ID job, tt_triggerType task) s1 (sendTrigger lb an job addr task i n s)"
    by (auto simp: sendTrigger_def r Let_def running_log_def talks_def emit_def split: sum.splits)
  ultimately show ?thesis by (rule talks_trans)
qed

lemma talks_broadcast: "talks (ji_ID job, tt_triggerType task) s (broadcast lb an job task i n addrs s)"
proof (induction addrs arbitrary: i s)
  case (Cons a as)
  show ?case using talks_trans [OF talks_send Cons] by simp
qed simp

lemma talks_fail: "talks (ji_ID job, tt_triggerType task) s (recordTriggerFail an job task reason s)"
  by (auto simp: recordTriggerFail_def Let_def intro!: talks_emit split: sum.splits)

text \<open>Every way the handler ends is a reschedule after some talking.\<close>

lemma dispatch_cases:
  assumes "dispatch lb an task s = Done s'"
  obtains s1 where "talks (ji_ID (tt_job task), tt_triggerType task) s s1" "reschedule lb an (tt_job task) s1 = Done s'"
proof -
  let ?job = "tt_job task" and ?as = "job_addresses an (tt_job task) s"
  consider "?as = []" | "?as \<noteq> []" "ji_RouteStrategy ?job = RouteShardingBroadcast"
    | "?as \<noteq> []" "ji_RouteStrategy ?job \<noteq> RouteShardingBroadcast" by blast
  then show thesis
  proof cases
    case 1
    then show ?thesis using that [OF talks_fail] assms by (simp add: dispatch_def Let_def)
  next
    case 2
    then show ?thesis using that [OF talks_broadcast] assms by (simp add: dispatch_def Let_def)
  next
    case 3
    obtain res r where R: "Route (an_rnd an) (an_routeNow an) (NewRouter (ji_RouteStrategy ?job)) ?as (ji_ID ?job)
      (ji_ExecuteParam ?job) (sd_routers s) = (res, r)" by (rule prod.exhaust)
    have t: "talks (ji_ID ?job, tt_triggerType task) s (s\<lparr>sd_routers := r\<rparr>)" by simp
    show ?thesis
      using 3 assms R that [OF talks_trans [OF t talks_send]] that [OF talks_trans [OF t talks_fail]]
      by (cases res) (simp_all add: dispatch_def Let_def)
  qed
qed

lemma handle_locked_cases:
  assumes "handle_locked lb an task s = Done s'"
  obtains s1 where "talks (ji_ID (tt_job task), tt_triggerType task) s s1" "reschedule lb an (tt_job task) s1 = Done s'"
proof -
  obtain err s1 where c: "check_limit an (tt_job task) s = (err, s1)" by (rule prod.exhaust)
  obtain go s2 where b: "applyBlockStrategy an (tt_job task) s1 = (go, s2)" by (rule prod.exhaust)
  have t1: "talks (ji_ID (tt_job task), tt_triggerType task) s s1" using talks_limit [of _ s] c by (metis snd_conv)
  have t2: "talks (ji_ID (tt_job task), tt_triggerType task) s s2"
    using talks_trans [OF t1] talks_block [of _ s1] b by (metis snd_conv)
  show ?thesis
  proof (cases err)
    case (Some e)
    then show ?thesis using that [OF t1] assms c by (simp add: handle_locked_def)
  next
    case None
    show ?thesis
    proof (cases go)
      case False
      then show ?thesis using that [OF t2] assms c b None by (simp add: handle_locked_def)
    next
      case True
      then have "dispatch lb an task s2 = Done s'" using assms c b None by (simp add: handle_locked_def)
      then show ?thesis using dispatch_cases [of lb an task s2 s'] that talks_trans [OF t2] by metis
    qed
  qed
qed

section \<open>Rescheduling\<close>

definition all_tasks :: "'f TimeWheel \<Rightarrow> nat set" where
  "all_tasks w = wheel_set w \<union> set (tw_addCh w)"

text \<open>\<open>adds k w w'\<close>: at most one task was created, and it is one of job \<open>k\<close>.\<close>

definition adds :: "int \<Rightarrow> closure TimeWheel \<Rightarrow> closure TimeWheel \<Rightarrow> bool" where
  "adds k w w' \<longleftrightarrow> w' = w \<or> (\<exists>t. w' = tw_Add (task_id k) t (k, t) w \<or> w' = snd (new_task (task_id k) t (k, t) w))"

lemma scheduleWheel_Done:
  "scheduleWheel d job s = Done s' \<Longrightarrow> \<exists>w. s' = s\<lparr>sd_wheel := w\<rparr> \<and> adds (ji_ID job) (sd_wheel s) w"
  by (auto simp: scheduleWheel_def wheel_add_def adds_def split: option.splits if_splits)

lemma store_Get_id: "store_inv st \<Longrightarrow> store_Get k st = Some j \<Longrightarrow> ji_ID j = k"
  using job_store.view_id by (auto simp: store_Get_registry)

lemma or_same_inv:
  "store_inv st \<Longrightarrow> store_inv (or_same st (store_UpdateNextTrigger k t l st))"
  "store_inv st \<Longrightarrow> store_inv (or_same st (store_UpdateStatus k JobStop st))"
proof -
  assume i: "store_inv st"
  show "store_inv (or_same st (store_UpdateNextTrigger k t l st))"
  proof (cases "registry st k")
    case (Some x)
    then obtain j d q where "registry st k = Some (j, d, q)" by (cases x) auto
    from job_store.update_next_Some [OF i this, of t l] show ?thesis by (auto simp: or_same_def)
  qed (simp add: or_same_def i job_store.update_next_None)
  show "store_inv (or_same st (store_UpdateStatus k JobStop st))"
  proof (cases "registry st k")
    case (Some x)
    then obtain j d q where "registry st k = Some (j, d, q)" by (cases x) auto
    from job_store.update_status_Some [OF i this, of JobStop] show ?thesis by (auto simp: or_same_def)
  qed (simp add: or_same_def i job_store.update_status_None)
qed

lemma reschedule_Done:
  assumes "reschedule lb an job s = Done s'" "store_inv (sd_store s)"
  shows "\<exists>w st. s' = s\<lparr>sd_wheel := w, sd_store := st\<rparr> \<and> adds (ji_ID job) (sd_wheel s) w \<and> store_inv st"
proof -
  have keep: "\<exists>w st'. s\<lparr>sd_store := st\<rparr> = s\<lparr>sd_wheel := w, sd_store := st'\<rparr> \<and> adds (ji_ID job) (sd_wheel s) w \<and> store_inv st'"
    if "store_inv st" for st
    using that by (intro exI [of _ "sd_wheel s"] exI [of _ st]) (simp add: adds_def)
  show ?thesis
  proof (cases "ji_CronExpression job = []")
    case True
    then have "s' = s\<lparr>sd_store := or_same (sd_store s) (store_UpdateStatus (ji_ID job) JobStop (sd_store s))\<rparr>"
      using assms(1) by (simp add: reschedule_def)
    then show ?thesis using keep [OF or_same_inv(2) [OF assms(2)]] by blast
  next
    case False
    show ?thesis
    proof (cases "lb_cron lb (ji_CronExpression job)")
      case (Inl err)
      then have "s' = s\<lparr>sd_store := sd_store s\<rparr>" using assms(1) False by (simp add: reschedule_def)
      then show ?thesis using keep [OF assms(2)] by blast
    next
      case (Inr sched)
      let ?lst = "case ji_NextTriggerTime job of Some t \<Rightarrow> t | None \<Rightarrow> an_schedNow an"
      let ?st = "or_same (sd_store s) (store_UpdateNextTrigger (ji_ID job) (sched (an_schedNow an)) ?lst (sd_store s))"
      have i: "store_inv ?st" by (rule or_same_inv(1) [OF assms(2)])
      have eq: "(case store_Get (ji_ID job) ?st of None \<Rightarrow> Done (s\<lparr>sd_store := ?st\<rparr>)
        | Some fresh \<Rightarrow> if ji_Status fresh = JobRun then scheduleWheel (an_dropped an) fresh (s\<lparr>sd_store := ?st\<rparr>)
            else Done (s\<lparr>sd_store := ?st\<rparr>)) = Done s'"
        using assms(1) False Inr by (simp add: reschedule_def Let_def)
      show ?thesis
      proof (cases "store_Get (ji_ID job) ?st")
        case None
        then have "s' = s\<lparr>sd_store := ?st\<rparr>" using eq by simp
        then show ?thesis using keep [OF i] by blast
      next
        case (Some fresh)
        have f: "ji_ID fresh = ji_ID job" by (rule store_Get_id [OF i Some])
        show ?thesis
        proof (cases "ji_Status fresh = JobRun")
          case True
          then have "scheduleWheel (an_dropped an) fresh (s\<lparr>sd_store := ?st\<rparr>) = Done s'" using eq Some by simp
          from scheduleWheel_Done [OF this] obtain w where
            "s' = s\<lparr>sd_store := ?st, sd_wheel := w\<rparr>" "adds (ji_ID job) (sd_wheel s) w" by (auto simp: f)
          then show ?thesis using i by (intro exI [of _ w] exI [of _ ?st]) simp
        next
          case False
          then have "s' = s\<lparr>sd_store := ?st\<rparr>" using eq Some by simp
          then show ?thesis using keep [OF i] by blast
        qed
      qed
    qed
  qed
qed

section \<open>A lost trigger\<close>

text \<open>A job is pending while something in the scheduler will lead to a trigger of it: a live task in
  the wheel or on the way to it, a callback that was started, a trigger in the worker channel.\<close>

definition live_task :: "int \<Rightarrow> closure TimeWheel \<Rightarrow> nat \<Rightarrow> bool" where
  "live_task k w a \<longleftrightarrow> fst (tk_fn (tw_task w a)) = k \<and> \<not> tk_cancelled (tw_task w a)"

definition pending :: "int \<Rightarrow> ('c, 't) Scheduler \<Rightarrow> bool" where
  "pending k s \<longleftrightarrow> (\<exists>a \<in> all_tasks (sd_wheel s). live_task k (sd_wheel s) a) \<or>
     k \<in> fst ` set (sd_callbacks s) \<or> (\<exists>t \<in> set (sd_workerCh s). ji_ID (tt_job t) = k)"

definition sched_inv :: "('c, 't) Scheduler \<Rightarrow> bool" where
  "sched_inv s \<longleftrightarrow> store_inv (sd_store s) \<and> (\<forall>a \<in> all_tasks (sd_wheel s). a < tw_fresh (sd_wheel s))"

definition job_logs :: "int \<Rightarrow> ('c, 't) Scheduler \<Rightarrow> JobLog list" where
  "job_logs k s = [l. LogCreated l \<leftarrow> sd_out s, jl_JobID l = k]"

definition orphan :: "int \<Rightarrow> ('c, 't) Scheduler \<Rightarrow> bool" where
  "orphan k s \<longleftrightarrow> sched_inv s \<and> \<not> pending k s"

lemma all_tasks_new: "all_tasks (snd (new_task i t fn w)) = all_tasks w"
  "all_tasks (tw_Add i t fn w) = insert (tw_fresh w) (all_tasks w)"
  by (auto simp: all_tasks_def wheel_set_def new_task_def tw_Add_def)

lemma adds_orphan:
  assumes "adds j w w'" "j \<noteq> k" "\<forall>a \<in> all_tasks w. a < tw_fresh w" "\<forall>a \<in> all_tasks w. \<not> live_task k w a"
  shows "(\<forall>a \<in> all_tasks w'. a < tw_fresh w') \<and> (\<forall>a \<in> all_tasks w'. \<not> live_task k w' a)"
proof -
  consider "w' = w" | t where "w' = tw_Add (task_id j) t (j, t) w" | t where "w' = snd (new_task (task_id j) t (j, t) w)"
    using assms(1) by (auto simp: adds_def)
  then show ?thesis
  proof cases
    case 1
    then show ?thesis using assms by simp
  next
    case 2
    have f: "tw_fresh w' = Suc (tw_fresh w)" "live_task k w' a \<longleftrightarrow> a \<noteq> tw_fresh w \<and> live_task k w a" for a
      using assms(2) by (auto simp: 2 tw_Add_def new_task_def live_task_def)
    have "all_tasks w' = insert (tw_fresh w) (all_tasks w)" unfolding 2 by (rule all_tasks_new)
    then show ?thesis using assms(3,4) f less_SucI by auto
  next
    case 3
    have f: "tw_fresh w' = Suc (tw_fresh w)" "live_task k w' a \<longleftrightarrow> a \<noteq> tw_fresh w \<and> live_task k w a" for a
      using assms(2) by (auto simp: 3 new_task_def live_task_def)
    have "all_tasks w' = all_tasks w" unfolding 3 by (rule all_tasks_new)
    then show ?thesis using assms(3,4) f less_SucI by auto
  qed
qed

text \<open>A step of the wheel: no task of the job is live, so none of its closures is started.\<close>

lemma scope_all_tasks:
  assumes "scope A w w'" "A \<subseteq> all_tasks w0" "all_tasks w \<subseteq> all_tasks w0"
  shows "all_tasks w' \<subseteq> all_tasks w0"
  using assms by (auto simp: scope_def later_def all_tasks_def)

lemma wheel_runs_scope:
  assumes "wheel_runs w w'"
  shows "all_tasks w' \<subseteq> all_tasks w \<and> tw_fresh w' = tw_fresh w \<and>
    (\<forall>a. tk_fn (tw_task w' a) = tk_fn (tw_task w a) \<and> (tk_cancelled (tw_task w a) \<longrightarrow> tk_cancelled (tw_task w' a))) \<and>
    (\<exists>new. tw_fired w' = tw_fired w @ new \<and>
      (\<forall>(a, t) \<in> set new. a \<in> all_tasks w \<and> \<not> tk_cancelled (tw_task w a)))"
  using assms
proof cases
  case (wr_add a as)
  let ?w = "w\<lparr>tw_addCh := as\<rparr>"
  have w: "wheel_set ?w = wheel_set w" by (simp add: wheel_set_def)
  from scope_insert [OF wr_add(3)] show ?thesis
    using wr_add(2) by (fastforce simp: scope_def later_def all_tasks_def w)
next
  case (wr_cancel i "is")
  let ?w = "w\<lparr>tw_cancelCh := is\<rparr>"
  have w: "wheel_set ?w = wheel_set w" by (simp add: wheel_set_def)
  have s: "scope {} ?w w'" unfolding wr_cancel(1) by (rule scope_doCancel)
  then show ?thesis by (fastforce simp: scope_def later_def all_tasks_def w)
next
  case (wr_tick wallNow)
  from scope_tick [OF wr_tick(4)] show ?thesis by (fastforce simp: scope_def later_def all_tasks_def)
qed

lemma wheel_step_orphan:
  assumes "orphan k s" "wheel_runs (sd_wheel s) w"
  shows "orphan k (s\<lparr>sd_wheel := w, sd_callbacks := sd_callbacks s @ started_callbacks (sd_wheel s) w\<rparr>)"
proof -
  let ?w = "sd_wheel s"
  note S = wheel_runs_scope [OF assms(2)]
  obtain new where new: "tw_fired w = tw_fired ?w @ new"
    "\<forall>(a, t) \<in> set new. a \<in> all_tasks ?w \<and> \<not> tk_cancelled (tw_task ?w a)" using S by blast
  have fn: "tk_fn (tw_task w a) = tk_fn (tw_task ?w a)" for a using S by blast
  have no: "\<not> live_task k ?w a" if "a \<in> all_tasks ?w" for a
    using that assms(1) by (auto simp: orphan_def pending_def)
  have "started_callbacks ?w w = map (\<lambda>(a, t). tk_fn (tw_task ?w a)) new"
    by (simp add: started_callbacks_def new(1) fn)
  then have "k \<notin> fst ` set (started_callbacks ?w w)"
    using new(2) no by (auto simp: live_task_def split_def image_iff)
  moreover have "\<not> live_task k w a" if "a \<in> all_tasks w" for a
    using that S no unfolding live_task_def by (metis (no_types, lifting) subsetD)
  ultimately show ?thesis
    using assms(1) S by (auto simp: orphan_def pending_def sched_inv_def image_Un)
qed

lemma orphanD:
  assumes "orphan k s"
  shows "store_inv (sd_store s)" "\<forall>a \<in> all_tasks (sd_wheel s). a < tw_fresh (sd_wheel s)"
    "\<forall>a \<in> all_tasks (sd_wheel s). \<not> live_task k (sd_wheel s) a" "k \<notin> fst ` set (sd_callbacks s)"
    "\<forall>t \<in> set (sd_workerCh s). ji_ID (tt_job t) \<noteq> k"
  using assms by (auto simp: orphan_def pending_def sched_inv_def)

lemma orphanI:
  assumes "store_inv (sd_store s)" "\<forall>a \<in> all_tasks (sd_wheel s). a < tw_fresh (sd_wheel s)"
    "\<forall>a \<in> all_tasks (sd_wheel s). \<not> live_task k (sd_wheel s) a" "k \<notin> fst ` set (sd_callbacks s)"
    "\<forall>t \<in> set (sd_workerCh s). ji_ID (tt_job t) \<noteq> k"
  shows "orphan k s"
  using assms by (auto simp: orphan_def pending_def sched_inv_def)

lemma callback_orphan:
  assumes "orphan k s" "fn \<in> set (sd_callbacks s)"
  shows "orphan k (wheel_callback fn (s\<lparr>sd_callbacks := remove1 fn (sd_callbacks s)\<rparr>)) \<and>
    sd_out (wheel_callback fn (s\<lparr>sd_callbacks := remove1 fn (sd_callbacks s)\<rparr>)) = sd_out s"
proof -
  note O = orphanD [OF assms(1)]
  obtain j t where fn: "fn = (j, t)" by (rule prod.exhaust)
  have j: "j \<noteq> k" using O(4) assms(2) fn by (metis fst_conv image_eqI)
  let ?s = "s\<lparr>sd_callbacks := remove1 fn (sd_callbacks s)\<rparr>"
  have "k \<notin> fst ` set (remove1 fn (sd_callbacks s))" using O(4) set_remove1_subset by fastforce
  then have o: "orphan k ?s" using O by (intro orphanI) simp_all
  show ?thesis
  proof (cases "store_Get j (sd_store s)")
    case None
    then show ?thesis using o by (simp add: wheel_callback_def fn)
  next
    case (Some latest)
    then have "ji_ID latest \<noteq> k" using store_Get_id [OF O(1)] j by simp
    then have "orphan k (?s\<lparr>sd_workerCh := sd_workerCh s @ [\<lparr>tt_job = latest, tt_triggerTime = t, tt_triggerType = TriggerCron\<rparr>]\<rparr>)"
      using orphanD [OF o] by (intro orphanI) auto
    then show ?thesis using o Some by (simp add: wheel_callback_def fn try_send_def)
  qed
qed

definition same_logs :: "int \<Rightarrow> ('c, 't) Scheduler \<Rightarrow> ('c, 't) Scheduler \<Rightarrow> bool" where
  "same_logs k s s' \<longleftrightarrow> job_logs k s' = job_logs k s"

lemma same_logs_out: "sd_out s' = sd_out s \<Longrightarrow> same_logs k s s'"
  by (simp add: same_logs_def job_logs_def)

lemma same_logs_new:
  "sd_out s' = sd_out s @ new \<Longrightarrow> (\<And>l. LogCreated l \<in> set new \<Longrightarrow> jl_JobID l \<noteq> k) \<Longrightarrow> same_logs k s s'"
proof -
  assume out: "sd_out s' = sd_out s @ new" and n: "\<And>l. LogCreated l \<in> set new \<Longrightarrow> jl_JobID l \<noteq> k"
  have "concat (map (\<lambda>e. case e of LogCreated l \<Rightarrow> if jl_JobID l = k then [l] else [] | _ \<Rightarrow> []) new) = []"
    using n by (induction new) (auto split: effect.split)
  then show ?thesis unfolding same_logs_def job_logs_def out by simp
qed

lemma handle_locked_orphan:
  assumes "orphan k s" "ji_ID (tt_job task) \<noteq> k" "handle_locked lb an task s = Done s'"
  shows "orphan k s' \<and> same_logs k s s'"
proof -
  note O = orphanD [OF assms(1)]
  obtain s1 where t: "talks (ji_ID (tt_job task), tt_triggerType task) s s1" and r: "reschedule lb an (tt_job task) s1 = Done s'"
    by (rule handle_locked_cases [OF assms(3)])
  have eq: "sd_store s1 = sd_store s" "sd_wheel s1 = sd_wheel s" "sd_workerCh s1 = sd_workerCh s"
    "sd_callbacks s1 = sd_callbacks s" using t by (simp_all add: talks_def)
  obtain w st where s': "s' = s1\<lparr>sd_wheel := w, sd_store := st\<rparr>" "adds (ji_ID (tt_job task)) (sd_wheel s) w" "store_inv st"
    using reschedule_Done [OF r] O(1) eq by auto
  have "orphan k s'"
    using adds_orphan [OF s'(2) assms(2) O(2,3)] s'(1,3) O(4,5) eq by (intro orphanI) simp_all
  moreover have "same_logs k s s'"
    using t s'(1) assms(2) by (auto simp: talks_def intro!: same_logs_new)
  ultimately show ?thesis ..
qed

lemma worker_orphan:
  assumes "orphan k s" "ji_ID (tt_job task) \<noteq> k" "handleTask lb an task s = Done s'"
  shows "orphan k s' \<and> same_logs k s s'"
proof (cases "sd_redis s \<and> an_lock an = Inr True")
  case True
  then obtain s1 where s1: "handle_locked lb an task s = Done s1"
    and s': "\<exists>k v. s' = emit (ReleaseLock k v) s1"
    using assms(3) by (cases "handle_locked lb an task s") (auto simp: handleTask_def)
  have "orphan k s1 \<and> same_logs k s s1" by (rule handle_locked_orphan [OF assms(1,2) s1])
  then show ?thesis
    using s' by (auto simp: emit_def orphan_def pending_def sched_inv_def same_logs_def job_logs_def)
next
  case False
  then have "handle_locked lb an task s = Done s' \<or> s' = s"
    using assms(3) by (auto simp: handleTask_def split: sum.splits bool.splits if_splits)
  then show ?thesis using handle_locked_orphan [OF assms(1,2)] assms(1) by (auto simp: same_logs_def)
qed

lemma orphan_cong:
  "orphan k s \<Longrightarrow> sd_wheel s' = sd_wheel s \<Longrightarrow> sd_callbacks s' = sd_callbacks s \<Longrightarrow>
   sd_workerCh s' = sd_workerCh s \<Longrightarrow> store_inv (sd_store s') \<Longrightarrow> orphan k s'"
  by (simp add: orphan_def pending_def sched_inv_def)

lemma internal_orphan:
  assumes "internal_step lb s s'" "orphan k s"
  shows "orphan k s' \<and> same_logs k s s'"
  using assms(1)
proof cases
  case (is_wheel w)
  then show ?thesis using wheel_step_orphan [OF assms(2)] by (simp add: same_logs_out)
next
  case (is_callback fn)
  then show ?thesis using callback_orphan [OF assms(2)] by (simp add: same_logs_out)
next
  case (is_worker task tasks an)
  note O = orphanD [OF assms(2)]
  have "orphan k (s\<lparr>sd_workerCh := tasks\<rparr>)" using O is_worker(2) by (intro orphanI) auto
  moreover have "ji_ID (tt_job task) \<noteq> k" using O(5) is_worker(2) by auto
  ultimately show ?thesis using worker_orphan is_worker(3) by (fastforce simp: same_logs_def job_logs_def)
next
  case (is_call c net start "end")
  obtain job l addr where c: "c = (job, l, addr)" by (metis prod.exhaust)
  let ?s = "s\<lparr>sd_calls := remove1 c (sd_calls s)\<rparr>"
  obtain e1 e2 where out: "s' = emit e2 (emit e1 ?s)" "\<And>l. e1 \<noteq> LogCreated l" "\<And>l. e2 \<noteq> LogCreated l"
    using is_call(1) by (auto simp: c callExecutor_def Let_def split: option.splits prod.splits)
  have "orphan k s'"
    by (rule orphan_cong [OF assms(2)]) (simp_all add: out(1) emit_def orphanD(1) [OF assms(2)])
  moreover have "same_logs k s s'" by (rule same_logs_new [of _ _ "[e1, e2]"]) (use out in \<open>auto simp: emit_def\<close>)
  ultimately show ?thesis ..
next
  case (is_flush ord fails)
  then have "store_inv (store_flush ord fails (sd_store s))"
    using store_flush_effect orphanD(1) [OF assms(2)] by blast
  then have "orphan k s'" by (intro orphan_cong [OF assms(2)]) (simp_all add: is_flush(1))
  then show ?thesis by (simp add: is_flush(1) same_logs_out)
next
  case (is_last_flush ord fails)
  then have "store_inv (store_flush ord fails (sd_store s))"
    using store_flush_effect orphanD(1) [OF assms(2)] by blast
  then have "orphan k s'" by (intro orphan_cong [OF assms(2)]) (simp_all add: is_last_flush(1))
  then show ?thesis by (simp add: is_last_flush(1) same_logs_out)
next
  case (is_executors es es')
  have "orphan k s'" by (rule orphan_cong [OF assms(2)]) (simp_all add: is_executors(1) orphanD(1) [OF assms(2)])
  then show ?thesis by (simp add: is_executors(1) same_logs_out)
qed

lemma internal_orphan_star:
  "(internal_step lb)\<^sup>*\<^sup>* s s' \<Longrightarrow> orphan k s \<Longrightarrow> orphan k s' \<and> same_logs k s s'"
proof (induction rule: rtranclp_induct)
  case (step s1 s2)
  then show ?case using internal_orphan [OF step(2)] by (simp add: same_logs_def)
qed (simp add: same_logs_def)

end
