(* ===== verification/Sched_Theorems.thy ===== *)
theory Sched_Theorems
  imports Sched_Props "HOL-Library.Multiset"
begin

text \<open>
  The properties of the scheduler: where its triggers go, what a handled trigger leaves behind, what a
  lost one does, and how it starts, stops and starts again.
\<close>

section \<open>A scheduler for the evaluations\<close>

definition demo_libs :: "(unit, string) libs" where
  "demo_libs = \<lparr>lb_cron = (\<lambda>_. Inr (\<lambda>t. t + second)), lb_parse = (\<lambda>_ s. Inr s), lb_exec = (\<lambda>t _. Inr t), lb_loc = 0\<rparr>"

definition demo_answers :: "string + bool \<Rightarrow> answers" where
  "demo_answers lock = \<lparr>an_lock = lock, an_uuid = ''u'', an_checkNow = 6, an_running = Inr [],
     an_net = (\<lambda>_ _. Response 200 []), an_order = [''a1''], an_listNow = 6, an_byApp = Inr [],
     an_rnd = (\<lambda>n. n - 1), an_routeNow = 6, an_renderNow = 6, an_create = (\<lambda>i. Inr (int i + 1)),
     an_failNow = 6, an_schedNow = 6, an_dropped = False\<rparr>"

definition demo_sched :: "JobInfo \<Rightarrow> (unit, string) Scheduler" where
  "demo_sched job = (sched_New 0 ''node'' True (Some demo_store) [])\<lparr>sd_store := store_Add job store_New\<rparr>"

definition demo_trigger :: "JobInfo \<Rightarrow> triggerTask" where
  "demo_trigger job = \<lparr>tt_job = job, tt_triggerTime = 6, tt_triggerType = TriggerCron\<rparr>"

lemma demo_sched_simps [simp]:
  "sd_store (demo_sched job) = store_Add job store_New" "sd_redis (demo_sched job)"
  "sd_wheel (demo_sched job) = tw_New 0 no_task" "sd_workerCh (demo_sched job) = []"
  "sd_callbacks (demo_sched job) = []" "sd_calls (demo_sched job) = []" "sd_out (demo_sched job) = []"
  "sd_rateLimiter (demo_sched job) = None" "sd_paramEngine (demo_sched job) = None"
  "sd_executorStore (demo_sched job) = Some demo_store" "sd_routers (demo_sched job) = routers_init"
  "sd_nodeID (demo_sched job) = ''node''" "tt_job (demo_trigger job) = job"
  by (simp_all add: demo_sched_def sched_New_def sched_defaultOpts_def demo_trigger_def Let_def)

lemma demo_sched_inv: "sched_inv (demo_sched job)" "\<not> pending k (demo_sched job)"
proof -
  have w: "all_tasks (tw_New 0 no_task) = {}" by (simp add: all_tasks_def wheel_set_def tw_New_def)
  show "sched_inv (demo_sched job)"
    using job_store.add_ok [OF store_New_inv] by (simp add: sched_inv_def w)
  show "\<not> pending k (demo_sched job)" by (simp add: pending_def w)
qed

section \<open>A lost trigger stays lost\<close>

text \<open>What the scheduler does to other jobs leaves the stored job alone.\<close>

lemma or_same_other:
  assumes "store_inv st" "i \<noteq> k"
  shows "store_Get k (or_same st (store_UpdateNextTrigger i t l st)) = store_Get k st"
    "store_Get k (or_same st (store_UpdateStatus i JobStop st)) = store_Get k st"
proof -
  show "store_Get k (or_same st (store_UpdateNextTrigger i t l st)) = store_Get k st"
  proof (cases "registry st i")
    case (Some x)
    then obtain j d q where "registry st i = Some (j, d, q)" by (cases x) auto
    from job_store.update_next_Some [OF assms(1) this, of t l] assms(2) show ?thesis
      by (auto simp: or_same_def store_Get_registry)
  qed (simp add: or_same_def job_store.update_next_None)
  show "store_Get k (or_same st (store_UpdateStatus i JobStop st)) = store_Get k st"
  proof (cases "registry st i")
    case (Some x)
    then obtain j d q where "registry st i = Some (j, d, q)" by (cases x) auto
    from job_store.update_status_Some [OF assms(1) this, of JobStop] assms(2) show ?thesis
      by (auto simp: or_same_def store_Get_registry)
  qed (simp add: or_same_def job_store.update_status_None)
qed

lemma scheduleWheel_store: "scheduleWheel d job s = Done s' \<Longrightarrow> sd_store s' = sd_store s"
  using scheduleWheel_Done by fastforce

lemma reschedule_other:
  assumes "reschedule lb an job s = Done s'" "store_inv (sd_store s)" "ji_ID job \<noteq> k"
  shows "store_Get k (sd_store s') = store_Get k (sd_store s)"
  using assms(1) or_same_other [OF assms(2,3)] unfolding reschedule_def Let_def
  by (auto split: if_splits sum.splits option.splits dest: scheduleWheel_store)

lemma handleTask_other:
  assumes "handleTask lb an task s = Done s'" "store_inv (sd_store s)" "ji_ID (tt_job task) \<noteq> k"
  shows "store_Get k (sd_store s') = store_Get k (sd_store s)"
proof -
  have locked: "store_Get k (sd_store s1) = store_Get k (sd_store s)" if h: "handle_locked lb an task s = Done s1" for s1
  proof -
    obtain s0 where "talks (ji_ID (tt_job task), tt_triggerType task) s s0" "reschedule lb an (tt_job task) s0 = Done s1"
      by (rule handle_locked_cases [OF h])
    then show ?thesis using reschedule_other [of lb an "tt_job task" s0 s1 k] assms(2,3) by (simp add: talks_def)
  qed
  show ?thesis
  proof (cases "handle_locked lb an task s")
    case (Done s1)
    then show ?thesis using locked [OF Done] assms(1)
      by (auto simp: handleTask_def emit_def split: if_splits sum.splits bool.splits)
  qed (use assms(1) in \<open>auto simp: handleTask_def split: if_splits sum.splits bool.splits\<close>)
qed

lemma flush_keeps_job:
  "store_inv st \<Longrightarrow> iter_order (st_jobByID st) ord \<Longrightarrow> store_Get k (store_flush ord fails st) = store_Get k st"
  using store_flush_effect(2) [of st ord fails k] by (simp add: store_Get_registry option.map_comp comp_def case_prod_beta)

lemma internal_keeps_job:
  assumes "internal_step lb s s'" "orphan k s"
  shows "store_Get k (sd_store s') = store_Get k (sd_store s)"
  using assms(1)
proof cases
  case (is_callback fn)
  then show ?thesis by (auto simp: wheel_callback_def try_send_def split: prod.splits option.splits)
next
  case (is_worker task tasks an)
  note O = orphanD [OF assms(2)]
  have "ji_ID (tt_job task) \<noteq> k" using O(5) is_worker(2) by auto
  then show ?thesis using handleTask_other [OF is_worker(3)] O(1) by simp
next
  case (is_call c net start "end")
  then show ?thesis by (auto simp: callExecutor_def emit_def Let_def split: option.splits prod.splits)
next
  case (is_flush ord fails)
  then show ?thesis using flush_keeps_job orphanD(1) [OF assms(2)] by simp
next
  case (is_last_flush ord fails)
  then show ?thesis using flush_keeps_job orphanD(1) [OF assms(2)] by simp
qed simp_all

lemma internal_keeps_job_star:
  "(internal_step lb)\<^sup>*\<^sup>* s s' \<Longrightarrow> orphan k s \<Longrightarrow> store_Get k (sd_store s') = store_Get k (sd_store s)"
proof (induction rule: rtranclp_induct)
  case (step s1 s2)
  then show ?case using internal_keeps_job [OF step(2)] internal_orphan_star [OF step(1)] by simp
qed simp

text \<open>Property C20: when the worker that takes the only pending trigger of a job from the channel does not get the
  lock (another node holds it, or Redis fails), it drops the trigger without rescheduling the job. The job was
  pending before; now it is not, and whatever the scheduler does by itself it never is again and no log of it is
  created, although the job stays in the store as it was. The wheel, the callbacks, the other workers, the flush
  loop and the executor registry may run on as they like.\<close>

theorem lost_trigger:
  assumes "sched_inv s" "sd_workerCh s = task # tasks" "0 < sd_workers s" "k = ji_ID (tt_job task)"
    and "\<not> pending k (s\<lparr>sd_workerCh := tasks\<rparr>)"
    and "sd_redis s" "an_lock an \<noteq> Inr True" "handleTask lb an task (s\<lparr>sd_workerCh := tasks\<rparr>) = Done s1"
    and "(internal_step lb)\<^sup>*\<^sup>* s1 s2"
  shows "pending k s \<and> internal_step lb s s1 \<and> \<not> pending k s2 \<and> job_logs k s2 = job_logs k s \<and>
    store_Get k (sd_store s2) = store_Get k (sd_store s)"
proof -
  have s1: "s1 = s\<lparr>sd_workerCh := tasks\<rparr>"
    using assms(6-8) by (auto simp: handleTask_def split: sum.splits bool.splits)
  have o: "orphan k s1" using assms(1,5) by (simp add: orphan_def sched_inv_def s1)
  have "pending k s" using assms(2,4) by (simp add: pending_def)
  moreover have "internal_step lb s s1" by (rule is_worker [OF assms(3,2,8)])
  ultimately show ?thesis
    using internal_orphan_star [OF assms(9) o] internal_keeps_job_star [OF assms(9) o] s1
    by (simp add: orphan_def same_logs_def job_logs_def)
qed

lemma lost_trigger_witness:
  "let s = (demo_sched (demo_job 1 5))\<lparr>sd_workerCh := [demo_trigger (demo_job 1 5)], sd_workers := 1\<rparr>
   in pending 1 s \<and> \<not> pending 1 (s\<lparr>sd_workerCh := []\<rparr>) \<and> store_Get 1 (sd_store s) = Some (demo_job 1 5)"
proof -
  let ?s = "(demo_sched (demo_job 1 5))\<lparr>sd_workerCh := [demo_trigger (demo_job 1 5)], sd_workers := 1\<rparr>"
  have h: "handleTask demo_libs (demo_answers (Inr False)) (demo_trigger (demo_job 1 5)) (?s\<lparr>sd_workerCh := []\<rparr>) =
      Done (?s\<lparr>sd_workerCh := []\<rparr>)"
    by (simp add: handleTask_def demo_answers_def)
  have "sched_inv ?s" "\<not> pending 1 (?s\<lparr>sd_workerCh := []\<rparr>)"
    using demo_sched_inv(1) [of "demo_job 1 5"] demo_sched_inv(2) [where k = 1 and job = "demo_job 1 5"] by (simp_all add: sched_inv_def pending_def)
  then have "pending 1 ?s \<and> \<not> pending 1 (?s\<lparr>sd_workerCh := []\<rparr>)"
    using lost_trigger [of ?s "demo_trigger (demo_job 1 5)" "[]" 1 "demo_answers (Inr False)" demo_libs
      "?s\<lparr>sd_workerCh := []\<rparr>" "?s\<lparr>sd_workerCh := []\<rparr>"] h by (simp add: demo_answers_def)
  moreover have "store_Get 1 (store_Add (demo_job 1 5) store_New) = Some (demo_job 1 5)"
    using job_store.add_view [OF store_New_inv, of "demo_job 1 5"] by (simp add: store_Get_registry)
  ultimately show ?thesis by (simp add: Let_def)
qed

section \<open>A handled trigger\<close>

lemma scheduleWheel_running:
  "scheduleWheel d job s = Done s' \<Longrightarrow> \<not> tw_stopped (sd_wheel s) \<Longrightarrow> ji_NextTriggerTime job = Some t \<Longrightarrow>
   s' = s\<lparr>sd_wheel := tw_Add (task_id (ji_ID job)) t (ji_ID job, t) (sd_wheel s)\<rparr>"
  by (auto simp: scheduleWheel_def wheel_add_def split: if_splits)

lemma reschedule_enabled:
  assumes "reschedule lb an job s = Done s'" "store_inv (sd_store s)" "registry (sd_store s) (ji_ID job) = Some (j, d, q)"
    "ji_Status j = JobRun" "ji_CronExpression job \<noteq> []" "lb_cron lb (ji_CronExpression job) = Inr sched"
    "\<not> tw_stopped (sd_wheel s)"
  defines "nxt \<equiv> sched (an_schedNow an)"
    and "lst \<equiv> (case ji_NextTriggerTime job of Some t \<Rightarrow> t | None \<Rightarrow> an_schedNow an)"
  shows "sd_wheel s' = tw_Add (task_id (ji_ID job)) nxt (ji_ID job, nxt) (sd_wheel s) \<and>
    store_inv (sd_store s') \<and> registry (sd_store s') = (registry (sd_store s))
      (ji_ID job \<mapsto> (j\<lparr>ji_NextTriggerTime := Some nxt, ji_LastTriggerTime := Some lst\<rparr>, True, True))"
proof -
  let ?j = "j\<lparr>ji_NextTriggerTime := Some nxt, ji_LastTriggerTime := Some lst\<rparr>"
  obtain st where st: "store_UpdateNextTrigger (ji_ID job) nxt lst (sd_store s) = Inr st" "store_inv st"
    "registry st = (registry (sd_store s))(ji_ID job \<mapsto> (?j, True, True))"
    using job_store.update_next_Some [OF assms(2,3), of nxt lst] assms(4) by auto
  have g: "store_Get (ji_ID job) st = Some ?j" by (simp add: store_Get_registry st(3))
  have "scheduleWheel (an_dropped an) ?j (s\<lparr>sd_store := st\<rparr>) = Done s'"
    using assms(1) unfolding reschedule_def
    by (simp add: assms(4-6) Let_def nxt_def [symmetric] lst_def [symmetric] st(1) or_same_def g)
  from scheduleWheel_running [OF this] have "s' = s\<lparr>sd_store := st,
      sd_wheel := tw_Add (task_id (ji_ID ?j)) nxt (ji_ID ?j, nxt) (sd_wheel s)\<rparr>" using assms(7) by simp
  moreover have "ji_ID ?j = ji_ID job" using store_Get_id [OF st(2) g] .
  ultimately show ?thesis using st(2,3) by simp
qed

lemma handle_locked_enabled:
  assumes "handle_locked lb an task s = Done s'" "store_inv (sd_store s)"
    "registry (sd_store s) (ji_ID (tt_job task)) = Some (j, d, q)" "ji_Status j = JobRun"
    "ji_CronExpression (tt_job task) \<noteq> []" "lb_cron lb (ji_CronExpression (tt_job task)) = Inr sched"
    "\<not> tw_stopped (sd_wheel s)"
  defines "nxt \<equiv> sched (an_schedNow an)"
    and "lst \<equiv> (case ji_NextTriggerTime (tt_job task) of Some t \<Rightarrow> t | None \<Rightarrow> an_schedNow an)"
  shows "sd_wheel s' = tw_Add (task_id (ji_ID (tt_job task))) nxt (ji_ID (tt_job task), nxt) (sd_wheel s) \<and>
    registry (sd_store s') = (registry (sd_store s))
      (ji_ID (tt_job task) \<mapsto> (j\<lparr>ji_NextTriggerTime := Some nxt, ji_LastTriggerTime := Some lst\<rparr>, True, True))"
proof -
  obtain s1 where t: "talks (ji_ID (tt_job task), tt_triggerType task) s s1" and r: "reschedule lb an (tt_job task) s1 = Done s'"
    by (rule handle_locked_cases [OF assms(1)])
  have eq: "sd_store s1 = sd_store s" "sd_wheel s1 = sd_wheel s" using t by (simp_all add: talks_def)
  show ?thesis
    using reschedule_enabled [OF r, of j d q sched] assms(2-7) unfolding eq nxt_def lst_def by blast
qed


text \<open>A handler comes back: it can only wait for room in the wheel's channel.\<close>

definition has_room :: "closure TimeWheel \<Rightarrow> bool" where
  "has_room w \<longleftrightarrow> length (tw_addCh w) < addChCap \<or> tw_stopped w"

lemma scheduleWheel_returns:
  "has_room (sd_wheel s) \<Longrightarrow> ji_NextTriggerTime job \<noteq> None \<Longrightarrow> \<exists>s'. scheduleWheel d job s = Done s'"
  by (auto simp: scheduleWheel_def wheel_add_def has_room_def)

lemma reschedule_returns:
  assumes "store_inv (sd_store s)" "has_room (sd_wheel s)"
  shows "\<exists>s'. reschedule lb an job s = Done s'"
proof (cases "ji_CronExpression job = []")
  case False
  show ?thesis
  proof (cases "lb_cron lb (ji_CronExpression job)")
    case (Inr sched)
    let ?nxt = "sched (an_schedNow an)"
    let ?lst = "case ji_NextTriggerTime job of Some t \<Rightarrow> t | None \<Rightarrow> an_schedNow an"
    let ?st = "or_same (sd_store s) (store_UpdateNextTrigger (ji_ID job) ?nxt ?lst (sd_store s))"
    have n: "ji_NextTriggerTime fresh \<noteq> None" if "store_Get (ji_ID job) ?st = Some fresh" for fresh
    proof (cases "registry (sd_store s) (ji_ID job)")
      case None
      then show ?thesis using that by (simp add: or_same_def store_Get_registry job_store.update_next_None)
    next
      case (Some x)
      then obtain j d q where "registry (sd_store s) (ji_ID job) = Some (j, d, q)" by (cases x) auto
      from job_store.update_next_Some [OF assms(1) this, of ?nxt ?lst] show ?thesis
        using that by (auto simp: or_same_def store_Get_registry)
    qed
    have "\<exists>s'. (case store_Get (ji_ID job) ?st of None \<Rightarrow> Done (s\<lparr>sd_store := ?st\<rparr>)
        | Some fresh \<Rightarrow> if ji_Status fresh = JobRun then scheduleWheel (an_dropped an) fresh (s\<lparr>sd_store := ?st\<rparr>)
            else Done (s\<lparr>sd_store := ?st\<rparr>)) = Done s'"
    proof (cases "store_Get (ji_ID job) ?st")
      case (Some fresh)
      have "has_room (sd_wheel (s\<lparr>sd_store := ?st\<rparr>))" using assms(2) by simp
      from scheduleWheel_returns [OF this n [OF Some]] show ?thesis using Some by auto
    qed simp
    then show ?thesis using False Inr by (simp add: reschedule_def Let_def)
  qed (use False in \<open>simp add: reschedule_def\<close>)
qed (simp add: reschedule_def)

lemma kill_routers [simp]: "sd_routers (kill_running k ls s) = sd_routers s"
  by (induction k ls s rule: kill_running.induct) (simp_all add: emit_def)

lemma check_routers [simp]: "sd_routers (snd (check_limit an job s)) = sd_routers s"
  "sd_routers (snd (applyBlockStrategy an job s)) = sd_routers s"
  by (auto simp: check_limit_def applyBlockStrategy_def split: option.splits prod.splits sum.splits)

lemma talks_reschedule:
  "talks k s s1 \<Longrightarrow> store_inv (sd_store s) \<Longrightarrow> has_room (sd_wheel s) \<Longrightarrow> \<exists>s'. reschedule lb an job s1 = Done s'"
  by (rule reschedule_returns) (simp_all add: talks_def)

definition routing_ok :: "(nat \<Rightarrow> nat) \<Rightarrow> routers \<Rightarrow> bool" where
  "routing_ok rnd r \<longleftrightarrow> routers_ok r \<and> (\<forall>n>0. rnd n < n) \<and> (\<forall>k c. rr_counter r k = Some c \<longrightarrow> c < i64_max)"

lemma routing_Ok:
  "routing_ok rnd r \<Longrightarrow> as \<noteq> [] \<Longrightarrow> \<exists>a r'. Route rnd now (NewRouter st) as k param r = (Ok a, r') \<and> a \<in> set as"
  using Route_ok [of r rnd as now st k param] by (metis routing_ok_def prod.collapse)

lemma dispatch_returns:
  assumes "routing_ok (an_rnd an) (sd_routers s)" "store_inv (sd_store s)" "has_room (sd_wheel s)"
  shows "\<exists>s'. dispatch lb an task s = Done s'"
proof -
  let ?job = "tt_job task" and ?as = "job_addresses an (tt_job task) s"
  consider "?as = []" | "?as \<noteq> []" "ji_RouteStrategy ?job = RouteShardingBroadcast"
    | "?as \<noteq> []" "ji_RouteStrategy ?job \<noteq> RouteShardingBroadcast" by blast
  then show ?thesis
  proof cases
    case 1
    then show ?thesis using talks_reschedule [OF talks_fail assms(2,3)] by (simp add: dispatch_def Let_def)
  next
    case 2
    then show ?thesis using talks_reschedule [OF talks_broadcast assms(2,3)] by (simp add: dispatch_def Let_def)
  next
    case 3
    obtain a r where R: "Route (an_rnd an) (an_routeNow an) (NewRouter (ji_RouteStrategy ?job)) ?as (ji_ID ?job)
      (ji_ExecuteParam ?job) (sd_routers s) = (Ok a, r)" using routing_Ok [OF assms(1) 3(1)] by blast
    have "talks (ji_ID ?job, tt_triggerType task) s (s\<lparr>sd_routers := r\<rparr>)" by simp
    from talks_reschedule [OF talks_trans [OF this talks_send] assms(2,3)] show ?thesis
      using 3 R by (simp add: dispatch_def Let_def)
  qed
qed

lemma handle_locked_returns:
  assumes "routing_ok (an_rnd an) (sd_routers s)" "store_inv (sd_store s)" "has_room (sd_wheel s)"
  shows "\<exists>s'. handle_locked lb an task s = Done s'"
proof -
  obtain err s1 where c: "check_limit an (tt_job task) s = (err, s1)" by (rule prod.exhaust)
  obtain go s2 where b: "applyBlockStrategy an (tt_job task) s1 = (go, s2)" by (rule prod.exhaust)
  have t1: "talks (ji_ID (tt_job task), tt_triggerType task) s s1" using talks_limit [of _ s] c by (metis snd_conv)
  have t2: "talks (ji_ID (tt_job task), tt_triggerType task) s s2"
    using talks_trans [OF t1] talks_block [of _ s1] b by (metis snd_conv)
  have "sd_routers s2 = sd_routers s" using check_routers c b by (metis snd_conv)
  then have "\<exists>s'. dispatch lb an task s2 = Done s'"
    using assms t2 by (intro dispatch_returns) (simp_all add: talks_def)
  then show ?thesis
    using c b talks_reschedule [OF t1 assms(2,3)] talks_reschedule [OF t2 assms(2,3)]
    by (cases err; cases go) (simp_all add: handle_locked_def)
qed

lemma handleTask_returns:
  assumes "routing_ok (an_rnd an) (sd_routers s)" "store_inv (sd_store s)" "has_room (sd_wheel s)"
  shows "\<exists>s'. handleTask lb an task s = Done s'"
proof -
  obtain s1 where s1: "handle_locked lb an task s = Done s1" using handle_locked_returns [OF assms] by blast
  show ?thesis by (auto simp: handleTask_def s1 split: sum.split bool.split)
qed

text \<open>The inputs of the evaluations.\<close>

definition demo_cron :: JobInfo where
  "demo_cron = (demo_job 1 5)\<lparr>ji_CronExpression := ''* * * * * *'', ji_ExecutorApp := ''app''\<rparr>"

lemma demo_cron [simp]: "ji_ID demo_cron = 1" "ji_Status demo_cron = JobRun" "ji_CronExpression demo_cron \<noteq> []"
  "ji_ExecutorApp demo_cron = ''app''" "ji_NextTriggerTime demo_cron = Some 5"
  by (simp_all add: demo_cron_def demo_job_def)

lemma demo_tw_room: "length (tw_addCh (tw_New t u)) < addChCap"
  by (simp add: tw_New_def addChCap_def)

lemma demo_handled: "\<exists>s'. handleTask demo_libs (demo_answers lock) (demo_trigger job) (demo_sched job') = Done s'"
proof (rule handleTask_returns)
  show "routing_ok (an_rnd (demo_answers lock)) (sd_routers (demo_sched job'))"
    by (simp add: routing_ok_def routers_ok_def routers_init_def demo_answers_def)
  show "store_inv (sd_store (demo_sched job'))" using demo_sched_inv(1) by (simp add: sched_inv_def)
  show "has_room (sd_wheel (demo_sched job'))" by (simp add: has_room_def tw_New_def addChCap_def)
qed


section \<open>Where triggers go\<close>

lemma render_calls [simp]: "sd_calls (snd (render_param lb now job i n tt s)) = sd_calls s"
  by (auto simp: render_param_def Let_def split: option.splits prod.splits)

lemma emit_calls [simp]: "sd_calls (emit e s) = sd_calls s" by (simp add: emit_def)

lemma kill_calls [simp]: "sd_calls (kill_running k ls s) = sd_calls s"
  by (induction k ls s rule: kill_running.induct) simp_all

lemma check_calls [simp]: "sd_calls (snd (check_limit an job s)) = sd_calls s"
  "sd_calls (snd (applyBlockStrategy an job s)) = sd_calls s"
  by (auto simp: check_limit_def applyBlockStrategy_def split: option.splits prod.splits sum.splits)

lemma check_executors [simp]: "sd_executorStore (snd (check_limit an job s)) = sd_executorStore s"
  "sd_executorStore (snd (applyBlockStrategy an job s)) = sd_executorStore s"
  using talks_limit [of undefined s an job] talks_block [of undefined s an job] by (simp_all add: talks_def)

lemma fail_calls [simp]: "sd_calls (recordTriggerFail an job task reason s) = sd_calls s"
  by (simp add: recordTriggerFail_def Let_def split: sum.split)

lemma reschedule_calls: "reschedule lb an job s = Done s' \<Longrightarrow> sd_calls s' = sd_calls s"
  by (auto simp: reschedule_def scheduleWheel_def Let_def wheel_add_def split: if_splits sum.splits option.splits)

text \<open>The address, the shard and the log ID of a call.\<close>

definition target :: "JobInfo \<times> JobLog \<times> string \<Rightarrow> string \<times> int \<times> int \<times> int" where
  "target c = (case c of (job, l, a) \<Rightarrow> (a, jl_ShardingIndex l, jl_ShardingTotal l, jl_ID l))"

definition send_targets :: "answers \<Rightarrow> string \<Rightarrow> nat \<Rightarrow> nat \<Rightarrow> (string \<times> int \<times> int \<times> int) list" where
  "send_targets an a i n = (case an_create an i of Inl e \<Rightarrow> [] | Inr c \<Rightarrow> [(a, int i, int n, c)])"

definition call_for :: "JobInfo \<Rightarrow> JobInfo \<times> JobLog \<times> string \<Rightarrow> bool" where
  "call_for job c \<longleftrightarrow> (case c of (job', l, a) \<Rightarrow>
     job' = job \<and> jl_JobID l = ji_ID job \<and> jl_ExecutorAddress l = a \<and> jl_Status l = LogRunning)"

lemma send_calls:
  "\<exists>new. sd_calls (sendTrigger lb an job a task i n s) = sd_calls s @ new \<and>
     map target new = send_targets an a i n \<and> list_all (call_for job) new"
proof -
  obtain p s1 where r: "render_param lb (an_renderNow an) job (int i) (int n) (tt_triggerType task) s = (p, s1)"
    by (rule prod.exhaust)
  then have "sd_calls s1 = sd_calls s" using render_calls by (metis snd_conv)
  then show ?thesis
    by (auto simp: sendTrigger_def r Let_def send_targets_def target_def call_for_def running_log_def split: sum.split)
qed

lemma broadcast_calls:
  "\<exists>new. sd_calls (broadcast lb an job task i n as s) = sd_calls s @ new \<and>
     map target new = concat (map (\<lambda>(i, a). send_targets an a i n) (enumerate i as)) \<and> list_all (call_for job) new"
proof (induction as arbitrary: i s)
  case (Cons a as)
  obtain n1 where 1: "sd_calls (sendTrigger lb an job a task i n s) = sd_calls s @ n1"
    "map target n1 = send_targets an a i n" "list_all (call_for job) n1" using send_calls by blast
  obtain n2 where 2: "sd_calls (broadcast lb an job task (Suc i) n as (sendTrigger lb an job a task i n s)) =
      sd_calls (sendTrigger lb an job a task i n s) @ n2"
    "map target n2 = concat (map (\<lambda>(i, a). send_targets an a i n) (enumerate (Suc i) as))" "list_all (call_for job) n2"
    using Cons by blast
  show ?case using 1 2 by (intro exI [of _ "n1 @ n2"]) simp
qed simp

text \<open>The calls of a trigger, by the routing strategy.\<close>

definition calls_of :: "answers \<Rightarrow> JobInfo \<Rightarrow> string list \<Rightarrow> (string \<times> int \<times> int \<times> int) list \<Rightarrow> bool" where
  "calls_of an job as ts \<longleftrightarrow>
     (if ji_RouteStrategy job = RouteShardingBroadcast
      then ts = concat (map (\<lambda>(i, a). send_targets an a i (length as)) (enumerate 0 as))
      else if as = [] then ts = []
      else (\<exists>a \<in> set as. ts = send_targets an a 0 1))"

lemma dispatch_calls:
  assumes "dispatch lb an task s = Done s'" "routing_ok (an_rnd an) (sd_routers s)"
  shows "\<exists>new. sd_calls s' = sd_calls s @ new \<and> list_all (call_for (tt_job task)) new \<and>
    calls_of an (tt_job task) (job_addresses an (tt_job task) s) (map target new)"
proof -
  let ?job = "tt_job task" and ?as = "job_addresses an (tt_job task) s"
  consider "?as = []" | "?as \<noteq> []" "ji_RouteStrategy ?job = RouteShardingBroadcast"
    | "?as \<noteq> []" "ji_RouteStrategy ?job \<noteq> RouteShardingBroadcast" by blast
  then show ?thesis
  proof cases
    case 1
    then have "sd_calls s' = sd_calls s" using assms(1) reschedule_calls by (fastforce simp: dispatch_def Let_def)
    then show ?thesis using 1 by (intro exI [of _ "[]"]) (simp add: calls_of_def)
  next
    case 2
    then have "sd_calls s' = sd_calls (broadcast lb an ?job task 0 (length ?as) ?as s)"
      using assms(1) reschedule_calls by (fastforce simp: dispatch_def Let_def)
    then show ?thesis using broadcast_calls [of lb an ?job task 0 "length ?as" ?as s] 2 by (auto simp: calls_of_def)
  next
    case 3
    obtain a r where R: "Route (an_rnd an) (an_routeNow an) (NewRouter (ji_RouteStrategy ?job)) ?as (ji_ID ?job)
      (ji_ExecuteParam ?job) (sd_routers s) = (Ok a, r)" "a \<in> set ?as" using routing_Ok [OF assms(2) 3(1)] by blast
    have "reschedule lb an ?job (sendTrigger lb an ?job a task 0 1 (s\<lparr>sd_routers := r\<rparr>)) = Done s'"
      using assms(1) 3 R(1) by (simp add: dispatch_def Let_def)
    from reschedule_calls [OF this] have "sd_calls s' = sd_calls (sendTrigger lb an ?job a task 0 1 (s\<lparr>sd_routers := r\<rparr>))" .
    then show ?thesis
      using send_calls [of lb an ?job a task 0 1 "s\<lparr>sd_routers := r\<rparr>"] 3 R(2) by (auto simp: calls_of_def)
  qed
qed

lemma handleTask_calls:
  assumes "handleTask lb an task s = Done s'" "routing_ok (an_rnd an) (sd_routers s)"
  shows "sd_calls s' = sd_calls s \<or> (sd_redis s \<longrightarrow> an_lock an = Inr True) \<and>
    (\<exists>new. sd_calls s' = sd_calls s @ new \<and> list_all (call_for (tt_job task)) new \<and>
       calls_of an (tt_job task) (job_addresses an (tt_job task) s) (map target new))"
proof (cases "sd_redis s \<and> an_lock an \<noteq> Inr True")
  case True
  then show ?thesis using assms(1) by (auto simp: handleTask_def split: sum.splits bool.splits)
next
  case False
  then obtain s0 where h: "handle_locked lb an task s = Done s0" and s0: "sd_calls s' = sd_calls s0"
    using assms(1) by (cases "sd_redis s"; cases "handle_locked lb an task s") (auto simp: handleTask_def)
  obtain err s1 where c: "check_limit an (tt_job task) s = (err, s1)" by (rule prod.exhaust)
  obtain go s2 where b: "applyBlockStrategy an (tt_job task) s1 = (go, s2)" by (rule prod.exhaust)
  have eq: "sd_calls s1 = sd_calls s" "sd_calls s2 = sd_calls s" "sd_routers s2 = sd_routers s"
    "sd_executorStore s2 = sd_executorStore s"
    using check_calls check_routers check_executors c b by (metis snd_conv)+
  have as: "job_addresses an (tt_job task) s2 = job_addresses an (tt_job task) s" by (simp add: job_addresses_def eq)
  have "err \<noteq> None \<and> reschedule lb an (tt_job task) s1 = Done s0 \<or> err = None \<and> \<not> go \<and> reschedule lb an (tt_job task) s2 = Done s0 \<or>
      dispatch lb an task s2 = Done s0"
    using h c b by (cases err; cases go) (simp_all add: handle_locked_def)
  then show ?thesis
  proof (elim disjE conjE)
    assume "dispatch lb an task s2 = Done s0"
    then have "\<exists>new. sd_calls s0 = sd_calls s @ new \<and> list_all (call_for (tt_job task)) new \<and>
        calls_of an (tt_job task) (job_addresses an (tt_job task) s) (map target new)"
      using dispatch_calls [of lb an task s2 s0] assms(2) unfolding eq as by blast
    then show ?thesis using False s0 by auto
  qed (use reschedule_calls s0 eq in fastforce)+
qed

lemma job_addresses_online:
  assumes "sd_executorStore s = Some es" "es_reachable es" "es_order es (ji_ExecutorApp job) (an_order an)"
  shows "a \<in> set (job_addresses an job s) \<longleftrightarrow> (\<exists>e. es_abs es (ji_ExecutorApp job, a) = Some e \<and>
      en_online (an_listNow an) (eo_HeartbeatTTL (es_opts es)) e \<and> (ji_RouteStrategy job = RouteFailover \<longrightarrow> en_healthy e))"
    and "distinct (job_addresses an job s)"
  using executors.set_online [OF es_reachable_inv [OF assms(2)] assms(3), of "an_listNow an"]
    executors.set_healthy [OF es_reachable_inv [OF assms(2)] assms(3), of "an_listNow an"]
    executors.distinct_online [OF es_reachable_inv [OF assms(2)] assms(3), of "an_listNow an"]
    executors.distinct_healthy [OF es_reachable_inv [OF assms(2)] assms(3), of "an_listNow an"]
  by (auto simp: job_addresses_def assms(1) es_fresh_entry_def)

lemma send_targets_addr: "t \<in> set (send_targets an a i n) \<Longrightarrow> fst t = a"
  by (auto simp: send_targets_def split: sum.splits)

lemma send_targets_length: "length (send_targets an a i n) \<le> 1"
  by (auto simp: send_targets_def split: sum.split)

lemma calls_of_addr: "calls_of an job as ts \<Longrightarrow> t \<in> set ts \<Longrightarrow> fst t \<in> set as"
  by (auto simp: calls_of_def in_set_enumerate_eq split: if_splits dest!: send_targets_addr) (metis nth_mem)

text \<open>Property C11: a handled trigger starts calls only for its own job and only when the lock was
  obtained; every call goes to an executor that is registered for the job's app and had a heartbeat within
  the TTL (and passed its last probe, under FAILOVER), and only a broadcast starts more than one.\<close>

theorem handleTask_targets:
  assumes "handleTask lb an task s = Done s'" "routing_ok (an_rnd an) (sd_routers s)"
    "sd_executorStore s = Some es" "es_reachable es" "es_order es (ji_ExecutorApp (tt_job task)) (an_order an)"
  shows "\<exists>new. sd_calls s' = sd_calls s @ new \<and> list_all (call_for (tt_job task)) new \<and>
    (new \<noteq> [] \<and> sd_redis s \<longrightarrow> an_lock an = Inr True) \<and>
    (ji_RouteStrategy (tt_job task) \<noteq> RouteShardingBroadcast \<longrightarrow> length new \<le> 1) \<and>
    (\<forall>c \<in> set new. \<exists>e. es_abs es (ji_ExecutorApp (tt_job task), fst (target c)) = Some e \<and>
       en_online (an_listNow an) (eo_HeartbeatTTL (es_opts es)) e \<and>
       (ji_RouteStrategy (tt_job task) = RouteFailover \<longrightarrow> en_healthy e))"
  using handleTask_calls [OF assms(1,2)]
proof (elim disjE conjE exE)
  fix new
  assume n: "sd_calls s' = sd_calls s @ new" "list_all (call_for (tt_job task)) new"
    "calls_of an (tt_job task) (job_addresses an (tt_job task) s) (map target new)" "sd_redis s \<longrightarrow> an_lock an = Inr True"
  have "fst (target c) \<in> set (job_addresses an (tt_job task) s)" if "c \<in> set new" for c
    by (rule calls_of_addr [OF n(3)]) (use that in simp)
  moreover have "length (map target new) \<le> 1" if "ji_RouteStrategy (tt_job task) \<noteq> RouteShardingBroadcast"
  proof -
    have "map target new = [] \<or> (\<exists>a. map target new = send_targets an a 0 1)"
      using n(3) that by (auto simp: calls_of_def split: if_splits)
    then show ?thesis using send_targets_length by (metis list.size(3) zero_le)
  qed
  ultimately show ?thesis
    using n job_addresses_online(1) [OF assms(3-5)] by (intro exI [of _ new]) auto
qed (intro exI [of _ "[]"], simp)

lemma handleTask_targets_witness:
  "\<exists>s' new. handleTask demo_libs (demo_answers (Inr True)) (demo_trigger demo_cron) (demo_sched demo_cron) = Done s' \<and>
     sd_calls s' = new \<and> length new \<le> 1"
proof -
  obtain s' where s': "handleTask demo_libs (demo_answers (Inr True)) (demo_trigger demo_cron) (demo_sched demo_cron) = Done s'"
    using demo_handled by blast
  have "routing_ok (an_rnd (demo_answers (Inr True))) (sd_routers (demo_sched demo_cron))"
    by (simp add: routing_ok_def routers_ok_def routers_init_def demo_answers_def)
  moreover have "es_order demo_store ''app'' [''a1'']"
    by (simp add: es_order_def demo_store_facts iter_order_def)
  moreover have "ji_RouteStrategy demo_cron \<noteq> RouteShardingBroadcast"
    by (simp add: demo_cron_def demo_job_def zero_job_def RouteShardingBroadcast_def)
  ultimately show ?thesis
    using handleTask_targets [OF s', of demo_store] demo_store_facts(1) s' by (auto simp: demo_answers_def)
qed

lemma all_send_targets:
  assumes "\<And>i. an_create an i = Inr (c i)"
  shows "map (\<lambda>(a, i, n, c). (a, i, n)) (concat (map (\<lambda>(i, a). send_targets an a i n) (enumerate k as))) =
    map (\<lambda>(i, a). (a, int i, int n)) (enumerate k as)"
  by (induction as arbitrary: k) (simp_all add: send_targets_def assms)

text \<open>Property C30: a sharding broadcast whose log records can all be written starts one call per online
  executor of the app, numbered from 0 in the order of the listing, each told the number of shards.\<close>

theorem sharding_complete:
  assumes "dispatch lb an task s = Done s'" "routing_ok (an_rnd an) (sd_routers s)"
    "sd_executorStore s = Some es" "es_reachable es" "es_order es (ji_ExecutorApp (tt_job task)) (an_order an)"
    "ji_RouteStrategy (tt_job task) = RouteShardingBroadcast" "\<And>i. an_create an i = Inr (c i)"
  shows "\<exists>new as. sd_calls s' = sd_calls s @ new \<and> distinct as \<and>
    set as = {a. \<exists>e. es_abs es (ji_ExecutorApp (tt_job task), a) = Some e \<and>
      en_online (an_listNow an) (eo_HeartbeatTTL (es_opts es)) e} \<and>
    map (\<lambda>(a, i, n, c). (a, i, n)) (map target new) = map (\<lambda>(i, a). (a, int i, int (length as))) (enumerate 0 as)"
proof -
  let ?as = "job_addresses an (tt_job task) s"
  note J = job_addresses_online [OF assms(3-5)]
  have f: "ji_RouteStrategy (tt_job task) \<noteq> RouteFailover"
    using assms(6) by (simp add: RouteShardingBroadcast_def RouteFailover_def)
  obtain new where n: "sd_calls s' = sd_calls s @ new" "calls_of an (tt_job task) ?as (map target new)"
    using dispatch_calls [OF assms(1,2)] by blast
  have "map target new = concat (map (\<lambda>(i, a). send_targets an a i (length ?as)) (enumerate 0 ?as))"
    using n(2) assms(6) by (simp add: calls_of_def)
  note m = all_send_targets [OF assms(7), of "length ?as" 0 ?as, folded this]
  show ?thesis using n(1) J f m by (intro exI [of _ new] exI [of _ ?as]) auto
qed

lemma sharding_complete_witness:
  "\<exists>s' new. dispatch demo_libs (demo_answers (Inr True))
       (demo_trigger (demo_cron\<lparr>ji_RouteStrategy := RouteShardingBroadcast\<rparr>)) (demo_sched demo_cron) = Done s' \<and>
     sd_calls s' = new \<and> length new = card {a. \<exists>e. es_abs demo_store (''app'', a) = Some e \<and> en_online 6 (90 * second) e}"
proof -
  let ?t = "demo_trigger (demo_cron\<lparr>ji_RouteStrategy := RouteShardingBroadcast\<rparr>)" and ?s = "demo_sched demo_cron"
  have r: "routing_ok (an_rnd (demo_answers (Inr True))) (sd_routers ?s)"
    by (simp add: routing_ok_def routers_ok_def routers_init_def demo_answers_def)
  obtain s' where s': "dispatch demo_libs (demo_answers (Inr True)) ?t ?s = Done s'"
  proof -
    have i: "store_inv (sd_store ?s)" using demo_sched_inv(1) by (simp only: sched_inv_def)
    have "has_room (sd_wheel ?s)" unfolding has_room_def demo_sched_simps(3) using demo_tw_room by (rule disjI1)
    then show thesis using dispatch_returns [OF r i] that by blast
  qed
  let ?an = "demo_answers (Inr True)"
  have app: "ji_ExecutorApp (tt_job ?t) = ''app''" and sharding: "ji_RouteStrategy (tt_job ?t) = RouteShardingBroadcast"
    by (simp_all add: demo_cron_def demo_job_def)
  have ord: "an_order ?an = [''a1'']" and now: "an_listNow ?an = 6" and create: "an_create ?an i = Inr (int i + 1)" for i
    by (simp_all add: demo_answers_def)
  have o: "es_order demo_store (ji_ExecutorApp (tt_job ?t)) (an_order ?an)"
    unfolding app ord by (simp add: es_order_def demo_store_facts iter_order_def)
  obtain new as where n: "sd_calls s' = sd_calls ?s @ new" "distinct as"
    "set as = {a. \<exists>e. es_abs demo_store (''app'', a) = Some e \<and> en_online 6 (eo_HeartbeatTTL (es_opts demo_store)) e}"
    "map (\<lambda>(a, i, n, c). (a, i, n)) (map target new) = map (\<lambda>(i, a). (a, int i, int (length as))) (enumerate 0 as)"
    using sharding_complete [OF s' r demo_sched_simps(10) demo_store_facts(1) o sharding create]
    unfolding app now by blast
  have "length new = length as" using arg_cong [OF n(4), of length] by simp
  then show ?thesis
    using s' n(1-3) distinct_card [OF n(2)] by (auto simp: demo_store_facts(4) es_defaultOptions_def)
qed

section \<open>A cron expression without a next time\<close>

lemma insert_due:
  assumes "tw_index w i = None" "t \<le> tw_now w" "w1 = (tw_Add i t f w)\<lparr>tw_addCh := as\<rparr>"
  shows "insert_task (tw_fresh w) w1 = Some (fire (tw_fresh w) (w1\<lparr>tw_index := (tw_index w1)(i \<mapsto> tw_fresh w)\<rparr>))"
  using assms by (simp add: insert_task_def tw_Add_def new_task_def place_def Let_def isCancelled_def)

text \<open>The cron library answers the zero time for an expression that never matches, such as
  30 February. A job that reaches its handler with such an expression is triggered again at once: the wheel
  fires the new task as soon as it receives it, and the callback queues the next trigger, without any
  time passing.\<close>

lemma impossible_cron_storms:
  assumes "handleTask lb an task s = Done s'" "\<not> sd_redis s \<or> an_lock an = Inr True" "store_inv (sd_store s)"
    "registry (sd_store s) (ji_ID (tt_job task)) = Some (j, d, q)" "ji_Status j = JobRun"
    "ji_CronExpression (tt_job task) \<noteq> []" "lb_cron lb (ji_CronExpression (tt_job task)) = Inr (\<lambda>_. zero_time)"
    "running (sd_wheel s)" "tw_addCh (sd_wheel s) = []" "tw_index (sd_wheel s) (task_id (ji_ID (tt_job task))) = None"
    "zero_time \<le> tw_now (sd_wheel s)" "int (length (sd_workerCh s)) < sd_workerCap s"
  shows "\<exists>s2. (internal_step lb)\<^sup>*\<^sup>* s' s2 \<and> tw_now (sd_wheel s2) = tw_now (sd_wheel s) \<and>
    (\<exists>t \<in> set (sd_workerCh s2). ji_ID (tt_job t) = ji_ID (tt_job task) \<and> tt_triggerTime t = zero_time)"
proof -
  let ?k = "ji_ID (tt_job task)" and ?w = "sd_wheel s"
  let ?lst = "case ji_NextTriggerTime (tt_job task) of Some t \<Rightarrow> t | None \<Rightarrow> an_schedNow an"
  let ?j = "j\<lparr>ji_NextTriggerTime := Some zero_time, ji_LastTriggerTime := Some ?lst\<rparr>"
  obtain s1 where s1: "handle_locked lb an task s = Done s1" "sd_wheel s' = sd_wheel s1" "sd_store s' = sd_store s1"
    "sd_workerCh s' = sd_workerCh s1" "sd_workerCap s' = sd_workerCap s1"
    using assms(1,2) by (cases "sd_redis s"; cases "handle_locked lb an task s") (auto simp: handleTask_def emit_def)
  have H: "sd_wheel s' = tw_Add (task_id ?k) zero_time (?k, zero_time) ?w"
    "registry (sd_store s') ?k = Some (?j, True, True)"
    using handle_locked_enabled [OF s1(1) assms(3-7)] assms(8) s1(2,3) by simp_all
  obtain s0 where t: "talks (?k, tt_triggerType task) s s0" and r: "reschedule lb an (tt_job task) s0 = Done s1"
    by (rule handle_locked_cases [OF s1(1)])
  have ch: "sd_workerCh s' = sd_workerCh s" "sd_workerCap s' = sd_workerCap s"
    using reschedule_Done [OF r] t assms(3) s1(4,5) by (auto simp: talks_def)
  let ?w1 = "(tw_Add (task_id ?k) zero_time (?k, zero_time) ?w)\<lparr>tw_addCh := []\<rparr>"
  let ?w2 = "fire (tw_fresh ?w) (?w1\<lparr>tw_index := (tw_index ?w1)(task_id ?k \<mapsto> tw_fresh ?w)\<rparr>)"
  have "wheel_runs (sd_wheel s') ?w2"
  proof (rule wr_add)
    show "running (sd_wheel s')" using assms(8) by (simp add: H(1) tw_Add_def new_task_def)
    show "tw_addCh (sd_wheel s') = [tw_fresh ?w]" using assms(9) by (simp add: H(1) tw_Add_def new_task_def)
    show "insert_task (tw_fresh ?w) ((sd_wheel s')\<lparr>tw_addCh := []\<rparr>) = Some ?w2"
      using insert_due [OF assms(10,11) refl] by (simp add: H(1))
  qed
  then have step1: "internal_step lb s' (s'\<lparr>sd_wheel := ?w2,
      sd_callbacks := sd_callbacks s' @ started_callbacks (sd_wheel s') ?w2\<rparr>)" by (rule is_wheel)
  have cb: "started_callbacks (sd_wheel s') ?w2 = [(?k, zero_time)]"
    by (simp add: started_callbacks_def H(1) fire_def tw_Add_def new_task_def)
  let ?s2 = "s'\<lparr>sd_wheel := ?w2, sd_callbacks := sd_callbacks s' @ [(?k, zero_time)]\<rparr>"
  let ?s3 = "wheel_callback (?k, zero_time) (?s2\<lparr>sd_callbacks := remove1 (?k, zero_time) (sd_callbacks ?s2)\<rparr>)"
  have step2: "internal_step lb ?s2 ?s3" by (rule is_callback) simp
  have id: "ji_ID j = ?k" using job_store.view_id [OF assms(3,4)] .
  have "store_Get ?k (sd_store s') = Some ?j" by (simp add: store_Get_registry H(2))
  then have "sd_workerCh ?s3 = sd_workerCh s @ [\<lparr>tt_job = ?j, tt_triggerTime = zero_time, tt_triggerType = TriggerCron\<rparr>]"
    "sd_wheel ?s3 = ?w2"
    using assms(5,12) by (simp_all add: wheel_callback_def try_send_def ch)
  moreover have "tw_now ?w2 = tw_now ?w" by (simp add: fire_def tw_Add_def new_task_def)
  moreover have "(internal_step lb)\<^sup>*\<^sup>* s' ?s3"
    by (rule converse_rtranclp_into_rtranclp [of _ _ ?s2]) (use step1 step2 cb in simp_all)
  ultimately show ?thesis using id by (intro exI [of _ ?s3]) simp
qed

definition never_libs :: "(unit, string) libs" where
  "never_libs = demo_libs\<lparr>lb_cron := (\<lambda>_. Inr (\<lambda>_. zero_time))\<rparr>"

lemma impossible_cron_storms_witness:
  "\<exists>s' s2. handleTask never_libs (demo_answers (Inr True)) (demo_trigger demo_cron)
       ((demo_sched demo_cron)\<lparr>sd_wheel := tw_Start (tw_New 0 no_task)\<rparr>) = Done s' \<and>
     (internal_step never_libs)\<^sup>*\<^sup>* s' s2 \<and> sd_workerCh s2 \<noteq> []"
proof -
  let ?s = "(demo_sched demo_cron)\<lparr>sd_wheel := tw_Start (tw_New 0 no_task)\<rparr>"
  have inv: "store_inv (store_Add demo_cron store_New)" using job_store.add_ok [OF store_New_inv] .
  obtain s' where s': "handleTask never_libs (demo_answers (Inr True)) (demo_trigger demo_cron) ?s = Done s'"
  proof -
    have "routing_ok (an_rnd (demo_answers (Inr True))) (sd_routers ?s)"
      by (simp add: routing_ok_def routers_ok_def routers_init_def demo_answers_def)
    moreover have "has_room (sd_wheel ?s)" by (simp add: has_room_def tw_Start_def demo_tw_room)
    moreover have "store_inv (sd_store ?s)" using inv by simp
    ultimately show thesis using handleTask_returns that by blast
  qed
  have reg: "registry (sd_store ?s) (ji_ID (tt_job (demo_trigger demo_cron))) = Some (demo_cron, True, True)"
    using job_store.add_view [OF store_New_inv, of demo_cron] by (simp add: enqueues_def)
  have w: "running (sd_wheel ?s)" "tw_addCh (sd_wheel ?s) = []" "tw_index (sd_wheel ?s) i = None"
    "zero_time \<le> tw_now (sd_wheel ?s)" for i
    by (simp_all add: tw_Start_def tw_New_def time_truncate_def zero_time_def lvl0Tick_def millisecond_def)
  have room: "int (length (sd_workerCh ?s)) < sd_workerCap ?s"
    by (simp add: demo_sched_def sched_New_def sched_defaultOpts_def defaultWorkerNum_def Let_def)
  have lib: "lb_cron never_libs e = Inr (\<lambda>_. zero_time)" for e by (simp add: never_libs_def)
  have lock: "\<not> sd_redis ?s \<or> an_lock (demo_answers (Inr True)) = Inr True" by (simp add: demo_answers_def)
  have inv': "store_inv (sd_store ?s)" and c: "ji_CronExpression (tt_job (demo_trigger demo_cron)) \<noteq> []" using inv by simp_all
  obtain s2 where "(internal_step never_libs)\<^sup>*\<^sup>* s' s2" "sd_workerCh s2 \<noteq> []"
    using impossible_cron_storms [OF s' lock inv' reg _ c lib w room] by fastforce
  then show ?thesis using s' by blast
qed

end
