(* ===== verification/Start_Props.thy ===== *)
theory Start_Props
  imports Sched_Theorems
begin

text \<open>
  Starting, stopping and restarting the scheduler. The jobs table is a list of rows that \<open>List\<close> pages
  through with LIMIT and OFFSET (\<open>pages\<close>).
\<close>

lemma sched_New_simps [simp]:
  "sd_store (sched_New now i redis es opts) = store_New" "\<not> sd_running (sched_New now i redis es opts)"
  "sd_wheel (sched_New now i redis es opts) = tw_New now no_task" "\<not> sd_stopCh (sched_New now i redis es opts)"
  by (simp_all add: sched_New_def Let_def)

section \<open>Bootstrap\<close>

definition pages :: "JobInfo list \<Rightarrow> nat \<Rightarrow> string + JobInfo list" where
  "pages rows p = Inr (take bootstrapBatchSize (drop ((p - 1) * bootstrapBatchSize) rows))"

lemma store_LoadAll_append: "store_LoadAll (xs @ ys) s = store_LoadAll ys (store_LoadAll xs s)"
proof (induction xs arbitrary: s)
  case (Cons x xs)
  show ?case
    using store_LoadAll_Cons [of x "xs @ ys" s] store_LoadAll_Cons [of x xs s] Cons [of "store_LoadAll [x] s"]
    by (simp only: append_Cons)
qed simp

lemma load_pages_drop:
  "load_pages (pages rows) (Suc p) st = Some (None, store_LoadAll (drop (p * bootstrapBatchSize) rows) st)"
proof (induction "length (drop (p * bootstrapBatchSize) rows)" arbitrary: p st rule: less_induct)
  case less
  let ?N = bootstrapBatchSize
  let ?d = "drop (p * ?N) rows"
  have page: "pages rows (Suc p) = Inr (take ?N ?d)" by (simp add: pages_def)
  show ?case
  proof (cases "length (take ?N ?d) < ?N")
    case True
    then have "take ?N ?d = ?d" by simp
    then show ?thesis using True by (subst load_pages.simps) (simp add: page)
  next
    case False
    have n: "0 < ?N" by (simp add: bootstrapBatchSize_def)
    have next_drop: "drop (Suc p * ?N) rows = drop ?N ?d" by (simp add: add.commute)
    then have "length (drop (Suc p * ?N) rows) < length ?d" using False n by simp
    from less [OF this, of "store_LoadAll (take ?N ?d) st"]
    have "load_pages (pages rows) (Suc (Suc p)) (store_LoadAll (take ?N ?d) st) =
        Some (None, store_LoadAll (take ?N ?d @ drop ?N ?d) st)"
      by (simp only: store_LoadAll_append next_drop)
    moreover have "load_pages (pages rows) (Suc p) st =
        load_pages (pages rows) (Suc (Suc p)) (store_LoadAll (take ?N ?d) st)"
      by (subst load_pages.simps) (use False in \<open>simp add: page\<close>)
    ultimately show ?thesis by (simp only: append_take_drop_id)
  qed
qed

lemma load_pages_all: "load_pages (pages rows) 1 st = Some (None, store_LoadAll rows st)"
  using load_pages_drop [of rows 0 st] by simp

lemma LoadAll_New:
  assumes "distinct (map ji_ID rows)"
  shows "store_inv (store_LoadAll rows store_New)"
    and "registry (store_LoadAll rows store_New) = map_of (map (\<lambda>j. (ji_ID j, j, False, enqueues j)) rows)"
  using store_LoadAll_effect [OF store_New_inv assms] by simp_all

lemma bootstrap_all:
  assumes "sd_store s = store_New"
  shows "\<exists>es. bootstrap (pages rows) online now s =
    Done (None, s\<lparr>sd_store := store_LoadAll rows store_New, sd_executorStore := es\<rparr>)"
proof -
  have e: "\<exists>es. s\<lparr>sd_store := st\<rparr> = s\<lparr>sd_store := st, sd_executorStore := es\<rparr>" for st
    by (rule exI [of _ "sd_executorStore s"]) simp
  show ?thesis
    unfolding bootstrap_def assms load_pages_all
    by (cases "sd_executorStore s"; cases online) (auto simp: Let_def e)
qed

text \<open>The paging loop of \<open>bootstrap\<close> ends for every table, also when its last page is full,
  and leaves every enabled job of the table in the store, clean and queued if it has a trigger time.\<close>

lemma bootstrap_loads_all:
  assumes "distinct (map ji_ID rows)" "sd_store s = store_New"
  shows "\<exists>s'. bootstrap (pages rows) online now s = Done (None, s') \<and>
    registry (sd_store s') = map_of (map (\<lambda>j. (ji_ID j, j, False, enqueues j)) rows)"
  using bootstrap_all [OF assms(2), of rows online now] LoadAll_New(2) [OF assms(1)] by auto

lemma bootstrap_loads_all_witness:
  "\<exists>s'. bootstrap (pages (map (\<lambda>i. demo_job (int i) 5) [0..<4000])) (Inr []) 0
      (sched_New 0 ''n'' True None [] :: (unit, string) Scheduler) = Done (None, s') \<and>
    registry (sd_store s') 3999 = Some (demo_job 3999 5, False, True)"
proof -
  let ?rows = "map (\<lambda>i. demo_job (int i) 5) [0..<4000]"
  have d: "distinct (map ji_ID ?rows)" by (simp add: comp_def distinct_map inj_on_def)
  then have "map_of (map (\<lambda>j. (ji_ID j, j, False, enqueues j)) ?rows) 3999 = Some (demo_job 3999 5, False, True)"
    by (intro map_of_is_SomeI) (auto simp: comp_def image_iff intro!: bexI [of _ 3999])
  then show ?thesis
    using bootstrap_loads_all [OF d sched_New_simps(1), of "Inr []" 0 0 "''n''" True None "[]"] by auto
qed

section \<open>Start\<close>

fun add_all :: "JobInfo list \<Rightarrow> closure TimeWheel \<Rightarrow> closure TimeWheel" where
  "add_all [] w = w"
| "add_all (j # js) w = add_all js
     (case ji_NextTriggerTime j of None \<Rightarrow> w | Some t \<Rightarrow> tw_Add (task_id (ji_ID j)) t (ji_ID j, t) w)"

lemma tw_Add_frame [simp]: "tw_stopped (tw_Add i t f w) = tw_stopped w" "tw_started (tw_Add i t f w) = tw_started w"
  "length (tw_addCh (tw_Add i t f w)) = Suc (length (tw_addCh w))"
  by (simp_all add: tw_Add_def new_task_def)

lemma add_all_frame [simp]: "tw_stopped (add_all js w) = tw_stopped w" "tw_started (add_all js w) = tw_started w"
  by (induction js arbitrary: w) (simp_all split: option.split)

lemma length_add_all:
  "length (tw_addCh (add_all js w)) = length (tw_addCh w) + length (filter (\<lambda>j. ji_NextTriggerTime j \<noteq> None) js)"
  by (induction js arbitrary: w) (simp_all split: option.split)

lemma schedule_all_eq:
  assumes "\<not> tw_stopped (sd_wheel s)" "length (tw_addCh (sd_wheel s)) \<le> addChCap"
  shows "schedule_all d jobs s =
    (if length (tw_addCh (sd_wheel s)) + length (filter enqueues jobs) \<le> addChCap
     then Done (s\<lparr>sd_wheel := add_all (filter enqueues jobs) (sd_wheel s)\<rparr>) else Blocked)"
  using assms
proof (induction jobs arbitrary: s)
  case (Cons j js)
  let ?w = "sd_wheel s"
  show ?case
  proof (cases "enqueues j")
    case False
    then have "schedule_all d (j # js) s = schedule_all d js s" by (auto simp: enqueues_def)
    then show ?thesis using Cons False by simp
  next
    case True
    then obtain t where t: "ji_NextTriggerTime j = Some t" "ji_Status j = JobRun" by (auto simp: enqueues_def)
    let ?w1 = "tw_Add (task_id (ji_ID j)) t (ji_ID j, t) ?w"
    show ?thesis
    proof (cases "length (tw_addCh ?w) < addChCap")
      case room: True
      then have s: "scheduleWheel d j s = Done (s\<lparr>sd_wheel := ?w1\<rparr>)"
        using Cons.prems by (simp add: scheduleWheel_def wheel_add_def t)
      have "schedule_all d (j # js) s = schedule_all d js (s\<lparr>sd_wheel := ?w1\<rparr>)" by (simp add: t s)
      moreover have "filter enqueues (j # js) = j # filter enqueues js" using True by simp
      ultimately show ?thesis using Cons.IH [of "s\<lparr>sd_wheel := ?w1\<rparr>"] room Cons.prems by (simp add: t)
    next
      case False
      then have "scheduleWheel d j s = Blocked" using Cons.prems by (simp add: scheduleWheel_def wheel_add_def t)
      then have "schedule_all d (j # js) s = Blocked" by (simp add: t)
      then show ?thesis using False True by simp
    qed
  qed
qed simp

lemma Range_LoadAll:
  assumes "distinct (map ji_ID rows)" "iter_order (st_jobByID (store_LoadAll rows store_New)) ord"
  shows "mset (store_Range ord (store_LoadAll rows store_New)) = mset rows"
proof -
  let ?st = "store_LoadAll rows store_New"
  note L = LoadAll_New [OF assms(1)]
  have get: "store_Get i ?st = Some j \<longleftrightarrow> j \<in> set rows \<and> ji_ID j = i" for i j
  proof -
    have "distinct (map fst (map (\<lambda>j. (ji_ID j, j, False, enqueues j)) rows))" using assms(1) by (simp add: comp_def)
    then show ?thesis
      unfolding store_Get_registry L(2) by (auto simp: map_of_eq_Some_iff image_iff)
  qed
  have "map ji_ID (store_Range ord ?st) = map fst (go_range (st_jobByID ?st) ord)"
  proof -
    have "ji_ID (st_job ?st a) = k" if "st_jobByID ?st k = Some a" for k a
      using get [of k "st_job ?st a"] that by (simp add: store_Get_def)
    then show ?thesis by (auto simp: store_Range_def set_go_range)
  qed
  then have "distinct (map ji_ID (store_Range ord ?st))"
    using assms(2) by (simp add: distinct_go_range iter_order_def)
  then have "distinct (store_Range ord ?st)" by (simp add: distinct_map)
  moreover have "distinct rows" using assms(1) by (simp add: distinct_map)
  moreover have "set (store_Range ord ?st) = set rows" using store_Range_jobs [OF assms(2)] get by auto
  ultimately show ?thesis by (simp add: set_eq_iff_mset_eq_distinct)
qed

lemma length_filter_mset: "mset xs = mset ys \<Longrightarrow> length (filter P xs) = length (filter P ys)"
  by (metis mset_filter size_mset)

lemma Start_eq:
  assumes "sd_store s = store_New" "\<not> sd_running s" "\<not> tw_stopped (sd_wheel s)" "tw_addCh (sd_wheel s) = []"
  shows "\<exists>es. let w = add_all (filter enqueues (store_Range ord (store_LoadAll rows store_New))) (sd_wheel s)
    in sched_Start (pages rows) online now ord d s =
      (if length (filter enqueues (store_Range ord (store_LoadAll rows store_New))) \<le> addChCap
       then Done (None, s\<lparr>sd_store := store_LoadAll rows store_New, sd_executorStore := es, sd_wheel := tw_Start w,
         sd_workers := sd_workers s + nat defaultWorkerNum, sd_flushing := Suc (sd_flushing s), sd_running := True\<rparr>)
       else Blocked)"
proof -
  obtain es where b: "bootstrap (pages rows) online now s =
      Done (None, s\<lparr>sd_store := store_LoadAll rows store_New, sd_executorStore := es\<rparr>)"
    using bootstrap_all [OF assms(1)] by blast
  let ?s = "s\<lparr>sd_store := store_LoadAll rows store_New, sd_executorStore := es\<rparr>"
  have "length (tw_addCh (sd_wheel ?s)) \<le> addChCap" using assms(4) by simp
  note S = schedule_all_eq [OF _ this, of d "store_Range ord (store_LoadAll rows store_New)"]
  show ?thesis
    by (rule exI [of _ es]) (use assms S in \<open>simp add: sched_Start_def b Let_def\<close>)
qed

text \<open>Property C19: \<open>Start\<close> sends one message to the wheel per enabled job with a trigger time before
  it starts the wheel's goroutine, so with more of them than the channel holds (4096) it never returns:
  nobody receives, and it holds the scheduler's mutex. With at most 4096 it returns with the wheel and the
  workers running and one message per job.\<close>

theorem Start_blocks_iff:
  assumes "distinct (map ji_ID rows)" "\<And>j. j \<in> set rows \<Longrightarrow> ji_Status j = JobRun"
    "iter_order (st_jobByID (store_LoadAll rows store_New)) ord"
    "sd_store s = store_New" "\<not> sd_running s" "\<not> tw_stopped (sd_wheel s)" "tw_addCh (sd_wheel s) = []"
  defines "n \<equiv> length (filter (\<lambda>j. ji_NextTriggerTime j \<noteq> None) rows)"
  shows "(addChCap < n \<longrightarrow> sched_Start (pages rows) online now ord d s = Blocked) \<and>
    (n \<le> addChCap \<longrightarrow> (\<exists>s'. sched_Start (pages rows) online now ord d s = Done (None, s') \<and> sd_running s' \<and>
       running (sd_wheel s') \<and> length (tw_addCh (sd_wheel s')) = n \<and> sd_workers s' = sd_workers s + 64))"
proof -
  let ?js = "store_Range ord (store_LoadAll rows store_New)"
  note m = Range_LoadAll [OF assms(1,3)]
  have e: "filter enqueues rows = filter (\<lambda>j. ji_NextTriggerTime j \<noteq> None) rows"
    using assms(2) by (intro filter_cong) (auto simp: enqueues_def)
  have n: "length (filter enqueues ?js) = n"
    using length_filter_mset [OF m, of enqueues] by (simp add: n_def e)
  have "filter (\<lambda>j. ji_NextTriggerTime j \<noteq> None) (filter enqueues ?js) = filter enqueues ?js"
    unfolding filter_filter by (rule filter_cong) (auto simp: enqueues_def)
  then have l: "length (tw_addCh (add_all (filter enqueues ?js) (sd_wheel s))) = n"
    using n assms(7) by (simp add: length_add_all)
  show ?thesis
    using Start_eq [OF assms(4-7), where rows = rows and ord = ord and online = online and now = now and d = d] n l assms(6)
    by (auto simp: Let_def tw_Start_def defaultWorkerNum_def)
qed

lemma LoadAll_order:
  assumes "distinct (map ji_ID rows)"
  shows "iter_order (st_jobByID (store_LoadAll rows store_New)) (map ji_ID rows)"
  unfolding iter_order_registry LoadAll_New(2) [OF assms] using assms
  by (simp add: iter_order_def dom_map_of_conv_image_fst image_image)

definition demo_rows :: "nat \<Rightarrow> JobInfo list" where
  "demo_rows n = map (\<lambda>i. demo_job (int i) 5) [0..<n]"

lemma demo_rows: "distinct (map ji_ID (demo_rows n))" "j \<in> set (demo_rows n) \<Longrightarrow> ji_Status j = JobRun"
  "filter (\<lambda>j. ji_NextTriggerTime j \<noteq> None) (demo_rows n) = demo_rows n" "length (demo_rows n) = n"
proof -
  have "map ji_ID (demo_rows n) = map int [0..<n]" by (simp add: demo_rows_def)
  then show "distinct (map ji_ID (demo_rows n))" by (simp add: distinct_map)
  show "filter (\<lambda>j. ji_NextTriggerTime j \<noteq> None) (demo_rows n) = demo_rows n"
    by (rule filter_True) (auto simp: demo_rows_def)
qed (auto simp: demo_rows_def)

abbreviation demo_new :: "(unit, string) Scheduler" where
  "demo_new \<equiv> sched_New 0 ''n'' True None []"

lemma demo_new_wheel: "tw_addCh (sd_wheel demo_new) = []" "\<not> tw_stopped (sd_wheel demo_new)"
  by (simp_all add: tw_New_def)

lemma Start_blocks_iff_witness:
  "sched_Start (pages (demo_rows 5000)) (Inr []) 0 (map ji_ID (demo_rows 5000)) False demo_new = Blocked"
proof -
  note S = Start_blocks_iff [OF demo_rows(1) [of 5000] demo_rows(2) LoadAll_order [OF demo_rows(1)] sched_New_simps(1,2)
      demo_new_wheel(2,1), where online = "Inr []" and now = 0 and d = False]
  then show ?thesis unfolding demo_rows(3,4) by (simp add: addChCap_def)
qed

section \<open>Stop, and start again\<close>

text \<open>The scheduler can be started again after a stop, for instance when it is elected leader a second
  time; the wheel cannot.\<close>

lemma schedule_all_wheel:
  "schedule_all d js s = Done s' \<Longrightarrow> tw_stopped (sd_wheel s') = tw_stopped (sd_wheel s) \<and>
   tw_started (sd_wheel s') = tw_started (sd_wheel s) \<and> sd_stopCh s' = sd_stopCh s \<and> sd_running s' = sd_running s"
proof (induction js arbitrary: s)
  case (Cons j js)
  show ?case
  proof (cases "ji_Status j = JobRun \<and> ji_NextTriggerTime j \<noteq> None")
    case True
    then obtain s1 where s1: "scheduleWheel d j s = Done s1" "schedule_all d js s1 = Done s'"
      using Cons.prems by (cases "scheduleWheel d j s") auto
    from scheduleWheel_Done [OF s1(1)] obtain w where "s1 = s\<lparr>sd_wheel := w\<rparr>" "adds (ji_ID j) (sd_wheel s) w" by blast
    moreover from this have "tw_stopped w = tw_stopped (sd_wheel s)" "tw_started w = tw_started (sd_wheel s)"
      by (auto simp: adds_def new_task_def)
    ultimately show ?thesis using Cons.IH [OF s1(2)] by simp
  next
    case False
    then have "schedule_all d js s = Done s'" using Cons.prems by (simp split: if_splits)
    then show ?thesis by (rule Cons.IH)
  qed
qed simp

lemma bootstrap_frame:
  "bootstrap page online now s = Done (r, s') \<Longrightarrow>
   sd_wheel s' = sd_wheel s \<and> sd_stopCh s' = sd_stopCh s \<and> sd_running s' = sd_running s"
  by (auto simp: bootstrap_def Let_def split: option.splits sum.splits prod.splits)

lemma Start_frame:
  assumes "sched_Start page online now ord d s = Done (None, s')"
  shows "tw_stopped (sd_wheel s') = tw_stopped (sd_wheel s) \<and> tw_started (sd_wheel s') \<and>
    sd_stopCh s' = sd_stopCh s \<and> sd_running s'"
proof -
  have r: "\<not> sd_running s" using assms by (auto simp: sched_Start_def)
  then obtain s1 where b: "bootstrap page online now s = Done (None, s1)"
    and n: "and_then (schedule_all d (store_Range ord (sd_store s1)) s1) (\<lambda>s2.
      Done (None, s2\<lparr>sd_wheel := tw_Start (sd_wheel s2), sd_workers := sd_workers s2 + nat defaultWorkerNum,
        sd_flushing := Suc (sd_flushing s2), sd_running := True\<rparr>)) = Done (None :: string option, s')"
    using assms by (cases "bootstrap page online now s") (auto simp: sched_Start_def split: option.splits)
  from n obtain s2 where "schedule_all d (store_Range ord (sd_store s1)) s1 = Done s2"
    "s' = s2\<lparr>sd_wheel := tw_Start (sd_wheel s2), sd_workers := sd_workers s2 + nat defaultWorkerNum,
        sd_flushing := Suc (sd_flushing s2), sd_running := True\<rparr>"
    by (cases "schedule_all d (store_Range ord (sd_store s1)) s1") auto
  then show ?thesis using schedule_all_wheel bootstrap_frame [OF b] by (fastforce simp: tw_Start_def)
qed

text \<open>\<open>Start\<close> after \<open>Stop\<close> reports success but the scheduler is dead: no goroutine runs the
  wheel, so no trigger ever fires, and the next \<open>Stop\<close> panics on the wheel's closed channel.\<close>

lemma restart_is_dead:
  assumes "\<not> tw_stopped (sd_wheel s)" "sched_Start page online now ord d s = Done (None, s1)"
    "sched_Stop s1 = Done s2" "sched_Start page' online' now' ord' d' s2 = Done (None, s3)"
  shows "sd_running s3 \<and> (\<forall>w. \<not> wheel_runs (sd_wheel s3) w) \<and> sched_Stop s3 = Crashed"
proof -
  have 1: "tw_started (sd_wheel s1)" "\<not> tw_stopped (sd_wheel s1)" "sd_running s1"
    using Start_frame [OF assms(2)] assms(1) by simp_all
  then have "tw_stopped (sd_wheel s2)"
    using assms(3) by (auto simp: sched_Stop_def Let_def tw_Stop_def split: if_splits)
  then have 3: "tw_stopped (sd_wheel s3)" "tw_started (sd_wheel s3)" "sd_running s3"
    using Start_frame [OF assms(4)] by simp_all
  have "\<not> wheel_runs (sd_wheel s3) w" for w using 3(1) by (auto elim: wheel_runs.cases)
  then show ?thesis using 3 by (simp add: sched_Stop_def Let_def)
qed

lemma restart_is_dead_witness:
  "\<exists>s1 s2 s3. sched_Start (pages []) (Inr []) 0 [] False demo_new = Done (None, s1) \<and> sched_Stop s1 = Done s2 \<and>
     sched_Start (pages []) (Inr []) 0 [] False s2 = Done (None, s3) \<and> sched_Stop s3 = Crashed"
proof -
  have p: "load_pages (pages []) (Suc 0) st = Some (None, st)" for st using load_pages_all [of "[]" st] by simp
  have start: "\<not> sd_running s \<Longrightarrow> sched_Start (pages []) (Inr []) 0 [] False s = Done (None, s\<lparr>sd_wheel := tw_Start (sd_wheel s),
      sd_workers := sd_workers s + nat defaultWorkerNum, sd_flushing := Suc (sd_flushing s), sd_running := True\<rparr>)"
    if "sd_executorStore s = None" for s :: "(unit, string) Scheduler"
    using that by (simp add: sched_Start_def bootstrap_def p Let_def store_Range_def)
  have es: "sd_executorStore demo_new = None" by (simp add: sched_New_def Let_def)
  let ?s1 = "demo_new\<lparr>sd_wheel := tw_Start (sd_wheel demo_new),
      sd_workers := sd_workers demo_new + nat defaultWorkerNum, sd_flushing := Suc (sd_flushing demo_new), sd_running := True\<rparr>"
  have s1: "sched_Start (pages []) (Inr []) 0 [] False demo_new = Done (None, ?s1)"
    by (rule start [OF es]) simp
  obtain s2 where s2: "sched_Stop ?s1 = Done s2" "\<not> sd_running s2" "sd_executorStore s2 = None"
    using es by (simp add: sched_Stop_def Let_def tw_Start_def tw_Stop_def tw_New_def)
  note s3 = start [OF s2(3,2)]
  show ?thesis using s1 s2(1) s3 restart_is_dead [OF demo_new_wheel(2) s1 s2(1) s3] by blast
qed

end
