(* ===== verification/Utils.thy ===== *)
theory Utils
  imports Param_Tpl
begin

text \<open>
  \<open>pkg/utils/utils.go\<close>: the helpers for lists of IDs, pagination, times and the environment, with the
  parts of \<open>strings\<close> and \<open>strconv\<close> they call. Strings are ASCII: \<open>TrimSpace\<close> and \<open>Split\<close> with an empty
  separator are written out for single-byte characters. The environment is a map.
\<close>

section \<open>strings and strconv\<close>

definition is_space :: "char \<Rightarrow> bool" where
  "is_space c \<longleftrightarrow> c \<in> {CHR 0x0A, CHR 0x09, CHR 0x0B, CHR 0x0C, CHR 0x0D, CHR '' ''}"

definition trim_space :: "string \<Rightarrow> string" where
  "trim_space s = rev (dropWhile is_space (rev (dropWhile is_space s)))"

text \<open>\<open>strings.Split\<close>: scan for the separator, \<open>acc\<close> being the part that is open.\<close>

function split_loop :: "string \<Rightarrow> string \<Rightarrow> string \<Rightarrow> string list" where
  "split_loop sep acc [] = [acc]"
| "split_loop sep acc (c # cs) =
     (if take (length sep) (c # cs) = sep then acc # split_loop sep [] (drop (length sep - 1) cs)
      else split_loop sep (acc @ [c]) cs)"
  by pat_completeness auto
termination
  by (relation "measure (\<lambda>(sep, acc, s). length s)") auto

definition go_split :: "string \<Rightarrow> string \<Rightarrow> string list" where
  "go_split s sep = (if sep = [] then map (\<lambda>c. [c]) s else split_loop sep [] s)"

fun go_join :: "string list \<Rightarrow> string \<Rightarrow> string" where
  "go_join [] sep = []"
| "go_join [s] sep = s"
| "go_join (s # ss) sep = s @ sep @ go_join ss sep"

definition is_digit :: "char \<Rightarrow> bool" where
  "is_digit c \<longleftrightarrow> 48 \<le> (of_char c :: nat) \<and> (of_char c :: nat) \<le> 57"

text \<open>\<open>strconv.ParseInt(s, 10, 64)\<close>; the two errors (syntax, range) are \<open>None\<close>.\<close>

definition parse_uint :: "string \<Rightarrow> nat option" where
  "parse_uint s = (if s = [] \<or> \<not> list_all is_digit s then None else Some (atou s))"

definition in_i64 :: "int \<Rightarrow> bool" where "in_i64 x \<longleftrightarrow> i64_min \<le> x \<and> x \<le> i64_max"

definition parse_int :: "string \<Rightarrow> int option" where
  "parse_int s =
     (let (neg, digits) = (case s of [] \<Rightarrow> (False, [])
            | c # cs \<Rightarrow> if c = CHR ''-'' then (True, cs) else if c = CHR ''+'' then (False, cs) else (False, s))
      in case parse_uint digits of
           None \<Rightarrow> None
         | Some n \<Rightarrow> let x = (if neg then - int n else int n) in if in_i64 x then Some x else None)"

definition quote_char :: "char \<Rightarrow> string" where
  "quote_char c =
     (let n = (of_char c :: nat)
      in if n = 34 then [CHR 0x5C, c] else if n = 92 then [c, c]
         else if n = 7 then CHR 0x5C # ''a'' else if n = 8 then CHR 0x5C # ''b'' else if n = 12 then CHR 0x5C # ''f''
         else if n = 10 then CHR 0x5C # ''n'' else if n = 13 then CHR 0x5C # ''r'' else if n = 9 then CHR 0x5C # ''t''
         else if n = 11 then CHR 0x5C # ''v''
         else if n < 32 \<or> n = 127 then CHR 0x5C # ''x'' @ [hex_char (n div 16), hex_char (n mod 16)]
         else [c])"

text \<open>\<open>%q\<close> of an ASCII string.\<close>

definition go_quote :: "string \<Rightarrow> string" where
  "go_quote s = [CHR 0x22] @ concat (map quote_char s) @ [CHR 0x22]"

section \<open>Lists of IDs\<close>

fun trimmed_parts :: "string list \<Rightarrow> string list" where
  "trimmed_parts [] = []"
| "trimmed_parts (p # ps) =
     (let p = trim_space p in if p \<noteq> [] then p # trimmed_parts ps else trimmed_parts ps)"

definition SplitAndTrim :: "string \<Rightarrow> string \<Rightarrow> string list" where
  "SplitAndTrim s sep = trimmed_parts (go_split s sep)"

definition Int64SliceToString :: "int list \<Rightarrow> string" where
  "Int64SliceToString ids = go_join (map itoa ids) '',''"

fun parse_ints :: "string list \<Rightarrow> int list" where
  "parse_ints [] = []"
| "parse_ints (p # ps) = (case parse_int p of Some n \<Rightarrow> n # parse_ints ps | None \<Rightarrow> parse_ints ps)"

definition StringToInt64Slice :: "string \<Rightarrow> int list" where
  "StringToInt64Slice s = (if s = [] then [] else parse_ints (SplitAndTrim s '',''))"

section \<open>Other helpers\<close>

definition NodeID :: "string \<Rightarrow> int \<Rightarrow> string" where
  "NodeID localIP port = localIP @ '':'' @ itoa port"

definition FormatTime :: "int \<Rightarrow> time \<Rightarrow> string" where
  "FormatTime loc t = format_date loc t @ '' '' @ format_time loc t"

definition DurationMs :: "time \<Rightarrow> time \<Rightarrow> int" where
  "DurationMs start end = go_div (time_sub end start) millisecond"

definition EnvOrDefault :: "(string \<rightharpoonup> string) \<Rightarrow> string \<Rightarrow> string \<Rightarrow> string" where
  "EnvOrDefault env key defaultVal = (let v = go_get [] env key in if v \<noteq> [] then v else defaultVal)"

definition EnvIntOrDefault :: "(string \<rightharpoonup> string) \<Rightarrow> string \<Rightarrow> int \<Rightarrow> int" where
  "EnvIntOrDefault env key defaultVal =
     (let v = go_get [] env key
      in if v \<noteq> [] then (case parse_int v of Some n \<Rightarrow> n | None \<Rightarrow> defaultVal) else defaultVal)"

definition PageOffset :: "int \<Rightarrow> int \<Rightarrow> int" where
  "PageOffset page pageSize = (let page = (if page \<le> 0 then 1 else page) in i64 ((page - 1) * pageSize))"

definition SafePageSize :: "int \<Rightarrow> int \<Rightarrow> int" where
  "SafePageSize pageSize mx = (if pageSize \<le> 0 then 20 else if pageSize > mx then mx else pageSize)"

section \<open>Round trip\<close>

lemma is_digit_digit_char: "d < 10 \<Longrightarrow> is_digit (digit_char d)"
  by (simp add: is_digit_def digit_char_def of_char_of)

lemma digits_utoa: "list_all is_digit (utoa n)"
proof (induction n rule: utoa.induct)
  case (1 n)
  then show ?case by (cases "n < 10") (auto simp: utoa.simps [of n] is_digit_digit_char)
qed

lemma parse_uint_utoa [simp]: "parse_uint (utoa n) = Some n"
  by (simp add: parse_uint_def digits_utoa)

lemma not_digit: "\<not> is_digit (CHR ''-'')" "\<not> is_digit (CHR ''+'')" "\<not> is_digit (CHR '','')" "is_space c \<Longrightarrow> \<not> is_digit c"
  by (auto simp: is_digit_def is_space_def)

lemma parse_int_itoa:
  assumes "in_i64 x"
  shows "parse_int (itoa x) = Some x"
proof (cases "x < 0")
  case True
  then show ?thesis using assms by (simp add: parse_int_def itoa_def)
next
  case False
  obtain c cs where s: "utoa (nat x) = c # cs" by (meson list.exhaust utoa_nonempty)
  then have "is_digit c" using digits_utoa [of "nat x"] by simp
  then have "c \<noteq> CHR ''-''" "c \<noteq> CHR ''+''" using not_digit by auto
  then show ?thesis using False assms parse_uint_utoa [of "nat x"] by (simp add: parse_int_def itoa_def s)
qed

definition id_char :: "char \<Rightarrow> bool" where "id_char c \<longleftrightarrow> is_digit c \<or> c = CHR ''-''"

lemma id_char_itoa: "list_all id_char (itoa x)"
  using digits_utoa by (auto simp: itoa_def id_char_def list_all_iff)

lemma id_char_not: "id_char c \<Longrightarrow> c \<noteq> CHR '','' \<and> \<not> is_space c"
  using not_digit by (auto simp: id_char_def is_space_def)

lemma itoa_nonempty [simp]: "itoa x \<noteq> []" by (simp add: itoa_def)

lemma trim_id: "list_all id_char s \<Longrightarrow> trim_space s = s"
proof -
  assume s: "list_all id_char s"
  have "dropWhile is_space t = t" if "list_all id_char t" for t
    using that id_char_not by (cases t) auto
  then show ?thesis using s by (simp add: trim_space_def)
qed

lemma split_loop_join:
  assumes "list_all (list_all id_char) (s # ss)"
  shows "split_loop '','' acc (go_join (s # ss) '','') = (acc @ s) # ss"
  using assms
proof (induction ss arbitrary: s acc)
  case Nil
  have "split_loop '','' acc s = [acc @ s]" if "list_all id_char s" for s acc
    using that id_char_not by (induction s arbitrary: acc) auto
  then show ?case using Nil by simp
next
  case (Cons t ts)
  have part: "split_loop '','' acc (s @ '','' @ rest) = (acc @ s) # split_loop '','' [] rest" if "list_all id_char s" for s acc rest
    using that id_char_not by (induction s arbitrary: acc) auto
  show ?case using Cons.IH [of t "[]"] Cons.prems part [of s acc] by simp
qed

lemma trimmed_parts_id: "list_all (\<lambda>s. list_all id_char s \<and> s \<noteq> []) ss \<Longrightarrow> trimmed_parts ss = ss"
  by (induction ss) (auto simp: trim_id Let_def)

lemma parse_ints_map: "list_all in_i64 ids \<Longrightarrow> parse_ints (map itoa ids) = ids"
  by (induction ids) (auto simp: parse_int_itoa)

lemma go_join_nonempty: "go_join (s # ss) sep = [] \<Longrightarrow> s = []"
  by (cases ss) auto

text \<open>A list of \<open>int64\<close> IDs survives being written to a comma-joined column and read back.\<close>

lemma ids_roundtrip:
  assumes "list_all in_i64 ids"
  shows "StringToInt64Slice (Int64SliceToString ids) = ids"
proof (cases ids)
  case (Cons i js)
  have "list_all (list_all id_char) (map itoa ids)" by (simp add: list_all_iff id_char_itoa [unfolded list_all_iff])
  then have "go_split (Int64SliceToString ids) '','' = map itoa ids"
    using split_loop_join [of "itoa i" "map itoa js" "[]"] Cons by (simp add: go_split_def Int64SliceToString_def)
  moreover have "list_all (\<lambda>s. list_all id_char s \<and> s \<noteq> []) (map itoa ids)"
    by (simp add: list_all_iff id_char_itoa [unfolded list_all_iff])
  moreover have "Int64SliceToString ids \<noteq> []"
    using go_join_nonempty [of "itoa i" "map itoa js"] Cons by (auto simp: Int64SliceToString_def)
  ultimately show ?thesis
    using assms by (simp add: StringToInt64Slice_def SplitAndTrim_def trimmed_parts_id parse_ints_map)
qed (simp add: StringToInt64Slice_def Int64SliceToString_def)

lemma ids_roundtrip_witness: "StringToInt64Slice (Int64SliceToString [7, - 12, 9223372036854775807]) = [7, - 12, 9223372036854775807]"
  using ids_roundtrip [of "[7, - 12, 9223372036854775807]"] by (simp add: in_i64_def i64_min_def i64_max_def)

end
