(* ===== verification/XError.thy ===== *)
theory XError
  imports Go_Prelude
begin

text \<open>
  \<open>pkg/xerror/xerror.go\<close>: the business error codes, their messages and HTTP statuses, and the error
  type of the services. A Go \<open>error\<close> is an \<open>Error\<close> of this package or one of another package, which
  is its text; the cause of an \<open>Error\<close> is only ever printed, so it is kept as its text.
\<close>

section \<open>Codes\<close>

type_synonym Code = int

definition CodeOK :: Code where "CodeOK = 0"
definition CodeInvalidParam :: Code where "CodeInvalidParam = 1001"
definition CodeUnauthorized :: Code where "CodeUnauthorized = 1002"
definition CodeForbidden :: Code where "CodeForbidden = 1003"
definition CodeNotFound :: Code where "CodeNotFound = 1004"
definition CodeAlreadyExists :: Code where "CodeAlreadyExists = 1005"
definition CodeInternalServer :: Code where "CodeInternalServer = 1500"
definition CodeExecutorOffline :: Code where "CodeExecutorOffline = 2001"
definition CodeExecutorNotFound :: Code where "CodeExecutorNotFound = 2002"
definition CodeExecutorRegisterFail :: Code where "CodeExecutorRegisterFail = 2003"
definition CodeJobNotFound :: Code where "CodeJobNotFound = 3001"
definition CodeJobAlreadyStop :: Code where "CodeJobAlreadyStop = 3002"
definition CodeJobAlreadyStart :: Code where "CodeJobAlreadyStart = 3003"
definition CodeJobTriggerFail :: Code where "CodeJobTriggerFail = 3004"
definition CodeJobParamInvalid :: Code where "CodeJobParamInvalid = 3005"
definition CodeCronExprInvalid :: Code where "CodeCronExprInvalid = 3006"
definition CodeLockFail :: Code where "CodeLockFail = 4001"
definition CodeLockTimeout :: Code where "CodeLockTimeout = 4002"
definition CodeDuplicateExecution :: Code where "CodeDuplicateExecution = 4003"
definition CodeExecutorDraining :: Code where "CodeExecutorDraining = 4004"
definition CodeLoginFail :: Code where "CodeLoginFail = 5001"
definition CodeTokenExpired :: Code where "CodeTokenExpired = 5002"
definition CodeTokenInvalid :: Code where "CodeTokenInvalid = 5003"
definition CodeUserDisabled :: Code where "CodeUserDisabled = 5004"
definition CodePasswordWrong :: Code where "CodePasswordWrong = 5005"

lemmas code_defs =
  CodeOK_def CodeInvalidParam_def CodeUnauthorized_def CodeForbidden_def CodeNotFound_def
  CodeAlreadyExists_def CodeInternalServer_def CodeExecutorOffline_def CodeExecutorNotFound_def
  CodeExecutorRegisterFail_def CodeJobNotFound_def CodeJobAlreadyStop_def CodeJobAlreadyStart_def
  CodeJobTriggerFail_def CodeJobParamInvalid_def CodeCronExprInvalid_def CodeLockFail_def
  CodeLockTimeout_def CodeDuplicateExecution_def CodeExecutorDraining_def CodeLoginFail_def
  CodeTokenExpired_def CodeTokenInvalid_def CodeUserDisabled_def CodePasswordWrong_def
declare code_defs [go_defs]

definition codeMessages :: "Code \<rightharpoonup> string" where
  "codeMessages = map_of
    [(CodeOK, ''success''),
     (CodeInvalidParam, ''invalid parameter''),
     (CodeUnauthorized, ''unauthorized''),
     (CodeForbidden, ''forbidden''),
     (CodeNotFound, ''not found''),
     (CodeAlreadyExists, ''already exists''),
     (CodeInternalServer, ''internal server error''),
     (CodeExecutorOffline, ''executor is offline''),
     (CodeExecutorNotFound, ''executor not found''),
     (CodeExecutorRegisterFail, ''executor register failed''),
     (CodeJobNotFound, ''job not found''),
     (CodeJobAlreadyStop, ''job is already stopped''),
     (CodeJobAlreadyStart, ''job is already running''),
     (CodeJobTriggerFail, ''job trigger failed''),
     (CodeJobParamInvalid, ''job parameter invalid''),
     (CodeCronExprInvalid, ''cron expression invalid''),
     (CodeLockFail, ''acquire lock failed''),
     (CodeLockTimeout, ''lock timeout''),
     (CodeDuplicateExecution, ''duplicate execution: same log_id already running''),
     (CodeExecutorDraining, ''executor is draining, no new jobs accepted''),
     (CodeLoginFail, ''login failed''),
     (CodeTokenExpired, ''token expired''),
     (CodeTokenInvalid, ''token invalid''),
     (CodeUserDisabled, ''user is disabled''),
     (CodePasswordWrong, ''username or password incorrect'')]"

definition Message :: "Code \<Rightarrow> string" where
  "Message c = (case codeMessages c of Some msg \<Rightarrow> msg | None \<Rightarrow> ''unknown error'')"

definition HTTPStatus :: "Code \<Rightarrow> int" where
  "HTTPStatus c =
     (if c = CodeOK then 200
      else if c \<in> {CodeInvalidParam, CodeCronExprInvalid, CodeJobParamInvalid} then 400
      else if c \<in> {CodeUnauthorized, CodeTokenExpired, CodeTokenInvalid, CodeLoginFail} then 401
      else if c = CodeForbidden then 403
      else if c = CodeDuplicateExecution then 409
      else if c = CodeExecutorDraining then 503
      else if c \<in> {CodeNotFound, CodeJobNotFound, CodeExecutorNotFound} then 404
      else 500)"

section \<open>Errors\<close>

record Error =
  xe_Code :: Code
  xe_Message :: string
  xe_Details :: string
  xe_cause :: "string option"

datatype go_error = XErr Error | Plain string

definition xerr_New :: "Code \<Rightarrow> string list \<Rightarrow> Error" where
  "xerr_New code msg =
     (let e = \<lparr>xe_Code = code, xe_Message = Message code, xe_Details = [], xe_cause = None\<rparr>
      in case msg of m # ms \<Rightarrow> if m \<noteq> [] then e\<lparr>xe_Message := m\<rparr> else e | [] \<Rightarrow> e)"

definition xerr_Error :: "Error \<Rightarrow> string" where
  "xerr_Error e =
     (case xe_cause e of
        Some c \<Rightarrow> ''code='' @ itoa (xe_Code e) @ '' msg='' @ xe_Message e @ '' cause='' @ c
      | None \<Rightarrow> ''code='' @ itoa (xe_Code e) @ '' msg='' @ xe_Message e)"

fun error_text :: "go_error \<Rightarrow> string" where
  "error_text (XErr e) = xerr_Error e"
| "error_text (Plain s) = s"

definition xerr_Wrap :: "Code \<Rightarrow> string option \<Rightarrow> string list \<Rightarrow> Error" where
  "xerr_Wrap code cause msg =
     (let e = (xerr_New code msg)\<lparr>xe_cause := cause\<rparr>
      in case cause of Some c \<Rightarrow> e\<lparr>xe_Details := c\<rparr> | None \<Rightarrow> e)"

fun IsCode :: "go_error option \<Rightarrow> Code \<Rightarrow> bool" where
  "IsCode None code = False"
| "IsCode (Some (XErr e)) code = (xe_Code e = code)"
| "IsCode (Some (Plain s)) code = False"

section \<open>Lemmas\<close>

lemma xe_Code_New [simp]: "xe_Code (xerr_New code msg) = code"
  by (simp add: xerr_New_def Let_def split: list.splits)

lemma xe_Code_Wrap [simp]: "xe_Code (xerr_Wrap code cause msg) = code"
  by (simp add: xerr_Wrap_def Let_def split: option.splits)

end
