(* ===== verification/Job_Tpl.thy ===== *)
theory Job_Tpl
  imports Job_Model
begin

text \<open>
  \<open>pkg/jobtpl/jobtpl.go\<close>: job templates, their instantiation and the in-memory registry.

  Label maps are the only data a template shares by reference once it has been copied, so they live in
  an explicit heap (\<open>LabelHeap\<close>) and a template holds the address of its map, \<open>None\<close> for a nil map. The
  registry itself never changes a stored template in place, it replaces it, so the structs are values;
  \<open>List\<close> alone lends the stored template to its caller's filter, and what the filter leaves there is
  written back. A call that panics is \<open>None\<close>.
\<close>

section \<open>Templates\<close>

record LabelHeap =
  lh_map :: "nat \<Rightarrow> string \<rightharpoonup> string"
  lh_fresh :: nat

record JobTemplate =
  jt_ID :: int
  jt_Name :: string
  jt_Description :: string
  jt_ExecutorApp :: string
  jt_ExecuteType :: execute_type
  jt_ExecuteHandler :: string
  jt_ExecuteParam :: string
  jt_RouteStrategy :: route_strategy
  jt_BlockStrategy :: block_strategy
  jt_MisfireStrategy :: misfire_strategy
  jt_JobType :: job_type
  jt_CronExpression :: string
  jt_Timeout :: int
  jt_RetryCount :: int
  jt_RetryInterval :: int
  jt_ShardingNum :: int
  jt_AlarmEmail :: string
  jt_AlarmWebhook :: string
  jt_Labels :: "nat option"
  jt_CreateUser :: string
  jt_CreateTime :: time
  jt_UpdateTime :: time

datatype reg_error =
    TemplateNotFound string
  | IDNotFound int
  | TemplateExists string
  | InvalidTemplate string
  | ImportCreate string reg_error
  | ImportUpdate string reg_error
  | BatchPartial nat nat reg_error

definition jt_Validate :: "JobTemplate \<Rightarrow> reg_error option" where
  "jt_Validate t =
     (if jt_Name t = [] then Some (InvalidTemplate ''name is required'')
      else if jt_ExecutorApp t = [] then Some (InvalidTemplate ''executor_app is required'')
      else if jt_ExecuteHandler t = [] then Some (InvalidTemplate ''execute_handler is required'')
      else None)"

definition new_labels :: "(string \<rightharpoonup> string) \<Rightarrow> LabelHeap \<Rightarrow> nat \<times> LabelHeap" where
  "new_labels m h = (lh_fresh h, h\<lparr>lh_map := (lh_map h)(lh_fresh h := m), lh_fresh := Suc (lh_fresh h)\<rparr>)"

definition jt_Clone :: "JobTemplate \<Rightarrow> LabelHeap \<Rightarrow> JobTemplate \<times> LabelHeap" where
  "jt_Clone t h =
     (case jt_Labels t of
        None \<Rightarrow> (t, h)
      | Some a \<Rightarrow> let (b, h') = new_labels (lh_map h a) h in (t\<lparr>jt_Labels := Some b\<rparr>, h'))"

section \<open>Overrides\<close>

record Override =
  ov_JobName :: string
  ov_ExecutorID :: int
  ov_ExecutorApp :: string
  ov_ExecuteType :: execute_type
  ov_ExecuteHandler :: string
  ov_ExecuteParam :: string
  ov_RouteStrategy :: route_strategy
  ov_BlockStrategy :: block_strategy
  ov_MisfireStrategy :: misfire_strategy
  ov_JobType :: job_type
  ov_CronExpression :: string
  ov_Timeout :: int
  ov_RetryCount :: int
  ov_RetryInterval :: int
  ov_ShardingNum :: int
  ov_AlarmEmail :: string
  ov_AlarmWebhook :: string
  ov_JobDesc :: string
  ov_CreateUser :: string
  ov_GroupID :: int

definition ov_Validate :: "Override \<Rightarrow> reg_error option" where
  "ov_Validate ov =
     (if ov_JobName ov = [] then Some (InvalidTemplate ''override.job_name is required'')
      else if ov_ExecutorID ov \<le> 0 then Some (InvalidTemplate ''override.executor_id must be > 0'')
      else None)"

definition coalesceStr :: "string \<Rightarrow> string \<Rightarrow> string" where
  "coalesceStr ov fallback = (if ov \<noteq> [] then ov else fallback)"

definition coalesceInt :: "int \<Rightarrow> int \<Rightarrow> int" where
  "coalesceInt ov fallback = (if ov \<noteq> 0 then ov else fallback)"

definition coalesceInt64 :: "int \<Rightarrow> int \<Rightarrow> int" where
  "coalesceInt64 ov fallback = (if ov \<noteq> 0 then ov else fallback)"

definition coalesceExecType :: "execute_type \<Rightarrow> execute_type \<Rightarrow> execute_type" where
  "coalesceExecType ov fallback = (if ov \<noteq> [] then ov else fallback)"

definition coalesceRoute :: "route_strategy \<Rightarrow> route_strategy \<Rightarrow> route_strategy" where
  "coalesceRoute ov fallback = (if ov \<noteq> [] then ov else fallback)"

definition coalesceBlock :: "block_strategy \<Rightarrow> block_strategy \<Rightarrow> block_strategy" where
  "coalesceBlock ov fallback = (if ov \<noteq> 0 then ov else fallback)"

definition coalesceMisfire :: "misfire_strategy \<Rightarrow> misfire_strategy \<Rightarrow> misfire_strategy" where
  "coalesceMisfire ov fallback = (if ov \<noteq> 0 then ov else fallback)"

definition coalesceJobType :: "job_type \<Rightarrow> job_type \<Rightarrow> job_type" where
  "coalesceJobType ov fallback = (if ov \<noteq> 0 then ov else fallback)"

lemmas coalesce_defs = coalesceStr_def coalesceInt_def coalesceInt64_def coalesceExecType_def
  coalesceRoute_def coalesceBlock_def coalesceMisfire_def coalesceJobType_def

definition Instantiate :: "JobTemplate option \<Rightarrow> Override \<Rightarrow> reg_error + JobRow" where
  "Instantiate template ov =
     (case template of
        None \<Rightarrow> Inl (InvalidTemplate ''template is nil'')
      | Some tpl \<Rightarrow>
          (case ov_Validate ov of
             Some err \<Rightarrow> Inl err
           | None \<Rightarrow>
               let job = \<lparr>ji_ID = 0, ji_ExecutorID = ov_ExecutorID ov,
                     ji_ExecutorApp = coalesceStr (ov_ExecutorApp ov) (jt_ExecutorApp tpl),
                     ji_JobName = ov_JobName ov,
                     ji_JobDesc = coalesceStr (ov_JobDesc ov) (jt_Description tpl),
                     ji_JobType = coalesceJobType (ov_JobType ov) (jt_JobType tpl),
                     ji_CronExpression = coalesceStr (ov_CronExpression ov) (jt_CronExpression tpl),
                     ji_ExecuteType = coalesceExecType (ov_ExecuteType ov) (jt_ExecuteType tpl),
                     ji_ExecuteParam = coalesceStr (ov_ExecuteParam ov) (jt_ExecuteParam tpl),
                     ji_ExecuteHandler = coalesceStr (ov_ExecuteHandler ov) (jt_ExecuteHandler tpl),
                     ji_RouteStrategy = coalesceRoute (ov_RouteStrategy ov) (jt_RouteStrategy tpl),
                     ji_BlockStrategy = coalesceBlock (ov_BlockStrategy ov) (jt_BlockStrategy tpl),
                     ji_MisfireStrategy = coalesceMisfire (ov_MisfireStrategy ov) (jt_MisfireStrategy tpl),
                     ji_Timeout = coalesceInt (ov_Timeout ov) (jt_Timeout tpl),
                     ji_RetryCount = coalesceInt (ov_RetryCount ov) (jt_RetryCount tpl),
                     ji_RetryInterval = coalesceInt (ov_RetryInterval ov) (jt_RetryInterval tpl),
                     ji_ShardingNum = coalesceInt (ov_ShardingNum ov) (jt_ShardingNum tpl),
                     ji_AlarmEmail = coalesceStr (ov_AlarmEmail ov) (jt_AlarmEmail tpl),
                     ji_AlarmWebhook = coalesceStr (ov_AlarmWebhook ov) (jt_AlarmWebhook tpl),
                     ji_Status = JobStop, ji_NextTriggerTime = None, ji_LastTriggerTime = None,
                     ji_CreateUser = coalesceStr (ov_CreateUser ov) (jt_CreateUser tpl),
                     jr_ChildJobIDs = [], jr_GroupID = coalesceInt64 (ov_GroupID ov) 0, jr_TriggerCount = 0\<rparr>
               in Inr (if ji_ShardingNum job < 1 then job\<lparr>ji_ShardingNum := 1\<rparr> else job)))"

section \<open>Registry\<close>

record TplRegistry =
  tr_templates :: "string \<rightharpoonup> JobTemplate"
  tr_nameToID :: "int \<rightharpoonup> string"
  tr_nextID :: int

definition reg_New :: TplRegistry where
  "reg_New = \<lparr>tr_templates = Map.empty, tr_nameToID = Map.empty, tr_nextID = 0\<rparr>"

definition reg_Create :: "time \<Rightarrow> JobTemplate \<Rightarrow> TplRegistry \<Rightarrow> LabelHeap \<Rightarrow>
    (reg_error + JobTemplate) \<times> TplRegistry \<times> LabelHeap" where
  "reg_Create now tpl r h =
     (case jt_Validate tpl of
        Some err \<Rightarrow> (Inl err, r, h)
      | None \<Rightarrow>
          if tr_templates r (jt_Name tpl) \<noteq> None then (Inl (TemplateExists (jt_Name tpl)), r, h)
          else
            let (cp, h1) = jt_Clone tpl h;
                r1 = r\<lparr>tr_nextID := i64 (tr_nextID r + 1)\<rparr>;
                cp = cp\<lparr>jt_ID := tr_nextID r1\<rparr>;
                cp = cp\<lparr>jt_CreateTime := now\<rparr>;
                cp = cp\<lparr>jt_UpdateTime := jt_CreateTime cp\<rparr>;
                r2 = r1\<lparr>tr_templates := (tr_templates r1)(jt_Name cp \<mapsto> cp)\<rparr>;
                r3 = r2\<lparr>tr_nameToID := (tr_nameToID r2)(jt_ID cp \<mapsto> jt_Name cp)\<rparr>;
                (out, h2) = jt_Clone cp h1
            in (Inr out, r3, h2))"

definition reg_Update :: "time \<Rightarrow> JobTemplate \<Rightarrow> TplRegistry \<Rightarrow> LabelHeap \<Rightarrow>
    (reg_error + JobTemplate) \<times> TplRegistry \<times> LabelHeap" where
  "reg_Update now tpl r h =
     (case jt_Validate tpl of
        Some err \<Rightarrow> (Inl err, r, h)
      | None \<Rightarrow>
          (case tr_templates r (jt_Name tpl) of
             None \<Rightarrow> (Inl (TemplateNotFound (jt_Name tpl)), r, h)
           | Some existing \<Rightarrow>
               let (cp, h1) = jt_Clone tpl h;
                   cp = cp\<lparr>jt_ID := jt_ID existing, jt_CreateTime := jt_CreateTime existing, jt_UpdateTime := now\<rparr>;
                   r1 = r\<lparr>tr_templates := (tr_templates r)(jt_Name cp \<mapsto> cp)\<rparr>;
                   (out, h2) = jt_Clone cp h1
               in (Inr out, r1, h2)))"

definition reg_Delete :: "string \<Rightarrow> TplRegistry \<Rightarrow> reg_error option \<times> TplRegistry" where
  "reg_Delete name r =
     (case tr_templates r name of
        None \<Rightarrow> (Some (TemplateNotFound name), r)
      | Some tpl \<Rightarrow> (None, r\<lparr>tr_templates := (tr_templates r)(name := None),
                              tr_nameToID := (tr_nameToID r)(jt_ID tpl := None)\<rparr>))"

definition reg_Get :: "string \<Rightarrow> TplRegistry \<Rightarrow> LabelHeap \<Rightarrow> (reg_error + JobTemplate) \<times> LabelHeap" where
  "reg_Get name r h =
     (case tr_templates r name of
        None \<Rightarrow> (Inl (TemplateNotFound name), h)
      | Some tpl \<Rightarrow> let (cp, h1) = jt_Clone tpl h in (Inr cp, h1))"

definition reg_GetByID :: "int \<Rightarrow> TplRegistry \<Rightarrow> LabelHeap \<Rightarrow> ((reg_error + JobTemplate) \<times> LabelHeap) option" where
  "reg_GetByID i r h =
     (case tr_nameToID r i of
        None \<Rightarrow> Some (Inl (IDNotFound i), h)
      | Some name \<Rightarrow>
          (case tr_templates r name of
             None \<Rightarrow> None
           | Some tpl \<Rightarrow> let (cp, h1) = jt_Clone tpl h in Some (Inr cp, h1)))"

definition jt_labels :: "LabelHeap \<Rightarrow> JobTemplate \<Rightarrow> string \<rightharpoonup> string" where
  "jt_labels h t = (case jt_Labels t of None \<Rightarrow> Map.empty | Some a \<Rightarrow> lh_map h a)"

text \<open>The filter of \<open>List\<close> gets the pointer to the template the registry holds: besides its answer, it
  may leave another content in the struct and in the label maps. The loop returns the clones it collected and
  the templates it went through as the filter left them.\<close>

type_synonym tpl_filter = "JobTemplate \<Rightarrow> LabelHeap \<Rightarrow> bool \<times> JobTemplate \<times> LabelHeap"

fun list_loop :: "tpl_filter option \<Rightarrow> (string \<times> JobTemplate) list \<Rightarrow> LabelHeap \<Rightarrow>
    JobTemplate list \<times> (string \<times> JobTemplate) list \<times> LabelHeap" where
  "list_loop flt [] h = ([], [], h)"
| "list_loop flt ((name, tpl) # rest) h =
     (let (ok, tpl', h1) = (case flt of None \<Rightarrow> (True, tpl, h) | Some p \<Rightarrow> p tpl h)
      in if ok then
           let (cp, h2) = jt_Clone tpl' h1; (out, left, h3) = list_loop flt rest h2
           in (cp # out, (name, tpl') # left, h3)
         else let (out, left, h3) = list_loop flt rest h1 in (out, (name, tpl') # left, h3))"

definition reg_List :: "string list \<Rightarrow> tpl_filter option \<Rightarrow> TplRegistry \<Rightarrow> LabelHeap \<Rightarrow>
    JobTemplate list \<times> TplRegistry \<times> LabelHeap" where
  "reg_List ord flt r h =
     (let (out, left, h') = list_loop flt (go_range (tr_templates r) ord) h
      in (out, r\<lparr>tr_templates := tr_templates r ++ map_of left\<rparr>, h'))"

definition reg_Len :: "TplRegistry \<Rightarrow> nat" where "reg_Len r = map_len (tr_templates r)"

definition reg_Instantiate :: "string \<Rightarrow> Override \<Rightarrow> TplRegistry \<Rightarrow> LabelHeap \<Rightarrow> (reg_error + JobRow) \<times> LabelHeap" where
  "reg_Instantiate name ov r h =
     (case reg_Get name r h of (Inl err, h1) \<Rightarrow> (Inl err, h1) | (Inr tpl, h1) \<Rightarrow> (Instantiate (Some tpl) ov, h1))"

definition reg_InstantiateByID :: "int \<Rightarrow> Override \<Rightarrow> TplRegistry \<Rightarrow> LabelHeap \<Rightarrow>
    ((reg_error + JobRow) \<times> LabelHeap) option" where
  "reg_InstantiateByID i ov r h =
     (case reg_GetByID i r h of
        None \<Rightarrow> None
      | Some (Inl err, h1) \<Rightarrow> Some (Inl err, h1)
      | Some (Inr tpl, h1) \<Rightarrow> Some (Instantiate (Some tpl) ov, h1))"

text \<open>The loop over the overrides, with the index and the error of every failed one.\<close>

fun batch_loop :: "JobTemplate \<Rightarrow> nat \<Rightarrow> Override list \<Rightarrow> JobRow list \<times> (nat \<times> reg_error) list" where
  "batch_loop tpl i [] = ([], [])"
| "batch_loop tpl i (ov # ovs) =
     (let (jobs, errs) = batch_loop tpl (Suc i) ovs
      in case Instantiate (Some tpl) ov of
           Inl err \<Rightarrow> (jobs, (i, err) # errs)
         | Inr job \<Rightarrow> (job # jobs, errs))"

definition reg_BatchInstantiate :: "string \<Rightarrow> Override list \<Rightarrow> TplRegistry \<Rightarrow> LabelHeap \<Rightarrow>
    (JobRow list \<times> reg_error option) \<times> LabelHeap" where
  "reg_BatchInstantiate name ovs r h =
     (case reg_Get name r h of
        (Inl err, h1) \<Rightarrow> (([], Some err), h1)
      | (Inr tpl, h1) \<Rightarrow>
          (let (jobs, errs) = batch_loop tpl 0 ovs
           in case errs of
                [] \<Rightarrow> ((jobs, None), h1)
              | (i, err) # es \<Rightarrow> ((jobs, Some (BatchPartial (length errs) i err)), h1)))"

definition reg_Export :: "string list \<Rightarrow> TplRegistry \<Rightarrow> LabelHeap \<Rightarrow>
    JobTemplate list \<times> TplRegistry \<times> LabelHeap" where
  "reg_Export ord r h = reg_List ord None r h"

text \<open>\<open>clock i\<close> is the time of the call for the \<open>i\<close>-th template.\<close>

fun reg_Import :: "(nat \<Rightarrow> time) \<Rightarrow> nat \<Rightarrow> JobTemplate list \<Rightarrow> TplRegistry \<Rightarrow> LabelHeap \<Rightarrow>
    reg_error option \<times> TplRegistry \<times> LabelHeap" where
  "reg_Import clock i [] r h = (None, r, h)"
| "reg_Import clock i (tpl # tpls) r h =
     (case reg_Get (jt_Name tpl) r h of
        (Inl e, h1) \<Rightarrow>
          (case reg_Create (clock i) tpl r h1 of
             (Inl err, r2, h2) \<Rightarrow> (Some (ImportCreate (jt_Name tpl) err), r2, h2)
           | (Inr out, r2, h2) \<Rightarrow> reg_Import clock (Suc i) tpls r2 h2)
      | (Inr old, h1) \<Rightarrow>
          (case reg_Update (clock i) tpl r h1 of
             (Inl err, r2, h2) \<Rightarrow> (Some (ImportUpdate (jt_Name tpl) err), r2, h2)
           | (Inr out, r2, h2) \<Rightarrow> reg_Import clock (Suc i) tpls r2 h2))"

end
