(* ===== verification/Tpl_Props.thy ===== *)
theory Tpl_Props
  imports Job_Tpl
begin

text \<open>
  The template registry against its specification, a map from names to the contents of templates: the
  label maps a client holds never alias those of the registry (\<open>sys_inv\<close>), so every interleaving of
  calls and of client writes to label maps, with filters of \<open>List\<close> that only read, is a run of the specification (\<open>registry_refines\<close>), and an
  export imported into an empty registry gives the same contents (\<open>import_of_export\<close>).
\<close>

section \<open>Contents\<close>

definition tpl_content :: "LabelHeap \<Rightarrow> JobTemplate \<Rightarrow> JobTemplate \<times> (string \<rightharpoonup> string) option" where
  "tpl_content h t = (t\<lparr>jt_ID := 0, jt_CreateTime := 0, jt_UpdateTime := 0, jt_Labels := None\<rparr>,
     map_option (lh_map h) (jt_Labels t))"

definition reg_abs :: "TplRegistry \<Rightarrow> LabelHeap \<Rightarrow> string \<rightharpoonup> JobTemplate \<times> (string \<rightharpoonup> string) option" where
  "reg_abs r h n = map_option (tpl_content h) (tr_templates r n)"

definition tpl_ok :: "LabelHeap \<Rightarrow> JobTemplate \<Rightarrow> bool" where
  "tpl_ok h t \<longleftrightarrow> (\<forall>a \<in> set_option (jt_Labels t). a < lh_fresh h)"

definition h_ext :: "LabelHeap \<Rightarrow> LabelHeap \<Rightarrow> bool" where
  "h_ext h h' \<longleftrightarrow> lh_fresh h \<le> lh_fresh h' \<and> (\<forall>a < lh_fresh h. lh_map h' a = lh_map h a)"

lemma h_ext_refl [simp]: "h_ext h h" by (simp add: h_ext_def)

lemma h_ext_trans: "h_ext h h1 \<Longrightarrow> h_ext h1 h2 \<Longrightarrow> h_ext h h2"
  by (auto simp: h_ext_def)

lemma h_ext_ok: "h_ext h h' \<Longrightarrow> tpl_ok h t \<Longrightarrow> tpl_ok h' t"
  by (fastforce simp: h_ext_def tpl_ok_def)

lemma h_ext_content: "h_ext h h' \<Longrightarrow> tpl_ok h t \<Longrightarrow> tpl_content h' t = tpl_content h t"
  by (cases "jt_Labels t") (auto simp: h_ext_def tpl_ok_def tpl_content_def)

lemma h_ext_abs:
  assumes "h_ext h h'" "\<And>n t. tr_templates r n = Some t \<Longrightarrow> tpl_ok h t"
  shows "reg_abs r h' = reg_abs r h"
proof
  fix n show "reg_abs r h' n = reg_abs r h n"
    using assms h_ext_content by (cases "tr_templates r n") (auto simp: reg_abs_def)
qed

text \<open>A clone has fresh labels and the same contents.\<close>

lemma Clone_spec:
  assumes "jt_Clone t h = (t', h')" "tpl_ok h t"
  shows "h_ext h h'" "tpl_ok h' t'" "tpl_content h' t' = tpl_content h t"
    "\<And>a. a \<in> set_option (jt_Labels t') \<Longrightarrow> lh_fresh h \<le> a" "t' = t\<lparr>jt_Labels := jt_Labels t'\<rparr>"
  using assms by (cases "jt_Labels t"; force simp: jt_Clone_def new_labels_def Let_def h_ext_def tpl_ok_def tpl_content_def)+

lemma tpl_ok_irrel [simp]:
  "tpl_ok h (t\<lparr>jt_ID := i\<rparr>) = tpl_ok h t" "tpl_ok h (t\<lparr>jt_CreateTime := c\<rparr>) = tpl_ok h t"
  "tpl_ok h (t\<lparr>jt_UpdateTime := u\<rparr>) = tpl_ok h t"
  by (simp_all add: tpl_ok_def)

lemma tpl_content_irrel [simp]:
  "tpl_content h (t\<lparr>jt_ID := i\<rparr>) = tpl_content h t" "tpl_content h (t\<lparr>jt_CreateTime := c\<rparr>) = tpl_content h t"
  "tpl_content h (t\<lparr>jt_UpdateTime := u\<rparr>) = tpl_content h t"
  by (simp_all add: tpl_content_def)

section \<open>Invariant\<close>

definition reg_inv :: "TplRegistry \<Rightarrow> LabelHeap \<Rightarrow> bool" where
  "reg_inv r h \<longleftrightarrow>
     (\<forall>n t. tr_templates r n = Some t \<longrightarrow> jt_Name t = n \<and> jt_Validate t = None \<and> tpl_ok h t \<and>
        tr_nameToID r (jt_ID t) = Some n) \<and>
     (\<forall>i n. tr_nameToID r i = Some n \<longrightarrow> i \<le> tr_nextID r \<and> (\<exists>t. tr_templates r n = Some t \<and> jt_ID t = i)) \<and>
     0 \<le> tr_nextID r"

definition reg_addrs :: "TplRegistry \<Rightarrow> nat set" where
  "reg_addrs r = {a. \<exists>n t. tr_templates r n = Some t \<and> jt_Labels t = Some a}"

type_synonym sys = "TplRegistry \<times> LabelHeap \<times> nat set"

fun sys_inv :: "sys \<Rightarrow> bool" where
  "sys_inv (r, h, C) \<longleftrightarrow> reg_inv r h \<and> (\<forall>a \<in> C. a < lh_fresh h) \<and> reg_addrs r \<inter> C = {}"

lemma reg_inv_ok: "reg_inv r h \<Longrightarrow> tr_templates r n = Some t \<Longrightarrow> tpl_ok h t"
  by (auto simp: reg_inv_def)

lemma reg_inv_ext: "reg_inv r h \<Longrightarrow> h_ext h h' \<Longrightarrow> reg_inv r h'"
  unfolding reg_inv_def using h_ext_ok by blast

lemma reg_addrs_less: "reg_inv r h \<Longrightarrow> a \<in> reg_addrs r \<Longrightarrow> a < lh_fresh h"
  by (fastforce simp: reg_inv_def reg_addrs_def tpl_ok_def)

lemma reg_inv_New: "reg_inv reg_New h" by (simp add: reg_inv_def reg_New_def)

text \<open>Handing out fresh labels keeps the invariant and the contents.\<close>

lemma hand_out:
  assumes "sys_inv (r, h, C)" "h_ext h h'" "\<forall>a \<in> D. lh_fresh h \<le> a \<and> a < lh_fresh h'"
  shows "sys_inv (r, h', C \<union> D)" "reg_abs r h' = reg_abs r h"
proof -
  have "reg_inv r h'" using assms reg_inv_ext by auto
  moreover have "a < lh_fresh h'" if "a \<in> C \<union> D" for a
    using that assms by (force simp: h_ext_def)
  moreover have "reg_addrs r \<inter> (C \<union> D) = {}"
    using assms reg_addrs_less [of r h] by fastforce
  ultimately show "sys_inv (r, h', C \<union> D)" by simp
  show "reg_abs r h' = reg_abs r h" using assms reg_inv_ok h_ext_abs by (metis sys_inv.simps)
qed

section \<open>Create and Update\<close>

lemma Validate_irrel [simp]:
  "jt_Validate (t\<lparr>jt_ID := i\<rparr>) = jt_Validate t" "jt_Validate (t\<lparr>jt_CreateTime := c\<rparr>) = jt_Validate t"
  "jt_Validate (t\<lparr>jt_UpdateTime := u\<rparr>) = jt_Validate t" "jt_Validate (t\<lparr>jt_Labels := l\<rparr>) = jt_Validate t"
  by (simp_all add: jt_Validate_def)

text \<open>What both do to the state: store \<open>cp\<close>, a clone of \<open>tpl\<close> with another identity, and return a clone of it.\<close>

lemma store_clone:
  assumes inv: "sys_inv (r, h, C)" and ok: "tpl_ok h tpl"
    and c1: "jt_Clone tpl h = (c, h1)" and cp: "cp = c\<lparr>jt_ID := i, jt_CreateTime := ct, jt_UpdateTime := ut\<rparr>"
    and c2: "jt_Clone cp h1 = (out, h2)"
    and r': "tr_templates r' = (tr_templates r)(jt_Name tpl \<mapsto> cp)" and inv': "reg_inv r' h2"
  shows "sys_inv (r', h2, C \<union> set_option (jt_Labels out))"
    "reg_abs r' h2 = (reg_abs r h)(jt_Name tpl \<mapsto> tpl_content h tpl)"
    "tpl_content h2 out = tpl_content h tpl"
proof -
  note s1 = Clone_spec [OF c1 ok]
  have ok1: "tpl_ok h1 cp" using s1(2) cp by (simp add: tpl_ok_def)
  note s2 = Clone_spec [OF c2 ok1]
  have e: "h_ext h h2" using s1(1) s2(1) h_ext_trans by blast
  have same: "tpl_content h1 cp = tpl_content h1 c" using cp by (simp add: tpl_content_def)
  show "tpl_content h2 out = tpl_content h tpl" using s1(3) s2(3) same by simp
  have C: "a < lh_fresh h" if "a \<in> C" for a using inv that by simp
  have a_new: "a \<in> reg_addrs r \<or> lh_fresh h \<le> a" if "a \<in> reg_addrs r'" for a
    using that s1(4) cp by (fastforce simp: reg_addrs_def r' split: if_splits)
  have a_lt: "a < lh_fresh h1" if "a \<in> reg_addrs r'" for a
  proof -
    obtain n t where t: "tr_templates r' n = Some t" "jt_Labels t = Some a" using \<open>a \<in> reg_addrs r'\<close> by (auto simp: reg_addrs_def)
    show ?thesis
    proof (cases "n = jt_Name tpl")
      case True then show ?thesis using t ok1 by (simp add: r' tpl_ok_def)
    next
      case False
      then have "a \<in> reg_addrs r" using t by (auto simp: r' reg_addrs_def)
      then have "a < lh_fresh h" using inv reg_addrs_less by auto
      then show ?thesis using s1(1) by (simp add: h_ext_def)
    qed
  qed
  have "reg_addrs r' \<inter> (C \<union> set_option (jt_Labels out)) = {}"
  proof -
    have "a \<notin> C \<union> set_option (jt_Labels out)" if "a \<in> reg_addrs r'" for a
    proof -
      have "a \<notin> C" using a_new [OF that] inv C [of a] by auto
      moreover have "a \<notin> set_option (jt_Labels out)" using a_lt [OF that] s2(4) [of a] by auto
      ultimately show ?thesis by simp
    qed
    then show ?thesis by blast
  qed
  moreover have "a < lh_fresh h2" if "a \<in> C \<union> set_option (jt_Labels out)" for a
    using that C [of a] e s2(2) by (auto simp: tpl_ok_def h_ext_def)
  ultimately show "sys_inv (r', h2, C \<union> set_option (jt_Labels out))" using inv' by simp
  show "reg_abs r' h2 = (reg_abs r h)(jt_Name tpl \<mapsto> tpl_content h tpl)"
  proof
    fix n
    have "reg_abs r h2 = reg_abs r h"
      using e inv reg_inv_ok h_ext_abs by (metis sys_inv.simps)
    moreover have "tpl_content h2 cp = tpl_content h tpl"
      using h_ext_content [OF s2(1) ok1] same s1(3) by simp
    ultimately show "reg_abs r' h2 n = ((reg_abs r h)(jt_Name tpl \<mapsto> tpl_content h tpl)) n"
      by (auto simp: reg_abs_def r' dest: fun_cong [where x = n])
  qed
qed

lemma Create_cases:
  assumes "reg_Create now tpl r h = (res, r', h')"
  obtains (err) e where "res = Inl e" "r' = r" "h' = h"
  | (made) c h1 cp out where "res = Inr out" "jt_Validate tpl = None" "tr_templates r (jt_Name tpl) = None"
      "jt_Clone tpl h = (c, h1)"
      "cp = c\<lparr>jt_ID := i64 (tr_nextID r + 1), jt_CreateTime := now, jt_UpdateTime := now\<rparr>"
      "jt_Clone cp h1 = (out, h')"
      "r' = r\<lparr>tr_nextID := i64 (tr_nextID r + 1), tr_templates := (tr_templates r)(jt_Name cp \<mapsto> cp),
         tr_nameToID := (tr_nameToID r)(i64 (tr_nextID r + 1) \<mapsto> jt_Name cp)\<rparr>"
  using assms
  by (cases "jt_Clone tpl h")
     (auto simp: reg_Create_def Let_def split: option.splits if_splits prod.splits)

lemma Update_cases:
  assumes "reg_Update now tpl r h = (res, r', h')"
  obtains (err) e where "res = Inl e" "r' = r" "h' = h"
  | (made) c h1 cp out old where "res = Inr out" "jt_Validate tpl = None" "tr_templates r (jt_Name tpl) = Some old"
      "jt_Clone tpl h = (c, h1)"
      "cp = c\<lparr>jt_ID := jt_ID old, jt_CreateTime := jt_CreateTime old, jt_UpdateTime := now\<rparr>"
      "jt_Clone cp h1 = (out, h')" "r' = r\<lparr>tr_templates := (tr_templates r)(jt_Name cp \<mapsto> cp)\<rparr>"
  using assms
  by (cases "jt_Clone tpl h")
     (auto simp: reg_Update_def Let_def split: option.splits if_splits prod.splits)

lemma Clone_Name: "jt_Clone t h = (t', h') \<Longrightarrow> jt_Name t' = jt_Name t \<and> jt_Validate t' = jt_Validate t"
  by (auto simp: jt_Clone_def Let_def split: option.splits prod.splits)

lemma reg_invI:
  assumes "\<And>n t. tr_templates r n = Some t \<Longrightarrow>
      jt_Name t = n \<and> jt_Validate t = None \<and> tpl_ok h t \<and> tr_nameToID r (jt_ID t) = Some n"
    "\<And>i n. tr_nameToID r i = Some n \<Longrightarrow> i \<le> tr_nextID r \<and> (\<exists>t. tr_templates r n = Some t \<and> jt_ID t = i)"
    "0 \<le> tr_nextID r"
  shows "reg_inv r h"
  using assms by (simp add: reg_inv_def)

lemma reg_inv_tpl:
  "reg_inv r h \<Longrightarrow> tr_templates r n = Some t \<Longrightarrow>
     jt_Name t = n \<and> jt_Validate t = None \<and> tpl_ok h t \<and> tr_nameToID r (jt_ID t) = Some n \<and> jt_ID t \<le> tr_nextID r"
  unfolding reg_inv_def by blast

lemma reg_inv_id:
  "reg_inv r h \<Longrightarrow> tr_nameToID r i = Some n \<Longrightarrow> i \<le> tr_nextID r \<and> (\<exists>t. tr_templates r n = Some t \<and> jt_ID t = i)"
  unfolding reg_inv_def by blast

lemma reg_inv_put:
  assumes inv: "reg_inv r h" and e: "h_ext h h'" and cp: "tpl_ok h' cp" "jt_Validate cp = None"
    "tr_templates r (jt_Name cp) = None" "jt_ID cp = tr_nextID r + 1"
  shows "reg_inv (r\<lparr>tr_nextID := tr_nextID r + 1, tr_templates := (tr_templates r)(jt_Name cp \<mapsto> cp),
     tr_nameToID := (tr_nameToID r)(tr_nextID r + 1 \<mapsto> jt_Name cp)\<rparr>) h'"
proof (rule reg_invI, goal_cases)
  case (1 n t)
  then show ?case using cp reg_inv_tpl [OF reg_inv_ext [OF inv e], of n t] by (auto split: if_splits)
next
  case (2 i n)
  show ?case
  proof (cases "i = tr_nextID r + 1")
    case False
    then obtain t where "i \<le> tr_nextID r" "tr_templates r n = Some t" "jt_ID t = i"
      using 2 reg_inv_id [OF inv, of i n] by auto
    moreover from this have "n \<noteq> jt_Name cp" using cp by auto
    ultimately show ?thesis by simp
  qed (use 2 cp in simp)
next
  case 3
  show ?case using inv by (simp add: reg_inv_def)
qed

lemma reg_inv_replace:
  assumes inv: "reg_inv r h" and e: "h_ext h h'" and cp: "tpl_ok h' cp" "jt_Validate cp = None"
    "tr_templates r (jt_Name cp) = Some old" "jt_ID cp = jt_ID old"
  shows "reg_inv (r\<lparr>tr_templates := (tr_templates r)(jt_Name cp \<mapsto> cp)\<rparr>) h'"
proof (rule reg_invI, goal_cases)
  case (1 n t)
  then show ?case using cp reg_inv_tpl [OF reg_inv_ext [OF inv e]] by (auto split: if_splits)
next
  case (2 i n)
  then show ?case using reg_inv_id [OF inv, of i n] cp by auto
next
  case 3
  show ?case using inv by (simp add: reg_inv_def)
qed

text \<open>A successful Create or Update stores the contents of its argument and keeps the invariant.\<close>

lemma Create_sets:
  assumes inv: "sys_inv (r, h, C)" and ok: "tpl_ok h tpl" and n: "tr_nextID r < i64_max"
    and c: "reg_Create now tpl r h = (Inr out, r', h')"
  shows "sys_inv (r', h', C \<union> set_option (jt_Labels out)) \<and>
    reg_abs r' h' = (reg_abs r h)(jt_Name tpl \<mapsto> tpl_content h tpl)"
  using c
proof (cases rule: Create_cases)
  case (made c h1 cp out')
  note s1 = Clone_spec [OF made(4) ok]
  have id: "i64 (tr_nextID r + 1) = tr_nextID r + 1"
    using inv n by (intro i64_id) (auto simp: reg_inv_def i64_min_def)
  have cp: "jt_Name cp = jt_Name tpl" "jt_Validate cp = None" using made Clone_Name [OF made(4)] by simp_all
  have ok1: "tpl_ok h1 cp" using s1(2) made(5) by (simp add: tpl_ok_def)
  note s2 = Clone_spec [OF made(6) ok1]
  have "reg_inv r' h'"
    using reg_inv_put [of r h h' cp] inv h_ext_trans [OF s1(1) s2(1)] h_ext_ok [OF s2(1) ok1] cp made(3,5,7) id by simp
  then show ?thesis using store_clone [OF inv ok made(4,5,6), of r'] made(1,7) cp by simp
qed simp

lemma Update_sets:
  assumes inv: "sys_inv (r, h, C)" and ok: "tpl_ok h tpl" and c: "reg_Update now tpl r h = (Inr out, r', h')"
  shows "sys_inv (r', h', C \<union> set_option (jt_Labels out)) \<and>
    reg_abs r' h' = (reg_abs r h)(jt_Name tpl \<mapsto> tpl_content h tpl)"
  using c
proof (cases rule: Update_cases)
  case (made c h1 cp out' old)
  note s1 = Clone_spec [OF made(4) ok]
  have cp: "jt_Name cp = jt_Name tpl" "jt_Validate cp = None" using made Clone_Name [OF made(4)] by simp_all
  have ok1: "tpl_ok h1 cp" using s1(2) made(5) by (simp add: tpl_ok_def)
  note s2 = Clone_spec [OF made(6) ok1]
  have "reg_inv r' h'"
    using reg_inv_replace [of r h h' cp old] inv h_ext_trans [OF s1(1) s2(1)] h_ext_ok [OF s2(1) ok1] cp made(3,5,7) by simp
  then show ?thesis using store_clone [OF inv ok made(4,5,6), of r'] made(1,7) cp by simp
qed simp

section \<open>The other operations\<close>

lemma Delete_removes:
  assumes "sys_inv (r, h, C)" "reg_Delete name r = (None, r')"
  shows "sys_inv (r', h, C) \<and> reg_abs r' h = (reg_abs r h)(name := None)"
proof -
  obtain t where t: "tr_templates r name = Some t"
    and r': "r' = r\<lparr>tr_templates := (tr_templates r)(name := None), tr_nameToID := (tr_nameToID r)(jt_ID t := None)\<rparr>"
    using assms(2) by (auto simp: reg_Delete_def split: option.splits)
  have inv: "reg_inv r h" using assms(1) by simp
  have "reg_inv r' h"
  proof (rule reg_invI, goal_cases)
    case (1 n u)
    then have u: "tr_templates r n = Some u" "n \<noteq> name" by (auto simp: r' split: if_splits)
    then have "jt_ID u \<noteq> jt_ID t" using reg_inv_tpl [OF inv t] reg_inv_tpl [OF inv u(1)] by auto
    then show ?case using reg_inv_tpl [OF inv u(1)] by (simp add: r')
  next
    case (2 i n)
    then have i: "tr_nameToID r i = Some n" "i \<noteq> jt_ID t" by (auto simp: r' split: if_splits)
    then have "n \<noteq> name" using reg_inv_id [OF inv i(1)] t by auto
    then show ?case using reg_inv_id [OF inv i(1)] by (simp add: r')
  next
    case 3
    show ?case using inv by (simp add: r' reg_inv_def)
  qed
  moreover have "reg_addrs r' \<subseteq> reg_addrs r" by (auto simp: reg_addrs_def r' split: if_splits)
  moreover have "reg_abs r' h = (reg_abs r h)(name := None)" by (auto simp: reg_abs_def r')
  ultimately show ?thesis using assms(1) by auto
qed

lemma Get_spec:
  assumes "reg_Get name r h = (res, h')" "reg_inv r h"
  shows "h_ext h h'" "\<And>t. res = Inr t \<Longrightarrow> reg_abs r h name = Some (tpl_content h' t) \<and> jt_Name t = name \<and>
       tpl_ok h' t \<and> (\<forall>a \<in> set_option (jt_Labels t). lh_fresh h \<le> a)"
    "\<And>e. res = Inl e \<Longrightarrow> tr_templates r name = None \<and> e = TemplateNotFound name"
proof -
  have *: "h_ext h h' \<and> (\<forall>t. res = Inr t \<longrightarrow> reg_abs r h name = Some (tpl_content h' t) \<and> jt_Name t = name \<and>
       tpl_ok h' t \<and> (\<forall>a \<in> set_option (jt_Labels t). lh_fresh h \<le> a)) \<and>
     (\<forall>e. res = Inl e \<longrightarrow> tr_templates r name = None \<and> e = TemplateNotFound name)"
  proof (cases "tr_templates r name")
    case None then show ?thesis using assms by (auto simp: reg_Get_def)
  next
    case (Some t0)
    obtain c h1 where c: "jt_Clone t0 h = (c, h1)" by fastforce
    have "tpl_ok h t0" "jt_Name t0 = name" using Some assms(2) by (auto simp: reg_inv_def)
    then show ?thesis using Clone_spec [OF c] Clone_Name [OF c] assms Some c by (auto simp: reg_Get_def reg_abs_def)
  qed
  show "h_ext h h'" "\<And>t. res = Inr t \<Longrightarrow> reg_abs r h name = Some (tpl_content h' t) \<and> jt_Name t = name \<and>
       tpl_ok h' t \<and> (\<forall>a \<in> set_option (jt_Labels t). lh_fresh h \<le> a)"
    "\<And>e. res = Inl e \<Longrightarrow> tr_templates r name = None \<and> e = TemplateNotFound name"
    using * by blast+
qed

lemma GetByID_is_Get:
  assumes "reg_inv r h"
  shows "reg_GetByID i r h = (case tr_nameToID r i of None \<Rightarrow> Some (Inl (IDNotFound i), h) | Some name \<Rightarrow> Some (reg_Get name r h))"
  using reg_inv_id [OF assms, of i] by (auto simp: reg_GetByID_def reg_Get_def split: option.splits prod.splits)

text \<open>A filter that only reads: it leaves the template and the label maps as they were (its answer is its
  own affair). \<open>List\<close> then leaves the registry as it was and returns fresh clones of stored templates; without a
  filter it returns a clone of each, in iteration order.\<close>

definition reads_only :: "tpl_filter option \<Rightarrow> bool" where
  "reads_only flt \<longleftrightarrow> (\<forall>p \<in> set_option flt. \<forall>t h. snd (p t h) = (t, h))"

lemma reads_only_None [simp]: "reads_only None" by (simp add: reads_only_def)

lemma list_loop_reads:
  assumes "reads_only flt"
  shows "list_loop flt ((name, tpl) # rest) h =
     (if (case flt of None \<Rightarrow> True | Some p \<Rightarrow> fst (p tpl h)) then
        let (cp, h1) = jt_Clone tpl h; (out, left, h2) = list_loop flt rest h1 in (cp # out, (name, tpl) # left, h2)
      else let (out, left, h2) = list_loop flt rest h in (out, (name, tpl) # left, h2))"
proof (cases flt)
  case (Some p)
  then have "snd (p tpl h) = (tpl, h)" using assms by (simp add: reads_only_def)
  then show ?thesis using Some by (cases "p tpl h") simp
qed simp

lemma tpl_content_ext: "h_ext h h' \<Longrightarrow> tpl_ok h t \<Longrightarrow> tpl_content h' t = tpl_content h t"
  by (cases "jt_Labels t") (auto simp: tpl_content_def h_ext_def tpl_ok_def)

lemma list_loop_spec:
  assumes "list_loop flt nts h = (ts, left, h')" "reads_only flt" "\<forall>(n, t) \<in> set nts. tpl_ok h t"
  shows "left = nts \<and> h_ext h h' \<and>
    tpl_content h' ` set ts \<subseteq> tpl_content h ` snd ` set nts \<and>
    (flt = None \<longrightarrow> map (tpl_content h') ts = map (tpl_content h) (map snd nts)) \<and>
    (\<forall>t \<in> set ts. tpl_ok h' t \<and> (\<forall>a \<in> set_option (jt_Labels t). lh_fresh h \<le> a))"
  using assms(1,3)
proof (induction nts arbitrary: h ts left)
  case Nil then show ?case by simp
next
  case (Cons nt rest)
  obtain name tpl where nt: "nt = (name, tpl)" by fastforce
  have ok: "tpl_ok h tpl" "\<forall>(n, t) \<in> set rest. tpl_ok h t" using Cons.prems nt by auto
  show ?case
  proof (cases "case flt of None \<Rightarrow> True | Some p \<Rightarrow> fst (p tpl h)")
    case False
    obtain out lf h2 where l: "list_loop flt rest h = (out, lf, h2)" by (metis prod_cases3)
    have "ts = out" "left = nt # lf" "h' = h2" using Cons.prems(1) False l nt by (simp_all add: list_loop_reads [OF assms(2)] del: list_loop.simps)
    then show ?thesis using Cons.IH [OF _ ok(2)] l False nt by (auto split: option.splits)
  next
    case True
    obtain c h1 where c: "jt_Clone tpl h = (c, h1)" by fastforce
    obtain out lf h2 where l: "list_loop flt rest h1 = (out, lf, h2)" by (metis prod_cases3)
    have res: "ts = c # out" "left = nt # lf" "h' = h2"
      using Cons.prems(1) True c l nt by (simp_all add: list_loop_reads [OF assms(2)] del: list_loop.simps)
    note s = Clone_spec [OF c ok(1)]
    have ok1: "\<forall>(n, t) \<in> set rest. tpl_ok h1 t" using ok(2) s(1) h_ext_ok by fastforce
    have same: "map (tpl_content h1) (map snd rest) = map (tpl_content h) (map snd rest)"
      using tpl_content_ext [OF s(1)] ok(2) by fastforce
    have l': "list_loop flt rest h1 = (out, lf, h')" using l res by simp
    note IH = Cons.IH [OF l' ok1, unfolded same]
    have "tpl_content h' c = tpl_content h tpl" using h_ext_content [OF _ s(2)] IH s(3) by simp
    moreover have "tpl_ok h' c" using h_ext_ok [OF _ s(2)] IH by blast
    moreover have "h_ext h h'" using IH h_ext_trans [OF s(1)] by blast
    moreover have "lh_fresh h \<le> a" if "t \<in> set out" "jt_Labels t = Some a" for t a
      using that IH s(1) by (fastforce simp: h_ext_def)
    moreover have "tpl_content h' ` set out \<subseteq> tpl_content h ` snd ` set rest"
      using IH arg_cong [OF same, of set] by (simp add: image_image)
    ultimately show ?thesis using IH s res nt by auto
  qed
qed

lemma map_add_go_range: "m ++ map_of (go_range m ord) = m"
proof
  fix k show "(m ++ map_of (go_range m ord)) k = m k"
    by (cases "map_of (go_range m ord) k") (auto simp: map_add_def set_go_range dest!: map_of_SomeD)
qed

lemma List_reads:
  assumes "reg_List ord flt r h = (ts, r', h')" "reads_only flt" "reg_inv r h"
  shows "r' = r" "h_ext h h'" "\<forall>t \<in> set ts. tpl_ok h' t \<and> (\<forall>a \<in> set_option (jt_Labels t). lh_fresh h \<le> a)"
    "flt = None \<Longrightarrow> map (tpl_content h') ts = map (tpl_content h) (map snd (go_range (tr_templates r) ord))"
proof -
  obtain left where l: "list_loop flt (go_range (tr_templates r) ord) h = (ts, left, h')"
    and r': "r' = r\<lparr>tr_templates := tr_templates r ++ map_of left\<rparr>"
    using assms(1) by (auto simp: reg_List_def split: prod.splits)
  have "\<forall>(n, t) \<in> set (go_range (tr_templates r) ord). tpl_ok h t"
    using assms(3) reg_inv_ok by (auto simp: set_go_range)
  note s = list_loop_spec [OF l assms(2) this]
  show "r' = r" using s r' by (simp add: map_add_go_range)
  show "h_ext h h'" "\<forall>t \<in> set ts. tpl_ok h' t \<and> (\<forall>a \<in> set_option (jt_Labels t). lh_fresh h \<le> a)"
    "flt = None \<Longrightarrow> map (tpl_content h') ts = map (tpl_content h) (map snd (go_range (tr_templates r) ord))"
    using s by simp_all
qed

section \<open>The registry implements a map\<close>

datatype reg_op = OpSet string "JobTemplate \<times> (string \<rightharpoonup> string) option" | OpDel string | OpRead

fun spec_apply :: "reg_op \<Rightarrow> (string \<rightharpoonup> JobTemplate \<times> (string \<rightharpoonup> string) option) \<Rightarrow>
    string \<rightharpoonup> JobTemplate \<times> (string \<rightharpoonup> string) option" where
  "spec_apply (OpSet n c) m = m(n \<mapsto> c)"
| "spec_apply (OpDel n) m = m(n := None)"
| "spec_apply OpRead m = m"

definition labels_in :: "nat set \<Rightarrow> JobTemplate \<Rightarrow> bool" where
  "labels_in C t \<longleftrightarrow> set_option (jt_Labels t) \<subseteq> C"

text \<open>A step is a call of the registry or something a client does with the label maps it holds (\<open>C\<close>): it
  may make new ones, write to them, pass them in templates and keep what a call returns. The filters passed to
  \<open>List\<close> only read the template they are lent (\<open>reads_only\<close>), and a client gets nothing of it to keep.\<close>

inductive sys_step :: "sys \<Rightarrow> reg_op \<Rightarrow> sys \<Rightarrow> bool" where
  ss_alloc: "new_labels m h = (a, h') \<Longrightarrow> sys_step (r, h, C) OpRead (r, h', C \<union> {a})"
| ss_write: "a \<in> C \<Longrightarrow> sys_step (r, h, C) OpRead (r, h\<lparr>lh_map := (lh_map h)(a := m)\<rparr>, C)"
| ss_create: "labels_in C tpl \<Longrightarrow> tr_nextID r < i64_max \<Longrightarrow> reg_Create now tpl r h = (Inr out, r', h') \<Longrightarrow>
    sys_step (r, h, C) (OpSet (jt_Name tpl) (tpl_content h tpl)) (r', h', C \<union> set_option (jt_Labels out))"
| ss_create_err: "reg_Create now tpl r h = (Inl e, r', h') \<Longrightarrow> sys_step (r, h, C) OpRead (r', h', C)"
| ss_update: "labels_in C tpl \<Longrightarrow> reg_Update now tpl r h = (Inr out, r', h') \<Longrightarrow>
    sys_step (r, h, C) (OpSet (jt_Name tpl) (tpl_content h tpl)) (r', h', C \<union> set_option (jt_Labels out))"
| ss_update_err: "reg_Update now tpl r h = (Inl e, r', h') \<Longrightarrow> sys_step (r, h, C) OpRead (r', h', C)"
| ss_delete: "reg_Delete name r = (None, r') \<Longrightarrow> sys_step (r, h, C) (OpDel name) (r', h, C)"
| ss_delete_err: "reg_Delete name r = (Some e, r') \<Longrightarrow> sys_step (r, h, C) OpRead (r', h, C)"
| ss_get: "reg_Get name r h = (Inr t, h') \<Longrightarrow> sys_step (r, h, C) OpRead (r, h', C \<union> set_option (jt_Labels t))"
| ss_get_id: "reg_GetByID i r h = Some (Inr t, h') \<Longrightarrow> sys_step (r, h, C) OpRead (r, h', C \<union> set_option (jt_Labels t))"
| ss_list: "reads_only flt \<Longrightarrow> reg_List ord flt r h = (ts, r', h') \<Longrightarrow>
    sys_step (r, h, C) OpRead (r', h', C \<union> (\<Union>t \<in> set ts. set_option (jt_Labels t)))"

inductive sys_runs :: "sys \<Rightarrow> reg_op list \<Rightarrow> sys \<Rightarrow> bool" for s0 :: sys where
  sr_start: "sys_runs s0 [] s0"
| sr_step: "sys_runs s0 ops s \<Longrightarrow> sys_step s op s' \<Longrightarrow> sys_runs s0 (ops @ [op]) s'"

fun sys_abs :: "sys \<Rightarrow> string \<rightharpoonup> JobTemplate \<times> (string \<rightharpoonup> string) option" where
  "sys_abs (r, h, C) = reg_abs r h"

lemma labels_in_ok: "labels_in C t \<Longrightarrow> sys_inv (r, h, C) \<Longrightarrow> tpl_ok h t"
  by (auto simp: labels_in_def tpl_ok_def)

lemma write_outside:
  assumes "sys_inv (r, h, C)" "a \<in> C"
  shows "sys_inv (r, h\<lparr>lh_map := (lh_map h)(a := m)\<rparr>, C)" "reg_abs r (h\<lparr>lh_map := (lh_map h)(a := m)\<rparr>) = reg_abs r h"
proof -
  show "sys_inv (r, h\<lparr>lh_map := (lh_map h)(a := m)\<rparr>, C)"
    using assms by (simp add: reg_inv_def tpl_ok_def)
  have no: "jt_Labels t \<noteq> Some a" if "tr_templates r n = Some t" for n t
    using assms that by (auto simp: reg_addrs_def)
  show "reg_abs r (h\<lparr>lh_map := (lh_map h)(a := m)\<rparr>) = reg_abs r h"
  proof
    fix n show "reg_abs r (h\<lparr>lh_map := (lh_map h)(a := m)\<rparr>) n = reg_abs r h n"
    proof (cases "tr_templates r n")
      case (Some t)
      then show ?thesis using no [OF Some] by (cases "jt_Labels t") (auto simp: reg_abs_def tpl_content_def)
    qed (simp add: reg_abs_def)
  qed
qed

lemma List_hand_out:
  assumes "sys_inv (r, h, C)" "reads_only flt" "reg_List ord flt r h = (ts, r', h')"
  shows "sys_inv (r', h', C \<union> (\<Union>t \<in> set ts. set_option (jt_Labels t)))" "reg_abs r' h' = reg_abs r h"
proof -
  have "reg_inv r h" using assms(1) by simp
  note s = List_reads [OF assms(3,2) this]
  have "\<forall>a \<in> (\<Union>t \<in> set ts. set_option (jt_Labels t)). lh_fresh h \<le> a \<and> a < lh_fresh h'"
    using s(3) by (auto simp: tpl_ok_def)
  from hand_out [OF assms(1) s(2) this]
  show "sys_inv (r', h', C \<union> (\<Union>t \<in> set ts. set_option (jt_Labels t)))" "reg_abs r' h' = reg_abs r h"
    using s(1) by auto
qed

lemma Get_hand_out:
  assumes "sys_inv (r, h, C)" "reg_Get name r h = (Inr t, h')"
  shows "sys_inv (r, h', C \<union> set_option (jt_Labels t))" "reg_abs r h' = reg_abs r h"
proof -
  have "reg_inv r h" using assms(1) by simp
  note g = Get_spec [OF assms(2) this]
  have "\<forall>a \<in> set_option (jt_Labels t). lh_fresh h \<le> a \<and> a < lh_fresh h'"
    using g(2) [of t] by (auto simp: tpl_ok_def)
  from hand_out [OF assms(1) g(1) this]
  show "sys_inv (r, h', C \<union> set_option (jt_Labels t))" "reg_abs r h' = reg_abs r h" by auto
qed

lemma Create_err: "reg_Create now tpl r h = (Inl e, r', h') \<Longrightarrow> r' = r \<and> h' = h"
  by (erule Create_cases) auto

lemma Update_err: "reg_Update now tpl r h = (Inl e, r', h') \<Longrightarrow> r' = r \<and> h' = h"
  by (erule Update_cases) auto

lemma Delete_err: "reg_Delete name r = (Some e, r') \<Longrightarrow> r' = r"
  by (auto simp: reg_Delete_def split: option.splits)

lemma alloc_ext: "new_labels m h = (a, h') \<Longrightarrow> h_ext h h' \<and> a = lh_fresh h \<and> lh_fresh h' = Suc a"
  by (auto simp: new_labels_def h_ext_def)

lemma sys_step_refines:
  assumes "sys_step s op s'" "sys_inv s"
  shows "sys_inv s' \<and> sys_abs s' = spec_apply op (sys_abs s)"
  using assms
proof (cases rule: sys_step.cases)
  case (ss_alloc m h a h' r C)
  then show ?thesis using hand_out [of r h C h' "{a}"] alloc_ext assms(2) by auto
next
  case (ss_write a C r h m)
  then show ?thesis using write_outside [of r h C a m] assms(2) by simp
next
  case (ss_create C tpl r now h out r' h')
  then show ?thesis using Create_sets [of r h C tpl now out r' h'] labels_in_ok assms(2) by auto
next
  case (ss_create_err now tpl r h e r' h' C)
  then show ?thesis using Create_err assms(2) by fastforce
next
  case (ss_update C tpl now r h out r' h')
  then show ?thesis using Update_sets [of r h C tpl now out r' h'] labels_in_ok assms(2) by auto
next
  case (ss_update_err now tpl r h e r' h' C)
  then show ?thesis using Update_err assms(2) by fastforce
next
  case (ss_delete name r r' h C)
  then show ?thesis using Delete_removes [of r h C name r'] assms(2) by simp
next
  case (ss_delete_err name r e r' h C)
  then show ?thesis using Delete_err assms(2) by fastforce
next
  case (ss_get name r h t h' C)
  then show ?thesis using Get_hand_out [of r h C name t h'] assms(2) by simp
next
  case (ss_get_id i r h t h' C)
  then have "reg_inv r h" using assms(2) by simp
  from GetByID_is_Get [OF this, of i] ss_get_id obtain name where "reg_Get name r h = (Inr t, h')"
    by (auto split: option.splits)
  then show ?thesis using Get_hand_out [of r h C name t h'] ss_get_id assms(2) by simp
next
  case (ss_list flt ord r h ts r' h' C)
  then show ?thesis using List_hand_out [of r h C flt ord ts r' h'] assms(2) by simp
qed

lemma sys_runs_refines:
  assumes "sys_runs s0 ops s" "sys_inv s0"
  shows "sys_inv s \<and> sys_abs s = fold spec_apply ops (sys_abs s0)"
  using assms by induction (auto dest: sys_step_refines)

text \<open>Property C13: as long as the filters given to List only read the template they are handed and do not
  keep it, and until the ID counter reaches the end of the int64 range, the template registry behaves as a map
  from names to contents, whatever else its clients do, writes to the label maps they hold included: its
  contents are the successful Create, Update and Delete calls applied in order, Get answers from that map, and
  GetByID never panics.\<close>

theorem registry_refines:
  assumes "sys_runs (reg_New, h0, {}) ops (r, h, C)"
  shows "reg_abs r h = fold spec_apply ops Map.empty \<and>
    (case reg_Get name r h of
       (Inl e, h') \<Rightarrow> e = TemplateNotFound name \<and> fold spec_apply ops Map.empty name = None
     | (Inr t, h') \<Rightarrow> fold spec_apply ops Map.empty name = Some (tpl_content h' t)) \<and>
    reg_GetByID i r h \<noteq> None"
proof -
  have "sys_inv (reg_New, h0, {})" by (simp add: reg_inv_New)
  from sys_runs_refines [OF assms this]
  have inv: "reg_inv r h" and abs: "reg_abs r h = fold spec_apply ops Map.empty"
    by (auto simp: reg_abs_def [abs_def] reg_New_def)
  obtain res h' where g: "reg_Get name r h = (res, h')" by fastforce
  note s = Get_spec [OF g inv]
  have "reg_GetByID i r h \<noteq> None" by (simp add: GetByID_is_Get [OF inv] split: option.splits)
  then show ?thesis using s(2,3) g abs [symmetric] by (cases res) (auto simp: reg_abs_def)
qed

text \<open>The condition on the filters is needed: a filter that writes to the template it is handed changes the
  stored template, here its name, so that \<open>Get\<close> under the old name answers with a template of another name.\<close>

lemma writing_filter_reaches_registry:
  assumes "tr_templates r name = Some t" "jt_Labels t = None" "jt_Name t = name" "other \<noteq> name"
    "reg_List [name] (Some (\<lambda>t h. (False, t\<lparr>jt_Name := other\<rparr>, h))) r h = (ts, r', h')"
  shows "\<exists>u. reg_Get name r' h' = (Inr u, h') \<and> jt_Name u \<noteq> name" "\<not> reg_inv r' h'"
proof -
  have r': "tr_templates r' name = Some (t\<lparr>jt_Name := other\<rparr>)" using assms by (auto simp: reg_List_def)
  then show "\<exists>u. reg_Get name r' h' = (Inr u, h') \<and> jt_Name u \<noteq> name"
    using assms by (auto simp: reg_Get_def jt_Clone_def)
  show "\<not> reg_inv r' h'" using r' assms(4) by (force simp: reg_inv_def)
qed

definition demo_heap :: LabelHeap where "demo_heap = \<lparr>lh_map = \<lambda>_. Map.empty, lh_fresh = 0\<rparr>"

definition demo_tpl :: "string \<Rightarrow> nat option \<Rightarrow> JobTemplate" where
  "demo_tpl name labels = \<lparr>jt_ID = 0, jt_Name = name, jt_Description = [], jt_ExecutorApp = ''app'',
     jt_ExecuteType = ExecuteTypeBean, jt_ExecuteHandler = ''report'', jt_ExecuteParam = [],
     jt_RouteStrategy = RouteFirst, jt_BlockStrategy = BlockSerial, jt_MisfireStrategy = MisfireIgnore,
     jt_JobType = JobTypeCron, jt_CronExpression = ''0 0 2 * * *'', jt_Timeout = 60, jt_RetryCount = 3,
     jt_RetryInterval = 10, jt_ShardingNum = 0, jt_AlarmEmail = [], jt_AlarmWebhook = [], jt_Labels = labels,
     jt_CreateUser = ''ops'', jt_CreateTime = 0, jt_UpdateTime = 0\<rparr>"

lemma demo_run:
  obtains r h C where
    "sys_runs (reg_New, demo_heap, {}) [OpRead, OpSet ''nightly'' (demo_tpl ''nightly'' None, Some [''team'' \<mapsto> ''a'']), OpRead] (r, h, C)"
    "lh_map h 0 = Map.empty"
proof -
  let ?h1 = "\<lparr>lh_map = (\<lambda>_. Map.empty)(0 := [''team'' \<mapsto> ''a'']), lh_fresh = 1\<rparr>"
  let ?t = "demo_tpl ''nightly'' (Some 0)"
  obtain res r2 h2 where c: "reg_Create 5 ?t reg_New ?h1 = (res, r2, h2)" by (metis prod_cases3)
  then obtain out where out: "res = Inr out"
    by (auto simp: reg_Create_def jt_Validate_def demo_tpl_def reg_New_def Let_def split: prod.splits)
  have s1: "sys_step (reg_New, demo_heap, {}) OpRead (reg_New, ?h1, {0})"
    using ss_alloc [of "[''team'' \<mapsto> ''a'']" demo_heap 0 ?h1 reg_New "{}"] by (simp add: new_labels_def demo_heap_def)
  have content: "tpl_content ?h1 ?t = (demo_tpl ''nightly'' None, Some [''team'' \<mapsto> ''a''])" "jt_Name ?t = ''nightly''"
    by (simp_all add: tpl_content_def demo_tpl_def)
  have s2: "sys_step (reg_New, ?h1, {0}) (OpSet ''nightly'' (demo_tpl ''nightly'' None, Some [''team'' \<mapsto> ''a'']))
      (r2, h2, {0} \<union> set_option (jt_Labels out))"
    using ss_create [of "{0}" ?t reg_New 5 ?h1 out r2 h2] c out content
    by (simp add: labels_in_def demo_tpl_def reg_New_def i64_max_def)
  have s3: "sys_step (r2, h2, {0} \<union> set_option (jt_Labels out)) OpRead
      (r2, h2\<lparr>lh_map := (lh_map h2)(0 := Map.empty)\<rparr>, {0} \<union> set_option (jt_Labels out))"
    by (rule ss_write) simp
  show ?thesis
    using sr_step [OF sr_step [OF sr_step [OF sr_start s1] s2] s3] that by fastforce
qed

lemma registry_refines_witness:
  "\<exists>r h C. sys_runs (reg_New, demo_heap, {})
     [OpRead, OpSet ''nightly'' (demo_tpl ''nightly'' None, Some [''team'' \<mapsto> ''a'']), OpRead] (r, h, C) \<and>
     lh_map h 0 = Map.empty \<and> reg_abs r h = [''nightly'' \<mapsto> (demo_tpl ''nightly'' None, Some [''team'' \<mapsto> ''a''])]"
proof -
  let ?ops = "[OpRead, OpSet ''nightly'' (demo_tpl ''nightly'' None, Some [''team'' \<mapsto> ''a'']), OpRead]"
  obtain r h C where run: "sys_runs (reg_New, demo_heap, {}) ?ops (r, h, C)" and w: "lh_map h 0 = Map.empty"
    by (rule demo_run)
  have "reg_abs r h = fold spec_apply ?ops Map.empty" using registry_refines [OF run, of "[]" 0] by (rule conjunct1)
  then have "reg_abs r h = [''nightly'' \<mapsto> (demo_tpl ''nightly'' None, Some [''team'' \<mapsto> ''a''])]" by simp
  then show ?thesis using run w by blast
qed

section \<open>Export and Import\<close>

lemma Create_new:
  assumes "tpl_ok h tpl" "jt_Validate tpl = None" "tr_templates r (jt_Name tpl) = None"
  obtains out r' h' where "reg_Create now tpl r h = (Inr out, r', h')" "h_ext h h'"
    "tr_nextID r' = i64 (tr_nextID r + 1)" "\<And>n. n \<noteq> jt_Name tpl \<Longrightarrow> tr_templates r' n = tr_templates r n"
proof -
  obtain res r' h' where c: "reg_Create now tpl r h = (res, r', h')" by (metis prod_cases3)
  have "\<exists>out. res = Inr out"
    using c assms by (auto simp: reg_Create_def Let_def split: prod.splits)
  then obtain out where out: "res = Inr out" by blast
  from c show ?thesis
  proof (cases rule: Create_cases)
    case (made c1 h1 cp out')
    note s1 = Clone_spec [OF made(4) assms(1)]
    have "tpl_ok h1 cp" using s1(2) made(5) by (simp add: tpl_ok_def)
    then have "h_ext h1 h'" using Clone_spec(1) [OF made(6)] by blast
    moreover have "jt_Name cp = jt_Name tpl" using made(5) Clone_Name [OF made(4)] by simp
    ultimately show ?thesis using that [of out r' h'] c out made(7) h_ext_trans [OF s1(1)] by auto
  qed (use out in simp)
qed

lemma Import_new:
  assumes "sys_inv (r, h, {})" "\<forall>t \<in> set ts. tpl_ok h t \<and> jt_Validate t = None \<and> tr_templates r (jt_Name t) = None"
    "distinct (map jt_Name ts)" "tr_nextID r + int (length ts) \<le> i64_max"
  shows "\<exists>r' h'. reg_Import clock i ts r h = (None, r', h') \<and>
    reg_abs r' h' = reg_abs r h ++ map_of (map (\<lambda>t. (jt_Name t, tpl_content h t)) ts)"
  using assms
proof (induction ts arbitrary: i r h)
  case Nil
  then show ?case by simp
next
  case (Cons t ts)
  have t: "tpl_ok h t" "jt_Validate t = None" "tr_templates r (jt_Name t) = None" using Cons.prems(2) by simp_all
  obtain out r2 h2 where c: "reg_Create (clock i) t r h = (Inr out, r2, h2)" and e: "h_ext h h2"
    and n: "tr_nextID r2 = i64 (tr_nextID r + 1)" and same: "\<And>n. n \<noteq> jt_Name t \<Longrightarrow> tr_templates r2 n = tr_templates r n"
    using Create_new [OF t] by blast
  have room: "tr_nextID r < i64_max" using Cons.prems(4) by simp
  have set: "sys_inv (r2, h2, {}) \<and> reg_abs r2 h2 = (reg_abs r h)(jt_Name t \<mapsto> tpl_content h t)"
    using Create_sets [OF Cons.prems(1) t(1) room c] by auto
  have "i64 (tr_nextID r + 1) = tr_nextID r + 1"
    using Cons.prems(1) room by (intro i64_id) (auto simp: reg_inv_def i64_min_def)
  then have bound: "tr_nextID r2 + int (length ts) \<le> i64_max" using n Cons.prems(4) by simp
  have rest: "\<forall>u \<in> set ts. tpl_ok h2 u \<and> jt_Validate u = None \<and> tr_templates r2 (jt_Name u) = None"
  proof
    fix u assume u: "u \<in> set ts"
    then have "jt_Name u \<noteq> jt_Name t" using Cons.prems(3) by (auto simp: image_iff)
    then show "tpl_ok h2 u \<and> jt_Validate u = None \<and> tr_templates r2 (jt_Name u) = None"
      using Cons.prems(2) u e h_ext_ok same by auto
  qed
  have dist: "distinct (map jt_Name ts)" "jt_Name t \<notin> jt_Name ` set ts" using Cons.prems(3) by simp_all
  have contents: "map (\<lambda>u. (jt_Name u, tpl_content h2 u)) ts = map (\<lambda>u. (jt_Name u, tpl_content h u)) ts"
    using Cons.prems(2) e h_ext_content by simp
  obtain r' h' where imp: "reg_Import clock (Suc i) ts r2 h2 = (None, r', h')"
    and abs: "reg_abs r' h' = reg_abs r2 h2 ++ map_of (map (\<lambda>t. (jt_Name t, tpl_content h2 t)) ts)"
    using Cons.IH [of r2 h2 "Suc i", OF _ rest dist(1) bound] set by blast
  have "jt_Name t \<notin> dom (map_of (map (\<lambda>t. (jt_Name t, tpl_content h t)) ts))"
    using dist(2) by (simp add: dom_map_of_conv_image_fst image_image)
  then have "reg_abs r' h' = reg_abs r h ++ map_of (map (\<lambda>t. (jt_Name t, tpl_content h t)) (t # ts))"
    using abs set contents by (simp add: map_add_upd_left)
  moreover have "reg_Import clock i (t # ts) r h = (None, r', h')"
    using t(3) c imp by (simp add: reg_Get_def)
  ultimately show ?case by blast
qed

lemma map_of_go_range: "iter_order m ord \<Longrightarrow> map_of (go_range m ord) = m"
proof -
  have "map_of (go_range m ks) k = (if k \<in> set ks then m k else None)" for ks k
    by (induction ks) (auto split: option.splits)
  then show "iter_order m ord \<Longrightarrow> map_of (go_range m ord) = m" by (auto simp: iter_order_def fun_eq_iff domIff)
qed

lemma content_fields: "jt_Name (fst (tpl_content h t)) = jt_Name t" "jt_Validate (fst (tpl_content h t)) = jt_Validate t"
  by (simp_all add: tpl_content_def jt_Validate_def)

text \<open>The templates of an export, imported into an empty registry, give the contents of the
  exported registry: every name, every field and every label, with new IDs and times only.\<close>

lemma import_of_export:
  assumes "reg_inv r h" "iter_order (tr_templates r) ord" "int (reg_Len r) \<le> i64_max"
  shows "\<exists>ts h1 r' h'. reg_Export ord r h = (ts, r, h1) \<and> reg_Import clock 0 ts reg_New h1 = (None, r', h') \<and>
    reg_abs r' h' = reg_abs r h"
proof -
  obtain ts r1 h1 where l1: "reg_Export ord r h = (ts, r1, h1)" by (metis prod_cases3)
  let ?nts = "go_range (tr_templates r) ord"
  note e = List_reads [OF l1 [unfolded reg_Export_def] reads_only_None assms(1)]
  have c: "map (tpl_content h1) ts = map (tpl_content h) (map snd ?nts)"
    and tok: "\<forall>t \<in> set ts. tpl_ok h1 t" and l: "reg_Export ord r h = (ts, r, h1)" using e l1 by simp_all
  have names: "map jt_Name ts = map fst ?nts"
  proof -
    have "map jt_Name ts = map (jt_Name \<circ> fst) (map (tpl_content h1) ts)" by (simp add: content_fields comp_def)
    also have "\<dots> = map jt_Name (map snd ?nts)" unfolding c by (simp add: content_fields comp_def)
    also have "\<dots> = map fst ?nts" using assms(1) by (auto simp: set_go_range reg_inv_tpl)
    finally show ?thesis .
  qed
  have valid: "jt_Validate t = None" if "t \<in> set ts" for t
  proof -
    have "tpl_content h1 t \<in> set (map (tpl_content h) (map snd ?nts))" using that c by (metis image_eqI set_map)
    then obtain n u where "tr_templates r n = Some u" "tpl_content h1 t = tpl_content h u" by (auto simp: set_go_range)
    then show ?thesis using assms(1) reg_inv_tpl content_fields(2) by metis
  qed
  have len: "length ts = reg_Len r"
    using arg_cong [OF c, of length] length_go_range [OF assms(2)] by (simp add: reg_Len_def map_len_def)
  have dist: "distinct (map jt_Name ts)"
    unfolding names using assms(2) by (simp add: distinct_go_range iter_order_def)
  obtain r' h' where imp: "reg_Import clock 0 ts reg_New h1 = (None, r', h')"
    and abs: "reg_abs r' h' = reg_abs reg_New h1 ++ map_of (map (\<lambda>t. (jt_Name t, tpl_content h1 t)) ts)"
  proof -
    have "sys_inv (reg_New, h1, {})" by (simp add: reg_inv_New)
    moreover have "\<forall>t \<in> set ts. tpl_ok h1 t \<and> jt_Validate t = None \<and> tr_templates reg_New (jt_Name t) = None"
      using tok valid by (simp add: reg_New_def)
    moreover have "tr_nextID reg_New + int (length ts) \<le> i64_max" using len assms(3) by (simp add: reg_New_def)
    ultimately show thesis using Import_new [of reg_New h1 ts clock 0, OF _ _ dist] that by blast
  qed
  have "map (\<lambda>t. (jt_Name t, tpl_content h1 t)) ts = zip (map jt_Name ts) (map (tpl_content h1) ts)"
    by (simp add: zip_map_map zip_same_conv_map)
  also have "\<dots> = zip (map fst ?nts) (map (tpl_content h) (map snd ?nts))" unfolding names c ..
  also have "\<dots> = map (\<lambda>(n, t). (n, tpl_content h t)) ?nts"
    by (simp add: zip_map_map zip_same_conv_map case_prod_beta comp_def)
  finally have "reg_abs r' h' = map_of (map (\<lambda>(n, t). (n, tpl_content h t)) ?nts)"
    using abs by (simp add: reg_abs_def [abs_def] reg_New_def)
  also have "\<dots> = reg_abs r h"
    using map_of_go_range [OF assms(2)] by (auto simp: map_of_map reg_abs_def [abs_def] fun_eq_iff)
  finally show ?thesis using l imp by blast
qed

definition demo_registry :: TplRegistry where
  "demo_registry = \<lparr>tr_templates = [''nightly'' \<mapsto> (demo_tpl ''nightly'' (Some 0))\<lparr>jt_ID := 4\<rparr>],
     tr_nameToID = [4 \<mapsto> ''nightly''], tr_nextID = 7\<rparr>"

definition demo_label_heap :: LabelHeap where
  "demo_label_heap = \<lparr>lh_map = \<lambda>_. [''team'' \<mapsto> ''a''], lh_fresh = 1\<rparr>"

lemma import_of_export_witness:
  "\<exists>ts h1 r' h'. reg_Export [''nightly''] demo_registry demo_label_heap = (ts, demo_registry, h1) \<and>
     reg_Import (\<lambda>_. 9) 0 ts reg_New h1 = (None, r', h') \<and>
     reg_abs r' h' = [''nightly'' \<mapsto> (demo_tpl ''nightly'' None, Some [''team'' \<mapsto> ''a''])]"
proof -
  have "reg_inv demo_registry demo_label_heap"
    by (rule reg_invI) (auto simp: demo_registry_def demo_label_heap_def demo_tpl_def jt_Validate_def tpl_ok_def
        split: if_splits)
  moreover have "iter_order (tr_templates demo_registry) [''nightly'']" "int (reg_Len demo_registry) \<le> i64_max"
    by (simp_all add: iter_order_def demo_registry_def reg_Len_def map_len_def i64_max_def)
  moreover have "reg_abs demo_registry demo_label_heap = [''nightly'' \<mapsto> (demo_tpl ''nightly'' None, Some [''team'' \<mapsto> ''a''])]"
    by (auto simp: fun_eq_iff reg_abs_def demo_registry_def tpl_content_def demo_tpl_def demo_label_heap_def)
  ultimately show ?thesis using import_of_export [of demo_registry demo_label_heap "[''nightly'']" "\<lambda>_. 9"] by simp
qed

end
