(* ===== verification/Dao.thy ===== *)
theory Dao
  imports Job_Model Complex_Main
begin

text \<open>
  \<open>internal/dao\<close>: the queries of the data-access layer. GORM and MySQL are not part of the repository, so
  the database is a state of any type \<open>'db\<close> and what GORM does on one table is a record \<open>gorm\<close> of
  functions on it; a DAO method is the call it makes, with the conditions, orders, offsets and limits it
  writes out (\<open>query\<close>). A joined table is a table of pairs. What the services rely on is stated where
  it is used: \<open>creates_with\<close> is GORM's documented treatment of the \<open>default\<close> tags of a struct,
  \<open>counts_rows\<close> is what \<open>COUNT\<close> with a condition counts. Strings are compared as in a case-sensitive
  collation.
\<close>

section \<open>The database interface\<close>

datatype db_error = RecordNotFound | DbErr string

fun db_text :: "db_error \<Rightarrow> string" where
  "db_text RecordNotFound = ''record not found''"
| "db_text (DbErr s) = s"

datatype 'r row_order = NoOrder | Asc "'r \<Rightarrow> int" | Desc "'r \<Rightarrow> int"

record 'r db_query =
  qy_where :: "'r \<Rightarrow> bool"
  qy_order :: "'r row_order"
  qy_offset :: "int option"
  qy_limit :: "int option"

definition find_all :: "('r \<Rightarrow> bool) \<Rightarrow> 'r row_order \<Rightarrow> 'r db_query" where
  "find_all p ord = \<lparr>qy_where = p, qy_order = ord, qy_offset = None, qy_limit = None\<rparr>"

text \<open>\<open>Create\<close> returns the struct as GORM leaves it, with its ID; \<open>Updates\<close> returns the number of rows.\<close>

record ('r, 'db) gorm =
  gm_Create :: "'r \<Rightarrow> 'db \<Rightarrow> (db_error + 'r) \<times> 'db"
  gm_CreateAll :: "'r list \<Rightarrow> 'db \<Rightarrow> (db_error + 'r list) \<times> 'db"
  gm_Save :: "'r \<Rightarrow> 'db \<Rightarrow> db_error option \<times> 'db"
  gm_Delete :: "int \<Rightarrow> 'db \<Rightarrow> db_error option \<times> 'db"
  gm_First :: "('r \<Rightarrow> bool) \<Rightarrow> 'db \<Rightarrow> db_error + 'r"
  gm_Find :: "'r db_query \<Rightarrow> 'db \<Rightarrow> db_error + 'r list"
  gm_Count :: "('r \<Rightarrow> bool) \<Rightarrow> 'db \<Rightarrow> db_error + nat"
  gm_Updates :: "('r \<Rightarrow> bool) \<Rightarrow> ('r \<Rightarrow> 'r) \<Rightarrow> 'db \<Rightarrow> (db_error + nat) \<times> 'db"

definition creates_with :: "('r \<Rightarrow> 'r) \<Rightarrow> (int \<Rightarrow> 'r \<Rightarrow> 'r) \<Rightarrow> ('r, 'db) gorm \<Rightarrow> bool" where
  "creates_with tag_defaults set_id g \<longleftrightarrow>
     (\<forall>r db r' db'. gm_Create g r db = (Inr r', db') \<longrightarrow> (\<exists>i. r' = set_id i (tag_defaults r)))"

definition counts_rows :: "'r list \<Rightarrow> ('r, 'db) gorm \<Rightarrow> 'db \<Rightarrow> bool" where
  "counts_rows rows g db \<longleftrightarrow> (\<forall>p n. gm_Count g p db = Inr n \<longrightarrow> n = length (filter p rows))"

definition finds_first :: "('db \<Rightarrow> 'r list) \<Rightarrow> ('r, 'db) gorm \<Rightarrow> bool" where
  "finds_first rows g \<longleftrightarrow>
     (\<forall>p db. gm_First g p db = (case filter p (rows db) of [] \<Rightarrow> Inl RecordNotFound | r # rs \<Rightarrow> Inr r))"

definition updates_all :: "('db \<Rightarrow> 'r list) \<Rightarrow> ('r, 'db) gorm \<Rightarrow> bool" where
  "updates_all rows g \<longleftrightarrow> (\<forall>p f db. \<exists>n db'. gm_Updates g p f db = (Inr n, db') \<and>
     rows db' = map (\<lambda>r. if p r then f r else r) (rows db))"

text \<open>\<open>Save\<close> of GORM writes all fields of the row with that ID, and a statement that fails changes nothing.\<close>

definition with_id :: "('r \<Rightarrow> int) \<Rightarrow> int \<Rightarrow> 'r list \<Rightarrow> 'r list" where
  "with_id row_id i rs = filter (\<lambda>q. row_id q = i) rs"

definition saves_row :: "('db \<Rightarrow> 'r list) \<Rightarrow> ('r \<Rightarrow> int) \<Rightarrow> ('r, 'db) gorm \<Rightarrow> bool" where
  "saves_row rows row_id g \<longleftrightarrow> (\<forall>r db err db' i. gm_Save g r db = (err, db') \<longrightarrow>
     (i \<noteq> row_id r \<or> err \<noteq> None \<longrightarrow> with_id row_id i (rows db') = with_id row_id i (rows db)) \<and>
     (err = None \<and> with_id row_id (row_id r) (rows db) \<noteq> [] \<longrightarrow>
        with_id row_id (row_id r) (rows db') = map (\<lambda>_. r) (with_id row_id (row_id r) (rows db))))"

text \<open>\<open>sys_executor\<close> in \<open>internal/model/executor.go\<close> has two columns more than in \<open>model.go\<close>.\<close>

record ExecutorRow = Executor +
  xr_CPU :: real
  xr_Memory :: real

record 'db tables =
  tb_jobs :: "(JobRow, 'db) gorm"
  tb_logs :: "(JobLog, 'db) gorm"
  tb_log_jobs :: "(JobLog \<times> JobRow, 'db) gorm"
  tb_details :: "(JobLogDetail, 'db) gorm"
  tb_executors :: "(ExecutorRow, 'db) gorm"
  tb_users :: "(SysUser, 'db) gorm"
  tb_like :: "string \<Rightarrow> string \<Rightarrow> bool"

fun err_only :: "(db_error + 'a) \<times> 'db \<Rightarrow> db_error option \<times> 'db" where
  "err_only (Inl e, db) = (Some e, db)"
| "err_only (Inr x, db) = (None, db)"

section \<open>job\_info\<close>

text \<open>The \<open>default\<close> tags of \<open>model.JobInfo\<close> that differ from the zero value of their field.\<close>

definition job_tag_defaults :: "JobRow \<Rightarrow> JobRow" where
  "job_tag_defaults j = j\<lparr>
     ji_JobType := (if ji_JobType j = 0 then 1 else ji_JobType j),
     ji_ExecuteType := (if ji_ExecuteType j = [] then ''BEAN'' else ji_ExecuteType j),
     ji_RouteStrategy := (if ji_RouteStrategy j = [] then ''ROUND_ROBIN'' else ji_RouteStrategy j),
     ji_BlockStrategy := (if ji_BlockStrategy j = 0 then 1 else ji_BlockStrategy j),
     ji_MisfireStrategy := (if ji_MisfireStrategy j = 0 then 1 else ji_MisfireStrategy j),
     ji_ShardingNum := (if ji_ShardingNum j = 0 then 1 else ji_ShardingNum j),
     ji_Status := (if ji_Status j = 0 then 1 else ji_Status j),
     ji_CreateUser := (if ji_CreateUser j = [] then ''admin'' else ji_CreateUser j)\<rparr>"

definition jobs_Create :: "'db tables \<Rightarrow> JobRow \<Rightarrow> 'db \<Rightarrow> (db_error + JobRow) \<times> 'db" where
  "jobs_Create tb j db = gm_Create (tb_jobs tb) j db"

definition jobs_Update :: "'db tables \<Rightarrow> JobRow \<Rightarrow> 'db \<Rightarrow> db_error option \<times> 'db" where
  "jobs_Update tb j db = gm_Save (tb_jobs tb) j db"

definition jobs_Delete :: "'db tables \<Rightarrow> int \<Rightarrow> 'db \<Rightarrow> db_error option \<times> 'db" where
  "jobs_Delete tb i db = gm_Delete (tb_jobs tb) i db"

definition jobs_FindByID :: "'db tables \<Rightarrow> int \<Rightarrow> 'db \<Rightarrow> db_error + JobRow" where
  "jobs_FindByID tb i db = gm_First (tb_jobs tb) (\<lambda>j. ji_ID j = i) db"

definition jobs_UpdateStatus :: "'db tables \<Rightarrow> int \<Rightarrow> job_status \<Rightarrow> 'db \<Rightarrow> db_error option \<times> 'db" where
  "jobs_UpdateStatus tb i status db =
     err_only (gm_Updates (tb_jobs tb) (\<lambda>j. ji_ID j = i) (\<lambda>j. j\<lparr>ji_Status := status\<rparr>) db)"

definition jobs_UpdateNextTriggerTime :: "'db tables \<Rightarrow> int \<Rightarrow> time \<Rightarrow> time \<Rightarrow> 'db \<Rightarrow> db_error option \<times> 'db" where
  "jobs_UpdateNextTriggerTime tb i nxt lst db =
     err_only (gm_Updates (tb_jobs tb) (\<lambda>j. ji_ID j = i)
       (\<lambda>j. j\<lparr>ji_NextTriggerTime := Some nxt, ji_LastTriggerTime := Some lst\<rparr>) db)"

definition null_time :: "time option \<Rightarrow> int" where "null_time t = (case t of Some x \<Rightarrow> x | None \<Rightarrow> 0)"

definition jobs_ListPendingJobs :: "'db tables \<Rightarrow> time \<Rightarrow> int \<Rightarrow> 'db \<Rightarrow> db_error + JobRow list" where
  "jobs_ListPendingJobs tb maxTime limit db =
     gm_Find (tb_jobs tb)
       \<lparr>qy_where = (\<lambda>j. ji_Status j = JobRun \<and> (\<exists>t. ji_NextTriggerTime j = Some t \<and> t \<le> maxTime)),
        qy_order = Asc (\<lambda>j. null_time (ji_NextTriggerTime j)), qy_offset = None, qy_limit = Some limit\<rparr> db"

record JobInfoQuery =
  jq_ExecutorApp :: string
  jq_JobName :: string
  jq_Status :: "job_status option"
  jq_Page :: int
  jq_PageSize :: int

definition jobs_where :: "(string \<Rightarrow> string \<Rightarrow> bool) \<Rightarrow> JobInfoQuery \<Rightarrow> JobRow \<Rightarrow> bool" where
  "jobs_where like q j \<longleftrightarrow>
     (jq_ExecutorApp q \<noteq> [] \<longrightarrow> ji_ExecutorApp j = jq_ExecutorApp q) \<and>
     (jq_JobName q \<noteq> [] \<longrightarrow> like (ji_JobName j) (''%'' @ jq_JobName q @ ''%'')) \<and>
     (case jq_Status q of None \<Rightarrow> True | Some st \<Rightarrow> ji_Status j = st)"

definition jobs_List :: "'db tables \<Rightarrow> JobInfoQuery \<Rightarrow> 'db \<Rightarrow> db_error + (JobRow list \<times> nat)" where
  "jobs_List tb q db =
     (case gm_Count (tb_jobs tb) (jobs_where (tb_like tb) q) db of
        Inl err \<Rightarrow> Inl err
      | Inr cnt \<Rightarrow>
          (case gm_Find (tb_jobs tb)
             \<lparr>qy_where = jobs_where (tb_like tb) q, qy_order = Desc ji_ID,
              qy_offset = Some (i64 ((jq_Page q - 1) * jq_PageSize q)), qy_limit = Some (jq_PageSize q)\<rparr> db of
             Inl err \<Rightarrow> Inl err
           | Inr rows \<Rightarrow> Inr (rows, cnt)))"

section \<open>job\_log\<close>

definition logs_Create :: "'db tables \<Rightarrow> JobLog \<Rightarrow> 'db \<Rightarrow> (db_error + JobLog) \<times> 'db" where
  "logs_Create tb l db = gm_Create (tb_logs tb) l db"

definition logs_CreateBatch :: "'db tables \<Rightarrow> JobLog list \<Rightarrow> 'db \<Rightarrow> (db_error + JobLog list) \<times> 'db" where
  "logs_CreateBatch tb ls db = (if ls = [] then (Inr [], db) else gm_CreateAll (tb_logs tb) ls db)"

definition logs_UpdateResult :: "'db tables \<Rightarrow> int \<Rightarrow> log_status \<Rightarrow> string \<Rightarrow> time \<Rightarrow> time \<Rightarrow> 'db \<Rightarrow> db_error option \<times> 'db" where
  "logs_UpdateResult tb i status errMsg start fin db =
     (let durMs = go_div (time_sub fin start) millisecond
      in err_only (gm_Updates (tb_logs tb) (\<lambda>l. jl_ID l = i)
           (\<lambda>l. l\<lparr>jl_Status := status, jl_ErrorMsg := errMsg, jl_StartTime := Some start,
                  jl_EndTime := Some fin, jl_DurationMs := durMs\<rparr>) db))"

definition logs_FindByID :: "'db tables \<Rightarrow> int \<Rightarrow> 'db \<Rightarrow> db_error + JobLog" where
  "logs_FindByID tb i db = gm_First (tb_logs tb) (\<lambda>l. jl_ID l = i) db"

definition logs_ListByJob :: "'db tables \<Rightarrow> int \<Rightarrow> int \<Rightarrow> int \<Rightarrow> 'db \<Rightarrow> db_error + (JobLog list \<times> nat)" where
  "logs_ListByJob tb jobID page pageSize db =
     (case gm_Count (tb_logs tb) (\<lambda>l. jl_JobID l = jobID) db of
        Inl err \<Rightarrow> Inl err
      | Inr cnt \<Rightarrow>
          (case gm_Find (tb_logs tb)
             \<lparr>qy_where = (\<lambda>l. jl_JobID l = jobID), qy_order = Desc jl_TriggerTime,
              qy_offset = Some (i64 ((page - 1) * pageSize)), qy_limit = Some pageSize\<rparr> db of
             Inl err \<Rightarrow> Inl err
           | Inr rows \<Rightarrow> Inr (rows, cnt)))"

definition logs_ListRunning :: "'db tables \<Rightarrow> 'db \<Rightarrow> db_error + JobLog list" where
  "logs_ListRunning tb db = gm_Find (tb_logs tb) (find_all (\<lambda>l. jl_Status l = LogRunning) NoOrder) db"

definition logs_CreateDetail :: "'db tables \<Rightarrow> JobLogDetail \<Rightarrow> 'db \<Rightarrow> (db_error + JobLogDetail) \<times> 'db" where
  "logs_CreateDetail tb d db = gm_Create (tb_details tb) d db"

definition logs_FindDetail :: "'db tables \<Rightarrow> int \<Rightarrow> 'db \<Rightarrow> db_error + JobLogDetail" where
  "logs_FindDetail tb logID db = gm_First (tb_details tb) (\<lambda>d. jd_LogID d = logID) db"

definition retryable :: "time \<Rightarrow> JobLog \<times> JobRow \<Rightarrow> bool" where
  "retryable cutoff lj \<longleftrightarrow> jl_Status (fst lj) = LogFail \<and> jl_TriggerType (fst lj) \<noteq> TriggerRetry \<and>
     ji_RetryCount (snd lj) > 0 \<and> jl_TriggerTime (fst lj) > cutoff"

definition logs_ListRetryable :: "'db tables \<Rightarrow> time \<Rightarrow> int \<Rightarrow> 'db \<Rightarrow> db_error + JobLog list" where
  "logs_ListRetryable tb now limit db =
     map_sum id (map fst) (gm_Find (tb_log_jobs tb)
       \<lparr>qy_where = (\<lambda>lj. ji_ID (snd lj) = jl_JobID (fst lj) \<and> retryable (now - 5 * minute) lj),
        qy_order = Desc (\<lambda>lj. jl_ID (fst lj)), qy_offset = None, qy_limit = Some limit\<rparr> db)"

definition logs_CountRetries :: "'db tables \<Rightarrow> int \<Rightarrow> time \<Rightarrow> 'db \<Rightarrow> db_error + nat" where
  "logs_CountRetries tb jobID triggerTime db =
     gm_Count (tb_logs tb) (\<lambda>l. jl_JobID l = jobID \<and> jl_TriggerType l = TriggerRetry \<and> jl_TriggerTime l \<ge> triggerTime) db"

section \<open>sys\_executor\<close>

definition execs_Create :: "'db tables \<Rightarrow> ExecutorRow \<Rightarrow> 'db \<Rightarrow> (db_error + ExecutorRow) \<times> 'db" where
  "execs_Create tb e db = gm_Create (tb_executors tb) e db"

definition execs_Update :: "'db tables \<Rightarrow> ExecutorRow \<Rightarrow> 'db \<Rightarrow> db_error option \<times> 'db" where
  "execs_Update tb e db = gm_Save (tb_executors tb) e db"

definition execs_Delete :: "'db tables \<Rightarrow> int \<Rightarrow> 'db \<Rightarrow> db_error option \<times> 'db" where
  "execs_Delete tb i db = gm_Delete (tb_executors tb) i db"

definition execs_FindByID :: "'db tables \<Rightarrow> int \<Rightarrow> 'db \<Rightarrow> db_error + ExecutorRow" where
  "execs_FindByID tb i db = gm_First (tb_executors tb) (\<lambda>e. ex_ID e = i) db"

definition execs_FindByAppAndAddress :: "'db tables \<Rightarrow> string \<Rightarrow> string \<Rightarrow> 'db \<Rightarrow> db_error + ExecutorRow" where
  "execs_FindByAppAndAddress tb appName address db =
     gm_First (tb_executors tb) (\<lambda>e. ex_AppName e = appName \<and> ex_Address e = address) db"

definition execs_ListByApp :: "'db tables \<Rightarrow> string \<Rightarrow> 'db \<Rightarrow> db_error + ExecutorRow list" where
  "execs_ListByApp tb appName db =
     gm_Find (tb_executors tb) (find_all (\<lambda>e. ex_AppName e = appName \<and> ex_Status e = ExecutorOnline) (Asc ex_ID)) db"

definition execs_ListOnline :: "'db tables \<Rightarrow> 'db \<Rightarrow> db_error + ExecutorRow list" where
  "execs_ListOnline tb db = gm_Find (tb_executors tb) (find_all (\<lambda>e. ex_Status e = ExecutorOnline) NoOrder) db"

definition execs_UpdateHeartbeat :: "'db tables \<Rightarrow> int \<Rightarrow> time \<Rightarrow> 'db \<Rightarrow> db_error option \<times> 'db" where
  "execs_UpdateHeartbeat tb i t db =
     err_only (gm_Updates (tb_executors tb) (\<lambda>e. ex_ID e = i)
       (\<lambda>e. e\<lparr>ex_HeartbeatTime := Some t, ex_Status := ExecutorOnline\<rparr>) db)"

definition execs_UpdateStatus :: "'db tables \<Rightarrow> int \<Rightarrow> executor_status \<Rightarrow> 'db \<Rightarrow> db_error option \<times> 'db" where
  "execs_UpdateStatus tb i status db =
     err_only (gm_Updates (tb_executors tb) (\<lambda>e. ex_ID e = i) (\<lambda>e. e\<lparr>ex_Status := status\<rparr>) db)"

definition execs_MarkOfflineTimeout :: "'db tables \<Rightarrow> time \<Rightarrow> duration \<Rightarrow> 'db \<Rightarrow> (db_error + nat) \<times> 'db" where
  "execs_MarkOfflineTimeout tb now timeout db =
     gm_Updates (tb_executors tb)
       (\<lambda>e. ex_Status e = ExecutorOnline \<and> (\<exists>t. ex_HeartbeatTime e = Some t \<and> t < now - timeout))
       (\<lambda>e. e\<lparr>ex_Status := ExecutorOffline\<rparr>) db"

definition execs_List :: "'db tables \<Rightarrow> int \<Rightarrow> int \<Rightarrow> 'db \<Rightarrow> db_error + (ExecutorRow list \<times> nat)" where
  "execs_List tb page pageSize db =
     (case gm_Count (tb_executors tb) (\<lambda>e. True) db of
        Inl err \<Rightarrow> Inl err
      | Inr cnt \<Rightarrow>
          (case gm_Find (tb_executors tb)
             \<lparr>qy_where = (\<lambda>e. True), qy_order = Desc ex_ID,
              qy_offset = Some (i64 ((page - 1) * pageSize)), qy_limit = Some pageSize\<rparr> db of
             Inl err \<Rightarrow> Inl err
           | Inr rows \<Rightarrow> Inr (rows, cnt)))"

section \<open>sys\_user\<close>

definition users_FindByUsername :: "'db tables \<Rightarrow> string \<Rightarrow> 'db \<Rightarrow> db_error + SysUser" where
  "users_FindByUsername tb username db = gm_First (tb_users tb) (\<lambda>u. su_Username u = username) db"

definition users_FindByID :: "'db tables \<Rightarrow> int \<Rightarrow> 'db \<Rightarrow> db_error + SysUser" where
  "users_FindByID tb i db = gm_First (tb_users tb) (\<lambda>u. su_ID u = i) db"

definition users_Create :: "'db tables \<Rightarrow> SysUser \<Rightarrow> 'db \<Rightarrow> (db_error + SysUser) \<times> 'db" where
  "users_Create tb u db = gm_Create (tb_users tb) u db"

definition users_Update :: "'db tables \<Rightarrow> SysUser \<Rightarrow> 'db \<Rightarrow> db_error option \<times> 'db" where
  "users_Update tb u db = gm_Save (tb_users tb) u db"

definition users_UpdateLastLogin :: "'db tables \<Rightarrow> int \<Rightarrow> time \<Rightarrow> 'db \<Rightarrow> db_error option \<times> 'db" where
  "users_UpdateLastLogin tb i t db =
     err_only (gm_Updates (tb_users tb) (\<lambda>u. su_ID u = i) (\<lambda>u. u\<lparr>su_LastLogin := Some t\<rparr>) db)"

end
