(* ===== verification/Job_Service.thy ===== *)
theory Job_Service
  imports Lifecycle Dao XError Utils
begin

text \<open>
  \<open>internal/service/job_service.go\<close>, \<open>retry_service.go\<close> and \<open>child_job_service.go\<close>: the operations the HTTP
  handlers, the executor callbacks and the retry ticker call. A service holds the database and the
  scheduler (\<open>sv_db\<close>, \<open>sv_sched\<close>); timers started by \<open>time.AfterFunc\<close> are in \<open>sv_timers\<close> until they fire.
\<close>

section \<open>Errors as text\<close>

fun sched_error_text :: "sched_error \<Rightarrow> string" where
  "sched_error_text (ErrFind i err) = ''scheduler: job '' @ itoa i @ '' not found: '' @ err"
| "sched_error_text (ErrCron expr err) = ''invalid cron expression '' @ go_quote expr @ '': '' @ err"
| "sched_error_text (ErrStore (JobNotFound i)) = ''jobstore: job '' @ itoa i @ '' not found''"
| "sched_error_text ErrWorkerChannelFull = ''scheduler: worker channel full''"

definition wrap_db :: "Code \<Rightarrow> db_error \<Rightarrow> string list \<Rightarrow> go_error" where
  "wrap_db code err msg = XErr (xerr_Wrap code (Some (db_text err)) msg)"

text \<open>What every operation answers when \<open>FindByID\<close> fails.\<close>

definition find_error :: "Code \<Rightarrow> db_error \<Rightarrow> go_error" where
  "find_error notFound err =
     (if err = RecordNotFound then XErr (xerr_New notFound []) else wrap_db CodeInternalServer err [])"

section \<open>State\<close>

record ('c, 't, 'db) Service =
  sv_sched :: "('c, 't) Scheduler"
  sv_db :: 'db
  sv_timers :: "(duration \<times> int \<times> string) list"

text \<open>Run a write of the database.\<close>

definition on_db :: "('db \<Rightarrow> 'a \<times> 'db) \<Rightarrow> ('c, 't, 'db) Service \<Rightarrow> 'a \<times> ('c, 't, 'db) Service" where
  "on_db f s = (let (r, db) = f (sv_db s) in (r, s\<lparr>sv_db := db\<rparr>))"

section \<open>Creating and updating jobs\<close>

record CreateJobRequest =
  cr_ExecutorID :: int
  cr_ExecutorApp :: string
  cr_JobName :: string
  cr_JobDesc :: string
  cr_JobType :: job_type
  cr_CronExpression :: string
  cr_ExecuteType :: execute_type
  cr_ExecuteParam :: string
  cr_ExecuteHandler :: string
  cr_RouteStrategy :: route_strategy
  cr_BlockStrategy :: block_strategy
  cr_MisfireStrategy :: misfire_strategy
  cr_Timeout :: int
  cr_RetryCount :: int
  cr_RetryInterval :: int
  cr_ShardingNum :: int
  cr_AlarmEmail :: string
  cr_AlarmWebhook :: string
  cr_CreateUser :: string

definition svc_max :: "int \<Rightarrow> int \<Rightarrow> int" where "svc_max a b = (if a > b then a else b)"

definition request_next :: "('c, 't) libs \<Rightarrow> time \<Rightarrow> string \<Rightarrow> go_error + time option" where
  "request_next lb now cron =
     (if cron \<noteq> [] then
        (case CalcNextTriggerTime lb now cron of
           Inl err \<Rightarrow> Inl (XErr (xerr_Wrap CodeCronExprInvalid (Some (sched_error_text err)) []))
         | Inr t \<Rightarrow> Inr (Some t))
      else Inr None)"

definition job_of_request :: "CreateJobRequest \<Rightarrow> time option \<Rightarrow> JobRow" where
  "job_of_request req nextTrigger =
     \<lparr>ji_ID = 0, ji_ExecutorID = cr_ExecutorID req, ji_ExecutorApp = cr_ExecutorApp req,
      ji_JobName = cr_JobName req, ji_JobDesc = cr_JobDesc req, ji_JobType = cr_JobType req,
      ji_CronExpression = cr_CronExpression req, ji_ExecuteType = cr_ExecuteType req,
      ji_ExecuteParam = cr_ExecuteParam req, ji_ExecuteHandler = cr_ExecuteHandler req,
      ji_RouteStrategy = cr_RouteStrategy req, ji_BlockStrategy = cr_BlockStrategy req,
      ji_MisfireStrategy = cr_MisfireStrategy req, ji_Timeout = cr_Timeout req,
      ji_RetryCount = cr_RetryCount req, ji_RetryInterval = cr_RetryInterval req,
      ji_ShardingNum = svc_max 1 (cr_ShardingNum req), ji_AlarmEmail = cr_AlarmEmail req,
      ji_AlarmWebhook = cr_AlarmWebhook req, ji_Status = JobStop, ji_NextTriggerTime = nextTrigger,
      ji_LastTriggerTime = None, ji_CreateUser = cr_CreateUser req,
      jr_ChildJobIDs = [], jr_GroupID = 0, jr_TriggerCount = 0\<rparr>"

definition sensible_defaults :: "JobRow \<Rightarrow> JobRow" where
  "sensible_defaults job =
     (let job = (if ji_ExecuteType job = [] then job\<lparr>ji_ExecuteType := ExecuteTypeBean\<rparr> else job);
          job = (if ji_RouteStrategy job = [] then job\<lparr>ji_RouteStrategy := RouteRoundRobin\<rparr> else job);
          job = (if ji_BlockStrategy job = 0 then job\<lparr>ji_BlockStrategy := BlockSerial\<rparr> else job);
          job = (if ji_MisfireStrategy job = 0 then job\<lparr>ji_MisfireStrategy := MisfireIgnore\<rparr> else job)
      in if ji_JobType job = 0 then job\<lparr>ji_JobType := JobTypeCron\<rparr> else job)"

definition svc_CreateJob :: "('c, 't) libs \<Rightarrow> 'db tables \<Rightarrow> time \<Rightarrow> CreateJobRequest \<Rightarrow> ('c, 't, 'db) Service \<Rightarrow>
    (go_error + JobRow) \<times> ('c, 't, 'db) Service" where
  "svc_CreateJob lb tb now req s =
     (case request_next lb now (cr_CronExpression req) of
        Inl err \<Rightarrow> (Inl err, s)
      | Inr nextTrigger \<Rightarrow>
          (case on_db (jobs_Create tb (sensible_defaults (job_of_request req nextTrigger))) s of
             (Inl err, s1) \<Rightarrow> (Inl (wrap_db CodeInternalServer err [''create job failed'']), s1)
           | (Inr job, s1) \<Rightarrow> (Inr job, s1)))"

record UpdateJobRequest =
  ur_ID :: int
  ur_JobName :: string
  ur_JobDesc :: string
  ur_CronExpression :: string
  ur_ExecuteType :: execute_type
  ur_ExecuteParam :: string
  ur_ExecuteHandler :: string
  ur_RouteStrategy :: route_strategy
  ur_BlockStrategy :: block_strategy
  ur_MisfireStrategy :: misfire_strategy
  ur_Timeout :: int
  ur_RetryCount :: int
  ur_RetryInterval :: int
  ur_AlarmEmail :: string
  ur_AlarmWebhook :: string

definition apply_update :: "UpdateJobRequest \<Rightarrow> time option \<Rightarrow> JobRow \<Rightarrow> JobRow" where
  "apply_update req nextTrigger job =
     (let job = (if ur_JobName req \<noteq> [] then job\<lparr>ji_JobName := ur_JobName req\<rparr> else job);
          job = job\<lparr>ji_JobDesc := ur_JobDesc req\<rparr>;
          job = (if ur_CronExpression req \<noteq> []
                 then job\<lparr>ji_CronExpression := ur_CronExpression req, ji_NextTriggerTime := nextTrigger\<rparr> else job);
          job = (if ur_ExecuteType req \<noteq> [] then job\<lparr>ji_ExecuteType := ur_ExecuteType req\<rparr> else job);
          job = (if ur_ExecuteHandler req \<noteq> [] then job\<lparr>ji_ExecuteHandler := ur_ExecuteHandler req\<rparr> else job);
          job = job\<lparr>ji_ExecuteParam := ur_ExecuteParam req\<rparr>;
          job = (if ur_RouteStrategy req \<noteq> [] then job\<lparr>ji_RouteStrategy := ur_RouteStrategy req\<rparr> else job);
          job = (if ur_BlockStrategy req \<noteq> 0 then job\<lparr>ji_BlockStrategy := ur_BlockStrategy req\<rparr> else job);
          job = (if ur_MisfireStrategy req \<noteq> 0 then job\<lparr>ji_MisfireStrategy := ur_MisfireStrategy req\<rparr> else job)
      in job\<lparr>ji_Timeout := ur_Timeout req, ji_RetryCount := ur_RetryCount req,
             ji_RetryInterval := ur_RetryInterval req, ji_AlarmEmail := ur_AlarmEmail req,
             ji_AlarmWebhook := ur_AlarmWebhook req\<rparr>)"

definition svc_UpdateJob :: "('c, 't) libs \<Rightarrow> 'db tables \<Rightarrow> time \<Rightarrow> UpdateJobRequest \<Rightarrow> ('c, 't, 'db) Service \<Rightarrow>
    (go_error + JobRow) \<times> ('c, 't, 'db) Service" where
  "svc_UpdateJob lb tb now req s =
     (case jobs_FindByID tb (ur_ID req) (sv_db s) of
        Inl err \<Rightarrow> (Inl (find_error CodeJobNotFound err), s)
      | Inr job \<Rightarrow>
          (case request_next lb now (ur_CronExpression req) of
             Inl err \<Rightarrow> (Inl err, s)
           | Inr nextTrigger \<Rightarrow>
               let job = apply_update req nextTrigger job
               in case on_db (jobs_Update tb job) s of
                    (Some err, s1) \<Rightarrow> (Inl (wrap_db CodeInternalServer err [''update job failed'']), s1)
                  | (None, s1) \<Rightarrow> (Inr job, s1)))"

definition svc_DeleteJob :: "'db tables \<Rightarrow> int \<Rightarrow> ('c, 't, 'db) Service \<Rightarrow> go_error option \<times> ('c, 't, 'db) Service" where
  "svc_DeleteJob tb i s =
     (case jobs_FindByID tb i (sv_db s) of
        Inl err \<Rightarrow> (Some (find_error CodeJobNotFound err), s)
      | Inr job \<Rightarrow>
          (case on_db (jobs_Delete tb i) s of
             (Some err, s1) \<Rightarrow> (Some (wrap_db CodeInternalServer err [''delete job failed'']), s1)
           | (None, s1) \<Rightarrow> (None, s1)))"

definition svc_GetJob :: "'db tables \<Rightarrow> int \<Rightarrow> ('c, 't, 'db) Service \<Rightarrow> go_error + JobRow" where
  "svc_GetJob tb i s =
     (case jobs_FindByID tb i (sv_db s) of Inl err \<Rightarrow> Inl (find_error CodeJobNotFound err) | Inr job \<Rightarrow> Inr job)"

definition svc_ListJobs :: "'db tables \<Rightarrow> JobInfoQuery \<Rightarrow> ('c, 't, 'db) Service \<Rightarrow> db_error + (JobRow list \<times> nat)" where
  "svc_ListJobs tb q s = jobs_List tb q (sv_db s)"

section \<open>Starting, stopping, triggering, killing\<close>

definition svc_StartJob :: "('c, 't) libs \<Rightarrow> 'db tables \<Rightarrow> time \<Rightarrow> int \<Rightarrow> ('c, 't, 'db) Service \<Rightarrow>
    go_error option \<times> ('c, 't, 'db) Service" where
  "svc_StartJob lb tb now i s =
     (case jobs_FindByID tb i (sv_db s) of
        Inl err \<Rightarrow> (Some (find_error CodeJobNotFound err), s)
      | Inr job \<Rightarrow>
          if ji_Status job = JobRun then (Some (XErr (xerr_New CodeJobAlreadyStart [])), s)
          else case request_next lb now (ji_CronExpression job) of
            Inl err \<Rightarrow> (Some err, s)
          | Inr nxt \<Rightarrow>
              (case (if nxt = None then (None, s)
                     else on_db (jobs_Update tb (job\<lparr>ji_NextTriggerTime := nxt\<rparr>)) s) of
                 (Some err, s1) \<Rightarrow> (Some (wrap_db CodeInternalServer err []), s1)
               | (None, s1) \<Rightarrow>
                   let (r, s2) = on_db (jobs_UpdateStatus tb i JobRun) s1
                   in (map_option (\<lambda>e. Plain (db_text e)) r, s2)))"

definition svc_StopJob :: "'db tables \<Rightarrow> int \<Rightarrow> ('c, 't, 'db) Service \<Rightarrow> go_error option \<times> ('c, 't, 'db) Service" where
  "svc_StopJob tb i s =
     (case jobs_FindByID tb i (sv_db s) of
        Inl err \<Rightarrow> (Some (find_error CodeJobNotFound err), s)
      | Inr job \<Rightarrow>
          let (r, s1) = on_db (jobs_UpdateStatus tb i JobStop) s
          in (map_option (\<lambda>e. Plain (db_text e)) r, s1))"

text \<open>The scheduler looks the job up in its store first and then through the DAO.\<close>

definition trigger_sched :: "'db tables \<Rightarrow> time \<Rightarrow> int \<Rightarrow> string \<Rightarrow> ('c, 't, 'db) Service \<Rightarrow>
    sched_error option \<times> ('c, 't, 'db) Service" where
  "trigger_sched tb now i param s =
     (let (err, sd) = sched_TriggerJob now (map_sum db_text JobInfo.truncate (jobs_FindByID tb i (sv_db s))) i param (sv_sched s)
      in (err, s\<lparr>sv_sched := sd\<rparr>))"

definition svc_TriggerJob :: "'db tables \<Rightarrow> time \<Rightarrow> int \<Rightarrow> string \<Rightarrow> ('c, 't, 'db) Service \<Rightarrow>
    go_error option \<times> ('c, 't, 'db) Service" where
  "svc_TriggerJob tb now i param s =
     (case trigger_sched tb now i param s of
        (Some err, s1) \<Rightarrow> (Some (XErr (xerr_Wrap CodeJobTriggerFail (Some (sched_error_text err)) [])), s1)
      | (None, s1) \<Rightarrow> (None, s1))"

definition svc_KillJob :: "'db tables \<Rightarrow> network \<Rightarrow> time \<Rightarrow> int \<Rightarrow> ('c, 't, 'db) Service \<Rightarrow>
    go_error option \<times> ('c, 't, 'db) Service" where
  "svc_KillJob tb net now logID s =
     (case logs_FindByID tb logID (sv_db s) of
        Inl err \<Rightarrow> (Some (wrap_db CodeNotFound err [''log not found'']), s)
      | Inr l \<Rightarrow>
          if jl_Status l \<noteq> LogRunning then (Some (XErr (xerr_New CodeInvalidParam [''job is not running''])), s)
          else case client_Kill net (jl_ExecutorAddress l) \<lparr>kr_LogID = logID, kr_JobID = jl_JobID l\<rparr> of
            Some err \<Rightarrow> (Some (XErr (xerr_Wrap CodeJobTriggerFail (Some err) [''kill failed''])), s)
          | None \<Rightarrow>
              let (r, s1) = on_db (logs_UpdateResult tb logID LogKilled ''manually killed'' now now) s
              in (map_option (\<lambda>e. Plain (db_text e)) r, s1))"

definition svc_ListJobLogs :: "'db tables \<Rightarrow> int \<Rightarrow> int \<Rightarrow> int \<Rightarrow> ('c, 't, 'db) Service \<Rightarrow> db_error + (JobLog list \<times> nat)" where
  "svc_ListJobLogs tb jobID page pageSize s = logs_ListByJob tb jobID page pageSize (sv_db s)"

definition svc_GetJobLogDetail :: "'db tables \<Rightarrow> int \<Rightarrow> ('c, 't, 'db) Service \<Rightarrow> db_error + JobLogDetail" where
  "svc_GetJobLogDetail tb logID s = logs_FindDetail tb logID (sv_db s)"

section \<open>Results and child jobs\<close>

fun trigger_children :: "'db tables \<Rightarrow> time \<Rightarrow> int list \<Rightarrow> string \<Rightarrow> ('c, 't, 'db) Service \<Rightarrow> ('c, 't, 'db) Service" where
  "trigger_children tb now [] param s = s"
| "trigger_children tb now (i # ids) param s =
     trigger_children tb now ids param (snd (trigger_sched tb now i param s))"

definition save_detail :: "'db tables \<Rightarrow> int \<Rightarrow> string \<Rightarrow> ('c, 't, 'db) Service \<Rightarrow> ('c, 't, 'db) Service" where
  "save_detail tb logID content s =
     (let d = \<lparr>jd_ID = 0, jd_LogID = logID, jd_JobID = 0, jd_LogContent = content\<rparr>;
          d = (case logs_FindByID tb logID (sv_db s) of Inr l \<Rightarrow> d\<lparr>jd_JobID := jl_JobID l\<rparr> | Inl err \<Rightarrow> d)
      in snd (on_db (logs_CreateDetail tb d) s))"

definition svc_ReportResult :: "'db tables \<Rightarrow> time \<Rightarrow> int \<Rightarrow> log_status \<Rightarrow> string \<Rightarrow> time \<Rightarrow> time \<Rightarrow> string \<Rightarrow>
    ('c, 't, 'db) Service \<Rightarrow> go_error option \<times> ('c, 't, 'db) Service" where
  "svc_ReportResult tb now logID status errMsg start fin content s =
     (case on_db (logs_UpdateResult tb logID status errMsg start fin) s of
        (Some err, s1) \<Rightarrow> (Some (wrap_db CodeInternalServer err [''update log '' @ itoa logID @ '' result failed'']), s1)
      | (None, s1) \<Rightarrow>
          let s2 = (if content \<noteq> [] then save_detail tb logID content s1 else s1)
          in (None,
              if status = LogSuccess then
                (case logs_FindByID tb logID (sv_db s2) of
                   Inl err \<Rightarrow> s2
                 | Inr l \<Rightarrow>
                     (case jobs_FindByID tb (jl_JobID l) (sv_db s2) of
                        Inl err \<Rightarrow> s2
                      | Inr job \<Rightarrow>
                          if jr_ChildJobIDs job \<noteq> []
                          then trigger_children tb now (StringToInt64Slice (jr_ChildJobIDs job)) (jl_ExecuteParam l) s2
                          else s2))
              else s2))"

fun parse_id_parts :: "string list \<Rightarrow> int list" where
  "parse_id_parts [] = []"
| "parse_id_parts (p # ps) =
     (let p = trim_space p
      in if p = [] then parse_id_parts ps
         else case parse_int p of
           Some i \<Rightarrow> if i > 0 then i # parse_id_parts ps else parse_id_parts ps
         | None \<Rightarrow> parse_id_parts ps)"

definition parseIDList :: "string \<Rightarrow> int list" where
  "parseIDList s = parse_id_parts (go_split s '','')"

definition TriggerChildren :: "'db tables \<Rightarrow> time \<Rightarrow> string \<Rightarrow> string \<Rightarrow> ('c, 't, 'db) Service \<Rightarrow> ('c, 't, 'db) Service" where
  "TriggerChildren tb now childJobIDs param s =
     (if childJobIDs = [] then s else trigger_children tb now (parseIDList childJobIDs) param s)"

record ChildJobInfo =
  ci_ID :: int
  ci_JobName :: string
  ci_Status :: int

fun child_infos :: "'db tables \<Rightarrow> int list \<Rightarrow> 'db \<Rightarrow> ChildJobInfo list" where
  "child_infos tb [] db = []"
| "child_infos tb (i # ids) db =
     (case jobs_FindByID tb i db of
        Inl err \<Rightarrow> child_infos tb ids db
      | Inr job \<Rightarrow> \<lparr>ci_ID = ji_ID job, ci_JobName = ji_JobName job, ci_Status = ji_Status job\<rparr> # child_infos tb ids db)"

definition GetChildJobs :: "'db tables \<Rightarrow> string \<Rightarrow> ('c, 't, 'db) Service \<Rightarrow> ChildJobInfo list" where
  "GetChildJobs tb childJobIDs s = child_infos tb (parseIDList childJobIDs) (sv_db s)"

section \<open>Retries\<close>

definition retry_delay :: "int \<Rightarrow> duration" where
  "retry_delay interval = (let delay = i64 (interval * second) in if delay < second then second else delay)"

fun retry_loop :: "'db tables \<Rightarrow> JobLog list \<Rightarrow> ('c, 't, 'db) Service \<Rightarrow> ('c, 't, 'db) Service" where
  "retry_loop tb [] s = s"
| "retry_loop tb (l # ls) s =
     retry_loop tb ls
       (case jobs_FindByID tb (jl_JobID l) (sv_db s) of
          Inl err \<Rightarrow> s
        | Inr job \<Rightarrow>
            if ji_RetryCount job \<le> 0 then s
            else
              let retried = (case logs_CountRetries tb (jl_JobID l) (jl_TriggerTime l) (sv_db s) of Inr n \<Rightarrow> n | Inl err \<Rightarrow> 0)
              in if int retried \<ge> ji_RetryCount job then s
                 else s\<lparr>sv_timers := sv_timers s @ [(retry_delay (ji_RetryInterval job), ji_ID job, jl_ExecuteParam l)]\<rparr>)"

definition retry_Run :: "'db tables \<Rightarrow> time \<Rightarrow> ('c, 't, 'db) Service \<Rightarrow> ('c, 't, 'db) Service" where
  "retry_Run tb now s =
     (case logs_ListRetryable tb now 100 (sv_db s) of Inl err \<Rightarrow> s | Inr logs \<Rightarrow> retry_loop tb logs s)"

definition retry_fire :: "'db tables \<Rightarrow> time \<Rightarrow> duration \<times> int \<times> string \<Rightarrow> ('c, 't, 'db) Service \<Rightarrow> ('c, 't, 'db) Service" where
  "retry_fire tb now timer s =
     (case timer of (delay, i, param) \<Rightarrow>
        snd (trigger_sched tb now i param (s\<lparr>sv_timers := remove1 timer (sv_timers s)\<rparr>)))"

end
