(* ===== verification/List_DB.thy ===== *)
theory List_DB
  imports Dao
begin

text \<open>
  A database whose tables are lists of rows: an instance of the interface of \<open>Dao\<close> on which the
  hypotheses about GORM hold, so that the theorems that have them can be applied to concrete data.
\<close>

record list_db =
  ld_jobs :: "JobRow list"
  ld_logs :: "JobLog list"
  ld_details :: "JobLogDetail list"
  ld_executors :: "ExecutorRow list"
  ld_users :: "SysUser list"

definition row_sort :: "'r row_order \<Rightarrow> 'r list \<Rightarrow> 'r list" where
  "row_sort ord rows = (case ord of NoOrder \<Rightarrow> rows | Asc k \<Rightarrow> sort_key k rows | Desc k \<Rightarrow> rev (sort_key k rows))"

definition list_table :: "('db \<Rightarrow> 'r list) \<Rightarrow> ('r list \<Rightarrow> 'db \<Rightarrow> 'db) \<Rightarrow> ('r \<Rightarrow> int) \<Rightarrow> (int \<Rightarrow> 'r \<Rightarrow> 'r) \<Rightarrow>
    ('r \<Rightarrow> 'r) \<Rightarrow> ('r, 'db) gorm" where
  "list_table rows put row_id set_id dflt =
     \<lparr>gm_Create = (\<lambda>r db. let r' = set_id (1 + foldr max (map row_id (rows db)) 0) (dflt r)
        in (Inr r', put (rows db @ [r']) db)),
      gm_CreateAll = (\<lambda>rs db. let i = 1 + foldr max (map row_id (rows db)) 0;
          rs' = map (\<lambda>(k, r). set_id (i + int k) (dflt r)) (enumerate 0 rs)
        in (Inr rs', put (rows db @ rs') db)),
      gm_Save = (\<lambda>r db. (None, put (map (\<lambda>q. if row_id q = row_id r then r else q) (rows db)) db)),
      gm_Delete = (\<lambda>i db. (None, put (filter (\<lambda>q. row_id q \<noteq> i) (rows db)) db)),
      gm_First = (\<lambda>p db. case filter p (rows db) of [] \<Rightarrow> Inl RecordNotFound | r # rs \<Rightarrow> Inr r),
      gm_Find = (\<lambda>q db. let rs = row_sort (qy_order q) (filter (qy_where q) (rows db));
          rs = (case qy_offset q of None \<Rightarrow> rs | Some n \<Rightarrow> drop (nat n) rs)
        in Inr (case qy_limit q of None \<Rightarrow> rs | Some n \<Rightarrow> if n < 0 then rs else take (nat n) rs)),
      gm_Count = (\<lambda>p db. Inr (length (filter p (rows db)))),
      gm_Updates = (\<lambda>p f db. (Inr (length (filter p (rows db))), put (map (\<lambda>r. if p r then f r else r) (rows db)) db))\<rparr>"

definition list_tables :: "list_db tables" where
  "list_tables =
     \<lparr>tb_jobs = list_table ld_jobs (\<lambda>r. ld_jobs_update (\<lambda>_. r)) ji_ID (\<lambda>i j. j\<lparr>ji_ID := i\<rparr>) job_tag_defaults,
      tb_logs = list_table ld_logs (\<lambda>r. ld_logs_update (\<lambda>_. r)) jl_ID (\<lambda>i l. l\<lparr>jl_ID := i\<rparr>) id,
      tb_log_jobs = list_table (\<lambda>db. concat (map (\<lambda>l. map (Pair l) (ld_jobs db)) (ld_logs db))) (\<lambda>r db. db)
        (\<lambda>(l, j). jl_ID l) (\<lambda>i r. r) id,
      tb_details = list_table ld_details (\<lambda>r. ld_details_update (\<lambda>_. r)) jd_ID (\<lambda>i d. d\<lparr>jd_ID := i\<rparr>) id,
      tb_executors = list_table ld_executors (\<lambda>r. ld_executors_update (\<lambda>_. r)) ex_ID (\<lambda>i e. e\<lparr>ex_ID := i\<rparr>) id,
      tb_users = list_table ld_users (\<lambda>r. ld_users_update (\<lambda>_. r)) su_ID (\<lambda>i u. u\<lparr>su_ID := i\<rparr>) id,
      tb_like = (\<lambda>s p. s = p)\<rparr>"

lemma list_tables_create: "creates_with job_tag_defaults (\<lambda>i j. j\<lparr>ji_ID := i\<rparr>) (tb_jobs list_tables)"
  by (auto simp: creates_with_def list_tables_def list_table_def Let_def)

lemma list_tables_count: "counts_rows (ld_logs db) (tb_logs list_tables) db"
  by (simp add: counts_rows_def list_tables_def list_table_def)

lemma list_tables_executors:
  "finds_first ld_executors (tb_executors list_tables)" "updates_all ld_executors (tb_executors list_tables)"
  by (auto simp: finds_first_def updates_all_def list_tables_def list_table_def split: list.splits)

lemma with_id_replace:
  "with_id row_id i (map (\<lambda>q. if row_id q = row_id r then r else q) rs) =
     (if i = row_id r then map (\<lambda>_. r) (with_id row_id i rs) else with_id row_id i rs)"
  by (induction rs) (auto simp: with_id_def)

lemma list_tables_save: "saves_row ld_jobs ji_ID (tb_jobs list_tables)"
  by (auto simp: saves_row_def list_tables_def list_table_def with_id_replace)

lemmas list_db_simps = list_tables_def list_table_def row_sort_def

end
