(* ===== verification/Service_Props.thy ===== *)
theory Service_Props
  imports Job_Service List_DB Sched_Theorems
begin

text \<open>
  What the service layer does to the scheduler and to the database: a created job is stored as enabled
  with the fields of its request, what the flush loop writes (\<open>flush_dirty\<close>, of \<open>scheduler.go\<close>), that the API's lifecycle calls never reach the scheduler, and that retries are not limited by the retry count.
\<close>

section \<open>The database writes leave the scheduler alone\<close>

lemma on_db_frame: "on_db f s = (r, s') \<Longrightarrow> sv_sched s' = sv_sched s \<and> sv_timers s' = sv_timers s"
  by (auto simp: on_db_def split: prod.splits)

lemma Create_frame: "svc_CreateJob lb tb now req s = (r, s') \<Longrightarrow> sv_sched s' = sv_sched s"
  by (auto simp: svc_CreateJob_def dest: on_db_frame split: sum.splits prod.splits)

lemma Update_frame: "svc_UpdateJob lb tb now req s = (r, s') \<Longrightarrow> sv_sched s' = sv_sched s"
  by (auto simp: svc_UpdateJob_def Let_def dest: on_db_frame split: sum.splits prod.splits option.splits)

lemma Delete_frame: "svc_DeleteJob tb i s = (r, s') \<Longrightarrow> sv_sched s' = sv_sched s"
  by (auto simp: svc_DeleteJob_def dest: on_db_frame split: sum.splits prod.splits option.splits)

lemma svc_Start_frame: "svc_StartJob lb tb now i s = (r, s') \<Longrightarrow> sv_sched s' = sv_sched s"
  by (auto simp: svc_StartJob_def Let_def dest!: on_db_frame split: sum.splits prod.splits option.splits if_splits)

lemma svc_Stop_frame: "svc_StopJob tb i s = (r, s') \<Longrightarrow> sv_sched s' = sv_sched s"
  by (auto simp: svc_StopJob_def Let_def dest: on_db_frame split: sum.splits prod.splits)

text \<open>The calls of the job API other than a manual trigger.\<close>

inductive api_call :: "('c, 't) libs \<Rightarrow> 'db tables \<Rightarrow> ('c, 't, 'db) Service \<Rightarrow> ('c, 't, 'db) Service \<Rightarrow> bool"
  for lb :: "('c, 't) libs" and tb :: "'db tables" where
  ac_create: "svc_CreateJob lb tb now req s = (r, s') \<Longrightarrow> api_call lb tb s s'"
| ac_update: "svc_UpdateJob lb tb now ureq s = (r, s') \<Longrightarrow> api_call lb tb s s'"
| ac_delete: "svc_DeleteJob tb i s = (e, s') \<Longrightarrow> api_call lb tb s s'"
| ac_start: "svc_StartJob lb tb now i s = (e, s') \<Longrightarrow> api_call lb tb s s'"
| ac_stop: "svc_StopJob tb i s = (e, s') \<Longrightarrow> api_call lb tb s s'"

lemma api_call_frame: "api_call lb tb s s' \<Longrightarrow> sv_sched s' = sv_sched s"
  by (induction rule: api_call.induct) (blast dest: Create_frame Update_frame Delete_frame svc_Start_frame svc_Stop_frame)+

lemma api_calls_frame: "(api_call lb tb)\<^sup>*\<^sup>* s s' \<Longrightarrow> sv_sched s' = sv_sched s"
  by (induction rule: rtranclp_induct) (auto dest: api_call_frame)

section \<open>The flush loop writes to the database\<close>

text \<open>\<open>FlushJob\<close> writes the whole struct; \<open>ext\<close> has the fields that the scheduler loads and writes back without
  reading them, by job.\<close>

definition full_row :: "(int \<Rightarrow> JobRow) \<Rightarrow> JobInfo \<Rightarrow> JobRow" where
  "full_row ext j = JobInfo.extend j (JobInfo.more (ext (ji_ID j)))"

definition FlushJob :: "'db tables \<Rightarrow> (int \<Rightarrow> JobRow) \<Rightarrow> JobInfo \<Rightarrow> 'db \<Rightarrow> db_error option \<times> 'db" where
  "FlushJob tb ext j db = jobs_Update tb (full_row ext j) db"

fun flush_dirty :: "'db tables \<Rightarrow> (int \<Rightarrow> JobRow) \<Rightarrow> JobInfo list \<Rightarrow> Store \<times> 'db \<Rightarrow> Store \<times> 'db" where
  "flush_dirty tb ext [] (st, db) = (st, db)"
| "flush_dirty tb ext (j # js) (st, db) =
     (case FlushJob tb ext j db of (err, db1) \<Rightarrow>
        flush_dirty tb ext js (if err \<noteq> None then store_MarkDirty (ji_ID j) st else st, db1))"

definition sched_flush :: "'db tables \<Rightarrow> (int \<Rightarrow> JobRow) \<Rightarrow> int list \<Rightarrow> ('c, 't, 'db) Service \<Rightarrow> ('c, 't, 'db) Service" where
  "sched_flush tb ext ord s =
     (let (dirty, st) = store_DrainDirty ord (sd_store (sv_sched s));
          (st1, db) = flush_dirty tb ext dirty (st, sv_db s)
      in s\<lparr>sv_sched := (sv_sched s)\<lparr>sd_store := st1\<rparr>, sv_db := db\<rparr>)"

lemma full_row [simp]: "ji_ID (full_row ext j) = ji_ID j" "JobInfo.truncate (full_row ext j) = j"
  by (simp_all add: full_row_def JobInfo.defs)

lemma flushLoop_cong: "(\<And>j. j \<in> set js \<Longrightarrow> f j = g j) \<Longrightarrow> flushLoop f js st = flushLoop g js st"
  by (induction js arbitrary: st) simp_all

lemma FlushJob_rows:
  assumes "saves_row rows ji_ID (tb_jobs tb)" "FlushJob tb ext j db = (err, db')"
  shows "i \<noteq> ji_ID j \<or> err \<noteq> None \<Longrightarrow> with_id ji_ID i (rows db') = with_id ji_ID i (rows db)"
    and "err = None \<Longrightarrow> with_id ji_ID (ji_ID j) (rows db) \<noteq> [] \<Longrightarrow>
      with_id ji_ID (ji_ID j) (rows db') = map (\<lambda>_. full_row ext j) (with_id ji_ID (ji_ID j) (rows db))"
  using assms unfolding saves_row_def FlushJob_def jobs_Update_def by (metis full_row(1))+

lemma flush_dirty_others:
  assumes "saves_row rows ji_ID (tb_jobs tb)" "i \<notin> ji_ID ` set js"
  shows "with_id ji_ID i (rows (snd (flush_dirty tb ext js (st, db)))) = with_id ji_ID i (rows db)"
  using assms(2)
proof (induction js arbitrary: st db)
  case (Cons j js)
  obtain err db1 where F: "FlushJob tb ext j db = (err, db1)" by (rule prod.exhaust)
  then show ?case using Cons FlushJob_rows(1) [OF assms(1) F, of i] by auto
qed simp

lemma flush_dirty_rows:
  assumes "saves_row rows ji_ID (tb_jobs tb)" "distinct (map ji_ID js)"
  shows "\<exists>fails. fst (flush_dirty tb ext js (st, db)) = flushLoop fails js st \<and>
    (\<forall>j \<in> set js. fails j \<or> with_id ji_ID (ji_ID j) (rows db) = [] \<or>
      with_id ji_ID (ji_ID j) (rows (snd (flush_dirty tb ext js (st, db)))) =
        map (\<lambda>_. full_row ext j) (with_id ji_ID (ji_ID j) (rows db)))"
  using assms(2)
proof (induction js arbitrary: st db)
  case (Cons j js)
  obtain err db1 where F: "FlushJob tb ext j db = (err, db1)" by (rule prod.exhaust)
  let ?st = "if err \<noteq> None then store_MarkDirty (ji_ID j) st else st"
  obtain fails where f: "fst (flush_dirty tb ext js (?st, db1)) = flushLoop fails js ?st"
    "\<forall>k \<in> set js. fails k \<or> with_id ji_ID (ji_ID k) (rows db1) = [] \<or>
      with_id ji_ID (ji_ID k) (rows (snd (flush_dirty tb ext js (?st, db1)))) =
        map (\<lambda>_. full_row ext k) (with_id ji_ID (ji_ID k) (rows db1))"
    using Cons.IH [of ?st db1] Cons.prems by auto
  have new: "k \<noteq> j \<and> ji_ID k \<noteq> ji_ID j" if "k \<in> set js" for k
    using imageI [OF that, of ji_ID] Cons.prems by auto
  define G where "G = fails(j := err \<noteq> None)"
  have G: "G j \<longleftrightarrow> err \<noteq> None" "\<And>k. k \<in> set js \<Longrightarrow> G k = fails k" using new by (auto simp: G_def)
  have step: "flush_dirty tb ext (j # js) (st, db) = flush_dirty tb ext js (?st, db1)" by (simp add: F)
  have "flushLoop G (j # js) st = flushLoop fails js ?st" using flushLoop_cong [of js G fails ?st] G by simp
  then have store: "fst (flush_dirty tb ext (j # js) (st, db)) = flushLoop G (j # js) st" unfolding step f(1) ..
  have head: "G j \<or> with_id ji_ID (ji_ID j) (rows db) = [] \<or>
      with_id ji_ID (ji_ID j) (rows (snd (flush_dirty tb ext js (?st, db1)))) =
        map (\<lambda>_. full_row ext j) (with_id ji_ID (ji_ID j) (rows db))"
    using FlushJob_rows(2) [OF assms(1) F] flush_dirty_others [OF assms(1), of "ji_ID j" js ext ?st db1] Cons.prems G(1)
    by auto
  have tail: "G k \<or> with_id ji_ID (ji_ID k) (rows db) = [] \<or>
      with_id ji_ID (ji_ID k) (rows (snd (flush_dirty tb ext js (?st, db1)))) =
        map (\<lambda>_. full_row ext k) (with_id ji_ID (ji_ID k) (rows db))" if k: "k \<in> set js" for k
  proof -
    have "with_id ji_ID (ji_ID k) (rows db1) = with_id ji_ID (ji_ID k) (rows db)"
      using FlushJob_rows(1) [OF assms(1) F] new [OF k] by blast
    then show ?thesis using f(2) k G(2) [OF k] by metis
  qed
  from store head tail show ?case unfolding step by (intro exI [of _ G]) simp
qed simp

lemma sched_flush_row:
  fixes rows :: "'db \<Rightarrow> JobRow list" and s :: "('c, 't, 'db) Service" and ext :: "int \<Rightarrow> JobRow"
  assumes "saves_row rows ji_ID (tb_jobs tb)" "store_inv (sd_store (sv_sched s))"
    "iter_order (st_jobByID (sd_store (sv_sched s))) ord" "registry (sd_store (sv_sched s)) i = Some (job, True, queued)"
  defines "s' \<equiv> sched_flush tb ext ord s"
  shows "registry (sd_store (sv_sched s')) i = Some (job, True, queued) \<or> with_id ji_ID i (rows (sv_db s)) = [] \<or>
    with_id ji_ID i (rows (sv_db s')) = map (\<lambda>_. full_row ext job) (with_id ji_ID i (rows (sv_db s)))"
proof -
  let ?st = "sd_store (sv_sched s)"
  obtain dirty st where d: "store_DrainDirty ord ?st = (dirty, st)" by (rule prod.exhaust)
  note D = store_DrainDirty_jobs [OF assms(2,3), unfolded d fst_conv]
  obtain fails where f: "fst (flush_dirty tb ext dirty (st, sv_db s)) = flushLoop fails dirty st"
    "\<forall>j \<in> set dirty. fails j \<or> with_id ji_ID (ji_ID j) (rows (sv_db s)) = [] \<or>
      with_id ji_ID (ji_ID j) (rows (snd (flush_dirty tb ext dirty (st, sv_db s)))) =
        map (\<lambda>_. full_row ext j) (with_id ji_ID (ji_ID j) (rows (sv_db s)))"
    using flush_dirty_rows [OF assms(1) D(2)] by blast
  have s': "sd_store (sv_sched s') = store_flush ord fails ?st" "sv_db s' = snd (flush_dirty tb ext dirty (st, sv_db s))"
    using f(1) by (simp_all add: s'_def sched_flush_def store_flush_def d case_prod_beta)
  have "job \<in> set dirty" "ji_ID job = i" using D(1) assms(4) job_store.view_id [OF assms(2,4)] by auto
  then show ?thesis
    using f(2) store_flush_effect(2) [OF assms(2,3), of fails i] assms(4) unfolding s' by auto
qed

text \<open>Property C21: the lifecycle calls of the job API (create, update, delete, start, stop) change the database
  only. After any sequence of them, a job the scheduler had enabled still queues its next trigger when its wheel
  task fires; if its copy is marked dirty, the next flush either fails for it (the copy stays dirty) or writes its
  old status Run and old trigger times over whatever the calls have left in its row; and a job the scheduler does
  not know still queues nothing.\<close>

theorem api_calls_bypass_scheduler:
  assumes "(api_call lb tb)\<^sup>*\<^sup>* s s1" "store_inv (sd_store (sv_sched s))"
    "registry (sd_store (sv_sched s)) i = Some (job, dirty, queued)" "ji_Status job = JobRun"
    "int (length (sd_workerCh (sv_sched s))) < sd_workerCap (sv_sched s)"
    "iter_order (st_jobByID (sd_store (sv_sched s))) ord" "saves_row rows ji_ID (tb_jobs tb)"
  shows "sd_workerCh (wheel_callback (i, t) (sv_sched s1)) =
      sd_workerCh (sv_sched s) @ [\<lparr>tt_job = job, tt_triggerTime = t, tt_triggerType = TriggerCron\<rparr>] \<and>
    (dirty \<longrightarrow> registry (sd_store (sv_sched (sched_flush tb ext ord s1))) i = Some (job, True, queued) \<or>
       with_id ji_ID i (rows (sv_db s1)) = [] \<or>
       map JobInfo.truncate (with_id ji_ID i (rows (sv_db (sched_flush tb ext ord s1)))) =
         map (\<lambda>_. job) (with_id ji_ID i (rows (sv_db s1)))) \<and>
    (\<forall>k. registry (sd_store (sv_sched s)) k = None \<longrightarrow> wheel_callback (k, t) (sv_sched s1) = sv_sched s1)"
proof -
  have eq: "sv_sched s1 = sv_sched s" using api_calls_frame [OF assms(1)] .
  have get: "store_Get k (sd_store (sv_sched s)) = map_option fst (registry (sd_store (sv_sched s)) k)" for k
    by (simp add: store_Get_registry)
  have flush: "registry (sd_store (sv_sched (sched_flush tb ext ord s1))) i = Some (job, True, queued) \<or>
      with_id ji_ID i (rows (sv_db s1)) = [] \<or>
      with_id ji_ID i (rows (sv_db (sched_flush tb ext ord s1))) =
        map (\<lambda>_. full_row ext job) (with_id ji_ID i (rows (sv_db s1)))" if dirty
    using sched_flush_row [OF assms(7), of s1 ord i job queued] assms(2,3,6) that eq by simp
  show ?thesis using assms(3-5) flush by (auto simp: eq wheel_callback_def get try_send_def)
qed

definition demo_service :: "list_db \<Rightarrow> (unit, string, list_db) Service" where
  "demo_service db = \<lparr>sv_sched = demo_sched (demo_job 1 5), sv_db = db, sv_timers = []\<rparr>"

definition demo_row :: "int \<Rightarrow> job_status \<Rightarrow> JobRow" where
  "demo_row i st = \<lparr>ji_ID = i, ji_ExecutorID = 1, ji_ExecutorApp = ''app'', ji_JobName = ''nightly'', ji_JobDesc = [],
     ji_JobType = JobTypeCron, ji_CronExpression = ''0 0 2 * * *'', ji_ExecuteType = ExecuteTypeBean,
     ji_ExecuteParam = [], ji_ExecuteHandler = ''report'', ji_RouteStrategy = RouteFirst,
     ji_BlockStrategy = BlockSerial, ji_MisfireStrategy = MisfireIgnore, ji_Timeout = 0, ji_RetryCount = 1,
     ji_RetryInterval = 5, ji_ShardingNum = 1, ji_AlarmEmail = [], ji_AlarmWebhook = [], ji_Status = st,
     ji_NextTriggerTime = Some 5, ji_LastTriggerTime = None, ji_CreateUser = ''ops'', jr_ChildJobIDs = [],
     jr_GroupID = 0, jr_TriggerCount = 0\<rparr>"

definition demo_db :: list_db where
  "demo_db = \<lparr>ld_jobs = [demo_row 1 JobRun], ld_logs = [], ld_details = [], ld_executors = [], ld_users = []\<rparr>"

lemma demo_service_simps [simp]:
  "sv_sched (demo_service db) = demo_sched (demo_job 1 5)" "sv_db (demo_service db) = db" "sv_timers (demo_service db) = []"
  by (simp_all add: demo_service_def)

lemma demo_worker_room: "int (length (sd_workerCh (demo_sched job))) < sd_workerCap (demo_sched job)"
  by (simp add: demo_sched_def sched_New_def sched_defaultOpts_def defaultWorkerNum_def Let_def)

lemma demo_order: "iter_order (st_jobByID (store_Add (demo_job 1 5) store_New)) [1]"
proof -
  have v: "registry (store_Add (demo_job 1 5) store_New) k =
      (if k = 1 then Some (demo_job 1 5, True, True) else registry store_New k)" for k
    using job_store.add_view [OF store_New_inv, of "demo_job 1 5"] by simp
  have "registry store_New k = None" for k by (simp add: registry_def store_New_def)
  then have "st_jobByID (store_Add (demo_job 1 5) store_New) k \<noteq> None \<longleftrightarrow> k = 1" for k
    using v [of k] by (auto simp: registry_def split: if_splits)
  then show ?thesis by (auto simp: iter_order_def domIff)
qed

lemma api_calls_bypass_scheduler_witness:
  "\<exists>s1. svc_StopJob list_tables 1 (demo_service demo_db) = (None, s1) \<and> ld_jobs (sv_db s1) = [demo_row 1 JobStop] \<and>
     map JobInfo.truncate (with_id ji_ID 1 (ld_jobs (sv_db (sched_flush list_tables (\<lambda>i. demo_row i JobRun) [1] s1)))) =
       [demo_job 1 5] \<and>
     sd_workerCh (wheel_callback (1, 5) (sv_sched s1)) =
       [\<lparr>tt_job = demo_job 1 5, tt_triggerTime = 5, tt_triggerType = TriggerCron\<rparr>]"
proof -
  let ?s = "demo_service demo_db" and ?ext = "\<lambda>i. demo_row i JobRun"
  obtain s1 where stop: "svc_StopJob list_tables 1 ?s = (None, s1)"
    and db: "sv_db s1 = demo_db\<lparr>ld_jobs := [demo_row 1 JobStop]\<rparr>"
    by (simp add: svc_StopJob_def on_db_def jobs_FindByID_def jobs_UpdateStatus_def list_db_simps demo_db_def demo_row_def)
  have inv: "store_inv (sd_store (sv_sched ?s))" using job_store.add_ok [OF store_New_inv] by simp
  have reg: "registry (sd_store (sv_sched ?s)) 1 = Some (demo_job 1 5, True, True)"
    using job_store.add_view [OF store_New_inv, of "demo_job 1 5"] by simp
  have star: "(api_call demo_libs list_tables)\<^sup>*\<^sup>* ?s s1" using ac_stop [OF stop] by (rule r_into_rtranclp)
  note P = api_calls_bypass_scheduler [OF star inv reg _ _ _ list_tables_save, of "[1]" 5 ?ext]
  let ?f = "sched_flush list_tables ?ext [1] s1"
  have "fst (flush_dirty list_tables ?ext js (st, db)) = st" for js st db
    by (induction js arbitrary: db) (simp_all add: FlushJob_def jobs_Update_def list_db_simps)
  then have "sd_store (sv_sched ?f) = store_flush [1] (\<lambda>_. False) (sd_store (sv_sched s1))"
  proof -
    have "flushLoop (\<lambda>_. False) js st = st" for js st by (induction js) simp_all
    then show ?thesis using \<open>\<And>js st db. fst (flush_dirty list_tables ?ext js (st, db)) = st\<close>
      by (simp add: sched_flush_def store_flush_def case_prod_beta)
  qed
  moreover have "sv_sched s1 = sv_sched ?s" using api_calls_frame [OF star] .
  ultimately have "registry (sd_store (sv_sched ?f)) 1 \<noteq> Some (demo_job 1 5, True, True)"
    using store_flush_effect(2) [OF inv, of "[1]" "\<lambda>_. False" 1] demo_order reg by simp
  moreover have "with_id ji_ID 1 (ld_jobs (sv_db s1)) = [demo_row 1 JobStop]" by (simp add: db with_id_def demo_row_def)
  ultimately have "map JobInfo.truncate (with_id ji_ID 1 (ld_jobs (sv_db ?f))) = [demo_job 1 5]"
    and "sd_workerCh (wheel_callback (1, 5) (sv_sched s1)) =
       [\<lparr>tt_job = demo_job 1 5, tt_triggerTime = 5, tt_triggerType = TriggerCron\<rparr>]"
    using P demo_worker_room demo_order by simp_all
  then show ?thesis using stop db by auto
qed

section \<open>Created jobs\<close>

definition has_request :: "CreateJobRequest \<Rightarrow> JobRow \<Rightarrow> bool" where
  "has_request req j \<longleftrightarrow>
     ji_ExecutorID j = cr_ExecutorID req \<and> ji_ExecutorApp j = cr_ExecutorApp req \<and> ji_JobName j = cr_JobName req \<and>
     ji_JobDesc j = cr_JobDesc req \<and> ji_CronExpression j = cr_CronExpression req \<and>
     ji_ExecuteParam j = cr_ExecuteParam req \<and> ji_ExecuteHandler j = cr_ExecuteHandler req \<and>
     ji_Timeout j = cr_Timeout req \<and> ji_RetryCount j = cr_RetryCount req \<and>
     ji_RetryInterval j = cr_RetryInterval req \<and> ji_AlarmEmail j = cr_AlarmEmail req \<and>
     ji_AlarmWebhook j = cr_AlarmWebhook req \<and> ji_ShardingNum j = max 1 (cr_ShardingNum req)"

text \<open>What the request may leave out: the types, the strategies and the user.\<close>

definition has_defaults :: "CreateJobRequest \<Rightarrow> JobRow \<Rightarrow> bool" where
  "has_defaults req j \<longleftrightarrow>
     ji_JobType j = (if cr_JobType req = 0 then JobTypeCron else cr_JobType req) \<and>
     ji_ExecuteType j = (if cr_ExecuteType req = [] then ExecuteTypeBean else cr_ExecuteType req) \<and>
     ji_RouteStrategy j = (if cr_RouteStrategy req = [] then RouteRoundRobin else cr_RouteStrategy req) \<and>
     ji_BlockStrategy j = (if cr_BlockStrategy req = 0 then BlockSerial else cr_BlockStrategy req) \<and>
     ji_MisfireStrategy j = (if cr_MisfireStrategy req = 0 then MisfireIgnore else cr_MisfireStrategy req) \<and>
     ji_CreateUser j = (if cr_CreateUser req = [] then ''admin'' else cr_CreateUser req)"

lemma sensible_defaults_fields:
  "ji_JobType (sensible_defaults j) = (if ji_JobType j = 0 then JobTypeCron else ji_JobType j)"
  "ji_ExecuteType (sensible_defaults j) = (if ji_ExecuteType j = [] then ExecuteTypeBean else ji_ExecuteType j)"
  "ji_RouteStrategy (sensible_defaults j) = (if ji_RouteStrategy j = [] then RouteRoundRobin else ji_RouteStrategy j)"
  "ji_BlockStrategy (sensible_defaults j) = (if ji_BlockStrategy j = 0 then BlockSerial else ji_BlockStrategy j)"
  "ji_MisfireStrategy (sensible_defaults j) = (if ji_MisfireStrategy j = 0 then MisfireIgnore else ji_MisfireStrategy j)"
  "ji_CreateUser (sensible_defaults j) = ji_CreateUser j"
  by (simp_all add: sensible_defaults_def Let_def)

text \<open>Property C34: every job that CreateJob creates has the fields of the request, with the default of an
  enumeration only where the request leaves it out, a sharding number of at least one, and a next trigger time
  exactly when it has a cron expression; but its status is Run, because GORM replaces the Stop the service writes,
  a zero value, with the default of the struct tag. StartJob then refuses to start it, while the scheduler does not
  know it.\<close>

theorem CreateJob_row:
  assumes "creates_with job_tag_defaults (\<lambda>i j. j\<lparr>ji_ID := i\<rparr>) (tb_jobs tb)"
    "svc_CreateJob lb tb now req s = (Inr job, s1)"
  shows "ji_Status job = JobRun \<and> has_request req job \<and> has_defaults req job \<and>
    (if cr_CronExpression req = [] then ji_NextTriggerTime job = None
     else \<exists>sched. lb_cron lb (cr_CronExpression req) = Inr sched \<and> ji_NextTriggerTime job = Some (sched now)) \<and>
    sv_sched s1 = sv_sched s \<and>
    (jobs_FindByID tb (ji_ID job) (sv_db s1) = Inr job \<longrightarrow>
       svc_StartJob lb tb now' (ji_ID job) s1 = (Some (XErr (xerr_New CodeJobAlreadyStart [])), s1))"
proof -
  obtain nt db where nt: "request_next lb now (cr_CronExpression req) = Inr nt"
    and c: "gm_Create (tb_jobs tb) (sensible_defaults (job_of_request req nt)) (sv_db s) = (Inr job, db)"
    using assms(2) by (auto simp: svc_CreateJob_def on_db_def jobs_Create_def split: sum.splits prod.splits)
  obtain i where job: "job = (job_tag_defaults (sensible_defaults (job_of_request req nt)))\<lparr>ji_ID := i\<rparr>"
    using assms(1) c unfolding creates_with_def by blast
  have run: "ji_Status job = JobRun"
    by (simp add: job job_tag_defaults_def sensible_defaults_def job_of_request_def JobStop_def JobRun_def Let_def)
  have "ji_NextTriggerTime job = nt"
    by (simp add: job job_tag_defaults_def sensible_defaults_def job_of_request_def Let_def)
  then have "if cr_CronExpression req = [] then ji_NextTriggerTime job = None
     else \<exists>sched. lb_cron lb (cr_CronExpression req) = Inr sched \<and> ji_NextTriggerTime job = Some (sched now)"
    using nt by (auto simp: request_next_def CalcNextTriggerTime_def split: if_splits sum.splits)
  moreover have "has_request req job"
    by (auto simp: has_request_def job job_tag_defaults_def sensible_defaults_def job_of_request_def svc_max_def Let_def)
  moreover have "has_defaults req job"
    by (simp add: has_defaults_def job job_tag_defaults_def sensible_defaults_fields job_of_request_def JobTypeCron_def
        ExecuteTypeBean_def RouteRoundRobin_def BlockSerial_def MisfireIgnore_def)
  moreover have "sv_sched s1 = sv_sched s" using Create_frame [OF assms(2)] .
  moreover have "jobs_FindByID tb (ji_ID job) (sv_db s1) = Inr job \<longrightarrow>
      svc_StartJob lb tb now' (ji_ID job) s1 = (Some (XErr (xerr_New CodeJobAlreadyStart [])), s1)"
    using run by (simp add: svc_StartJob_def)
  ultimately show ?thesis using run by blast
qed

definition demo_request :: CreateJobRequest where
  "demo_request = \<lparr>cr_ExecutorID = 1, cr_ExecutorApp = ''app'', cr_JobName = ''weekly'', cr_JobDesc = [], cr_JobType = 0,
     cr_CronExpression = ''0 0 3 * * 1'', cr_ExecuteType = [], cr_ExecuteParam = [], cr_ExecuteHandler = ''report'',
     cr_RouteStrategy = [], cr_BlockStrategy = 0, cr_MisfireStrategy = 0, cr_Timeout = 0, cr_RetryCount = 0,
     cr_RetryInterval = 0, cr_ShardingNum = 0, cr_AlarmEmail = [], cr_AlarmWebhook = [], cr_CreateUser = ''ops''\<rparr>"

lemma CreateJob_row_witness:
  "\<exists>job s1. svc_CreateJob demo_libs list_tables 7 demo_request (demo_service demo_db) = (Inr job, s1) \<and>
     ji_ID job = 2 \<and> ji_Status job = JobRun"
proof -
  obtain job s1 where c: "svc_CreateJob demo_libs list_tables 7 demo_request (demo_service demo_db) = (Inr job, s1)"
    and i: "ji_ID job = 2"
    by (simp add: svc_CreateJob_def request_next_def CalcNextTriggerTime_def demo_libs_def demo_request_def on_db_def
        jobs_Create_def list_db_simps demo_db_def demo_row_def Let_def)
  then show ?thesis using CreateJob_row [OF list_tables_create c] by blast
qed

section \<open>Retries\<close>

text \<open>No trigger and no log of the scheduler is ever marked as a retry.\<close>

definition no_retry :: "('c, 't) Scheduler \<Rightarrow> bool" where
  "no_retry s \<longleftrightarrow> (\<forall>t \<in> set (sd_workerCh s). tt_triggerType t \<noteq> TriggerRetry) \<and>
     (\<forall>l. LogCreated l \<in> set (sd_out s) \<longrightarrow> jl_TriggerType l \<noteq> TriggerRetry)"

lemma no_retry_cong: "sd_workerCh s' = sd_workerCh s \<Longrightarrow> sd_out s' = sd_out s \<Longrightarrow> no_retry s' = no_retry s"
  by (simp add: no_retry_def)

lemma no_retry_emit: "no_retry s \<Longrightarrow> (\<And>l. e \<noteq> LogCreated l) \<Longrightarrow> no_retry (emit e s)"
  by (auto simp: no_retry_def emit_def)

lemma try_send_no_retry:
  "no_retry s \<Longrightarrow> tt_triggerType task \<noteq> TriggerRetry \<Longrightarrow> no_retry (snd (try_send task s))"
  by (auto simp: no_retry_def try_send_def)

lemma trigger_types: "TriggerCron \<noteq> TriggerRetry" "TriggerManual \<noteq> TriggerRetry"
  by (simp_all add: TriggerCron_def TriggerManual_def TriggerRetry_def)

lemma reschedule_frame:
  assumes "reschedule lb an job s = Done s'"
  shows "sd_workerCh s' = sd_workerCh s \<and> sd_out s' = sd_out s"
  using assms
  by (auto simp: reschedule_def Let_def dest!: scheduleWheel_Done split: if_splits sum.splits option.splits)

lemma handle_no_retry:
  assumes "handle_locked lb an task s = Done s'" "no_retry s" "tt_triggerType task \<noteq> TriggerRetry"
  shows "no_retry s'"
proof -
  obtain s1 where t: "talks (ji_ID (tt_job task), tt_triggerType task) s s1"
    and r: "reschedule lb an (tt_job task) s1 = Done s'"
    by (rule handle_locked_cases [OF assms(1)])
  have "no_retry s1" using t assms(2,3) by (fastforce simp: talks_def no_retry_def)
  then show ?thesis using reschedule_frame [OF r] no_retry_cong by blast
qed

lemma internal_no_retry:
  assumes "internal_step lb s s'" "no_retry s"
  shows "no_retry s'"
  using assms
proof (cases rule: internal_step.cases)
  case (is_callback fn)
  have "no_retry (s\<lparr>sd_callbacks := remove1 fn (sd_callbacks s)\<rparr>)" using assms(2) by (simp add: no_retry_def)
  then show ?thesis using is_callback
    by (cases fn) (auto simp: wheel_callback_def trigger_types intro!: try_send_no_retry split: option.splits)
next
  case (is_worker task tasks an)
  let ?s = "s\<lparr>sd_workerCh := tasks\<rparr>"
  have n: "no_retry ?s" "tt_triggerType task \<noteq> TriggerRetry" using assms(2) is_worker by (auto simp: no_retry_def)
  consider "s' = ?s" | "handle_locked lb an task ?s = Done s'"
    | s1 e where "handle_locked lb an task ?s = Done s1" "s' = emit e s1" "\<And>l. e \<noteq> LogCreated l"
    using is_worker(3)
    by (cases "handle_locked lb an task ?s") (auto simp: handleTask_def split: if_splits sum.splits bool.splits)
  then show ?thesis using n handle_no_retry no_retry_emit by cases blast+
next
  case (is_call c net start fin)
  then show ?thesis using assms(2)
    by (cases c) (auto simp: callExecutor_def Let_def no_retry_def emit_def split: prod.splits)
qed (simp_all add: no_retry_def)

lemma TriggerJob_state:
  "snd (sched_TriggerJob now found i param s) = s \<or>
   (\<exists>job. snd (sched_TriggerJob now found i param s) =
      snd (try_send \<lparr>tt_job = job, tt_triggerTime = now, tt_triggerType = TriggerManual\<rparr> s))"
proof (cases "case store_Get i (sd_store s) of Some job \<Rightarrow> Inr job | None \<Rightarrow> found")
  case (Inr job)
  let ?job = "if param \<noteq> [] then job\<lparr>ji_ExecuteParam := param\<rparr> else job"
  have "snd (sched_TriggerJob now found i param s) =
      snd (try_send \<lparr>tt_job = ?job, tt_triggerTime = now, tt_triggerType = TriggerManual\<rparr> s)"
    by (simp only: sched_TriggerJob_def Inr sum.case Let_def case_prod_beta snd_conv)
  then show ?thesis by blast
qed (simp add: sched_TriggerJob_def)

lemma TriggerJob_no_retry: "no_retry s \<Longrightarrow> no_retry (snd (sched_TriggerJob now found i param s))"
  using TriggerJob_state [of now found i param s] try_send_no_retry trigger_types(2) by fastforce

lemma trigger_sched_frame: "sv_db (snd (trigger_sched tb now i param s)) = sv_db s"
  "no_retry (sv_sched s) \<Longrightarrow> no_retry (sv_sched (snd (trigger_sched tb now i param s)))"
  using TriggerJob_no_retry by (simp_all add: trigger_sched_def case_prod_beta Let_def)

text \<open>Everything that happens to a scheduler and its services: the scheduler's own steps, the API calls,
  manual triggers, child triggers, the retry ticker and its timers, and any change of the database.\<close>

inductive svc_step :: "('c, 't) libs \<Rightarrow> 'db tables \<Rightarrow> ('c, 't, 'db) Service \<Rightarrow> ('c, 't, 'db) Service \<Rightarrow> bool"
  for lb :: "('c, 't) libs" and tb :: "'db tables" where
  vs_internal: "internal_step lb (sv_sched s) sd \<Longrightarrow> svc_step lb tb s (s\<lparr>sv_sched := sd\<rparr>)"
| vs_api: "api_call lb tb s s' \<Longrightarrow> svc_step lb tb s s'"
| vs_trigger: "svc_TriggerJob tb now i param s = (r, s') \<Longrightarrow> svc_step lb tb s s'"
| vs_report: "svc_ReportResult tb now logID status errMsg start fin content s = (r, s') \<Longrightarrow> svc_step lb tb s s'"
| vs_retry: "svc_step lb tb s (retry_Run tb now s)"
| vs_timer: "timer \<in> set (sv_timers s) \<Longrightarrow> svc_step lb tb s (retry_fire tb now timer s)"
| vs_db: "svc_step lb tb s (s\<lparr>sv_db := db\<rparr>)"

lemma retry_loop_frame: "sv_sched (retry_loop tb ls s) = sv_sched s \<and> sv_db (retry_loop tb ls s) = sv_db s"
proof (induction tb ls s rule: retry_loop.induct)
  case (2 tb l ls s)
  then show ?case by (auto simp: Let_def split: sum.splits)
qed simp

lemma retry_Run_frame: "sv_sched (retry_Run tb now s) = sv_sched s" "sv_db (retry_Run tb now s) = sv_db s"
  by (simp_all add: retry_Run_def retry_loop_frame split: sum.splits)

lemma children_no_retry: "no_retry (sv_sched s) \<Longrightarrow> no_retry (sv_sched (trigger_children tb now ids param s))"
  by (induction tb now ids param s rule: trigger_children.induct) (simp_all add: trigger_sched_frame)

lemma detail_frame: "sv_sched (save_detail tb i c s) = sv_sched s"
  by (simp add: save_detail_def Let_def on_db_def case_prod_beta split: sum.splits)

lemma Report_no_retry:
  assumes "svc_ReportResult tb now logID status errMsg start fin content s = (r, s')" "no_retry (sv_sched s)"
  shows "no_retry (sv_sched s')"
proof -
  obtain e s1 where u: "on_db (logs_UpdateResult tb logID status errMsg start fin) s = (e, s1)" by fastforce
  have s1: "no_retry (sv_sched s1)" using on_db_frame [OF u] assms(2) by simp
  show ?thesis
  proof (cases e)
    case (Some x)
    then show ?thesis using assms(1) u s1 by (auto simp: svc_ReportResult_def)
  next
    case None
    show ?thesis
      using assms(1) u None s1 unfolding svc_ReportResult_def Let_def
      by (auto simp: detail_frame intro!: children_no_retry split: sum.splits)
  qed
qed

lemma svc_step_no_retry:
  assumes "svc_step lb tb s s'" "no_retry (sv_sched s)"
  shows "no_retry (sv_sched s')"
  using assms
proof (cases rule: svc_step.cases)
  case (vs_trigger now i param r)
  then have "s' = snd (trigger_sched tb now i param s)"
    by (auto simp: svc_TriggerJob_def split: prod.splits option.splits)
  then show ?thesis using trigger_sched_frame(2) assms(2) by blast
next
  case (vs_timer timer now)
  then show ?thesis using assms(2) by (cases timer) (simp add: retry_fire_def trigger_sched_frame)
qed (auto simp: retry_Run_frame dest: internal_no_retry api_call_frame Report_no_retry)

lemma svc_steps_no_retry:
  assumes "(svc_step lb tb)\<^sup>*\<^sup>* s s'" "no_retry (sv_sched s)"
  shows "no_retry (sv_sched s')"
  using assms by induction (auto dest: svc_step_no_retry)

lemma no_retry_New: "no_retry (sched_New now uuid redis es opts)"
  by (simp add: no_retry_def sched_New_def Let_def)

text \<open>The timers of one run when no retry is ever counted: one for every failed log of a job that has retries.\<close>

definition retry_timer :: "'db tables \<Rightarrow> 'db \<Rightarrow> JobLog \<Rightarrow> (duration \<times> int \<times> string) list" where
  "retry_timer tb db l =
     (case jobs_FindByID tb (jl_JobID l) db of
        Inl err \<Rightarrow> []
      | Inr job \<Rightarrow> if ji_RetryCount job > 0 then [(retry_delay (ji_RetryInterval job), ji_ID job, jl_ExecuteParam l)] else [])"

lemma retry_loop_timers:
  assumes "\<And>i t n. logs_CountRetries tb i t (sv_db s) = Inr n \<Longrightarrow> n = 0"
  shows "sv_timers (retry_loop tb ls s) = sv_timers s @ concat (map (retry_timer tb (sv_db s)) ls)"
  using assms
proof (induction tb ls s rule: retry_loop.induct)
  case (2 tb l ls s)
  let ?n = "case logs_CountRetries tb (jl_JobID l) (jl_TriggerTime l) (sv_db s) of Inr n \<Rightarrow> n | Inl err \<Rightarrow> 0"
  have "?n = 0" using "2.prems" by (auto split: sum.splits)
  then show ?case using 2 by (auto simp: retry_timer_def Let_def split: sum.splits)
qed simp

text \<open>The retry count of a job does not limit its retries. Whatever has happened since a
  state without triggers marked as retries (a new scheduler is one), as long as the log table holds logs of
  this scheduler only, every run of the retry ticker starts a timer for every failed log that ListRetryable returns whose job has any retries, and
  \<open>n\<close> runs on the same logs start \<open>n\<close> of them.\<close>

lemma retries_unlimited:
  assumes "(svc_step lb tb)\<^sup>*\<^sup>* s0 s" "no_retry (sv_sched s0)"
    "counts_rows rows (tb_logs tb) (sv_db s)"
    "\<forall>l \<in> set rows. \<exists>l'. LogCreated l' \<in> set (sd_out (sv_sched s)) \<and> jl_TriggerType l' = jl_TriggerType l"
    "logs_ListRetryable tb now 100 (sv_db s) = Inr logs"
  shows "sv_timers ((retry_Run tb now ^^ n) s) =
    sv_timers s @ concat (replicate n (concat (map (retry_timer tb (sv_db s)) logs)))"
proof -
  from svc_steps_no_retry [OF assms(1,2)] have "no_retry (sv_sched s)" .
  then have "\<forall>l \<in> set rows. jl_TriggerType l \<noteq> TriggerRetry" using assms(4) by (metis no_retry_def)
  then have zero: "k = 0" if "logs_CountRetries tb i t (sv_db s) = Inr k" for i t k
  proof -
    let ?p = "\<lambda>l. jl_JobID l = i \<and> jl_TriggerType l = TriggerRetry \<and> jl_TriggerTime l \<ge> t"
    have "k = length (filter ?p rows)" using that assms(3) unfolding logs_CountRetries_def counts_rows_def by blast
    moreover have "filter ?p rows = []"
      using \<open>\<forall>l \<in> set rows. jl_TriggerType l \<noteq> TriggerRetry\<close> by (simp add: filter_empty_conv)
    ultimately show ?thesis by simp
  qed
  have one: "sv_timers (retry_Run tb now s') = sv_timers s' @ concat (map (retry_timer tb (sv_db s)) logs)"
    if "sv_db s' = sv_db s" for s'
    using retry_loop_timers [of tb s' logs] zero assms(5) that by (simp add: retry_Run_def)
  have "sv_db ((retry_Run tb now ^^ n) s) = sv_db s \<and> sv_timers ((retry_Run tb now ^^ n) s) =
    sv_timers s @ concat (replicate n (concat (map (retry_timer tb (sv_db s)) logs)))" for n
  proof (induction n)
    case (Suc n)
    have "concat (replicate (Suc n) xs) = concat (replicate n xs) @ xs" for xs :: "(duration \<times> int \<times> string) list"
      by (induction n) simp_all
    then show ?case
      using Suc one [OF conjunct1 [OF Suc]] retry_Run_frame(2) [of tb now "(retry_Run tb now ^^ n) s"]
      by (simp del: replicate_Suc)
  qed simp
  then show ?thesis by blast
qed

definition failed_log :: JobLog where
  "failed_log = \<lparr>jl_ID = 1, jl_JobID = 1, jl_ExecutorID = 1, jl_ExecutorAddress = ''a1'', jl_ExecuteParam = ''p'',
     jl_Status = LogFail, jl_ErrorMsg = ''timeout'', jl_ShardingIndex = 0, jl_ShardingTotal = 1, jl_TriggerTime = 50,
     jl_StartTime = None, jl_EndTime = None, jl_DurationMs = 0, jl_TriggerType = TriggerCron\<rparr>"

definition failed_db :: list_db where
  "failed_db = \<lparr>ld_jobs = [demo_row 1 JobRun], ld_logs = [failed_log], ld_details = [], ld_executors = [], ld_users = []\<rparr>"

definition failed_service :: "(unit, string, list_db) Service" where
  "failed_service = \<lparr>sv_sched = emit (LogCreated failed_log) (sched_New 0 ''node'' True None []), sv_db = failed_db, sv_timers = []\<rparr>"

lemma retries_unlimited_witness:
  "sv_timers ((retry_Run list_tables 60 ^^ 3) failed_service) = replicate 3 (5 * second, 1, ''p'')"
proof -
  let ?s = "failed_service"
  have start: "no_retry (sv_sched ?s)"
    using no_retry_New [of 0 "''node''" True None "[]"]
    by (auto simp: failed_service_def no_retry_def emit_def failed_log_def trigger_types)
  have rows: "\<forall>l \<in> set (ld_logs (sv_db ?s)). \<exists>l'. LogCreated l' \<in> set (sd_out (sv_sched ?s)) \<and> jl_TriggerType l' = jl_TriggerType l"
    by (intro ballI exI [of _ failed_log]) (simp_all add: failed_service_def failed_db_def emit_def)
  have logs: "logs_ListRetryable list_tables 60 100 (sv_db ?s) = Inr [failed_log]"
    by (simp add: logs_ListRetryable_def list_db_simps failed_service_def failed_db_def failed_log_def demo_row_def
        retryable_def trigger_types minute_def)
  have timer: "retry_timer list_tables (sv_db ?s) failed_log = [(5 * second, 1, ''p'')]"
    by (simp add: retry_timer_def jobs_FindByID_def list_db_simps failed_service_def failed_db_def failed_log_def
        demo_row_def retry_delay_def second_def i64_def Let_def)
  have "sv_timers ?s = []" by (simp add: failed_service_def)
  then show ?thesis
    using retries_unlimited [OF rtranclp.rtrancl_refl [of "svc_step demo_libs list_tables"] start list_tables_count rows logs, of 3]
    by (simp add: timer numeral_3_eq_3)
qed

end
