(* ===== verification/Tpl_Service.thy ===== *)
theory Tpl_Service
  imports Service_Props Tpl_Props
begin

text \<open>
  \<open>internal/service/jobtpl_service.go\<close>: template management over the registry of \<open>Job_Tpl\<close>, and the
  instantiation of templates into jobs of the database. The state is the registry, the heap of label maps
  and the state of the job service.
\<close>

section \<open>Errors as text\<close>

fun reg_error_text :: "reg_error \<Rightarrow> string" where
  "reg_error_text (TemplateNotFound n) = ''jobtpl: template not found: '' @ go_quote n"
| "reg_error_text (IDNotFound i) = ''jobtpl: template not found: id='' @ itoa i"
| "reg_error_text (TemplateExists n) = ''jobtpl: template already exists: '' @ go_quote n"
| "reg_error_text (InvalidTemplate m) = ''jobtpl: invalid template: '' @ m"
| "reg_error_text (ImportCreate n e) = ''import '' @ go_quote n @ '': '' @ reg_error_text e"
| "reg_error_text (ImportUpdate n e) = ''import update '' @ go_quote n @ '': '' @ reg_error_text e"
| "reg_error_text (BatchPartial k i e) = ''batch instantiate partial failure ('' @ itoa (int k) @ '' errors): override['' @
     itoa (int i) @ '']: '' @ reg_error_text e"

fun findStr :: "string \<Rightarrow> string \<Rightarrow> bool" where
  "findStr [] sub = (sub = [])"
| "findStr (c # cs) sub =
     (if length sub \<le> Suc (length cs) then
        (if take (length sub) (c # cs) = sub then True else findStr cs sub)
      else False)"

definition tpl_contains :: "string \<Rightarrow> string \<Rightarrow> bool" where
  "tpl_contains s sub \<longleftrightarrow> length s \<ge> length sub \<and> (s = sub \<or> length s > 0 \<and> findStr s sub)"

definition isTemplateNotFound :: "reg_error option \<Rightarrow> bool" where
  "isTemplateNotFound err = (case err of None \<Rightarrow> False | Some e \<Rightarrow> tpl_contains (reg_error_text e) ''not found'')"

definition isTemplateExists :: "reg_error option \<Rightarrow> bool" where
  "isTemplateExists err = (case err of None \<Rightarrow> False | Some e \<Rightarrow> tpl_contains (reg_error_text e) ''already exists'')"

section \<open>Requests and state\<close>

record CreateTemplateRequest =
  ct_Name :: string
  ct_Description :: string
  ct_ExecutorApp :: string
  ct_ExecuteType :: execute_type
  ct_ExecuteHandler :: string
  ct_ExecuteParam :: string
  ct_RouteStrategy :: route_strategy
  ct_BlockStrategy :: block_strategy
  ct_MisfireStrategy :: misfire_strategy
  ct_JobType :: job_type
  ct_CronExpression :: string
  ct_Timeout :: int
  ct_RetryCount :: int
  ct_RetryInterval :: int
  ct_ShardingNum :: int
  ct_AlarmEmail :: string
  ct_AlarmWebhook :: string
  ct_Labels :: "nat option"
  ct_CreateUser :: string

record UpdateTemplateRequest =
  ut_Name :: string
  ut_Description :: string
  ut_ExecutorApp :: string
  ut_ExecuteType :: execute_type
  ut_ExecuteHandler :: string
  ut_ExecuteParam :: string
  ut_RouteStrategy :: route_strategy
  ut_BlockStrategy :: block_strategy
  ut_MisfireStrategy :: misfire_strategy
  ut_JobType :: job_type
  ut_CronExpression :: string
  ut_Timeout :: int
  ut_RetryCount :: int
  ut_RetryInterval :: int
  ut_ShardingNum :: int
  ut_AlarmEmail :: string
  ut_AlarmWebhook :: string
  ut_Labels :: "nat option"

record ListTemplatesRequest =
  lt_LabelKey :: string
  lt_LabelValue :: string

record InstantiateTemplateRequest =
  it_TemplateName :: string
  it_JobName :: string
  it_ExecutorID :: int
  it_ExecutorApp :: string
  it_ExecuteType :: execute_type
  it_ExecuteHandler :: string
  it_ExecuteParam :: string
  it_RouteStrategy :: route_strategy
  it_BlockStrategy :: block_strategy
  it_MisfireStrategy :: misfire_strategy
  it_JobType :: job_type
  it_CronExpression :: string
  it_Timeout :: int
  it_RetryCount :: int
  it_RetryInterval :: int
  it_ShardingNum :: int
  it_AlarmEmail :: string
  it_AlarmWebhook :: string
  it_JobDesc :: string
  it_CreateUser :: string
  it_GroupID :: int

record BatchInstantiateRequest =
  bi_TemplateName :: string
  bi_Overrides :: "InstantiateTemplateRequest list"

record InstantiateResult =
  ir_Job :: "JobRow option"
  ir_Error :: string

record ('c, 't, 'db) TplService =
  ts_registry :: TplRegistry
  ts_heap :: LabelHeap
  ts_jobs :: "('c, 't, 'db) Service"

section \<open>Managing templates\<close>

definition template_of_request :: "CreateTemplateRequest \<Rightarrow> JobTemplate" where
  "template_of_request req =
     \<lparr>jt_ID = 0, jt_Name = ct_Name req, jt_Description = ct_Description req,
      jt_ExecutorApp = ct_ExecutorApp req, jt_ExecuteType = ct_ExecuteType req,
      jt_ExecuteHandler = ct_ExecuteHandler req, jt_ExecuteParam = ct_ExecuteParam req,
      jt_RouteStrategy = ct_RouteStrategy req, jt_BlockStrategy = ct_BlockStrategy req,
      jt_MisfireStrategy = ct_MisfireStrategy req, jt_JobType = ct_JobType req,
      jt_CronExpression = ct_CronExpression req, jt_Timeout = ct_Timeout req,
      jt_RetryCount = ct_RetryCount req, jt_RetryInterval = ct_RetryInterval req,
      jt_ShardingNum = ct_ShardingNum req, jt_AlarmEmail = ct_AlarmEmail req,
      jt_AlarmWebhook = ct_AlarmWebhook req, jt_Labels = ct_Labels req,
      jt_CreateUser = ct_CreateUser req,
      jt_CreateTime = zero_time, jt_UpdateTime = zero_time\<rparr>"

definition template_error :: "Code \<Rightarrow> string \<Rightarrow> string \<Rightarrow> go_error" where
  "template_error code name tail = XErr (xerr_New code [''template '' @ go_quote name @ tail])"

definition CreateTemplate :: "time \<Rightarrow> CreateTemplateRequest \<Rightarrow> ('c, 't, 'db) TplService \<Rightarrow>
    (go_error + JobTemplate) \<times> ('c, 't, 'db) TplService" where
  "CreateTemplate now req s =
     (let (res, r, h) = reg_Create now (template_of_request req) (ts_registry s) (ts_heap s);
          s1 = s\<lparr>ts_registry := r, ts_heap := h\<rparr>
      in case res of
           Inr created \<Rightarrow> (Inr created, s1)
         | Inl err \<Rightarrow>
             if isTemplateExists (Some err) then (Inl (template_error CodeAlreadyExists (ct_Name req) '' already exists''), s1)
             else (Inl (XErr (xerr_Wrap CodeInvalidParam (Some (reg_error_text err)) [])), s1))"

definition merge_update :: "UpdateTemplateRequest \<Rightarrow> JobTemplate \<Rightarrow> JobTemplate" where
  "merge_update req t =
     (let t = (if ut_Description req \<noteq> [] then t\<lparr>jt_Description := ut_Description req\<rparr> else t);
          t = (if ut_ExecutorApp req \<noteq> [] then t\<lparr>jt_ExecutorApp := ut_ExecutorApp req\<rparr> else t);
          t = (if ut_ExecuteHandler req \<noteq> [] then t\<lparr>jt_ExecuteHandler := ut_ExecuteHandler req\<rparr> else t);
          t = (if ut_ExecuteParam req \<noteq> [] then t\<lparr>jt_ExecuteParam := ut_ExecuteParam req\<rparr> else t);
          t = (if ut_ExecuteType req \<noteq> [] then t\<lparr>jt_ExecuteType := ut_ExecuteType req\<rparr> else t);
          t = (if ut_RouteStrategy req \<noteq> [] then t\<lparr>jt_RouteStrategy := ut_RouteStrategy req\<rparr> else t);
          t = (if ut_BlockStrategy req \<noteq> 0 then t\<lparr>jt_BlockStrategy := ut_BlockStrategy req\<rparr> else t);
          t = (if ut_MisfireStrategy req \<noteq> 0 then t\<lparr>jt_MisfireStrategy := ut_MisfireStrategy req\<rparr> else t);
          t = (if ut_JobType req \<noteq> 0 then t\<lparr>jt_JobType := ut_JobType req\<rparr> else t);
          t = (if ut_CronExpression req \<noteq> [] then t\<lparr>jt_CronExpression := ut_CronExpression req\<rparr> else t);
          t = (if ut_Timeout req \<noteq> 0 then t\<lparr>jt_Timeout := ut_Timeout req\<rparr> else t);
          t = (if ut_RetryCount req \<noteq> 0 then t\<lparr>jt_RetryCount := ut_RetryCount req\<rparr> else t);
          t = (if ut_RetryInterval req \<noteq> 0 then t\<lparr>jt_RetryInterval := ut_RetryInterval req\<rparr> else t);
          t = (if ut_ShardingNum req \<noteq> 0 then t\<lparr>jt_ShardingNum := ut_ShardingNum req\<rparr> else t);
          t = (if ut_AlarmEmail req \<noteq> [] then t\<lparr>jt_AlarmEmail := ut_AlarmEmail req\<rparr> else t);
          t = (if ut_AlarmWebhook req \<noteq> [] then t\<lparr>jt_AlarmWebhook := ut_AlarmWebhook req\<rparr> else t)
      in if ut_Labels req \<noteq> None then t\<lparr>jt_Labels := ut_Labels req\<rparr> else t)"

definition UpdateTemplate :: "time \<Rightarrow> UpdateTemplateRequest \<Rightarrow> ('c, 't, 'db) TplService \<Rightarrow>
    (go_error + JobTemplate) \<times> ('c, 't, 'db) TplService" where
  "UpdateTemplate now req s =
     (case reg_Get (ut_Name req) (ts_registry s) (ts_heap s) of
        (Inl err, h) \<Rightarrow> (Inl (template_error CodeNotFound (ut_Name req) '' not found''), s\<lparr>ts_heap := h\<rparr>)
      | (Inr existing, h) \<Rightarrow>
          (let (res, r, h1) = reg_Update now (merge_update req existing) (ts_registry s) h;
               s1 = s\<lparr>ts_registry := r, ts_heap := h1\<rparr>
           in case res of
                Inr updated \<Rightarrow> (Inr updated, s1)
              | Inl err \<Rightarrow> (Inl (XErr (xerr_Wrap CodeInternalServer (Some (reg_error_text err)) [])), s1)))"

definition DeleteTemplate :: "string \<Rightarrow> ('c, 't, 'db) TplService \<Rightarrow> go_error option \<times> ('c, 't, 'db) TplService" where
  "DeleteTemplate name s =
     (case reg_Delete name (ts_registry s) of
        (Some err, r) \<Rightarrow> (Some (template_error CodeNotFound name '' not found''), s\<lparr>ts_registry := r\<rparr>)
      | (None, r) \<Rightarrow> (None, s\<lparr>ts_registry := r\<rparr>))"

definition GetTemplate :: "string \<Rightarrow> ('c, 't, 'db) TplService \<Rightarrow> (go_error + JobTemplate) \<times> ('c, 't, 'db) TplService" where
  "GetTemplate name s =
     (case reg_Get name (ts_registry s) (ts_heap s) of
        (Inl err, h) \<Rightarrow> (Inl (template_error CodeNotFound name '' not found''), s\<lparr>ts_heap := h\<rparr>)
      | (Inr tpl, h) \<Rightarrow> (Inr tpl, s\<lparr>ts_heap := h\<rparr>))"

definition GetTemplateByID :: "int \<Rightarrow> ('c, 't, 'db) TplService \<Rightarrow>
    ((go_error + JobTemplate) \<times> ('c, 't, 'db) TplService) option" where
  "GetTemplateByID i s =
     (case reg_GetByID i (ts_registry s) (ts_heap s) of
        None \<Rightarrow> None
      | Some (Inl err, h) \<Rightarrow>
          Some (Inl (XErr (xerr_New CodeNotFound [''template id='' @ itoa i @ '' not found''])), s\<lparr>ts_heap := h\<rparr>)
      | Some (Inr tpl, h) \<Rightarrow> Some (Inr tpl, s\<lparr>ts_heap := h\<rparr>))"

definition label_filter :: "ListTemplatesRequest option \<Rightarrow> tpl_filter option" where
  "label_filter req =
     (case req of
        Some q \<Rightarrow> if lt_LabelKey q \<noteq> [] \<and> lt_LabelValue q \<noteq> []
          then Some (\<lambda>t h. (go_get [] (jt_labels h t) (lt_LabelKey q) = lt_LabelValue q, t, h)) else None
      | None \<Rightarrow> None)"

definition ListTemplates :: "string list \<Rightarrow> ListTemplatesRequest option \<Rightarrow> ('c, 't, 'db) TplService \<Rightarrow>
    JobTemplate list \<times> ('c, 't, 'db) TplService" where
  "ListTemplates ord req s =
     (let (ts, r, h) = reg_List ord (label_filter req) (ts_registry s) (ts_heap s)
      in (ts, s\<lparr>ts_registry := r, ts_heap := h\<rparr>))"

section \<open>Instantiating templates\<close>

definition override_of_request :: "InstantiateTemplateRequest \<Rightarrow> Override" where
  "override_of_request req =
     \<lparr>ov_JobName = it_JobName req, ov_ExecutorID = it_ExecutorID req,
      ov_ExecutorApp = it_ExecutorApp req, ov_ExecuteType = it_ExecuteType req,
      ov_ExecuteHandler = it_ExecuteHandler req, ov_ExecuteParam = it_ExecuteParam req,
      ov_RouteStrategy = it_RouteStrategy req, ov_BlockStrategy = it_BlockStrategy req,
      ov_MisfireStrategy = it_MisfireStrategy req, ov_JobType = it_JobType req,
      ov_CronExpression = it_CronExpression req, ov_Timeout = it_Timeout req,
      ov_RetryCount = it_RetryCount req, ov_RetryInterval = it_RetryInterval req,
      ov_ShardingNum = it_ShardingNum req, ov_AlarmEmail = it_AlarmEmail req,
      ov_AlarmWebhook = it_AlarmWebhook req, ov_JobDesc = it_JobDesc req,
      ov_CreateUser = it_CreateUser req, ov_GroupID = it_GroupID req\<rparr>"

definition jobInfoToCreateRequest :: "JobRow \<Rightarrow> CreateJobRequest" where
  "jobInfoToCreateRequest j =
     \<lparr>cr_ExecutorID = ji_ExecutorID j, cr_ExecutorApp = ji_ExecutorApp j, cr_JobName = ji_JobName j,
      cr_JobDesc = ji_JobDesc j, cr_JobType = ji_JobType j, cr_CronExpression = ji_CronExpression j,
      cr_ExecuteType = ji_ExecuteType j, cr_ExecuteParam = ji_ExecuteParam j,
      cr_ExecuteHandler = ji_ExecuteHandler j, cr_RouteStrategy = ji_RouteStrategy j,
      cr_BlockStrategy = ji_BlockStrategy j, cr_MisfireStrategy = ji_MisfireStrategy j,
      cr_Timeout = ji_Timeout j, cr_RetryCount = ji_RetryCount j,
      cr_RetryInterval = ji_RetryInterval j, cr_ShardingNum = ji_ShardingNum j,
      cr_AlarmEmail = ji_AlarmEmail j, cr_AlarmWebhook = ji_AlarmWebhook j,
      cr_CreateUser = ji_CreateUser j\<rparr>"

definition InstantiateTemplate :: "('c, 't) libs \<Rightarrow> 'db tables \<Rightarrow> time \<Rightarrow> InstantiateTemplateRequest \<Rightarrow>
    ('c, 't, 'db) TplService \<Rightarrow> (go_error + JobRow) \<times> ('c, 't, 'db) TplService" where
  "InstantiateTemplate lb tb now req s =
     (case reg_Instantiate (it_TemplateName req) (override_of_request req) (ts_registry s) (ts_heap s) of
        (Inl err, h) \<Rightarrow>
          (if isTemplateNotFound (Some err) then Inl (template_error CodeNotFound (it_TemplateName req) '' not found'')
           else Inl (XErr (xerr_Wrap CodeInvalidParam (Some (reg_error_text err)) [])), s\<lparr>ts_heap := h\<rparr>)
      | (Inr job, h) \<Rightarrow>
          (let (res, js) = svc_CreateJob lb tb now (jobInfoToCreateRequest job) (ts_jobs s)
           in (res, s\<lparr>ts_heap := h, ts_jobs := js\<rparr>)))"

text \<open>The request of the \<open>i\<close>-th override is its own fields under the template name of the batch.\<close>

fun instantiate_loop :: "('c, 't) libs \<Rightarrow> 'db tables \<Rightarrow> (nat \<Rightarrow> time) \<Rightarrow> string \<Rightarrow> nat \<Rightarrow> InstantiateTemplateRequest list \<Rightarrow>
    ('c, 't, 'db) TplService \<Rightarrow> InstantiateResult list \<times> ('c, 't, 'db) TplService" where
  "instantiate_loop lb tb clock name i [] s = ([], s)"
| "instantiate_loop lb tb clock name i (ov # ovs) s =
     (let (res, s1) = InstantiateTemplate lb tb (clock i) (ov\<lparr>it_TemplateName := name\<rparr>) s;
          result = (case res of
             Inl err \<Rightarrow> \<lparr>ir_Job = None, ir_Error = error_text err\<rparr>
           | Inr job \<Rightarrow> \<lparr>ir_Job = Some job, ir_Error = []\<rparr>);
          (results, s2) = instantiate_loop lb tb clock name (Suc i) ovs s1
      in (result # results, s2))"

definition BatchInstantiateTemplate :: "('c, 't) libs \<Rightarrow> 'db tables \<Rightarrow> (nat \<Rightarrow> time) \<Rightarrow> BatchInstantiateRequest \<Rightarrow>
    ('c, 't, 'db) TplService \<Rightarrow> InstantiateResult list \<times> ('c, 't, 'db) TplService" where
  "BatchInstantiateTemplate lb tb clock req s =
     instantiate_loop lb tb clock (bi_TemplateName req) 0 (bi_Overrides req) s"

section \<open>Instantiated jobs\<close>

lemma findStr_append: "findStr (p @ sub @ q) sub"
proof (induction p)
  case Nil
  show ?case
  proof (cases "sub @ q")
    case (Cons c cs)
    have "length sub \<le> Suc (length cs)" using arg_cong [OF Cons, of length] by simp
    moreover have "take (length sub) (c # cs) = sub" unfolding Cons [symmetric] by simp
    ultimately show ?thesis using Cons by simp
  qed simp
qed simp

text \<open>The classification of an error by its text is right for the errors instantiation can have.\<close>

lemma not_found_text:
  "isTemplateNotFound (Some (TemplateNotFound n))" "isTemplateNotFound (Some (IDNotFound i))"
  using findStr_append [of "''jobtpl: template ''" "''not found''" "'': '' @ go_quote n"]
    findStr_append [of "''jobtpl: template ''" "''not found''" "'': id='' @ itoa i"]
  by (simp_all add: isTemplateNotFound_def tpl_contains_def)

lemma Instantiate_labels: "Instantiate (Some (t\<lparr>jt_Labels := l\<rparr>)) ov = Instantiate (Some t) ov"
  by (cases "ov_Validate ov") (simp_all add: Instantiate_def)

lemma reg_Instantiate_Inr:
  assumes "reg_Instantiate name ov r h = (Inr inst, h')"
  obtains tpl where "tr_templates r name = Some tpl" "Instantiate (Some tpl) ov = Inr inst"
proof -
  obtain tpl where t: "tr_templates r name = Some tpl"
    using assms by (auto simp: reg_Instantiate_def reg_Get_def split: option.splits)
  obtain cp h1 where c: "jt_Clone tpl h = (cp, h1)" by fastforce
  have "cp = tpl \<or> (\<exists>l. cp = tpl\<lparr>jt_Labels := l\<rparr>)"
    using c by (auto simp: jt_Clone_def Let_def split: option.splits prod.splits)
  then have "Instantiate (Some cp) ov = Instantiate (Some tpl) ov" using Instantiate_labels by auto
  moreover have "Instantiate (Some cp) ov = Inr inst" using assms t c by (simp add: reg_Instantiate_def reg_Get_def)
  ultimately show ?thesis using that t by simp
qed

lemma Instantiate_fixed:
  "Instantiate (Some tpl) ov = Inr inst \<Longrightarrow> ji_ID inst = 0 \<and> ji_ShardingNum inst \<ge> 1 \<and> ji_Status inst = JobStop \<and>
     ji_LastTriggerTime inst = None \<and> jr_ChildJobIDs inst = [] \<and> jr_TriggerCount inst = 0"
  by (auto simp: Instantiate_def Let_def split: option.splits)

lemma request_of_instance:
  assumes "Instantiate (Some tpl) ov = Inr inst"
  shows "job_of_request (jobInfoToCreateRequest inst) nt = inst\<lparr>ji_NextTriggerTime := nt, jr_GroupID := 0\<rparr>"
  using Instantiate_fixed [OF assms]
  by (cases inst) (auto simp: job_of_request_def jobInfoToCreateRequest_def svc_max_def JobStop_def)

text \<open>The job that InstantiateTemplate stores is the instance of the template under the
  request's overrides, with its next trigger time and the defaults of CreateJob, except that its group is
  lost on the way: the stored group is 0 whatever the request says. The registry is unchanged.\<close>

lemma InstantiateTemplate_row:
  assumes "creates_with job_tag_defaults (\<lambda>i j. j\<lparr>ji_ID := i\<rparr>) (tb_jobs tb)"
    "InstantiateTemplate lb tb now req s = (Inr job, s1)"
  shows "\<exists>tpl inst nt i. tr_templates (ts_registry s) (it_TemplateName req) = Some tpl \<and>
     Instantiate (Some tpl) (override_of_request req) = Inr inst \<and>
     request_next lb now (ji_CronExpression inst) = Inr nt \<and>
     job = (job_tag_defaults (sensible_defaults (inst\<lparr>ji_NextTriggerTime := nt, jr_GroupID := 0\<rparr>)))\<lparr>ji_ID := i\<rparr> \<and>
     jr_GroupID job = 0 \<and> jr_GroupID inst = it_GroupID req \<and> ts_registry s1 = ts_registry s"
proof -
  obtain inst h where ri: "reg_Instantiate (it_TemplateName req) (override_of_request req) (ts_registry s) (ts_heap s) = (Inr inst, h)"
    using assms(2) by (auto simp: InstantiateTemplate_def split: sum.splits prod.splits if_splits)
  obtain tpl where t: "tr_templates (ts_registry s) (it_TemplateName req) = Some tpl"
    and inst: "Instantiate (Some tpl) (override_of_request req) = Inr inst"
    by (rule reg_Instantiate_Inr [OF ri])
  obtain js where c: "svc_CreateJob lb tb now (jobInfoToCreateRequest inst) (ts_jobs s) = (Inr job, js)"
    and s1: "s1 = s\<lparr>ts_heap := h, ts_jobs := js\<rparr>"
    using assms(2) ri by (auto simp: InstantiateTemplate_def split: prod.splits)
  have cron: "cr_CronExpression (jobInfoToCreateRequest inst) = ji_CronExpression inst"
    by (simp add: jobInfoToCreateRequest_def)
  obtain nt db where nt: "request_next lb now (ji_CronExpression inst) = Inr nt"
    and g: "gm_Create (tb_jobs tb) (sensible_defaults (job_of_request (jobInfoToCreateRequest inst) nt)) (sv_db (ts_jobs s)) = (Inr job, db)"
    using c cron by (auto simp: svc_CreateJob_def on_db_def jobs_Create_def split: sum.splits prod.splits)
  obtain i where job: "job = (job_tag_defaults (sensible_defaults (inst\<lparr>ji_NextTriggerTime := nt, jr_GroupID := 0\<rparr>)))\<lparr>ji_ID := i\<rparr>"
    using assms(1) g unfolding creates_with_def request_of_instance [OF inst] by blast
  have "jr_GroupID job = 0" by (simp add: job job_tag_defaults_def sensible_defaults_def Let_def)
  moreover have "jr_GroupID inst = it_GroupID req"
    using inst by (auto simp: Instantiate_def coalesceInt64_def override_of_request_def Let_def split: option.splits)
  ultimately show ?thesis using t inst nt job s1 by auto
qed

definition demo_instance :: InstantiateTemplateRequest where
  "demo_instance = \<lparr>it_TemplateName = ''nightly'', it_JobName = ''eu nightly'', it_ExecutorID = 3, it_ExecutorApp = [],
     it_ExecuteType = [], it_ExecuteHandler = [], it_ExecuteParam = ''eu'', it_RouteStrategy = [], it_BlockStrategy = 0,
     it_MisfireStrategy = 0, it_JobType = 0, it_CronExpression = [], it_Timeout = 0, it_RetryCount = 0,
     it_RetryInterval = 0, it_ShardingNum = 0, it_AlarmEmail = [], it_AlarmWebhook = [], it_JobDesc = [],
     it_CreateUser = [], it_GroupID = 8\<rparr>"

lemma demo_creates: "\<exists>job js. svc_CreateJob demo_libs list_tables now req s = (Inr job, js)"
  by (simp add: svc_CreateJob_def request_next_def CalcNextTriggerTime_def demo_libs_def on_db_def jobs_Create_def
      list_db_simps Let_def)

lemma InstantiateTemplate_row_witness:
  "\<exists>job s1. InstantiateTemplate demo_libs list_tables 7 demo_instance
       \<lparr>ts_registry = demo_registry, ts_heap = demo_label_heap, ts_jobs = demo_service demo_db\<rparr> = (Inr job, s1) \<and>
     it_GroupID demo_instance = 8 \<and> jr_GroupID job = 0 \<and> ts_registry s1 = demo_registry"
proof -
  let ?s = "\<lparr>ts_registry = demo_registry, ts_heap = demo_label_heap, ts_jobs = demo_service demo_db\<rparr>"
  obtain res h where r: "reg_Instantiate ''nightly'' (override_of_request demo_instance) demo_registry demo_label_heap = (res, h)"
    by fastforce
  have "ov_Validate (override_of_request demo_instance) = None"
    by (simp add: ov_Validate_def override_of_request_def demo_instance_def)
  then obtain inst where inst: "res = Inr inst"
    using r by (auto simp: reg_Instantiate_def reg_Get_def demo_registry_def Instantiate_def Let_def split: prod.splits)
  obtain job js where "svc_CreateJob demo_libs list_tables 7 (jobInfoToCreateRequest inst) (demo_service demo_db) = (Inr job, js)"
    using demo_creates by blast
  then obtain s1 where c: "InstantiateTemplate demo_libs list_tables 7 demo_instance ?s = (Inr job, s1)"
    using r inst by (simp add: InstantiateTemplate_def demo_instance_def)
  then show ?thesis using InstantiateTemplate_row [OF list_tables_create c] by (auto simp: demo_instance_def)
qed

end
