(* ===== verification/Executor_Service.thy ===== *)
theory Executor_Service
  imports List_DB Executor_Store XError
begin

text \<open>
  \<open>internal/service/executor_service.go\<close>: registration, heartbeat and deregistration of executors, in the
  database and in the in-memory registry of \<open>Executor_Store\<close> when there is one.
\<close>

record 'db ExecService =
  xs_db :: 'db
  xs_store :: "EStore option"
  xs_timeout :: duration

record RegisterRequest =
  rr_AppName :: string
  rr_Title :: string
  rr_Address :: string
  rr_Version :: string

definition exec_wrap :: "Code \<Rightarrow> db_error \<Rightarrow> go_error" where
  "exec_wrap code err = XErr (xerr_Wrap code (Some (db_text err)) [])"

definition new_executor :: "time \<Rightarrow> RegisterRequest \<Rightarrow> ExecutorRow" where
  "new_executor now req =
     \<lparr>ex_ID = 0, ex_AppName = rr_AppName req,
      ex_Title = (if rr_Title req = [] then rr_AppName req else rr_Title req), ex_Address = rr_Address req,
      ex_RegisterType = RegisterAuto, ex_Status = ExecutorOnline, ex_Weight = 0, ex_HeartbeatTime = Some now,
      ex_Version = rr_Version req, ex_Tags = [], xr_CPU = 0, xr_Memory = 0\<rparr>"

definition store_record :: "time \<Rightarrow> ExecutorRow \<Rightarrow> 'db ExecService \<Rightarrow> 'db ExecService" where
  "store_record now rec s =
     (case xs_store s of None \<Rightarrow> s | Some es \<Rightarrow> s\<lparr>xs_store := Some (es_Register now (Executor.truncate rec) es)\<rparr>)"

definition exec_Register :: "'db tables \<Rightarrow> time \<Rightarrow> time \<Rightarrow> RegisterRequest \<Rightarrow> 'db ExecService \<Rightarrow>
    go_error option \<times> 'db ExecService" where
  "exec_Register tb now storeNow req s =
     (case execs_FindByAppAndAddress tb (rr_AppName req) (rr_Address req) (xs_db s) of
        Inl (DbErr err) \<Rightarrow> (Some (exec_wrap CodeInternalServer (DbErr err)), s)
      | Inl RecordNotFound \<Rightarrow>
          (case execs_Create tb (new_executor now req) (xs_db s) of
             (Inl err, db) \<Rightarrow> (Some (exec_wrap CodeExecutorRegisterFail err), s\<lparr>xs_db := db\<rparr>)
           | (Inr e, db) \<Rightarrow> (None, store_record storeNow e (s\<lparr>xs_db := db\<rparr>)))
      | Inr existing \<Rightarrow>
          (case execs_UpdateHeartbeat tb (ex_ID existing) now (xs_db s) of
             (Some err, db) \<Rightarrow> (Some (exec_wrap CodeInternalServer err), s\<lparr>xs_db := db\<rparr>)
           | (None, db) \<Rightarrow>
               (None, store_record storeNow (existing\<lparr>ex_Version := rr_Version req\<rparr>) (s\<lparr>xs_db := db\<rparr>))))"

definition exec_Heartbeat :: "'db tables \<Rightarrow> time \<Rightarrow> time \<Rightarrow> RegisterRequest \<Rightarrow> 'db ExecService \<Rightarrow>
    go_error option \<times> 'db ExecService" where
  "exec_Heartbeat tb now storeNow req s =
     (case execs_FindByAppAndAddress tb (rr_AppName req) (rr_Address req) (xs_db s) of
        Inl RecordNotFound \<Rightarrow> exec_Register tb now storeNow req s
      | Inl (DbErr err) \<Rightarrow> (Some (exec_wrap CodeInternalServer (DbErr err)), s)
      | Inr existing \<Rightarrow>
          (case execs_UpdateHeartbeat tb (ex_ID existing) now (xs_db s) of
             (Some err, db) \<Rightarrow> (Some (Plain (db_text err)), s\<lparr>xs_db := db\<rparr>)
           | (None, db) \<Rightarrow>
               (None, case xs_store s of
                  None \<Rightarrow> s\<lparr>xs_db := db\<rparr>
                | Some es \<Rightarrow> s\<lparr>xs_db := db, xs_store := Some (es_Heartbeat storeNow (rr_AppName req) (rr_Address req)
                    (xr_CPU existing) (xr_Memory existing) es)\<rparr>)))"

definition exec_Deregister :: "'db tables \<Rightarrow> RegisterRequest \<Rightarrow> 'db ExecService \<Rightarrow> go_error option \<times> 'db ExecService" where
  "exec_Deregister tb req s =
     (let s1 = (case xs_store s of None \<Rightarrow> s
                | Some es \<Rightarrow> s\<lparr>xs_store := Some (es_Deregister (rr_AppName req) (rr_Address req) es)\<rparr>)
      in case execs_FindByAppAndAddress tb (rr_AppName req) (rr_Address req) (xs_db s1) of
           Inl err \<Rightarrow> (None, s1)
         | Inr existing \<Rightarrow>
             (case execs_UpdateStatus tb (ex_ID existing) ExecutorOffline (xs_db s1) of
                (Some err, db) \<Rightarrow> (Some (Plain (db_text err)), s1\<lparr>xs_db := db\<rparr>)
              | (None, db) \<Rightarrow> (None, s1\<lparr>xs_db := db\<rparr>)))"

definition exec_ListExecutors :: "'db tables \<Rightarrow> int \<Rightarrow> int \<Rightarrow> 'db ExecService \<Rightarrow> db_error + (ExecutorRow list \<times> nat)" where
  "exec_ListExecutors tb page pageSize s = execs_List tb page pageSize (xs_db s)"

definition exec_GetOnlineAddresses :: "'db tables \<Rightarrow> string \<Rightarrow> 'db ExecService \<Rightarrow> go_error + string list" where
  "exec_GetOnlineAddresses tb appName s =
     (case execs_ListByApp tb appName (xs_db s) of
        Inl err \<Rightarrow> Inl (exec_wrap CodeInternalServer err)
      | Inr executors \<Rightarrow>
          if executors = [] then Inl (XErr (xerr_New CodeExecutorOffline [])) else Inr (map ex_Address executors))"

definition exec_Sweep :: "'db tables \<Rightarrow> time \<Rightarrow> 'db ExecService \<Rightarrow> 'db ExecService" where
  "exec_Sweep tb now s = s\<lparr>xs_db := snd (execs_MarkOfflineTimeout tb now (xs_timeout s) (xs_db s))\<rparr>"

end
