(* ===== verification/Runner.thy ===== *)
theory Runner
  imports Idempotency Utils
begin

text \<open>
  \<open>internal/executor/executor.go\<close> and \<open>job_runner.go\<close>: the executor's handler registry, its set of running
  jobs and the runner. \<open>Run\<close> touches the shared state three times (the stopped flag, the idempotency table,
  the running set) and starts a goroutine that touches it twice at its end; each of these is a transition,
  and \<open>runner_step\<close> interleaves them with kills, table scans and \<open>Stop\<close>. What a handler or a script
  returns is an argument of the goroutine's end. Contexts are addresses; \<open>ru_cancelled\<close> are those that were
  cancelled. Logging is not modelled.
\<close>

section \<open>Handlers\<close>

type_synonym Registry = "string set"

definition hr_New :: Registry where "hr_New = {}"

text \<open>Registering a name twice panics (\<open>None\<close>).\<close>

definition hr_Register :: "string \<Rightarrow> Registry \<Rightarrow> Registry option" where
  "hr_Register name r = (if name \<in> r then None else Some (insert name r))"

definition hr_Get :: "string \<Rightarrow> Registry \<Rightarrow> bool" where "hr_Get name r \<longleftrightarrow> name \<in> r"

section \<open>Running jobs\<close>

record runningJob =
  rj_cancel :: nat
  rj_logID :: int
  rj_jobID :: int
  rj_start :: time

record RunningJobSet =
  rs_jobs :: "int \<rightharpoonup> runningJob"
  rs_wg :: int
  rs_drained :: bool

definition newRunningJobSet :: RunningJobSet where
  "newRunningJobSet = \<lparr>rs_jobs = Map.empty, rs_wg = 0, rs_drained = False\<rparr>"

definition rs_add :: "time \<Rightarrow> int \<Rightarrow> int \<Rightarrow> nat \<Rightarrow> RunningJobSet \<Rightarrow> bool \<times> RunningJobSet" where
  "rs_add now logID jobID cancel s =
     (if rs_drained s then (False, s)
      else (True, s\<lparr>rs_wg := rs_wg s + 1, rs_jobs := (rs_jobs s)(logID \<mapsto>
              \<lparr>rj_cancel = cancel, rj_logID = logID, rj_jobID = jobID, rj_start = now\<rparr>)\<rparr>))"

definition rs_remove :: "int \<Rightarrow> RunningJobSet \<Rightarrow> RunningJobSet" where
  "rs_remove logID s = s\<lparr>rs_jobs := (rs_jobs s)(logID := None), rs_wg := rs_wg s - 1\<rparr>"

definition rs_close :: "RunningJobSet \<Rightarrow> nat \<times> RunningJobSet" where
  "rs_close s = (map_len (rs_jobs s), s\<lparr>rs_drained := True\<rparr>)"

definition rs_count :: "RunningJobSet \<Rightarrow> nat" where "rs_count s = map_len (rs_jobs s)"

text \<open>The contexts \<open>killAll\<close> and \<open>kill\<close> cancel.\<close>

definition rs_killAll :: "RunningJobSet \<Rightarrow> nat set" where
  "rs_killAll s = rj_cancel ` ran (rs_jobs s)"

definition rs_kill :: "int \<Rightarrow> RunningJobSet \<Rightarrow> bool \<times> nat set" where
  "rs_kill logID s = (case rs_jobs s logID of None \<Rightarrow> (False, {}) | Some j \<Rightarrow> (True, {rj_cancel j}))"

fun idle_scan :: "int \<Rightarrow> (int \<times> runningJob) list \<Rightarrow> bool" where
  "idle_scan jobID [] = True"
| "idle_scan jobID ((k, j) # js) = (if rj_jobID j = jobID then False else idle_scan jobID js)"

definition rs_isIdle :: "int list \<Rightarrow> int \<Rightarrow> RunningJobSet \<Rightarrow> bool" where
  "rs_isIdle ord jobID s = idle_scan jobID (go_range (rs_jobs s) ord)"

text \<open>\<open>wg.Wait\<close> can return when the counter is zero; otherwise only the timeout ends the wait.\<close>

definition rs_wait_over :: "RunningJobSet \<Rightarrow> bool" where "rs_wait_over s \<longleftrightarrow> rs_wg s = 0"

section \<open>Runner\<close>

definition defaultGracefulTimeout :: duration where "defaultGracefulTimeout = 30 * second"

record RunRequest =
  rq_LogID :: int
  rq_JobID :: int
  rq_ExecutorHandler :: string
  rq_ExecuteType :: string
  rq_ExecuteParam :: string
  rq_ShardingIndex :: int
  rq_ShardingTotal :: int
  rq_Timeout :: int

record LogLine =
  ll_LogID :: int
  ll_JobID :: int
  ll_Content :: string

datatype run_error = ErrRunnerStopped | ErrAlreadyRunning | ErrPrevious string

text \<open>\<open>go_done\<close>: the goroutine has completed its record and is about to leave the running set.\<close>

record goroutine =
  go_req :: RunRequest
  go_ctx :: nat
  go_deadline :: "time option"
  go_done :: bool

datatype stop_stage = NotStopping | Closing | Waiting | ForcedWait | StopDone

record runnerOptions =
  ro_idempotencyOpts :: "(IdemOptions \<Rightarrow> IdemOptions) list"
  ro_scriptEngines :: "string set option"
  ro_gracefulTimeout :: duration

definition defaultRunnerOptions :: runnerOptions where
  "defaultRunnerOptions = \<lparr>ro_idempotencyOpts = [], ro_scriptEngines = None, ro_gracefulTimeout = defaultGracefulTimeout\<rparr>"

definition WithIdempotencyTTL :: "duration \<Rightarrow> runnerOptions \<Rightarrow> runnerOptions" where
  "WithIdempotencyTTL d ops = ops\<lparr>ro_idempotencyOpts := ro_idempotencyOpts ops @ [idem_WithTTL d]\<rparr>"

definition WithIdempotencyGCInterval :: "duration \<Rightarrow> runnerOptions \<Rightarrow> runnerOptions" where
  "WithIdempotencyGCInterval d ops = ops\<lparr>ro_idempotencyOpts := ro_idempotencyOpts ops @ [idem_WithGCInterval d]\<rparr>"

definition WithScriptEngineRegistry :: "string set option \<Rightarrow> runnerOptions \<Rightarrow> runnerOptions" where
  "WithScriptEngineRegistry r ops = ops\<lparr>ro_scriptEngines := r\<rparr>"

definition WithGracefulTimeout :: "duration \<Rightarrow> runnerOptions \<Rightarrow> runnerOptions" where
  "WithGracefulTimeout d ops = ops\<lparr>ro_gracefulTimeout := d\<rparr>"

record Runner =
  ru_registry :: Registry
  ru_engines :: "string set"
  ru_running :: RunningJobSet
  ru_table :: Table
  ru_logCh :: "LogLine list"
  ru_stopped :: bool
  ru_gracefulTimeout :: duration
  ru_stage :: stop_stage
  ru_checked :: "RunRequest list"
  ru_acquired :: "RunRequest list"
  ru_gos :: "goroutine list"
  ru_fresh :: nat
  ru_cancelled :: "nat set"

text \<open>\<open>builtin\<close> are the upper-case types of the script engines that a new engine registry holds.\<close>

definition NewRunner :: "string set \<Rightarrow> Registry \<Rightarrow> (runnerOptions \<Rightarrow> runnerOptions) list \<Rightarrow> Runner" where
  "NewRunner builtin registry opts =
     (let ops = foldl (\<lambda>a opt. opt a) defaultRunnerOptions opts
      in \<lparr>ru_registry = registry,
          ru_engines = (case ro_scriptEngines ops of None \<Rightarrow> builtin | Some r \<Rightarrow> r),
          ru_running = newRunningJobSet, ru_table = tbl_New (ro_idempotencyOpts ops), ru_logCh = [],
          ru_stopped = False, ru_gracefulTimeout = ro_gracefulTimeout ops, ru_stage = NotStopping,
          ru_checked = [], ru_acquired = [], ru_gos = [], ru_fresh = 0, ru_cancelled = {}\<rparr>)"

definition IsStopped :: "Runner \<Rightarrow> bool" where "IsStopped r \<longleftrightarrow> ru_stopped r"

section \<open>Run\<close>

text \<open>Each part of \<open>Run\<close> ends the call with a result (\<open>Inl\<close>, no error is \<open>None\<close>) or goes on.\<close>

definition run_check :: "RunRequest \<Rightarrow> Runner \<Rightarrow> run_error option + unit" where
  "run_check req r = (if ru_stopped r then Inl (Some ErrRunnerStopped) else Inr ())"

definition run_acquire :: "time \<Rightarrow> RunRequest \<Rightarrow> Runner \<Rightarrow> (run_error option + unit) \<times> Runner" where
  "run_acquire now req r =
     (let ((rcd, acquired), t) = tbl_TryAcquire now (rq_LogID req) (ru_table r);
          r1 = r\<lparr>ru_table := t\<rparr>
      in if acquired then (Inr (), r1)
         else case rec_State rcd of
           StateRunning \<Rightarrow> (Inl (Some ErrAlreadyRunning), r1)
         | StateSuccess \<Rightarrow> (Inl None, r1)
         | StateFailed \<Rightarrow> (Inl (map_option ErrPrevious (rec_Err rcd)), r1))"

definition stopped_text :: string where
  "stopped_text = ''runner: executor is shutting down, no new jobs accepted''"

definition run_add :: "time \<Rightarrow> time \<Rightarrow> RunRequest \<Rightarrow> Runner \<Rightarrow> run_error option \<times> Runner" where
  "run_add now completeNow req r =
     (let ctx = ru_fresh r;
          deadline = (if rq_Timeout req > 0 then Some (now + i64 (rq_Timeout req * second)) else None);
          r1 = r\<lparr>ru_fresh := Suc ctx\<rparr>;
          (ok, running) = rs_add now (rq_LogID req) (rq_JobID req) ctx (ru_running r1);
          r2 = r1\<lparr>ru_running := running\<rparr>
      in if \<not> ok then
           (Some ErrRunnerStopped, r2\<lparr>ru_cancelled := insert ctx (ru_cancelled r2),
              ru_table := tbl_Complete completeNow (rq_LogID req) (Some stopped_text) (ru_table r2)\<rparr>)
         else (None, r2\<lparr>ru_gos := ru_gos r2 @ [\<lparr>go_req = req, go_ctx = ctx, go_deadline = deadline, go_done = False\<rparr>]\<rparr>))"

text \<open>A call that no other transition interrupts.\<close>

definition runner_Run :: "time \<Rightarrow> RunRequest \<Rightarrow> Runner \<Rightarrow> run_error option \<times> Runner" where
  "runner_Run now req r =
     (case run_check req r of
        Inl res \<Rightarrow> (res, r)
      | Inr _ \<Rightarrow> (case run_acquire now req r of
            (Inl res, r1) \<Rightarrow> (res, r1)
          | (Inr _, r1) \<Rightarrow> run_add now now req r1))"

definition upper_char :: "char \<Rightarrow> char" where
  "upper_char c = (let n = (of_char c :: nat) in if 97 \<le> n \<and> n \<le> 122 then (char_of :: nat \<Rightarrow> char) (n - 32) else c)"

definition to_upper :: "string \<Rightarrow> string" where "to_upper s = map upper_char s"

text \<open>\<open>answer\<close> is what the handler returns for the request.\<close>

definition runBean :: "(RunRequest \<Rightarrow> string option) \<Rightarrow> RunRequest \<Rightarrow> Runner \<Rightarrow> string option" where
  "runBean answer req r =
     (if hr_Get (rq_ExecutorHandler req) (ru_registry r) then answer req
      else Some (''runner: handler '' @ go_quote (rq_ExecutorHandler req) @ '' not registered''))"

definition logChCap :: nat where "logChCap = 4096"

text \<open>\<open>script\<close> is the combined output and the error of the engine; without an engine of the type nothing runs,
  and the error lists the types in the order \<open>types\<close> of the map iteration.\<close>

definition runScript :: "string list \<Rightarrow> (RunRequest \<Rightarrow> string \<times> string option) \<Rightarrow> RunRequest \<Rightarrow> Runner \<Rightarrow> string option \<times> Runner" where
  "runScript types script req r =
     (if to_upper (rq_ExecuteType req) \<notin> ru_engines r
      then (Some (''runner: unsupported execute_type '' @ go_quote (rq_ExecuteType req) @ '' (registered engines: '' @
             go_join types '', '' @ '')''), r)
      else let (out, err) = script req
           in (err, if out \<noteq> [] \<and> length (ru_logCh r) < logChCap
                    then r\<lparr>ru_logCh := ru_logCh r @ [\<lparr>ll_LogID = rq_LogID req, ll_JobID = rq_JobID req, ll_Content = out\<rparr>]\<rparr>
                    else r))"

text \<open>The end of a goroutine: the handler has returned, the record is completed; then the job leaves the set
  and its context is cancelled.\<close>

definition go_finish :: "string list \<Rightarrow> (RunRequest \<Rightarrow> string option) \<Rightarrow> (RunRequest \<Rightarrow> string \<times> string option) \<Rightarrow> time \<Rightarrow> nat \<Rightarrow> Runner \<Rightarrow> Runner" where
  "go_finish types answer script now k r =
     (let g = ru_gos r ! k; req = go_req g;
          (err, r1) = (if to_upper (rq_ExecuteType req) = ''BEAN'' then (runBean answer req r, r) else runScript types script req r)
      in r1\<lparr>ru_table := tbl_Complete now (rq_LogID req) err (ru_table r1), ru_gos := (ru_gos r1)[k := g\<lparr>go_done := True\<rparr>]\<rparr>)"

definition drop_nth :: "nat \<Rightarrow> 'a list \<Rightarrow> 'a list" where "drop_nth k xs = take k xs @ drop (Suc k) xs"

definition go_leave :: "nat \<Rightarrow> Runner \<Rightarrow> Runner" where
  "go_leave k r =
     (let g = ru_gos r ! k
      in r\<lparr>ru_running := rs_remove (rq_LogID (go_req g)) (ru_running r), ru_gos := drop_nth k (ru_gos r),
           ru_cancelled := insert (go_ctx g) (ru_cancelled r)\<rparr>)"

definition runner_Kill :: "int \<Rightarrow> Runner \<Rightarrow> bool \<times> Runner" where
  "runner_Kill logID r =
     (let (ok, ctxs) = rs_kill logID (ru_running r) in (ok, r\<lparr>ru_cancelled := ru_cancelled r \<union> ctxs\<rparr>))"

definition runner_IsIdle :: "int list \<Rightarrow> int \<Rightarrow> Runner \<Rightarrow> bool" where
  "runner_IsIdle ord jobID r = rs_isIdle ord jobID (ru_running r)"

section \<open>Stop\<close>

text \<open>The phases of \<open>Stop\<close>: claim the stopped flag, close the set, wait, and after a timeout cancel all
  and wait once more. \<open>timeout\<close> says that the wait ran out.\<close>

definition stop_claim :: "Runner \<Rightarrow> Runner" where
  "stop_claim r = (if ru_stopped r then r else r\<lparr>ru_stopped := True, ru_stage := Closing\<rparr>)"

definition stop_close :: "Runner \<Rightarrow> Runner" where
  "stop_close r =
     (let r1 = r\<lparr>ru_running := snd (rs_close (ru_running r))\<rparr>
      in if ru_gracefulTimeout r1 > 0 then r1\<lparr>ru_stage := Waiting\<rparr>
         else r1\<lparr>ru_cancelled := ru_cancelled r1 \<union> rs_killAll (ru_running r1), ru_stage := ForcedWait\<rparr>)"

definition stop_wait :: "bool \<Rightarrow> Runner \<Rightarrow> Runner" where
  "stop_wait timeout r =
     (if timeout then r\<lparr>ru_cancelled := ru_cancelled r \<union> rs_killAll (ru_running r), ru_stage := ForcedWait\<rparr>
      else r\<lparr>ru_stage := StopDone\<rparr>)"

definition stop_forced :: "Runner \<Rightarrow> Runner" where "stop_forced r = r\<lparr>ru_stage := StopDone\<rparr>"

section \<open>Interleaving\<close>

inductive runner_step :: "Runner \<Rightarrow> Runner \<Rightarrow> bool" where
  rt_check: "run_check req r = Inr u \<Longrightarrow> runner_step r (r\<lparr>ru_checked := req # ru_checked r\<rparr>)"
| rt_acquire: "req \<in> set (ru_checked r) \<Longrightarrow> run_acquire now req r = (Inr u, r1) \<Longrightarrow>
    runner_step r (r1\<lparr>ru_checked := remove1 req (ru_checked r1), ru_acquired := req # ru_acquired r1\<rparr>)"
| rt_duplicate: "req \<in> set (ru_checked r) \<Longrightarrow> run_acquire now req r = (Inl res, r1) \<Longrightarrow>
    runner_step r (r1\<lparr>ru_checked := remove1 req (ru_checked r1)\<rparr>)"
| rt_add: "req \<in> set (ru_acquired r) \<Longrightarrow> run_add now cnow req r = (res, r1) \<Longrightarrow>
    runner_step r (r1\<lparr>ru_acquired := remove1 req (ru_acquired r1)\<rparr>)"
| rt_finish: "k < length (ru_gos r) \<Longrightarrow> \<not> go_done (ru_gos r ! k) \<Longrightarrow> runner_step r (go_finish types answer script now k r)"
| rt_leave: "k < length (ru_gos r) \<Longrightarrow> go_done (ru_gos r ! k) \<Longrightarrow> runner_step r (go_leave k r)"
| rt_kill: "runner_step r (snd (runner_Kill logID r))"
| rt_gc: "iter_order (tbl_records (ru_table r)) ord \<Longrightarrow> runner_step r (r\<lparr>ru_table := tbl_gc now ord (ru_table r)\<rparr>)"
| rt_claim: "runner_step r (stop_claim r)"
| rt_close: "ru_stage r = Closing \<Longrightarrow> runner_step r (stop_close r)"
| rt_wait: "ru_stage r = Waiting \<Longrightarrow> rs_wait_over (ru_running r) \<Longrightarrow> runner_step r (stop_wait False r)"
| rt_timeout: "ru_stage r = Waiting \<Longrightarrow> runner_step r (stop_wait True r)"
| rt_forced: "ru_stage r = ForcedWait \<Longrightarrow> runner_step r (stop_forced r)"

end
