(* ===== verification/Runner_Props.thy ===== *)
theory Runner_Props
  imports Runner "HOL-Library.Multiset"
begin

text \<open>
  What the runner guarantees under every interleaving: a log ID is never executed twice at the same time,
  the wait group counts the goroutines, and once the running set is closed no goroutine starts.
\<close>

section \<open>Invariant\<close>

definition executing :: "Runner \<Rightarrow> int list" where
  "executing r = map (rq_LogID \<circ> go_req) (filter (\<lambda>g. \<not> go_done g) (ru_gos r))"

text \<open>The log IDs whose record this runner has acquired and not completed.\<close>

definition live_logs :: "Runner \<Rightarrow> int list" where
  "live_logs r = map rq_LogID (ru_acquired r) @ executing r"

definition holds_record :: "Table \<Rightarrow> int \<Rightarrow> bool" where
  "holds_record t i \<longleftrightarrow> (\<exists>rcd. tbl_records t i = Some rcd \<and> rec_State rcd = StateRunning \<and> rec_expireAt rcd = zero_time)"

definition runner_inv :: "Runner \<Rightarrow> bool" where
  "runner_inv r \<longleftrightarrow> distinct (live_logs r) \<and> (\<forall>i \<in> set (live_logs r). holds_record (ru_table r) i) \<and>
     rs_wg (ru_running r) = int (length (ru_gos r)) \<and>
     dom (rs_jobs (ru_running r)) \<subseteq> rq_LogID ` go_req ` set (ru_gos r) \<and>
     (ru_stage r \<noteq> NotStopping \<longleftrightarrow> ru_stopped r) \<and>
     (ru_stage r \<in> {Waiting, ForcedWait, StopDone} \<longleftrightarrow> rs_drained (ru_running r))"

lemma runner_inv_New: "runner_inv (NewRunner b reg opts)"
  by (simp add: runner_inv_def NewRunner_def live_logs_def executing_def newRunningJobSet_def Let_def)

lemma same_field: "\<exists>t. r = r\<lparr>ru_table := t\<rparr>" "\<exists>l. r = r\<lparr>ru_logCh := l\<rparr>"
  by (rule exI [of _ "ru_table r"], simp) (rule exI [of _ "ru_logCh r"], simp)

lemma acquire_table:
  assumes "run_acquire now req r = (res, r1)"
  shows "(\<exists>t. r1 = r\<lparr>ru_table := t\<rparr>) \<and> (\<forall>i. holds_record (ru_table r) i \<longrightarrow> holds_record (ru_table r1) i) \<and>
    (\<forall>u. res = Inr u \<longrightarrow> tbl_records (ru_table r) (rq_LogID req) = None \<and> holds_record (ru_table r1) (rq_LogID req))"
  using assms
  by (auto simp: run_acquire_def tbl_TryAcquire_def holds_record_def Let_def same_field split: option.splits State.splits)

lemma complete_table:
  "i \<noteq> j \<Longrightarrow> holds_record t i \<Longrightarrow> holds_record (tbl_Complete now j err t) i"
  by (auto simp: holds_record_def tbl_Complete_def Let_def split: option.splits)

lemma gc_table:
  "iter_order (tbl_records t) ord \<Longrightarrow> holds_record t i \<Longrightarrow> holds_record (tbl_gc now ord t) i"
  by (auto simp: holds_record_def tbl_gc_records expired_running)

lemma remove1_split:
  assumes "x \<in> set xs"
  obtains as bs where "xs = as @ x # bs" "remove1 x xs = as @ bs"
  using split_list_first [OF assms] by (auto simp: remove1_append)

lemma drop_nth_split: "k < length xs \<Longrightarrow> mset xs = add_mset (xs ! k) (mset (drop_nth k xs))"
  using id_take_nth_drop [of k xs] by (simp add: drop_nth_def) (metis mset_append mset.simps(2) union_mset_add_mset_right)

lemma length_drop_nth: "k < length xs \<Longrightarrow> length (drop_nth k xs) = length xs - 1"
  by (simp add: drop_nth_def)

lemma set_drop_nth: "k < length xs \<Longrightarrow> set xs = insert (xs ! k) (set (drop_nth k xs))"
  using drop_nth_split [of k xs] by (metis set_mset_mset set_mset_add_mset_insert)

lemma filter_drop_nth: "k < length xs \<Longrightarrow> \<not> P (xs ! k) \<Longrightarrow> filter P (drop_nth k xs) = filter P xs"
  using id_take_nth_drop [of k xs] by (simp add: drop_nth_def) (metis filter.simps(2) filter_append)

text \<open>Completing goroutine \<open>k\<close> takes its log ID out of the executing ones.\<close>

lemma executing_finish:
  assumes "k < length gos" "\<not> go_done (gos ! k)"
  obtains as bs where
    "map (rq_LogID \<circ> go_req) (filter (\<lambda>g. \<not> go_done g) gos) = as @ rq_LogID (go_req (gos ! k)) # bs"
    "map (rq_LogID \<circ> go_req) (filter (\<lambda>g. \<not> go_done g) (gos[k := (gos ! k)\<lparr>go_done := True\<rparr>])) = as @ bs"
proof -
  let ?f = "\<lambda>xs. map (rq_LogID \<circ> go_req) (filter (\<lambda>g. \<not> go_done g) xs)"
  have "gos = take k gos @ gos ! k # drop (Suc k) gos" using assms(1) by (rule id_take_nth_drop)
  then have "?f gos = ?f (take k gos) @ rq_LogID (go_req (gos ! k)) # ?f (drop (Suc k) gos)"
    using assms(2) by (metis (no_types, lifting) comp_apply filter.simps(2) filter_append list.simps(9) map_append)
  moreover have "?f (gos[k := (gos ! k)\<lparr>go_done := True\<rparr>]) = ?f (take k gos) @ ?f (drop (Suc k) gos)"
    using assms(1) by (simp add: upd_conv_take_nth_drop)
  ultimately show ?thesis using that by blast
qed

lemma finish_shape:
  obtains err lch where "go_finish types answer script now k r = r\<lparr>ru_logCh := lch,
     ru_table := tbl_Complete now (rq_LogID (go_req (ru_gos r ! k))) err (ru_table r),
     ru_gos := (ru_gos r)[k := (ru_gos r ! k)\<lparr>go_done := True\<rparr>]\<rparr>"
proof -
  let ?req = "go_req (ru_gos r ! k)"
  obtain err r1 where e: "(if to_upper (rq_ExecuteType ?req) = ''BEAN'' then (runBean answer ?req r, r)
      else runScript types script ?req r) = (err, r1)" by fastforce
  have "\<exists>lch. r1 = r\<lparr>ru_logCh := lch\<rparr>"
    using e by (auto simp: runScript_def Let_def same_field split: if_splits prod.splits)
  then obtain lch where "r1 = r\<lparr>ru_logCh := lch\<rparr>" by blast
  then show ?thesis using that [of err lch] e by (simp add: go_finish_def Let_def)
qed

section \<open>Every step keeps the invariant\<close>

lemma runner_invD:
  assumes "runner_inv r"
  shows "distinct (live_logs r)" "\<And>i. i \<in> set (live_logs r) \<Longrightarrow> holds_record (ru_table r) i"
    "rs_wg (ru_running r) = int (length (ru_gos r))"
    "dom (rs_jobs (ru_running r)) \<subseteq> rq_LogID ` go_req ` set (ru_gos r)"
    "ru_stage r \<noteq> NotStopping \<longleftrightarrow> ru_stopped r"
    "ru_stage r \<in> {Waiting, ForcedWait, StopDone} \<longleftrightarrow> rs_drained (ru_running r)"
  using assms unfolding runner_inv_def by blast+

lemma inv_acquire:
  assumes inv: "runner_inv r" and c: "req \<in> set (ru_checked r)" and a: "run_acquire now req r = (Inr u, r1)"
  shows "runner_inv (r1\<lparr>ru_checked := remove1 req (ru_checked r1), ru_acquired := req # ru_acquired r1\<rparr>)"
proof -
  note D = runner_invD [OF inv]
  obtain t where r1: "r1 = r\<lparr>ru_table := t\<rparr>" and keep: "\<And>i. holds_record (ru_table r) i \<Longrightarrow> holds_record t i"
    and new: "tbl_records (ru_table r) (rq_LogID req) = None" "holds_record t (rq_LogID req)"
    using acquire_table [OF a] by auto
  have "rq_LogID req \<notin> set (live_logs r)" using D(2) [of "rq_LogID req"] new(1) by (auto simp: holds_record_def)
  then show ?thesis using D keep new(2) unfolding runner_inv_def by (auto simp: r1 live_logs_def executing_def)
qed

lemma inv_add:
  assumes inv: "runner_inv r" and q: "req \<in> set (ru_acquired r)" and a: "run_add now cnow req r = (res, r1)"
  shows "runner_inv (r1\<lparr>ru_acquired := remove1 req (ru_acquired r1)\<rparr>)"
proof -
  note D = runner_invD [OF inv]
  obtain as bs where s1: "ru_acquired r = as @ req # bs" and s2: "remove1 req (ru_acquired r) = as @ bs"
    by (rule remove1_split [OF q])
  note s = s1 s2 [unfolded s1]
  have dist: "distinct (map rq_LogID as @ rq_LogID req # map rq_LogID bs @ executing r)"
    using D(1) by (simp add: live_logs_def s)
  have mem: "\<And>i. i \<in> set (map rq_LogID as @ rq_LogID req # map rq_LogID bs @ executing r) \<Longrightarrow> holds_record (ru_table r) i"
    using D(2) by (simp add: live_logs_def s)
  show ?thesis
  proof (cases "rs_drained (ru_running r)")
    case True
    then have r1: "r1 = r\<lparr>ru_fresh := Suc (ru_fresh r), ru_cancelled := insert (ru_fresh r) (ru_cancelled r),
        ru_table := tbl_Complete cnow (rq_LogID req) (Some stopped_text) (ru_table r)\<rparr>"
      using a by (auto simp: run_add_def rs_add_def Let_def)
    have live: "live_logs (r1\<lparr>ru_acquired := remove1 req (ru_acquired r1)\<rparr>) = map rq_LogID as @ map rq_LogID bs @ executing r"
      by (simp add: r1 live_logs_def executing_def s)
    have "holds_record (ru_table r1) i" if "i \<in> set (map rq_LogID as @ map rq_LogID bs @ executing r)" for i
    proof -
      have "i \<noteq> rq_LogID req" using that dist by auto
      moreover have "holds_record (ru_table r) i" using that mem by auto
      ultimately show ?thesis by (simp add: r1 complete_table)
    qed
    then show ?thesis using D dist unfolding runner_inv_def live by (auto simp: r1)
  next
    case False
    let ?g = "\<lparr>go_req = req, go_ctx = ru_fresh r,
      go_deadline = (if rq_Timeout req > 0 then Some (now + i64 (rq_Timeout req * second)) else None), go_done = False\<rparr>"
    have r1: "r1 = r\<lparr>ru_fresh := Suc (ru_fresh r), ru_running := (ru_running r)\<lparr>rs_wg := rs_wg (ru_running r) + 1,
        rs_jobs := (rs_jobs (ru_running r))(rq_LogID req \<mapsto> \<lparr>rj_cancel = ru_fresh r, rj_logID = rq_LogID req,
          rj_jobID = rq_JobID req, rj_start = now\<rparr>)\<rparr>, ru_gos := ru_gos r @ [?g]\<rparr>"
      using a False by (auto simp: run_add_def rs_add_def Let_def)
    have live: "live_logs (r1\<lparr>ru_acquired := remove1 req (ru_acquired r1)\<rparr>) =
        map rq_LogID as @ map rq_LogID bs @ executing r @ [rq_LogID req]"
      by (simp add: r1 live_logs_def executing_def s)
    have "distinct (map rq_LogID as @ map rq_LogID bs @ executing r @ [rq_LogID req])" using dist by auto
    moreover have "holds_record (ru_table r1) i"
      if "i \<in> set (map rq_LogID as @ map rq_LogID bs @ executing r @ [rq_LogID req])" for i
      using that mem by (auto simp: r1)
    ultimately show ?thesis using D(3-6) False unfolding runner_inv_def live by (auto simp: r1)
  qed
qed

lemma inv_finish:
  assumes inv: "runner_inv r" and k: "k < length (ru_gos r)" "\<not> go_done (ru_gos r ! k)"
  shows "runner_inv (go_finish types answer script now k r)"
proof -
  note D = runner_invD [OF inv]
  let ?i = "rq_LogID (go_req (ru_gos r ! k))"
  obtain err lch where r1: "go_finish types answer script now k r = r\<lparr>ru_logCh := lch,
     ru_table := tbl_Complete now ?i err (ru_table r), ru_gos := (ru_gos r)[k := (ru_gos r ! k)\<lparr>go_done := True\<rparr>]\<rparr>"
    by (rule finish_shape)
  obtain as bs where e: "executing r = as @ ?i # bs"
    and e': "executing (go_finish types answer script now k r) = as @ bs"
    using executing_finish [OF k] by (auto simp: executing_def r1)
  have live: "live_logs (go_finish types answer script now k r) = map rq_LogID (ru_acquired r) @ as @ bs"
    by (simp add: live_logs_def e') (simp add: r1)
  have dist: "distinct (map rq_LogID (ru_acquired r) @ as @ ?i # bs)" using D(1) by (simp add: live_logs_def e)
  have "holds_record (tbl_Complete now ?i err (ru_table r)) j"
    if "j \<in> set (map rq_LogID (ru_acquired r) @ as @ bs)" for j
  proof -
    have "j \<noteq> ?i" using that dist by auto
    moreover have "holds_record (ru_table r) j" using that D(2) [of j] by (auto simp: live_logs_def e)
    ultimately show ?thesis by (rule complete_table)
  qed
  moreover have "rq_LogID ` go_req ` set ((ru_gos r)[k := (ru_gos r ! k)\<lparr>go_done := True\<rparr>]) = rq_LogID ` go_req ` set (ru_gos r)"
  proof -
    have "map go_req ((ru_gos r)[k := (ru_gos r ! k)\<lparr>go_done := True\<rparr>]) = map go_req (ru_gos r)"
      using k(1) by (simp add: map_update list_update_same_conv)
    then show ?thesis by (metis set_map)
  qed
  ultimately show ?thesis using dist D(3-6) unfolding runner_inv_def live by (auto simp: r1)
qed

lemma inv_leave:
  assumes inv: "runner_inv r" and k: "k < length (ru_gos r)" "go_done (ru_gos r ! k)"
  shows "runner_inv (go_leave k r)"
proof -
  note D = runner_invD [OF inv]
  have "live_logs (go_leave k r) = live_logs r"
    using k filter_drop_nth [of k "ru_gos r" "\<lambda>g. \<not> go_done g"] by (simp add: live_logs_def executing_def go_leave_def Let_def)
  moreover have "rs_wg (ru_running (go_leave k r)) = int (length (ru_gos (go_leave k r)))"
    using D(3) k(1) by (simp add: go_leave_def rs_remove_def length_drop_nth Let_def)
  moreover have "dom (rs_jobs (ru_running (go_leave k r))) \<subseteq> rq_LogID ` go_req ` set (ru_gos (go_leave k r))"
    using D(4) set_drop_nth [OF k(1)] by (auto simp: go_leave_def rs_remove_def Let_def)
  ultimately show ?thesis using D(1,2,5,6) unfolding runner_inv_def by (simp add: go_leave_def rs_remove_def Let_def)
qed

lemma runner_inv_cong:
  assumes "runner_inv r" "ru_acquired r' = ru_acquired r" "ru_gos r' = ru_gos r" "ru_table r' = ru_table r"
    "ru_running r' = ru_running r" "ru_stopped r' = ru_stopped r" "ru_stage r' = ru_stage r"
  shows "runner_inv r'"
  using assms by (simp add: runner_inv_def live_logs_def executing_def)

lemma runner_step_inv: "runner_step r r' \<Longrightarrow> runner_inv r \<Longrightarrow> runner_inv r'"
proof (induction rule: runner_step.induct)
  case (rt_duplicate req r now res r1)
  obtain t where r1: "r1 = r\<lparr>ru_table := t\<rparr>" "\<And>i. holds_record (ru_table r) i \<Longrightarrow> holds_record t i"
    using acquire_table [OF rt_duplicate(2)] by auto
  note D = runner_invD [OF rt_duplicate(3)]
  have live: "live_logs (r1\<lparr>ru_checked := remove1 req (ru_checked r1)\<rparr>) = live_logs r"
    by (simp add: r1 live_logs_def executing_def)
  show ?case using D r1(2) unfolding runner_inv_def live by (auto simp: r1(1))
next
  case (rt_gc r ord now)
  have live: "live_logs (r\<lparr>ru_table := tbl_gc now ord (ru_table r)\<rparr>) = live_logs r"
    by (simp add: live_logs_def executing_def)
  show ?case using runner_invD [OF rt_gc(2)] gc_table [OF rt_gc(1)] unfolding runner_inv_def live by auto
next
  case (rt_claim r)
  have live: "live_logs (stop_claim r) = live_logs r" by (simp add: live_logs_def executing_def stop_claim_def)
  show ?case using runner_invD [OF rt_claim] unfolding runner_inv_def live by (auto simp: stop_claim_def)
next
  case (rt_close r)
  have live: "live_logs (stop_close r) = live_logs r" by (simp add: live_logs_def executing_def stop_close_def Let_def)
  show ?case using runner_invD [OF rt_close(2)] rt_close(1) unfolding runner_inv_def live
    by (auto simp: stop_close_def rs_close_def Let_def)
next
  case (rt_kill r logID)
  then show ?case by (rule runner_inv_cong) (simp_all add: runner_Kill_def case_prod_beta)
next
  case (rt_check req r u)
  from rt_check(2) show ?case by (rule runner_inv_cong) simp_all
next
  case (rt_acquire req r now u r1)
  show ?case by (rule inv_acquire [OF rt_acquire(3,1,2)])
next
  case (rt_add req r now cnow res r1)
  show ?case by (rule inv_add [OF rt_add(3,1,2)])
next
  case (rt_finish k r types answer script now)
  show ?case by (rule inv_finish [OF rt_finish(3,1,2)])
next
  case (rt_leave k r)
  show ?case by (rule inv_leave [OF rt_leave(3,1,2)])
next
  case (rt_wait r)
  have live: "live_logs (stop_wait False r) = live_logs r" by (simp add: live_logs_def executing_def stop_wait_def)
  show ?case using runner_invD [OF rt_wait(3)] rt_wait(1) unfolding runner_inv_def live by (auto simp: stop_wait_def)
next
  case (rt_timeout r)
  have live: "live_logs (stop_wait True r) = live_logs r" by (simp add: live_logs_def executing_def stop_wait_def)
  show ?case using runner_invD [OF rt_timeout(2)] rt_timeout(1) unfolding runner_inv_def live by (auto simp: stop_wait_def)
next
  case (rt_forced r)
  have live: "live_logs (stop_forced r) = live_logs r" by (simp add: live_logs_def executing_def stop_forced_def)
  show ?case using runner_invD [OF rt_forced(2)] rt_forced(1) unfolding runner_inv_def live by (auto simp: stop_forced_def)
qed

lemma runner_steps_inv: "runner_step\<^sup>*\<^sup>* r r' \<Longrightarrow> runner_inv r \<Longrightarrow> runner_inv r'"
  by (induction rule: rtranclp_induct) (auto dest: runner_step_inv)

text \<open>A call of \<open>Run\<close> that nothing interrupts is a path of the interleaving.\<close>

lemma acquire_checked:
  "run_acquire now req (r\<lparr>ru_checked := c\<rparr>) = (fst (run_acquire now req r), (snd (run_acquire now req r))\<lparr>ru_checked := c\<rparr>)"
  by (simp add: run_acquire_def Let_def case_prod_beta split: State.splits)

lemma add_acquired:
  "run_add now cnow req (r\<lparr>ru_acquired := c\<rparr>) = (fst (run_add now cnow req r), (snd (run_add now cnow req r))\<lparr>ru_acquired := c\<rparr>)"
  by (simp add: run_add_def Let_def case_prod_beta)

lemma runner_Run_steps: "runner_step\<^sup>*\<^sup>* r (snd (runner_Run now req r))"
proof (cases "run_check req r")
  case (Inl a)
  then show ?thesis by (simp add: runner_Run_def)
next
  case (Inr u)
  let ?c = "r\<lparr>ru_checked := req # ru_checked r\<rparr>"
  obtain res r1 where acq: "run_acquire now req r = (res, r1)" by fastforce
  have acq': "run_acquire now req ?c = (res, r1\<lparr>ru_checked := req # ru_checked r\<rparr>)" by (simp add: acquire_checked acq)
  have same: "ru_checked r1 = ru_checked r" using acquire_table [OF acq] by auto
  have s1: "runner_step r ?c" by (rule rt_check [OF Inr])
  have in1: "req \<in> set (ru_checked ?c)" by simp
  show ?thesis
  proof (cases res)
    case (Inl e)
    have "runner_step ?c r1" using rt_duplicate [OF in1 acq' [unfolded Inl]] by (simp add: same [symmetric])
    then show ?thesis using s1 by (simp add: runner_Run_def Inr acq Inl)
  next
    case (Inr v)
    obtain out r2 where add: "run_add now now req r1 = (out, r2)" by fastforce
    let ?a = "r1\<lparr>ru_acquired := req # ru_acquired r1\<rparr>"
    have "runner_step ?c ?a" using rt_acquire [OF in1 acq' [unfolded Inr]] by (simp add: same [symmetric])
    moreover have "ru_acquired r2 = ru_acquired r1"
      using add by (auto simp: run_add_def Let_def case_prod_beta split: if_splits)
    then have "runner_step ?a r2"
      using rt_add [of req ?a now now out "r2\<lparr>ru_acquired := req # ru_acquired r1\<rparr>"]
      by (simp add: add_acquired add) (metis Runner.surjective Runner.update_convs(10))
    ultimately show ?thesis using s1
      by (simp add: runner_Run_def \<open>run_check req r = Inr u\<close> acq Inr add)
  qed
qed

definition demo_req :: "int \<Rightarrow> RunRequest" where
  "demo_req i = \<lparr>rq_LogID = i, rq_JobID = 1, rq_ExecutorHandler = ''report'', rq_ExecuteType = ''BEAN'',
     rq_ExecuteParam = [], rq_ShardingIndex = 0, rq_ShardingTotal = 1, rq_Timeout = 0\<rparr>"

definition demo_runner :: Runner where
  "demo_runner = snd (runner_Run 9 (demo_req 7) (snd (runner_Run 5 (demo_req 7) (NewRunner {} {''report''} []))))"

lemma demo_steps: "runner_step\<^sup>*\<^sup>* (NewRunner {} {''report''} []) demo_runner"
  unfolding demo_runner_def using runner_Run_steps by (rule rtranclp_trans) (rule runner_Run_steps)

lemmas run_defs = runner_Run_def run_check_def run_acquire_def run_add_def rs_add_def tbl_TryAcquire_def
  NewRunner_def tbl_New_def newRunningJobSet_def defaultRunnerOptions_def demo_req_def Let_def

lemma demo_shape: "executing demo_runner = [7]" "ru_acquired demo_runner = []" "ru_stage demo_runner = NotStopping"
  "go_req ` set (ru_gos demo_runner) = {demo_req 7}"
  by (simp_all add: demo_runner_def executing_def run_defs)

text \<open>Property C1: whatever requests, duplicates, kills, table scans and shutdown phases interleave, the runner
  never executes a log ID twice at the same time, not even between the acquisition of its record and the
  start of its goroutine; and the wait group always counts the goroutines that have not left.\<close>

theorem runner_never_doubles:
  assumes "runner_step\<^sup>*\<^sup>* (NewRunner builtin registry opts) r"
  shows "distinct (map rq_LogID (ru_acquired r) @ executing r) \<and>
    (\<forall>i \<in> set (executing r). \<exists>rcd. tbl_Get i (ru_table r) = Some rcd \<and> rec_Running rcd) \<and>
    rs_wg (ru_running r) = int (length (ru_gos r))"
proof -
  note D = runner_invD [OF runner_steps_inv [OF assms runner_inv_New]]
  have "\<exists>rcd. tbl_Get i (ru_table r) = Some rcd \<and> rec_Running rcd" if "i \<in> set (executing r)" for i
    using D(2) [of i] that unfolding holds_record_def live_logs_def by (fastforce simp: tbl_Get_def rec_Running_def)
  then show ?thesis using D(1,3) unfolding live_logs_def by blast
qed

lemma runner_never_doubles_witness: "distinct (7 # map rq_LogID (ru_acquired demo_runner)) \<and>
    rs_wg (ru_running demo_runner) = int (length (ru_gos demo_runner))"
  using runner_never_doubles [OF demo_steps] by (simp add: demo_shape)

section \<open>After the close\<close>

lemma drained_step:
  assumes "runner_step r r'" "rs_drained (ru_running r)"
  shows "rs_drained (ru_running r') \<and> go_req ` set (ru_gos r') \<subseteq> go_req ` set (ru_gos r) \<and>
    length (ru_gos r') \<le> length (ru_gos r) \<and> (ru_stopped r \<longrightarrow> ru_stopped r')"
  using assms
proof (induction rule: runner_step.induct)
  case (rt_acquire req r now u r1)
  then show ?case using acquire_table [OF rt_acquire(2)] by auto
next
  case (rt_duplicate req r now res r1)
  then show ?case using acquire_table [OF rt_duplicate(2)] by auto
next
  case (rt_add req r now cnow res r1)
  then show ?case by (auto simp: run_add_def rs_add_def Let_def)
next
  case (rt_finish k r types answer script now)
  obtain err lch where r1: "go_finish types answer script now k r = r\<lparr>ru_logCh := lch,
     ru_table := tbl_Complete now (rq_LogID (go_req (ru_gos r ! k))) err (ru_table r),
     ru_gos := (ru_gos r)[k := (ru_gos r ! k)\<lparr>go_done := True\<rparr>]\<rparr>" by (rule finish_shape)
  have "map go_req ((ru_gos r)[k := (ru_gos r ! k)\<lparr>go_done := True\<rparr>]) = map go_req (ru_gos r)"
    using rt_finish(1) by (simp add: map_update list_update_same_conv)
  then have "go_req ` set ((ru_gos r)[k := (ru_gos r ! k)\<lparr>go_done := True\<rparr>]) = go_req ` set (ru_gos r)" by (metis set_map)
  then show ?case using rt_finish(3) by (simp add: r1)
next
  case (rt_leave k r)
  then show ?case using set_drop_nth [of k "ru_gos r"]
    by (auto simp: go_leave_def rs_remove_def length_drop_nth Let_def)
qed (simp_all add: runner_Kill_def case_prod_beta stop_claim_def stop_close_def rs_close_def stop_wait_def stop_forced_def Let_def)

lemma drained_steps:
  assumes "runner_step\<^sup>*\<^sup>* r r'" "rs_drained (ru_running r)"
  shows "rs_drained (ru_running r') \<and> go_req ` set (ru_gos r') \<subseteq> go_req ` set (ru_gos r) \<and>
    length (ru_gos r') \<le> length (ru_gos r) \<and> (ru_stopped r \<longrightarrow> ru_stopped r')"
  using assms
proof (induction rule: rtranclp_induct)
  case (step y z)
  then show ?case using drained_step [OF step(2)] by (meson order_trans)
qed simp

text \<open>Property C16: once Stop has closed the running set, no goroutine ever starts again, even for a call of Run
  that had passed every check before: the goroutines left are among those of the moment of the close, a new
  call is refused, and a Stop that ends its graceful wait leaves none.\<close>

theorem closed_runner_starts_nothing:
  assumes "runner_step\<^sup>*\<^sup>* (NewRunner builtin registry opts) r0" "rs_drained (ru_running r0)" "runner_step\<^sup>*\<^sup>* r0 r"
  shows "go_req ` set (ru_gos r) \<subseteq> go_req ` set (ru_gos r0) \<and>
    runner_Run now req r = (Some ErrRunnerStopped, r) \<and>
    (ru_stage r = Waiting \<and> rs_wait_over (ru_running r) \<longrightarrow>
       (\<forall>r2. runner_step\<^sup>*\<^sup>* (stop_wait False r) r2 \<longrightarrow> ru_gos r2 = []))"
proof -
  have inv0: "runner_inv r0" by (rule runner_steps_inv [OF assms(1) runner_inv_New])
  have inv: "runner_inv r" by (rule runner_steps_inv [OF assms(3) inv0])
  note d = drained_steps [OF assms(3,2)]
  have "ru_stopped r" using runner_invD(5,6) [OF inv] d by auto
  then have run: "runner_Run now req r = (Some ErrRunnerStopped, r)" by (simp add: runner_Run_def run_check_def)
  have "ru_gos r2 = []"
    if "rs_wait_over (ru_running r)" "runner_step\<^sup>*\<^sup>* (stop_wait False r) r2" for r2
  proof -
    have "ru_gos (stop_wait False r) = []"
      using that(1) runner_invD(3) [OF inv] by (simp add: rs_wait_over_def stop_wait_def)
    moreover have "rs_drained (ru_running (stop_wait False r))" using d by (simp add: stop_wait_def)
    ultimately show ?thesis using drained_steps [OF that(2)] by auto
  qed
  then show ?thesis using d run by blast
qed

lemma closed_runner_starts_nothing_witness:
  "go_req ` set (ru_gos (stop_close (stop_claim demo_runner))) \<subseteq> {demo_req 7} \<and>
   runner_Run 12 (demo_req 8) (stop_close (stop_claim demo_runner)) = (Some ErrRunnerStopped, stop_close (stop_claim demo_runner))"
proof -
  let ?r = "stop_close (stop_claim demo_runner)"
  have ns: "\<not> ru_stopped demo_runner"
    using runner_invD(5) [OF runner_steps_inv [OF demo_steps runner_inv_New]] by (simp add: demo_shape)
  have st: "ru_stage (stop_claim demo_runner) = Closing" using ns by (simp add: stop_claim_def)
  have reach: "runner_step\<^sup>*\<^sup>* (NewRunner {} {''report''} []) ?r"
    using demo_steps rt_claim [of demo_runner] rt_close [OF st] by (meson rtranclp.rtrancl_into_rtrancl)
  have dr: "rs_drained (ru_running ?r)" by (simp add: stop_close_def rs_close_def Let_def)
  have "ru_gos ?r = ru_gos demo_runner" by (simp add: stop_close_def stop_claim_def Let_def)
  then show ?thesis using closed_runner_starts_nothing [OF reach dr rtranclp.rtrancl_refl, of 12 "demo_req 8"] by (simp add: demo_shape)
qed

end
