(* ===== verification/Executor_API.thy ===== *)
theory Executor_API
  imports Runner_Props Executor_Service Dispatch
begin

text \<open>
  The HTTP interface between the scheduler's node and the executors, both ways: the response envelope
  (\<open>api/response\<close>), the shared-token check (\<open>InternalAuth\<close>), the executor's handlers
  (\<open>api/handler/executor\<close>) with their routes (\<open>cmd/executor/main.go\<close>), the admin's handlers for
  executors with their routes (\<open>cmd/admin/main.go\<close>), and the registrar of the executor
  (\<open>internal/executor/registry.go\<close>). JSON is not modelled: a body is what the handler binds. An error of a
  handler is its text, so the sentinel that \<open>Run\<close> completes a record with is recognised by its text.
\<close>

section \<open>Responses\<close>

record R =
  r_status :: int
  r_Code :: int
  r_Message :: string

definition resp_OK :: R where "resp_OK = \<lparr>r_status = 200, r_Code = 0, r_Message = ''success''\<rparr>"

fun resp_Fail :: "go_error \<Rightarrow> R" where
  "resp_Fail (XErr e) = \<lparr>r_status = HTTPStatus (xe_Code e), r_Code = xe_Code e, r_Message = xe_Message e\<rparr>"
| "resp_Fail (Plain s) = \<lparr>r_status = 500, r_Code = CodeInternalServer, r_Message = s\<rparr>"

definition resp_BadRequest :: "string \<Rightarrow> R" where
  "resp_BadRequest msg = \<lparr>r_status = 400, r_Code = CodeInvalidParam, r_Message = msg\<rparr>"

definition resp_Unauthorized :: "string \<Rightarrow> R" where
  "resp_Unauthorized msg =
     (let m = (if msg = [] then Message CodeUnauthorized else msg)
      in \<lparr>r_status = 401, r_Code = CodeUnauthorized, r_Message = m\<rparr>)"

text \<open>The header is the empty string when the request has none; \<open>None\<close> lets the request through.\<close>

definition InternalAuth :: "string \<Rightarrow> string \<Rightarrow> R option" where
  "InternalAuth token header =
     (if header \<noteq> token then Some \<lparr>r_status = 401, r_Code = CodeUnauthorized, r_Message = ''invalid internal token''\<rparr>
      else None)"

section \<open>The executor's handlers\<close>

definition stopped_error :: "run_error \<Rightarrow> bool" where
  "stopped_error e \<longleftrightarrow> e = ErrRunnerStopped \<or> e = ErrPrevious stopped_text"

definition run_response :: "run_error option \<Rightarrow> R" where
  "run_response err =
     (case err of
        None \<Rightarrow> resp_OK
      | Some e \<Rightarrow>
          if e = ErrAlreadyRunning then resp_Fail (XErr (xerr_New CodeDuplicateExecution []))
          else if stopped_error e then resp_Fail (XErr (xerr_New CodeExecutorDraining []))
          else resp_Fail (Plain (case e of ErrPrevious s \<Rightarrow> s | _ \<Rightarrow> [])))"

definition handle_Run :: "time \<Rightarrow> string + RunRequest \<Rightarrow> Runner \<Rightarrow> R \<times> Runner" where
  "handle_Run now body r =
     (case body of Inl err \<Rightarrow> (resp_BadRequest err, r)
      | Inr req \<Rightarrow> (let (err, r1) = runner_Run now req r in (run_response err, r1)))"

definition handle_Kill :: "string + KillRequest \<Rightarrow> Runner \<Rightarrow> R \<times> Runner" where
  "handle_Kill body r =
     (case body of Inl err \<Rightarrow> (resp_BadRequest err, r)
      | Inr req \<Rightarrow> (let (ok, r1) = runner_Kill (kr_LogID req) r
                    in (if \<not> ok then resp_BadRequest ''job not running'' else resp_OK, r1)))"

definition handle_Beat :: R where "handle_Beat = resp_OK"

definition handle_IdleBeat :: "int list \<Rightarrow> string + int \<Rightarrow> Runner \<Rightarrow> R" where
  "handle_IdleBeat ord body r =
     (case body of Inl err \<Rightarrow> resp_BadRequest err
      | Inr jobID \<Rightarrow> if \<not> runner_IsIdle ord jobID r then resp_BadRequest ''executor is busy'' else resp_OK)"

text \<open>The bodies of the client bound to the handlers' structs, field by field of the same JSON tag; a field
  that is not sent is zero, and an empty body does not bind.\<close>

fun bind_run :: "payload \<Rightarrow> string + RunRequest" where
  "bind_run (RunBody t) = Inr \<lparr>rq_LogID = et_LogID t, rq_JobID = et_JobID t, rq_ExecutorHandler = et_ExecutorHandler t,
     rq_ExecuteType = et_ExecuteType t, rq_ExecuteParam = et_ExecuteParam t, rq_ShardingIndex = et_ShardingIndex t,
     rq_ShardingTotal = et_ShardingTotal t, rq_Timeout = et_Timeout t\<rparr>"
| "bind_run (KillBody k) = Inr \<lparr>rq_LogID = kr_LogID k, rq_JobID = kr_JobID k, rq_ExecutorHandler = [],
     rq_ExecuteType = [], rq_ExecuteParam = [], rq_ShardingIndex = 0, rq_ShardingTotal = 0, rq_Timeout = 0\<rparr>"
| "bind_run (IdleBeatBody j) = Inr \<lparr>rq_LogID = 0, rq_JobID = j, rq_ExecutorHandler = [],
     rq_ExecuteType = [], rq_ExecuteParam = [], rq_ShardingIndex = 0, rq_ShardingTotal = 0, rq_Timeout = 0\<rparr>"
| "bind_run NoBody = Inl ''EOF''"

fun bind_kill :: "payload \<Rightarrow> string + KillRequest" where
  "bind_kill (RunBody t) = Inr \<lparr>kr_LogID = et_LogID t, kr_JobID = et_JobID t\<rparr>"
| "bind_kill (KillBody k) = Inr k"
| "bind_kill (IdleBeatBody j) = Inr \<lparr>kr_LogID = 0, kr_JobID = j\<rparr>"
| "bind_kill NoBody = Inl ''EOF''"

fun bind_idle :: "payload \<Rightarrow> string + int" where
  "bind_idle (RunBody t) = Inr (et_JobID t)"
| "bind_idle (KillBody k) = Inr (kr_JobID k)"
| "bind_idle (IdleBeatBody j) = Inr j"
| "bind_idle NoBody = Inl ''EOF''"

definition executor_token :: string where "executor_token = ''go-jobs-internal''"

definition executor_routes :: "string list" where
  "executor_routes = [''/executor/run'', ''/executor/kill'', ''/executor/beat'', ''/executor/idleBeat'']"

definition page_not_found :: R where "page_not_found = \<lparr>r_status = 404, r_Code = 0, r_Message = []\<rparr>"

text \<open>The server of \<open>cmd/executor\<close>: the check of the group runs before its handlers.\<close>

definition executor_server :: "time \<Rightarrow> int list \<Rightarrow> string \<Rightarrow> string \<Rightarrow> payload \<Rightarrow> Runner \<Rightarrow> R \<times> Runner" where
  "executor_server now ord header path body r =
     (if path \<notin> set executor_routes then (page_not_found, r)
      else case InternalAuth executor_token header of
        Some resp \<Rightarrow> (resp, r)
      | None \<Rightarrow>
          if path = ''/executor/run'' then handle_Run now (bind_run body) r
          else if path = ''/executor/kill'' then handle_Kill (bind_kill body) r
          else if path = ''/executor/beat'' then (handle_Beat, r)
          else (handle_IdleBeat ord (bind_idle body) r, r))"

section \<open>The scheduler's client at an executor\<close>

text \<open>The header that \<open>ExecutorClient.post\<close> sets.\<close>

definition client_token :: string where "client_token = ''internal''"

text \<open>The network of \<open>Dispatch\<close> when one executor listens at \<open>address\<close>.\<close>

definition executor_network :: "string \<Rightarrow> time \<Rightarrow> int list \<Rightarrow> string \<Rightarrow> Runner \<Rightarrow> network" where
  "executor_network header now ord address r url body =
     (let host = client_url address []; n = length host
      in if take n url = host
         then let resp = fst (executor_server now ord header (drop n url) body r)
              in Response (r_status resp) (r_Message resp)
         else NoResponse ''connection refused'')"

section \<open>The admin's handlers for executors\<close>

text \<open>\<open>unbound\<close> is the text of the validator when a required field is empty.\<close>

definition bind_register :: "string \<Rightarrow> RegisterRequest \<Rightarrow> string + RegisterRequest" where
  "bind_register unbound req = (if rr_AppName req = [] \<or> rr_Address req = [] then Inl unbound else Inr req)"

definition result_response :: "go_error option \<Rightarrow> R" where
  "result_response err = (case err of Some e \<Rightarrow> resp_Fail e | None \<Rightarrow> resp_OK)"

definition handle_Register :: "'db tables \<Rightarrow> time \<Rightarrow> time \<Rightarrow> string + RegisterRequest \<Rightarrow> 'db ExecService \<Rightarrow>
    R \<times> 'db ExecService" where
  "handle_Register tb now storeNow body s =
     (case body of Inl err \<Rightarrow> (resp_BadRequest err, s)
      | Inr req \<Rightarrow> (let (err, s1) = exec_Register tb now storeNow req s in (result_response err, s1)))"

definition handle_Heartbeat :: "'db tables \<Rightarrow> time \<Rightarrow> time \<Rightarrow> string + RegisterRequest \<Rightarrow> 'db ExecService \<Rightarrow>
    R \<times> 'db ExecService" where
  "handle_Heartbeat tb now storeNow body s =
     (case body of Inl err \<Rightarrow> (resp_BadRequest err, s)
      | Inr req \<Rightarrow> (let (err, s1) = exec_Heartbeat tb now storeNow req s in (result_response err, s1)))"

text \<open>The binding error is ignored: the struct keeps what was decoded.\<close>

definition handle_Deregister :: "'db tables \<Rightarrow> RegisterRequest \<Rightarrow> 'db ExecService \<Rightarrow> R \<times> 'db ExecService" where
  "handle_Deregister tb req s = (resp_OK, snd (exec_Deregister tb req s))"

definition admin_token :: "string \<Rightarrow> string" where
  "admin_token internalToken = (if internalToken = [] then ''go-jobs-internal'' else internalToken)"

definition admin_routes :: "string list" where
  "admin_routes = [''/api/executor/register'', ''/api/executor/heartbeat'', ''/api/executor/deregister'']"

definition admin_server :: "string \<Rightarrow> string \<Rightarrow> 'db tables \<Rightarrow> time \<Rightarrow> time \<Rightarrow> string \<Rightarrow> string \<Rightarrow> RegisterRequest \<Rightarrow>
    'db ExecService \<Rightarrow> R \<times> 'db ExecService" where
  "admin_server internalToken unbound tb now storeNow header path req s =
     (if path \<notin> set admin_routes then (page_not_found, s)
      else case InternalAuth (admin_token internalToken) header of
        Some resp \<Rightarrow> (resp, s)
      | None \<Rightarrow>
          if path = ''/api/executor/register'' then handle_Register tb now storeNow (bind_register unbound req) s
          else if path = ''/api/executor/heartbeat'' then handle_Heartbeat tb now storeNow (bind_register unbound req) s
          else handle_Deregister tb req s)"

section \<open>The registrar\<close>

definition defaultHeartbeatInterval :: duration where "defaultHeartbeatInterval = 20 * second"

text \<open>The requests of the registrar have the fields and tags of \<open>RegisterRequest\<close>.\<close>

record AutoRegistrar =
  ar_adminURL :: string
  ar_req :: RegisterRequest
  ar_interval :: duration
  ar_beating :: bool

definition ar_WithHeartbeatInterval :: "duration \<Rightarrow> AutoRegistrar \<Rightarrow> AutoRegistrar" where
  "ar_WithHeartbeatInterval d ar = ar\<lparr>ar_interval := d\<rparr>"

definition NewAutoRegistrar :: "string \<Rightarrow> RegisterRequest \<Rightarrow> (AutoRegistrar \<Rightarrow> AutoRegistrar) list \<Rightarrow> AutoRegistrar" where
  "NewAutoRegistrar adminURL req opts =
     foldl (\<lambda>a opt. opt a) \<lparr>ar_adminURL = adminURL, ar_req = req, ar_interval = defaultHeartbeatInterval, ar_beating = False\<rparr> opts"

text \<open>The world answers a POST to a URL, changing its own state.\<close>

type_synonym 's world = "string \<Rightarrow> RegisterRequest \<Rightarrow> 's \<Rightarrow> http_answer \<times> 's"

definition ar_post :: "'s world \<Rightarrow> string \<Rightarrow> AutoRegistrar \<Rightarrow> 's \<Rightarrow> string option \<times> 's" where
  "ar_post world path ar s =
     (let url = ar_adminURL ar @ path; (answer, s1) = world url (ar_req ar) s
      in case answer of
           BadURL err \<Rightarrow> (Some err, s1)
         | NoResponse err \<Rightarrow> (Some (''registrar: POST '' @ url @ '': '' @ err), s1)
         | Response code msg \<Rightarrow>
             (if code \<noteq> 200 then Some (''registrar: POST '' @ url @ '' returned '' @ itoa code) else None, s1))"

definition ar_register :: "'s world \<Rightarrow> AutoRegistrar \<Rightarrow> 's \<Rightarrow> string option \<times> 's" where
  "ar_register world ar s = ar_post world ''/api/executor/register'' ar s"

definition ar_heartbeat :: "'s world \<Rightarrow> AutoRegistrar \<Rightarrow> 's \<Rightarrow> string option \<times> 's" where
  "ar_heartbeat world ar s = ar_post world ''/api/executor/heartbeat'' ar s"

definition ar_deregister :: "'s world \<Rightarrow> AutoRegistrar \<Rightarrow> 's \<Rightarrow> string option \<times> 's" where
  "ar_deregister world ar s = ar_post world ''/api/executor/deregister'' ar s"

definition ar_Start :: "'s world \<Rightarrow> AutoRegistrar \<Rightarrow> 's \<Rightarrow> (string option \<times> AutoRegistrar) \<times> 's" where
  "ar_Start world ar s =
     (case ar_register world ar s of
        (Some err, s1) \<Rightarrow> ((Some (''registrar: initial register failed: '' @ err), ar), s1)
      | (None, s1) \<Rightarrow> ((None, ar\<lparr>ar_beating := True\<rparr>), s1))"

text \<open>One tick of \<open>beatLoop\<close>.\<close>

definition ar_tick :: "'s world \<Rightarrow> AutoRegistrar \<Rightarrow> 's \<Rightarrow> 's" where
  "ar_tick world ar s =
     (case ar_heartbeat world ar s of
        (Some err, s1) \<Rightarrow> snd (ar_register world ar s1)
      | (None, s1) \<Rightarrow> s1)"

definition ar_Stop :: "'s world \<Rightarrow> AutoRegistrar \<Rightarrow> 's \<Rightarrow> AutoRegistrar \<times> 's" where
  "ar_Stop world ar s = (ar\<lparr>ar_beating := False\<rparr>, snd (ar_deregister world ar s))"

text \<open>The world in which the admin listens at \<open>host\<close> and receives \<open>header\<close> with every request.\<close>

definition admin_world :: "string \<Rightarrow> string \<Rightarrow> string \<Rightarrow> 'db tables \<Rightarrow> time \<Rightarrow> time \<Rightarrow> string \<Rightarrow> 'db ExecService world" where
  "admin_world header internalToken unbound tb now storeNow host url req s =
     (let n = length host
      in if take n url = host
         then let (resp, s1) = admin_server internalToken unbound tb now storeNow header (drop n url) req s
              in (Response (r_status resp) (r_Message resp), s1)
         else (NoResponse ''connection refused'', s))"

text \<open>\<open>AutoRegistrar.post\<close> sets the content type only.\<close>

definition registrar_token :: string where "registrar_token = []"

end
