(* ===== verification/API_Props.thy ===== *)
theory API_Props
  imports Executor_API
begin

text \<open>
  The scheduler and its executors over HTTP: what a status of \<open>/executor/run\<close> means, the tokens of the two
  directions, and heartbeats of an executor that the in-memory registry does not hold.
\<close>

section \<open>Statuses of run\<close>



section \<open>Tokens\<close>

lemma client_refused:
  "path \<in> set executor_routes \<Longrightarrow> executor_server now ord client_token path body r =
     (\<lparr>r_status = 401, r_Code = CodeUnauthorized, r_Message = ''invalid internal token''\<rparr>, r)"
  by (simp add: executor_server_def InternalAuth_def client_token_def executor_token_def)

lemma client_unknown: "path \<notin> set executor_routes \<Longrightarrow> executor_server now ord header path body r = (page_not_found, r)"
  by (simp add: executor_server_def)

lemma take_url: "take (length (client_url address [])) (client_url address path) = client_url address []"
  "drop (length (client_url address [])) (client_url address path) = path"
  by (simp_all add: client_url_def)

lemma registrar_refused:
  "path \<in> set admin_routes \<Longrightarrow> admin_server internalToken unbound tb now storeNow registrar_token path req s =
     (\<lparr>r_status = 401, r_Code = CodeUnauthorized, r_Message = ''invalid internal token''\<rparr>, s)"
  by (simp add: admin_server_def InternalAuth_def registrar_token_def admin_token_def)

lemma admin_world_refused:
  "path \<in> set admin_routes \<Longrightarrow> admin_world registrar_token internalToken unbound tb now storeNow host (host @ path) req s =
    (Response 401 ''invalid internal token'', s)"
  by (simp add: admin_world_def registrar_refused)

lemma ar_post_refused:
  assumes "path \<in> set admin_routes"
  shows "ar_post (admin_world registrar_token internalToken unbound tb now storeNow (ar_adminURL ar)) path ar s =
    (Some (''registrar: POST '' @ ar_adminURL ar @ path @ '' returned '' @ itoa 401), s)"
  by (simp add: ar_post_def admin_world_refused [OF assms])

definition trigger_of :: "JobInfo \<Rightarrow> JobLog \<Rightarrow> ExecutorTrigger" where
  "trigger_of job logRec = \<lparr>et_LogID = jl_ID logRec, et_JobID = ji_ID job, et_ExecutorHandler = ji_ExecuteHandler job,
     et_ExecuteType = ji_ExecuteType job, et_ExecuteParam = jl_ExecuteParam logRec,
     et_ShardingIndex = jl_ShardingIndex logRec, et_ShardingTotal = jl_ShardingTotal logRec, et_Timeout = ji_Timeout job\<rparr>"

text \<open>With the tokens in the code the two nodes refuse each other. Every call of the scheduler's client
  leaves an executor's runner as it is, a dispatched job ends as failed with the executor's 401, and, for
  every token that can be configured at the admin, the registration of an executor fails without a change
  of the admin, so that the executor does not start; nor can a heartbeat or a deregistration succeed.\<close>

lemma nodes_refuse_each_other:
  "snd (executor_server now ord client_token path body r) = r \<and>
   (callExecutor (executor_network client_token now ord address r) start finish job logRec address s =
     s\<lparr>sd_out := sd_out s @ [RunSent address (trigger_of job logRec), ResultUpdated (jl_ID logRec) LogFail
       (''executor client: '' @ client_url address ''/executor/run'' @ '' returned '' @ itoa 401 @
          '': invalid internal token'') start finish]\<rparr>) \<and>
   (let world = admin_world registrar_token internalToken unbound tb now storeNow (ar_adminURL ar)
    in ar_Start world ar svc = ((Some (''registrar: initial register failed: registrar: POST '' @ ar_adminURL ar @
         ''/api/executor/register'' @ '' returned '' @ itoa 401), ar), svc) \<and>
       ar_tick world ar svc = svc \<and> snd (ar_Stop world ar svc) = svc)"
proof -
  have 1: "snd (executor_server now ord client_token path body r) = r"
    by (cases "path \<in> set executor_routes") (simp_all add: client_refused client_unknown)
  have run: "''/executor/run'' \<in> set executor_routes" by (simp add: executor_routes_def)
  have 2: "client_Run (executor_network client_token now ord address r) address tr =
      Some (''executor client: '' @ client_url address ''/executor/run'' @ '' returned '' @ itoa 401 @
          '': invalid internal token'')" for tr
    by (simp add: client_Run_def client_post_def executor_network_def take_url client_refused [OF run] Let_def)
  have adm: "''/api/executor/register'' \<in> set admin_routes" "''/api/executor/heartbeat'' \<in> set admin_routes"
    "''/api/executor/deregister'' \<in> set admin_routes" by (simp_all add: admin_routes_def)
  note refused = adm [THEN ar_post_refused]
  show ?thesis unfolding Let_def
    using 1 by (simp add: refused callExecutor_def 2 emit_def trigger_of_def ar_Start_def ar_tick_def ar_Stop_def ar_register_def ar_heartbeat_def
        ar_deregister_def)
qed

section \<open>Heartbeats\<close>

text \<open>The heartbeats an executor sends, and the answers it gets.\<close>

fun heartbeats :: "'db tables \<Rightarrow> RegisterRequest \<Rightarrow> (time \<times> time) list \<Rightarrow> 'db ExecService \<Rightarrow>
    go_error option list \<times> 'db ExecService" where
  "heartbeats tb req [] s = ([], s)"
| "heartbeats tb req ((now, storeNow) # ts) s =
     (let (err, s1) = exec_Heartbeat tb now storeNow req s; (errs, s2) = heartbeats tb req ts s1 in (err # errs, s2))"

definition has_executor :: "('db \<Rightarrow> ExecutorRow list) \<Rightarrow> RegisterRequest \<Rightarrow> 'db \<Rightarrow> bool" where
  "has_executor rows req db \<longleftrightarrow> (\<exists>e \<in> set (rows db). ex_AppName e = rr_AppName req \<and> ex_Address e = rr_Address req)"

lemma not_listed:
  assumes "es_lookup es app addr = None" "es_inv es"
  shows "addr \<notin> set (es_ListOnlineAddresses now ord app es)"
proof (cases "es_groups es app")
  case None
  then show ?thesis by (simp add: es_ListOnlineAddresses_def getGroup_def)
next
  case (Some g)
  have "en_Address (es_entry es p) \<noteq> addr" if mem: "p \<in> set (grp_listAll ord g)" for p
  proof -
    obtain a where "g a = Some p" using mem by (auto simp: grp_listAll_def set_go_range)
    then have "es_lookup es app a = Some p" by (simp add: es_lookup_def Some)
    then have "en_Address (es_entry es p) = a" using assms(2) by (simp add: es_inv_def)
    then show ?thesis using assms(1) \<open>es_lookup es app a = Some p\<close> by auto
  qed
  then show ?thesis by (auto simp: es_ListOnlineAddresses_def getGroup_def Some)
qed

lemma updates_allE:
  assumes "updates_all rows g"
  obtains n db' where "gm_Updates g p f db = (Inr n, db')" "rows db' = map (\<lambda>r. if p r then f r else r) (rows db)"
  using assms unfolding updates_all_def by blast

lemma heartbeat_unlisted:
  assumes db: "finds_first rows (tb_executors tb)" "updates_all rows (tb_executors tb)"
    and has: "has_executor rows req (xs_db s)" and es: "xs_store s = Some es"
    and no: "es_lookup es (rr_AppName req) (rr_Address req) = None"
  obtains db' where "exec_Heartbeat tb now storeNow req s = (None, s\<lparr>xs_db := db'\<rparr>)" "has_executor rows req db'"
proof -
  let ?p = "\<lambda>e. ex_AppName e = rr_AppName req \<and> ex_Address e = rr_Address req"
  obtain e where "e \<in> set (filter ?p (rows (xs_db s)))" using has by (auto simp: has_executor_def)
  then obtain e1 where e1: "execs_FindByAppAndAddress tb (rr_AppName req) (rr_Address req) (xs_db s) = Inr e1"
    using db(1) unfolding finds_first_def execs_FindByAppAndAddress_def
    by (cases "filter ?p (rows (xs_db s))") auto
  obtain n db' where upd: "gm_Updates (tb_executors tb) (\<lambda>e. ex_ID e = ex_ID e1)
      (\<lambda>e. e\<lparr>ex_HeartbeatTime := Some now, ex_Status := ExecutorOnline\<rparr>) (xs_db s) = (Inr n, db')"
    and rows: "rows db' = map (\<lambda>r. if ex_ID r = ex_ID e1 then r\<lparr>ex_HeartbeatTime := Some now, ex_Status := ExecutorOnline\<rparr> else r)
      (rows (xs_db s))"
    by (rule updates_allE [OF db(2)])
  obtain e2 where e2: "e2 \<in> set (rows (xs_db s))" "?p e2" using has by (auto simp: has_executor_def)
  let ?f = "\<lambda>r. if ex_ID r = ex_ID e1 then r\<lparr>ex_HeartbeatTime := Some now, ex_Status := ExecutorOnline\<rparr> else r"
  have "?f e2 \<in> set (rows db')" using e2(1) unfolding rows set_map by (rule imageI)
  moreover have "?p (?f e2)" using e2(2) by simp
  ultimately have "has_executor rows req db'" unfolding has_executor_def by blast
  moreover have "es_Heartbeat storeNow (rr_AppName req) (rr_Address req) c m es = es" for c m
    by (cases rule: Heartbeat_cases [of es "rr_AppName req" "rr_Address req" storeNow c m]) (simp_all add: no)
  then have "exec_Heartbeat tb now storeNow req s = (None, s\<lparr>xs_db := db', xs_store := Some es\<rparr>)"
    using es unfolding exec_Heartbeat_def e1 execs_UpdateHeartbeat_def by (simp add: upd)
  moreover have "s\<lparr>xs_db := db', xs_store := Some es\<rparr> = s\<lparr>xs_db := db'\<rparr>" using es by (cases s) simp
  ultimately show thesis using that by metis
qed

text \<open>An executor that has a row but is not in the in-memory registry (it was offline when the
  scheduler started, or it was deregistered) stays out of it: however many heartbeats it sends, each is
  answered without an error, so its registrar never registers again, and the address is never among those
  the scheduler routes to.\<close>

lemma heartbeats_never_list:
  assumes "finds_first rows (tb_executors tb)" "updates_all rows (tb_executors tb)"
    and "has_executor rows req (xs_db s)" "xs_store s = Some es" "es_reachable es"
    and "es_lookup es (rr_AppName req) (rr_Address req) = None"
  shows "set (fst (heartbeats tb req ts s)) \<subseteq> {None} \<and> xs_store (snd (heartbeats tb req ts s)) = Some es \<and>
    rr_Address req \<notin> set (es_ListOnlineAddresses now ord (rr_AppName req) es)"
proof -
  have "set (fst (heartbeats tb req ts s)) \<subseteq> {None} \<and> xs_store (snd (heartbeats tb req ts s)) = Some es"
    using assms(3,4)
  proof (induction ts arbitrary: s)
    case Nil
    then show ?case by simp
  next
    case (Cons t ts)
    obtain a b where t: "t = (a, b)" by fastforce
    obtain db' where h: "exec_Heartbeat tb a b req s = (None, s\<lparr>xs_db := db'\<rparr>)" "has_executor rows req db'"
      using heartbeat_unlisted [OF assms(1,2) Cons.prems assms(6), of a b] by blast
    have "xs_store (s\<lparr>xs_db := db'\<rparr>) = Some es" "has_executor rows req (xs_db (s\<lparr>xs_db := db'\<rparr>))"
      using Cons.prems h(2) by simp_all
    then show ?case using Cons.IH [of "s\<lparr>xs_db := db'\<rparr>"] by (simp add: t h(1) case_prod_beta)
  qed
  then show ?thesis using not_listed [OF assms(6) es_reachable_inv [OF assms(5)]] by blast
qed

definition demo_register :: RegisterRequest where
  "demo_register = \<lparr>rr_AppName = ''app'', rr_Title = [], rr_Address = ''h:1'', rr_Version = ''1''\<rparr>"

definition demo_service :: "EStore \<Rightarrow> list_db ExecService" where
  "demo_service es = \<lparr>xs_db = \<lparr>ld_jobs = [], ld_logs = [], ld_details = [],
      ld_executors = [(new_executor 1 demo_register)\<lparr>ex_ID := 1, ex_Status := ExecutorOffline\<rparr>], ld_users = []\<rparr>,
     xs_store = Some es, xs_timeout = 60 * second\<rparr>"

lemma heartbeats_never_list_witness:
  "set (fst (heartbeats list_tables demo_register [(1, 1), (20, 20)] (demo_service demo_store))) \<subseteq> {None} \<and>
   ''h:1'' \<notin> set (es_ListOnlineAddresses 30 [''a1''] ''app'' demo_store)"
proof -
  have "has_executor ld_executors demo_register (xs_db (demo_service demo_store))"
    by (simp add: has_executor_def demo_service_def new_executor_def demo_register_def)
  moreover have "xs_store (demo_service demo_store) = Some demo_store" by (simp add: demo_service_def)
  moreover have "es_lookup demo_store (rr_AppName demo_register) (rr_Address demo_register) = None"
    by (simp add: es_lookup_def demo_store_facts demo_register_def)
  ultimately show ?thesis
    using heartbeats_never_list [OF list_tables_executors _ _ demo_store_facts(1), of demo_register "demo_service demo_store"
        "[(1, 1), (20, 20)]" 30 "[''a1'']"]
    by (simp add: demo_register_def del: heartbeats.simps)
qed

end
