(* ===== verification/Log_Buffer.thy ===== *)
theory Log_Buffer
  imports List_DB
begin

text \<open>
  \<open>pkg/logbuffer/logbuffer.go\<close>: the write buffer in front of the job-log DAO. The flush goroutine and the
  callers of \<open>Create\<close> meet in two channels: \<open>ring\<close> and the entry's \<open>done\<close>. Every access to a channel, to
  the ID map and to the inner DAO is a transition of \<open>buf_step\<close>; the bulk insert and its publication are
  two, since readers of the ID map run between them. A log is the caller's struct, so entries are
  addresses: \<open>bf_log\<close> is what they point to, \<open>bf_call\<close> how far the caller that passed one has got. A
  channel of capacity zero (\<open>WithRingCap 0\<close>) hands over directly, which is left out. Logging is not modelled.
\<close>

section \<open>The inner DAO\<close>

text \<open>The interface \<open>dao.JobLogDAO\<close>, with \<open>CreateBatch\<close> when the implementation has it.\<close>

record 'db LogDAO =
  di_Create :: "JobLog \<Rightarrow> 'db \<Rightarrow> (db_error option \<times> JobLog) \<times> 'db"
  di_CreateBatch :: "(JobLog list \<Rightarrow> 'db \<Rightarrow> (db_error option \<times> JobLog list) \<times> 'db) option"
  di_UpdateResult :: "int \<Rightarrow> log_status \<Rightarrow> string \<Rightarrow> time \<Rightarrow> time \<Rightarrow> 'db \<Rightarrow> db_error option \<times> 'db"
  di_FindByID :: "int \<Rightarrow> 'db \<Rightarrow> db_error + JobLog"
  di_ListByJob :: "int \<Rightarrow> int \<Rightarrow> int \<Rightarrow> 'db \<Rightarrow> db_error + (JobLog list \<times> nat)"
  di_ListRunning :: "'db \<Rightarrow> db_error + JobLog list"
  di_ListRetryable :: "time \<Rightarrow> int \<Rightarrow> 'db \<Rightarrow> db_error + JobLog list"
  di_CountRetries :: "int \<Rightarrow> time \<Rightarrow> 'db \<Rightarrow> db_error + nat"
  di_CreateDetail :: "JobLogDetail \<Rightarrow> 'db \<Rightarrow> (db_error + JobLogDetail) \<times> 'db"
  di_FindDetail :: "int \<Rightarrow> 'db \<Rightarrow> db_error + JobLogDetail"

text \<open>A failed \<open>Create\<close> leaves the struct as it was passed.\<close>

definition created :: "'a \<Rightarrow> (db_error + 'a) \<times> 'db \<Rightarrow> (db_error option \<times> 'a) \<times> 'db" where
  "created x res = (case res of (Inl err, db) \<Rightarrow> ((Some err, x), db) | (Inr y, db) \<Rightarrow> ((None, y), db))"

definition jobLogDAO :: "'db tables \<Rightarrow> 'db LogDAO" where
  "jobLogDAO tb =
     \<lparr>di_Create = (\<lambda>l db. created l (logs_Create tb l db)),
      di_CreateBatch = Some (\<lambda>ls db. created ls (logs_CreateBatch tb ls db)),
      di_UpdateResult = logs_UpdateResult tb, di_FindByID = logs_FindByID tb, di_ListByJob = logs_ListByJob tb,
      di_ListRunning = logs_ListRunning tb, di_ListRetryable = logs_ListRetryable tb,
      di_CountRetries = logs_CountRetries tb, di_CreateDetail = logs_CreateDetail tb,
      di_FindDetail = logs_FindDetail tb\<rparr>"

section \<open>State\<close>

definition DefaultBatchSize :: int where "DefaultBatchSize = 500"
definition DefaultFlushInterval :: duration where "DefaultFlushInterval = 2 * second"
definition DefaultRingCap :: int where "DefaultRingCap = DefaultBatchSize * 4"

datatype loop_pc = NotStarted | Selecting | Draining | Ended

datatype call_stage = Enqueuing | Awaiting | Returned "string option"

text \<open>\<open>bf_writing\<close>: the entries of a batch whose insert has been tried but not published, with their
  temporary IDs, and its error.\<close>

record 'db Buffer =
  bf_inner :: 'db
  bf_batchSize :: int
  bf_flushInterval :: duration
  bf_ringCap :: int
  bf_ring :: "nat list"
  bf_tmpSeq :: int
  bf_idMap :: "int \<rightharpoonup> int"
  bf_stopCh :: bool
  bf_loop :: loop_pc
  bf_batch :: "nat list"
  bf_writing :: "((nat \<times> int) list \<times> db_error option) option"
  bf_log :: "nat \<Rightarrow> JobLog"
  bf_done :: "nat \<rightharpoonup> db_error option"
  bf_call :: "nat \<rightharpoonup> call_stage"
  bf_fresh :: nat

record BufOptions =
  bo_batchSize :: int
  bo_flushInterval :: duration
  bo_ringCap :: int

definition bf_WithBatchSize :: "int \<Rightarrow> BufOptions \<Rightarrow> BufOptions" where
  "bf_WithBatchSize n b = b\<lparr>bo_batchSize := n\<rparr>"

definition bf_WithFlushInterval :: "duration \<Rightarrow> BufOptions \<Rightarrow> BufOptions" where
  "bf_WithFlushInterval d b = b\<lparr>bo_flushInterval := d\<rparr>"

definition bf_WithRingCap :: "int \<Rightarrow> BufOptions \<Rightarrow> BufOptions" where
  "bf_WithRingCap n b = b\<lparr>bo_ringCap := n\<rparr>"

text \<open>\<open>make\<close> panics on a negative capacity (\<open>None\<close>); \<open>unused\<close> is what no pointer leads to.\<close>

definition buf_New :: "JobLog \<Rightarrow> 'db \<Rightarrow> (BufOptions \<Rightarrow> BufOptions) list \<Rightarrow> 'db Buffer option" where
  "buf_New unused db opts =
     (let b = foldl (\<lambda>b opt. opt b)
            \<lparr>bo_batchSize = DefaultBatchSize, bo_flushInterval = DefaultFlushInterval, bo_ringCap = DefaultRingCap\<rparr> opts
      in if bo_ringCap b < 0 then None
         else Some \<lparr>bf_inner = db, bf_batchSize = bo_batchSize b, bf_flushInterval = bo_flushInterval b,
           bf_ringCap = bo_ringCap b, bf_ring = [], bf_tmpSeq = 0, bf_idMap = Map.empty, bf_stopCh = False,
           bf_loop = NotStarted, bf_batch = [], bf_writing = None, bf_log = (\<lambda>_. unused),
           bf_done = Map.empty, bf_call = Map.empty, bf_fresh = 0\<rparr>)"

text \<open>The goroutine panics when the ticker's interval is not positive or the batch size is negative.\<close>

definition buf_Start :: "'db Buffer \<Rightarrow> 'db Buffer option" where
  "buf_Start s = (if bf_flushInterval s \<le> 0 \<or> bf_batchSize s < 0 then None else Some (s\<lparr>bf_loop := Selecting\<rparr>))"

text \<open>\<open>Stop\<close> closes the channel (twice panics) and waits for the loop to end.\<close>

definition buf_close :: "'db Buffer \<Rightarrow> 'db Buffer option" where
  "buf_close s = (if bf_stopCh s then None else Some (s\<lparr>bf_stopCh := True\<rparr>))"

section \<open>Writing a batch\<close>

fun insert_each :: "'db LogDAO \<Rightarrow> JobLog list \<Rightarrow> 'db \<Rightarrow> (db_error option \<times> JobLog list) \<times> 'db" where
  "insert_each d [] db = ((None, []), db)"
| "insert_each d (l # ls) db =
     (case di_Create d l db of
        ((Some err, l1), db1) \<Rightarrow> ((Some err, l1 # ls), db1)
      | ((None, l1), db1) \<Rightarrow> (let ((err, ls1), db2) = insert_each d ls db1 in ((err, l1 # ls1), db2)))"

definition insert_all :: "'db LogDAO \<Rightarrow> JobLog list \<Rightarrow> 'db \<Rightarrow> (db_error option \<times> JobLog list) \<times> 'db" where
  "insert_all d ls db = (case di_CreateBatch d of Some f \<Rightarrow> f ls db | None \<Rightarrow> insert_each d ls db)"

definition put_logs :: "nat list \<Rightarrow> JobLog list \<Rightarrow> (nat \<Rightarrow> JobLog) \<Rightarrow> nat \<Rightarrow> JobLog" where
  "put_logs as ls h = fold (\<lambda>(a, l) h. h(a := l)) (zip as ls) h"

definition write_insert :: "'db LogDAO \<Rightarrow> 'db Buffer \<Rightarrow> 'db Buffer" where
  "write_insert d s =
     (let as = bf_batch s;
          tmpIDs = map (\<lambda>a. jl_ID (bf_log s a)) as;
          ((err, logs), db) = insert_all d (map (\<lambda>a. (bf_log s a)\<lparr>jl_ID := 0\<rparr>) as) (bf_inner s)
      in s\<lparr>bf_inner := db, bf_log := put_logs as logs (bf_log s), bf_batch := [],
           bf_writing := Some (zip as tmpIDs, err)\<rparr>)"

text \<open>Under \<open>idMapMu\<close>: the mapping of each entry, then the signal to its caller.\<close>

definition publish_one :: "db_error option \<Rightarrow> nat \<times> int \<Rightarrow> 'db Buffer \<Rightarrow> 'db Buffer" where
  "publish_one err e s =
     (case e of (a, tmpID) \<Rightarrow>
        let realID = jl_ID (bf_log s a)
        in s\<lparr>bf_idMap := (if err = None \<and> tmpID < 0 \<and> realID > 0 then (bf_idMap s)(tmpID \<mapsto> realID) else bf_idMap s),
             bf_done := (bf_done s)(a \<mapsto> err)\<rparr>)"

definition write_publish :: "'db Buffer \<Rightarrow> 'db Buffer" where
  "write_publish s =
     (case bf_writing s of None \<Rightarrow> s
      | Some (es, err) \<Rightarrow> (fold (publish_one err) es s)\<lparr>bf_writing := None\<rparr>)"

definition buf_flush :: "'db LogDAO \<Rightarrow> 'db Buffer \<Rightarrow> 'db Buffer" where
  "buf_flush d s = (if bf_batch s = [] then s else write_insert d s)"

section \<open>The flush loop\<close>

definition loop_receive :: "'db LogDAO \<Rightarrow> 'db Buffer \<Rightarrow> 'db Buffer" where
  "loop_receive d s =
     (case bf_ring s of [] \<Rightarrow> s
      | a # as \<Rightarrow>
          let s1 = s\<lparr>bf_ring := as, bf_batch := bf_batch s @ [a]\<rparr>
          in if int (length (bf_batch s1)) \<ge> bf_batchSize s1 then buf_flush d s1 else s1)"

text \<open>The loop alone, from the moment it has seen the stop: drain the ring, flush, end.\<close>

function buf_drain :: "'db LogDAO \<Rightarrow> 'db Buffer \<Rightarrow> 'db Buffer" where
  "buf_drain d s =
     (if bf_ring s = [] then (write_publish (buf_flush d s))\<lparr>bf_loop := Ended\<rparr>
      else buf_drain d (write_publish (loop_receive d s)))"
  by pat_completeness auto

lemma insert_ring [simp]: "bf_ring (write_insert d s) = bf_ring s"
  by (simp add: write_insert_def Let_def case_prod_beta)

lemma flush_ring [simp]: "bf_ring (buf_flush d s) = bf_ring s"
  by (simp add: buf_flush_def)

lemma receive_ring: "bf_ring (loop_receive d s) = tl (bf_ring s)"
  by (simp add: loop_receive_def Let_def split: list.splits)

lemma publish_fold_frame:
  "bf_ring (fold (publish_one err) es s) = bf_ring s \<and> bf_batch (fold (publish_one err) es s) = bf_batch s \<and>
   bf_log (fold (publish_one err) es s) = bf_log s \<and> bf_inner (fold (publish_one err) es s) = bf_inner s \<and>
   bf_call (fold (publish_one err) es s) = bf_call s \<and> bf_fresh (fold (publish_one err) es s) = bf_fresh s \<and>
   bf_tmpSeq (fold (publish_one err) es s) = bf_tmpSeq s \<and> bf_loop (fold (publish_one err) es s) = bf_loop s \<and>
   bf_done (fold (publish_one err) es s) = (\<lambda>a. if a \<in> fst ` set es then Some err else bf_done s a)"
  by (induction es arbitrary: s) (auto simp: publish_one_def Let_def fun_eq_iff split: prod.splits)

lemma publish_ring [simp]: "bf_ring (write_publish s) = bf_ring s"
  by (simp add: write_publish_def publish_fold_frame split: option.splits)

termination buf_drain
  by (relation "measure (\<lambda>(d, s). length (bf_ring s))") (auto simp: receive_ring)

declare buf_drain.simps [simp del]

section \<open>IDs\<close>

definition resolveID :: "int \<Rightarrow> 'db Buffer \<Rightarrow> int" where
  "resolveID tmpID s =
     (if tmpID \<ge> 0 then tmpID else case bf_idMap s tmpID of Some realID \<Rightarrow> realID | None \<Rightarrow> tmpID)"

definition gcIDMap :: "int \<Rightarrow> 'db Buffer \<Rightarrow> 'db Buffer" where
  "gcIDMap used s = s\<lparr>bf_idMap := (bf_idMap s)(used := None)\<rparr>"

section \<open>Create\<close>

definition create_begin :: "JobLog \<Rightarrow> 'db Buffer \<Rightarrow> nat \<times> 'db Buffer" where
  "create_begin l s =
     (let q = i64 (bf_tmpSeq s + 1); tmpID = i64 (- q); a = bf_fresh s
      in (a, s\<lparr>bf_tmpSeq := q, bf_log := (bf_log s)(a := l\<lparr>jl_ID := tmpID\<rparr>),
               bf_call := (bf_call s)(a \<mapsto> Enqueuing), bf_fresh := Suc a\<rparr>))"

text \<open>The three branches of the first \<open>select\<close>.\<close>

definition create_enqueue :: "nat \<Rightarrow> 'db Buffer \<Rightarrow> 'db Buffer" where
  "create_enqueue a s = s\<lparr>bf_ring := bf_ring s @ [a], bf_call := (bf_call s)(a \<mapsto> Awaiting)\<rparr>"

definition set_id :: "int \<Rightarrow> nat \<Rightarrow> 'db Buffer \<Rightarrow> 'db Buffer" where
  "set_id i a s = s\<lparr>bf_log := (bf_log s)(a := (bf_log s a)\<lparr>jl_ID := i\<rparr>)\<rparr>"

definition create_cancel :: "string \<Rightarrow> nat \<Rightarrow> 'db Buffer \<Rightarrow> 'db Buffer" where
  "create_cancel ctxErr a s =
     (set_id 0 a s)\<lparr>bf_call := (bf_call s)(a \<mapsto> Returned (Some (''logbuffer: enqueue cancelled: '' @ ctxErr)))\<rparr>"

definition create_sync :: "'db LogDAO \<Rightarrow> nat \<Rightarrow> 'db Buffer \<Rightarrow> 'db Buffer" where
  "create_sync d a s =
     (let ((err, l), db) = di_Create d ((bf_log s a)\<lparr>jl_ID := 0\<rparr>) (bf_inner s)
      in s\<lparr>bf_inner := db, bf_log := (bf_log s)(a := l),
           bf_call := (bf_call s)(a \<mapsto> Returned (map_option db_text err))\<rparr>)"

text \<open>The two branches of the second.\<close>

definition create_return :: "db_error option \<Rightarrow> nat \<Rightarrow> 'db Buffer \<Rightarrow> 'db Buffer" where
  "create_return res a s =
     (case res of
        Some err \<Rightarrow> (set_id 0 a s)\<lparr>bf_call := (bf_call s)(a \<mapsto> Returned (Some (''logbuffer: flush failed: '' @ db_text err)))\<rparr>
      | None \<Rightarrow> s\<lparr>bf_call := (bf_call s)(a \<mapsto> Returned None)\<rparr>)"

definition create_giveup :: "string \<Rightarrow> nat \<Rightarrow> 'db Buffer \<Rightarrow> 'db Buffer" where
  "create_giveup ctxErr a s =
     s\<lparr>bf_call := (bf_call s)(a \<mapsto> Returned (Some (''logbuffer: wait for id cancelled: '' @ ctxErr)))\<rparr>"

section \<open>The other methods\<close>

definition buf_UpdateResult :: "'db LogDAO \<Rightarrow> int \<Rightarrow> log_status \<Rightarrow> string \<Rightarrow> time \<Rightarrow> time \<Rightarrow> 'db Buffer \<Rightarrow>
    db_error option \<times> 'db Buffer" where
  "buf_UpdateResult d i status errMsg start fin s =
     (let realID = resolveID i s;
          s1 = (if realID \<noteq> i then gcIDMap i s else s);
          (err, db) = di_UpdateResult d realID status errMsg start fin (bf_inner s1)
      in (err, s1\<lparr>bf_inner := db\<rparr>))"

definition buf_FindByID :: "'db LogDAO \<Rightarrow> int \<Rightarrow> 'db Buffer \<Rightarrow> db_error + JobLog" where
  "buf_FindByID d i s = di_FindByID d (resolveID i s) (bf_inner s)"

definition buf_ListByJob :: "'db LogDAO \<Rightarrow> int \<Rightarrow> int \<Rightarrow> int \<Rightarrow> 'db Buffer \<Rightarrow> db_error + (JobLog list \<times> nat)" where
  "buf_ListByJob d jobID page pageSize s = di_ListByJob d jobID page pageSize (bf_inner s)"

definition buf_ListRunning :: "'db LogDAO \<Rightarrow> 'db Buffer \<Rightarrow> db_error + JobLog list" where
  "buf_ListRunning d s = di_ListRunning d (bf_inner s)"

definition buf_ListRetryable :: "'db LogDAO \<Rightarrow> time \<Rightarrow> int \<Rightarrow> 'db Buffer \<Rightarrow> db_error + JobLog list" where
  "buf_ListRetryable d now limit s = di_ListRetryable d now limit (bf_inner s)"

definition buf_CountRetries :: "'db LogDAO \<Rightarrow> int \<Rightarrow> time \<Rightarrow> 'db Buffer \<Rightarrow> db_error + nat" where
  "buf_CountRetries d jobID t s = di_CountRetries d jobID t (bf_inner s)"

definition buf_CreateDetail :: "'db LogDAO \<Rightarrow> JobLogDetail \<Rightarrow> 'db Buffer \<Rightarrow> (db_error + JobLogDetail) \<times> 'db Buffer" where
  "buf_CreateDetail d det s = (let (r, db) = di_CreateDetail d det (bf_inner s) in (r, s\<lparr>bf_inner := db\<rparr>))"

definition buf_FindDetail :: "'db LogDAO \<Rightarrow> int \<Rightarrow> 'db Buffer \<Rightarrow> db_error + JobLogDetail" where
  "buf_FindDetail d logID s = di_FindDetail d logID (bf_inner s)"

record BufStats =
  st_Pending :: nat
  st_RingCap :: int
  st_IDMapSize :: nat

definition buf_Stats :: "'db Buffer \<Rightarrow> BufStats" where
  "buf_Stats s = \<lparr>st_Pending = length (bf_ring s), st_RingCap = bf_ringCap s, st_IDMapSize = map_len (bf_idMap s)\<rparr>"

section \<open>Interleaving\<close>

inductive buf_step :: "'db LogDAO \<Rightarrow> 'db Buffer \<Rightarrow> 'db Buffer \<Rightarrow> bool" for d where
  bs_start: "bf_loop s = NotStarted \<Longrightarrow> buf_Start s = Some s1 \<Longrightarrow> buf_step d s s1"
| bs_close: "buf_close s = Some s1 \<Longrightarrow> buf_step d s s1"
| bs_receive: "bf_loop s \<in> {Selecting, Draining} \<Longrightarrow> bf_writing s = None \<Longrightarrow> bf_ring s \<noteq> [] \<Longrightarrow>
    buf_step d s (loop_receive d s)"
| bs_tick: "bf_loop s = Selecting \<Longrightarrow> bf_writing s = None \<Longrightarrow> buf_step d s (buf_flush d s)"
| bs_stop: "bf_loop s = Selecting \<Longrightarrow> bf_writing s = None \<Longrightarrow> bf_stopCh s \<Longrightarrow> buf_step d s (s\<lparr>bf_loop := Draining\<rparr>)"
| bs_drained: "bf_loop s = Draining \<Longrightarrow> bf_writing s = None \<Longrightarrow> bf_ring s = [] \<Longrightarrow>
    buf_step d s ((buf_flush d s)\<lparr>bf_loop := Ended\<rparr>)"
| bs_publish: "bf_writing s \<noteq> None \<Longrightarrow> buf_step d s (write_publish s)"
| bs_begin: "buf_step d s (snd (create_begin l s))"
| bs_enqueue: "bf_call s a = Some Enqueuing \<Longrightarrow> int (length (bf_ring s)) < bf_ringCap s \<Longrightarrow>
    buf_step d s (create_enqueue a s)"
| bs_cancel: "bf_call s a = Some Enqueuing \<Longrightarrow> buf_step d s (create_cancel err a s)"
| bs_sync: "bf_call s a = Some Enqueuing \<Longrightarrow> bf_stopCh s \<Longrightarrow> buf_step d s (create_sync d a s)"
| bs_return: "bf_call s a = Some Awaiting \<Longrightarrow> bf_done s a = Some res \<Longrightarrow> buf_step d s (create_return res a s)"
| bs_giveup: "bf_call s a = Some Awaiting \<Longrightarrow> buf_step d s (create_giveup err a s)"
| bs_update: "buf_step d s (snd (buf_UpdateResult d i status errMsg start fin s))"
| bs_detail: "buf_step d s (snd (buf_CreateDetail d det s))"

inductive buf_reachable :: "'db LogDAO \<Rightarrow> 'db Buffer \<Rightarrow> bool" for d where
  buf_init: "buf_New unused db opts = Some s \<Longrightarrow> buf_reachable d s"
| buf_more: "buf_reachable d s \<Longrightarrow> buf_step d s s1 \<Longrightarrow> buf_reachable d s1"

end
