(* ===== verification/Buffer_Props.thy ===== *)
theory Buffer_Props
  imports Log_Buffer
begin

text \<open>
  What the write buffer guarantees under every interleaving of callers, flush loop and shutdown: the
  contract of \<open>Create\<close>, the resolution of temporary IDs, the drain at \<open>Stop\<close>, and the window after it in
  which a log can still be enqueued and is lost.
\<close>

section \<open>The inner DAO\<close>

text \<open>The columns that a result does not change.\<close>

definition ident :: "JobLog \<Rightarrow> JobLog" where
  "ident l = l\<lparr>jl_Status := 0, jl_ErrorMsg := [], jl_StartTime := None, jl_EndTime := None, jl_DurationMs := 0\<rparr>"

text \<open>An insert that succeeds appends the rows with new positive IDs and fills these in; one that fails
  inserts nothing; results and details leave the identity of the rows.\<close>

definition stored :: "('db \<Rightarrow> JobLog list) \<Rightarrow> JobLog list \<Rightarrow> JobLog list \<Rightarrow> 'db \<Rightarrow> 'db \<Rightarrow> bool" where
  "stored rows ls ls1 db db1 \<longleftrightarrow> rows db1 = rows db @ ls1 \<and> length ls1 = length ls \<and> distinct (map jl_ID ls1) \<and>
     (\<forall>l \<in> set ls1. 0 < jl_ID l \<and> jl_ID l \<notin> jl_ID ` set (rows db))"

definition stores_logs :: "('db \<Rightarrow> JobLog list) \<Rightarrow> 'db LogDAO \<Rightarrow> bool" where
  "stores_logs rows d \<longleftrightarrow>
     (\<forall>l db err l1 db1. di_Create d l db = ((err, l1), db1) \<longrightarrow> jl_ID l = 0 \<longrightarrow>
        (if err = None then stored rows [l] [l1] db db1 else rows db1 = rows db)) \<and>
     (\<forall>f ls db err ls1 db1. di_CreateBatch d = Some f \<longrightarrow> f ls db = ((err, ls1), db1) \<longrightarrow> (\<forall>l \<in> set ls. jl_ID l = 0) \<longrightarrow>
        length ls1 = length ls \<and> (if err = None then stored rows ls ls1 db db1 else rows db1 = rows db)) \<and>
     (\<forall>i st m t u db. map ident (rows (snd (di_UpdateResult d i st m t u db))) = map ident (rows db)) \<and>
     (\<forall>det db. rows (snd (di_CreateDetail d det db)) = rows db)"

lemma stored_append:
  assumes "stored rows [l] [l1] db db1" "stored rows ls ls1 db1 db2"
  shows "stored rows (l # ls) (l1 # ls1) db db2"
  using assms by (auto simp: stored_def)

lemma insert_each_spec:
  assumes "stores_logs rows d" "insert_each d ls db = ((err, ls1), db1)" "\<forall>l \<in> set ls. jl_ID l = 0"
  shows "length ls1 = length ls \<and> (\<exists>extra. rows db1 = rows db @ extra) \<and> (err = None \<longrightarrow> stored rows ls ls1 db db1)"
  using assms(2,3)
proof (induction ls arbitrary: db ls1)
  case Nil
  then show ?case by (simp add: stored_def)
next
  case (Cons l ls)
  obtain e l1 dbm where c: "di_Create d l db = ((e, l1), dbm)" by (metis surj_pair)
  have law: "if e = None then stored rows [l] [l1] db dbm else rows dbm = rows db"
    using assms(1) c Cons.prems(2) by (simp add: stores_logs_def)
  show ?case
  proof (cases e)
    case (Some x)
    then show ?thesis using Cons.prems(1) law by (auto simp: c)
  next
    case None
    obtain err2 ls2 db2 where r: "insert_each d ls dbm = ((err2, ls2), db2)" by (metis surj_pair)
    have res: "err2 = err" "ls1 = l1 # ls2" "db2 = db1" using Cons.prems(1) by (simp_all add: c None r)
    have IH: "length ls2 = length ls" "\<exists>extra. rows db1 = rows dbm @ extra" "err = None \<longrightarrow> stored rows ls ls2 dbm db1"
      using Cons.IH [OF r [unfolded res]] Cons.prems(2) by auto
    have st: "stored rows [l] [l1] db dbm" using law None by simp
    then have "\<exists>extra. rows db1 = rows db @ extra" using IH(2) by (auto simp: stored_def)
    then show ?thesis using IH stored_append [OF st] by (simp add: res)
  qed
qed

lemma insert_all_spec:
  assumes "stores_logs rows d" "insert_all d ls db = ((err, ls1), db1)" "\<forall>l \<in> set ls. jl_ID l = 0"
  shows "length ls1 = length ls \<and> (\<exists>extra. rows db1 = rows db @ extra) \<and> (err = None \<longrightarrow> stored rows ls ls1 db db1)"
proof (cases "di_CreateBatch d")
  case None
  then show ?thesis using insert_each_spec [OF assms(1) _ assms(3)] assms(2) by (simp add: insert_all_def)
next
  case (Some f)
  then have "length ls1 = length ls \<and> (if err = None then stored rows ls ls1 db db1 else rows db1 = rows db)"
    using assms unfolding stores_logs_def insert_all_def by simp
  then show ?thesis by (auto simp: stored_def split: if_splits)
qed

lemma put_logs_simps [simp]: "put_logs [] ls h = h" "put_logs as [] h = h"
  "put_logs (a # as) (l # ls) h = put_logs as ls (h(a := l))"
  by (simp_all add: put_logs_def)

lemma put_logs_other: "a \<notin> set as \<Longrightarrow> put_logs as ls h a = h a"
  by (induction as ls arbitrary: h rule: list_induct2') simp_all

lemma put_logs_nth: "distinct as \<Longrightarrow> length ls = length as \<Longrightarrow> i < length as \<Longrightarrow> put_logs as ls h (as ! i) = ls ! i"
proof (induction as ls arbitrary: h i rule: list_induct2')
  case (4 x xs y ys)
  then show ?case by (cases i) (simp_all add: put_logs_other)
qed simp_all

section \<open>Invariant\<close>

definition written :: "'db Buffer \<Rightarrow> nat list" where
  "written s = (case bf_writing s of None \<Rightarrow> [] | Some (es, err) \<Rightarrow> map fst es)"

definition pending :: "'db Buffer \<Rightarrow> nat list" where
  "pending s = bf_ring s @ bf_batch s @ written s"

text \<open>The entries whose insert has succeeded.\<close>

definition good :: "'db Buffer \<Rightarrow> nat set" where
  "good s = {a. bf_done s a = Some None} \<union> {a. bf_call s a = Some (Returned None)} \<union>
     (case bf_writing s of Some (es, None) \<Rightarrow> fst ` set es | _ \<Rightarrow> {})"

definition has_row :: "('db \<Rightarrow> JobLog list) \<Rightarrow> 'db \<Rightarrow> JobLog \<Rightarrow> bool" where
  "has_row rows db l \<longleftrightarrow> 0 < jl_ID l \<and> ident l \<in> ident ` set (rows db)"

definition rows_ok :: "('db \<Rightarrow> JobLog list) \<Rightarrow> 'db Buffer \<Rightarrow> bool" where
  "rows_ok rows s \<longleftrightarrow> (\<forall>a \<in> good s. has_row rows (bf_inner s) (bf_log s a)) \<and> inj_on (\<lambda>a. jl_ID (bf_log s a)) (good s)"

definition calls_ok :: "'db Buffer \<Rightarrow> bool" where
  "calls_ok s \<longleftrightarrow> distinct (pending s) \<and>
     (\<forall>a \<in> set (pending s). bf_done s a = None \<and> (bf_call s a = Some Awaiting \<or> (\<exists>e. bf_call s a = Some (Returned (Some e))))) \<and>
     (\<forall>a. bf_done s a \<noteq> None \<longrightarrow> bf_call s a \<noteq> None \<and> bf_call s a \<noteq> Some Enqueuing) \<and>
     (\<forall>a. bf_call s a \<noteq> None \<longrightarrow> a < bf_fresh s) \<and>
     (\<forall>a. bf_call s a = Some Awaiting \<longrightarrow> bf_done s a = None \<longrightarrow> a \<in> set (pending s))"

lemma ident_ID: "ident l = ident r \<Longrightarrow> jl_ID l = jl_ID r"
  by (metis (no_types, lifting) JobLog.select_convs(1) JobLog.surjective JobLog.update_convs(6,7,11,12,13) ident_def)

lemma has_row_ID: "has_row rows db l \<Longrightarrow> jl_ID l \<in> jl_ID ` set (rows db)"
  by (auto simp: has_row_def dest: ident_ID)

lemma has_row_mono: "has_row rows db l \<Longrightarrow> set (map ident (rows db)) \<subseteq> set (map ident (rows db1)) \<Longrightarrow> has_row rows db1 l"
  by (auto simp: has_row_def)

lemma calls_okD:
  assumes "calls_ok s"
  shows "distinct (pending s)" "a \<in> set (pending s) \<Longrightarrow> bf_done s a = None" "a \<in> set (pending s) \<Longrightarrow> bf_call s a \<noteq> Some Enqueuing"
    "a \<in> set (pending s) \<Longrightarrow> bf_call s a \<noteq> Some (Returned None)" "bf_done s a \<noteq> None \<Longrightarrow> bf_call s a \<noteq> Some Enqueuing"
    "bf_call s a \<noteq> None \<Longrightarrow> a < bf_fresh s" "a \<in> set (pending s) \<Longrightarrow> bf_call s a \<noteq> None" "bf_done s a \<noteq> None \<Longrightarrow> bf_call s a \<noteq> None"
    "bf_call s a = Some Awaiting \<Longrightarrow> bf_done s a = None \<Longrightarrow> a \<in> set (pending s)"
  using assms unfolding calls_ok_def by auto

lemma calls_ok_cong:
  assumes "calls_ok s" "distinct (pending s1)" "set (pending s1) = set (pending s)" "bf_done s1 = bf_done s" "bf_call s1 = bf_call s"
    "bf_fresh s1 = bf_fresh s"
  shows "calls_ok s1"
  using assms unfolding calls_ok_def by simp

lemma rows_ok_cong:
  assumes "rows_ok rows s" "good s1 = good s" "bf_log s1 = bf_log s" "bf_inner s1 = bf_inner s"
  shows "rows_ok rows s1"
  using assms unfolding rows_ok_def by simp

text \<open>The rows only grow, and what is good keeps its log.\<close>

lemma rows_ok_mono:
  assumes "rows_ok rows s" "good s1 \<subseteq> good s" "\<And>a. a \<in> good s1 \<Longrightarrow> bf_log s1 a = bf_log s a"
    "set (map ident (rows (bf_inner s))) \<subseteq> set (map ident (rows (bf_inner s1)))"
  shows "rows_ok rows s1"
  unfolding rows_ok_def
proof
  show "\<forall>a\<in>good s1. has_row rows (bf_inner s1) (bf_log s1 a)"
    using assms has_row_mono unfolding rows_ok_def by (metis subsetD)
  have "inj_on (\<lambda>a. jl_ID (bf_log s a)) (good s1)"
    using assms(1,2) unfolding rows_ok_def by (blast intro: inj_on_subset)
  then show "inj_on (\<lambda>a. jl_ID (bf_log s1 a)) (good s1)" using assms(3) by (simp add: inj_on_def)
qed

text \<open>A good entry more, with a fresh row.\<close>

lemma rows_ok_new:
  assumes ok: "rows_ok rows s" and st: "stored rows ls ls1 (bf_inner s) (bf_inner s1)"
    and as: "length as = length ls" "distinct as" "set as \<inter> good s = {}" "good s1 = good s \<union> set as"
    and log: "\<And>i. i < length as \<Longrightarrow> bf_log s1 (as ! i) = ls1 ! i" "\<And>a. a \<in> good s \<Longrightarrow> bf_log s1 a = bf_log s a"
  shows "rows_ok rows s1"
proof -
  have len: "length ls1 = length as" using st as(1) by (simp add: stored_def)
  have new: "\<exists>i < length as. a = as ! i \<and> bf_log s1 a = ls1 ! i \<and> ls1 ! i \<in> set ls1" if "a \<in> set as" for a
    using that log(1) len by (auto simp: in_set_conv_nth)
  have rows: "rows (bf_inner s1) = rows (bf_inner s) @ ls1" using st by (simp add: stored_def)
  have old: "has_row rows (bf_inner s1) (bf_log s1 a)" "jl_ID (bf_log s1 a) \<in> jl_ID ` set (rows (bf_inner s))"
    if "a \<in> good s" for a
  proof -
    have h: "has_row rows (bf_inner s) (bf_log s a)" using ok that by (simp add: rows_ok_def)
    have sub: "set (map ident (rows (bf_inner s))) \<subseteq> set (map ident (rows (bf_inner s1)))" by (simp add: rows)
    show "has_row rows (bf_inner s1) (bf_log s1 a)" unfolding log(2) [OF that] by (rule has_row_mono [OF h sub])
    show "jl_ID (bf_log s1 a) \<in> jl_ID ` set (rows (bf_inner s))" unfolding log(2) [OF that] by (rule has_row_ID [OF h])
  qed
  have fresh: "has_row rows (bf_inner s1) (bf_log s1 a)" "jl_ID (bf_log s1 a) \<notin> jl_ID ` set (rows (bf_inner s))"
    if "a \<in> set as" for a
    using new [OF that] st unfolding stored_def has_row_def rows by auto
  have "inj_on (\<lambda>a. jl_ID (bf_log s1 a)) (set as)"
  proof (rule inj_onI)
    fix a b assume ab: "a \<in> set as" "b \<in> set as" "jl_ID (bf_log s1 a) = jl_ID (bf_log s1 b)"
    obtain i j where "i < length as" "j < length as" "a = as ! i" "b = as ! j" "bf_log s1 a = ls1 ! i" "bf_log s1 b = ls1 ! j"
      using new [OF ab(1)] new [OF ab(2)] by blast
    moreover have dst: "distinct (map jl_ID ls1)" using st by (simp add: stored_def)
    ultimately show "a = b" using ab(3) len nth_eq_iff_index_eq [OF dst, of i j] by simp
  qed
  moreover have "inj_on (\<lambda>a. jl_ID (bf_log s1 a)) (good s)"
    using ok log(2) by (simp add: rows_ok_def inj_on_def)
  moreover have "jl_ID (bf_log s1 a) \<noteq> jl_ID (bf_log s1 b)" if "a \<in> good s" "b \<in> set as" for a b
    using old(2) [OF that(1)] fresh(2) [OF that(2)] by metis
  ultimately have "inj_on (\<lambda>a. jl_ID (bf_log s1 a)) (good s \<union> set as)"
    unfolding inj_on_Un by blast
  then show ?thesis unfolding rows_ok_def as(4) using old(1) fresh(1) by auto
qed

lemma pending_simps: "set (pending s) = set (bf_ring s) \<union> set (bf_batch s) \<union> set (written s)"
  by (auto simp: pending_def)

lemma write_insert_shape:
  assumes "stores_logs rows d"
  obtains err logs db where "write_insert d s = s\<lparr>bf_inner := db, bf_log := put_logs (bf_batch s) logs (bf_log s), bf_batch := [],
      bf_writing := Some (zip (bf_batch s) (map (\<lambda>a. jl_ID (bf_log s a)) (bf_batch s)), err)\<rparr>"
    "length logs = length (bf_batch s)" "set (map ident (rows (bf_inner s))) \<subseteq> set (map ident (rows db))"
    "err = None \<Longrightarrow> stored rows (map (\<lambda>a. (bf_log s a)\<lparr>jl_ID := 0\<rparr>) (bf_batch s)) logs (bf_inner s) db"
proof -
  obtain err logs db where i: "insert_all d (map (\<lambda>a. (bf_log s a)\<lparr>jl_ID := 0\<rparr>) (bf_batch s)) (bf_inner s) = ((err, logs), db)"
    by (metis surj_pair)
  show thesis
    using insert_all_spec [OF assms i] by (intro that [of err logs db]) (auto simp: write_insert_def i Let_def)
qed

lemma write_insert_inv:
  assumes dao: "stores_logs rows d" and w: "bf_writing s = None" and ok: "calls_ok s" "rows_ok rows s"
  shows "calls_ok (write_insert d s) \<and> rows_ok rows (write_insert d s)"
proof -
  let ?as = "bf_batch s"
  obtain err logs db where eq: "write_insert d s = s\<lparr>bf_inner := db, bf_log := put_logs ?as logs (bf_log s), bf_batch := [],
      bf_writing := Some (zip ?as (map (\<lambda>a. jl_ID (bf_log s a)) ?as), err)\<rparr>" (is "_ = ?s1")
    and len: "length logs = length ?as" and rows: "set (map ident (rows (bf_inner s))) \<subseteq> set (map ident (rows db))"
    and st: "err = None \<Longrightarrow> stored rows (map (\<lambda>a. (bf_log s a)\<lparr>jl_ID := 0\<rparr>) ?as) logs (bf_inner s) db"
    by (rule write_insert_shape [OF dao, of s]) blast
  have fst: "map fst (zip ?as (map (\<lambda>a. jl_ID (bf_log s a)) ?as)) = ?as" by simp
  have wr: "written ?s1 = ?as" by (simp add: written_def)
  have pend: "pending ?s1 = pending s" using w by (simp add: pending_def wr) (simp add: written_def)
  have calls: "calls_ok ?s1" by (rule calls_ok_cong [OF ok(1)]) (use calls_okD(1) [OF ok(1)] in \<open>simp_all only: pend\<close>, simp_all)
  have dist: "distinct ?as" using calls_okD(1) [OF ok(1)] by (simp add: pending_def)
  have "a \<notin> good s" if "a \<in> set ?as" for a
  proof -
    have "a \<in> set (pending s)" using that by (simp add: pending_simps)
    then show ?thesis using calls_okD(2,4) [OF ok(1), of a] w by (simp add: good_def)
  qed
  then have disj: "set ?as \<inter> good s = {}" by blast
  have other: "put_logs ?as logs (bf_log s) a = bf_log s a" if "a \<in> good s" for a
    using disj that by (auto intro: put_logs_other)
  have "rows_ok rows ?s1"
  proof (cases err)
    case None
    have "fst ` set (zip ?as (map (\<lambda>a. jl_ID (bf_log s a)) ?as)) = set ?as"
      using arg_cong [OF fst, of set] by (simp only: set_map)
    then have "good ?s1 = good s \<union> set ?as" using w by (simp add: good_def None)
    then show ?thesis
      using rows_ok_new [OF ok(2), of _ logs ?s1 ?as] st [OF None] dist disj other len put_logs_nth [OF dist len]
      by simp
  next
    case (Some e)
    have "good ?s1 = good s" using w by (simp add: good_def Some)
    then show ?thesis using rows other by (intro rows_ok_mono [OF ok(2)]) simp_all
  qed
  then show ?thesis using calls by (simp add: eq)
qed

lemma good_cases:
  assumes "calls_ok s" "a \<in> good s"
  shows "bf_call s a \<noteq> None" "bf_call s a \<noteq> Some Enqueuing"
proof -
  consider "bf_done s a = Some None" | "bf_call s a = Some (Returned None)" | es where "bf_writing s = Some (es, None)" "a \<in> fst ` set es"
    using assms(2) by (auto simp: good_def split: option.splits)
  then have "bf_call s a \<noteq> None \<and> bf_call s a \<noteq> Some Enqueuing"
  proof cases
    case 3
    then have "a \<in> set (pending s)" by (simp add: pending_simps written_def)
    then show ?thesis using calls_okD(3,7) [OF assms(1)] by blast
  qed (use calls_okD(5,8) [OF assms(1), of a] in auto)
  then show "bf_call s a \<noteq> None" "bf_call s a \<noteq> Some Enqueuing" by simp_all
qed

lemma flush_inv:
  assumes "stores_logs rows d" "bf_writing s = None" "calls_ok s" "rows_ok rows s"
  shows "calls_ok (buf_flush d s) \<and> rows_ok rows (buf_flush d s)"
  using write_insert_inv [OF assms] assms(3,4) by (simp add: buf_flush_def)

lemma loop_set_inv:
  assumes "calls_ok s" "rows_ok rows s"
  shows "calls_ok (s\<lparr>bf_loop := pc\<rparr>) \<and> rows_ok rows (s\<lparr>bf_loop := pc\<rparr>)"
proof -
  have p: "pending (s\<lparr>bf_loop := pc\<rparr>) = pending s" "good (s\<lparr>bf_loop := pc\<rparr>) = good s"
    by (simp_all add: pending_def written_def good_def)
  have "calls_ok (s\<lparr>bf_loop := pc\<rparr>)"
    by (rule calls_ok_cong [OF assms(1)]) (simp_all only: p calls_okD(1) [OF assms(1)], simp_all)
  moreover have "rows_ok rows (s\<lparr>bf_loop := pc\<rparr>)" by (rule rows_ok_cong [OF assms(2) p(2)]) simp_all
  ultimately show ?thesis ..
qed

lemma receive_inv:
  assumes dao: "stores_logs rows d" and w: "bf_writing s = None" and ok: "calls_ok s" "rows_ok rows s"
  shows "calls_ok (loop_receive d s) \<and> rows_ok rows (loop_receive d s)"
proof (cases "bf_ring s")
  case Nil
  then show ?thesis using ok by (simp add: loop_receive_def)
next
  case (Cons a as)
  let ?s1 = "s\<lparr>bf_ring := as, bf_batch := bf_batch s @ [a]\<rparr>"
  have p: "pending ?s1 = as @ (bf_batch s @ [a])" "pending s = (a # as) @ bf_batch s" using w by (simp_all add: pending_def written_def Cons)
  have "calls_ok ?s1"
    by (rule calls_ok_cong [OF ok(1)]) (use calls_okD(1) [OF ok(1)] in \<open>auto simp: p\<close>)
  moreover have "rows_ok rows ?s1" by (rule rows_ok_cong [OF ok(2)]) (simp_all add: good_def)
  ultimately show ?thesis using flush_inv [OF dao, of ?s1] w by (simp add: loop_receive_def Cons Let_def)
qed

lemma publish_shape:
  assumes "bf_writing s = Some (es, err)"
  shows "bf_done (write_publish s) = (\<lambda>a. if a \<in> set (written s) then Some err else bf_done s a)"
    "bf_writing (write_publish s) = None" "pending (write_publish s) = bf_ring s @ bf_batch s"
    "bf_call (write_publish s) = bf_call s" "bf_log (write_publish s) = bf_log s" "bf_inner (write_publish s) = bf_inner s"
    "bf_fresh (write_publish s) = bf_fresh s"
  using assms publish_fold_frame [of err es s]
  by (simp_all add: write_publish_def written_def pending_def)

lemma publish_inv:
  assumes ok: "calls_ok s" "rows_ok rows s"
  shows "calls_ok (write_publish s) \<and> rows_ok rows (write_publish s)"
proof (cases "bf_writing s")
  case None
  then show ?thesis using ok by (simp add: write_publish_def)
next
  case (Some w)
  obtain es err where w: "bf_writing s = Some (es, err)" using Some by (cases w) simp
  note sh = publish_shape [OF w]
  have p: "pending s = (bf_ring s @ bf_batch s) @ written s" by (simp add: pending_def)
  have disj: "set (bf_ring s @ bf_batch s) \<inter> set (written s) = {}" "distinct (bf_ring s @ bf_batch s)"
    using calls_okD(1) [OF ok(1)] unfolding p by auto
  have "bf_call s a \<noteq> Some Enqueuing" if "a \<in> set (written s)" for a
    using calls_okD(3) [OF ok(1), of a] that by (simp add: p)
  then have "calls_ok (write_publish s)"
    using ok(1) disj unfolding calls_ok_def sh p by auto
  moreover have "good (write_publish s) = good s"
  proof -
    have "bf_done s a = None" if "(a, t) \<in> set es" for a t
      using calls_okD(2) [OF ok(1), of a] that by (force simp: p written_def w)
    then show ?thesis unfolding good_def sh by (cases err) (auto simp: w written_def)
  qed
  ultimately show ?thesis using rows_ok_cong [OF ok(2)] sh by metis
qed

lemma begin_inv:
  assumes ok: "calls_ok s" "rows_ok rows s"
  shows "calls_ok (snd (create_begin l s)) \<and> rows_ok rows (snd (create_begin l s))"
proof -
  let ?s1 = "snd (create_begin l s)" and ?a = "bf_fresh s"
  have new: "bf_call s ?a = None" using calls_okD(6) [OF ok(1), of ?a] by (metis less_irrefl)
  have p: "pending ?s1 = pending s" by (simp add: create_begin_def Let_def pending_def written_def)
  have f: "bf_done ?s1 = bf_done s" "bf_call ?s1 = (bf_call s)(?a \<mapsto> Enqueuing)" "bf_fresh ?s1 = Suc ?a" "bf_inner ?s1 = bf_inner s"
    "bf_writing ?s1 = bf_writing s" by (simp_all add: create_begin_def Let_def)
  have lg: "bf_log ?s1 b = bf_log s b" if "b \<noteq> ?a" for b using that by (simp add: create_begin_def Let_def)
  have "?a \<notin> set (pending s)" using calls_okD(7) [OF ok(1), of ?a] new by blast
  moreover have "bf_done s ?a = None" using calls_okD(8) [OF ok(1), of ?a] new by blast
  ultimately have calls: "calls_ok ?s1" using ok(1) unfolding calls_ok_def p f by (auto simp: less_Suc_eq)
  have "good ?s1 = good s" unfolding good_def f using new by auto
  moreover have "bf_log ?s1 b = bf_log s b" if "b \<in> good s" for b
    using good_cases(1) [OF ok(1) that] new by (intro lg) metis
  ultimately have "rows_ok rows ?s1" by (intro rows_ok_mono [OF ok(2)]) (simp_all add: f)
  then show ?thesis using calls by simp
qed

text \<open>A step of one caller that leaves the channels and the rows.\<close>

lemma call_inv:
  assumes ok: "calls_ok s" "rows_ok rows s"
    and s1: "s1 = s\<lparr>bf_log := lg, bf_call := (bf_call s)(a \<mapsto> c)\<rparr>"
    and lg: "\<And>b. b \<in> good s \<Longrightarrow> lg b = bf_log s b"
    and c: "c \<noteq> Enqueuing" "c = Awaiting \<Longrightarrow> bf_done s a \<noteq> None" "a < bf_fresh s"
    and p: "a \<in> set (pending s) \<Longrightarrow> \<exists>e. c = Returned (Some e)" and g: "c = Returned None \<Longrightarrow> a \<in> good s"
  shows "calls_ok s1 \<and> rows_ok rows s1"
proof -
  have pe: "pending s1 = pending s" by (simp add: s1 pending_def written_def)
  have "good s1 \<subseteq> good s" using g by (auto simp: s1 good_def)
  then have "rows_ok rows s1" using lg by (intro rows_ok_mono [OF ok(2)]) (auto simp: s1)
  moreover have f: "bf_done s1 = bf_done s" "bf_call s1 = (bf_call s)(a \<mapsto> c)" "bf_fresh s1 = bf_fresh s" by (simp_all add: s1)
  have "calls_ok s1" using ok(1) c p unfolding calls_ok_def pe f by (auto split: if_splits)
  ultimately show ?thesis by simp
qed

lemma enqueuing_facts:
  assumes "calls_ok s" "bf_call s a = Some Enqueuing"
  shows "a \<notin> set (pending s)" "a < bf_fresh s" "bf_done s a = None"
proof -
  show "a \<notin> set (pending s)" "a < bf_fresh s" using calls_okD(3,6) [OF assms(1), of a] assms(2) by auto
  show "bf_done s a = None" using calls_okD(5) [OF assms(1), of a] assms(2) by (cases "bf_done s a") simp_all
qed

lemma enqueue_inv:
  assumes ok: "calls_ok s" "rows_ok rows s" and a: "bf_call s a = Some Enqueuing"
  shows "calls_ok (create_enqueue a s) \<and> rows_ok rows (create_enqueue a s)"
proof -
  let ?s1 = "create_enqueue a s"
  have p: "pending ?s1 = bf_ring s @ [a] @ bf_batch s @ written s" by (simp add: create_enqueue_def pending_def written_def)
  have f: "bf_done ?s1 = bf_done s" "bf_call ?s1 = (bf_call s)(a \<mapsto> Awaiting)" "bf_fresh ?s1 = bf_fresh s" "bf_inner ?s1 = bf_inner s"
    "bf_writing ?s1 = bf_writing s" "bf_log ?s1 = bf_log s" by (simp_all add: create_enqueue_def)
  note new = enqueuing_facts [OF ok(1) a]
  have "set (pending ?s1) = insert a (set (pending s))" "distinct (pending ?s1)"
    using new(1) calls_okD(1) [OF ok(1)] unfolding p by (auto simp: pending_def)
  then have "calls_ok ?s1" using ok(1) new unfolding calls_ok_def f by auto
  moreover have "good ?s1 \<subseteq> good s" unfolding good_def f by auto
  then have "rows_ok rows ?s1" by (intro rows_ok_mono [OF ok(2)]) (simp_all add: f)
  ultimately show ?thesis ..
qed

lemma inner_inv:
  assumes ok: "calls_ok s" "rows_ok rows s" and "map ident (rows db) = map ident (rows (bf_inner s))"
  shows "calls_ok (s\<lparr>bf_inner := db, bf_idMap := m\<rparr>) \<and> rows_ok rows (s\<lparr>bf_inner := db, bf_idMap := m\<rparr>)"
proof -
  have p: "pending (s\<lparr>bf_inner := db, bf_idMap := m\<rparr>) = pending s" "good (s\<lparr>bf_inner := db, bf_idMap := m\<rparr>) = good s"
    by (simp_all add: pending_def written_def good_def)
  have "calls_ok (s\<lparr>bf_inner := db, bf_idMap := m\<rparr>)"
    by (rule calls_ok_cong [OF ok(1)]) (simp_all only: p calls_okD(1) [OF ok(1)], simp_all)
  moreover have "rows_ok rows (s\<lparr>bf_inner := db, bf_idMap := m\<rparr>)"
    by (rule rows_ok_mono [OF ok(2)]) (use assms(3) in \<open>simp_all only: p\<close>, simp_all)
  ultimately show ?thesis ..
qed

lemma sync_inv:
  assumes dao: "stores_logs rows d" and ok: "calls_ok s" "rows_ok rows s" and a: "bf_call s a = Some Enqueuing"
  shows "calls_ok (create_sync d a s) \<and> rows_ok rows (create_sync d a s)"
proof -
  let ?l = "(bf_log s a)\<lparr>jl_ID := 0\<rparr>"
  obtain err l db where c: "di_Create d ?l (bf_inner s) = ((err, l), db)" by (metis surj_pair)
  let ?m = "s\<lparr>bf_log := (bf_log s)(a := l), bf_call := (bf_call s)(a \<mapsto> Returned (map_option db_text err))\<rparr>"
  have eq: "create_sync d a s = ?m\<lparr>bf_inner := db\<rparr>" by (simp add: create_sync_def c)
  have law: "if err = None then stored rows [?l] [l] (bf_inner s) db else rows db = rows (bf_inner s)"
    using dao c by (simp add: stores_logs_def)
  have na: "a \<notin> good s" using good_cases(2) [OF ok(1)] a by blast
  note np = enqueuing_facts [OF ok(1) a]
  have f: "pending (?m\<lparr>bf_inner := db\<rparr>) = pending s" by (simp add: pending_def written_def)
  have calls: "calls_ok (?m\<lparr>bf_inner := db\<rparr>)" using ok(1) np unfolding calls_ok_def f by auto
  have "rows_ok rows (?m\<lparr>bf_inner := db\<rparr>)"
  proof (cases err)
    case None
    then have "good (?m\<lparr>bf_inner := db\<rparr>) = good s \<union> set [a]" by (auto simp: good_def split: option.splits)
    then show ?thesis using law None na by (intro rows_ok_new [OF ok(2), of "[?l]" "[l]" _ "[a]"]) auto
  next
    case (Some e)
    then have "good (?m\<lparr>bf_inner := db\<rparr>) \<subseteq> good s" by (auto simp: good_def)
    then show ?thesis using law Some na by (intro rows_ok_mono [OF ok(2)]) auto
  qed
  then show ?thesis using calls by (simp add: eq)
qed

lemma buf_step_inv:
  assumes "stores_logs rows d" "buf_step d s s1" "calls_ok s" "rows_ok rows s"
  shows "calls_ok s1 \<and> rows_ok rows s1"
  using assms(2)
proof cases
  case bs_start
  then show ?thesis using loop_set_inv [OF assms(3,4)] by (auto simp: buf_Start_def split: if_splits)
next
  case bs_close
  then have "s1 = s\<lparr>bf_stopCh := True\<rparr>" by (simp add: buf_close_def split: if_splits)
  then have "pending s1 = pending s" "good s1 = good s" "bf_done s1 = bf_done s" "bf_call s1 = bf_call s" "bf_fresh s1 = bf_fresh s"
    "bf_log s1 = bf_log s" "bf_inner s1 = bf_inner s" by (simp_all add: pending_def written_def good_def)
  then show ?thesis using calls_ok_cong [OF assms(3)] rows_ok_cong [OF assms(4)] calls_okD(1) [OF assms(3)] by metis
next
  case bs_receive
  then show ?thesis using receive_inv [OF assms(1) _ assms(3,4)] by simp
next
  case bs_tick
  then show ?thesis using flush_inv [OF assms(1) _ assms(3,4)] by simp
next
  case bs_stop
  then show ?thesis using loop_set_inv [OF assms(3,4)] by simp
next
  case bs_drained
  then show ?thesis using flush_inv [OF assms(1) _ assms(3,4)] loop_set_inv by blast
next
  case bs_publish
  then show ?thesis using publish_inv [OF assms(3,4)] by simp
next
  case (bs_begin l)
  then show ?thesis using begin_inv [OF assms(3,4)] by simp
next
  case (bs_enqueue a)
  then show ?thesis using enqueue_inv [OF assms(3,4)] by simp
next
  case (bs_cancel a err)
  have "a \<notin> good s" "a < bf_fresh s" using good_cases(2) [OF assms(3)] calls_okD(6) [OF assms(3)] bs_cancel(2) by auto
  then show ?thesis unfolding bs_cancel(1)
    by (intro call_inv [OF assms(3,4), where lg = "bf_log (set_id 0 a s)" and a = a and c = "Returned (Some (''logbuffer: enqueue cancelled: '' @ err))"])
      (auto simp: create_cancel_def set_id_def)
next
  case (bs_sync a)
  then show ?thesis using sync_inv [OF assms(1,3,4)] by simp
next
  case (bs_return a res)
  have b: "a < bf_fresh s" "a \<notin> set (pending s)" using calls_okD(2,6) [OF assms(3)] bs_return(2,3) by auto
  show ?thesis
  proof (cases res)
    case None
    then have "a \<in> good s" using bs_return(3) by (simp add: good_def)
    then show ?thesis using b bs_return None
      by (intro call_inv [OF assms(3,4), where lg = "bf_log s" and a = a and c = "Returned None"]) (auto simp: create_return_def)
  next
    case (Some e)
    have "a \<notin> fst ` set es" if "bf_writing s = Some (es, None)" for es
      using b(2) that by (simp add: pending_simps written_def)
    then have "a \<notin> good s" using bs_return(2,3) Some by (auto simp: good_def split: option.splits)
    then show ?thesis using b bs_return Some
      by (intro call_inv [OF assms(3,4), where lg = "bf_log (set_id 0 a s)" and a = a and c = "Returned (Some (''logbuffer: flush failed: '' @ db_text e))"])
        (auto simp: create_return_def set_id_def)
  qed
next
  case (bs_giveup a err)
  then show ?thesis using calls_okD(6) [OF assms(3), of a]
    by (intro call_inv [OF assms(3,4), where lg = "bf_log s" and a = a and c = "Returned (Some (''logbuffer: wait for id cancelled: '' @ err))"])
      (auto simp: create_giveup_def)
next
  case (bs_update i status errMsg start fin)
  have s1: "s1 = s\<lparr>bf_inner := snd (di_UpdateResult d (resolveID i s) status errMsg start fin (bf_inner s)),
      bf_idMap := (if resolveID i s \<noteq> i then (bf_idMap s)(i := None) else bf_idMap s)\<rparr>"
    unfolding bs_update by (simp add: buf_UpdateResult_def Let_def gcIDMap_def case_prod_beta)
  show ?thesis unfolding s1 by (rule inner_inv [OF assms(3,4)]) (use assms(1) in \<open>simp add: stores_logs_def\<close>)
next
  case (bs_detail det)
  have s1: "s1 = s\<lparr>bf_inner := snd (di_CreateDetail d det (bf_inner s)), bf_idMap := bf_idMap s\<rparr>"
    unfolding bs_detail by (simp add: buf_CreateDetail_def case_prod_beta)
  show ?thesis unfolding s1 by (rule inner_inv [OF assms(3,4)]) (use assms(1) in \<open>simp add: stores_logs_def\<close>)
qed

lemma buf_inv_New: "buf_New unused db opts = Some s \<Longrightarrow> calls_ok s \<and> rows_ok rows s"
  by (auto simp: buf_New_def Let_def calls_ok_def rows_ok_def pending_def written_def good_def split: if_splits)

lemma buf_reachable_inv:
  assumes "buf_reachable d s" "stores_logs rows d"
  shows "calls_ok s \<and> rows_ok rows s"
  using assms(1)
proof (induction rule: buf_reachable.induct)
  case (buf_init unused db opts s)
  then show ?case by (rule buf_inv_New)
next
  case (buf_more s s1)
  then show ?case using buf_step_inv [OF assms(2)] by simp
qed

text \<open>Property C25: the contract of \<open>Create\<close>, under every interleaving and whatever the timeouts, the errors of
  the database and the shutdown: a call that has returned without an error has a positive ID, the database
  holds the row with that ID and the caller's log, whose result columns alone may have changed since, and
  no two such calls have the same row.\<close>

theorem create_contract:
  assumes "stores_logs rows d" "buf_reachable d s" "bf_call s a = Some (Returned None)"
  shows "0 < jl_ID (bf_log s a) \<and> (\<exists>r \<in> set (rows (bf_inner s)). jl_ID r = jl_ID (bf_log s a) \<and> ident r = ident (bf_log s a)) \<and>
    (\<forall>b. b \<noteq> a \<and> bf_call s b = Some (Returned None) \<longrightarrow> jl_ID (bf_log s b) \<noteq> jl_ID (bf_log s a))"
proof -
  have inv: "rows_ok rows s" using buf_reachable_inv [OF assms(2,1)] by simp
  have good: "b \<in> good s" if "bf_call s b = Some (Returned None)" for b using that by (simp add: good_def)
  have "has_row rows (bf_inner s) (bf_log s a)" using inv good [OF assms(3)] by (simp add: rows_ok_def)
  then obtain r where "0 < jl_ID (bf_log s a)" "r \<in> set (rows (bf_inner s))" "ident (bf_log s a) = ident r"
    by (auto simp: has_row_def)
  moreover have "jl_ID (bf_log s b) \<noteq> jl_ID (bf_log s a)" if "b \<noteq> a" "bf_call s b = Some (Returned None)" for b
    using inv good [OF assms(3)] good [OF that(2)] that(1) by (auto simp: rows_ok_def inj_on_def)
  ultimately show ?thesis using ident_ID by metis
qed

section \<open>Temporary IDs\<close>

definition tmp_of :: "nat \<Rightarrow> int" where "tmp_of a = - (int a + 1)"

text \<open>As long as the sequence does not wrap around, the temporary ID of the \<open>n\<close>-th call is \<open>-n\<close>.\<close>

definition tmp_inv :: "'db Buffer \<Rightarrow> bool" where
  "tmp_inv s \<longleftrightarrow> bf_tmpSeq s = int (bf_fresh s) \<and>
     (\<forall>a \<in> set (bf_ring s) \<union> set (bf_batch s). jl_ID (bf_log s a) = tmp_of a) \<and>
     (\<forall>a. bf_call s a = Some Enqueuing \<longrightarrow> jl_ID (bf_log s a) = tmp_of a) \<and>
     (\<forall>es err. bf_writing s = Some (es, err) \<longrightarrow> (\<forall>(a, t) \<in> set es. t = tmp_of a)) \<and>
     (\<forall>t r. bf_idMap s t = Some r \<longrightarrow> (\<exists>a. t = tmp_of a \<and> bf_done s a = Some None \<and> r = jl_ID (bf_log s a)))"

lemma tmp_invD:
  assumes "tmp_inv s"
  shows "bf_tmpSeq s = int (bf_fresh s)" "a \<in> set (bf_ring s) \<Longrightarrow> jl_ID (bf_log s a) = tmp_of a"
    "a \<in> set (bf_batch s) \<Longrightarrow> jl_ID (bf_log s a) = tmp_of a" "bf_call s a = Some Enqueuing \<Longrightarrow> jl_ID (bf_log s a) = tmp_of a"
    "bf_writing s = Some (es, err) \<Longrightarrow> (a, t) \<in> set es \<Longrightarrow> t = tmp_of a"
    "bf_idMap s t = Some r \<Longrightarrow> \<exists>a. t = tmp_of a \<and> bf_done s a = Some None \<and> r = jl_ID (bf_log s a)"
  using assms unfolding tmp_inv_def by auto

text \<open>A step that keeps the logs of what waits and of what is done, and adds nothing to the map.\<close>

lemma tmp_inv_cong:
  assumes "tmp_inv s" "bf_tmpSeq s1 = bf_tmpSeq s" "bf_fresh s1 = bf_fresh s" "bf_idMap s1 \<subseteq>\<^sub>m bf_idMap s" "bf_done s1 = bf_done s"
    and "\<And>a. a \<in> set (bf_ring s1) \<union> set (bf_batch s1) \<Longrightarrow> jl_ID (bf_log s1 a) = tmp_of a"
    and "\<And>a. bf_call s1 a = Some Enqueuing \<Longrightarrow> bf_call s a = Some Enqueuing \<and> bf_log s1 a = bf_log s a"
    and "\<And>a. bf_done s a = Some None \<Longrightarrow> bf_log s1 a = bf_log s a"
    and "\<And>es err a t. bf_writing s1 = Some (es, err) \<Longrightarrow> (a, t) \<in> set es \<Longrightarrow> t = tmp_of a"
  shows "tmp_inv s1"
  unfolding tmp_inv_def
proof (intro conjI allI impI ballI)
  fix t r assume "bf_idMap s1 t = Some r"
  then have "bf_idMap s t = Some r" using assms(4) by (force simp: map_le_def dom_def)
  then obtain a where "t = tmp_of a" "bf_done s a = Some None" "r = jl_ID (bf_log s a)" using tmp_invD(6) [OF assms(1)] by blast
  then show "\<exists>a. t = tmp_of a \<and> bf_done s1 a = Some None \<and> r = jl_ID (bf_log s1 a)" using assms(5,8) by auto
qed (use assms tmp_invD(1,4) [OF assms(1)] in auto)

lemma write_insert_tmp:
  assumes dao: "stores_logs rows d" and ok: "calls_ok s" and w: "bf_writing s = None" and t: "tmp_inv s"
  shows "tmp_inv (write_insert d s)"
proof -
  let ?as = "bf_batch s"
  obtain err logs db where eq: "write_insert d s = s\<lparr>bf_inner := db, bf_log := put_logs ?as logs (bf_log s), bf_batch := [],
      bf_writing := Some (zip ?as (map (\<lambda>a. jl_ID (bf_log s a)) ?as), err)\<rparr>" (is "_ = ?s1")
    by (rule write_insert_shape [OF dao, of s]) blast
  have other: "bf_log ?s1 a = bf_log s a" if "a \<notin> set ?as" for a using put_logs_other [OF that] by simp
  have b: "a \<in> set (pending s)" if "a \<in> set ?as" for a using that by (simp add: pending_simps)
  have "tmp_inv ?s1"
  proof (rule tmp_inv_cong [OF t])
    fix a assume "a \<in> set (bf_ring ?s1) \<union> set (bf_batch ?s1)"
    then have "a \<in> set (bf_ring s)" by simp
    moreover from this have "a \<notin> set ?as" using calls_okD(1) [OF ok] by (auto simp: pending_def)
    ultimately show "jl_ID (bf_log ?s1 a) = tmp_of a" using tmp_invD(2) [OF t] other by metis
  next
    fix a assume "bf_call ?s1 a = Some Enqueuing"
    then have c: "bf_call s a = Some Enqueuing" by simp
    then have "a \<notin> set ?as" using calls_okD(3) [OF ok] b by blast
    then show "bf_call s a = Some Enqueuing \<and> bf_log ?s1 a = bf_log s a" using c other by blast
  next
    fix a assume "bf_done s a = Some None"
    then have "a \<notin> set ?as" using calls_okD(2) [OF ok, OF b] by (metis option.distinct(1))
    then show "bf_log ?s1 a = bf_log s a" by (rule other)
  next
    fix es er a t' assume e: "bf_writing ?s1 = Some (es, er)" "(a, t') \<in> set es"
    then have "t' = jl_ID (bf_log s a)" "a \<in> set ?as" by (auto simp: set_zip)
    then show "t' = tmp_of a" using tmp_invD(3) [OF t] by simp
  qed simp_all
  then show ?thesis by (simp add: eq)
qed

lemma publish_map:
  "bf_idMap (fold (publish_one err) es s) t = Some r \<Longrightarrow>
   bf_idMap s t = Some r \<or> (err = None \<and> (\<exists>a. (a, t) \<in> set es \<and> r = jl_ID (bf_log s a)))"
proof (induction es arbitrary: s)
  case (Cons e es)
  obtain b u where e: "e = (b, u)" by (cases e)
  have "bf_log (publish_one err e s) = bf_log s" by (simp add: publish_one_def Let_def e)
  then have "bf_idMap (publish_one err e s) t = Some r \<or> (err = None \<and> (\<exists>a. (a, t) \<in> set es \<and> r = jl_ID (bf_log s a)))"
    using Cons.IH [of "publish_one err e s"] Cons.prems by simp
  moreover have "bf_idMap (publish_one err e s) t = Some r \<Longrightarrow>
      bf_idMap s t = Some r \<or> (err = None \<and> t = u \<and> r = jl_ID (bf_log s b))"
    by (auto simp: publish_one_def e Let_def split: if_splits)
  ultimately show ?case using e by auto
qed simp

lemma publish_tmp:
  assumes ok: "calls_ok s" and t: "tmp_inv s"
  shows "tmp_inv (write_publish s)"
proof (cases "bf_writing s")
  case None
  then show ?thesis using t by (simp add: write_publish_def)
next
  case (Some w)
  obtain es err where w: "bf_writing s = Some (es, err)" using Some by (cases w) simp
  note sh = publish_shape [OF w]
  have fr: "bf_tmpSeq (write_publish s) = bf_tmpSeq s" "bf_ring (write_publish s) = bf_ring s" "bf_batch (write_publish s) = bf_batch s"
    using publish_fold_frame [of err es s] by (simp_all add: write_publish_def w)
  have map: "\<exists>a. x = tmp_of a \<and> bf_done (write_publish s) a = Some None \<and> r = jl_ID (bf_log s a)"
    if "bf_idMap (write_publish s) x = Some r" for x r
  proof -
    have "bf_idMap (fold (publish_one err) es s) x = Some r" using that by (simp add: write_publish_def w)
    then consider "bf_idMap s x = Some r" | a where "err = None" "(a, x) \<in> set es" "r = jl_ID (bf_log s a)"
      by (auto dest: publish_map)
    then show ?thesis
    proof cases
      case 1
      then obtain a where a: "x = tmp_of a" "bf_done s a = Some None" "r = jl_ID (bf_log s a)" using tmp_invD(6) [OF t] by blast
      have "a \<notin> set (written s)" using calls_okD(2) [OF ok, of a] a(2) by (auto simp: pending_simps)
      then show ?thesis using a by (auto simp: sh)
    next
      case 2
      then have "a \<in> set (written s)" by (force simp: written_def w)
      then show ?thesis using 2 tmp_invD(5) [OF t w] by (auto simp: sh)
    qed
  qed
  show ?thesis unfolding tmp_inv_def sh(2,4,5,7) fr using map t unfolding tmp_inv_def by simp
qed

lemma receive_tmp:
  assumes dao: "stores_logs rows d" and w: "bf_writing s = None" and ok: "calls_ok s" "rows_ok rows s" and t: "tmp_inv s"
  shows "tmp_inv (loop_receive d s)"
proof (cases "bf_ring s")
  case Nil
  then show ?thesis using t by (simp add: loop_receive_def)
next
  case (Cons a as)
  let ?s1 = "s\<lparr>bf_ring := as, bf_batch := bf_batch s @ [a]\<rparr>"
  have p: "pending ?s1 = as @ (bf_batch s @ [a])" "pending s = (a # as) @ bf_batch s" using w by (simp_all add: pending_def written_def Cons)
  have ok1: "calls_ok ?s1"
    by (rule calls_ok_cong [OF ok(1)]) (use calls_okD(1) [OF ok(1)] in \<open>auto simp: p\<close>)
  have t1: "tmp_inv ?s1"
    by (rule tmp_inv_cong [OF t]) (use tmp_invD [OF t] w Cons in auto)
  then show ?thesis using write_insert_tmp [OF dao ok1 _ t1] w by (simp add: loop_receive_def Cons Let_def buf_flush_def)
qed

lemma begin_tmp:
  assumes ok: "calls_ok s" and t: "tmp_inv s" and bound: "int (bf_fresh s) < 2 ^ 62"
  shows "tmp_inv (snd (create_begin l s))"
proof -
  let ?a = "bf_fresh s"
  have q: "i64 (bf_tmpSeq s + 1) = int ?a + 1" "i64 (- (int ?a + 1)) = tmp_of ?a"
    using bound tmp_invD(1) [OF t] by (simp_all add: tmp_of_def i64_id i64_min_def i64_max_def)
  have new: "bf_call s ?a = None" using calls_okD(6) [OF ok, of ?a] by (metis less_irrefl)
  have np: "b \<noteq> ?a" if "b \<in> set (pending s) \<or> bf_done s b \<noteq> None" for b
    using calls_okD(7,8) [OF ok, of b] that new by blast
  have eq: "snd (create_begin l s) = s\<lparr>bf_tmpSeq := int ?a + 1, bf_log := (bf_log s)(?a := l\<lparr>jl_ID := tmp_of ?a\<rparr>),
      bf_call := (bf_call s)(?a \<mapsto> Enqueuing), bf_fresh := Suc ?a\<rparr>"
    using q by (simp add: create_begin_def Let_def)
  let ?lg = "(bf_log s)(?a := l\<lparr>jl_ID := tmp_of ?a\<rparr>)"
  have "jl_ID (?lg b) = tmp_of b" if "b \<in> set (bf_ring s) \<union> set (bf_batch s)" for b
    using that tmp_invD(2,3) [OF t] by auto
  moreover have "jl_ID (?lg b) = tmp_of b" if "((bf_call s)(?a \<mapsto> Enqueuing)) b = Some Enqueuing" for b
    using that tmp_invD(4) [OF t] by (auto split: if_splits)
  moreover have "\<exists>b. x = tmp_of b \<and> bf_done s b = Some None \<and> r = jl_ID (?lg b)" if m: "bf_idMap s x = Some r" for x r
  proof -
    obtain b where b: "x = tmp_of b" "bf_done s b = Some None" "r = jl_ID (bf_log s b)" using tmp_invD(6) [OF t m] by blast
    then have "?lg b = bf_log s b" using np [of b] by simp
    then show ?thesis using b by metis
  qed
  ultimately show ?thesis unfolding eq tmp_inv_def using tmp_invD(5) [OF t] by auto
qed

lemma step_fresh: "buf_step d s s1 \<Longrightarrow> bf_fresh s \<le> bf_fresh s1"
proof (induction rule: buf_step.induct)
  case (bs_publish s)
  then show ?case by (simp add: write_publish_def publish_fold_frame split: option.splits)
next
  case (bs_return s a res)
  then show ?case by (cases res) (simp_all add: create_return_def set_id_def)
qed (auto simp: buf_Start_def buf_close_def loop_receive_def buf_flush_def write_insert_def create_begin_def create_enqueue_def
      create_cancel_def create_sync_def create_giveup_def set_id_def buf_UpdateResult_def gcIDMap_def buf_CreateDetail_def
      Let_def case_prod_beta split: if_splits list.splits)

lemma buf_step_tmp:
  assumes dao: "stores_logs rows d" and st: "buf_step d s s1" and ok: "calls_ok s" "rows_ok rows s" and t: "tmp_inv s"
    and bound: "int (bf_fresh s) < 2 ^ 62"
  shows "tmp_inv s1"
  using st
proof cases
  case bs_start
  then have "s1 = s\<lparr>bf_loop := Selecting\<rparr>" by (simp add: buf_Start_def split: if_splits)
  then show ?thesis by (intro tmp_inv_cong [OF t]) (use tmp_invD [OF t] in auto)
next
  case bs_close
  then have "s1 = s\<lparr>bf_stopCh := True\<rparr>" by (simp add: buf_close_def split: if_splits)
  then show ?thesis by (intro tmp_inv_cong [OF t]) (use tmp_invD [OF t] in auto)
next
  case bs_receive
  then show ?thesis using receive_tmp [OF dao _ ok t] by simp
next
  case bs_tick
  then show ?thesis using write_insert_tmp [OF dao ok(1) _ t] t by (simp add: buf_flush_def)
next
  case bs_stop
  then show ?thesis by (intro tmp_inv_cong [OF t]) (use tmp_invD [OF t] in auto)
next
  case bs_drained
  then have "tmp_inv (buf_flush d s)" using write_insert_tmp [OF dao ok(1) _ t] t by (simp add: buf_flush_def)
  then show ?thesis unfolding bs_drained(1) by (rule tmp_inv_cong) (use tmp_invD [OF \<open>tmp_inv (buf_flush d s)\<close>] in auto)
next
  case bs_publish
  then show ?thesis using publish_tmp [OF ok(1) t] by simp
next
  case (bs_begin l)
  then show ?thesis using begin_tmp [OF ok(1) t bound] by simp
next
  case (bs_enqueue a)
  then show ?thesis unfolding bs_enqueue(1)
    by (intro tmp_inv_cong [OF t]) (use tmp_invD [OF t] in \<open>auto simp: create_enqueue_def split: if_splits\<close>)
next
  case (bs_cancel a err)
  note e = enqueuing_facts [OF ok(1) bs_cancel(2)]
  show ?thesis unfolding bs_cancel(1)
    by (intro tmp_inv_cong [OF t]) (use tmp_invD [OF t] e in \<open>auto simp: create_cancel_def set_id_def pending_simps split: if_splits\<close>)
next
  case (bs_sync a)
  note e = enqueuing_facts [OF ok(1) bs_sync(2)]
  show ?thesis unfolding bs_sync(1)
    by (intro tmp_inv_cong [OF t])
      (use tmp_invD [OF t] e in \<open>auto simp: create_sync_def Let_def case_prod_beta pending_simps split: if_splits\<close>)
next
  case (bs_return a res)
  have "a \<notin> set (pending s)" using calls_okD(2) [OF ok(1), of a] bs_return(3) by auto
  then show ?thesis unfolding bs_return(1)
    by (intro tmp_inv_cong [OF t]) (use tmp_invD [OF t] bs_return in
      \<open>auto simp: create_return_def set_id_def pending_simps split: if_splits option.splits\<close>)
next
  case (bs_giveup a err)
  then show ?thesis unfolding bs_giveup(1)
    by (intro tmp_inv_cong [OF t]) (use tmp_invD [OF t] in \<open>auto simp: create_giveup_def split: if_splits\<close>)
next
  case (bs_update i status errMsg start fin)
  have s1: "s1 = s\<lparr>bf_inner := snd (di_UpdateResult d (resolveID i s) status errMsg start fin (bf_inner s)),
      bf_idMap := (if resolveID i s \<noteq> i then (bf_idMap s)(i := None) else bf_idMap s)\<rparr>"
    unfolding bs_update by (simp add: buf_UpdateResult_def Let_def gcIDMap_def case_prod_beta)
  show ?thesis unfolding s1 by (intro tmp_inv_cong [OF t]) (use tmp_invD [OF t] in \<open>auto simp: map_le_def\<close>)
next
  case (bs_detail det)
  then show ?thesis by (intro tmp_inv_cong [OF t]) (use tmp_invD [OF t] in \<open>auto simp: buf_CreateDetail_def case_prod_beta\<close>)
qed

lemma buf_reachable_tmp:
  assumes "buf_reachable d s" "stores_logs rows d" "int (bf_fresh s) < 2 ^ 62"
  shows "tmp_inv s"
  using assms(1,3)
proof (induction rule: buf_reachable.induct)
  case (buf_init unused db opts s)
  then show ?case by (auto simp: buf_New_def Let_def tmp_inv_def split: if_splits)
next
  case (buf_more s s1)
  have "int (bf_fresh s) < 2 ^ 62" using buf_more(4) step_fresh [OF buf_more(2)] by simp
  then show ?case using buf_step_tmp [OF assms(2) buf_more(2)] buf_reachable_inv [OF buf_more(1) assms(2)] buf_more(3) by blast
qed

text \<open>A temporary ID is only ever resolved to the row of the call it was made for: whatever ID is
  passed, \<open>resolveID\<close> returns it unchanged, or it is the temporary ID of a call whose row, with the
  returned ID, is in the database. Real IDs resolve to themselves and never shrink the map.\<close>

lemma ids_resolve:
  assumes "stores_logs rows d" "buf_reachable d s" "int (bf_fresh s) < 2 ^ 62"
  shows "(resolveID i s \<noteq> i \<longrightarrow> (\<exists>a < bf_fresh s. i = - (int a + 1) \<and> resolveID i s = jl_ID (bf_log s a) \<and>
      0 < jl_ID (bf_log s a) \<and> ident (bf_log s a) \<in> ident ` set (rows (bf_inner s)))) \<and>
    (0 \<le> i \<longrightarrow> resolveID i s = i \<and> bf_idMap (snd (buf_UpdateResult d i st m t u s)) = bf_idMap s)"
proof (intro conjI impI)
  assume "resolveID i s \<noteq> i"
  then obtain r where r: "bf_idMap s i = Some r" "resolveID i s = r" by (auto simp: resolveID_def split: if_splits option.splits)
  obtain a where a: "i = tmp_of a" "bf_done s a = Some None" "r = jl_ID (bf_log s a)"
    using tmp_invD(6) [OF buf_reachable_tmp [OF assms(2,1,3)] r(1)] by blast
  have inv: "calls_ok s" "rows_ok rows s" using buf_reachable_inv [OF assms(2,1)] by simp_all
  have "a \<in> good s" using a(2) by (simp add: good_def)
  then have "has_row rows (bf_inner s) (bf_log s a)" using inv(2) by (simp add: rows_ok_def)
  moreover have "a < bf_fresh s" using calls_okD(6,8) [OF inv(1), of a] a(2) by simp
  ultimately show "\<exists>a < bf_fresh s. i = - (int a + 1) \<and> resolveID i s = jl_ID (bf_log s a) \<and>
      0 < jl_ID (bf_log s a) \<and> ident (bf_log s a) \<in> ident ` set (rows (bf_inner s))"
    using a r by (auto simp: has_row_def tmp_of_def)
qed (simp_all add: resolveID_def buf_UpdateResult_def Let_def case_prod_beta)

section \<open>The drain at Stop\<close>

lemma written_insert: "written (write_insert d s) = bf_batch s" "bf_batch (write_insert d s) = []"
  "bf_done (write_insert d s) = bf_done s" "bf_loop (write_insert d s) = bf_loop s" "bf_writing (write_insert d s) \<noteq> None"
  by (simp_all add: write_insert_def written_def Let_def case_prod_beta)

lemma publish_facts: "bf_writing (write_publish s) = None" "bf_ring (write_publish s) = bf_ring s"
  "bf_batch (write_publish s) = bf_batch s" "bf_loop (write_publish s) = bf_loop s"
  "dom (bf_done (write_publish s)) = dom (bf_done s) \<union> set (written s)"
proof -
  have "dom (\<lambda>a. if a \<in> A then Some x else m a) = dom m \<union> A" for A x and m :: "nat \<rightharpoonup> db_error option"
    by (auto simp: dom_def)
  then show "bf_writing (write_publish s) = None" "bf_ring (write_publish s) = bf_ring s"
    "bf_batch (write_publish s) = bf_batch s" "bf_loop (write_publish s) = bf_loop s"
    "dom (bf_done (write_publish s)) = dom (bf_done s) \<union> set (written s)"
    by (simp_all add: write_publish_def written_def publish_fold_frame split: option.splits)
qed

lemma publish_steps: "buf_step d s t \<Longrightarrow> (buf_step d)\<^sup>*\<^sup>* s (write_publish t)"
proof (cases "bf_writing t")
  case None
  then show "buf_step d s t \<Longrightarrow> ?thesis" by (auto simp: write_publish_def)
next
  case (Some w)
  then show "buf_step d s t \<Longrightarrow> ?thesis" using bs_publish [of t d] by (auto intro: rtranclp.rtrancl_into_rtrancl)
qed

text \<open>\<open>flush\<close> and its publication complete the batch.\<close>

lemma flush_publish:
  assumes "bf_writing s = None"
  shows "bf_batch (write_publish (buf_flush d s)) = []" "bf_loop (write_publish (buf_flush d s)) = bf_loop s"
    "dom (bf_done (write_publish (buf_flush d s))) = dom (bf_done s) \<union> set (bf_batch s)"
  using assms by (simp_all add: buf_flush_def publish_facts written_insert) (simp_all add: written_def)

lemma drain_turn:
  assumes "bf_loop s = Draining" "bf_writing s = None" "bf_ring s = a # as"
  shows "(buf_step d)\<^sup>*\<^sup>* s (write_publish (loop_receive d s))" "bf_loop (write_publish (loop_receive d s)) = Draining"
    "set (bf_batch (write_publish (loop_receive d s))) \<union> dom (bf_done (write_publish (loop_receive d s))) =
       insert a (set (bf_batch s)) \<union> dom (bf_done s)"
proof -
  show "(buf_step d)\<^sup>*\<^sup>* s (write_publish (loop_receive d s))" by (rule publish_steps, rule bs_receive) (use assms in simp_all)
  let ?s1 = "s\<lparr>bf_ring := as, bf_batch := bf_batch s @ [a]\<rparr>"
  have w: "bf_writing ?s1 = None" using assms(2) by simp
  have p: "write_publish ?s1 = ?s1" using assms(2) by (simp add: write_publish_def)
  show "bf_loop (write_publish (loop_receive d s)) = Draining"
    "set (bf_batch (write_publish (loop_receive d s))) \<union> dom (bf_done (write_publish (loop_receive d s))) =
       insert a (set (bf_batch s)) \<union> dom (bf_done s)"
    using flush_publish [OF w, of d] assms(1) p by (auto simp: loop_receive_def assms(3) Let_def)
qed

lemma publish_loop: "fold (publish_one e) es (t\<lparr>bf_loop := pc\<rparr>) = (fold (publish_one e) es t)\<lparr>bf_loop := pc\<rparr>"
proof (induction es arbitrary: t)
  case (Cons x es)
  have "publish_one e x (t\<lparr>bf_loop := pc\<rparr>) = (publish_one e x t)\<lparr>bf_loop := pc\<rparr>"
    by (simp add: publish_one_def Let_def case_prod_beta)
  then show ?case by (simp only: fold_simps Cons)
qed simp

lemma publish_stopCh: "bf_stopCh (write_publish s) = bf_stopCh s"
proof -
  have "bf_stopCh (fold (publish_one err) es t) = bf_stopCh t" for err es and t :: "'a Buffer"
    by (induction es arbitrary: t) (simp_all add: publish_one_def Let_def case_prod_beta)
  then show ?thesis by (simp add: write_publish_def split: option.split)
qed

text \<open>The loop alone, from the moment it has seen the stop: it ends after finitely many turns of its own, with an
  empty ring and an empty batch, and every log that was in them has got its answer.\<close>

lemma drain_alone:
  assumes "bf_loop s = Draining" "bf_writing s = None"
  shows "(buf_step d)\<^sup>*\<^sup>* s (buf_drain d s) \<and> bf_loop (buf_drain d s) = Ended \<and> bf_ring (buf_drain d s) = [] \<and>
    bf_batch (buf_drain d s) = [] \<and> bf_writing (buf_drain d s) = None \<and>
    dom (bf_done (buf_drain d s)) = dom (bf_done s) \<union> set (bf_ring s) \<union> set (bf_batch s)"
  using assms
proof (induction d s rule: buf_drain.induct)
  case (1 d s)
  show ?case
  proof (cases "bf_ring s")
    case Nil
    have eq: "write_publish (buf_flush d s)\<lparr>bf_loop := Ended\<rparr> = write_publish ((buf_flush d s)\<lparr>bf_loop := Ended\<rparr>)"
    proof (cases "bf_writing (buf_flush d s)")
      case (Some w)
      then show ?thesis by (cases w) (simp add: write_publish_def publish_loop)
    qed (simp add: write_publish_def)
    have "(buf_step d)\<^sup>*\<^sup>* s (write_publish (buf_flush d s)\<lparr>bf_loop := Ended\<rparr>)"
      unfolding eq by (rule publish_steps, rule bs_drained) (use 1 Nil in simp_all)
    then show ?thesis using flush_publish [OF 1(3), of d] Nil
      by (simp add: buf_drain.simps [of d s] publish_facts)
  next
    case (Cons a as)
    note turn = drain_turn [OF 1(2,3) Cons, of d]
    let ?t = "write_publish (loop_receive d s)"
    have "bf_ring ?t = as" "bf_writing ?t = None" using receive_ring [of d s] Cons by (simp_all add: publish_facts)
    moreover have "bf_ring s \<noteq> []" using Cons by simp
    ultimately show ?thesis
      using 1(1) [OF _ turn(2)] turn(1,3) Cons by (simp add: buf_drain.simps [of d s]) (auto intro: rtranclp_trans)
  qed
qed

text \<open>Under every interleaving: a log that has been accepted stays in the ring, the batch or the batch being
  written until it is answered, and the loop does not end before the ring and the batch are empty.\<close>

definition accounted :: "'db Buffer \<Rightarrow> nat \<Rightarrow> bool" where
  "accounted s a \<longleftrightarrow> bf_done s a \<noteq> None \<or> a \<in> set (written s) \<or> bf_loop s \<noteq> Ended \<and> a \<in> set (bf_ring s) \<union> set (bf_batch s)"

lemma written_None: "bf_writing s = None \<Longrightarrow> written s = []"
  by (simp add: written_def)

lemma flush_accounted:
  assumes "bf_writing s = None" "bf_done s a \<noteq> None \<or> a \<in> set (bf_ring s) \<union> set (bf_batch s)"
  shows "bf_done (buf_flush d s) a \<noteq> None \<or> a \<in> set (written (buf_flush d s)) \<or>
    a \<in> set (bf_ring (buf_flush d s)) \<union> set (bf_batch (buf_flush d s))"
    and "bf_ring s = [] \<Longrightarrow> bf_done (buf_flush d s) a \<noteq> None \<or> a \<in> set (written (buf_flush d s))"
    and "bf_loop (buf_flush d s) = bf_loop s"
proof -
  have w: "bf_done (write_insert d s) = bf_done s" "bf_ring (write_insert d s) = bf_ring s" "bf_loop (write_insert d s) = bf_loop s"
    by (simp_all add: write_insert_def Let_def case_prod_beta)
  show "bf_done (buf_flush d s) a \<noteq> None \<or> a \<in> set (written (buf_flush d s)) \<or>
      a \<in> set (bf_ring (buf_flush d s)) \<union> set (bf_batch (buf_flush d s))"
    "bf_ring s = [] \<Longrightarrow> bf_done (buf_flush d s) a \<noteq> None \<or> a \<in> set (written (buf_flush d s))"
    "bf_loop (buf_flush d s) = bf_loop s"
    using assms(2) by (auto simp: buf_flush_def w written_insert)
qed

lemma receive_accounted:
  assumes "bf_writing s = None" "accounted s a" "bf_loop s \<noteq> Ended"
  shows "accounted (loop_receive d s) a"
proof (cases "bf_ring s")
  case Nil
  then show ?thesis using assms by (simp add: loop_receive_def)
next
  case (Cons b as)
  let ?s1 = "s\<lparr>bf_ring := as, bf_batch := bf_batch s @ [b]\<rparr>"
  have c: "bf_done ?s1 a \<noteq> None \<or> a \<in> set (bf_ring ?s1) \<union> set (bf_batch ?s1)"
    using assms by (auto simp: accounted_def written_None Cons)
  then have "accounted ?s1 a" using assms(3) by (auto simp: accounted_def)
  moreover have "accounted (buf_flush d ?s1) a"
    using flush_accounted(1) [OF _ c] flush_accounted(3) [OF _ c] assms(1,3) by (simp add: accounted_def)
  ultimately show ?thesis by (simp add: loop_receive_def Cons Let_def)
qed

lemma publish_accounted: "accounted s a \<Longrightarrow> accounted (write_publish s) a"
proof (cases "bf_writing s")
  case (Some w)
  obtain es err where w: "bf_writing s = Some (es, err)" using Some by (cases w) simp
  note sh = publish_shape [OF w]
  have "bf_ring (write_publish s) = bf_ring s" "bf_batch (write_publish s) = bf_batch s" "bf_loop (write_publish s) = bf_loop s"
    using publish_fold_frame [of err es s] by (simp_all add: write_publish_def w)
  then show "accounted s a \<Longrightarrow> accounted (write_publish s) a" by (auto simp: accounted_def sh(1))
qed (simp add: write_publish_def)

lemma accounted_mono:
  assumes "accounted s a" "bf_done s1 = bf_done s" "bf_writing s1 = bf_writing s" "set (bf_ring s) \<subseteq> set (bf_ring s1)"
    "bf_batch s1 = bf_batch s" "bf_loop s1 = Ended \<longrightarrow> bf_loop s = Ended"
  shows "accounted s1 a"
proof -
  have "written s1 = written s" using assms(3) by (simp add: written_def)
  then show ?thesis using assms by (auto simp: accounted_def)
qed

lemma accounted_step:
  assumes "buf_step d s s1" "accounted s a"
  shows "accounted s1 a"
  using assms
proof (cases rule: buf_step.cases)
  case bs_receive
  then show ?thesis using receive_accounted [of s a d] assms(2) by auto
next
  case bs_tick
  then have "bf_done s a \<noteq> None \<or> a \<in> set (bf_ring s) \<union> set (bf_batch s)"
    using assms(2) by (auto simp: accounted_def written_None)
  from flush_accounted(1,3) [OF _ this] show ?thesis using bs_tick by (simp add: accounted_def)
next
  case bs_drained
  then have "bf_done s a \<noteq> None \<or> a \<in> set (bf_ring s) \<union> set (bf_batch s)"
    using assms(2) by (auto simp: accounted_def written_None)
  from flush_accounted(2) [OF _ this] show ?thesis using bs_drained by (auto simp: accounted_def written_def)
next
  case bs_publish
  then show ?thesis using publish_accounted assms(2) by simp
next
  case (bs_return b res)
  then show ?thesis by (intro accounted_mono [OF assms(2)]) (cases res; simp add: create_return_def set_id_def)+
qed (rule accounted_mono [OF assms(2)]; auto simp: buf_Start_def buf_close_def create_begin_def create_enqueue_def
      create_cancel_def create_giveup_def create_sync_def set_id_def buf_UpdateResult_def gcIDMap_def buf_CreateDetail_def
      Let_def case_prod_beta split: if_splits)+

lemma accounted_steps: "(buf_step d)\<^sup>*\<^sup>* s s1 \<Longrightarrow> accounted s a \<Longrightarrow> accounted s1 a"
  by (induction rule: rtranclp_induct) (auto dest: accounted_step)

lemma reachable_steps: "(buf_step d)\<^sup>*\<^sup>* s s1 \<Longrightarrow> buf_reachable d s \<Longrightarrow> buf_reachable d s1"
  by (induction rule: rtranclp_induct) (auto intro: buf_more)

text \<open>A database that does not fail: then no call is answered with an error.\<close>

definition never_fails :: "'db LogDAO \<Rightarrow> bool" where
  "never_fails d \<longleftrightarrow> (\<forall>l db. fst (fst (di_Create d l db)) = None) \<and>
     (\<forall>f ls db. di_CreateBatch d = Some f \<longrightarrow> fst (fst (f ls db)) = None)"

lemma insert_all_answers: "never_fails d \<Longrightarrow> fst (fst (insert_all d ls db)) = None"
proof (cases "di_CreateBatch d")
  case None
  assume nf: "never_fails d"
  have "fst (fst (insert_each d ls db)) = None"
  proof (induction ls arbitrary: db)
    case (Cons l ls)
    obtain e l1 db1 where c: "di_Create d l db = ((e, l1), db1)" by (metis surj_pair)
    then have "e = None" using nf unfolding never_fails_def by (metis fst_conv)
    then show ?case using c Cons [of db1] by (simp add: case_prod_beta)
  qed simp
  then show ?thesis by (simp add: insert_all_def None)
qed (simp add: never_fails_def insert_all_def)

definition answers_ok :: "'db Buffer \<Rightarrow> bool" where
  "answers_ok s \<longleftrightarrow> (\<forall>a e. bf_done s a \<noteq> Some (Some e)) \<and> (\<forall>es e. bf_writing s \<noteq> Some (es, Some e))"

lemma flush_answers: "never_fails d \<Longrightarrow> answers_ok s \<Longrightarrow> answers_ok (buf_flush d s)"
  using insert_all_answers [of d "map (\<lambda>a. (bf_log s a)\<lparr>jl_ID := 0\<rparr>) (bf_batch s)" "bf_inner s"]
  by (auto simp: answers_ok_def buf_flush_def write_insert_def Let_def case_prod_beta)

lemma answers_cong: "answers_ok s \<Longrightarrow> bf_done s1 = bf_done s \<Longrightarrow> bf_writing s1 = bf_writing s \<Longrightarrow> answers_ok s1"
  by (simp add: answers_ok_def)

lemma answers_step:
  assumes "buf_step d s s1" "never_fails d" "answers_ok s"
  shows "answers_ok s1"
  using assms(1)
proof (cases rule: buf_step.cases)
  case bs_receive
  obtain b as where r: "bf_ring s = b # as" using bs_receive(4) by (cases "bf_ring s") auto
  have a: "answers_ok (s\<lparr>bf_ring := as, bf_batch := bf_batch s @ [b]\<rparr>)" by (rule answers_cong [OF assms(3)]) simp_all
  then show ?thesis using flush_answers [OF assms(2) a] by (simp add: bs_receive(1) loop_receive_def r Let_def)
next
  case bs_tick
  then show ?thesis using flush_answers [OF assms(2,3)] by simp
next
  case bs_drained
  then show ?thesis using answers_cong [OF flush_answers [OF assms(2,3)], of "(buf_flush d s)\<lparr>bf_loop := Ended\<rparr>"] by simp
next
  case bs_publish
  obtain es err where w: "bf_writing s = Some (es, err)" using bs_publish(2) by auto
  then have "err = None" using assms(3) by (cases err) (auto simp: answers_ok_def)
  then show ?thesis using assms(3) unfolding bs_publish(1) answers_ok_def publish_shape(1,2) [OF w] by simp
next
  case (bs_return b res)
  then show ?thesis by (intro answers_cong [OF assms(3)]) (cases res; simp add: create_return_def set_id_def)+
qed (rule answers_cong [OF assms(3)]; auto simp: buf_Start_def buf_close_def create_begin_def create_enqueue_def
      create_cancel_def create_giveup_def create_sync_def set_id_def buf_UpdateResult_def gcIDMap_def buf_CreateDetail_def
      Let_def case_prod_beta split: if_splits)+

lemma reachable_answers:
  assumes "buf_reachable d s" "never_fails d"
  shows "answers_ok s"
  using assms(1)
proof (induction rule: buf_reachable.induct)
  case (buf_init unused db opts s)
  then show ?case by (auto simp: buf_New_def answers_ok_def Let_def split: if_splits)
next
  case (buf_more s s1)
  then show ?case using answers_step assms(2) by blast
qed

text \<open>Property C31: from the moment \<open>Stop\<close> has closed the channel of a running loop, the loop ends after finitely many
  turns of its own, with an empty ring and an empty batch; and however it interleaves with calls of \<open>Create\<close> and
  the other methods, once it has ended every log that was in the ring, the batch or the batch being written has its
  answer: no error only if its row is in the database, and no error if the database does not fail.\<close>

theorem stop_drains:
  assumes "stores_logs rows d" "buf_reachable d s" "bf_stopCh s" "bf_loop s = Selecting \<or> bf_loop s = Draining"
  shows "(\<exists>s'. s' = buf_drain d ((write_publish s)\<lparr>bf_loop := Draining\<rparr>) \<and> (buf_step d)\<^sup>*\<^sup>* s s' \<and>
      bf_loop s' = Ended \<and> bf_ring s' = [] \<and> bf_batch s' = [] \<and> bf_writing s' = None) \<and>
    (\<forall>s' a. (buf_step d)\<^sup>*\<^sup>* s s' \<longrightarrow> bf_loop s' = Ended \<longrightarrow> bf_writing s' = None \<longrightarrow>
      a \<in> set (bf_ring s) \<union> set (bf_batch s) \<union> set (written s) \<longrightarrow>
      (\<exists>err. bf_done s' a = Some err \<and> (err = None \<longrightarrow> has_row rows (bf_inner s') (bf_log s' a)) \<and>
        (never_fails d \<longrightarrow> err = None)))"
proof
  let ?p = "write_publish s" and ?q = "(write_publish s)\<lparr>bf_loop := Draining\<rparr>"
  have p: "bf_writing ?p = None" "bf_loop ?p = bf_loop s" "bf_stopCh ?p = bf_stopCh s"
    using publish_facts [of s] publish_stopCh by simp_all
  have "(buf_step d)\<^sup>*\<^sup>* s ?p"
    using bs_publish [of s d] by (cases "bf_writing s") (auto simp: write_publish_def)
  moreover have "(buf_step d)\<^sup>*\<^sup>* ?p ?q"
  proof (cases "bf_loop s = Draining")
    case True
    then have "?q = ?p" using p(2) by (metis Buffer.surjective Buffer.update_convs(9))
    then show ?thesis by simp
  next
    case False
    then show ?thesis using assms(3,4) p by (intro r_into_rtranclp bs_stop) simp_all
  qed
  ultimately have q: "(buf_step d)\<^sup>*\<^sup>* s ?q" by simp
  show "\<exists>s'. s' = buf_drain d ?q \<and> (buf_step d)\<^sup>*\<^sup>* s s' \<and>
      bf_loop s' = Ended \<and> bf_ring s' = [] \<and> bf_batch s' = [] \<and> bf_writing s' = None"
    using drain_alone [of ?q d] p(1) q by (auto intro: rtranclp_trans)
next
  show "\<forall>s' a. (buf_step d)\<^sup>*\<^sup>* s s' \<longrightarrow> bf_loop s' = Ended \<longrightarrow> bf_writing s' = None \<longrightarrow>
      a \<in> set (bf_ring s) \<union> set (bf_batch s) \<union> set (written s) \<longrightarrow>
      (\<exists>err. bf_done s' a = Some err \<and> (err = None \<longrightarrow> has_row rows (bf_inner s') (bf_log s' a)) \<and> (never_fails d \<longrightarrow> err = None))"
  proof (intro allI impI)
    fix s' a
    assume s': "(buf_step d)\<^sup>*\<^sup>* s s'" "bf_loop s' = Ended" "bf_writing s' = None"
      and a: "a \<in> set (bf_ring s) \<union> set (bf_batch s) \<union> set (written s)"
    have r: "buf_reachable d s'" by (rule reachable_steps [OF s'(1) assms(2)])
    have "accounted s a" using a assms(4) by (auto simp: accounted_def)
    then have "bf_done s' a \<noteq> None" using accounted_steps [OF s'(1)] s'(2,3) by (simp add: accounted_def written_None)
    then obtain err where err: "bf_done s' a = Some err" by blast
    have "err = None \<longrightarrow> has_row rows (bf_inner s') (bf_log s' a)"
      using buf_reachable_inv [OF r assms(1)] err by (auto simp: rows_ok_def good_def)
    moreover have "never_fails d \<longrightarrow> err = None" using reachable_answers [OF r] err by (cases err) (auto simp: answers_ok_def)
    ultimately show "\<exists>err. bf_done s' a = Some err \<and> (err = None \<longrightarrow> has_row rows (bf_inner s') (bf_log s' a)) \<and>
        (never_fails d \<longrightarrow> err = None)" using err by blast
  qed
qed

section \<open>After the drain\<close>

definition lost :: "'db Buffer \<Rightarrow> nat \<Rightarrow> bool" where
  "lost s a \<longleftrightarrow> bf_loop s = Ended \<and> bf_writing s = None \<and> a < bf_fresh s \<and> bf_done s a = None \<and>
     (bf_call s a = Some Awaiting \<or> (\<exists>e. bf_call s a = Some (Returned (Some e))))"

lemma lost_step: "buf_step d s s1 \<Longrightarrow> lost s a \<Longrightarrow> lost s1 a"
proof (induction rule: buf_step.induct)
  case (bs_return s b res)
  then show ?case by (cases res) (auto simp: lost_def create_return_def set_id_def)
next
  case (bs_sync s b)
  then show ?case by (auto simp: lost_def create_sync_def Let_def case_prod_beta)
qed (auto simp: lost_def buf_Start_def buf_close_def create_begin_def create_enqueue_def create_cancel_def create_giveup_def set_id_def
      buf_UpdateResult_def gcIDMap_def buf_CreateDetail_def Let_def case_prod_beta split: if_splits)

lemma lost_steps: "(buf_step d)\<^sup>*\<^sup>* s s1 \<Longrightarrow> lost s a \<Longrightarrow> lost s1 a"
  by (induction rule: rtranclp_induct) (auto dest: lost_step)

text \<open>The buffer after a start and a stop, and a call of \<open>Create\<close> whose \<open>select\<close> takes the ring.\<close>

definition stopped_buffer :: "JobLog \<Rightarrow> 'db \<Rightarrow> 'db Buffer" where
  "stopped_buffer l db = (the (buf_New l db []))\<lparr>bf_stopCh := True, bf_loop := Ended\<rparr>"

lemma stopped_reachable: "buf_reachable d (stopped_buffer l db)"
proof -
  obtain s where s: "buf_New l db [] = Some s" "bf_writing s = None" "bf_ring s = []" "bf_batch s = []" "\<not> bf_stopCh s"
    "bf_flushInterval s > 0" "bf_batchSize s \<ge> 0" "bf_loop s = NotStarted"
    by (simp add: buf_New_def Let_def DefaultRingCap_def DefaultBatchSize_def DefaultFlushInterval_def second_def)
  let ?a = "s\<lparr>bf_loop := Selecting\<rparr>" and ?b = "s\<lparr>bf_loop := Selecting, bf_stopCh := True\<rparr>"
  have "buf_reachable d ?a" by (rule buf_more [OF buf_init [OF s(1)] bs_start]) (use s in \<open>simp_all add: buf_Start_def\<close>)
  then have "buf_reachable d ?b" by (rule buf_more) (rule bs_close, use s in \<open>simp add: buf_close_def\<close>)
  then have "buf_reachable d (?b\<lparr>bf_loop := Draining\<rparr>)" by (rule buf_more) (rule bs_stop, use s in simp_all)
  then have "buf_reachable d ((buf_flush d (?b\<lparr>bf_loop := Draining\<rparr>))\<lparr>bf_loop := Ended\<rparr>)"
    by (rule buf_more) (rule bs_drained, use s in simp_all)
  then show ?thesis using s by (simp add: stopped_buffer_def buf_flush_def)
qed

text \<open>A log can be lost although \<open>Create\<close> has accepted it: when the loop has drained and ended, the
  first \<open>select\<close> of \<open>Create\<close> may still choose the ring, which has room, over the closed stop channel; the
  entry is never written, and the call never returns without an error (it returns only if its context ends).\<close>

lemma late_create_lost:
  "\<exists>s. buf_reachable d s \<and> bf_stopCh s \<and> bf_loop s = Ended \<and> bf_inner s = db \<and> bf_call s 0 = Some Awaiting \<and>
     bf_ring s = [0] \<and> {s1. (buf_step d)\<^sup>*\<^sup>* s s1} \<subseteq> {s1. bf_done s1 0 = None \<and> bf_call s1 0 \<noteq> Some (Returned None)}"
proof -
  fix l :: JobLog
  let ?z = "stopped_buffer l db"
  let ?y = "snd (create_begin l ?z)"
  let ?w = "create_enqueue 0 ?y"
  have f: "bf_fresh ?z = 0" "bf_ring ?z = []" "bf_ringCap ?z = 2000" "bf_writing ?z = None" "bf_stopCh ?z"
    "bf_loop ?z = Ended" "bf_inner ?z = db" "bf_done ?z = Map.empty"
    by (simp_all add: stopped_buffer_def buf_New_def Let_def DefaultRingCap_def DefaultBatchSize_def)
  have "buf_reachable d ?y" by (rule buf_more [OF stopped_reachable bs_begin])
  then have "buf_reachable d ?w"
    by (rule buf_more) (rule bs_enqueue, use f in \<open>simp_all add: create_begin_def Let_def\<close>)
  moreover have "lost ?w 0" using f by (simp add: lost_def create_enqueue_def create_begin_def Let_def)
  then have "{s1. (buf_step d)\<^sup>*\<^sup>* ?w s1} \<subseteq> {s1. bf_done s1 0 = None \<and> bf_call s1 0 \<noteq> Some (Returned None)}"
    using lost_steps by (fastforce simp: lost_def)
  moreover have "bf_stopCh ?w" "bf_loop ?w = Ended" "bf_inner ?w = db" "bf_call ?w 0 = Some Awaiting" "bf_ring ?w = [0]"
    using f by (simp_all add: create_enqueue_def create_begin_def Let_def)
  ultimately show ?thesis by blast
qed

section \<open>An instance\<close>

lemma foldr_max: "x \<in> set xs \<Longrightarrow> x \<le> foldr max xs (0::int)" "0 \<le> foldr max xs (0::int)"
  by (induction xs) auto

lemma list_logs_store: "stores_logs ld_logs (jobLogDAO list_tables)"
proof -
  let ?new = "\<lambda>db. 1 + foldr max (map jl_ID (ld_logs db)) 0"
  have new: "0 < ?new db + int k" "?new db + int k \<notin> jl_ID ` set (ld_logs db)" for db k
    using foldr_max(2) [of "map jl_ID (ld_logs db)"] foldr_max(1) [of _ "map jl_ID (ld_logs db)"] by fastforce+
  have c: "stored ld_logs [l] [l1] db db1"
    if "di_Create (jobLogDAO list_tables) l db = ((err, l1), db1)" for l db err l1 db1
    using that new [of db 0] by (auto simp: jobLogDAO_def created_def logs_Create_def list_db_simps Let_def stored_def)
  have ce: "err = None" if "di_Create (jobLogDAO list_tables) l db = ((err, l1), db1)" for l db err l1 db1
    using that by (auto simp: jobLogDAO_def created_def logs_Create_def list_db_simps Let_def)
  have b: "err = None \<and> stored ld_logs ls ls1 db db1"
    if "di_CreateBatch (jobLogDAO list_tables) = Some f" "f ls db = ((err, ls1), db1)" for f ls db err ls1 db1
  proof (cases "ls = []")
    case True
    then show ?thesis using that by (auto simp: jobLogDAO_def created_def logs_CreateBatch_def stored_def)
  next
    case False
    then have "err = None" "ls1 = map (\<lambda>(k, r). r\<lparr>jl_ID := ?new db + int k\<rparr>) (enumerate 0 ls)" "db1 = db\<lparr>ld_logs := ld_logs db @ ls1\<rparr>"
      using that by (auto simp: jobLogDAO_def created_def logs_CreateBatch_def list_db_simps Let_def)
    moreover from this have ids: "map jl_ID ls1 = map (\<lambda>k. ?new db + int k) [0..<length ls]"
      by (intro nth_equalityI) (simp_all add: nth_enumerate_eq)
    moreover have "distinct (map jl_ID ls1)" unfolding ids by (simp add: distinct_map inj_on_def)
    moreover have "0 < jl_ID l \<and> jl_ID l \<notin> jl_ID ` set (ld_logs db)" if "l \<in> set ls1" for l
    proof -
      have "jl_ID l \<in> set (map jl_ID ls1)" using that by simp
      then obtain k where "jl_ID l = ?new db + int k" unfolding ids by auto
      then show ?thesis using new [of db k] by simp
    qed
    ultimately show ?thesis by (simp add: stored_def)
  qed
  have u: "map ident (ld_logs (snd (di_UpdateResult (jobLogDAO list_tables) i st m t u db))) = map ident (ld_logs db)" for i st m t u db
    by (simp add: jobLogDAO_def logs_UpdateResult_def list_db_simps Let_def ident_def)
  have e: "ld_logs (snd (di_CreateDetail (jobLogDAO list_tables) det db)) = ld_logs db" for det db
    by (simp add: jobLogDAO_def logs_CreateDetail_def list_db_simps Let_def)
  show ?thesis unfolding stores_logs_def using c ce b u e by (auto simp: stored_def) 
qed

definition demo_log :: JobLog where
  "demo_log = \<lparr>jl_ID = 0, jl_JobID = 7, jl_ExecutorID = 0, jl_ExecutorAddress = ''h:1'', jl_ExecuteParam = [],
     jl_Status = LogRunning, jl_ErrorMsg = [], jl_ShardingIndex = 0, jl_ShardingTotal = 1, jl_TriggerTime = 5,
     jl_StartTime = None, jl_EndTime = None, jl_DurationMs = 0, jl_TriggerType = TriggerCron\<rparr>"

definition demo_db :: list_db where
  "demo_db = \<lparr>ld_jobs = [], ld_logs = [], ld_details = [], ld_executors = [], ld_users = []\<rparr>"

text \<open>One call of \<open>Create\<close>, waiting in the ring of a started buffer.\<close>

definition demo_waiting :: "list_db Buffer" where
  "demo_waiting = create_enqueue 0 (snd (create_begin demo_log
     ((the (buf_New demo_log demo_db [bf_WithBatchSize 1]))\<lparr>bf_loop := Selecting\<rparr>)))"

definition demo_created :: "list_db Buffer" where
  "demo_created = create_return None 0 (write_publish (loop_receive (jobLogDAO list_tables) demo_waiting))"

lemmas demo_buf_defs = demo_waiting_def buf_New_def bf_WithBatchSize_def DefaultRingCap_def DefaultBatchSize_def
  DefaultFlushInterval_def second_def create_enqueue_def create_begin_def Let_def i64_def

lemma demo_waiting_facts: "bf_loop demo_waiting = Selecting" "bf_writing demo_waiting = None" "bf_ring demo_waiting = [0]"
  "bf_batch demo_waiting = []" "bf_call demo_waiting = [0 \<mapsto> Awaiting]" "bf_fresh demo_waiting = 1" "bf_stopCh demo_waiting = False"
  "bf_batchSize demo_waiting = 1" "bf_inner demo_waiting = demo_db" "bf_log demo_waiting 0 = demo_log\<lparr>jl_ID := - 1\<rparr>"
  "bf_idMap demo_waiting = Map.empty" "bf_done demo_waiting = Map.empty"
  by (simp_all add: demo_buf_defs)

lemma demo_waiting_reachable: "buf_reachable d demo_waiting"
proof -
  obtain s where s: "buf_New demo_log demo_db [bf_WithBatchSize 1] = Some s" "bf_flushInterval s > 0" "bf_batchSize s \<ge> 0"
    "bf_loop s = NotStarted" "bf_ring s = []" "bf_ringCap s = 2000" "bf_fresh s = 0"
    by (simp add: demo_buf_defs)
  have "buf_reachable d (s\<lparr>bf_loop := Selecting\<rparr>)"
    by (rule buf_more [OF buf_init [OF s(1)] bs_start]) (use s in \<open>simp_all add: buf_Start_def\<close>)
  then have b: "buf_reachable d (snd (create_begin demo_log (s\<lparr>bf_loop := Selecting\<rparr>)))" by (rule buf_more) (rule bs_begin)
  have "buf_reachable d (create_enqueue 0 (snd (create_begin demo_log (s\<lparr>bf_loop := Selecting\<rparr>))))"
    by (rule buf_more [OF b], rule bs_enqueue) (use s in \<open>simp_all add: create_begin_def Let_def\<close>)
  then show ?thesis by (simp add: demo_waiting_def s(1))
qed

lemma demo_created_facts: "buf_reachable (jobLogDAO list_tables) demo_created"
  "bf_call demo_created 0 = Some (Returned None)" "bf_idMap demo_created = [- 1 \<mapsto> 1]" "bf_fresh demo_created = 1"
  "bf_log demo_created 0 = demo_log\<lparr>jl_ID := 1\<rparr>"
proof -
  let ?d = "jobLogDAO list_tables"
  let ?r = "loop_receive ?d demo_waiting"
  have ins: "insert_all ?d [demo_log\<lparr>jl_ID := 0\<rparr>] demo_db =
      ((None, [demo_log\<lparr>jl_ID := 1\<rparr>]), demo_db\<lparr>ld_logs := [demo_log\<lparr>jl_ID := 1\<rparr>]\<rparr>)"
    by (simp add: insert_all_def jobLogDAO_def created_def logs_CreateBatch_def list_db_simps Let_def demo_db_def)
  have r: "bf_writing ?r = Some ([(0, - 1)], None)" "bf_log ?r 0 = demo_log\<lparr>jl_ID := 1\<rparr>" "bf_call ?r = [0 \<mapsto> Awaiting]"
    "bf_idMap ?r = Map.empty" "bf_fresh ?r = 1"
    using ins by (simp_all add: loop_receive_def demo_waiting_facts Let_def buf_flush_def write_insert_def)
  have r1: "buf_reachable ?d ?r"
    by (rule buf_more [OF demo_waiting_reachable bs_receive]) (simp_all add: demo_waiting_facts)
  have r2: "buf_reachable ?d (write_publish ?r)" by (rule buf_more [OF r1 bs_publish]) (simp add: r)
  have p: "bf_call (write_publish ?r) 0 = Some Awaiting" "bf_done (write_publish ?r) 0 = Some None"
    "bf_idMap (write_publish ?r) = [- 1 \<mapsto> 1]" "bf_fresh (write_publish ?r) = 1" "bf_log (write_publish ?r) 0 = demo_log\<lparr>jl_ID := 1\<rparr>"
    by (simp_all add: write_publish_def r publish_one_def)
  show "buf_reachable ?d demo_created" unfolding demo_created_def by (rule buf_more [OF r2 bs_return]) (simp_all add: p)
  show "bf_call demo_created 0 = Some (Returned None)" "bf_idMap demo_created = [- 1 \<mapsto> 1]" "bf_fresh demo_created = 1"
    "bf_log demo_created 0 = demo_log\<lparr>jl_ID := 1\<rparr>"
    by (simp_all add: demo_created_def create_return_def p)
qed

lemma create_contract_witness:
  "\<exists>r \<in> set (ld_logs (bf_inner demo_created)). jl_ID r = 1 \<and> ident r = ident (demo_log\<lparr>jl_ID := 1\<rparr>)"
  using create_contract [OF list_logs_store demo_created_facts(1,2)] by (simp add: demo_created_facts)

lemma ids_resolve_witness: "resolveID (- 1) demo_created = 1 \<and> 0 < jl_ID (bf_log demo_created 0) \<and>
    ident (bf_log demo_created 0) \<in> ident ` set (ld_logs (bf_inner demo_created))"
proof -
  have r: "resolveID (- 1) demo_created = 1" by (simp add: resolveID_def demo_created_facts)
  have "int (bf_fresh demo_created) < 2 ^ 62" by (simp add: demo_created_facts)
  from ids_resolve [OF list_logs_store demo_created_facts(1) this, of "- 1"] show ?thesis
    unfolding r by (simp add: demo_created_facts(4))
qed

lemma stop_drains_witness:
  "let s = demo_waiting\<lparr>bf_stopCh := True\<rparr>; s' = buf_drain (jobLogDAO list_tables) ((write_publish s)\<lparr>bf_loop := Draining\<rparr>)
   in bf_ring s = [0] \<and> bf_loop s' = Ended \<and> bf_done s' 0 = Some None \<and> has_row ld_logs (bf_inner s') (bf_log s' 0)"
proof -
  let ?d = "jobLogDAO list_tables" and ?s = "demo_waiting\<lparr>bf_stopCh := True\<rparr>"
  let ?s' = "buf_drain ?d ((write_publish ?s)\<lparr>bf_loop := Draining\<rparr>)"
  have r: "buf_reachable ?d ?s"
    by (rule buf_more [OF demo_waiting_reachable bs_close]) (simp add: buf_close_def demo_waiting_facts)
  have nf: "never_fails ?d"
    by (simp add: never_fails_def jobLogDAO_def created_def logs_Create_def logs_CreateBatch_def list_db_simps Let_def
        split: sum.split)
  have st: "bf_stopCh ?s" "bf_loop ?s = Selecting \<or> bf_loop ?s = Draining" by (simp_all add: demo_waiting_facts)
  note P = stop_drains [OF list_logs_store r st]
  have s': "(buf_step ?d)\<^sup>*\<^sup>* ?s ?s'" "bf_loop ?s' = Ended" "bf_writing ?s' = None" using conjunct1 [OF P] by blast+
  have "0 \<in> set (bf_ring ?s) \<union> set (bf_batch ?s) \<union> set (written ?s)" by (simp add: demo_waiting_facts)
  then show ?thesis using conjunct2 [OF P] s' nf by (simp add: demo_waiting_facts Let_def)
qed

end
