(* ===== verification/Script_Engine.thy ===== *)
theory Script_Engine
  imports Runner
begin

text \<open>
  \<open>internal/executor/script_engine.go\<close>: the engines that run scripts as child processes, their registry with
  the configuration of \<open>pkg/conf\<close>, and the writer that limits a process's output. The operating system is
  the record \<open>os\<close>: what it answers, and what a process prints (the chunks that reads of its pipes return)
  and how it ends, which may depend on a pipe that was closed early. Files are a map from paths to
  contents. What the standard library does with an output writer (\<open>os/exec\<close>, \<open>io.Copy\<close>) is written out.
\<close>

section \<open>Operating system\<close>

text \<open>How a process ends: \<open>None\<close> is exit code zero, otherwise its code and the text of the \<open>ExitError\<close>.\<close>

record proc =
  pr_stdout :: "string list"
  pr_stderr :: "string list"
  pr_exit :: "bool \<Rightarrow> bool \<Rightarrow> (int \<times> string) option"
  pr_duration :: duration

type_synonym files = "string \<rightharpoonup> string"

record os =
  os_lookPath :: "string \<Rightarrow> string option"
  os_stat :: "string \<Rightarrow> string option"
  os_mkdirAll :: "string \<Rightarrow> string option"
  os_createTemp :: "string \<Rightarrow> string \<Rightarrow> files \<Rightarrow> string + string"
  os_write :: "string \<Rightarrow> string \<Rightarrow> string option"
  os_environ :: "string list"
  os_start :: "string \<Rightarrow> string list \<Rightarrow> string list \<Rightarrow> files \<Rightarrow> string + proc"

section \<open>Limited writer\<close>

record limitedWriter =
  lw_buf :: string
  lw_limit :: int
  lw_written :: int

text \<open>Writing to a \<open>bytes.Buffer\<close> never fails.\<close>

definition lw_Write :: "string \<Rightarrow> limitedWriter \<Rightarrow> int \<times> limitedWriter" where
  "lw_Write p w =
     (let remaining = lw_limit w - lw_written w
      in if remaining \<le> 0 then (int (length p), w)
         else let p = (if int (length p) > remaining then take (nat remaining) p else p)
              in (int (length p), w\<lparr>lw_buf := lw_buf w @ p, lw_written := lw_written w + int (length p)\<rparr>))"

text \<open>\<open>io.Copy\<close> of the chunks of a pipe: it stops when a write reports fewer bytes than it was given.\<close>

fun io_copy :: "string list \<Rightarrow> limitedWriter \<Rightarrow> string option \<times> limitedWriter" where
  "io_copy [] w = (None, w)"
| "io_copy (c # cs) w =
     (let (n, w1) = lw_Write c w in if n \<noteq> int (length c) then (Some ''short write'', w1) else io_copy cs w1)"

section \<open>Results\<close>

record ScriptResult =
  sr_Stdout :: string
  sr_Stderr :: string
  sr_ExitCode :: int
  sr_Duration :: duration

definition Combined :: "ScriptResult \<Rightarrow> string" where
  "Combined r = sr_Stdout r @ (if sr_Stdout r \<noteq> [] \<and> sr_Stderr r \<noteq> [] then [CHR 0x0A] else []) @ sr_Stderr r"

section \<open>Running a process\<close>

record baseScriptEngine =
  be_typeName :: string
  be_maxOutputBytes :: int

text \<open>The output of one stream and the error of its copy.\<close>

definition collect :: "int \<Rightarrow> string list \<Rightarrow> string \<times> string option" where
  "collect limit chunks =
     (if limit > 0 then
        let (err, w) = io_copy chunks \<lparr>lw_buf = [], lw_limit = limit, lw_written = 0\<rparr> in (lw_buf w, err)
      else (concat chunks, None))"

text \<open>\<open>Cmd.Run\<close>: the exit status wins, then the error of the first copy that failed.\<close>

datatype run_err = StartError string | ExitError int string | CopyError string

fun run_err_text :: "run_err \<Rightarrow> string" where
  "run_err_text (StartError e) = e"
| "run_err_text (ExitError c e) = e"
| "run_err_text (CopyError e) = e"

definition cmd_Run :: "int \<Rightarrow> string + proc \<Rightarrow> (string \<times> string) \<times> duration \<times> run_err option" where
  "cmd_Run limit started =
     (case started of
        Inl err \<Rightarrow> (([], []), 0, Some (StartError err))
      | Inr p \<Rightarrow>
          let (out, outErr) = collect limit (pr_stdout p); (err, errErr) = collect limit (pr_stderr p)
          in ((out, err), pr_duration p,
              case pr_exit p (outErr \<noteq> None) (errErr \<noteq> None) of
                Some (code, text) \<Rightarrow> Some (ExitError code text)
              | None \<Rightarrow> (case outErr of Some e \<Rightarrow> Some (CopyError e) | None \<Rightarrow> map_option CopyError errErr)))"

definition runProcess :: "os \<Rightarrow> files \<Rightarrow> string \<Rightarrow> string list \<Rightarrow> string list \<Rightarrow> baseScriptEngine \<Rightarrow>
    ScriptResult \<times> string option" where
  "runProcess os fs binary args env b =
     (let cmdEnv = (if env \<noteq> [] then os_environ os @ env else os_environ os);
          ((out, err), dur, runErr) = cmd_Run (be_maxOutputBytes b) (os_start os binary args cmdEnv fs);
          exitCode = (case runErr of None \<Rightarrow> 0 | Some (ExitError code e) \<Rightarrow> code | Some e \<Rightarrow> - 1);
          result = \<lparr>sr_Stdout = out, sr_Stderr = err, sr_ExitCode = exitCode, sr_Duration = dur\<rparr>
      in (result, map_option (\<lambda>e. ''script engine '' @ go_quote (be_typeName b) @ '': exit_code='' @ itoa exitCode @
            '', err='' @ run_err_text e @ '', output='' @ Combined result) runErr))"

text \<open>The path of the new file, and the files then.\<close>

definition writeTempFile :: "os \<Rightarrow> string \<Rightarrow> string \<Rightarrow> string \<Rightarrow> files \<Rightarrow> (string + string) \<times> files" where
  "writeTempFile os dir ext content fs =
     (case (if dir \<noteq> [] then os_mkdirAll os dir else None) of
        Some err \<Rightarrow> (Inl (''script_engine: mkdir work_dir '' @ go_quote dir @ '': '' @ err), fs)
      | None \<Rightarrow>
          let ext = (if ext \<noteq> [] \<and> take 1 ext \<noteq> ''.'' then ''.'' @ ext else ext)
          in case os_createTemp os dir (''go-jobs-script-*'' @ ext) fs of
               Inl err \<Rightarrow> (Inl (''script_engine: create temp file: '' @ err), fs)
             | Inr path \<Rightarrow>
                 (case os_write os path content of
                    Some err \<Rightarrow> (Inl (''script_engine: write temp file: '' @ err), fs(path := None))
                  | None \<Rightarrow> (Inr path, fs(path \<mapsto> content))))"

section \<open>Engines\<close>

definition ExecModeInline :: string where "ExecModeInline = ''inline''"
definition ExecModeFile :: string where "ExecModeFile = ''file''"
definition ExecModeJar :: string where "ExecModeJar = ''jar''"

record EngineConfig =
  ec_Type :: string
  ec_Binary :: string
  ec_Args :: "string list"
  ec_FileExt :: string
  ec_WorkDir :: string
  ec_Env :: "string list"
  ec_ExecMode :: string
  ec_MaxOutputBytes :: int
  ec_Disabled :: bool

datatype ScriptEngine =
    ShellEngine baseScriptEngine
  | PythonEngine baseScriptEngine
  | CmdEngine baseScriptEngine
  | ConfigDrivenEngine baseScriptEngine EngineConfig

definition builtinEngines :: "ScriptEngine list" where
  "builtinEngines =
     [ShellEngine \<lparr>be_typeName = ''SHELL'', be_maxOutputBytes = 0\<rparr>,
      PythonEngine \<lparr>be_typeName = ''PYTHON'', be_maxOutputBytes = 0\<rparr>,
      CmdEngine \<lparr>be_typeName = ''CMD'', be_maxOutputBytes = 0\<rparr>]"

definition NewConfigDrivenEngine :: "EngineConfig \<Rightarrow> ScriptEngine" where
  "NewConfigDrivenEngine cfg =
     (let cfg = cfg\<lparr>ec_Type := to_upper (ec_Type cfg)\<rparr>;
          cfg = (if ec_ExecMode cfg = [] then cfg\<lparr>ec_ExecMode := ExecModeInline\<rparr> else cfg)
      in ConfigDrivenEngine \<lparr>be_typeName = ec_Type cfg, be_maxOutputBytes = ec_MaxOutputBytes cfg\<rparr> cfg)"

fun engine_Type :: "ScriptEngine \<Rightarrow> string" where
  "engine_Type (ShellEngine b) = ''SHELL''"
| "engine_Type (PythonEngine b) = ''PYTHON''"
| "engine_Type (CmdEngine b) = ''CMD''"
| "engine_Type (ConfigDrivenEngine b cfg) = ec_Type cfg"

definition is_abs :: "string \<Rightarrow> bool" where "is_abs path \<longleftrightarrow> take 1 path = ''/''"

definition config_Validate :: "os \<Rightarrow> EngineConfig \<Rightarrow> string option" where
  "config_Validate os cfg =
     (if ec_Type cfg = [] then Some ''engine type is empty''
      else if ec_Binary cfg = [] then Some (''engine '' @ go_quote (ec_Type cfg) @ '': binary is empty'')
      else if is_abs (ec_Binary cfg) then
        map_option (\<lambda>err. ''engine '' @ go_quote (ec_Type cfg) @ '': binary '' @ go_quote (ec_Binary cfg) @ '' not found: '' @ err)
          (os_stat os (ec_Binary cfg))
      else
        map_option (\<lambda>err. ''engine '' @ go_quote (ec_Type cfg) @ '': binary '' @ go_quote (ec_Binary cfg) @ '' not in PATH: '' @ err)
          (os_lookPath os (ec_Binary cfg)))"

fun engine_Validate :: "os \<Rightarrow> ScriptEngine \<Rightarrow> string option" where
  "engine_Validate os (ShellEngine b) = map_option (\<lambda>err. ''bash not found in PATH: '' @ err) (os_lookPath os ''bash'')"
| "engine_Validate os (PythonEngine b) = map_option (\<lambda>err. ''python3 not found in PATH: '' @ err) (os_lookPath os ''python3'')"
| "engine_Validate os (CmdEngine b) = None"
| "engine_Validate os (ConfigDrivenEngine b cfg) = config_Validate os cfg"

text \<open>\<open>strings.Fields\<close>.\<close>

function go_fields :: "string \<Rightarrow> string list" where
  "go_fields s =
     (let s = dropWhile is_space s
      in if s = [] then [] else takeWhile (\<lambda>c. \<not> is_space c) s # go_fields (dropWhile (\<lambda>c. \<not> is_space c) s))"
  by pat_completeness auto

lemma length_dropWhile_less: "s \<noteq> [] \<Longrightarrow> P (hd s) \<Longrightarrow> length (dropWhile P s) < length s"
  by (cases s) (auto simp: length_dropWhile_le less_Suc_eq_le)

termination go_fields
proof (relation "measure length")
  fix s x assume x: "x = dropWhile is_space s" "x \<noteq> []"
  then have "\<not> is_space (hd x)" by (simp add: hd_dropWhile)
  then have "length (dropWhile (\<lambda>c. \<not> is_space c) x) < length x" by (intro length_dropWhile_less [OF x(2)])
  also have "length x \<le> length s" by (simp add: x length_dropWhile_le)
  finally show "(dropWhile (\<lambda>c. \<not> is_space c) x, s) \<in> measure length" by simp
qed simp

declare go_fields.simps [simp del]

definition executeInline :: "os \<Rightarrow> files \<Rightarrow> baseScriptEngine \<Rightarrow> EngineConfig \<Rightarrow> string \<Rightarrow> ScriptResult \<times> string option" where
  "executeInline os fs b cfg param = runProcess os fs (ec_Binary cfg) (ec_Args cfg @ [''-c'', param]) (ec_Env cfg) b"

definition executeFile :: "os \<Rightarrow> baseScriptEngine \<Rightarrow> EngineConfig \<Rightarrow> string \<Rightarrow> files \<Rightarrow>
    (ScriptResult option \<times> string option) \<times> files" where
  "executeFile os b cfg param fs =
     (case writeTempFile os (ec_WorkDir cfg) (ec_FileExt cfg) param fs of
        (Inl err, fs1) \<Rightarrow> ((None, Some err), fs1)
      | (Inr tmpPath, fs1) \<Rightarrow>
          (let (res, err) = runProcess os fs1 (ec_Binary cfg) (ec_Args cfg @ [tmpPath]) (ec_Env cfg) b
           in ((Some res, err), fs1(tmpPath := None))))"

definition executeJar :: "os \<Rightarrow> files \<Rightarrow> baseScriptEngine \<Rightarrow> EngineConfig \<Rightarrow> string \<Rightarrow> ScriptResult \<times> string option" where
  "executeJar os fs b cfg param = runProcess os fs (ec_Binary cfg) (ec_Args cfg @ [param]) (ec_Env cfg) b"

definition with_result :: "files \<Rightarrow> ScriptResult \<times> string option \<Rightarrow> (ScriptResult option \<times> string option) \<times> files" where
  "with_result fs r = ((Some (fst r), snd r), fs)"

fun engine_Execute :: "os \<Rightarrow> ScriptEngine \<Rightarrow> RunRequest \<Rightarrow> files \<Rightarrow> (ScriptResult option \<times> string option) \<times> files" where
  "engine_Execute os (ShellEngine b) req fs = with_result fs (runProcess os fs ''bash'' [''-c'', rq_ExecuteParam req] [] b)"
| "engine_Execute os (PythonEngine b) req fs = with_result fs (runProcess os fs ''python3'' [''-c'', rq_ExecuteParam req] [] b)"
| "engine_Execute os (CmdEngine b) req fs =
     (case go_fields (rq_ExecuteParam req) of
        [] \<Rightarrow> ((None, Some ''CMD engine: execute_param is empty''), fs)
      | part # parts \<Rightarrow> with_result fs (runProcess os fs part parts [] b))"
| "engine_Execute os (ConfigDrivenEngine b cfg) req fs =
     (if ec_ExecMode cfg = ExecModeInline then with_result fs (executeInline os fs b cfg (rq_ExecuteParam req))
      else if ec_ExecMode cfg = ExecModeFile then executeFile os b cfg (rq_ExecuteParam req) fs
      else if ec_ExecMode cfg = ExecModeJar then with_result fs (executeJar os fs b cfg (rq_ExecuteParam req))
      else ((None, Some (''engine '' @ go_quote (ec_Type cfg) @ '': unknown exec_mode '' @ go_quote (ec_ExecMode cfg))), fs))"

section \<open>Registry\<close>

type_synonym EngineRegistry = "string \<rightharpoonup> ScriptEngine"

definition se_Register :: "os \<Rightarrow> ScriptEngine \<Rightarrow> EngineRegistry \<Rightarrow> string option \<times> EngineRegistry" where
  "se_Register os engine r =
     (let typeName = to_upper (engine_Type engine)
      in if typeName = [] then (Some ''script_engine: engine type name is empty'', r)
         else case engine_Validate os engine of
           Some err \<Rightarrow> (Some (''script_engine: validate '' @ go_quote typeName @ '': '' @ err), r)
         | None \<Rightarrow> (None, r(typeName \<mapsto> engine)))"

definition se_New :: "os \<Rightarrow> EngineRegistry" where
  "se_New os = fold (\<lambda>e r. snd (se_Register os e r)) builtinEngines Map.empty"

definition se_Get :: "string \<Rightarrow> EngineRegistry \<Rightarrow> ScriptEngine option" where
  "se_Get typeName r = r (to_upper typeName)"

definition se_Types :: "string list \<Rightarrow> EngineRegistry \<Rightarrow> string list" where
  "se_Types ord r = map fst (go_range r ord)"

fun load_loop :: "os \<Rightarrow> EngineConfig list \<Rightarrow> string option \<Rightarrow> EngineRegistry \<Rightarrow> string option \<times> EngineRegistry" where
  "load_loop os [] firstErr r = (firstErr, r)"
| "load_loop os (cfg # cfgs) firstErr r =
     (if ec_Disabled cfg then load_loop os cfgs firstErr r
      else case se_Register os (NewConfigDrivenEngine cfg) r of
        (Some err, r1) \<Rightarrow> load_loop os cfgs (if firstErr = None then Some err else firstErr) r1
      | (None, r1) \<Rightarrow> load_loop os cfgs firstErr r1)"

definition LoadFromConfig :: "os \<Rightarrow> EngineConfig list \<Rightarrow> EngineRegistry \<Rightarrow> string option \<times> EngineRegistry" where
  "LoadFromConfig os cfgs r = load_loop os cfgs None r"

section \<open>Configuration of the executor\<close>

record ScriptEngineConfig =
  sc_Type :: string
  sc_Binary :: string
  sc_Args :: "string list"
  sc_FileExt :: string
  sc_WorkDir :: string
  sc_Env :: "string list"
  sc_ExecMode :: string
  sc_MaxOutputBytes :: int
  sc_Disabled :: bool

definition confToEngineConfigs :: "ScriptEngineConfig list \<Rightarrow> EngineConfig list" where
  "confToEngineConfigs cfgList = map (\<lambda>c.
     \<lparr>ec_Type = sc_Type c, ec_Binary = sc_Binary c, ec_Args = sc_Args c, ec_FileExt = sc_FileExt c,
      ec_WorkDir = sc_WorkDir c, ec_Env = sc_Env c, ec_ExecMode = sc_ExecMode c,
      ec_MaxOutputBytes = sc_MaxOutputBytes c, ec_Disabled = sc_Disabled c\<rparr>) cfgList"

text \<open>What \<open>runScript\<close> of the runner gets for a request: the combined output and the error of the engine.\<close>

definition script_answer :: "os \<Rightarrow> files \<Rightarrow> EngineRegistry \<Rightarrow> RunRequest \<Rightarrow> string \<times> string option" where
  "script_answer os fs r req =
     (case se_Get (rq_ExecuteType req) r of
        None \<Rightarrow> ([], None)
      | Some e \<Rightarrow> (case engine_Execute os e req fs of ((res, err), fs1) \<Rightarrow>
          (case res of None \<Rightarrow> [] | Some x \<Rightarrow> Combined x, err)))"

end
