(* ===== verification/Script_Props.thy ===== *)
theory Script_Props
  imports Script_Engine
begin

text \<open>
  The output limit of a script process, the temporary files of file mode, and what a list of engine
  configurations leaves in the registry.
\<close>

section \<open>Output limit\<close>

text \<open>Some chunk begins below the limit and ends above it.\<close>

definition crosses :: "int \<Rightarrow> string list \<Rightarrow> bool" where
  "crosses limit chunks \<longleftrightarrow> (\<exists>i < length chunks. int (length (concat (take i chunks))) < limit \<and>
     limit < int (length (concat (take (Suc i) chunks))))"

lemma crosses_Nil [simp]: "\<not> crosses limit []"
  by (simp add: crosses_def)

lemma crosses_Cons:
  "crosses limit (c # cs) \<longleftrightarrow> (0 < limit \<and> limit < int (length c)) \<or> crosses (limit - int (length c)) cs"
proof
  assume "crosses limit (c # cs)"
  then obtain i where i: "i < Suc (length cs)" "int (length (concat (take i (c # cs)))) < limit"
    "limit < int (length (concat (take (Suc i) (c # cs))))" by (auto simp: crosses_def)
  then show "(0 < limit \<and> limit < int (length c)) \<or> crosses (limit - int (length c)) cs"
    by (cases i) (auto simp: crosses_def)
next
  assume "(0 < limit \<and> limit < int (length c)) \<or> crosses (limit - int (length c)) cs"
  then show "crosses limit (c # cs)"
  proof
    assume "0 < limit \<and> limit < int (length c)"
    then show ?thesis unfolding crosses_def by (intro exI [of _ 0]) simp
  next
    assume "crosses (limit - int (length c)) cs"
    then obtain i where "i < length cs" "int (length (concat (take i cs))) < limit - int (length c)"
      "limit - int (length c) < int (length (concat (take (Suc i) cs)))" by (auto simp: crosses_def)
    then show ?thesis unfolding crosses_def by (intro exI [of _ "Suc i"]) simp
  qed
qed

lemma crosses_nonpos: "limit \<le> 0 \<Longrightarrow> \<not> crosses limit chunks"
  by (auto simp: crosses_def)

lemma io_copy_spec:
  assumes "lw_written w \<le> lw_limit w"
  shows "(fst (io_copy cs w) \<noteq> None \<longleftrightarrow> crosses (lw_limit w - lw_written w) cs) \<and>
    lw_buf (snd (io_copy cs w)) = lw_buf w @ take (nat (lw_limit w - lw_written w)) (concat cs)"
  using assms
proof (induction cs arbitrary: w)
  case (Cons c cs)
  let ?rem = "lw_limit w - lw_written w"
  show ?case
  proof (cases "?rem < int (length c)")
    case True
    show ?thesis
    proof (cases "?rem = 0")
      case True
      then have w: "lw_Write c w = (int (length c), w)" by (simp add: lw_Write_def)
      show ?thesis using Cons.IH [OF Cons.prems] True crosses_nonpos [of 0] crosses_nonpos [of "- int (length c)"]
        by (simp add: w crosses_Cons)
    next
      case False
      then have pos: "0 < ?rem" using Cons.prems by simp
      then have w: "fst (lw_Write c w) = ?rem" "lw_buf (snd (lw_Write c w)) = lw_buf w @ take (nat ?rem) c"
        using True by (simp_all add: lw_Write_def Let_def)
      moreover have "take (nat ?rem) (concat (c # cs)) = take (nat ?rem) c" using True by simp
      ultimately show ?thesis using True pos by (simp add: crosses_Cons case_prod_beta)
    qed
  next
    case False
    let ?w = "w\<lparr>lw_buf := lw_buf w @ c, lw_written := lw_written w + int (length c)\<rparr>"
    have w: "lw_Write c w = (int (length c), if ?rem \<le> 0 then w else ?w)" using False by (simp add: lw_Write_def Let_def)
    show ?thesis
    proof (cases "?rem = 0")
      case True
      then have c: "c = []" using False by simp
      have "lw_Write [] w = (0, w)" using w True by (simp add: c)
      then show ?thesis using Cons.IH [OF Cons.prems] True by (simp add: c crosses_Cons)
    next
      case rem: False
      have nat_rem: "nat (lw_limit w - (lw_written w + int (length c))) = nat (lw_limit w - lw_written w) - length c" using False by simp
      have "0 < ?rem" using rem Cons.prems by simp
      then show ?thesis using Cons.IH [of ?w] False
        by (simp add: w crosses_Cons nat_diff_distrib nat_rem algebra_simps)
    qed
  qed
qed simp

lemma collect_spec:
  "0 < limit \<Longrightarrow> fst (collect limit cs) = take (nat limit) (concat cs) \<and> (snd (collect limit cs) \<noteq> None \<longleftrightarrow> crosses limit cs)"
  using io_copy_spec [of "\<lparr>lw_buf = [], lw_limit = limit, lw_written = 0\<rparr>" cs]
  by (simp add: collect_def case_prod_beta Let_def)

text \<open>Property C26: the output limit does not just cut the output: a process that ends with exit code zero whatever
  happens to its pipes is reported as failed, with exit code -1, exactly when one of its streams has a chunk
  across the limit (if the limit falls between two chunks the rest is dropped silently); what is kept is
  the first bytes of each stream up to the limit.\<close>

theorem output_limit_fails:
  assumes "0 < be_maxOutputBytes b" "os_start os binary args (if env \<noteq> [] then os_environ os @ env else os_environ os) fs = Inr p"
    and "pr_exit p = (\<lambda>closedOut closedErr. None)"
  shows "case runProcess os fs binary args env b of (res, err) \<Rightarrow>
    (err \<noteq> None \<longleftrightarrow> crosses (be_maxOutputBytes b) (pr_stdout p) \<or> crosses (be_maxOutputBytes b) (pr_stderr p)) \<and>
    sr_ExitCode res = (if err = None then 0 else - 1) \<and>
    sr_Stdout res = take (nat (be_maxOutputBytes b)) (concat (pr_stdout p)) \<and>
    sr_Stderr res = take (nat (be_maxOutputBytes b)) (concat (pr_stderr p))"
proof -
  let ?o = "collect (be_maxOutputBytes b) (pr_stdout p)" and ?e = "collect (be_maxOutputBytes b) (pr_stderr p)"
  note o = collect_spec [OF assms(1), of "pr_stdout p"] and e = collect_spec [OF assms(1), of "pr_stderr p"]
  have "cmd_Run (be_maxOutputBytes b) (Inr p) = ((fst ?o, fst ?e), pr_duration p,
      case snd ?o of Some x \<Rightarrow> Some (CopyError x) | None \<Rightarrow> map_option CopyError (snd ?e))"
    by (simp add: cmd_Run_def assms(3) case_prod_beta)
  then show ?thesis using o e unfolding runProcess_def assms(2) Let_def
    by (cases "snd ?o"; cases "snd ?e") simp_all
qed

definition demo_os :: "string list \<Rightarrow> os" where
  "demo_os out = \<lparr>os_lookPath = (\<lambda>b. if b \<in> {''bash'', ''go''} then None else Some ''not found''), os_stat = (\<lambda>_. Some ''no file''),
     os_mkdirAll = (\<lambda>_. None), os_createTemp = (\<lambda>dir pat fs. if fs ''/tmp/1'' = None then Inr ''/tmp/1'' else Inl ''exists''),
     os_write = (\<lambda>_ _. None), os_environ = [], os_start = (\<lambda>b args env fs.
       Inr \<lparr>pr_stdout = out, pr_stderr = [], pr_exit = (\<lambda>_ _. None), pr_duration = 1\<rparr>)\<rparr>"

lemma demo_start: "os_start (demo_os out) b args env fs = Inr \<lparr>pr_stdout = out, pr_stderr = [], pr_exit = (\<lambda>_ _. None), pr_duration = 1\<rparr>"
  by (simp add: demo_os_def)

lemma output_limit_fails_witness:
  "sr_ExitCode (fst (runProcess (demo_os [''abc'', ''def'']) Map.empty ''bash'' [] [] \<lparr>be_typeName = ''GO'', be_maxOutputBytes = 5\<rparr>)) = - 1 \<and>
   sr_ExitCode (fst (runProcess (demo_os [''abcd'', ''ef'']) Map.empty ''bash'' [] [] \<lparr>be_typeName = ''GO'', be_maxOutputBytes = 4\<rparr>)) = 0"
proof -
  have 1: "crosses 5 [''abc'', ''def'']" and 2: "\<not> crosses 4 [''abcd'', ''ef'']" and 3: "\<not> crosses n []" for n
    by (simp_all add: crosses_Cons crosses_nonpos)
  show ?thesis
    using output_limit_fails [where b = "\<lparr>be_typeName = ''GO'', be_maxOutputBytes = 5\<rparr>" and os = "demo_os [''abc'', ''def'']" and binary = "''bash''" and args = "[]" and env = "[]" and fs = Map.empty, OF _ demo_start]
      output_limit_fails [where b = "\<lparr>be_typeName = ''GO'', be_maxOutputBytes = 4\<rparr>" and os = "demo_os [''abcd'', ''ef'']" and binary = "''bash''" and args = "[]" and env = "[]" and fs = Map.empty, OF _ demo_start]
    by (simp add: 1 2 3 case_prod_beta)
qed

section \<open>Temporary files\<close>

lemma writeTempFile_fresh:
  assumes "\<And>dir pat p. os_createTemp os dir pat fs = Inr p \<Longrightarrow> fs p = None"
  shows "(case writeTempFile os dir ext content fs of
    (Inl err, fs1) \<Rightarrow> fs1 = fs | (Inr path, fs1) \<Rightarrow> fs path = None \<and> fs1 = fs(path \<mapsto> content))"
proof (cases "if dir \<noteq> [] then os_mkdirAll os dir else None")
  case None
  let ?ext = "if ext \<noteq> [] \<and> take 1 ext \<noteq> ''.'' then ''.'' @ ext else ext"
  show ?thesis
  proof (cases "os_createTemp os dir (''go-jobs-script-*'' @ ?ext) fs")
    case (Inr path)
    then have "fs path = None" by (rule assms)
    then have "fs(path := None) = fs" by (simp add: fun_upd_idem)
    then show ?thesis using Inr \<open>fs path = None\<close> by (simp only: writeTempFile_def None Let_def option.case Inr sum.case split: option.split) simp
  qed (simp only: writeTempFile_def None Let_def option.case sum.case prod.case)
qed (simp only: writeTempFile_def option.case sum.case prod.case)

text \<open>Executing a script leaves no file behind and changes none, on every path, whatever the engine and
  however the process ends, provided that a temporary file is a new one.\<close>

lemma Execute_cleans_up:
  assumes "\<And>dir pat p. os_createTemp os dir pat fs = Inr p \<Longrightarrow> fs p = None"
  shows "snd (engine_Execute os e req fs) = fs"
proof (cases e)
  case (ConfigDrivenEngine b cfg)
  have "snd (executeFile os b cfg param fs) = fs" for param
    using writeTempFile_fresh [where os = os and fs = fs and dir = "ec_WorkDir cfg" and ext = "ec_FileExt cfg" and content = param, OF assms]
    by (auto simp: executeFile_def case_prod_beta fun_upd_idem_iff split: sum.splits)
  then show ?thesis by (simp add: ConfigDrivenEngine with_result_def)
qed (auto simp: with_result_def split: list.splits)

definition demo_config :: EngineConfig where
  "demo_config = \<lparr>ec_Type = ''go'', ec_Binary = ''go'', ec_Args = [''run''], ec_FileExt = ''go'', ec_WorkDir = [], ec_Env = [],
     ec_ExecMode = ''file'', ec_MaxOutputBytes = 0, ec_Disabled = False\<rparr>"

lemma Execute_cleans_up_witness:
  "snd (engine_Execute (demo_os [''ok'']) (NewConfigDrivenEngine demo_config) (undefined\<lparr>rq_ExecuteParam := ''package main''\<rparr>) Map.empty) = Map.empty"
  by (rule Execute_cleans_up) simp

section \<open>Loading a configuration\<close>

text \<open>The configurations that register, and the error of one that does not.\<close>

definition config_error :: "os \<Rightarrow> EngineConfig \<Rightarrow> string option" where
  "config_error os cfg = fst (se_Register os (NewConfigDrivenEngine cfg) Map.empty)"

definition loads :: "os \<Rightarrow> EngineConfig \<Rightarrow> bool" where
  "loads os cfg \<longleftrightarrow> \<not> ec_Disabled cfg \<and> config_error os cfg = None"

lemma upper_idem [simp]: "to_upper (to_upper s) = to_upper s"
proof -
  have "upper_char (upper_char c) = upper_char c" for c
  proof (cases "97 \<le> (of_char c :: nat) \<and> (of_char c :: nat) \<le> 122")
    case True
    then have "((of_char c :: nat) - 32) mod 256 = of_char c - 32" by (intro mod_less) linarith
    moreover have "\<not> 97 \<le> (of_char c :: nat) - 32" using True by linarith
    ultimately show ?thesis using True by (simp add: upper_char_def Let_def)
  next
    case False
    then have "upper_char c = c" by (auto simp: upper_char_def Let_def)
    then show ?thesis by simp
  qed
  then show ?thesis by (simp add: to_upper_def)
qed

lemma Type_New [simp]: "engine_Type (NewConfigDrivenEngine cfg) = to_upper (ec_Type cfg)"
  by (simp add: NewConfigDrivenEngine_def Let_def)

lemma Register_config:
  "se_Register os (NewConfigDrivenEngine cfg) r =
     (config_error os cfg, if config_error os cfg = None then r(to_upper (ec_Type cfg) \<mapsto> NewConfigDrivenEngine cfg) else r)"
  by (simp add: se_Register_def config_error_def Let_def split: option.splits)

text \<open>After \<open>LoadFromConfig\<close> a type, in whatever case it is asked for, is served by the last enabled
  configuration of that type that validates, and by what was registered before, the built-in engines
  included, when there is none; a configuration that does not validate does not disturb the others, and
  the first error is returned.\<close>

lemma LoadFromConfig_correct:
  "se_Get t (snd (LoadFromConfig os cfgs r)) =
     (case find (\<lambda>c. loads os c \<and> to_upper (ec_Type c) = to_upper t) (rev cfgs) of
        Some c \<Rightarrow> Some (NewConfigDrivenEngine c) | None \<Rightarrow> se_Get t r) \<and>
   fst (LoadFromConfig os cfgs r) =
     (case filter (\<lambda>c. \<not> ec_Disabled c \<and> config_error os c \<noteq> None) cfgs of [] \<Rightarrow> None | c # cs \<Rightarrow> config_error os c)"
proof -
  have find_app: "find P (xs @ [x]) = (case find P xs of None \<Rightarrow> if P x then Some x else None | Some y \<Rightarrow> Some y)" for P xs and x :: EngineConfig
    by (induction xs) auto
  have get: "snd (load_loop os cfgs e r) u = (case find (\<lambda>c. loads os c \<and> to_upper (ec_Type c) = u) (rev cfgs) of
        Some c \<Rightarrow> Some (NewConfigDrivenEngine c) | None \<Rightarrow> r u)" for e u
  proof (induction cfgs arbitrary: e r)
    case (Cons c cfgs)
    then show ?case
      by (cases "config_error os c") (auto simp: Register_config find_app loads_def split: option.splits)
  qed simp
  have err: "fst (load_loop os cfgs e r) = (case e of Some x \<Rightarrow> Some x | None \<Rightarrow>
      (case filter (\<lambda>c. \<not> ec_Disabled c \<and> config_error os c \<noteq> None) cfgs of [] \<Rightarrow> None | c # cs \<Rightarrow> config_error os c))" for e
  proof (induction cfgs arbitrary: e r)
    case (Cons c cfgs)
    show ?case
      by (cases "config_error os c"; cases e) (simp_all add: Register_config Cons)
  qed (simp split: option.splits)
  have se_Get: "se_Get t q = q (to_upper t)" for t and q :: "string \<rightharpoonup> ScriptEngine" by (simp add: se_Get_def)
  show ?thesis unfolding LoadFromConfig_def se_Get get err by simp
qed

end
