(* ===== verification/Metrics.thy ===== *)
theory Metrics
  imports Go_Prelude Complex_Main
begin

text \<open>
  \<open>pkg/metrics/provider.go\<close>, \<open>prometheus_provider.go\<close>, \<open>noop_provider.go\<close> and \<open>metrics.go\<close>: options and
  factory of the providers, the registry of counters, gauges and histograms, their text, and the facade
  of named recording methods.

  \<open>float64\<close> values are reals, so rounding, infinities and NaN are not modelled; \<open>g17\<close> and \<open>g\<close> stand for
  the verbs \<open>%.17g\<close> and \<open>%g\<close>. \<open>uint64\<close> counts are words. An instrument lives in the registry under its
  key; the pointer a provider returns is that key. The order in which \<open>range\<close> visits a map is an
  argument. Mutexes make each method atomic.
\<close>

section \<open>Options\<close>

record ProviderOptions =
  po_Namespace :: string
  po_Subsystem :: string
  po_ConstLabels :: "string \<rightharpoonup> string"
  po_DefaultBuckets :: "real list"
  po_PushURL :: string
  po_PushInterval :: duration
  po_PushJobName :: string

definition po_WithNamespace :: "string \<Rightarrow> ProviderOptions \<Rightarrow> ProviderOptions" where
  "po_WithNamespace ns ops = ops\<lparr>po_Namespace := ns\<rparr>"

definition po_WithSubsystem :: "string \<Rightarrow> ProviderOptions \<Rightarrow> ProviderOptions" where
  "po_WithSubsystem sub ops = ops\<lparr>po_Subsystem := sub\<rparr>"

definition po_WithConstLabels :: "(string \<rightharpoonup> string) \<Rightarrow> ProviderOptions \<Rightarrow> ProviderOptions" where
  "po_WithConstLabels labels ops = ops\<lparr>po_ConstLabels := labels\<rparr>"

definition po_WithDefaultBuckets :: "real list \<Rightarrow> ProviderOptions \<Rightarrow> ProviderOptions" where
  "po_WithDefaultBuckets buckets ops = ops\<lparr>po_DefaultBuckets := buckets\<rparr>"

definition po_WithPushURL :: "string \<Rightarrow> ProviderOptions \<Rightarrow> ProviderOptions" where
  "po_WithPushURL url ops = ops\<lparr>po_PushURL := url\<rparr>"

definition po_WithPushInterval :: "duration \<Rightarrow> ProviderOptions \<Rightarrow> ProviderOptions" where
  "po_WithPushInterval d ops = ops\<lparr>po_PushInterval := d\<rparr>"

definition po_WithPushJobName :: "string \<Rightarrow> ProviderOptions \<Rightarrow> ProviderOptions" where
  "po_WithPushJobName name ops = ops\<lparr>po_PushJobName := name\<rparr>"

definition DefaultDurationBuckets :: "real list" where
  "DefaultDurationBuckets = [10, 50, 100, 250, 500, 1000, 2500, 5000, 10000, 30000, 60000, 120000, 300000]"

definition defaultProviderOptions :: ProviderOptions where
  "defaultProviderOptions = \<lparr>po_Namespace = ''gojobs'', po_Subsystem = [], po_ConstLabels = Map.empty,
     po_DefaultBuckets = DefaultDurationBuckets, po_PushURL = [], po_PushInterval = 15 * second,
     po_PushJobName = ''go-jobs''\<rparr>"

section \<open>Names, keys and labels\<close>

definition buildName :: "ProviderOptions \<Rightarrow> string \<Rightarrow> string" where
  "buildName ops name =
     (if po_Namespace ops = [] then name
      else if po_Subsystem ops = [] then po_Namespace ops @ ''_'' @ name
      else po_Namespace ops @ ''_'' @ po_Subsystem ops @ ''_'' @ name)"

definition buildKey :: "string \<Rightarrow> string list \<Rightarrow> string" where
  "buildKey name labels = foldl (\<lambda>key l. key @ [CHR 0x00] @ l) name labels"

fun label_keys :: "string list \<Rightarrow> string list" where
  "label_keys (k # v # r) = k # label_keys r"
| "label_keys _ = []"

definition mergeConst :: "string list \<Rightarrow> string list \<Rightarrow> (string \<rightharpoonup> string) \<Rightarrow> string list" where
  "mergeConst ord labels constLabels =
     labels @ concat (map (\<lambda>(k, v). if k \<in> set (label_keys labels) then [] else [k, v]) (go_range constLabels ord))"

definition appendKV :: "string list \<Rightarrow> string \<Rightarrow> string \<Rightarrow> string list" where
  "appendKV labels k v = labels @ [k, v]"

definition escape_char :: "char \<Rightarrow> string" where
  "escape_char c =
     (if c = CHR 0x5C then [CHR 0x5C, CHR 0x5C]
      else if c = CHR 0x22 then [CHR 0x5C, CHR 0x22]
      else if c = CHR 0x0A then [CHR 0x5C, CHR ''n'']
      else [c])"

definition escapeLabel :: "string \<Rightarrow> string" where
  "escapeLabel s = concat (map escape_char s)"

fun fmt_pairs :: "bool \<Rightarrow> string list \<Rightarrow> string" where
  "fmt_pairs later (k # v # r) =
     (if later then '','' else []) @ k @ [CHR ''='', CHR 0x22] @ escapeLabel v @ [CHR 0x22] @ fmt_pairs True r"
| "fmt_pairs later _ = []"

definition fmtLabels :: "string list \<Rightarrow> string" where
  "fmtLabels labels = (if labels = [] then [] else ''{'' @ fmt_pairs False labels @ ''}'')"

section \<open>Counters and gauges\<close>

record promCounter =
  pc_name :: string
  pc_labels :: "string list"
  pc_value :: real

record promGauge =
  pg_name :: string
  pg_labels :: "string list"
  pg_value :: real

definition pc_Add :: "real \<Rightarrow> promCounter \<Rightarrow> promCounter" where
  "pc_Add d c = c\<lparr>pc_value := pc_value c + d\<rparr>"

definition pc_Inc :: "promCounter \<Rightarrow> promCounter" where
  "pc_Inc c = pc_Add 1 c"

definition pg_Set :: "real \<Rightarrow> promGauge \<Rightarrow> promGauge" where
  "pg_Set v x = x\<lparr>pg_value := v\<rparr>"

definition pg_Add :: "real \<Rightarrow> promGauge \<Rightarrow> promGauge" where
  "pg_Add d x = x\<lparr>pg_value := pg_value x + d\<rparr>"

definition pg_Inc :: "promGauge \<Rightarrow> promGauge" where
  "pg_Inc x = pg_Add 1 x"

definition pg_Dec :: "promGauge \<Rightarrow> promGauge" where
  "pg_Dec x = pg_Add (- 1) x"

definition nl :: string where "nl = [CHR 0x0A]"

definition type_line :: "string \<Rightarrow> string \<Rightarrow> string" where
  "type_line name kind = ''# TYPE '' @ name @ '' '' @ kind @ nl"

definition pc_writeTo :: "(real \<Rightarrow> string) \<Rightarrow> promCounter \<Rightarrow> string" where
  "pc_writeTo g17 c = type_line (pc_name c) ''counter'' @
     pc_name c @ fmtLabels (pc_labels c) @ '' '' @ g17 (pc_value c) @ nl"

definition pg_writeTo :: "(real \<Rightarrow> string) \<Rightarrow> promGauge \<Rightarrow> string" where
  "pg_writeTo g17 x = type_line (pg_name x) ''gauge'' @
     pg_name x @ fmtLabels (pg_labels x) @ '' '' @ g17 (pg_value x) @ nl"

section \<open>Histograms\<close>

record promHistogram =
  ph_name :: string
  ph_labels :: "string list"
  ph_upperBounds :: "real list"
  ph_counts :: "64 word list"
  ph_sum :: real
  ph_total :: "64 word"

text \<open>\<open>float64(^uint64(0) >> 1)\<close> rounds to \<open>2 ^ 63\<close>.\<close>

definition maxFloat64 :: real where "maxFloat64 = 2 ^ 63"

text \<open>The inner loop of the insertion sort, then the outer one.\<close>

fun sift_bucket :: "nat \<Rightarrow> real list \<Rightarrow> real list" where
  "sift_bucket 0 xs = xs"
| "sift_bucket (Suc j) xs =
     (if xs ! Suc j < xs ! j then sift_bucket j (xs[Suc j := xs ! j, j := xs ! Suc j]) else xs)"

definition sort_buckets :: "real list \<Rightarrow> real list" where
  "sort_buckets xs = fold sift_bucket [1..<length xs] xs"

text \<open>\<open>deduped := sorted[:0]\<close> shares the array it reads from: \<open>k\<close> elements have been written back.\<close>

definition dedup_step :: "nat \<Rightarrow> nat \<times> real list \<Rightarrow> nat \<times> real list" where
  "dedup_step i st = (case st of (k, a) \<Rightarrow>
     if i = 0 \<or> a ! i \<noteq> a ! (i - 1) then (Suc k, a[k := a ! i]) else (k, a))"

definition dedup_buckets :: "real list \<Rightarrow> real list" where
  "dedup_buckets xs = (case fold dedup_step [0..<length xs] (0, xs) of (k, a) \<Rightarrow> take k a)"

definition newPromHistogram :: "string \<Rightarrow> string list \<Rightarrow> real list \<Rightarrow> promHistogram" where
  "newPromHistogram name labels buckets =
     (let bounds = dedup_buckets (sort_buckets buckets) @ [maxFloat64]
      in \<lparr>ph_name = name, ph_labels = labels, ph_upperBounds = bounds,
          ph_counts = replicate (length bounds) 0, ph_sum = 0, ph_total = 0\<rparr>)"

fun first_bucket :: "real \<Rightarrow> nat \<Rightarrow> real list \<Rightarrow> nat option" where
  "first_bucket val i [] = None"
| "first_bucket val i (ub # ubs) = (if val \<le> ub then Some i else first_bucket val (Suc i) ubs)"

definition ph_Observe :: "real \<Rightarrow> promHistogram \<Rightarrow> promHistogram" where
  "ph_Observe val h =
     (let i = (case first_bucket val 0 (ph_upperBounds h) of Some i \<Rightarrow> i | None \<Rightarrow> length (ph_counts h) - 1)
      in h\<lparr>ph_sum := ph_sum h + val, ph_total := ph_total h + 1,
           ph_counts := (ph_counts h)[i := ph_counts h ! i + 1]\<rparr>)"

definition ph_ObserveDuration :: "time \<Rightarrow> time \<Rightarrow> promHistogram \<Rightarrow> promHistogram" where
  "ph_ObserveDuration now since h =
     ph_Observe (real_of_int (go_div (time_sub now since) millisecond)) h"

definition le_text :: "(real \<Rightarrow> string) \<Rightarrow> real \<Rightarrow> string" where
  "le_text g ub = (if ub \<ge> maxFloat64 then ''+Inf'' else g ub)"

definition bucket_line :: "(real \<Rightarrow> string) \<Rightarrow> string \<Rightarrow> string list \<Rightarrow> real \<Rightarrow> 64 word \<Rightarrow> string" where
  "bucket_line g name labels ub n =
     name @ ''_bucket'' @ fmtLabels (appendKV labels ''le'' (le_text g ub)) @ '' '' @ utoa (unat n) @ nl"

fun bucket_lines :: "(real \<Rightarrow> string) \<Rightarrow> string \<Rightarrow> string list \<Rightarrow> 64 word \<Rightarrow> (real \<times> 64 word) list \<Rightarrow> string" where
  "bucket_lines g name labels cumCount [] = []"
| "bucket_lines g name labels cumCount ((ub, n) # r) =
     bucket_line g name labels ub (cumCount + n) @ bucket_lines g name labels (cumCount + n) r"

definition ph_writeTo :: "(real \<Rightarrow> string) \<Rightarrow> (real \<Rightarrow> string) \<Rightarrow> promHistogram \<Rightarrow> string" where
  "ph_writeTo g17 g h =
     type_line (ph_name h) ''histogram'' @
     bucket_lines g (ph_name h) (ph_labels h) 0 (zip (ph_upperBounds h) (ph_counts h)) @
     ph_name h @ ''_sum'' @ fmtLabels (ph_labels h) @ '' '' @ g17 (ph_sum h) @ nl @
     ph_name h @ ''_count'' @ fmtLabels (ph_labels h) @ '' '' @ utoa (unat (ph_total h)) @ nl"

section \<open>The registry\<close>

record Prom =
  pm_opts :: ProviderOptions
  pm_counters :: "string \<rightharpoonup> promCounter"
  pm_gauges :: "string \<rightharpoonup> promGauge"
  pm_histograms :: "string \<rightharpoonup> promHistogram"

definition newPrometheusProvider :: "ProviderOptions \<Rightarrow> Prom" where
  "newPrometheusProvider ops =
     \<lparr>pm_opts = ops, pm_counters = Map.empty, pm_gauges = Map.empty, pm_histograms = Map.empty\<rparr>"

definition pm_Counter :: "string list \<Rightarrow> string \<Rightarrow> string list \<Rightarrow> Prom \<Rightarrow> string \<times> Prom" where
  "pm_Counter ord name labels p =
     (let fullName = buildName (pm_opts p) name; key = buildKey fullName labels
      in case pm_counters p key of
           Some _ \<Rightarrow> (key, p)
         | None \<Rightarrow> (key, p\<lparr>pm_counters := (pm_counters p)(key \<mapsto>
             \<lparr>pc_name = fullName, pc_labels = mergeConst ord labels (po_ConstLabels (pm_opts p)), pc_value = 0\<rparr>)\<rparr>))"

definition pm_Gauge :: "string list \<Rightarrow> string \<Rightarrow> string list \<Rightarrow> Prom \<Rightarrow> string \<times> Prom" where
  "pm_Gauge ord name labels p =
     (let fullName = buildName (pm_opts p) name; key = buildKey fullName labels
      in case pm_gauges p key of
           Some _ \<Rightarrow> (key, p)
         | None \<Rightarrow> (key, p\<lparr>pm_gauges := (pm_gauges p)(key \<mapsto>
             \<lparr>pg_name = fullName, pg_labels = mergeConst ord labels (po_ConstLabels (pm_opts p)), pg_value = 0\<rparr>)\<rparr>))"

definition pm_Histogram :: "string list \<Rightarrow> string \<Rightarrow> real list \<Rightarrow> string list \<Rightarrow> Prom \<Rightarrow> string \<times> Prom" where
  "pm_Histogram ord name buckets labels p =
     (let fullName = buildName (pm_opts p) name; key = buildKey fullName labels
      in case pm_histograms p key of
           Some _ \<Rightarrow> (key, p)
         | None \<Rightarrow>
             let buckets = (if buckets = [] then po_DefaultBuckets (pm_opts p) else buckets)
             in (key, p\<lparr>pm_histograms := (pm_histograms p)(key \<mapsto>
                  newPromHistogram fullName (mergeConst ord labels (po_ConstLabels (pm_opts p))) buckets)\<rparr>))"

text \<open>What \<open>Handler\<close> answers and what a push sends: the text of every instrument.\<close>

definition pm_text :: "(real \<Rightarrow> string) \<Rightarrow> (real \<Rightarrow> string) \<Rightarrow> string list \<Rightarrow> string list \<Rightarrow> string list \<Rightarrow>
    Prom \<Rightarrow> string" where
  "pm_text g17 g oc og oh p =
     concat (map (pc_writeTo g17 \<circ> snd) (go_range (pm_counters p) oc)) @
     concat (map (pg_writeTo g17 \<circ> snd) (go_range (pm_gauges p) og)) @
     concat (map (ph_writeTo g17 g \<circ> snd) (go_range (pm_histograms p) oh))"

definition pm_Handler :: "(real \<Rightarrow> string) \<Rightarrow> (real \<Rightarrow> string) \<Rightarrow> string list \<Rightarrow> string list \<Rightarrow> string list \<Rightarrow>
    Prom \<Rightarrow> (string \<times> string) \<times> int \<times> string" where
  "pm_Handler g17 g oc og oh p =
     ((''Content-Type'', ''text/plain; version=0.0.4; charset=utf-8''), 200, pm_text g17 g oc og oh p)"

end
