(* ===== verification/Metrics_Facade.thy ===== *)
theory Metrics_Facade
  imports Metrics
begin

text \<open>
  \<open>pkg/metrics/victoriametrics_provider.go\<close>, the provider interface and its factory (\<open>provider.go\<close>,
  \<open>noop_provider.go\<close>), and the facade of \<open>metrics.go\<close>.

  The Victoria provider embeds a Prometheus provider and may push its text to a URL. A push is cut where other
  goroutines can come in between: it begins with the serialized text, hands the request to the client, which (as
  \<open>net/http\<close> has it) does not send a request whose context is cancelled already, and ends with a status or an
  error; a request that was sent may reach the endpoint and be answered even if the context is cancelled
  meanwhile. \<open>vm_received\<close> collects what has reached the endpoint.
\<close>

section \<open>The pushing provider\<close>

text \<open>The push under way: none, one with its text, one that was sent and whether it has reached the endpoint.\<close>

datatype push = NoPush | Ready string | Flying string bool

record VM =
  vm_inner :: Prom
  vm_pushURL :: string
  vm_pushInterval :: duration
  vm_pushJobName :: string
  vm_cancelled :: bool
  vm_loop :: bool
  vm_pushSuccessTotal :: int
  vm_pushFailTotal :: int
  vm_received :: "(string \<times> string) list"
  vm_push :: push
  vm_last :: bool

definition newVictoriaMetricsProvider :: "ProviderOptions \<Rightarrow> VM" where
  "newVictoriaMetricsProvider ops =
     \<lparr>vm_inner = newPrometheusProvider ops, vm_pushURL = po_PushURL ops,
      vm_pushInterval = (if po_PushInterval ops \<le> 0 then 15 * second else po_PushInterval ops),
      vm_pushJobName = (if po_PushJobName ops = [] then ''go-jobs'' else po_PushJobName ops),
      vm_cancelled = False, vm_loop = (po_PushURL ops \<noteq> []),
      vm_pushSuccessTotal = 0, vm_pushFailTotal = 0, vm_received = [], vm_push = NoPush, vm_last = False\<rparr>"

definition push_url :: "VM \<Rightarrow> string" where
  "push_url v = (if vm_pushJobName v \<noteq> [] then vm_pushURL v @ ''?extra_label=job='' @ vm_pushJobName v
     else vm_pushURL v)"

text \<open>\<open>doPush\<close> in its parts; \<open>final\<close> marks the push of the branch that returns.\<close>

definition push_begin :: "bool \<Rightarrow> string \<Rightarrow> VM \<Rightarrow> VM" where
  "push_begin final body v =
     (if body = [] then v\<lparr>vm_loop := vm_loop v \<and> \<not> final\<rparr> else v\<lparr>vm_push := Ready body, vm_last := final\<rparr>)"

definition push_end :: "int option \<Rightarrow> VM \<Rightarrow> VM" where
  "push_end answer v =
     (let v1 = v\<lparr>vm_push := NoPush, vm_loop := vm_loop v \<and> \<not> vm_last v\<rparr>
      in case answer of
           None \<Rightarrow> v1\<lparr>vm_pushFailTotal := i64 (vm_pushFailTotal v1 + 1)\<rparr>
         | Some status \<Rightarrow>
             if status \<ge> 400 then v1\<lparr>vm_pushFailTotal := i64 (vm_pushFailTotal v1 + 1)\<rparr>
             else v1\<lparr>vm_pushSuccessTotal := i64 (vm_pushSuccessTotal v1 + 1)\<rparr>)"

definition push_send :: "string \<Rightarrow> VM \<Rightarrow> VM" where
  "push_send body v = (if vm_cancelled v then push_end None v else v\<lparr>vm_push := Flying body False\<rparr>)"

definition PushStats :: "VM \<Rightarrow> int \<times> int" where
  "PushStats v = (vm_pushSuccessTotal v, vm_pushFailTotal v)"

text \<open>\<open>Stop\<close> cancels the context and then waits for the loop; the instruments change at any time.\<close>

definition vm_cancel :: "VM \<Rightarrow> VM" where
  "vm_cancel v = v\<lparr>vm_cancelled := True\<rparr>"

definition serialized :: "(real \<Rightarrow> string) \<Rightarrow> (real \<Rightarrow> string) \<Rightarrow> Prom \<Rightarrow> string \<Rightarrow> bool" where
  "serialized g17 g p body \<longleftrightarrow> (\<exists>oc og oh. iter_order (pm_counters p) oc \<and> iter_order (pm_gauges p) og \<and>
     iter_order (pm_histograms p) oh \<and> body = pm_text g17 g oc og oh p)"

text \<open>The loop is in one push at a time; a request that cannot be built or sent, and one that is broken off, ends
  with an error.\<close>

inductive push_step :: "(real \<Rightarrow> string) \<Rightarrow> (real \<Rightarrow> string) \<Rightarrow> VM \<Rightarrow> VM \<Rightarrow> bool" for g17 g where
  ps_tick: "vm_loop v \<Longrightarrow> vm_push v = NoPush \<Longrightarrow> serialized g17 g (vm_inner v) body \<Longrightarrow>
    push_step g17 g v (push_begin False body v)"
| ps_done: "vm_loop v \<Longrightarrow> vm_push v = NoPush \<Longrightarrow> vm_cancelled v \<Longrightarrow> serialized g17 g (vm_inner v) body \<Longrightarrow>
    push_step g17 g v (push_begin True body v)"
| ps_send: "vm_push v = Ready body \<Longrightarrow> push_step g17 g v (push_send body v)"
| ps_unsent: "vm_push v = Ready body \<Longrightarrow> push_step g17 g v (push_end None v)"
| ps_arrive: "vm_push v = Flying body False \<Longrightarrow>
    push_step g17 g v (v\<lparr>vm_push := Flying body True, vm_received := vm_received v @ [(push_url v, body)]\<rparr>)"
| ps_answer: "vm_push v = Flying body True \<Longrightarrow> push_step g17 g v (push_end (Some status) v)"
| ps_error: "vm_push v = Flying body arrived \<Longrightarrow> push_step g17 g v (push_end None v)"
| ps_cancel: "push_step g17 g v (vm_cancel v)"
| ps_record: "push_step g17 g v (v\<lparr>vm_inner := p\<rparr>)"

section \<open>Providers\<close>

definition TypePrometheus :: string where "TypePrometheus = ''prometheus''"
definition TypeVictoriaMetrics :: string where "TypeVictoriaMetrics = ''victoriametrics''"
definition TypeNoop :: string where "TypeNoop = ''noop''"

datatype Provider = PromProvider Prom | VMProvider VM | NoopProvider

definition NewProvider :: "string \<Rightarrow> (ProviderOptions \<Rightarrow> ProviderOptions) list \<Rightarrow> string + Provider" where
  "NewProvider typ opts =
     (let ops = foldl (\<lambda>x opt. opt x) defaultProviderOptions opts
      in if typ = TypePrometheus then Inr (PromProvider (newPrometheusProvider ops))
         else if typ = TypeVictoriaMetrics then Inr (VMProvider (newVictoriaMetricsProvider ops))
         else if typ = TypeNoop \<or> typ = [] then Inr NoopProvider
         else Inl (''metrics: unknown provider type: '' @ typ))"

definition MustNewProvider :: "string \<Rightarrow> (ProviderOptions \<Rightarrow> ProviderOptions) list \<Rightarrow> Provider option" where
  "MustNewProvider typ opts = (case NewProvider typ opts of Inl _ \<Rightarrow> None | Inr p \<Rightarrow> Some p)"

definition prov_Type :: "Provider \<Rightarrow> string" where
  "prov_Type P = (case P of PromProvider _ \<Rightarrow> TypePrometheus | VMProvider _ \<Rightarrow> TypeVictoriaMetrics
     | NoopProvider \<Rightarrow> TypeNoop)"

text \<open>An instrument is the pointer a provider returned; the methods of the no-op instruments do nothing.\<close>

datatype instrument = Registered string | NoopInstrument

definition on_prom :: "(Prom \<Rightarrow> string \<times> Prom) \<Rightarrow> Provider \<Rightarrow> instrument \<times> Provider" where
  "on_prom f P = (case P of
     PromProvider p \<Rightarrow> (let (k, p1) = f p in (Registered k, PromProvider p1))
   | VMProvider v \<Rightarrow> (let (k, p1) = f (vm_inner v) in (Registered k, VMProvider (v\<lparr>vm_inner := p1\<rparr>)))
   | NoopProvider \<Rightarrow> (NoopInstrument, NoopProvider))"

definition prov_Counter :: "string list \<Rightarrow> string \<Rightarrow> string list \<Rightarrow> Provider \<Rightarrow> instrument \<times> Provider" where
  "prov_Counter ord name labels P = on_prom (pm_Counter ord name labels) P"

definition prov_Gauge :: "string list \<Rightarrow> string \<Rightarrow> string list \<Rightarrow> Provider \<Rightarrow> instrument \<times> Provider" where
  "prov_Gauge ord name labels P = on_prom (pm_Gauge ord name labels) P"

definition prov_Histogram :: "string list \<Rightarrow> string \<Rightarrow> real list \<Rightarrow> string list \<Rightarrow> Provider \<Rightarrow>
    instrument \<times> Provider" where
  "prov_Histogram ord name buckets labels P = on_prom (pm_Histogram ord name buckets labels) P"

definition upd_prom :: "(string \<Rightarrow> Prom \<Rightarrow> Prom) \<Rightarrow> instrument \<Rightarrow> Provider \<Rightarrow> Provider" where
  "upd_prom f i P = (case (i, P) of
     (Registered k, PromProvider p) \<Rightarrow> PromProvider (f k p)
   | (Registered k, VMProvider v) \<Rightarrow> VMProvider (v\<lparr>vm_inner := f k (vm_inner v)\<rparr>)
   | _ \<Rightarrow> P)"

definition at_key :: "('v \<Rightarrow> 'v) \<Rightarrow> 'k \<Rightarrow> ('k \<rightharpoonup> 'v) \<Rightarrow> 'k \<rightharpoonup> 'v" where
  "at_key f k m = (case m k of None \<Rightarrow> m | Some x \<Rightarrow> m(k \<mapsto> f x))"

definition counter_do :: "(promCounter \<Rightarrow> promCounter) \<Rightarrow> instrument \<Rightarrow> Provider \<Rightarrow> Provider" where
  "counter_do f = upd_prom (\<lambda>k p. p\<lparr>pm_counters := at_key f k (pm_counters p)\<rparr>)"

definition gauge_do :: "(promGauge \<Rightarrow> promGauge) \<Rightarrow> instrument \<Rightarrow> Provider \<Rightarrow> Provider" where
  "gauge_do f = upd_prom (\<lambda>k p. p\<lparr>pm_gauges := at_key f k (pm_gauges p)\<rparr>)"

definition histogram_do :: "(promHistogram \<Rightarrow> promHistogram) \<Rightarrow> instrument \<Rightarrow> Provider \<Rightarrow> Provider" where
  "histogram_do f = upd_prom (\<lambda>k p. p\<lparr>pm_histograms := at_key f k (pm_histograms p)\<rparr>)"

section \<open>The facade\<close>

definition MetricTriggerTotal :: string where "MetricTriggerTotal = ''scheduler_trigger_total''"
definition MetricTriggerDurationMs :: string where "MetricTriggerDurationMs = ''scheduler_trigger_duration_ms''"
definition MetricJobActive :: string where "MetricJobActive = ''scheduler_job_active''"
definition MetricRateLimitedTotal :: string where "MetricRateLimitedTotal = ''scheduler_rate_limited_total''"
definition MetricWheelSize :: string where "MetricWheelSize = ''scheduler_wheel_size''"
definition MetricNoExecutorTotal :: string where "MetricNoExecutorTotal = ''scheduler_no_executor_total''"
definition MetricRunTotal :: string where "MetricRunTotal = ''executor_run_total''"
definition MetricRunDurationMs :: string where "MetricRunDurationMs = ''executor_run_duration_ms''"
definition MetricRunningJobs :: string where "MetricRunningJobs = ''executor_running_jobs''"
definition MetricIdempotentReject :: string where "MetricIdempotentReject = ''executor_idempotent_rejected_total''"
definition MetricRateLimitAllowed :: string where "MetricRateLimitAllowed = ''ratelimit_allowed_total''"
definition MetricRateLimitRejected :: string where "MetricRateLimitRejected = ''ratelimit_rejected_total''"

record Metrics =
  m_provider :: Provider
  m_jobActive :: instrument
  m_wheelSize :: instrument
  m_triggerDuration :: instrument
  m_runDuration :: instrument
  m_runningJobs :: instrument

text \<open>\<open>ord\<close> gives the order in which the constant labels are appended to each new metric.\<close>

definition m_New :: "(string \<Rightarrow> string list) \<Rightarrow> Provider \<Rightarrow> Metrics" where
  "m_New ord P =
     (let (ja, P1) = prov_Gauge (ord MetricJobActive) MetricJobActive [] P;
          (ws, P2) = prov_Gauge (ord MetricWheelSize) MetricWheelSize [] P1;
          (td, P3) = prov_Histogram (ord MetricTriggerDurationMs) MetricTriggerDurationMs [] [] P2;
          (rd, P4) = prov_Histogram (ord MetricRunDurationMs) MetricRunDurationMs [] [] P3;
          (rj, P5) = prov_Gauge (ord MetricRunningJobs) MetricRunningJobs [] P4
      in \<lparr>m_provider = P5, m_jobActive = ja, m_wheelSize = ws, m_triggerDuration = td, m_runDuration = rd,
          m_runningJobs = rj\<rparr>)"

definition Milliseconds :: "duration \<Rightarrow> int" where
  "Milliseconds d = go_div d millisecond"

definition count_one :: "string list \<Rightarrow> string \<Rightarrow> string list \<Rightarrow> Metrics \<Rightarrow> Metrics" where
  "count_one ord name labels m =
     (let (c, P1) = prov_Counter ord name labels (m_provider m) in m\<lparr>m_provider := counter_do pc_Inc c P1\<rparr>)"

definition set_gauge :: "(promGauge \<Rightarrow> promGauge) \<Rightarrow> instrument \<Rightarrow> Metrics \<Rightarrow> Metrics" where
  "set_gauge f i m = m\<lparr>m_provider := gauge_do f i (m_provider m)\<rparr>"

definition observe :: "real \<Rightarrow> instrument \<Rightarrow> Metrics \<Rightarrow> Metrics" where
  "observe v i m = m\<lparr>m_provider := histogram_do (ph_Observe v) i (m_provider m)\<rparr>"

definition RecordTrigger :: "string list \<Rightarrow> string \<Rightarrow> string \<Rightarrow> string \<Rightarrow> duration \<Rightarrow> Metrics \<Rightarrow> Metrics" where
  "RecordTrigger ord app triggerType status d m =
     (let m1 = count_one ord MetricTriggerTotal
                 [''app'', app, ''trigger_type'', triggerType, ''status'', status] m
      in observe (real_of_int (Milliseconds d)) (m_triggerDuration m1) m1)"

definition SetActiveJobs :: "int \<Rightarrow> Metrics \<Rightarrow> Metrics" where
  "SetActiveJobs n m = set_gauge (pg_Set (real_of_int n)) (m_jobActive m) m"

definition IncActiveJobs :: "Metrics \<Rightarrow> Metrics" where "IncActiveJobs m = set_gauge pg_Inc (m_jobActive m) m"
definition DecActiveJobs :: "Metrics \<Rightarrow> Metrics" where "DecActiveJobs m = set_gauge pg_Dec (m_jobActive m) m"

definition SetWheelSize :: "int \<Rightarrow> Metrics \<Rightarrow> Metrics" where
  "SetWheelSize n m = set_gauge (pg_Set (real_of_int n)) (m_wheelSize m) m"

definition IncRateLimited :: "string list \<Rightarrow> string \<Rightarrow> string \<Rightarrow> Metrics \<Rightarrow> Metrics" where
  "IncRateLimited ord app reason m = count_one ord MetricRateLimitedTotal [''app'', app, ''reason'', reason] m"

definition IncNoExecutor :: "string list \<Rightarrow> string \<Rightarrow> Metrics \<Rightarrow> Metrics" where
  "IncNoExecutor ord app m = count_one ord MetricNoExecutorTotal [''app'', app] m"

definition RecordRun :: "string list \<Rightarrow> string \<Rightarrow> string \<Rightarrow> duration \<Rightarrow> Metrics \<Rightarrow> Metrics" where
  "RecordRun ord handler status d m =
     (let m1 = count_one ord MetricRunTotal [''handler'', handler, ''status'', status] m
      in observe (real_of_int (Milliseconds d)) (m_runDuration m1) m1)"

definition SetRunningJobs :: "int \<Rightarrow> Metrics \<Rightarrow> Metrics" where
  "SetRunningJobs n m = set_gauge (pg_Set (real_of_int n)) (m_runningJobs m) m"

definition IncRunningJobs :: "Metrics \<Rightarrow> Metrics" where "IncRunningJobs m = set_gauge pg_Inc (m_runningJobs m) m"
definition DecRunningJobs :: "Metrics \<Rightarrow> Metrics" where "DecRunningJobs m = set_gauge pg_Dec (m_runningJobs m) m"

definition IncIdempotentRejected :: "string list \<Rightarrow> string \<Rightarrow> Metrics \<Rightarrow> Metrics" where
  "IncIdempotentRejected ord handler m = count_one ord MetricIdempotentReject [''handler'', handler] m"

definition IncRateLimitAllowed :: "string list \<Rightarrow> string \<Rightarrow> Metrics \<Rightarrow> Metrics" where
  "IncRateLimitAllowed ord key m = count_one ord MetricRateLimitAllowed [''key'', key] m"

definition IncRateLimitRejected :: "string list \<Rightarrow> string \<Rightarrow> string \<Rightarrow> Metrics \<Rightarrow> Metrics" where
  "IncRateLimitRejected ord key reason m =
     count_one ord MetricRateLimitRejected [''key'', key, ''reason'', reason] m"

text \<open>The process-wide default.\<close>

definition globalInstance :: Metrics where
  "globalInstance = m_New (\<lambda>_. []) NoopProvider"

end
