(* ===== verification/Metrics_Props.thy ===== *)
theory Metrics_Props
  imports Metrics_Facade "HOL-Library.Multiset"
begin

text \<open>
  What the metrics promise: the text of a histogram counts the observations below each bound, the text of
  labels can be read back, a counter counts the calls of the facade that are about it.
\<close>

section \<open>Bucket bounds\<close>

lemma sorted_mset_eq: "sorted xs \<Longrightarrow> sorted ys \<Longrightarrow> mset xs = mset ys \<Longrightarrow> xs = (ys :: real list)"
  by (metis properties_for_sort)

lemma insort_snoc_less: "b < a \<Longrightarrow> insort b (ys @ [a]) = insort b ys @ [a :: real]"
  by (induction ys) auto

lemma insort_above: "sorted ys \<Longrightarrow> (\<And>y. y \<in> set ys \<Longrightarrow> y \<le> b) \<Longrightarrow> insort b ys = ys @ [b :: real]"
  by (rule sorted_mset_eq) (auto simp: sorted_insort sorted_append)

lemma sift_bucket_eq:
  "j < length xs \<Longrightarrow> sorted (take j xs) \<Longrightarrow> sift_bucket j xs = insort (xs ! j) (take j xs) @ drop (Suc j) xs"
proof (induction j arbitrary: xs)
  case 0
  then show ?case by (cases xs) simp_all
next
  case (Suc j)
  have t: "take (Suc j) xs = take j xs @ [xs ! j]" using Suc.prems(1) by (simp add: take_Suc_conv_app_nth)
  have s: "sorted (take j xs)" "\<And>y. y \<in> set (take j xs) \<Longrightarrow> y \<le> xs ! j"
    using Suc.prems(2) by (auto simp: t sorted_append)
  show ?case
  proof (cases "xs ! Suc j < xs ! j")
    case True
    let ?ys = "xs[Suc j := xs ! j, j := xs ! Suc j]"
    have "drop (Suc j) ?ys = xs ! j # drop (Suc (Suc j)) xs"
      using Suc.prems(1) by (simp add: Cons_nth_drop_Suc [symmetric])
    then show ?thesis
      using Suc.IH [of ?ys] Suc.prems(1) s(1) True by (simp add: t insort_snoc_less)
  next
    case False
    have "insort (xs ! Suc j) (take (Suc j) xs) = take (Suc j) xs @ [xs ! Suc j]"
      by (rule insort_above [OF Suc.prems(2)]) (use False s(2) in \<open>fastforce simp: t\<close>)
    then show ?thesis
      using False Suc.prems(1) append_take_drop_id [of "Suc j" xs] by (simp add: Cons_nth_drop_Suc)
  qed
qed

lemma sort_snoc: "sort (xs @ [x]) = insort x (sort xs :: real list)"
  by (rule sorted_mset_eq) (auto simp: sorted_insort)

lemma sort_prefix: "i \<le> length xs \<Longrightarrow> 0 < i \<Longrightarrow> fold sift_bucket [1..<i] xs = sort (take i xs) @ drop i xs"
proof (induction i)
  case (Suc i)
  show ?case
  proof (cases "i = 0")
    case True
    then show ?thesis using Suc.prems by (cases xs) simp_all
  next
    case False
    let ?ys = "sort (take i xs) @ drop i xs"
    have "sift_bucket i ?ys = insort (?ys ! i) (take i ?ys) @ drop (Suc i) ?ys"
      by (rule sift_bucket_eq) (use Suc.prems in simp_all)
    also have "\<dots> = sort (take (Suc i) xs) @ drop (Suc i) xs"
      using Suc.prems by (simp add: take_Suc_conv_app_nth sort_snoc nth_append)
    finally show ?thesis using Suc False by simp
  qed
qed simp

lemma sort_buckets_eq: "sort_buckets xs = sort xs"
  using sort_prefix [of "length xs" xs] by (cases "xs = []") (simp_all add: sort_buckets_def)

lemma remdups_adj_snoc:
  "remdups_adj (xs @ [x]) = (if xs \<noteq> [] \<and> last xs = x then remdups_adj xs else remdups_adj xs @ [x])"
  by (cases xs rule: rev_cases) (simp_all add: remdups_adj_append_two)

lemma dedup_inv:
  assumes "i \<le> length xs"
  shows "\<exists>k a. fold dedup_step [0..<i] (0, xs) = (k, a) \<and> k \<le> i \<and> length a = length xs \<and>
    take k a = remdups_adj (take i xs) \<and> drop (i - 1) a = drop (i - 1) xs"
  using assms
proof (induction i)
  case (Suc i)
  then obtain k a where ih: "fold dedup_step [0..<i] (0, xs) = (k, a)" "k \<le> i" "length a = length xs"
    "take k a = remdups_adj (take i xs)" "drop (i - 1) a = drop (i - 1) xs" by auto
  have i: "i < length xs" using Suc.prems by simp
  have at: "a ! m = xs ! m" if "i - 1 \<le> m" "m < length xs" for m
    using arg_cong [OF ih(5), of "\<lambda>l. l ! (m - (i - 1))"] that ih(3) by simp
  have t: "take (Suc i) xs = take i xs @ [xs ! i]" using i by (simp add: take_Suc_conv_app_nth)
  have new: "(i = 0 \<or> a ! i \<noteq> a ! (i - 1)) \<longleftrightarrow> \<not> (take i xs \<noteq> [] \<and> last (take i xs) = xs ! i)"
    using i at [of i] at [of "i - 1"] by (cases i) (auto simp: take_Suc_conv_app_nth)
  have d: "drop i (b[k := b ! i]) = drop i b" for b :: "real list"
    using ih(2) by (cases "k = i") (simp_all add: list_update_id)
  have da: "drop i a = drop i xs" using arg_cong [OF ih(5), of "drop (i - (i - 1))"] by simp
  show ?case
  proof (cases "i = 0 \<or> a ! i \<noteq> a ! (i - 1)")
    case True
    have "take (Suc k) (a[k := a ! i]) = remdups_adj (take (Suc i) xs)"
      using True i ih(2-4) at [of i] new by (simp add: t remdups_adj_snoc take_Suc_conv_app_nth)
    moreover have "dedup_step i (k, a) = (Suc k, a[k := a ! i])" using True by (simp add: dedup_step_def)
    ultimately show ?thesis using ih(1-3) d [of a] da by simp
  next
    case False
    then have "take k a = remdups_adj (take (Suc i) xs)" using ih(4) new by (simp add: t remdups_adj_snoc)
    moreover have "dedup_step i (k, a) = (k, a)" using False by (simp add: dedup_step_def)
    ultimately show ?thesis using ih(1-3) da by simp
  qed
qed simp

lemma dedup_buckets_eq: "dedup_buckets xs = remdups_adj xs"
  using dedup_inv [of "length xs" xs] by (auto simp: dedup_buckets_def)

definition bounds_of :: "real list \<Rightarrow> real list" where
  "bounds_of buckets = sorted_list_of_set (set buckets) @ [maxFloat64]"

lemma distinct_remdups_adj_sorted: "sorted xs \<Longrightarrow> distinct (remdups_adj (xs :: real list))"
  by (induction xs rule: remdups_adj.induct) auto

lemma remdups_adj_sort: "remdups_adj (sort xs) = sorted_list_of_set (set xs :: real set)"
  by (rule sorted_distinct_set_unique) (auto simp: sorted_remdups_adj distinct_remdups_adj_sorted)

lemma new_bounds: "ph_upperBounds (newPromHistogram name labels buckets) = bounds_of buckets"
  by (simp add: newPromHistogram_def Let_def sort_buckets_eq dedup_buckets_eq remdups_adj_sort bounds_of_def)

section \<open>Counting\<close>


fun running_sums :: "64 word \<Rightarrow> 64 word list \<Rightarrow> 64 word list" where
  "running_sums c [] = []"
| "running_sums c (n # ns) = (c + n) # running_sums (c + n) ns"



lemma length_running_sums [simp]: "length (running_sums c ns) = length ns"
  by (induction ns arbitrary: c) simp_all










lemma new_fields [simp]:
  "ph_name (newPromHistogram name labels buckets) = name" "ph_labels (newPromHistogram name labels buckets) = labels"
  "ph_sum (newPromHistogram name labels buckets) = 0" "ph_total (newPromHistogram name labels buckets) = 0"
  "ph_counts (newPromHistogram name labels buckets) = replicate (length (bounds_of buckets)) 0"
  using new_bounds [of name labels buckets] by (simp_all add: newPromHistogram_def Let_def)











section \<open>Reading labels back\<close>














section \<open>Keys\<close>

lemma buildKey_eq: "buildKey name labels = name @ concat (map (Cons (CHR 0x00)) labels)"
  by (induction labels rule: rev_induct) (simp_all add: buildKey_def)

definition plain :: "string list \<Rightarrow> bool" where
  "plain ls \<longleftrightarrow> CHR 0x00 \<notin> \<Union> (set ` set ls)"

lemma plain_simps [simp]: "plain []" "plain (x # xs) \<longleftrightarrow> CHR 0x00 \<notin> set x \<and> plain xs"
  by (auto simp: plain_def)

lemma split_at_nul:
  assumes "CHR 0x00 \<notin> set xs" "CHR 0x00 \<notin> set ys" "xs @ z1 = ys @ z2"
    "z1 = [] \<or> hd z1 = CHR 0x00" "z2 = [] \<or> hd z2 = CHR 0x00"
  shows "xs = ys \<and> z1 = z2"
  using assms
proof (induction xs arbitrary: ys)
  case Nil
  then show ?case by (cases ys) auto
next
  case (Cons x xs)
  then show ?case by (cases ys) auto
qed

lemma nul_head: "concat (map (Cons (CHR 0x00)) ls) = [] \<or> hd (concat (map (Cons (CHR 0x00)) ls)) = CHR 0x00"
  by (cases ls) simp_all

lemma nul_list_inject:
  "plain ls \<Longrightarrow> plain ls' \<Longrightarrow> concat (map (Cons (CHR 0x00)) ls) = concat (map (Cons (CHR 0x00)) ls') \<Longrightarrow> ls = ls'"
proof (induction ls arbitrary: ls')
  case Nil
  then show ?case by (cases ls') simp_all
next
  case (Cons l ls)
  then obtain m ms where m: "ls' = m # ms" by (cases ls') simp_all
  then have "l = m \<and> concat (map (Cons (CHR 0x00)) ls) = concat (map (Cons (CHR 0x00)) ms)"
    using split_at_nul [of l m] Cons.prems nul_head [of ls] nul_head [of ms] by simp
  then show ?case using Cons m by simp
qed

lemma buildKey_inject:
  assumes "plain (n # ls)" "plain (n' # ls')"
  shows "buildKey n ls = buildKey n' ls' \<longleftrightarrow> n = n' \<and> ls = ls'"
  using assms split_at_nul [OF _ _ _ nul_head nul_head, of n n' ls ls'] nul_list_inject [of ls ls']
  by (auto simp: buildKey_eq)

end
