(* ===== verification/Facade_Props.thy ===== *)
theory Facade_Props
  imports Metrics_Props
begin

text \<open>
  The facade over a registry: an abstract reading of a history of calls, which counts the calls per series,
  keeps three numbers and collects two lists of durations, is what the registry holds; and what a push
  provider does not send.
\<close>

section \<open>Calls and their abstract effect\<close>

datatype m_call =
    CTrigger string string string duration | CSetActive int | CIncActive | CDecActive | CSetWheel int
  | CRateLimited string string | CNoExecutor string | CRun string string duration | CSetRunning int
  | CIncRunning | CDecRunning | CIdempotent string | CAllowed string | CRejected string string

fun m_do :: "string list \<Rightarrow> m_call \<Rightarrow> Metrics \<Rightarrow> Metrics" where
  "m_do ord (CTrigger app ty st d) = RecordTrigger ord app ty st d"
| "m_do ord (CSetActive n) = SetActiveJobs n"
| "m_do ord CIncActive = IncActiveJobs"
| "m_do ord CDecActive = DecActiveJobs"
| "m_do ord (CSetWheel n) = SetWheelSize n"
| "m_do ord (CRateLimited app why) = IncRateLimited ord app why"
| "m_do ord (CNoExecutor app) = IncNoExecutor ord app"
| "m_do ord (CRun h st d) = RecordRun ord h st d"
| "m_do ord (CSetRunning n) = SetRunningJobs n"
| "m_do ord CIncRunning = IncRunningJobs"
| "m_do ord CDecRunning = DecRunningJobs"
| "m_do ord (CIdempotent h) = IncIdempotentRejected ord h"
| "m_do ord (CAllowed k) = IncRateLimitAllowed ord k"
| "m_do ord (CRejected k why) = IncRateLimitRejected ord k why"

text \<open>The series a call counts in, its effect on a gauge, the duration it observes.\<close>

fun call_series :: "m_call \<Rightarrow> (string \<times> string list) option" where
  "call_series (CTrigger app ty st d) =
     Some (MetricTriggerTotal, [''app'', app, ''trigger_type'', ty, ''status'', st])"
| "call_series (CRateLimited app why) = Some (MetricRateLimitedTotal, [''app'', app, ''reason'', why])"
| "call_series (CNoExecutor app) = Some (MetricNoExecutorTotal, [''app'', app])"
| "call_series (CRun h st d) = Some (MetricRunTotal, [''handler'', h, ''status'', st])"
| "call_series (CIdempotent h) = Some (MetricIdempotentReject, [''handler'', h])"
| "call_series (CAllowed k) = Some (MetricRateLimitAllowed, [''key'', k])"
| "call_series (CRejected k why) = Some (MetricRateLimitRejected, [''key'', k, ''reason'', why])"
| "call_series _ = None"

fun call_gauge :: "m_call \<Rightarrow> string \<Rightarrow> real \<Rightarrow> real" where
  "call_gauge (CSetActive n) x r = (if x = MetricJobActive then real_of_int n else r)"
| "call_gauge CIncActive x r = (if x = MetricJobActive then r + 1 else r)"
| "call_gauge CDecActive x r = (if x = MetricJobActive then r - 1 else r)"
| "call_gauge (CSetWheel n) x r = (if x = MetricWheelSize then real_of_int n else r)"
| "call_gauge (CSetRunning n) x r = (if x = MetricRunningJobs then real_of_int n else r)"
| "call_gauge CIncRunning x r = (if x = MetricRunningJobs then r + 1 else r)"
| "call_gauge CDecRunning x r = (if x = MetricRunningJobs then r - 1 else r)"
| "call_gauge _ x r = r"

fun call_observes :: "m_call \<Rightarrow> string \<Rightarrow> real list" where
  "call_observes (CTrigger app ty st d) x = (if x = MetricTriggerDurationMs then [real_of_int (Milliseconds d)] else [])"
| "call_observes (CRun h st d) x = (if x = MetricRunDurationMs then [real_of_int (Milliseconds d)] else [])"
| "call_observes _ x = []"

definition series_count :: "m_call list \<Rightarrow> string \<Rightarrow> string list \<Rightarrow> nat" where
  "series_count H name labels = length (filter (\<lambda>c. call_series c = Some (name, labels)) H)"

definition gauge_after :: "m_call list \<Rightarrow> string \<Rightarrow> real" where
  "gauge_after H x = fold (\<lambda>c. call_gauge c x) H 0"

definition observed_by :: "m_call list \<Rightarrow> string \<Rightarrow> real list" where
  "observed_by H x = concat (map (\<lambda>c. call_observes c x) H)"

section \<open>Reading the registry\<close>

definition prom_of :: "Provider \<Rightarrow> Prom option" where
  "prom_of P = (case P of PromProvider p \<Rightarrow> Some p | VMProvider v \<Rightarrow> Some (vm_inner v) | NoopProvider \<Rightarrow> None)"

definition counter_in :: "Prom \<Rightarrow> string \<Rightarrow> string list \<Rightarrow> real" where
  "counter_in p name labels =
     (case pm_counters p (buildKey (buildName (pm_opts p) name) labels) of None \<Rightarrow> 0 | Some c \<Rightarrow> pc_value c)"

definition gauge_in :: "Prom \<Rightarrow> string \<Rightarrow> real option" where
  "gauge_in p name = map_option pg_value (pm_gauges p (buildName (pm_opts p) name))"

definition histogram_in :: "Prom \<Rightarrow> string \<Rightarrow> promHistogram option" where
  "histogram_in p name = pm_histograms p (buildName (pm_opts p) name)"

lemma on_prom_Some:
  assumes "prom_of P = Some p" "f p = (k, p')"
  shows "\<exists>P'. on_prom f P = (Registered k, P') \<and> prom_of P' = Some p'"
  using assms by (cases P) (auto simp: on_prom_def prom_of_def)

lemma upd_prom_Some [simp]:
  "prom_of P = Some p \<Longrightarrow> prom_of (upd_prom f (Registered k) P) = Some (f k p)"
  by (cases P) (auto simp: upd_prom_def prom_of_def)

lemma buildName_inject [simp]: "buildName ops x = buildName ops y \<longleftrightarrow> x = y"
  by (simp add: buildName_def)

lemma buildKey_Nil [simp]: "buildKey n [] = n"
  by (simp add: buildKey_def)

lemma plain_buildName:
  "plain [po_Namespace ops, po_Subsystem ops, x] \<Longrightarrow> CHR 0x00 \<notin> set (buildName ops x)"
  by (simp add: buildName_def)

text \<open>The facade reads as \<open>cnt\<close>, \<open>gau\<close> and \<open>obs\<close> say.\<close>

definition reads_as :: "ProviderOptions \<Rightarrow> (string \<Rightarrow> string list) \<Rightarrow> (string \<Rightarrow> string list \<Rightarrow> nat) \<Rightarrow>
    (string \<Rightarrow> real) \<Rightarrow> (string \<Rightarrow> real list) \<Rightarrow> Metrics \<Rightarrow> bool" where
  "reads_as ops ord cnt gau obs m \<longleftrightarrow> (\<exists>p. prom_of (m_provider m) = Some p \<and> pm_opts p = ops \<and>
     m_jobActive m = Registered (buildName ops MetricJobActive) \<and>
     m_wheelSize m = Registered (buildName ops MetricWheelSize) \<and>
     m_runningJobs m = Registered (buildName ops MetricRunningJobs) \<and>
     m_triggerDuration m = Registered (buildName ops MetricTriggerDurationMs) \<and>
     m_runDuration m = Registered (buildName ops MetricRunDurationMs) \<and>
     (\<forall>name labels. plain (name # labels) \<longrightarrow> counter_in p name labels = real (cnt name labels)) \<and>
     (\<forall>x\<in>{MetricJobActive, MetricWheelSize, MetricRunningJobs}. gauge_in p x = Some (gau x)) \<and>
     (\<forall>x\<in>{MetricTriggerDurationMs, MetricRunDurationMs}. histogram_in p x =
        Some (fold ph_Observe (obs x)
          (newPromHistogram (buildName ops x) (mergeConst (ord x) [] (po_ConstLabels ops)) (po_DefaultBuckets ops)))))"

lemmas metric_names = MetricTriggerTotal_def MetricTriggerDurationMs_def MetricJobActive_def
  MetricRateLimitedTotal_def MetricWheelSize_def MetricNoExecutorTotal_def MetricRunTotal_def
  MetricRunDurationMs_def MetricRunningJobs_def MetricIdempotentReject_def MetricRateLimitAllowed_def
  MetricRateLimitRejected_def

lemma names_distinct [simp]:
  "MetricJobActive \<noteq> MetricWheelSize" "MetricJobActive \<noteq> MetricRunningJobs" "MetricWheelSize \<noteq> MetricRunningJobs"
  "MetricWheelSize \<noteq> MetricJobActive" "MetricRunningJobs \<noteq> MetricJobActive" "MetricRunningJobs \<noteq> MetricWheelSize"
  "MetricTriggerDurationMs \<noteq> MetricRunDurationMs" "MetricRunDurationMs \<noteq> MetricTriggerDurationMs"
  by (simp_all add: metric_names)

lemma m_New_reads:
  assumes "prom_of P = Some (newPrometheusProvider ops)"
  shows "reads_as ops ord (series_count []) (gauge_after []) (observed_by []) (m_New ord P)"
  using assms
  by (cases P) (simp_all add: reads_as_def m_New_def prov_Gauge_def prov_Histogram_def on_prom_def prom_of_def
    pm_Gauge_def pm_Histogram_def newPrometheusProvider_def counter_in_def gauge_in_def histogram_in_def
    series_count_def gauge_after_def observed_by_def Let_def)

definition plain_opts :: "ProviderOptions \<Rightarrow> bool" where
  "plain_opts ops \<longleftrightarrow> plain [po_Namespace ops, po_Subsystem ops]"

lemma key_inject:
  assumes "plain_opts ops" "plain (n # ls)" "plain (n' # ls')"
  shows "buildKey (buildName ops n) ls = buildKey (buildName ops n') ls' \<longleftrightarrow> n = n' \<and> ls = ls'"
  using assms buildKey_inject [of "buildName ops n" ls "buildName ops n'" ls'] plain_buildName [of ops n]
    plain_buildName [of ops n'] by (simp add: plain_opts_def)

lemma count_reads:
  assumes "reads_as ops ord cnt gau obs m" "plain_opts ops" "plain (n # ls)"
  shows "reads_as ops ord (\<lambda>x l. cnt x l + (if n = x \<and> ls = l then 1 else 0)) gau obs (count_one o1 n ls m)"
proof -
  from assms(1) obtain p where p: "prom_of (m_provider m) = Some p" "pm_opts p = ops" unfolding reads_as_def by auto
  obtain k p' where c: "pm_Counter o1 n ls p = (k, p')" by force
  then have k: "k = buildKey (buildName ops n) ls"
    by (auto simp: pm_Counter_def Let_def p(2) split: option.splits)
  from on_prom_Some [where f = "pm_Counter o1 n ls", OF p(1) c] obtain P' where
    P': "prov_Counter o1 n ls (m_provider m) = (Registered k, P')" "prom_of P' = Some p'"
    by (auto simp: prov_Counter_def)
  let ?q = "p'\<lparr>pm_counters := at_key pc_Inc k (pm_counters p')\<rparr>"
  have q: "prom_of (m_provider (count_one o1 n ls m)) = Some ?q"
    by (simp add: count_one_def P' counter_do_def)
  have f: "pm_opts ?q = ops" "pm_gauges ?q = pm_gauges p" "pm_histograms ?q = pm_histograms p"
    using c p(2) by (auto simp: pm_Counter_def Let_def split: option.splits)
  have "counter_in ?q x l = counter_in p x l + (if n = x \<and> ls = l then 1 else 0)" if "plain (x # l)" for x l
    using c key_inject [OF assms(2,3) that] p(2) k
    by (auto simp: pm_Counter_def Let_def counter_in_def at_key_def pc_Inc_def pc_Add_def split: option.splits)
  moreover have "gauge_in ?q x = gauge_in p x" "histogram_in ?q x = histogram_in p x" for x
    using f p(2) by (simp_all add: gauge_in_def histogram_in_def)
  ultimately show ?thesis
    using assms(1) p f q unfolding reads_as_def by (auto simp: count_one_def P')
qed

lemma gauge_reads:
  assumes "reads_as ops ord cnt gau obs m" "x \<in> {MetricJobActive, MetricWheelSize, MetricRunningJobs}"
    "\<And>y. pg_value (f y) = h (pg_value y)"
  shows "reads_as ops ord cnt (gau(x := h (gau x))) obs (set_gauge f (Registered (buildName ops x)) m)"
proof -
  from assms(1) obtain p where p: "prom_of (m_provider m) = Some p" "pm_opts p = ops" unfolding reads_as_def by auto
  let ?q = "p\<lparr>pm_gauges := at_key f (buildName ops x) (pm_gauges p)\<rparr>"
  have q: "prom_of (m_provider (set_gauge f (Registered (buildName ops x)) m)) = Some ?q"
    by (simp add: set_gauge_def gauge_do_def p(1))
  have "gauge_in ?q y = (if y = x then map_option h (gauge_in p y) else gauge_in p y)" for y
    using p(2) assms(3) by (auto simp: gauge_in_def at_key_def split: option.splits)
  moreover have "counter_in ?q = counter_in p" "histogram_in ?q = histogram_in p" "pm_opts ?q = ops"
    using p(2) by (simp_all add: fun_eq_iff counter_in_def histogram_in_def)
  ultimately show ?thesis
    using assms(1,2) p q unfolding reads_as_def by (auto simp: set_gauge_def)
qed

lemma observe_reads:
  assumes "reads_as ops ord cnt gau obs m" "x \<in> {MetricTriggerDurationMs, MetricRunDurationMs}"
  shows "reads_as ops ord cnt gau (obs(x := obs x @ [v])) (observe v (Registered (buildName ops x)) m)"
proof -
  from assms(1) obtain p where p: "prom_of (m_provider m) = Some p" "pm_opts p = ops" unfolding reads_as_def by auto
  let ?q = "p\<lparr>pm_histograms := at_key (ph_Observe v) (buildName ops x) (pm_histograms p)\<rparr>"
  have q: "prom_of (m_provider (observe v (Registered (buildName ops x)) m)) = Some ?q"
    by (simp add: observe_def histogram_do_def p(1))
  have "histogram_in ?q y = (if y = x then map_option (ph_Observe v) (histogram_in p y) else histogram_in p y)" for y
    using p(2) by (auto simp: histogram_in_def at_key_def split: option.splits)
  moreover have "counter_in ?q = counter_in p" "gauge_in ?q = gauge_in p" "pm_opts ?q = ops"
    using p(2) by (simp_all add: fun_eq_iff counter_in_def gauge_in_def)
  ultimately show ?thesis
    using assms(1,2) p q unfolding reads_as_def by (auto simp: observe_def)
qed

lemma instruments:
  assumes "reads_as ops ord cnt gau obs m"
  shows "m_jobActive m = Registered (buildName ops MetricJobActive)"
    "m_wheelSize m = Registered (buildName ops MetricWheelSize)"
    "m_runningJobs m = Registered (buildName ops MetricRunningJobs)"
    "m_triggerDuration m = Registered (buildName ops MetricTriggerDurationMs)"
    "m_runDuration m = Registered (buildName ops MetricRunDurationMs)"
  using assms by (auto simp: reads_as_def)

lemma reads_cong:
  "reads_as ops ord cnt gau obs m \<Longrightarrow> cnt = cnt' \<Longrightarrow> gau = gau' \<Longrightarrow> obs = obs' \<Longrightarrow> reads_as ops ord cnt' gau' obs' m"
  by simp

lemma history_snoc:
  "series_count (H @ [c]) = (\<lambda>x l. series_count H x l + (if call_series c = Some (x, l) then 1 else 0))"
  "gauge_after (H @ [c]) = (\<lambda>x. call_gauge c x (gauge_after H x))"
  "observed_by (H @ [c]) = (\<lambda>x. observed_by H x @ call_observes c x)"
  by (simp_all add: fun_eq_iff series_count_def gauge_after_def observed_by_def)

definition plain_call :: "m_call \<Rightarrow> bool" where
  "plain_call c = (case call_series c of Some (n, ls) \<Rightarrow> plain ls | None \<Rightarrow> True)"

lemma plain_names: "call_series c = Some (n, ls) \<Longrightarrow> CHR 0x00 \<notin> set n"
  by (cases c) (auto simp: metric_names)

lemma only_counts:
  assumes "reads_as ops ord (series_count H) (gauge_after H) (observed_by H) m" "plain_opts ops" "plain_call c"
    "call_series c = Some (n, ls)" "call_gauge c = (\<lambda>x r. r)" "call_observes c = (\<lambda>x. [])"
  shows "reads_as ops ord (series_count (H @ [c])) (gauge_after (H @ [c])) (observed_by (H @ [c])) (count_one o1 n ls m)"
proof -
  have "plain (n # ls)" using assms(3,4) plain_names [OF assms(4)] by (simp add: plain_call_def)
  from count_reads [OF assms(1,2) this] show ?thesis
    by (rule reads_cong) (auto simp: history_snoc assms(4-6) fun_eq_iff)
qed

lemma counts_and_observes:
  assumes "reads_as ops ord (series_count H) (gauge_after H) (observed_by H) m" "plain_opts ops" "plain_call c"
    "call_series c = Some (n, ls)" "call_gauge c = (\<lambda>x r. r)" "call_observes c = (\<lambda>x. if x = y then [v] else [])"
    "y \<in> {MetricTriggerDurationMs, MetricRunDurationMs}"
  shows "reads_as ops ord (series_count (H @ [c])) (gauge_after (H @ [c])) (observed_by (H @ [c]))
    (observe v (Registered (buildName ops y)) (count_one o1 n ls m))"
proof -
  have "plain (n # ls)" using assms(3,4) plain_names [OF assms(4)] by (simp add: plain_call_def)
  from observe_reads [OF count_reads [OF assms(1,2) this] assms(7)] show ?thesis
    by (rule reads_cong) (auto simp: history_snoc assms(4-6) fun_eq_iff)
qed

lemma only_gauges:
  assumes "reads_as ops ord (series_count H) (gauge_after H) (observed_by H) m"
    "call_series c = None" "call_gauge c = (\<lambda>x r. if x = y then h r else r)" "call_observes c = (\<lambda>x. [])"
    "y \<in> {MetricJobActive, MetricWheelSize, MetricRunningJobs}" "\<And>z. pg_value (f z) = h (pg_value z)"
  shows "reads_as ops ord (series_count (H @ [c])) (gauge_after (H @ [c])) (observed_by (H @ [c]))
    (set_gauge f (Registered (buildName ops y)) m)"
  using gauge_reads [where h = h, OF assms(1,5,6)]
  by (rule reads_cong) (auto simp: history_snoc assms(2-4) fun_eq_iff)

lemmas gauge_ops = pg_Set_def pg_Inc_def pg_Dec_def pg_Add_def

lemma m_do_reads:
  assumes r: "reads_as ops ord (series_count H) (gauge_after H) (observed_by H) m" and ops: "plain_opts ops"
    and c: "plain_call c"
  shows "reads_as ops ord (series_count (H @ [c])) (gauge_after (H @ [c])) (observed_by (H @ [c])) (m_do o1 c m)"
proof -
  note ins = instruments [OF r]
  note cnt = only_counts [OF r ops c] and dur = counts_and_observes [OF r ops c] and gau = only_gauges [OF r]
  have keep: "m_triggerDuration (count_one o1 n ls m) = m_triggerDuration m"
    "m_runDuration (count_one o1 n ls m) = m_runDuration m" for n ls
    by (simp_all add: count_one_def case_prod_beta)
  show ?thesis
  proof (cases c)
    case (CTrigger app ty st d)
    then show ?thesis unfolding m_do.simps RecordTrigger_def Let_def CTrigger keep ins
      by (intro dur [unfolded CTrigger]) (simp_all add: fun_eq_iff)
  next
    case (CRun h st d)
    then show ?thesis unfolding m_do.simps RecordRun_def Let_def CRun keep ins
      by (intro dur [unfolded CRun]) (simp_all add: fun_eq_iff)
  next
    case (CSetActive n)
    show ?thesis unfolding m_do.simps SetActiveJobs_def CSetActive ins
      by (rule gau [where h = "\<lambda>_. real_of_int n"]) (simp_all add: fun_eq_iff gauge_ops)
  next
    case CIncActive
    show ?thesis unfolding m_do.simps IncActiveJobs_def CIncActive ins
      by (rule gau [where h = "\<lambda>r. r + 1"]) (simp_all add: fun_eq_iff gauge_ops)
  next
    case CDecActive
    show ?thesis unfolding m_do.simps DecActiveJobs_def CDecActive ins
      by (rule gau [where h = "\<lambda>r. r - 1"]) (simp_all add: fun_eq_iff gauge_ops)
  next
    case (CSetWheel n)
    show ?thesis unfolding m_do.simps SetWheelSize_def CSetWheel ins
      by (rule gau [where h = "\<lambda>_. real_of_int n"]) (simp_all add: fun_eq_iff gauge_ops)
  next
    case (CSetRunning n)
    show ?thesis unfolding m_do.simps SetRunningJobs_def CSetRunning ins
      by (rule gau [where h = "\<lambda>_. real_of_int n"]) (simp_all add: fun_eq_iff gauge_ops)
  next
    case CIncRunning
    show ?thesis unfolding m_do.simps IncRunningJobs_def CIncRunning ins
      by (rule gau [where h = "\<lambda>r. r + 1"]) (simp_all add: fun_eq_iff gauge_ops)
  next
    case CDecRunning
    show ?thesis unfolding m_do.simps DecRunningJobs_def CDecRunning ins
      by (rule gau [where h = "\<lambda>r. r - 1"]) (simp_all add: fun_eq_iff gauge_ops)
  next
    case (CRateLimited app why)
    show ?thesis unfolding m_do.simps IncRateLimited_def CRateLimited by (rule cnt [unfolded CRateLimited]) (simp_all add: fun_eq_iff)
  next
    case (CNoExecutor app)
    show ?thesis unfolding m_do.simps IncNoExecutor_def CNoExecutor by (rule cnt [unfolded CNoExecutor]) (simp_all add: fun_eq_iff)
  next
    case (CIdempotent h)
    show ?thesis unfolding m_do.simps IncIdempotentRejected_def CIdempotent by (rule cnt [unfolded CIdempotent]) (simp_all add: fun_eq_iff)
  next
    case (CAllowed k)
    show ?thesis unfolding m_do.simps IncRateLimitAllowed_def CAllowed by (rule cnt [unfolded CAllowed]) (simp_all add: fun_eq_iff)
  next
    case (CRejected k why)
    show ?thesis unfolding m_do.simps IncRateLimitRejected_def CRejected by (rule cnt [unfolded CRejected]) (simp_all add: fun_eq_iff)
  qed
qed

definition m_run :: "(string list \<times> m_call) list \<Rightarrow> Metrics \<Rightarrow> Metrics" where
  "m_run H m = fold (\<lambda>(o1, c). m_do o1 c) H m"

lemma m_run_reads:
  assumes "prom_of P = Some (newPrometheusProvider ops)" "plain_opts ops" "list_all plain_call (map snd H)"
  shows "reads_as ops ord (series_count (map snd H)) (gauge_after (map snd H)) (observed_by (map snd H))
    (m_run H (m_New ord P))"
  using assms(3)
proof (induction H rule: rev_induct)
  case Nil
  then show ?case using m_New_reads [OF assms(1)] by (simp add: m_run_def)
next
  case (snoc x H)
  obtain o1 c where x: "x = (o1, c)" by (cases x)
  then show ?case using snoc m_do_reads [OF _ assms(2), of ord "map snd H" "m_run H (m_New ord P)" c o1]
    by (simp add: m_run_def)
qed

text \<open>Property C7: after any history of calls of the facade, the registry holds the number of calls of every
  series, the three gauges and, per histogram, the observed durations; no two series and no two gauges are
  mixed up, provided no name or label value holds a NUL byte.\<close>

theorem facade_refines:
  assumes "prom_of P = Some (newPrometheusProvider ops)" "plain_opts ops" "list_all plain_call (map snd H)"
  shows "reads_as ops ord (series_count (map snd H)) (gauge_after (map snd H)) (observed_by (map snd H))
    (m_run H (m_New ord P))"
  by (rule m_run_reads [OF assms])

definition demo_ops :: ProviderOptions where
  "demo_ops = defaultProviderOptions\<lparr>po_PushURL := ''http://vm''\<rparr>"

lemma facade_refines_witness:
  "reads_as demo_ops (\<lambda>_. []) (series_count [CRun ''h'' ''fail'' 7000000, CIncRunning])
     (gauge_after [CRun ''h'' ''fail'' 7000000, CIncRunning]) (observed_by [CRun ''h'' ''fail'' 7000000, CIncRunning])
     (m_run [([], CRun ''h'' ''fail'' 7000000), ([], CIncRunning)]
       (m_New (\<lambda>_. []) (VMProvider (newVictoriaMetricsProvider demo_ops)))) \<and>
   series_count [CRun ''h'' ''fail'' 7000000, CIncRunning] MetricRunTotal [''handler'', ''h'', ''status'', ''fail''] = 1 \<and>
   gauge_after [CRun ''h'' ''fail'' 7000000, CIncRunning] MetricRunningJobs = 1"
  using facade_refines [of "VMProvider (newVictoriaMetricsProvider demo_ops)" demo_ops
      "[([], CRun ''h'' ''fail'' 7000000), ([], CIncRunning)]" "\<lambda>_. []"]
  by (simp add: prom_of_def newVictoriaMetricsProvider_def plain_opts_def demo_ops_def defaultProviderOptions_def
      plain_call_def series_count_def gauge_after_def)

section \<open>The last push\<close>

text \<open>After the cancellation only a request that was sent before it can still get anywhere.\<close>

definition after_cancel :: "VM \<Rightarrow> VM \<Rightarrow> bool" where
  "after_cancel v v' \<longleftrightarrow> vm_cancelled v' \<and> push_url v' = push_url v \<and>
     (case vm_push v of
        Flying body arrived \<Rightarrow>
          vm_push v' = Flying body arrived \<and> vm_received v' = vm_received v \<and> vm_pushSuccessTotal v' = vm_pushSuccessTotal v \<or>
          \<not> arrived \<and> vm_push v' = Flying body True \<and> vm_received v' = vm_received v @ [(push_url v, body)] \<and>
            vm_pushSuccessTotal v' = vm_pushSuccessTotal v \<or>
          (\<forall>b x. vm_push v' \<noteq> Flying b x) \<and>
            (vm_received v' = vm_received v \<or> \<not> arrived \<and> vm_received v' = vm_received v @ [(push_url v, body)]) \<and>
            (vm_pushSuccessTotal v' = vm_pushSuccessTotal v \<or> vm_pushSuccessTotal v' = i64 (vm_pushSuccessTotal v + 1))
      | _ \<Rightarrow> (\<forall>b x. vm_push v' \<noteq> Flying b x) \<and> vm_received v' = vm_received v \<and>
          vm_pushSuccessTotal v' = vm_pushSuccessTotal v)"

lemma push_url_frame [simp]: "push_url (v\<lparr>vm_inner := p\<rparr>) = push_url v" "push_url (vm_cancel v) = push_url v"
  by (simp_all add: push_url_def vm_cancel_def)

lemma vm_cancel_frame [simp]:
  "vm_received (vm_cancel v) = vm_received v" "vm_pushSuccessTotal (vm_cancel v) = vm_pushSuccessTotal v"
  "vm_push (vm_cancel v) = vm_push v" "vm_cancelled (vm_cancel v)"
  by (simp_all add: vm_cancel_def)

lemma push_url_simps [simp]:
  "push_url (push_begin l b v) = push_url v" "push_url (push_end r v) = push_url v" "push_url (push_send b v) = push_url v"
  by (simp_all add: push_url_def push_begin_def push_end_def push_send_def Let_def split: option.split)

lemma push_parts:
  "vm_received (push_begin l b v) = vm_received v" "vm_pushSuccessTotal (push_begin l b v) = vm_pushSuccessTotal v"
  "vm_cancelled (push_begin l b v) = vm_cancelled v" "vm_push (push_begin l b v) = (if b = [] then vm_push v else Ready b)"
  "vm_received (push_end r v) = vm_received v" "vm_cancelled (push_end r v) = vm_cancelled v" "vm_push (push_end r v) = NoPush"
  "vm_pushSuccessTotal (push_end None v) = vm_pushSuccessTotal v"
  "vm_pushSuccessTotal (push_end (Some st) v) = (if st \<ge> 400 then vm_pushSuccessTotal v else i64 (vm_pushSuccessTotal v + 1))"
  "vm_cancelled v \<Longrightarrow> push_send b v = push_end None v"
  by (simp_all add: push_begin_def push_end_def push_send_def Let_def split: option.split)

lemma after_cancel_step:
  assumes "push_step g17 g v1 v2" "after_cancel v v1"
  shows "after_cancel v v2"
  using assms
proof (cases rule: push_step.cases)
  case (ps_record p)
  then show ?thesis using assms(2) by (auto simp: after_cancel_def split: push.splits)
next
  case ps_cancel
  then show ?thesis using assms(2) by (auto simp: after_cancel_def split: push.splits)
next
  case (ps_arrive body)
  have "push_url v2 = push_url v1" by (simp add: ps_arrive(1) push_url_def)
  then show ?thesis using assms(2) ps_arrive by (auto simp: after_cancel_def split: push.splits)
next
  case (ps_tick body)
  then show ?thesis using assms(2) by (cases "vm_push v") (auto simp: after_cancel_def push_parts)
next
  case (ps_done body)
  then show ?thesis using assms(2) by (cases "vm_push v") (auto simp: after_cancel_def push_parts)
next
  case (ps_send body)
  then show ?thesis using assms(2) by (cases "vm_push v") (auto simp: after_cancel_def push_parts)
next
  case (ps_unsent body)
  then show ?thesis using assms(2) by (cases "vm_push v") (auto simp: after_cancel_def push_parts)
next
  case (ps_answer body status)
  then show ?thesis using assms(2) by (cases "vm_push v") (auto simp: after_cancel_def push_parts)
next
  case (ps_error body arrived)
  then show ?thesis using assms(2) by (cases "vm_push v") (auto simp: after_cancel_def push_parts)
qed

lemma after_cancel_run: "(push_step g17 g)\<^sup>*\<^sup>* (vm_cancel v) v' \<Longrightarrow> after_cancel v v'"
proof (induction rule: rtranclp_induct)
  case base
  show ?case by (cases "vm_push v") (simp_all add: after_cancel_def)
next
  case (step v1 v2)
  then show ?case using after_cancel_step by blast
qed

text \<open>Property C39: the flush that \<open>Stop\<close> waits for never leaves the process. The loop makes its last push with the
  context that \<open>Stop\<close> has just cancelled, so no push whose request was not sent before the cancellation reaches the
  endpoint or counts as a success, whatever the network does; all that can still arrive and count is the one
  request that was on its way.\<close>

theorem final_push_lost:
  assumes "(push_step g17 g)\<^sup>*\<^sup>* (vm_cancel v) v'"
  shows "case vm_push v of
      Flying body arrived \<Rightarrow>
        (vm_received v' = vm_received v \<or> \<not> arrived \<and> vm_received v' = vm_received v @ [(push_url v, body)]) \<and>
        (vm_pushSuccessTotal v' = vm_pushSuccessTotal v \<or> vm_pushSuccessTotal v' = i64 (vm_pushSuccessTotal v + 1))
    | _ \<Rightarrow> vm_received v' = vm_received v \<and> vm_pushSuccessTotal v' = vm_pushSuccessTotal v"
  using after_cancel_run [OF assms] by (auto simp: after_cancel_def split: push.splits)

definition demo_vm :: VM where
  "demo_vm = (newVictoriaMetricsProvider demo_ops)\<lparr>vm_inner := (newPrometheusProvider demo_ops)\<lparr>pm_counters :=
    [''hits'' \<mapsto> \<lparr>pc_name = ''hits'', pc_labels = [], pc_value = 1\<rparr>]\<rparr>\<rparr>"

lemma final_push_lost_witness:
  "\<exists>v'. (push_step (\<lambda>_. ''1'') (\<lambda>_. ''1''))\<^sup>*\<^sup>* (vm_cancel demo_vm) v' \<and> \<not> vm_loop v' \<and> vm_pushFailTotal v' = 1 \<and>
     vm_received v' = []"
proof -
  let ?step = "push_step (\<lambda>_. ''1'') (\<lambda>_. ''1'')" and ?v = "vm_cancel demo_vm"
  let ?body = "pm_text (\<lambda>_. ''1'') (\<lambda>_. ''1'') [''hits''] [] [] (vm_inner demo_vm)"
  let ?v1 = "push_begin True ?body ?v"
  let ?v' = "push_send ?body ?v1"
  have v: "vm_loop ?v" "vm_cancelled ?v" "vm_inner ?v = vm_inner demo_vm" "vm_push ?v = NoPush"
    by (simp_all add: demo_vm_def vm_cancel_def newVictoriaMetricsProvider_def demo_ops_def)
  have ne: "?body \<noteq> []" by (simp add: pm_text_def demo_vm_def pc_writeTo_def type_line_def)
  have "serialized (\<lambda>_. ''1'') (\<lambda>_. ''1'') (vm_inner demo_vm) ?body"
    unfolding serialized_def by (intro exI conjI refl) (simp_all add: iter_order_def demo_vm_def newPrometheusProvider_def)
  then have "?step ?v ?v1" using v by (intro ps_done) simp_all
  moreover have "?step ?v1 ?v'" using ne by (intro ps_send) (simp add: push_parts)
  ultimately have step: "?step\<^sup>*\<^sup>* ?v ?v'" by simp
  have stop: "?v' = push_end None ?v1" using v(2) by (simp add: push_parts)
  have "vm_pushFailTotal ?v' = 1" "\<not> vm_loop ?v'"
    unfolding stop using ne by (simp_all add: push_end_def push_begin_def vm_cancel_def demo_vm_def newVictoriaMetricsProvider_def
        i64_def Let_def)
  moreover have "vm_push demo_vm = NoPush" "vm_received demo_vm = []"
    by (simp_all add: demo_vm_def newVictoriaMetricsProvider_def)
  ultimately show ?thesis using final_push_lost [OF step] step by (intro exI [of _ ?v']) simp
qed

end
