(* ===== verification/Metrics_Observer.thy ===== *)
theory Metrics_Observer
  imports Facade_Props
begin

text \<open>
  \<open>pkg/metrics/observable.go\<close>: the two observers, each with its channels and its goroutines. A goroutine
  reads the field \<open>stopCh\<close> each time it enters its \<open>select\<close>, so a waiting goroutine carries the channel it
  has read: channels are numbered in the order of their creation, \<open>0\<close> is the nil channel. \<open>ob_accepted\<close>
  lists what \<open>NotifyTrigger\<close> has put on the channel, \<open>ob_waiting\<close> counts the callers of \<open>Stop\<close> that wait
  for the goroutines. Channels of capacity zero are left out.
\<close>

section \<open>The scheduler's observer\<close>

record SchedulerStats =
  sst_JobCount :: int
  sst_WheelSize :: int
  sst_WheelOverflow :: int

record TriggerEvent =
  te_App :: string
  te_JobID :: int
  te_TriggerType :: string
  te_Status :: string
  te_Duration :: duration

record rateLimitEvt =
  re_App :: string
  re_Reason :: string

datatype event_loop = EvSelect nat | EvTrigger TriggerEvent | EvRate rateLimitEvt | EvDrain | EvEnded

datatype collect_loop = CoSelect nat | CoTick | CoEnded

record SObserver =
  ob_metrics :: Metrics
  ob_collectInterval :: duration
  ob_triggerChanSize :: int
  ob_triggerCh :: "TriggerEvent list"
  ob_rateLimitedCh :: "rateLimitEvt list"
  ob_running :: bool
  ob_stopCh :: nat
  ob_closed :: "nat set"
  ob_wg :: nat
  ob_collect :: "collect_loop list"
  ob_events :: "event_loop list"
  ob_waiting :: nat
  ob_accepted :: "TriggerEvent list"

definition ob_WithCollectInterval :: "duration \<Rightarrow> SObserver \<Rightarrow> SObserver" where
  "ob_WithCollectInterval d s = s\<lparr>ob_collectInterval := d\<rparr>"

definition ob_WithTriggerChanSize :: "int \<Rightarrow> SObserver \<Rightarrow> SObserver" where
  "ob_WithTriggerChanSize n s = s\<lparr>ob_triggerChanSize := n\<rparr>"

text \<open>\<open>make\<close> panics on a negative size (\<open>None\<close>).\<close>

definition NewSchedulerObserver :: "Metrics \<Rightarrow> (SObserver \<Rightarrow> SObserver) list \<Rightarrow> SObserver option" where
  "NewSchedulerObserver m opts =
     (let s = foldl (\<lambda>s opt. opt s)
            \<lparr>ob_metrics = m, ob_collectInterval = 10 * second, ob_triggerChanSize = 2048, ob_triggerCh = [],
             ob_rateLimitedCh = [], ob_running = False, ob_stopCh = 0, ob_closed = {}, ob_wg = 0,
             ob_collect = [], ob_events = [], ob_waiting = 0, ob_accepted = []\<rparr> opts
      in if ob_triggerChanSize s < 0 then None else Some s)"

text \<open>A goroutine of \<open>collectLoop\<close> panics when the interval is not positive: the process ends.\<close>

definition ob_Start :: "SObserver \<Rightarrow> SObserver option" where
  "ob_Start s =
     (if ob_running s then Some s
      else if ob_collectInterval s \<le> 0 then None
      else let ch = Suc (ob_stopCh s)
           in Some (s\<lparr>ob_running := True, ob_stopCh := ch, ob_wg := ob_wg s + 2,
                      ob_collect := ob_collect s @ [CoSelect ch], ob_events := ob_events s @ [EvSelect ch]\<rparr>))"

text \<open>\<open>Stop\<close> up to the unlock; then it waits for the group to be empty.\<close>

definition ob_Stop :: "SObserver \<Rightarrow> SObserver" where
  "ob_Stop s =
     (if \<not> ob_running s then s
      else s\<lparr>ob_closed := insert (ob_stopCh s) (ob_closed s), ob_running := False, ob_waiting := Suc (ob_waiting s)\<rparr>)"

definition NotifyTrigger :: "TriggerEvent \<Rightarrow> SObserver \<Rightarrow> SObserver" where
  "NotifyTrigger ev s =
     (if int (length (ob_triggerCh s)) < ob_triggerChanSize s
      then s\<lparr>ob_triggerCh := ob_triggerCh s @ [ev], ob_accepted := ob_accepted s @ [ev]\<rparr> else s)"

definition rateLimitedCap :: nat where "rateLimitedCap = 512"

definition NotifyRateLimited :: "string \<Rightarrow> string \<Rightarrow> SObserver \<Rightarrow> SObserver" where
  "NotifyRateLimited app reason s =
     (if length (ob_rateLimitedCh s) < rateLimitedCap
      then s\<lparr>ob_rateLimitedCh := ob_rateLimitedCh s @ [\<lparr>re_App = app, re_Reason = reason\<rparr>]\<rparr> else s)"

definition collect_gauges :: "SchedulerStats \<Rightarrow> Metrics \<Rightarrow> Metrics" where
  "collect_gauges stats m =
     SetWheelSize (sst_WheelSize stats + sst_WheelOverflow stats) (SetActiveJobs (sst_JobCount stats) m)"

definition record_trigger :: "string list \<Rightarrow> TriggerEvent \<Rightarrow> SObserver \<Rightarrow> SObserver" where
  "record_trigger ord ev s =
     s\<lparr>ob_metrics := RecordTrigger ord (te_App ev) (te_TriggerType ev) (te_Status ev) (te_Duration ev) (ob_metrics s)\<rparr>"

definition record_rate :: "string list \<Rightarrow> rateLimitEvt \<Rightarrow> SObserver \<Rightarrow> SObserver" where
  "record_rate ord ev s = s\<lparr>ob_metrics := IncRateLimited ord (re_App ev) (re_Reason ev) (ob_metrics s)\<rparr>"

definition goto_event :: "nat \<Rightarrow> event_loop \<Rightarrow> SObserver \<Rightarrow> SObserver" where
  "goto_event i pc s = s\<lparr>ob_events := (ob_events s)[i := pc]\<rparr>"

definition goto_collect :: "nat \<Rightarrow> collect_loop \<Rightarrow> SObserver \<Rightarrow> SObserver" where
  "goto_collect i pc s = s\<lparr>ob_collect := (ob_collect s)[i := pc]\<rparr>"

section \<open>Interleaving\<close>

text \<open>Strings with NUL bytes, which the registry's keys cannot tell apart, are left out. The facade is used
  elsewhere too, but only the observer records triggers.\<close>

datatype ob_act = AStart | AStop | AStopReturns | ANotify | ALoop

inductive ob_step :: "ob_act \<Rightarrow> SObserver \<Rightarrow> SObserver \<Rightarrow> bool" where
  os_start: "ob_Start s = Some s' \<Longrightarrow> ob_step AStart s s'"
| os_stop: "ob_step AStop s (ob_Stop s)"
| os_stopped: "0 < ob_waiting s \<Longrightarrow> ob_wg s = 0 \<Longrightarrow> ob_step AStopReturns s (s\<lparr>ob_waiting := ob_waiting s - 1\<rparr>)"
| os_trigger: "plain [te_App ev, te_TriggerType ev, te_Status ev] \<Longrightarrow> ob_step ANotify s (NotifyTrigger ev s)"
| os_limited: "plain [app, reason] \<Longrightarrow> ob_step ANotify s (NotifyRateLimited app reason s)"
| os_elsewhere: "plain_call c \<Longrightarrow> (\<And>a t st d. c \<noteq> CTrigger a t st d) \<Longrightarrow>
    ob_step ANotify s (s\<lparr>ob_metrics := m_do ord c (ob_metrics s)\<rparr>)"
| os_tick: "i < length (ob_collect s) \<Longrightarrow> ob_collect s ! i = CoSelect g \<Longrightarrow> ob_step ALoop s (goto_collect i CoTick s)"
| os_collect: "i < length (ob_collect s) \<Longrightarrow> ob_collect s ! i = CoTick \<Longrightarrow> ob_step ALoop s
    (goto_collect i (CoSelect (ob_stopCh s)) (s\<lparr>ob_metrics := collect_gauges stats (ob_metrics s)\<rparr>))"
| os_collect_end: "i < length (ob_collect s) \<Longrightarrow> ob_collect s ! i = CoSelect g \<Longrightarrow> g \<in> ob_closed s \<Longrightarrow>
    ob_step ALoop s (goto_collect i CoEnded (s\<lparr>ob_wg := ob_wg s - 1\<rparr>))"
| os_take: "i < length (ob_events s) \<Longrightarrow> ob_events s ! i = EvSelect g \<Longrightarrow> ob_triggerCh s = ev # evs \<Longrightarrow>
    ob_step ALoop s (goto_event i (EvTrigger ev) (s\<lparr>ob_triggerCh := evs\<rparr>))"
| os_take_rate: "i < length (ob_events s) \<Longrightarrow> ob_events s ! i = EvSelect g \<Longrightarrow> ob_rateLimitedCh s = re # res \<Longrightarrow>
    ob_step ALoop s (goto_event i (EvRate re) (s\<lparr>ob_rateLimitedCh := res\<rparr>))"
| os_record: "i < length (ob_events s) \<Longrightarrow> ob_events s ! i = EvTrigger ev \<Longrightarrow>
    ob_step ALoop s (goto_event i (EvSelect (ob_stopCh s)) (record_trigger ord ev s))"
| os_record_rate: "i < length (ob_events s) \<Longrightarrow> ob_events s ! i = EvRate re \<Longrightarrow>
    ob_step ALoop s (goto_event i (EvSelect (ob_stopCh s)) (record_rate ord re s))"
| os_see_stop: "i < length (ob_events s) \<Longrightarrow> ob_events s ! i = EvSelect g \<Longrightarrow> g \<in> ob_closed s \<Longrightarrow>
    ob_step ALoop s (goto_event i EvDrain s)"
| os_drain: "i < length (ob_events s) \<Longrightarrow> ob_events s ! i = EvDrain \<Longrightarrow> ob_triggerCh s = ev # evs \<Longrightarrow>
    ob_step ALoop s (record_trigger ord ev (s\<lparr>ob_triggerCh := evs\<rparr>))"
| os_drain_rate: "i < length (ob_events s) \<Longrightarrow> ob_events s ! i = EvDrain \<Longrightarrow> ob_rateLimitedCh s = re # res \<Longrightarrow>
    ob_step ALoop s (record_rate ord re (s\<lparr>ob_rateLimitedCh := res\<rparr>))"
| os_event_end: "i < length (ob_events s) \<Longrightarrow> ob_events s ! i = EvDrain \<Longrightarrow> ob_triggerCh s = [] \<Longrightarrow>
    ob_rateLimitedCh s = [] \<Longrightarrow> ob_step ALoop s (goto_event i EvEnded (s\<lparr>ob_wg := ob_wg s - 1\<rparr>))"

inductive ob_run :: "ob_act list \<Rightarrow> SObserver \<Rightarrow> SObserver \<Rightarrow> bool" where
  ob_none: "ob_run [] s s"
| ob_more: "ob_run acts s s1 \<Longrightarrow> ob_step a s1 s2 \<Longrightarrow> ob_run (acts @ [a]) s s2"

inductive_cases ob_runE: "ob_run acts s s'"

section \<open>The executor's observer\<close>

record RunEvent =
  rn_Handler :: string
  rn_Status :: string
  rn_Duration :: duration

datatype run_loop = RuSelect nat | RuEvent RunEvent | RuDrain | RuEnded

record EObserver =
  eo_metrics :: Metrics
  eo_eventCh :: "RunEvent list"
  eo_running :: bool
  eo_stopCh :: nat
  eo_closed :: "nat set"
  eo_wg :: nat
  eo_loops :: "run_loop list"

definition eventChCap :: nat where "eventChCap = 4096"

definition NewExecutorObserver :: "Metrics \<Rightarrow> EObserver" where
  "NewExecutorObserver m = \<lparr>eo_metrics = m, eo_eventCh = [], eo_running = False, eo_stopCh = 1, eo_closed = {},
     eo_wg = 0, eo_loops = []\<rparr>"

definition eo_Start :: "EObserver \<Rightarrow> EObserver" where
  "eo_Start s =
     (if eo_running s then s
      else let ch = Suc (eo_stopCh s)
           in s\<lparr>eo_running := True, eo_stopCh := ch, eo_wg := eo_wg s + 1, eo_loops := eo_loops s @ [RuSelect ch]\<rparr>)"

definition eo_Stop :: "EObserver \<Rightarrow> EObserver" where
  "eo_Stop s =
     (if \<not> eo_running s then s else s\<lparr>eo_closed := insert (eo_stopCh s) (eo_closed s), eo_running := False\<rparr>)"

definition NotifyRunStart :: "EObserver \<Rightarrow> EObserver" where
  "NotifyRunStart s = s\<lparr>eo_metrics := IncRunningJobs (eo_metrics s)\<rparr>"

definition NotifyRunFinish :: "RunEvent \<Rightarrow> EObserver \<Rightarrow> EObserver" where
  "NotifyRunFinish ev s =
     (let s1 = s\<lparr>eo_metrics := DecRunningJobs (eo_metrics s)\<rparr>
      in if length (eo_eventCh s1) < eventChCap then s1\<lparr>eo_eventCh := eo_eventCh s1 @ [ev]\<rparr> else s1)"

definition NotifyIdempotentRejected :: "string list \<Rightarrow> string \<Rightarrow> EObserver \<Rightarrow> EObserver" where
  "NotifyIdempotentRejected ord handler s = s\<lparr>eo_metrics := IncIdempotentRejected ord handler (eo_metrics s)\<rparr>"

definition record_run :: "string list \<Rightarrow> RunEvent \<Rightarrow> EObserver \<Rightarrow> EObserver" where
  "record_run ord ev s = s\<lparr>eo_metrics := RecordRun ord (rn_Handler ev) (rn_Status ev) (rn_Duration ev) (eo_metrics s)\<rparr>"

definition goto_run :: "nat \<Rightarrow> run_loop \<Rightarrow> EObserver \<Rightarrow> EObserver" where
  "goto_run i pc s = s\<lparr>eo_loops := (eo_loops s)[i := pc]\<rparr>"

inductive eo_step :: "EObserver \<Rightarrow> EObserver \<Rightarrow> bool" where
  er_start: "eo_step s (eo_Start s)"
| er_stop: "eo_step s (eo_Stop s)"
| er_run_start: "eo_step s (NotifyRunStart s)"
| er_run_finish: "eo_step s (NotifyRunFinish ev s)"
| er_rejected: "eo_step s (NotifyIdempotentRejected ord handler s)"
| er_take: "i < length (eo_loops s) \<Longrightarrow> eo_loops s ! i = RuSelect g \<Longrightarrow> eo_eventCh s = ev # evs \<Longrightarrow>
    eo_step s (goto_run i (RuEvent ev) (s\<lparr>eo_eventCh := evs\<rparr>))"
| er_record: "i < length (eo_loops s) \<Longrightarrow> eo_loops s ! i = RuEvent ev \<Longrightarrow>
    eo_step s (goto_run i (RuSelect (eo_stopCh s)) (record_run ord ev s))"
| er_see_stop: "i < length (eo_loops s) \<Longrightarrow> eo_loops s ! i = RuSelect g \<Longrightarrow> g \<in> eo_closed s \<Longrightarrow>
    eo_step s (goto_run i RuDrain s)"
| er_drain: "i < length (eo_loops s) \<Longrightarrow> eo_loops s ! i = RuDrain \<Longrightarrow> eo_eventCh s = ev # evs \<Longrightarrow>
    eo_step s (record_run ord ev (s\<lparr>eo_eventCh := evs\<rparr>))"
| er_end: "i < length (eo_loops s) \<Longrightarrow> eo_loops s ! i = RuDrain \<Longrightarrow> eo_eventCh s = [] \<Longrightarrow>
    eo_step s (goto_run i RuEnded (s\<lparr>eo_wg := eo_wg s - 1\<rparr>))"

definition FormatJobID :: "int \<Rightarrow> string" where
  "FormatJobID i = itoa i"

end
