(* ===== verification/Observer_Props.thy ===== *)
theory Observer_Props
  imports Metrics_Observer
begin

text \<open>
  No accepted trigger event is lost or counted twice by the observer, however its goroutines, its callers and
  several rounds of \<open>Start\<close> and \<open>Stop\<close> interleave; and a \<open>Stop\<close> that a \<open>Start\<close> overtakes waits for ever.
\<close>

section \<open>Conservation of events\<close>

fun busy :: "event_loop \<Rightarrow> TriggerEvent list" where
  "busy (EvTrigger ev) = [ev]"
| "busy _ = []"

fun busy_rate :: "event_loop \<Rightarrow> rateLimitEvt list" where
  "busy_rate (EvRate re) = [re]"
| "busy_rate _ = []"

definition in_flight :: "SObserver \<Rightarrow> TriggerEvent multiset" where
  "in_flight s = mset (ob_triggerCh s) + mset (concat (map busy (ob_events s)))"

definition te_call :: "TriggerEvent \<Rightarrow> m_call" where
  "te_call ev = CTrigger (te_App ev) (te_TriggerType ev) (te_Status ev) (te_Duration ev)"

fun is_trigger :: "m_call \<Rightarrow> bool" where
  "is_trigger (CTrigger a t st d) = True"
| "is_trigger _ = False"

lemma te_call_trigger [simp]: "is_trigger (te_call ev)"
  by (simp add: te_call_def)

definition plain_event :: "TriggerEvent \<Rightarrow> bool" where
  "plain_event ev \<longleftrightarrow> plain [te_App ev, te_TriggerType ev, te_Status ev]"

definition plain_rate :: "rateLimitEvt \<Rightarrow> bool" where
  "plain_rate re \<longleftrightarrow> plain [re_App re, re_Reason re]"

definition rates :: "SObserver \<Rightarrow> rateLimitEvt set" where
  "rates s = set (ob_rateLimitedCh s) \<union> set (concat (map busy_rate (ob_events s)))"

definition ob_inv :: "Metrics \<Rightarrow> SObserver \<Rightarrow> bool" where
  "ob_inv m0 s \<longleftrightarrow> (\<exists>H R. ob_metrics s = m_run H m0 \<and> list_all plain_call (map snd H) \<and>
     filter_mset is_trigger (mset (map snd H)) = image_mset te_call R \<and>
     mset (ob_accepted s) = R + in_flight s \<and> (\<forall>ev\<in>#in_flight s. plain_event ev) \<and> (\<forall>re\<in>rates s. plain_rate re))"

lemma concat_update:
  assumes "i < length xs"
  shows "mset (concat (map f (xs[i := x]))) + mset (f (xs ! i)) = mset (concat (map f xs)) + mset (f x)"
proof -
  have "xs = take i xs @ xs ! i # drop (Suc i) xs" using assms by (simp add: id_take_nth_drop)
  then have "mset (concat (map f xs)) = mset (concat (map f (take i xs))) + mset (f (xs ! i)) + mset (concat (map f (drop (Suc i) xs)))"
    by (metis concat.simps(2) concat_append list.map(2) map_append mset_append union_assoc)
  then show ?thesis using assms by (simp add: upd_conv_take_nth_drop)
qed

lemma m_run_snoc: "m_do o1 c (m_run H m) = m_run (H @ [(o1, c)]) m"
  by (simp add: m_run_def)

lemma inv_idle:
  assumes "ob_inv m0 s" "ob_metrics s' = ob_metrics s" "ob_accepted s' = ob_accepted s" "in_flight s' = in_flight s"
    "rates s' \<subseteq> rates s"
  shows "ob_inv m0 s'"
  using assms unfolding ob_inv_def by (metis subsetD)

lemma inv_call:
  assumes "ob_inv m0 s" "ob_metrics s' = m_do o1 c (ob_metrics s)" "plain_call c" "\<not> is_trigger c"
    "ob_accepted s' = ob_accepted s" "in_flight s' = in_flight s" "rates s' \<subseteq> rates s"
  shows "ob_inv m0 s'"
proof -
  from assms(1) obtain H R where r: "ob_metrics s = m_run H m0" "list_all plain_call (map snd H)"
     "filter_mset is_trigger (mset (map snd H)) = image_mset te_call R"
     "mset (ob_accepted s) = R + in_flight s" "\<forall>ev\<in>#in_flight s. plain_event ev" "\<forall>re\<in>rates s. plain_rate re"
    unfolding ob_inv_def by auto
  show ?thesis unfolding ob_inv_def
    by (rule exI [of _ "H @ [(o1, c)]"], rule exI [of _ R]) (use assms r in \<open>auto simp: m_run_snoc\<close>)
qed

lemma inv_record:
  assumes "ob_inv m0 s" "ob_metrics s' = m_do o1 (te_call ev) (ob_metrics s)" "ob_accepted s' = ob_accepted s"
    "in_flight s = in_flight s' + {#ev#}" "rates s' \<subseteq> rates s"
  shows "ob_inv m0 s'"
proof -
  from assms(1) obtain H R where r: "ob_metrics s = m_run H m0" "list_all plain_call (map snd H)"
     "filter_mset is_trigger (mset (map snd H)) = image_mset te_call R"
     "mset (ob_accepted s) = R + in_flight s" "\<forall>ev\<in>#in_flight s. plain_event ev" "\<forall>re\<in>rates s. plain_rate re"
    unfolding ob_inv_def by auto
  have "plain_call (te_call ev)" using r(5) assms(4) by (simp add: te_call_def plain_call_def plain_event_def)
  moreover have "ob_metrics s' = m_run (H @ [(o1, te_call ev)]) m0" using assms(2) r(1) by (simp only: m_run_snoc)
  ultimately show ?thesis unfolding ob_inv_def
    by (intro exI [of _ "H @ [(o1, te_call ev)]"] exI [of _ "R + {#ev#}"]) (use assms r in auto)
qed

lemma goto_event_simps [simp]:
  "ob_metrics (goto_event i pc s) = ob_metrics s" "ob_accepted (goto_event i pc s) = ob_accepted s"
  "ob_triggerCh (goto_event i pc s) = ob_triggerCh s" "ob_rateLimitedCh (goto_event i pc s) = ob_rateLimitedCh s"
  "ob_events (goto_event i pc s) = (ob_events s)[i := pc]" "ob_stopCh (goto_event i pc s) = ob_stopCh s"
  "ob_closed (goto_event i pc s) = ob_closed s" "ob_wg (goto_event i pc s) = ob_wg s"
  "ob_waiting (goto_event i pc s) = ob_waiting s" "ob_running (goto_event i pc s) = ob_running s"
  by (simp_all add: goto_event_def)

lemma goto_collect_simps [simp]:
  "ob_metrics (goto_collect i pc s) = ob_metrics s" "ob_accepted (goto_collect i pc s) = ob_accepted s"
  "ob_triggerCh (goto_collect i pc s) = ob_triggerCh s" "ob_rateLimitedCh (goto_collect i pc s) = ob_rateLimitedCh s"
  "ob_events (goto_collect i pc s) = ob_events s" "ob_stopCh (goto_collect i pc s) = ob_stopCh s"
  "ob_closed (goto_collect i pc s) = ob_closed s" "ob_wg (goto_collect i pc s) = ob_wg s"
  "ob_waiting (goto_collect i pc s) = ob_waiting s" "ob_running (goto_collect i pc s) = ob_running s"
  by (simp_all add: goto_collect_def)

lemma in_flight_goto:
  assumes "i < length (ob_events s)"
  shows "in_flight (goto_event i pc s) + mset (busy (ob_events s ! i)) = in_flight s + mset (busy pc)"
  using concat_update [OF assms, of busy pc] by (simp add: in_flight_def union_assoc)

lemma rates_goto:
  assumes "i < length (ob_events s)"
  shows "rates (goto_event i pc s) \<subseteq> rates s \<union> set (busy_rate pc)"
  using set_update_subset_insert [of "ob_events s" i pc] by (auto simp: rates_def)

lemma collect_gauges_calls:
  "collect_gauges stats m = m_do [] (CSetWheel (sst_WheelSize stats + sst_WheelOverflow stats))
     (m_do [] (CSetActive (sst_JobCount stats)) m)"
  by (simp add: collect_gauges_def)

lemma record_simps [simp]:
  "ob_accepted (record_trigger ord ev s) = ob_accepted s" "ob_events (record_trigger ord ev s) = ob_events s"
  "ob_triggerCh (record_trigger ord ev s) = ob_triggerCh s" "ob_rateLimitedCh (record_trigger ord ev s) = ob_rateLimitedCh s"
  "ob_metrics (record_trigger ord ev s) = m_do ord (te_call ev) (ob_metrics s)"
  "in_flight (record_trigger ord ev s) = in_flight s" "rates (record_trigger ord ev s) = rates s"
  "ob_accepted (record_rate ord re s) = ob_accepted s" "ob_events (record_rate ord re s) = ob_events s"
  "ob_triggerCh (record_rate ord re s) = ob_triggerCh s" "ob_rateLimitedCh (record_rate ord re s) = ob_rateLimitedCh s"
  "ob_metrics (record_rate ord re s) = m_do ord (CRateLimited (re_App re) (re_Reason re)) (ob_metrics s)"
  "in_flight (record_rate ord re s) = in_flight s" "rates (record_rate ord re s) = rates s"
  by (simp_all add: record_trigger_def record_rate_def te_call_def in_flight_def rates_def)

lemma plain_rate_call: "plain_call (CRateLimited (re_App re) (re_Reason re)) \<longleftrightarrow> plain_rate re"
  by (simp add: plain_call_def plain_rate_def)

lemma inv_plain_rate: "ob_inv m0 s \<Longrightarrow> re \<in> rates s \<Longrightarrow> plain_rate re"
  by (auto simp: ob_inv_def)

lemma busy_in_rates: "i < length (ob_events s) \<Longrightarrow> re \<in> set (busy_rate (ob_events s ! i)) \<Longrightarrow> re \<in> rates s"
  by (force simp: rates_def)

lemma in_flight_stay:
  "i < length (ob_events s) \<Longrightarrow> busy (ob_events s ! i) = busy pc \<Longrightarrow> in_flight (goto_event i pc s) = in_flight s"
  using in_flight_goto [of i s pc] by simp

lemma inv_goto:
  assumes "ob_inv m0 s" "i < length (ob_events s)" "busy (ob_events s ! i) = []" "busy pc = []" "busy_rate pc = []"
  shows "ob_inv m0 (goto_event i pc s)"
  by (rule inv_idle [OF assms(1)]) (use assms rates_goto [of i s pc] in \<open>simp_all add: in_flight_stay\<close>)

lemma ob_step_inv:
  assumes "ob_step a s s'" "ob_inv m0 s"
  shows "ob_inv m0 s'"
  using assms(1)
proof (cases rule: ob_step.cases)
  case os_start
  then show ?thesis
    by (intro inv_idle [OF assms(2)]) (auto simp: ob_Start_def Let_def in_flight_def rates_def split: if_splits)
next
  case (os_trigger ev)
  from assms(2) obtain H R where r: "ob_metrics s = m_run H m0" "list_all plain_call (map snd H)"
     "filter_mset is_trigger (mset (map snd H)) = image_mset te_call R"
     "mset (ob_accepted s) = R + in_flight s" "\<forall>ev\<in>#in_flight s. plain_event ev" "\<forall>re\<in>rates s. plain_rate re"
    unfolding ob_inv_def by auto
  show ?thesis unfolding ob_inv_def
    by (rule exI [of _ H], rule exI [of _ R])
      (use r os_trigger in \<open>auto simp: NotifyTrigger_def in_flight_def rates_def plain_event_def\<close>)
next
  case (os_limited app reason)
  then show ?thesis
    using assms(2) unfolding ob_inv_def
    by (auto simp: NotifyRateLimited_def in_flight_def rates_def plain_rate_def)
next
  case (os_elsewhere c ord)
  then have "\<not> is_trigger c" by (cases c) auto
  with os_elsewhere show ?thesis by (intro inv_call [OF assms(2)]) (simp_all add: in_flight_def rates_def)
next
  case (os_collect i stats)
  let ?act = "CSetActive (sst_JobCount stats)" and ?wheel = "CSetWheel (sst_WheelSize stats + sst_WheelOverflow stats)"
  let ?s1 = "s\<lparr>ob_metrics := m_do [] ?act (ob_metrics s)\<rparr>"
  have "ob_inv m0 ?s1"
    by (rule inv_call [OF assms(2), of _ "[]" ?act]) (simp_all add: plain_call_def in_flight_def rates_def)
  then have "ob_inv m0 (?s1\<lparr>ob_metrics := m_do [] ?wheel (ob_metrics ?s1)\<rparr>)"
    by (rule inv_call [of _ _ _ "[]" ?wheel]) (simp_all add: plain_call_def in_flight_def rates_def)
  then show ?thesis
    unfolding os_collect(2) by (rule inv_idle) (simp_all add: collect_gauges_calls in_flight_def rates_def)
next
  case (os_take i g ev evs)
  show ?thesis unfolding os_take(2)
    by (rule inv_idle [OF assms(2)])
      (use os_take in_flight_goto [of i "s\<lparr>ob_triggerCh := evs\<rparr>" "EvTrigger ev"]
        rates_goto [of i "s\<lparr>ob_triggerCh := evs\<rparr>" "EvTrigger ev"] in \<open>simp_all add: in_flight_def rates_def\<close>)
next
  case (os_take_rate i g re res)
  show ?thesis unfolding os_take_rate(2)
    by (rule inv_idle [OF assms(2)])
      (use os_take_rate in_flight_goto [of i "s\<lparr>ob_rateLimitedCh := res\<rparr>" "EvRate re"]
        rates_goto [of i "s\<lparr>ob_rateLimitedCh := res\<rparr>" "EvRate re"] in \<open>auto simp: in_flight_def rates_def\<close>)
next
  case (os_record i ev ord)
  show ?thesis unfolding os_record(2)
    by (rule inv_record [OF assms(2), of _ ord ev])
      (use os_record in_flight_goto [of i "record_trigger ord ev s" "EvSelect (ob_stopCh s)"]
        rates_goto [of i "record_trigger ord ev s" "EvSelect (ob_stopCh s)"] in simp_all)
next
  case (os_record_rate i re ord)
  have "plain_rate re"
    using inv_plain_rate [OF assms(2)] busy_in_rates [of i s re] os_record_rate by simp
  then show ?thesis unfolding os_record_rate(2)
    by (intro inv_call [OF assms(2), of _ ord "CRateLimited (re_App re) (re_Reason re)"])
      (use os_record_rate in_flight_goto [of i "record_rate ord re s" "EvSelect (ob_stopCh s)"]
        rates_goto [of i "record_rate ord re s" "EvSelect (ob_stopCh s)"] in \<open>simp_all add: plain_rate_call\<close>)
next
  case (os_drain i ev evs ord)
  show ?thesis unfolding os_drain(2)
    by (rule inv_record [OF assms(2), of _ ord ev]) (use os_drain in \<open>simp_all add: in_flight_def rates_def\<close>)
next
  case (os_drain_rate i re res ord)
  have "plain_rate re" using inv_plain_rate [OF assms(2)] os_drain_rate by (simp add: rates_def)
  then show ?thesis unfolding os_drain_rate(2)
    by (intro inv_call [OF assms(2), of _ ord "CRateLimited (re_App re) (re_Reason re)"])
      (use os_drain_rate in \<open>auto simp: plain_rate_call in_flight_def rates_def\<close>)
next
  case (os_see_stop i g)
  then show ?thesis using assms(2) by (simp add: inv_goto)
next
  case (os_event_end i)
  have "ob_inv m0 (s\<lparr>ob_wg := ob_wg s - 1\<rparr>)" by (rule inv_idle [OF assms(2)]) (simp_all add: in_flight_def rates_def)
  then show ?thesis unfolding os_event_end(2) by (rule inv_goto) (use os_event_end in simp_all)
qed (use assms(2) in \<open>auto intro!: inv_idle [OF assms(2)] simp: ob_Stop_def in_flight_def rates_def\<close>)

definition observer_opts :: "(SObserver \<Rightarrow> SObserver) list \<Rightarrow> bool" where
  "observer_opts opts \<longleftrightarrow> set opts \<subseteq> range ob_WithCollectInterval \<union> range ob_WithTriggerChanSize"

definition ob_fresh :: "Metrics \<Rightarrow> SObserver \<Rightarrow> bool" where
  "ob_fresh m s \<longleftrightarrow> ob_metrics s = m \<and> ob_triggerCh s = [] \<and> ob_rateLimitedCh s = [] \<and> \<not> ob_running s \<and>
     ob_stopCh s = 0 \<and> ob_closed s = {} \<and> ob_wg s = 0 \<and> ob_collect s = [] \<and> ob_events s = [] \<and>
     ob_waiting s = 0 \<and> ob_accepted s = []"

lemma NewSchedulerObserver_fresh:
  assumes "NewSchedulerObserver m opts = Some s" "observer_opts opts"
  shows "ob_fresh m s"
proof -
  have "ob_fresh m t \<Longrightarrow> ob_fresh m (foldl (\<lambda>s opt. opt s) t opts)" for t
    using assms(2)
  proof (induction opts arbitrary: t)
    case (Cons opt opts)
    from Cons.prems have "ob_fresh m (opt t)"
      by (auto simp: observer_opts_def ob_fresh_def ob_WithCollectInterval_def ob_WithTriggerChanSize_def)
    then show ?case using Cons by (simp add: observer_opts_def)
  qed simp
  then show ?thesis using assms(1) by (auto simp: NewSchedulerObserver_def Let_def ob_fresh_def split: if_splits)
qed

lemma fresh_inv: "ob_fresh m s \<Longrightarrow> ob_inv m s"
  unfolding ob_inv_def ob_fresh_def
  by (intro exI [of _ "[]"] exI [of _ "{#}"]) (simp add: m_run_def in_flight_def rates_def)

lemma ob_run_inv: "ob_run acts s s' \<Longrightarrow> ob_inv m s \<Longrightarrow> ob_inv m s'"
  by (induction rule: ob_run.induct) (auto dest: ob_step_inv)

definition te_labels :: "TriggerEvent \<Rightarrow> string list" where
  "te_labels ev = [''app'', te_App ev, ''trigger_type'', te_TriggerType ev, ''status'', te_Status ev]"

lemma trigger_series: "call_series c = Some (MetricTriggerTotal, ls) \<Longrightarrow> is_trigger c"
  by (cases c) (auto simp: metric_names)

lemma series_of_event: "call_series (te_call ev) = Some (MetricTriggerTotal, te_labels ev)"
  by (simp add: te_call_def te_labels_def)

lemma trigger_count:
  assumes "filter_mset is_trigger (mset H) = image_mset te_call R"
  shows "series_count H MetricTriggerTotal ls = size {#ev \<in># R. te_labels ev = ls#}"
proof -
  have "series_count H MetricTriggerTotal ls =
      size (filter_mset (\<lambda>c. call_series c = Some (MetricTriggerTotal, ls)) (mset H))"
    by (simp add: series_count_def flip: size_mset)
  also have "filter_mset (\<lambda>c. call_series c = Some (MetricTriggerTotal, ls)) (mset H) =
      filter_mset (\<lambda>c. call_series c = Some (MetricTriggerTotal, ls)) (filter_mset is_trigger (mset H))"
    unfolding filter_filter_mset by (rule filter_mset_cong) (auto dest: trigger_series)
  also have "\<dots> = image_mset te_call (filter_mset (\<lambda>ev. te_labels ev = ls) R)"
    unfolding assms by (simp add: filter_mset_image_mset series_of_event)
  finally show ?thesis by simp
qed

lemma observer_count:
  assumes new: "NewSchedulerObserver (m_New ord P) opts = Some s0" "observer_opts opts"
    and P: "prom_of P = Some (newPrometheusProvider ops)" "plain_opts ops"
    and run: "ob_run acts s0 s" and ls: "plain ls"
  shows "\<exists>p. prom_of (m_provider (ob_metrics s)) = Some p \<and>
    counter_in p MetricTriggerTotal ls + real (size {#ev \<in># in_flight s. te_labels ev = ls#}) =
    real (length (filter (\<lambda>ev. te_labels ev = ls) (ob_accepted s)))"
proof -
  from ob_run_inv [OF run fresh_inv [OF NewSchedulerObserver_fresh [OF new]]]
  obtain H R where r: "ob_metrics s = m_run H (m_New ord P)" "list_all plain_call (map snd H)"
     "filter_mset is_trigger (mset (map snd H)) = image_mset te_call R" "mset (ob_accepted s) = R + in_flight s"
    unfolding ob_inv_def by auto
  have "length (filter (\<lambda>ev. te_labels ev = ls) (ob_accepted s)) =
      size {#ev \<in># R. te_labels ev = ls#} + size {#ev \<in># in_flight s. te_labels ev = ls#}"
    using arg_cong [OF r(4), of "\<lambda>M. size (filter_mset (\<lambda>ev. te_labels ev = ls) M)"] by (simp flip: size_mset)
  moreover have "CHR 0x00 \<notin> set MetricTriggerTotal" by (simp add: metric_names)
  ultimately show ?thesis
    using m_run_reads [OF P r(2), of ord] trigger_count [OF r(3), of ls] ls
    unfolding reads_as_def r(1) by auto
qed

text \<open>Property C5: for every series, the trigger counter plus the accepted events that are still on their way
  (on the channel or in the hands of a goroutine) is the number of accepted events, whatever the interleaving
  of notifications, goroutines and rounds of \<open>Start\<close> and \<open>Stop\<close>.\<close>

theorem observer_exact:
  assumes "NewSchedulerObserver (m_New ord P) opts = Some s0" "observer_opts opts"
    "prom_of P = Some (newPrometheusProvider ops)" "plain_opts ops" "ob_run acts s0 s" "plain ls"
  shows "\<exists>p. prom_of (m_provider (ob_metrics s)) = Some p \<and>
    counter_in p MetricTriggerTotal ls + real (size {#ev \<in># in_flight s. te_labels ev = ls#}) =
    real (length (filter (\<lambda>ev. te_labels ev = ls) (ob_accepted s)))"
  by (rule observer_count [OF assms])

definition demo_event :: TriggerEvent where
  "demo_event = \<lparr>te_App = ''a'', te_JobID = 1, te_TriggerType = ''cron'', te_Status = ''fail'', te_Duration = 0\<rparr>"

definition demo_observer :: SObserver where
  "demo_observer = the (NewSchedulerObserver (m_New (\<lambda>_. []) (PromProvider (newPrometheusProvider demo_ops))) [])"

lemma demo_observer_new:
  "NewSchedulerObserver (m_New (\<lambda>_. []) (PromProvider (newPrometheusProvider demo_ops))) [] = Some demo_observer"
  by (simp add: demo_observer_def NewSchedulerObserver_def)

lemma demo_fresh:
  "ob_triggerCh demo_observer = []" "\<not> ob_running demo_observer" "ob_stopCh demo_observer = 0" "ob_events demo_observer = []"
  "ob_collect demo_observer = []" "ob_triggerChanSize demo_observer = 2048" "ob_collectInterval demo_observer = 10000000000"
  "ob_accepted demo_observer = []"
  by (simp_all add: demo_observer_def NewSchedulerObserver_def second_def)

lemma demo_busy:
  "\<exists>s. ob_run [AStart, ANotify, ALoop] demo_observer s \<and> ob_running s \<and> ob_events s = [EvTrigger demo_event] \<and>
     ob_triggerCh s = [] \<and> ob_accepted s = [demo_event] \<and> ob_collectInterval s = 10000000000"
proof -
  obtain s1 where s1: "ob_Start demo_observer = Some s1" "ob_running s1" "ob_events s1 = [EvSelect 1]"
      "ob_triggerCh s1 = []" "ob_triggerChanSize s1 = 2048" "ob_accepted s1 = []" "ob_collectInterval s1 = 10000000000"
    by (simp add: ob_Start_def demo_fresh Let_def)
  let ?s2 = "NotifyTrigger demo_event s1"
  have s2: "ob_triggerCh ?s2 = [demo_event]" "ob_events ?s2 = [EvSelect 1]" "ob_running ?s2" "ob_accepted ?s2 = [demo_event]"
      "ob_collectInterval ?s2 = 10000000000"
    by (simp_all add: NotifyTrigger_def s1)
  let ?s3 = "goto_event 0 (EvTrigger demo_event) (?s2\<lparr>ob_triggerCh := []\<rparr>)"
  have "ob_step ALoop ?s2 ?s3" by (rule os_take) (simp_all add: s2)
  moreover have "ob_step ANotify s1 ?s2" by (rule os_trigger) (simp add: demo_event_def)
  ultimately have "ob_run [AStart, ANotify, ALoop] demo_observer ?s3"
    using ob_more [OF ob_more [OF ob_more [OF ob_none os_start [OF s1(1)]]]] by simp
  then show ?thesis using s2 by (intro exI [of _ ?s3]) (simp add: goto_event_def)
qed

lemma observer_exact_witness:
  "\<exists>s p. ob_run [AStart, ANotify, ALoop, ALoop] demo_observer s \<and> prom_of (m_provider (ob_metrics s)) = Some p \<and>
     counter_in p MetricTriggerTotal (te_labels demo_event) = 1"
proof -
  from demo_busy obtain s where s: "ob_run [AStart, ANotify, ALoop] demo_observer s" "ob_events s = [EvTrigger demo_event]"
    "ob_triggerCh s = []" "ob_accepted s = [demo_event]" by blast
  let ?s = "goto_event 0 (EvSelect (ob_stopCh s)) (record_trigger [] demo_event s)"
  have "ob_step ALoop s ?s" by (rule os_record) (simp_all add: s)
  then have run: "ob_run [AStart, ANotify, ALoop, ALoop] demo_observer ?s" using ob_more [OF s(1)] by simp
  have "plain (te_labels demo_event)" by (simp add: te_labels_def demo_event_def)
  from observer_exact [OF demo_observer_new _ _ _ run this, of demo_ops]
  have "\<exists>p. prom_of (m_provider (ob_metrics ?s)) = Some p \<and>
    counter_in p MetricTriggerTotal (te_labels demo_event) + real (size {#ev \<in># in_flight ?s. te_labels ev = te_labels demo_event#}) = 1"
    by (simp add: observer_opts_def prom_of_def plain_opts_def demo_ops_def defaultProviderOptions_def s)
  moreover have "in_flight ?s = {#}" by (simp add: in_flight_def s)
  ultimately show ?thesis using run by auto
qed

section \<open>Stopping\<close>

text \<open>The wait group counts the live goroutines; the channels closed so far are older than a fresh one.\<close>

definition live_loops :: "SObserver \<Rightarrow> nat" where
  "live_loops s = length (filter (\<lambda>pc. pc \<noteq> CoEnded) (ob_collect s)) + length (filter (\<lambda>pc. pc \<noteq> EvEnded) (ob_events s))"

definition wg_inv :: "SObserver \<Rightarrow> bool" where
  "wg_inv s \<longleftrightarrow> ob_wg s = live_loops s \<and> ob_closed s \<subseteq> {..ob_stopCh s} \<and> (ob_running s \<longrightarrow> ob_stopCh s \<notin> ob_closed s)"

lemma filter_update:
  "i < length xs \<Longrightarrow> length (filter P (xs[i := x])) + (if P (xs ! i) then 1 else 0) =
     length (filter P xs) + (if P x then 1 else 0)"
proof (induction xs arbitrary: i)
  case (Cons y ys)
  then show ?case using Cons.IH [of "i - 1"] by (cases i) auto
qed simp

lemma live_goto:
  "i < length (ob_events s) \<Longrightarrow> live_loops (goto_event i pc s) + (if ob_events s ! i \<noteq> EvEnded then 1 else 0) =
     live_loops s + (if pc \<noteq> EvEnded then 1 else 0)"
  "j < length (ob_collect s) \<Longrightarrow> live_loops (goto_collect j co s) + (if ob_collect s ! j \<noteq> CoEnded then 1 else 0) =
     live_loops s + (if co \<noteq> CoEnded then 1 else 0)"
  using filter_update [of i "ob_events s" "\<lambda>pc. pc \<noteq> EvEnded" pc] filter_update [of j "ob_collect s" "\<lambda>co. co \<noteq> CoEnded" co]
  by (simp_all add: live_loops_def goto_event_def goto_collect_def)

lemma live_frame [simp]:
  "live_loops (s\<lparr>ob_triggerCh := q\<rparr>) = live_loops s" "live_loops (s\<lparr>ob_rateLimitedCh := qr\<rparr>) = live_loops s" "live_loops (s\<lparr>ob_metrics := m\<rparr>) = live_loops s"
  "live_loops (s\<lparr>ob_wg := n\<rparr>) = live_loops s" "live_loops (s\<lparr>ob_waiting := n\<rparr>) = live_loops s" "live_loops (record_trigger ord ev s) = live_loops s"
  "live_loops (record_rate ord re s) = live_loops s"
  by (simp_all add: live_loops_def record_trigger_def record_rate_def)

lemma record_frame [simp]:
  "ob_wg (record_trigger ord ev s) = ob_wg s" "ob_closed (record_trigger ord ev s) = ob_closed s"
  "ob_stopCh (record_trigger ord ev s) = ob_stopCh s" "ob_running (record_trigger ord ev s) = ob_running s"
  "ob_waiting (record_trigger ord ev s) = ob_waiting s"
  "ob_wg (record_rate ord re s) = ob_wg s" "ob_closed (record_rate ord re s) = ob_closed s"
  "ob_stopCh (record_rate ord re s) = ob_stopCh s" "ob_running (record_rate ord re s) = ob_running s"
  "ob_waiting (record_rate ord re s) = ob_waiting s"
  by (simp_all add: record_trigger_def record_rate_def)

lemma wg_frame [simp]:
  "wg_inv (s\<lparr>ob_triggerCh := q\<rparr>) = wg_inv s" "wg_inv (s\<lparr>ob_rateLimitedCh := qr\<rparr>) = wg_inv s"
  "wg_inv (s\<lparr>ob_metrics := m\<rparr>) = wg_inv s" "wg_inv (s\<lparr>ob_waiting := n\<rparr>) = wg_inv s"
  "wg_inv (record_trigger ord ev s) = wg_inv s" "wg_inv (record_rate ord re s) = wg_inv s"
  by (simp_all add: wg_inv_def)

lemma collect_frame [simp]: "ob_collect (record_trigger ord ev s) = ob_collect s"
  "ob_collect (record_rate ord re s) = ob_collect s"
  by (simp_all add: record_trigger_def record_rate_def)

lemma wg_goto_event:
  "i < length (ob_events s) \<Longrightarrow> ob_events s ! i \<noteq> EvEnded \<Longrightarrow> pc \<noteq> EvEnded \<Longrightarrow> wg_inv s \<Longrightarrow> wg_inv (goto_event i pc s)"
  using live_goto(1) [of i s pc] by (simp add: wg_inv_def)

lemma wg_goto_collect:
  "i < length (ob_collect s) \<Longrightarrow> ob_collect s ! i \<noteq> CoEnded \<Longrightarrow> co \<noteq> CoEnded \<Longrightarrow> wg_inv s \<Longrightarrow> wg_inv (goto_collect i co s)"
  using live_goto(2) [of i s co] by (simp add: wg_inv_def)

lemma wg_step:
  assumes "ob_step a s s'" "wg_inv s"
  shows "wg_inv s'"
  using assms(1)
proof (cases rule: ob_step.cases)
  case os_start
  then show ?thesis using assms(2) by (auto simp: ob_Start_def Let_def wg_inv_def live_loops_def split: if_splits)
next
  case (os_event_end i)
  then show ?thesis using assms(2) live_goto(1) [of i "s\<lparr>ob_wg := ob_wg s - 1\<rparr>" EvEnded] by (simp add: wg_inv_def)
next
  case (os_collect_end i g)
  then show ?thesis using assms(2) live_goto(2) [of i "s\<lparr>ob_wg := ob_wg s - 1\<rparr>" CoEnded] by (simp add: wg_inv_def)
next
  case os_stop
  then show ?thesis using assms(2) by (auto simp: ob_Stop_def wg_inv_def live_loops_def)
next
  case (os_trigger ev)
  then show ?thesis using assms(2) by (auto simp: NotifyTrigger_def wg_inv_def live_loops_def)
next
  case (os_limited app reason)
  then show ?thesis using assms(2) by (auto simp: NotifyRateLimited_def wg_inv_def live_loops_def)
qed (use assms(2) in \<open>simp_all add: wg_goto_event wg_goto_collect\<close>)

lemma wg_run: "ob_run acts s s' \<Longrightarrow> wg_inv s \<Longrightarrow> wg_inv s'"
  by (induction rule: ob_run.induct) (auto dest: wg_step)

text \<open>A goroutine that will next look at an open channel.\<close>

definition unseen :: "nat \<Rightarrow> SObserver \<Rightarrow> bool" where
  "unseen i s \<longleftrightarrow> i < length (ob_events s) \<and>
     (ob_events s ! i = EvSelect (ob_stopCh s) \<or> (\<exists>ev. ob_events s ! i = EvTrigger ev) \<or> (\<exists>re. ob_events s ! i = EvRate re))"

definition hung :: "nat \<Rightarrow> SObserver \<Rightarrow> bool" where
  "hung i s \<longleftrightarrow> wg_inv s \<and> ob_running s \<and> unseen i s \<and> 0 < ob_waiting s"

lemma unseen_live: "unseen i s \<Longrightarrow> 0 < live_loops s"
proof -
  assume u: "unseen i s"
  then have "ob_events s ! i \<in> set (ob_events s)" "ob_events s ! i \<noteq> EvEnded" by (auto simp: unseen_def)
  then have "filter (\<lambda>pc. pc \<noteq> EvEnded) (ob_events s) \<noteq> []" by (auto simp: filter_empty_conv)
  then show ?thesis by (simp add: live_loops_def)
qed

lemma hung_wg: "hung i s \<Longrightarrow> 0 < ob_wg s"
  using unseen_live [of i s] by (simp add: hung_def wg_inv_def)

lemma unseen_goto:
  assumes "unseen i s" "pc = EvSelect (ob_stopCh s) \<or> (\<exists>ev. pc = EvTrigger ev) \<or> (\<exists>re. pc = EvRate re) \<or> j \<noteq> i"
  shows "unseen i (goto_event j pc s)"
  using assms by (cases "i = j") (auto simp: unseen_def)

lemma unseen_frame [simp]:
  "unseen i (s\<lparr>ob_triggerCh := q\<rparr>) = unseen i s" "unseen i (s\<lparr>ob_rateLimitedCh := qr\<rparr>) = unseen i s"
  "unseen i (s\<lparr>ob_triggerCh := q, ob_accepted := acc\<rparr>) = unseen i s"
  "unseen i (s\<lparr>ob_metrics := m\<rparr>) = unseen i s" "unseen i (s\<lparr>ob_wg := n\<rparr>) = unseen i s"
  "unseen i (record_trigger ord ev s) = unseen i s" "unseen i (record_rate ord re s) = unseen i s"
  "unseen i (goto_collect j co s) = unseen i s"
  by (simp_all add: unseen_def record_trigger_def record_rate_def goto_collect_def)

lemma hung_step:
  assumes "ob_step a s s'" "hung i s" "a \<noteq> AStop"
  shows "hung i s' \<and> a \<noteq> AStopReturns"
proof -
  have w: "wg_inv s'" "0 < ob_wg s" "ob_running s" "unseen i s" "0 < ob_waiting s" "ob_stopCh s \<notin> ob_closed s"
    using wg_step [OF assms(1)] hung_wg [OF assms(2)] assms(2) by (auto simp: hung_def wg_inv_def)
  from assms(1) show ?thesis
  proof (cases rule: ob_step.cases)
    case (os_see_stop j g)
    then have "j \<noteq> i" using w by (auto simp: unseen_def)
    then show ?thesis using os_see_stop w by (simp add: hung_def unseen_goto)
  next
    case (os_event_end j)
    then have "j \<noteq> i" using w by (auto simp: unseen_def)
    then show ?thesis using os_event_end w by (simp add: hung_def unseen_goto)
  qed (use w assms(3) in \<open>auto simp: hung_def unseen_goto ob_Start_def NotifyTrigger_def NotifyRateLimited_def
      split: if_splits\<close>)
qed

lemma hung_run:
  assumes "ob_run acts s s'" "hung i s" "AStop \<notin> set acts"
  shows "hung i s' \<and> AStopReturns \<notin> set acts"
  using assms by (induction rule: ob_run.induct) (auto dest: hung_step)

text \<open>\<open>Stop\<close> gives up the lock before it waits, and the goroutines read the stop channel from the
  observer each time. When a \<open>Start\<close> gets in between while a goroutine is recording an event, that goroutine
  never sees the closed channel: the \<open>Stop\<close> does not return until somebody calls \<open>Stop\<close> again.\<close>

lemma stop_overtaken:
  assumes "NewSchedulerObserver m opts = Some s0" "observer_opts opts" "ob_run acts0 s0 s" "ob_running s"
    "i < length (ob_events s)" "ob_events s ! i = EvTrigger ev" "ob_Start (ob_Stop s) = Some s1"
    "ob_run acts s1 s2" "AStop \<notin> set acts"
  shows "AStopReturns \<notin> set acts \<and> 0 < ob_waiting s2"
proof -
  have "wg_inv s0" using NewSchedulerObserver_fresh [OF assms(1,2)] by (simp add: ob_fresh_def wg_inv_def live_loops_def)
  then have "wg_inv s" using wg_run [OF assms(3)] by simp
  then have "wg_inv s1" using wg_step [OF os_stop] wg_step [OF os_start [OF assms(7)]] by simp
  then have "hung i s1"
    using assms(4-7) by (auto simp: hung_def unseen_def ob_Start_def ob_Stop_def Let_def nth_append split: if_splits)
  from hung_run [OF assms(8) this assms(9)] show ?thesis by (simp add: hung_def)
qed

lemma stop_overtaken_witness:
  "\<exists>s s1. ob_run [AStart, ANotify, ALoop] demo_observer s \<and> ob_Start (ob_Stop s) = Some s1 \<and> 0 < ob_waiting s1"
proof -
  from demo_busy obtain s where s: "ob_run [AStart, ANotify, ALoop] demo_observer s" "ob_running s"
    "ob_events s = [EvTrigger demo_event]" "ob_collectInterval s = 10000000000" by blast
  then obtain s1 where s1: "ob_Start (ob_Stop s) = Some s1" by (simp add: ob_Start_def ob_Stop_def Let_def)
  then have "0 < ob_waiting s1"
    using stop_overtaken [OF demo_observer_new _ s(1,2) _ _ s1 ob_none, of 0 demo_event] s(3)
    by (simp add: observer_opts_def)
  then show ?thesis using s(1) s1 by blast
qed

end
