(* ===== verification/User_Service.thy ===== *)
theory User_Service
  imports Executor_API
begin

text \<open>
  \<open>internal/service/user_service.go\<close> and the authentication of \<open>api/middleware\<close>: login, the tokens it
  issues and their check, and what the handlers read from the request context. The JWT library and bcrypt
  are not part of the repository: \<open>jwt\<close> and \<open>bcrypt\<close> are what they do for the calls in the code. A key
  function gets whether the token's method is HMAC, which is all that the code's one looks at.
\<close>

section \<open>Users\<close>

record UserService =
  us_jwtSecret :: string
  us_jwtExpireDur :: duration

definition NewUserService :: "string \<Rightarrow> duration \<Rightarrow> UserService" where
  "NewUserService jwtSecret jwtExpireDur = \<lparr>us_jwtSecret = jwtSecret, us_jwtExpireDur = jwtExpireDur\<rparr>"

record Claims =
  cl_UserID :: int
  cl_Username :: string
  cl_Role :: user_role
  cl_ExpiresAt :: time
  cl_IssuedAt :: time
  cl_Issuer :: string

datatype jwt_error = JwtExpired string | JwtOther string

fun IsExpirationError :: "jwt_error \<Rightarrow> bool" where
  "IsExpirationError (JwtExpired err) = True"
| "IsExpirationError (JwtOther err) = False"

record jwt =
  jw_Sign :: "string \<Rightarrow> Claims \<Rightarrow> string + string"
  jw_Parse :: "(bool \<Rightarrow> string + string) \<Rightarrow> time \<Rightarrow> string \<Rightarrow> jwt_error + (Claims \<times> bool)"

record bcrypt =
  bc_Compare :: "string \<Rightarrow> string \<Rightarrow> string option"
  bc_Generate :: "string \<Rightarrow> string + string"

record LoginRequest =
  lr_Username :: string
  lr_Password :: string

record LoginResponse =
  lp_Token :: string
  lp_ExpireAt :: time
  lp_User :: SysUser

definition login_claims :: "SysUser \<Rightarrow> time \<Rightarrow> time \<Rightarrow> Claims" where
  "login_claims user expireAt now =
     \<lparr>cl_UserID = su_ID user, cl_Username = su_Username user, cl_Role = su_Role user,
      cl_ExpiresAt = expireAt, cl_IssuedAt = now, cl_Issuer = ''go-jobs''\<rparr>"

text \<open>\<open>clock k\<close> is the \<open>k\<close>-th reading of the clock. A failed update of the last login is ignored.\<close>

definition us_Login :: "jwt \<Rightarrow> bcrypt \<Rightarrow> 'db tables \<Rightarrow> (nat \<Rightarrow> time) \<Rightarrow> UserService \<Rightarrow> LoginRequest \<Rightarrow> 'db \<Rightarrow>
    (go_error + LoginResponse) \<times> 'db" where
  "us_Login jw bc tb clock us req db =
     (case users_FindByUsername tb (lr_Username req) db of
        Inl err \<Rightarrow>
          (if err = RecordNotFound then Inl (XErr (xerr_New CodePasswordWrong []))
           else Inl (XErr (xerr_Wrap CodeInternalServer (Some (db_text err)) [])), db)
      | Inr user \<Rightarrow>
          if \<not> IsActive user then (Inl (XErr (xerr_New CodeUserDisabled [])), db)
          else if bc_Compare bc (su_Password user) (lr_Password req) \<noteq> None
          then (Inl (XErr (xerr_New CodePasswordWrong [])), db)
          else
            let expireAt = clock 0 + us_jwtExpireDur us
            in case jw_Sign jw (us_jwtSecret us) (login_claims user expireAt (clock 1)) of
                 Inl err \<Rightarrow> (Inl (XErr (xerr_Wrap CodeInternalServer (Some err) [''sign token failed''])), db)
               | Inr token \<Rightarrow>
                   (Inr \<lparr>lp_Token = token, lp_ExpireAt = expireAt, lp_User = user\<rparr>,
                    snd (users_UpdateLastLogin tb (su_ID user) (clock 2) db)))"

definition hmac_key :: "string \<Rightarrow> bool \<Rightarrow> string + string" where
  "hmac_key secret hmac = (if \<not> hmac then Inl ''unexpected signing method'' else Inr secret)"

definition us_ParseToken :: "jwt \<Rightarrow> time \<Rightarrow> UserService \<Rightarrow> string \<Rightarrow> go_error + Claims" where
  "us_ParseToken jw now us tokenStr =
     (case jw_Parse jw (hmac_key (us_jwtSecret us)) now tokenStr of
        Inl err \<Rightarrow>
          (if IsExpirationError err then Inl (XErr (xerr_New CodeTokenExpired []))
           else Inl (XErr (xerr_New CodeTokenInvalid [])))
      | Inr (claims, valid) \<Rightarrow> if \<not> valid then Inl (XErr (xerr_New CodeTokenInvalid [])) else Inr claims)"

definition us_GetUserByID :: "'db tables \<Rightarrow> int \<Rightarrow> 'db \<Rightarrow> go_error + SysUser" where
  "us_GetUserByID tb i db =
     (case users_FindByID tb i db of
        Inl err \<Rightarrow>
          (if err = RecordNotFound then Inl (XErr (xerr_New CodeNotFound []))
           else Inl (XErr (xerr_Wrap CodeInternalServer (Some (db_text err)) [])))
      | Inr u \<Rightarrow> Inr u)"

definition HashPassword :: "bcrypt \<Rightarrow> string \<Rightarrow> string + string" where
  "HashPassword bc password =
     (case bc_Generate bc password of Inl err \<Rightarrow> Inl (''hash password: '' @ err) | Inr hash \<Rightarrow> Inr hash)"

section \<open>Authentication\<close>

text \<open>The keys that \<open>JWTAuth\<close> sets in the context of a request.\<close>

record Session =
  ss_userID :: int
  ss_username :: string
  ss_userRole :: user_role

text \<open>\<open>strings.SplitN(s, " ", 2)\<close>: \<open>None\<close> when there is no second part.\<close>

definition split_auth :: "string \<Rightarrow> (string \<times> string) option" where
  "split_auth s =
     (case dropWhile (\<lambda>c. c \<noteq> CHR '' '') s of [] \<Rightarrow> None | c # cs \<Rightarrow> Some (takeWhile (\<lambda>c. c \<noteq> CHR '' '') s, cs))"

definition JWTAuth :: "jwt \<Rightarrow> time \<Rightarrow> UserService \<Rightarrow> string \<Rightarrow> R + Session" where
  "JWTAuth jw now us authHeader =
     (if authHeader = [] then Inl (resp_Unauthorized ''missing Authorization header'')
      else case split_auth authHeader of
        None \<Rightarrow> Inl (resp_Unauthorized ''invalid Authorization header format'')
      | Some (scheme, tokenStr) \<Rightarrow>
          if to_upper scheme \<noteq> to_upper ''bearer'' then Inl (resp_Unauthorized ''invalid Authorization header format'')
          else case us_ParseToken jw now us tokenStr of
            Inl err \<Rightarrow> Inl (resp_Fail err)
          | Inr claims \<Rightarrow> Inr \<lparr>ss_userID = cl_UserID claims, ss_username = cl_Username claims, ss_userRole = cl_Role claims\<rparr>)"

definition AdminOnly :: "Session option \<Rightarrow> R option" where
  "AdminOnly session =
     (case map_option ss_userRole session of
        Some r \<Rightarrow> if r \<noteq> RoleAdmin then Some \<lparr>r_status = 403, r_Code = CodeForbidden, r_Message = ''admin access required''\<rparr> else None
      | None \<Rightarrow> Some \<lparr>r_status = 403, r_Code = CodeForbidden, r_Message = ''admin access required''\<rparr>)"

definition CurrentUserID :: "Session option \<Rightarrow> int" where
  "CurrentUserID session = (case session of Some ss \<Rightarrow> ss_userID ss | None \<Rightarrow> 0)"

definition CurrentUsername :: "Session option \<Rightarrow> string" where
  "CurrentUsername session = (case session of Some ss \<Rightarrow> ss_username ss | None \<Rightarrow> [])"

text \<open>The template handlers have their own.\<close>

definition currentUsername :: "Session option \<Rightarrow> string" where
  "currentUsername session = (case session of Some ss \<Rightarrow> ss_username ss | None \<Rightarrow> ''system'')"

end
