(* ===== verification/Admin_API.thy ===== *)
theory Admin_API
  imports User_Service Tpl_Service
begin

text \<open>
  The admin HTTP API: the handlers of \<open>api/handler/admin\<close> and the routes of \<open>cmd/admin/main.go\<close> over the
  user, job, template and executor services, which share one database. JSON is not modelled: what the
  decoder makes of a body for each request struct is in \<open>Bodies\<close>, the \<open>required\<close> and \<open>max\<close> tags are the
  \<open>bind\<close> functions. A path is the list of its segments. The routes for statistics, log search and groups,
  which \<open>main\<close> writes as closures over other services, and the health probe are left out, as are CORS and
  the request logger. A panic of a handler is answered by the \<open>Recovery\<close> middleware.
\<close>

section \<open>Requests and responses\<close>

record Bodies =
  bd_login :: "string + LoginRequest"
  bd_createJob :: "string + CreateJobRequest"
  bd_updateJob :: "string + UpdateJobRequest"
  bd_param :: string
  bd_register :: "RegisterRequest"
  bd_createTpl :: "string + CreateTemplateRequest"
  bd_updateTpl :: "string + UpdateTemplateRequest"
  bd_instantiate :: "string + InstantiateTemplateRequest"
  bd_batch :: "string + BatchInstantiateRequest"

record Request =
  hq_method :: string
  hq_path :: "string list"
  hq_query :: "string \<rightharpoonup> string"
  hq_auth :: string
  hq_token :: string
  hq_body :: Bodies

datatype resp_data =
    NoData
  | LoginData LoginResponse
  | UserData SysUser
  | JobData JobRow
  | JobPage "JobRow list" nat int int
  | LogPage "JobLog list" nat int int
  | DetailData JobLogDetail
  | ExecutorPage "ExecutorRow list" nat int int
  | TplData JobTemplate
  | TplList "JobTemplate list" nat
  | BatchData "InstantiateResult list" nat

type_synonym reply = "R \<times> resp_data"

definition respond :: "go_error + 'a \<Rightarrow> ('a \<Rightarrow> resp_data) \<Rightarrow> reply" where
  "respond res f = (case res of Inl err \<Rightarrow> (resp_Fail err, NoData) | Inr x \<Rightarrow> (resp_OK, f x))"

definition respond_unit :: "go_error option \<Rightarrow> reply" where
  "respond_unit err = (result_response err, NoData)"

definition plain_error :: "db_error + 'a \<Rightarrow> go_error + 'a" where
  "plain_error res = map_sum (\<lambda>e. Plain (db_text e)) (\<lambda>x. x) res"

definition bad_request :: "string \<Rightarrow> reply" where
  "bad_request msg = (resp_BadRequest msg, NoData)"

text \<open>\<open>Recovery\<close>: the answer to a request whose handler panicked.\<close>

definition recovered :: reply where
  "recovered = (\<lparr>r_status = 500, r_Code = CodeInternalServer, r_Message = ''internal server error''\<rparr>, NoData)"

section \<open>Path and query parameters\<close>

definition pathInt64 :: "string \<Rightarrow> int option" where "pathInt64 s = parse_int s"

definition query_of :: "Request \<Rightarrow> string \<Rightarrow> string" where
  "query_of q key = (case hq_query q key of Some s \<Rightarrow> s | None \<Rightarrow> [])"

definition queryInt :: "Request \<Rightarrow> string \<Rightarrow> int \<Rightarrow> int" where
  "queryInt q key defaultVal =
     (let s = query_of q key
      in if s = [] then defaultVal else case parse_int s of Some n \<Rightarrow> n | None \<Rightarrow> defaultVal)"

text \<open>The value of \<open>strconv.Atoi\<close> when its error is ignored: zero for a syntax error, the nearest bound for
  a number out of range.\<close>

definition atoi_value :: "string \<Rightarrow> int" where
  "atoi_value s =
     (case parse_int s of Some n \<Rightarrow> n
      | None \<Rightarrow>
          let (neg, digits) = (case s of [] \<Rightarrow> (False, [])
                 | c # cs \<Rightarrow> if c = CHR ''-'' then (True, cs) else if c = CHR ''+'' then (False, cs) else (False, s))
          in if parse_uint digits = None then 0 else if neg then i64_min else i64_max)"

definition int8 :: "int \<Rightarrow> int" where "int8 n = (n + 128) mod 256 - 128"

section \<open>Binding\<close>

definition bind_check :: "string \<Rightarrow> ('a \<Rightarrow> bool) \<Rightarrow> string + 'a \<Rightarrow> string + 'a" where
  "bind_check unbound valid body = (case body of Inl err \<Rightarrow> Inl err | Inr x \<Rightarrow> if valid x then Inr x else Inl unbound)"

definition bind_login :: "string \<Rightarrow> string + LoginRequest \<Rightarrow> string + LoginRequest" where
  "bind_login unbound = bind_check unbound (\<lambda>r. lr_Username r \<noteq> [] \<and> lr_Password r \<noteq> [])"

definition bind_createJob :: "string \<Rightarrow> string + CreateJobRequest \<Rightarrow> string + CreateJobRequest" where
  "bind_createJob unbound = bind_check unbound (\<lambda>r. cr_ExecutorID r \<noteq> 0 \<and> cr_ExecutorApp r \<noteq> [] \<and>
     cr_JobName r \<noteq> [] \<and> length (cr_JobName r) \<le> 128 \<and> cr_ExecuteHandler r \<noteq> [])"

definition bind_updateJob :: "string \<Rightarrow> string + UpdateJobRequest \<Rightarrow> string + UpdateJobRequest" where
  "bind_updateJob unbound = bind_check unbound (\<lambda>r. ur_ID r \<noteq> 0)"

definition bind_createTpl :: "string \<Rightarrow> string + CreateTemplateRequest \<Rightarrow> string + CreateTemplateRequest" where
  "bind_createTpl unbound = bind_check unbound (\<lambda>r. ct_Name r \<noteq> [] \<and> ct_ExecutorApp r \<noteq> [] \<and> ct_ExecuteHandler r \<noteq> [])"

definition bind_updateTpl :: "string \<Rightarrow> string + UpdateTemplateRequest \<Rightarrow> string + UpdateTemplateRequest" where
  "bind_updateTpl unbound = bind_check unbound (\<lambda>r. ut_Name r \<noteq> [])"

definition bind_instantiate :: "string \<Rightarrow> string + InstantiateTemplateRequest \<Rightarrow> string + InstantiateTemplateRequest" where
  "bind_instantiate unbound =
     bind_check unbound (\<lambda>r. it_TemplateName r \<noteq> [] \<and> it_JobName r \<noteq> [] \<and> it_ExecutorID r \<noteq> 0)"

text \<open>Without the tag \<open>dive\<close> the elements are not validated; an empty array passes, which no body without
  the field does: it fails to decode here.\<close>

definition bind_batch :: "string \<Rightarrow> string + BatchInstantiateRequest \<Rightarrow> string + BatchInstantiateRequest" where
  "bind_batch unbound = bind_check unbound (\<lambda>r. bi_TemplateName r \<noteq> [])"

section \<open>State and environment\<close>

text \<open>The services over one database: the job service inside the template service, and the executor store.\<close>

record ('c, 't, 'db) Admin =
  ad_tpl :: "('c, 't, 'db) TplService"
  ad_store :: "EStore option"
  ad_timeout :: duration

record ('c, 't, 'db) Env =
  ev_libs :: "('c, 't) libs"
  ev_tables :: "'db tables"
  ev_net :: network
  ev_jwt :: jwt
  ev_bcrypt :: bcrypt
  ev_authNow :: time
  ev_clock :: "nat \<Rightarrow> time"
  ev_unbound :: string
  ev_order :: "string list"
  ev_users :: UserService
  ev_internalToken :: string

definition ad_db :: "('c, 't, 'db) Admin \<Rightarrow> 'db" where "ad_db s = sv_db (ts_jobs (ad_tpl s))"

definition on_tpl :: "(('c, 't, 'db) TplService \<Rightarrow> 'a \<times> ('c, 't, 'db) TplService) \<Rightarrow> ('c, 't, 'db) Admin \<Rightarrow>
    'a \<times> ('c, 't, 'db) Admin" where
  "on_tpl f s = (let (x, t) = f (ad_tpl s) in (x, s\<lparr>ad_tpl := t\<rparr>))"

definition on_jobs :: "(('c, 't, 'db) Service \<Rightarrow> 'a \<times> ('c, 't, 'db) Service) \<Rightarrow> ('c, 't, 'db) Admin \<Rightarrow>
    'a \<times> ('c, 't, 'db) Admin" where
  "on_jobs f = on_tpl (\<lambda>t. let (x, j) = f (ts_jobs t) in (x, t\<lparr>ts_jobs := j\<rparr>))"

definition exec_view :: "('c, 't, 'db) Admin \<Rightarrow> 'db ExecService" where
  "exec_view s = \<lparr>xs_db = ad_db s, xs_store = ad_store s, xs_timeout = ad_timeout s\<rparr>"

definition on_exec :: "('db ExecService \<Rightarrow> 'a \<times> 'db ExecService) \<Rightarrow> ('c, 't, 'db) Admin \<Rightarrow> 'a \<times> ('c, 't, 'db) Admin" where
  "on_exec f s =
     (let (x, e) = f (exec_view s); (u, s1) = on_jobs (\<lambda>j. ((), j\<lparr>sv_db := xs_db e\<rparr>)) s
      in (x, s1\<lparr>ad_store := xs_store e, ad_timeout := xs_timeout e\<rparr>))"

section \<open>Users\<close>

definition h_Login :: "('c, 't, 'db) Env \<Rightarrow> string + LoginRequest \<Rightarrow> ('c, 't, 'db) Admin \<Rightarrow> reply \<times> ('c, 't, 'db) Admin" where
  "h_Login ev body s =
     (case body of Inl err \<Rightarrow> (bad_request err, s)
      | Inr req \<Rightarrow>
          let (res, s1) = on_jobs (on_db (us_Login (ev_jwt ev) (ev_bcrypt ev) (ev_tables ev) (ev_clock ev) (ev_users ev) req)) s
          in (respond res LoginData, s1))"

definition h_GetCurrentUser :: "('c, 't, 'db) Env \<Rightarrow> Session option \<Rightarrow> ('c, 't, 'db) Admin \<Rightarrow> reply" where
  "h_GetCurrentUser ev ss s = respond (us_GetUserByID (ev_tables ev) (CurrentUserID ss) (ad_db s)) UserData"

section \<open>Jobs\<close>

definition h_CreateJob :: "('c, 't, 'db) Env \<Rightarrow> Session option \<Rightarrow> string + CreateJobRequest \<Rightarrow> ('c, 't, 'db) Admin \<Rightarrow>
    reply \<times> ('c, 't, 'db) Admin" where
  "h_CreateJob ev ss body s =
     (case body of Inl err \<Rightarrow> (bad_request err, s)
      | Inr req \<Rightarrow>
          let (res, s1) = on_jobs (svc_CreateJob (ev_libs ev) (ev_tables ev) (ev_clock ev 0) (req\<lparr>cr_CreateUser := CurrentUsername ss\<rparr>)) s
          in (respond res JobData, s1))"

definition h_UpdateJob :: "('c, 't, 'db) Env \<Rightarrow> string \<Rightarrow> string + UpdateJobRequest \<Rightarrow> ('c, 't, 'db) Admin \<Rightarrow>
    reply \<times> ('c, 't, 'db) Admin" where
  "h_UpdateJob ev idText body s =
     (case body of Inl err \<Rightarrow> (bad_request err, s)
      | Inr req \<Rightarrow>
          (case pathInt64 idText of None \<Rightarrow> (bad_request ''invalid id'', s)
           | Some i \<Rightarrow>
               let (res, s1) = on_jobs (svc_UpdateJob (ev_libs ev) (ev_tables ev) (ev_clock ev 0) (req\<lparr>ur_ID := i\<rparr>)) s
               in (respond res JobData, s1)))"

definition with_id :: "string \<Rightarrow> string \<Rightarrow> (int \<Rightarrow> ('c, 't, 'db) Admin \<Rightarrow> reply \<times> ('c, 't, 'db) Admin) \<Rightarrow>
    ('c, 't, 'db) Admin \<Rightarrow> reply \<times> ('c, 't, 'db) Admin" where
  "with_id msg idText f s = (case pathInt64 idText of None \<Rightarrow> (bad_request msg, s) | Some i \<Rightarrow> f i s)"

definition run_unit :: "(('c, 't, 'db) Service \<Rightarrow> go_error option \<times> ('c, 't, 'db) Service) \<Rightarrow> ('c, 't, 'db) Admin \<Rightarrow>
    reply \<times> ('c, 't, 'db) Admin" where
  "run_unit f s = (let (err, s1) = on_jobs f s in (respond_unit err, s1))"

definition h_DeleteJob :: "('c, 't, 'db) Env \<Rightarrow> string \<Rightarrow> ('c, 't, 'db) Admin \<Rightarrow> reply \<times> ('c, 't, 'db) Admin" where
  "h_DeleteJob ev idText = with_id ''invalid id'' idText (\<lambda>i. run_unit (svc_DeleteJob (ev_tables ev) i))"

definition h_GetJob :: "('c, 't, 'db) Env \<Rightarrow> string \<Rightarrow> ('c, 't, 'db) Admin \<Rightarrow> reply" where
  "h_GetJob ev idText s =
     (case pathInt64 idText of None \<Rightarrow> bad_request ''invalid id''
      | Some i \<Rightarrow> respond (svc_GetJob (ev_tables ev) i (ts_jobs (ad_tpl s))) JobData)"

definition list_query :: "Request \<Rightarrow> JobInfoQuery" where
  "list_query q =
     (let page = queryInt q ''page'' 1; pageSize = queryInt q ''page_size'' 20;
          pageSize = (if pageSize > 100 then 100 else pageSize);
          st = query_of q ''status''
      in \<lparr>jq_ExecutorApp = query_of q ''executor_app'', jq_JobName = query_of q ''job_name'',
          jq_Status = (if st \<noteq> [] then Some (int8 (atoi_value st)) else None), jq_Page = page, jq_PageSize = pageSize\<rparr>)"

definition h_ListJobs :: "('c, 't, 'db) Env \<Rightarrow> Request \<Rightarrow> ('c, 't, 'db) Admin \<Rightarrow> reply" where
  "h_ListJobs ev q s =
     (let jq = list_query q
      in respond (plain_error (svc_ListJobs (ev_tables ev) jq (ts_jobs (ad_tpl s))))
           (\<lambda>(rows, cnt). JobPage rows cnt (jq_Page jq) (jq_PageSize jq)))"

definition h_StartJob :: "('c, 't, 'db) Env \<Rightarrow> string \<Rightarrow> ('c, 't, 'db) Admin \<Rightarrow> reply \<times> ('c, 't, 'db) Admin" where
  "h_StartJob ev idText =
     with_id ''invalid id'' idText (\<lambda>i. run_unit (svc_StartJob (ev_libs ev) (ev_tables ev) (ev_clock ev 0) i))"

definition h_StopJob :: "('c, 't, 'db) Env \<Rightarrow> string \<Rightarrow> ('c, 't, 'db) Admin \<Rightarrow> reply \<times> ('c, 't, 'db) Admin" where
  "h_StopJob ev idText = with_id ''invalid id'' idText (\<lambda>i. run_unit (svc_StopJob (ev_tables ev) i))"

text \<open>The binding error is ignored.\<close>

definition h_TriggerJob :: "('c, 't, 'db) Env \<Rightarrow> string \<Rightarrow> string \<Rightarrow> ('c, 't, 'db) Admin \<Rightarrow> reply \<times> ('c, 't, 'db) Admin" where
  "h_TriggerJob ev idText param =
     with_id ''invalid id'' idText (\<lambda>i. run_unit (svc_TriggerJob (ev_tables ev) (ev_clock ev 0) i param))"

definition h_KillJob :: "('c, 't, 'db) Env \<Rightarrow> string \<Rightarrow> ('c, 't, 'db) Admin \<Rightarrow> reply \<times> ('c, 't, 'db) Admin" where
  "h_KillJob ev idText =
     with_id ''invalid logID'' idText (\<lambda>i. run_unit (svc_KillJob (ev_tables ev) (ev_net ev) (ev_clock ev 0) i))"

section \<open>Logs and executors\<close>

definition h_ListJobLogs :: "('c, 't, 'db) Env \<Rightarrow> string \<Rightarrow> Request \<Rightarrow> ('c, 't, 'db) Admin \<Rightarrow> reply" where
  "h_ListJobLogs ev idText q s =
     (case pathInt64 idText of None \<Rightarrow> bad_request ''invalid job id''
      | Some jobID \<Rightarrow>
          let page = queryInt q ''page'' 1; pageSize = queryInt q ''page_size'' 20
          in respond (plain_error (svc_ListJobLogs (ev_tables ev) jobID page pageSize (ts_jobs (ad_tpl s))))
               (\<lambda>(rows, cnt). LogPage rows cnt page pageSize))"

definition h_GetLogDetail :: "('c, 't, 'db) Env \<Rightarrow> string \<Rightarrow> ('c, 't, 'db) Admin \<Rightarrow> reply" where
  "h_GetLogDetail ev idText s =
     (case pathInt64 idText of None \<Rightarrow> bad_request ''invalid log id''
      | Some logID \<Rightarrow> respond (plain_error (svc_GetJobLogDetail (ev_tables ev) logID (ts_jobs (ad_tpl s)))) DetailData)"

definition h_ListExecutors :: "('c, 't, 'db) Env \<Rightarrow> Request \<Rightarrow> ('c, 't, 'db) Admin \<Rightarrow> reply" where
  "h_ListExecutors ev q s =
     (let page = queryInt q ''page'' 1; pageSize = queryInt q ''page_size'' 20
      in respond (plain_error (exec_ListExecutors (ev_tables ev) page pageSize (exec_view s)))
           (\<lambda>(rows, cnt). ExecutorPage rows cnt page pageSize))"

section \<open>Templates\<close>

definition h_CreateTemplate :: "('c, 't, 'db) Env \<Rightarrow> Session option \<Rightarrow> string + CreateTemplateRequest \<Rightarrow>
    ('c, 't, 'db) Admin \<Rightarrow> reply \<times> ('c, 't, 'db) Admin" where
  "h_CreateTemplate ev ss body s =
     (case body of Inl err \<Rightarrow> (bad_request err, s)
      | Inr req \<Rightarrow>
          let req = (if ct_CreateUser req = [] then req\<lparr>ct_CreateUser := currentUsername ss\<rparr> else req);
              (res, s1) = on_tpl (CreateTemplate (ev_clock ev 0) req) s
          in (respond res TplData, s1))"

definition h_UpdateTemplate :: "('c, 't, 'db) Env \<Rightarrow> string \<Rightarrow> string + UpdateTemplateRequest \<Rightarrow>
    ('c, 't, 'db) Admin \<Rightarrow> reply \<times> ('c, 't, 'db) Admin" where
  "h_UpdateTemplate ev name body s =
     (case body of Inl err \<Rightarrow> (bad_request err, s)
      | Inr req \<Rightarrow>
          let (res, s1) = on_tpl (UpdateTemplate (ev_clock ev 0) (req\<lparr>ut_Name := name\<rparr>)) s
          in (respond res TplData, s1))"

definition h_DeleteTemplate :: "string \<Rightarrow> ('c, 't, 'db) Admin \<Rightarrow> reply \<times> ('c, 't, 'db) Admin" where
  "h_DeleteTemplate name s = (let (err, s1) = on_tpl (DeleteTemplate name) s in (respond_unit err, s1))"

definition h_GetTemplate :: "string \<Rightarrow> ('c, 't, 'db) Admin \<Rightarrow> reply \<times> ('c, 't, 'db) Admin" where
  "h_GetTemplate name s = (let (res, s1) = on_tpl (GetTemplate name) s in (respond res TplData, s1))"

definition h_GetTemplateByID :: "string \<Rightarrow> ('c, 't, 'db) Admin \<Rightarrow> reply \<times> ('c, 't, 'db) Admin" where
  "h_GetTemplateByID idText s =
     (case pathInt64 idText of None \<Rightarrow> (bad_request ''invalid id'', s)
      | Some i \<Rightarrow>
          (case GetTemplateByID i (ad_tpl s) of
             None \<Rightarrow> (recovered, s)
           | Some (res, t) \<Rightarrow> (respond res TplData, s\<lparr>ad_tpl := t\<rparr>)))"

definition h_ListTemplates :: "('c, 't, 'db) Env \<Rightarrow> Request \<Rightarrow> ('c, 't, 'db) Admin \<Rightarrow> reply \<times> ('c, 't, 'db) Admin" where
  "h_ListTemplates ev q s =
     (let req = \<lparr>lt_LabelKey = query_of q ''label_key'', lt_LabelValue = query_of q ''label_value''\<rparr>;
          (ts, s1) = on_tpl (ListTemplates (ev_order ev) (Some req)) s
      in ((resp_OK, TplList ts (length ts)), s1))"

definition h_InstantiateTemplate :: "('c, 't, 'db) Env \<Rightarrow> Session option \<Rightarrow> string \<Rightarrow>
    string + InstantiateTemplateRequest \<Rightarrow> ('c, 't, 'db) Admin \<Rightarrow> reply \<times> ('c, 't, 'db) Admin" where
  "h_InstantiateTemplate ev ss name body s =
     (case body of Inl err \<Rightarrow> (bad_request err, s)
      | Inr req \<Rightarrow>
          let req = req\<lparr>it_TemplateName := name\<rparr>;
              req = (if it_CreateUser req = [] then req\<lparr>it_CreateUser := currentUsername ss\<rparr> else req);
              (res, s1) = on_tpl (InstantiateTemplate (ev_libs ev) (ev_tables ev) (ev_clock ev 0) req) s
          in (respond res JobData, s1))"

definition h_BatchInstantiateTemplate :: "('c, 't, 'db) Env \<Rightarrow> string \<Rightarrow> string + BatchInstantiateRequest \<Rightarrow>
    ('c, 't, 'db) Admin \<Rightarrow> reply \<times> ('c, 't, 'db) Admin" where
  "h_BatchInstantiateTemplate ev name body s =
     (case body of Inl err \<Rightarrow> (bad_request err, s)
      | Inr req \<Rightarrow>
          let (results, s1) = on_tpl (BatchInstantiateTemplate (ev_libs ev) (ev_tables ev) (ev_clock ev)
                (req\<lparr>bi_TemplateName := name\<rparr>)) s
          in ((resp_OK, BatchData results (length results)), s1))"

section \<open>Routes\<close>

text \<open>The groups of \<open>main\<close>: what comes after \<open>/api\<close>, behind \<open>JWTAuth\<close>; \<open>None\<close> is no route.\<close>

definition route_templates :: "('c, 't, 'db) Env \<Rightarrow> Request \<Rightarrow> Session option \<Rightarrow> string list \<Rightarrow> ('c, 't, 'db) Admin \<Rightarrow>
    (reply \<times> ('c, 't, 'db) Admin) option" where
  "route_templates ev q ss path s =
     (let m = hq_method q; b = hq_body q; u = ev_unbound ev
      in case path of
        [] \<Rightarrow>
          if m = ''POST'' then Some (h_CreateTemplate ev ss (bind_createTpl u (bd_createTpl b)) s)
          else if m = ''GET'' then Some (h_ListTemplates ev q s) else None
      | [name] \<Rightarrow>
          if m = ''GET'' then Some (h_GetTemplate name s)
          else if m = ''PUT'' then Some (h_UpdateTemplate ev name (bind_updateTpl u (bd_updateTpl b)) s)
          else if m = ''DELETE'' then Some (h_DeleteTemplate name s) else None
      | [name, sub] \<Rightarrow>
          if m = ''GET'' \<and> name = ''id'' then Some (h_GetTemplateByID sub s)
          else if m = ''POST'' \<and> sub = ''instantiate''
          then Some (h_InstantiateTemplate ev ss name (bind_instantiate u (bd_instantiate b)) s)
          else if m = ''POST'' \<and> sub = ''batch-instantiate''
          then Some (h_BatchInstantiateTemplate ev name (bind_batch u (bd_batch b)) s)
          else None
      | _ \<Rightarrow> None)"

definition route_jobs :: "('c, 't, 'db) Env \<Rightarrow> Request \<Rightarrow> Session option \<Rightarrow> string list \<Rightarrow> ('c, 't, 'db) Admin \<Rightarrow>
    (reply \<times> ('c, 't, 'db) Admin) option" where
  "route_jobs ev q ss path s =
     (let m = hq_method q; b = hq_body q; u = ev_unbound ev
      in case path of
        [] \<Rightarrow>
          if m = ''POST'' then Some (h_CreateJob ev ss (bind_createJob u (bd_createJob b)) s)
          else if m = ''GET'' then Some (h_ListJobs ev q s, s) else None
      | [i] \<Rightarrow>
          if m = ''GET'' then Some (h_GetJob ev i s, s)
          else if m = ''PUT'' then Some (h_UpdateJob ev i (bind_updateJob u (bd_updateJob b)) s)
          else if m = ''DELETE'' then Some (h_DeleteJob ev i s) else None
      | [i, sub] \<Rightarrow>
          if m = ''POST'' \<and> sub = ''start'' then Some (h_StartJob ev i s)
          else if m = ''POST'' \<and> sub = ''stop'' then Some (h_StopJob ev i s)
          else if m = ''POST'' \<and> sub = ''trigger'' then Some (h_TriggerJob ev i (bd_param b) s)
          else if m = ''GET'' \<and> sub = ''logs'' then Some (h_ListJobLogs ev i q s, s)
          else None
      | _ \<Rightarrow> None)"

definition route_logs :: "('c, 't, 'db) Env \<Rightarrow> Request \<Rightarrow> string list \<Rightarrow> ('c, 't, 'db) Admin \<Rightarrow>
    (reply \<times> ('c, 't, 'db) Admin) option" where
  "route_logs ev q path s =
     (case path of
        [i, sub] \<Rightarrow>
          if hq_method q = ''GET'' \<and> sub = ''detail'' then Some (h_GetLogDetail ev i s, s)
          else if hq_method q = ''POST'' \<and> sub = ''kill'' then Some (h_KillJob ev i s)
          else None
      | _ \<Rightarrow> None)"

definition route_api :: "('c, 't, 'db) Env \<Rightarrow> Request \<Rightarrow> Session option \<Rightarrow> string list \<Rightarrow> ('c, 't, 'db) Admin \<Rightarrow>
    (reply \<times> ('c, 't, 'db) Admin) option" where
  "route_api ev q ss path s =
     (case path of
        [] \<Rightarrow> None
      | p # ps \<Rightarrow>
          if p = ''job-templates'' then route_templates ev q ss ps s
          else if p = ''jobs'' then route_jobs ev q ss ps s
          else if p = ''logs'' then route_logs ev q ps s
          else if p = ''executors'' \<and> ps = [] \<and> hq_method q = ''GET'' then Some (h_ListExecutors ev q s, s)
          else if p = ''user'' \<and> ps = [''me''] \<and> hq_method q = ''GET'' then Some (h_GetCurrentUser ev ss s, s)
          else None)"

text \<open>The executors' group, behind the shared token.\<close>

definition route_internal :: "('c, 't, 'db) Env \<Rightarrow> Request \<Rightarrow> string \<Rightarrow> ('c, 't, 'db) Admin \<Rightarrow>
    reply \<times> ('c, 't, 'db) Admin" where
  "route_internal ev q sub s =
     (let (resp, s1) = on_exec (admin_server (ev_internalToken ev) (ev_unbound ev) (ev_tables ev) (ev_clock ev 0)
            (ev_clock ev 1) (hq_token q) (''/api/executor/'' @ sub) (bd_register (hq_body q))) s
      in ((resp, NoData), s1))"

definition login_route :: "Request \<Rightarrow> string list \<Rightarrow> bool" where
  "login_route q path \<longleftrightarrow> hq_method q = ''POST'' \<and> path = [''login'']"

definition internal_route :: "Request \<Rightarrow> string list \<Rightarrow> bool" where
  "internal_route q path \<longleftrightarrow> hq_method q = ''POST'' \<and>
     path \<in> set [[''executor'', ''register''], [''executor'', ''heartbeat''], [''executor'', ''deregister'']]"

text \<open>A route is looked up before its middleware runs: an unknown path is answered 404 without a token.\<close>

definition admin_api :: "('c, 't, 'db) Env \<Rightarrow> Request \<Rightarrow> ('c, 't, 'db) Admin \<Rightarrow> reply \<times> ('c, 't, 'db) Admin" where
  "admin_api ev q s =
     (case hq_path q of
        p # path \<Rightarrow>
          if p \<noteq> ''api'' then ((page_not_found, NoData), s)
          else if login_route q path then h_Login ev (bind_login (ev_unbound ev) (bd_login (hq_body q))) s
          else if internal_route q path then route_internal ev q (path ! 1) s
          else (case JWTAuth (ev_jwt ev) (ev_authNow ev) (ev_users ev) (hq_auth q) of
             Inl resp \<Rightarrow> (if route_api ev q None path s = None then ((page_not_found, NoData), s) else ((resp, NoData), s))
           | Inr ss \<Rightarrow> (case route_api ev q (Some ss) path s of
               None \<Rightarrow> ((page_not_found, NoData), s) | Some res \<Rightarrow> res))
      | [] \<Rightarrow> ((page_not_found, NoData), s))"

end
