(* ===== verification/Admin_Props.thy ===== *)
theory Admin_Props
  imports Admin_API
begin

text \<open>
  What the admin API lets through: which requests can change the state, what a login opens, how a refused
  login is answered, what a token's role is used for, and how large a listing can get.
\<close>

section \<open>The JWT library\<close>

text \<open>What the library documents of the calls: the dates of the claims are written in whole seconds, and a
  token parses to the claims it was signed with under the same secret until it expires, after which the
  error is that of an expired token.\<close>

definition numeric_date :: "time \<Rightarrow> time" where "numeric_date t = t - t mod second"

definition numeric_dates :: "Claims \<Rightarrow> Claims" where
  "numeric_dates c = c\<lparr>cl_ExpiresAt := numeric_date (cl_ExpiresAt c), cl_IssuedAt := numeric_date (cl_IssuedAt c)\<rparr>"

definition issues_tokens :: "jwt \<Rightarrow> bool" where
  "issues_tokens jw \<longleftrightarrow> (\<forall>secret c tok key now. jw_Sign jw secret c = Inr tok \<longrightarrow> key True = Inr secret \<longrightarrow>
     (if now < cl_ExpiresAt (numeric_dates c) then jw_Parse jw key now tok = Inr (numeric_dates c, True)
      else \<exists>err. jw_Parse jw key now tok = Inl (JwtExpired err)))"

section \<open>Credentials\<close>

lemma respond_status: "r_status (fst (respond res f)) = 200 \<longleftrightarrow> (\<exists>x. res = Inr x) \<or>
    (\<exists>err. res = Inl err \<and> r_status (resp_Fail err) = 200)"
  by (auto simp: respond_def resp_OK_def split: sum.splits)

lemma on_jobs_same: "on_jobs f s = (x, s1) \<Longrightarrow> snd (f (ts_jobs (ad_tpl s))) = ts_jobs (ad_tpl s) \<Longrightarrow> s1 = s"
  by (auto simp: on_jobs_def on_tpl_def Let_def split: prod.splits)

lemma on_exec_same: "snd (f (exec_view s)) = exec_view s \<Longrightarrow> snd (on_exec f s) = s"
  by (simp add: on_exec_def on_jobs_def on_tpl_def exec_view_def ad_db_def Let_def case_prod_beta)

lemma admin_server_refused:
  "header \<noteq> admin_token tok \<Longrightarrow> snd (admin_server tok unbound tb now storeNow header path req e) = e"
  by (simp add: admin_server_def InternalAuth_def)

lemma us_Login_Inl: "us_Login jw bc tb clock us req db = (Inl err, db1) \<Longrightarrow> db1 = db"
  by (auto simp: us_Login_def Let_def split: sum.splits if_splits)

lemma h_Login_refused: "h_Login ev body s = (reply, s1) \<Longrightarrow> snd reply = NoData \<Longrightarrow> s1 = s"
  by (cases body) (auto simp: h_Login_def on_jobs_def on_tpl_def on_db_def respond_def Let_def dest: us_Login_Inl
      split: sum.splits prod.splits)

text \<open>A request that changes anything is a login that was answered with a token, a call of an
  executor with the shared token, or carries a token that \<open>JWTAuth\<close> accepts.\<close>

lemma changes_need_credentials:
  assumes "snd (admin_api ev q s) \<noteq> s"
  shows "(hq_path q = [''api'', ''login''] \<and> (\<exists>p. snd (fst (admin_api ev q s)) = LoginData p)) \<or>
    (take 2 (hq_path q) = [''api'', ''executor''] \<and> hq_token q = admin_token (ev_internalToken ev)) \<or>
    (\<exists>ss. JWTAuth (ev_jwt ev) (ev_authNow ev) (ev_users ev) (hq_auth q) = Inr ss)"
proof -
  obtain path where path: "hq_path q = ''api'' # path"
    using assms by (auto simp: admin_api_def split: list.splits if_splits)
  consider (login) "login_route q path" | (internal) "internal_route q path" "\<not> login_route q path"
    | (api) "\<not> login_route q path" "\<not> internal_route q path" by blast
  then show ?thesis
  proof cases
    case login
    let ?r = "h_Login ev (bind_login (ev_unbound ev) (bd_login (hq_body q))) s"
    have eq: "admin_api ev q s = ?r" using login path by (simp add: admin_api_def)
    have "snd (fst ?r) \<noteq> NoData" using assms h_Login_refused [of ev _ s "fst ?r" "snd ?r"] unfolding eq by auto
    then have "\<exists>p. snd (fst ?r) = LoginData p"
      by (auto simp: h_Login_def bad_request_def respond_def case_prod_beta Let_def split: sum.splits)
    then show ?thesis using login path unfolding eq by (simp add: login_route_def)
  next
    case internal
    have eq: "admin_api ev q s = route_internal ev q (path ! 1) s" using internal path by (simp add: admin_api_def)
    have "hq_token q = admin_token (ev_internalToken ev)"
    proof (rule ccontr)
      assume "hq_token q \<noteq> admin_token (ev_internalToken ev)"
      then have "snd (route_internal ev q (path ! 1) s) = s"
        by (simp add: route_internal_def case_prod_beta Let_def on_exec_same admin_server_refused)
      then show False using assms eq by simp
    qed
    then show ?thesis using internal path by (auto simp: internal_route_def)
  next
    case api
    then show ?thesis
      using assms path by (cases "JWTAuth (ev_jwt ev) (ev_authNow ev) (ev_users ev) (hq_auth q)") (simp_all add: admin_api_def)
  qed
qed

section \<open>Sessions\<close>

lemma us_Login_Inr:
  assumes "us_Login jw bc tb clock us req db = (Inr p, db1)"
  shows "users_FindByUsername tb (lr_Username req) db = Inr (lp_User p)" "IsActive (lp_User p)"
    "bc_Compare bc (su_Password (lp_User p)) (lr_Password req) = None"
    "jw_Sign jw (us_jwtSecret us) (login_claims (lp_User p) (lp_ExpireAt p) (clock 1)) = Inr (lp_Token p)"
  using assms by (auto simp: us_Login_def Let_def split: sum.splits if_splits)

lemma h_Login_answered:
  assumes "snd (fst (h_Login ev body s)) = LoginData p"
  obtains req db1 where "body = Inr req"
    "us_Login (ev_jwt ev) (ev_bcrypt ev) (ev_tables ev) (ev_clock ev) (ev_users ev) req (ad_db s) = (Inr p, db1)"
  using assms that
  by (cases "us_Login (ev_jwt ev) (ev_bcrypt ev) (ev_tables ev) (ev_clock ev) (ev_users ev) (projr body) (ad_db s)")
    (auto simp: h_Login_def bad_request_def respond_def on_jobs_def on_tpl_def on_db_def ad_db_def Let_def
      split: sum.splits prod.splits)

lemma split_bearer: "split_auth (''Bearer '' @ tok) = Some (''Bearer'', tok)"
  by (simp add: split_auth_def)

lemma bearer_scheme: "to_upper ''Bearer'' = to_upper ''bearer''"
  by code_simp

lemma issued_parse:
  assumes "issues_tokens jw" "jw_Sign jw (us_jwtSecret us) c = Inr tok"
  shows "us_ParseToken jw now us tok =
    (if now < cl_ExpiresAt (numeric_dates c) then Inr (numeric_dates c) else Inl (XErr (xerr_New CodeTokenExpired [])))"
proof -
  have "hmac_key (us_jwtSecret us) True = Inr (us_jwtSecret us)" by (simp add: hmac_key_def)
  then have "if now < cl_ExpiresAt (numeric_dates c) then jw_Parse jw (hmac_key (us_jwtSecret us)) now tok = Inr (numeric_dates c, True)
      else \<exists>err. jw_Parse jw (hmac_key (us_jwtSecret us)) now tok = Inl (JwtExpired err)"
    using assms unfolding issues_tokens_def by blast
  then show ?thesis by (auto simp: us_ParseToken_def split: if_splits)
qed

lemma JWTAuth_bearer:
  "JWTAuth jw now us (''Bearer '' @ tok) = (case us_ParseToken jw now us tok of
     Inl err \<Rightarrow> Inl (resp_Fail err)
   | Inr c \<Rightarrow> Inr \<lparr>ss_userID = cl_UserID c, ss_username = cl_Username c, ss_userRole = cl_Role c\<rparr>)"
  unfolding JWTAuth_def split_bearer by (simp add: bearer_scheme del: append_Cons)

text \<open>Property C24: a login that is answered with a token was for an active user with that password, and the
  token, sent as a bearer token to any process with the same secret, is that user's session until the last
  full second before the announced expiry; from then on it is refused as expired.\<close>

theorem login_opens_session:
  assumes "issues_tokens (ev_jwt ev)" "hq_method q = ''POST''" "hq_path q = [''api'', ''login'']"
    and "snd (fst (admin_api ev q s)) = LoginData p"
  shows "\<exists>req. bd_login (hq_body q) = Inr req \<and> users_FindByUsername (ev_tables ev) (lr_Username req) (ad_db s) = Inr (lp_User p) \<and>
    IsActive (lp_User p) \<and> bc_Compare (ev_bcrypt ev) (su_Password (lp_User p)) (lr_Password req) = None \<and>
    JWTAuth (ev_jwt ev) now (ev_users ev) (''Bearer '' @ lp_Token p) =
      (if now < numeric_date (lp_ExpireAt p)
       then Inr \<lparr>ss_userID = su_ID (lp_User p), ss_username = su_Username (lp_User p), ss_userRole = su_Role (lp_User p)\<rparr>
       else Inl (resp_Fail (XErr (xerr_New CodeTokenExpired []))))"
proof -
  let ?body = "bind_login (ev_unbound ev) (bd_login (hq_body q))"
  have "snd (fst (h_Login ev ?body s)) = LoginData p"
    using assms(4) by (simp add: admin_api_def assms(2,3) login_route_def)
  then obtain req db1 where b: "?body = Inr req"
    and l: "us_Login (ev_jwt ev) (ev_bcrypt ev) (ev_tables ev) (ev_clock ev) (ev_users ev) req (ad_db s) = (Inr p, db1)"
    by (rule h_Login_answered)
  note L = us_Login_Inr [OF l]
  let ?c = "login_claims (lp_User p) (lp_ExpireAt p) (ev_clock ev 1)"
  have c: "cl_ExpiresAt (numeric_dates ?c) = numeric_date (lp_ExpireAt p)" by (simp add: numeric_dates_def login_claims_def)
  have "us_ParseToken (ev_jwt ev) now (ev_users ev) (lp_Token p) =
      (if now < numeric_date (lp_ExpireAt p) then Inr (numeric_dates ?c) else Inl (XErr (xerr_New CodeTokenExpired [])))"
    using issued_parse [OF assms(1) L(4), of now] unfolding c .
  then have "JWTAuth (ev_jwt ev) now (ev_users ev) (''Bearer '' @ lp_Token p) =
      (if now < numeric_date (lp_ExpireAt p)
       then Inr \<lparr>ss_userID = su_ID (lp_User p), ss_username = su_Username (lp_User p), ss_userRole = su_Role (lp_User p)\<rparr>
       else Inl (resp_Fail (XErr (xerr_New CodeTokenExpired []))))"
    unfolding JWTAuth_bearer by (simp add: numeric_dates_def login_claims_def)
  moreover have "bd_login (hq_body q) = Inr req" using b by (auto simp: bind_login_def bind_check_def split: sum.splits if_splits)
  ultimately show ?thesis using L by blast
qed

lemma h_Login_reply:
  "fst (h_Login ev (Inr req) s) =
     respond (fst (us_Login (ev_jwt ev) (ev_bcrypt ev) (ev_tables ev) (ev_clock ev) (ev_users ev) req (ad_db s))) LoginData"
  by (simp add: h_Login_def on_jobs_def on_tpl_def on_db_def ad_db_def Let_def case_prod_beta)

text \<open>A login is answered with 200, 400 or 500, whatever the reason: a wrong password, an unknown
  name, a disabled account, which all carry messages of their own, are 500 like a failing database. An
  unknown name and a wrong password get the same answer.\<close>

lemma login_refusals:
  "r_status (fst (fst (h_Login ev body s))) =
     (case body of Inl err \<Rightarrow> 400
      | Inr req \<Rightarrow> (case users_FindByUsername (ev_tables ev) (lr_Username req) (ad_db s) of Inl err \<Rightarrow> 500
        | Inr u \<Rightarrow> if IsActive u \<and> bc_Compare (ev_bcrypt ev) (su_Password u) (lr_Password req) = None \<and>
              \<not> isl (jw_Sign (ev_jwt ev) (us_jwtSecret (ev_users ev)) (login_claims u (ev_clock ev 0 + us_jwtExpireDur (ev_users ev)) (ev_clock ev 1)))
            then 200 else 500)) \<and>
   {fst (h_Login ev (Inr req) s) | req. case users_FindByUsername (ev_tables ev) (lr_Username req) (ad_db s) of
        Inl err \<Rightarrow> err = RecordNotFound
      | Inr u \<Rightarrow> IsActive u \<and> bc_Compare (ev_bcrypt ev) (su_Password u) (lr_Password req) \<noteq> None} \<subseteq>
     {(\<lparr>r_status = 500, r_Code = CodePasswordWrong, r_Message = ''username or password incorrect''\<rparr>, NoData)}"
  (is "_ = ?st \<and> ?failed \<subseteq> ?answer")
proof (intro conjI subsetI)
  show "r_status (fst (fst (h_Login ev body s))) = ?st"
  proof (cases body)
    case (Inr req)
    then show ?thesis
      by (cases "users_FindByUsername (ev_tables ev) (lr_Username req) (ad_db s)")
        (auto simp: h_Login_reply us_Login_def respond_def Let_def resp_OK_def HTTPStatus_def code_defs split: sum.splits if_splits)
  qed (simp add: h_Login_def bad_request_def resp_BadRequest_def)
next
  fix r assume "r \<in> ?failed"
  then obtain req where r: "r = fst (h_Login ev (Inr req) s)"
    and c: "case users_FindByUsername (ev_tables ev) (lr_Username req) (ad_db s) of Inl err \<Rightarrow> err = RecordNotFound
      | Inr u \<Rightarrow> IsActive u \<and> bc_Compare (ev_bcrypt ev) (su_Password u) (lr_Password req) \<noteq> None" by blast
  have "r = respond (Inl (XErr (xerr_New CodePasswordWrong []))) LoginData"
    unfolding r h_Login_reply us_Login_def using c
    by (cases "users_FindByUsername (ev_tables ev) (lr_Username req) (ad_db s)") auto
  then show "r \<in> ?answer"
    by (simp add: respond_def HTTPStatus_def xerr_New_def Message_def codeMessages_def code_defs)
qed

section \<open>Roles\<close>

lemma auth_irrelevant [simp]:
  "query_of (q\<lparr>hq_auth := a\<rparr>) = query_of q" "queryInt (q\<lparr>hq_auth := a\<rparr>) = queryInt q" "list_query (q\<lparr>hq_auth := a\<rparr>) = list_query q"
  by (simp_all add: query_of_def [abs_def] queryInt_def [abs_def] list_query_def)

lemma role_irrelevant [simp]:
  "CurrentUserID (Some (ss\<lparr>ss_userRole := r\<rparr>)) = CurrentUserID (Some ss)"
  "CurrentUsername (Some (ss\<lparr>ss_userRole := r\<rparr>)) = CurrentUsername (Some ss)"
  "currentUsername (Some (ss\<lparr>ss_userRole := r\<rparr>)) = currentUsername (Some ss)"
  by (simp_all add: CurrentUserID_def CurrentUsername_def currentUsername_def)

lemma handlers_role:
  "h_CreateTemplate ev (Some (ss\<lparr>ss_userRole := r\<rparr>)) = h_CreateTemplate ev (Some ss)"
  "h_InstantiateTemplate ev (Some (ss\<lparr>ss_userRole := r\<rparr>)) = h_InstantiateTemplate ev (Some ss)"
  "h_CreateJob ev (Some (ss\<lparr>ss_userRole := r\<rparr>)) = h_CreateJob ev (Some ss)"
  "h_GetCurrentUser ev (Some (ss\<lparr>ss_userRole := r\<rparr>)) = h_GetCurrentUser ev (Some ss)"
  "h_ListTemplates ev (q\<lparr>hq_auth := a\<rparr>) = h_ListTemplates ev q" "h_ListJobs ev (q\<lparr>hq_auth := a\<rparr>) = h_ListJobs ev q"
  "h_ListJobLogs ev i (q\<lparr>hq_auth := a\<rparr>) = h_ListJobLogs ev i q" "h_ListExecutors ev (q\<lparr>hq_auth := a\<rparr>) = h_ListExecutors ev q"
  by (simp_all add: fun_eq_iff h_CreateTemplate_def h_InstantiateTemplate_def h_CreateJob_def h_GetCurrentUser_def
      h_ListTemplates_def h_ListJobs_def h_ListJobLogs_def h_ListExecutors_def Let_def split: sum.split option.split)

lemma route_api_role: "route_api ev (q\<lparr>hq_auth := a\<rparr>) (Some (ss\<lparr>ss_userRole := r\<rparr>)) path s = route_api ev q (Some ss) path s"
proof -
  have "route_templates ev (q\<lparr>hq_auth := a\<rparr>) (Some (ss\<lparr>ss_userRole := r\<rparr>)) ps s = route_templates ev q (Some ss) ps s" for ps
    by (simp add: route_templates_def handlers_role Let_def split: list.split)
  moreover have "route_jobs ev (q\<lparr>hq_auth := a\<rparr>) (Some (ss\<lparr>ss_userRole := r\<rparr>)) ps s = route_jobs ev q (Some ss) ps s" for ps
  proof (cases ps)
    case (Cons i qs)
    then show ?thesis by (cases qs; cases "tl qs") (simp_all add: route_jobs_def handlers_role Let_def)
  qed (simp add: route_jobs_def handlers_role Let_def)
  ultimately show ?thesis
    by (auto simp: route_api_def route_logs_def handlers_role split: list.split)
qed

text \<open>Two tokens of one user that differ in the role get the same answers and the same effects on every route under
  \<open>/api\<close> of \<open>RegisterRoutes\<close>; \<open>Main_Props\<close> extends this to the routes of \<open>main\<close>.\<close>

lemma api_role_is_ignored:
  assumes "JWTAuth (ev_jwt ev) (ev_authNow ev) (ev_users ev) (hq_auth q) = Inr ss"
    and "JWTAuth (ev_jwt ev) (ev_authNow ev) (ev_users ev) a = Inr (ss\<lparr>ss_userRole := r\<rparr>)"
  shows "admin_api ev (q\<lparr>hq_auth := a\<rparr>) s = admin_api ev q s"
proof -
  have "login_route (q\<lparr>hq_auth := a\<rparr>) = login_route q" "internal_route (q\<lparr>hq_auth := a\<rparr>) = internal_route q"
    "route_internal ev (q\<lparr>hq_auth := a\<rparr>) = route_internal ev q"
    by (simp_all add: login_route_def [abs_def] internal_route_def [abs_def] route_internal_def [abs_def])
  then show ?thesis by (simp add: admin_api_def assms route_api_role split: list.split)
qed

section \<open>Page sizes\<close>

text \<open>What GORM documents of \<open>Limit\<close> and \<open>Offset\<close>: a negative limit is none, and neither is an offset that is
  not positive.\<close>

definition pages_rows :: "('db \<Rightarrow> 'r list) \<Rightarrow> ('r, 'db) gorm \<Rightarrow> bool" where
  "pages_rows rows g \<longleftrightarrow> (\<forall>q db n. qy_limit q = Some n \<longrightarrow> (\<exists>rs. gm_Find g q db = Inr rs \<and>
     (if n < 0 then (case qy_offset q of None \<Rightarrow> 0 | Some k \<Rightarrow> k) \<le> 0 \<longrightarrow> length rs = length (filter (qy_where q) (rows db))
      else length rs \<le> nat n)))"

text \<open>The page of jobs is cut to 100 rows whatever page size is asked for, except that a negative
  one on the first page gets the whole table.\<close>

lemma page_size_cap:
  assumes "pages_rows rows (tb_jobs (ev_tables ev))" "h_ListJobs ev q s = (resp, JobPage js cnt page pageSize)"
  shows "(0 \<le> pageSize \<and> length js \<le> 100) \<or>
    (pageSize < 0 \<and> (page = 1 \<longrightarrow> length js = length (filter (jobs_where (tb_like (ev_tables ev)) (list_query q)) (rows (ad_db s)))))"
proof -
  let ?jq = "list_query q"
  have l: "jobs_List (ev_tables ev) ?jq (ad_db s) = Inr (js, cnt)" and p: "page = jq_Page ?jq" "pageSize = jq_PageSize ?jq"
    using assms(2) by (cases "jobs_List (ev_tables ev) ?jq (sv_db (ts_jobs (ad_tpl s)))";
        auto simp: h_ListJobs_def svc_ListJobs_def plain_error_def respond_def ad_db_def Let_def)+
  have cap: "pageSize \<le> 100" by (simp add: p list_query_def Let_def)
  let ?q = "\<lparr>qy_where = jobs_where (tb_like (ev_tables ev)) ?jq, qy_order = Desc ji_ID,
    qy_offset = Some (i64 ((page - 1) * pageSize)), qy_limit = Some pageSize\<rparr>"
  have f: "gm_Find (tb_jobs (ev_tables ev)) ?q (ad_db s) = Inr js"
    using l by (auto simp: jobs_List_def p split: sum.splits)
  have "i64 0 = 0" by (simp add: i64_def)
  then show ?thesis using assms(1) [unfolded pages_rows_def, rule_format, of ?q pageSize "ad_db s"] f cap
    by (auto split: if_splits)
qed

section \<open>An instance\<close>

text \<open>A user, a job, and a JWT library whose tokens are the claims written out after the secret.\<close>

definition put_nat :: "nat \<Rightarrow> string" where "put_nat n = replicate n CHR ''1'' @ ''0''"

definition put_int :: "int \<Rightarrow> string" where "put_int i = (if i < 0 then ''-'' else ''+'') @ put_nat (nat \<bar>i\<bar>)"

definition put_str :: "string \<Rightarrow> string" where "put_str s = put_nat (length s) @ s"

definition get_nat :: "string \<Rightarrow> nat \<times> string" where
  "get_nat s = (length (takeWhile (\<lambda>c. c = CHR ''1'') s), drop 1 (dropWhile (\<lambda>c. c = CHR ''1'') s))"

definition get_int :: "string \<Rightarrow> int \<times> string" where
  "get_int s = (let (n, r) = get_nat (drop 1 s) in (if take 1 s = ''-'' then - int n else int n, r))"

definition get_str :: "string \<Rightarrow> string \<times> string" where
  "get_str s = (let (n, r) = get_nat s in (take n r, drop n r))"

lemma get_put [simp]:
  "get_nat (put_nat n @ r) = (n, r)" "get_int (put_int i @ r) = (i, r)" "get_str (put_str s @ r) = (s, r)"
  by (simp_all add: get_nat_def put_nat_def get_int_def put_int_def get_str_def put_str_def takeWhile_append dropWhile_append)

definition demo_token :: "string \<Rightarrow> Claims \<Rightarrow> string" where
  "demo_token secret c = put_str secret @ put_int (cl_UserID c) @ put_str (cl_Username c) @ put_int (cl_Role c) @
     put_int (cl_ExpiresAt c) @ put_int (cl_IssuedAt c) @ put_str (cl_Issuer c)"

definition demo_claims :: "string \<Rightarrow> string \<times> Claims" where
  "demo_claims tok =
     (let (secret, r) = get_str tok; (uid, r) = get_int r; (name, r) = get_str r; (role, r) = get_int r;
          (expires, r) = get_int r; (issued, r) = get_int r; (issuer, r) = get_str r
      in (secret, \<lparr>cl_UserID = uid, cl_Username = name, cl_Role = role, cl_ExpiresAt = expires, cl_IssuedAt = issued,
            cl_Issuer = issuer\<rparr>))"

lemma demo_claims_token: "demo_claims (demo_token secret c) = (secret, c)"
proof -
  have "get_str (put_str (cl_Issuer c)) = (cl_Issuer c, [])" using get_put(3) [of "cl_Issuer c" "[]"] by simp
  then show ?thesis by (simp add: demo_claims_def demo_token_def)
qed

definition demo_jwt :: jwt where
  "demo_jwt = \<lparr>jw_Sign = (\<lambda>secret c. Inr (demo_token secret (numeric_dates c))),
     jw_Parse = (\<lambda>key now tok. let (secret, c) = demo_claims tok
       in if key True \<noteq> Inr secret \<or> demo_token secret c \<noteq> tok then Inl (JwtOther ''signature is invalid'')
          else if now < cl_ExpiresAt c then Inr (c, True) else Inl (JwtExpired ''token is expired''))\<rparr>"

lemma demo_jwt_issues: "issues_tokens demo_jwt"
  by (simp add: issues_tokens_def demo_jwt_def demo_claims_token)


definition demo_bcrypt :: bcrypt where
  "demo_bcrypt = \<lparr>bc_Compare = (\<lambda>hash p. if hash = ''#'' @ p then None else Some ''hashedPassword is not the hash''),
     bc_Generate = (\<lambda>p. Inr (''#'' @ p))\<rparr>"

definition demo_user :: SysUser where
  "demo_user = \<lparr>su_ID = 1, su_Username = ''ann'', su_Password = ''#secret'', su_Nickname = [], su_Email = [], su_Role = RoleNormal,
     su_Status = UserEnabled, su_LastLogin = None\<rparr>"

definition demo_env :: "time \<Rightarrow> (unit, string, list_db) Env" where
  "demo_env now = \<lparr>ev_libs = demo_libs, ev_tables = list_tables, ev_net = (\<lambda>url body. NoResponse ''refused''), ev_jwt = demo_jwt,
     ev_bcrypt = demo_bcrypt, ev_authNow = now, ev_clock = (\<lambda>k. now + int k), ev_unbound = ''required'', ev_order = [],
     ev_users = \<lparr>us_jwtSecret = ''key'', us_jwtExpireDur = 3600 * second\<rparr>, ev_internalToken = ''tok''\<rparr>"

definition demo_admin :: "(unit, string, list_db) Admin" where
  "demo_admin = \<lparr>ad_tpl = \<lparr>ts_registry = demo_registry, ts_heap = demo_label_heap,
       ts_jobs = demo_service (demo_db\<lparr>ld_users := [demo_user]\<rparr>)\<rparr>, ad_store = None, ad_timeout = 90 * second\<rparr>"

definition demo_call :: "string \<Rightarrow> string list \<Rightarrow> string \<Rightarrow> Request" where
  "demo_call m path auth = \<lparr>hq_method = m, hq_path = path, hq_query = [''page_size'' \<mapsto> ''-1''], hq_auth = auth, hq_token = [],
     hq_body = \<lparr>bd_login = Inr \<lparr>lr_Username = ''ann'', lr_Password = ''secret''\<rparr>, bd_createJob = Inl ''EOF'',
       bd_updateJob = Inl ''EOF'', bd_param = [], bd_register = \<lparr>rr_AppName = [], rr_Title = [], rr_Address = [], rr_Version = []\<rparr>,
       bd_createTpl = Inl ''EOF'', bd_updateTpl = Inl ''EOF'', bd_instantiate = Inl ''EOF'', bd_batch = Inl ''EOF''\<rparr>\<rparr>"

definition demo_login :: Request where "demo_login = demo_call ''POST'' [''api'', ''login''] []"

lemma demo_login_reply:
  "\<exists>p. snd (fst (admin_api (demo_env 0) demo_login demo_admin)) = LoginData p \<and> lp_User p = demo_user \<and>
     lp_ExpireAt p = 3600 * second" (is ?reply)
  "snd (admin_api (demo_env 0) demo_login demo_admin) \<noteq> demo_admin" (is ?change)
proof -
  note defs = admin_api_def demo_login_def demo_call_def login_route_def h_Login_def bind_login_def bind_check_def
    on_jobs_def on_tpl_def on_db_def us_Login_def demo_admin_def demo_env_def users_FindByUsername_def list_db_simps
    demo_user_def IsActive_def demo_bcrypt_def demo_jwt_def users_UpdateLastLogin_def Let_def
  show ?reply by (simp add: defs respond_def)
  show ?change by (simp add: defs demo_service_def demo_db_def)
qed

lemma changes_need_credentials_witness:
  "\<exists>p. snd (fst (admin_api (demo_env 0) demo_login demo_admin)) = LoginData p"
  using changes_need_credentials [OF demo_login_reply(2)] by (auto simp: demo_login_def demo_call_def JWTAuth_def)

lemma login_opens_session_witness:
  "\<exists>p. snd (fst (admin_api (demo_env 0) demo_login demo_admin)) = LoginData p \<and>
     JWTAuth demo_jwt (10 * second) (ev_users (demo_env 0)) (''Bearer '' @ lp_Token p) =
       Inr \<lparr>ss_userID = 1, ss_username = ''ann'', ss_userRole = RoleNormal\<rparr>"
proof -
  obtain p where p: "snd (fst (admin_api (demo_env 0) demo_login demo_admin)) = LoginData p" "lp_User p = demo_user"
    "lp_ExpireAt p = 3600 * second" using demo_login_reply(1) by blast
  have jwt: "ev_jwt (demo_env 0) = demo_jwt" by (simp add: demo_env_def)
  have "issues_tokens (ev_jwt (demo_env 0))" by (simp add: jwt demo_jwt_issues)
  then show ?thesis
    using login_opens_session [of "demo_env 0" demo_login demo_admin p "10 * second"] p
    by (auto simp: jwt demo_login_def demo_call_def numeric_date_def second_def demo_user_def)
qed

definition demo_session :: "user_role \<Rightarrow> string" where
  "demo_session role = ''Bearer '' @ demo_token ''key''
     \<lparr>cl_UserID = 1, cl_Username = ''ann'', cl_Role = role, cl_ExpiresAt = 100, cl_IssuedAt = 0, cl_Issuer = ''go-jobs''\<rparr>"

lemma demo_session_auth: "JWTAuth (ev_jwt (demo_env 5)) (ev_authNow (demo_env 5)) (ev_users (demo_env 5)) (demo_session role) =
    Inr \<lparr>ss_userID = 1, ss_username = ''ann'', ss_userRole = role\<rparr>"
  unfolding demo_session_def JWTAuth_bearer
  by (simp add: us_ParseToken_def demo_env_def demo_jwt_def demo_claims_token hmac_key_def)

lemma list_tables_pages: "pages_rows ld_jobs (tb_jobs list_tables)"
  by (auto simp: pages_rows_def list_db_simps Let_def split: option.splits row_order.splits)

lemma page_size_cap_witness:
  "\<exists>resp js cnt. h_ListJobs (demo_env 5) (demo_call ''GET'' [''api'', ''jobs''] []) demo_admin = (resp, JobPage js cnt 1 (- 1)) \<and> length js = 1"
proof -
  let ?q = "demo_call ''GET'' [''api'', ''jobs''] []"
  have "queryInt ?q ''page_size'' 20 = - 1" "queryInt ?q ''page'' 1 = 1"
    by (simp_all add: queryInt_def query_of_def demo_call_def) (code_simp)
  then have jq: "list_query ?q = \<lparr>jq_ExecutorApp = [], jq_JobName = [], jq_Status = None, jq_Page = 1, jq_PageSize = - 1\<rparr>"
    by (simp add: list_query_def query_of_def Let_def demo_call_def)
  then obtain resp js cnt where l: "h_ListJobs (demo_env 5) ?q demo_admin = (resp, JobPage js cnt 1 (- 1))"
    by (simp add: h_ListJobs_def svc_ListJobs_def jobs_List_def list_db_simps demo_env_def plain_error_def respond_def Let_def)
  have "pages_rows ld_jobs (tb_jobs (ev_tables (demo_env 5)))" by (simp add: demo_env_def list_tables_pages)
  then have "length js = 1" using page_size_cap [OF _ l]
    by (simp add: jq jobs_where_def demo_env_def ad_db_def demo_admin_def demo_db_def)
  then show ?thesis using l by blast
qed

end
