(* ===== verification/Cluster.thy ===== *)
theory Cluster
  imports Start_Props
begin

text \<open>
  Several scheduler nodes: the lock of \<open>pkg/redis/redis.go\<close> around a trigger, the leader election of
  \<open>pkg/etcd/etcd.go\<close>, and what \<open>cmd/admin/main.go\<close> makes of them.

  The commands of the Redis server are an argument (\<open>RedisCmds\<close>); the Lua scripts, which the server runs
  atomically, are modelled. A request may get lost before or after the server has executed it. What etcd
  answers a node (\<open>Campaign\<close>, the values of \<open>Observe\<close>) is chosen by the environment.
\<close>

section \<open>The Redis lock\<close>

record 'r RedisCmds =
  rc_Get :: "string \<Rightarrow> time \<Rightarrow> 'r \<Rightarrow> string option"
  rc_SetNX :: "string \<Rightarrow> string \<Rightarrow> duration \<Rightarrow> time \<Rightarrow> 'r \<Rightarrow> bool \<times> 'r"
  rc_Del :: "string \<Rightarrow> time \<Rightarrow> 'r \<Rightarrow> int \<times> 'r"
  rc_PExpire :: "string \<Rightarrow> int \<Rightarrow> time \<Rightarrow> 'r \<Rightarrow> int \<times> 'r"

datatype delivery = Answered | LostRequest string | LostReply string

definition with_net :: "delivery \<Rightarrow> 'a \<times> 'r \<Rightarrow> 'r \<Rightarrow> (string + 'a) \<times> 'r" where
  "with_net dl res r = (case dl of Answered \<Rightarrow> (Inr (fst res), snd res) | LostRequest e \<Rightarrow> (Inl e, r)
     | LostReply e \<Rightarrow> (Inl e, snd res))"

datatype lock_error = ErrRelease string string | ErrNotOwned string string | ErrExtend string string

definition TryLock :: "'r RedisCmds \<Rightarrow> delivery \<Rightarrow> string \<Rightarrow> string \<Rightarrow> duration \<Rightarrow> time \<Rightarrow> 'r \<Rightarrow> (string + bool) \<times> 'r" where
  "TryLock rc dl key val ttl now r = with_net dl (rc_SetNX rc key val ttl now r) r"

definition release_script :: "'r RedisCmds \<Rightarrow> string \<Rightarrow> string \<Rightarrow> time \<Rightarrow> 'r \<Rightarrow> int \<times> 'r" where
  "release_script rc key val now r = (if rc_Get rc key now r = Some val then rc_Del rc key now r else (0, r))"

definition redis_ReleaseLock :: "'r RedisCmds \<Rightarrow> delivery \<Rightarrow> string \<Rightarrow> string \<Rightarrow> time \<Rightarrow> 'r \<Rightarrow>
    lock_error option \<times> 'r" where
  "redis_ReleaseLock rc dl key val now r =
     (case with_net dl (release_script rc key val now r) r of
        (Inl err, r1) \<Rightarrow> (Some (ErrRelease key err), r1)
      | (Inr n, r1) \<Rightarrow> (if n = 0 then Some (ErrNotOwned key val) else None, r1))"

definition extend_script :: "'r RedisCmds \<Rightarrow> string \<Rightarrow> string \<Rightarrow> int \<Rightarrow> time \<Rightarrow> 'r \<Rightarrow> int \<times> 'r" where
  "extend_script rc key val msec now r =
     (if rc_Get rc key now r = Some val then rc_PExpire rc key msec now r else (0, r))"

definition ExtendLock :: "'r RedisCmds \<Rightarrow> delivery \<Rightarrow> string \<Rightarrow> string \<Rightarrow> duration \<Rightarrow> time \<Rightarrow> 'r \<Rightarrow>
    (lock_error + bool) \<times> 'r" where
  "ExtendLock rc dl key val ttl now r =
     (case with_net dl (extend_script rc key val (go_div ttl millisecond) now r) r of
        (Inl err, r1) \<Rightarrow> (Inl (ErrExtend key err), r1)
      | (Inr n, r1) \<Rightarrow> (Inr (n = 1), r1))"

definition lockTTL :: duration where "lockTTL = 30 * second"

text \<open>\<open>handleTask\<close> with the lock: the answer of \<open>TryLock\<close> decides, the deferred release runs at the end.\<close>

definition handle_with_lock :: "'r RedisCmds \<Rightarrow> delivery \<times> time \<Rightarrow> delivery \<times> time \<Rightarrow> ('c, 't) libs \<Rightarrow> answers \<Rightarrow>
    triggerTask \<Rightarrow> 'r \<times> ('c, 't) Scheduler \<Rightarrow> ('r \<times> ('c, 't) Scheduler) outcome" where
  "handle_with_lock rc tr rl lb an task rs =
     (case rs of (r, s) \<Rightarrow>
        let key = lock_key (ji_ID (tt_job task)); val = sd_nodeID s @ '':'' @ an_uuid an;
            (ans, r1) = TryLock rc (fst tr) key val lockTTL (snd tr) r
        in and_then (handleTask lb (an\<lparr>an_lock := ans\<rparr>) task s) (\<lambda>s1.
             Done (if ans = Inr True then snd (redis_ReleaseLock rc (fst rl) key val (snd rl) r1) else r1, s1)))"

section \<open>Leader election\<close>

datatype le_pc = LeTop | LeCampaign | LeRetry | LeWatch | LeReturned

datatype le_callback = OnElected | OnRevoked

text \<open>\<open>le_go\<close> holds the goroutines of callbacks that were started and have not finished, \<open>le_log\<close> the
  callbacks in the order they were started; \<open>le_app\<close> is what the callbacks act on.\<close>

record 's Election =
  le_nodeID :: string
  le_isLeader :: bool
  le_stopCh :: bool
  le_closed :: bool
  le_pc :: le_pc
  le_go :: "le_callback list"
  le_log :: "le_callback list"
  le_app :: 's

definition NewLeaderElection :: "string \<Rightarrow> 's \<Rightarrow> 's Election" where
  "NewLeaderElection nodeID app = \<lparr>le_nodeID = nodeID, le_isLeader = False, le_stopCh = False, le_closed = False,
     le_pc = LeTop, le_go = [], le_log = [], le_app = app\<rparr>"

definition le_spawn :: "le_callback \<Rightarrow> 's Election \<Rightarrow> 's Election" where
  "le_spawn c e = e\<lparr>le_go := le_go e @ [c], le_log := le_log e @ [c]\<rparr>"

definition le_won :: "'s Election \<Rightarrow> 's Election" where
  "le_won e = le_spawn OnElected (e\<lparr>le_isLeader := True, le_pc := LeWatch\<rparr>)"

definition le_lost :: "'s Election \<Rightarrow> 's Election" where
  "le_lost e = le_spawn OnRevoked (e\<lparr>le_isLeader := False, le_pc := LeTop\<rparr>)"

text \<open>Closing the channel twice panics (\<open>None\<close>). The results of \<open>Resign\<close> and \<open>Close\<close> are ignored.\<close>

definition le_Stop :: "'s Election \<Rightarrow> 's Election option" where
  "le_Stop e = (if le_stopCh e then None else Some (e\<lparr>le_stopCh := True, le_closed := True\<rparr>))"

definition IsLeader :: "'s Election \<Rightarrow> bool" where "IsLeader e = le_isLeader e"

text \<open>\<open>run\<close> is what a callback does to the application, \<open>own\<close> what the application does by itself. A watch
  event is the value of the leader key, \<open>None\<close> when it has none.\<close>

inductive le_step :: "(le_callback \<Rightarrow> 's \<Rightarrow> 's \<Rightarrow> bool) \<Rightarrow> ('s \<Rightarrow> 's \<Rightarrow> bool) \<Rightarrow> 's Election \<Rightarrow> 's Election \<Rightarrow> bool"
  for run own where
  le_return: "le_pc e = LeTop \<Longrightarrow> le_stopCh e \<Longrightarrow> le_step run own e (e\<lparr>le_pc := LeReturned\<rparr>)"
| le_campaign: "le_pc e = LeTop \<Longrightarrow> \<not> le_stopCh e \<Longrightarrow> le_step run own e (e\<lparr>le_pc := LeCampaign\<rparr>)"
| le_fail: "le_pc e = LeCampaign \<Longrightarrow> le_step run own e (e\<lparr>le_pc := LeRetry\<rparr>)"
| le_retry_stop: "le_pc e = LeRetry \<Longrightarrow> le_stopCh e \<Longrightarrow> le_step run own e (e\<lparr>le_pc := LeReturned\<rparr>)"
| le_retry: "le_pc e = LeRetry \<Longrightarrow> le_step run own e (e\<lparr>le_pc := LeTop\<rparr>)"
| le_elected: "le_pc e = LeCampaign \<Longrightarrow> le_step run own e (le_won e)"
| le_event: "le_pc e = LeWatch \<Longrightarrow> le_step run own e
    (case v of Some i \<Rightarrow> if i \<noteq> le_nodeID e then le_lost e else e | None \<Rightarrow> e)"
| le_watch_closed: "le_pc e = LeWatch \<Longrightarrow> le_step run own e (le_lost e)"
| le_stopped: "le_Stop e = Some e' \<Longrightarrow> le_step run own e e'"
| le_callback: "c \<in> set (le_go e) \<Longrightarrow> run c (le_app e) a \<Longrightarrow>
    le_step run own e (e\<lparr>le_go := remove1 c (le_go e), le_app := a\<rparr>)"
| le_own: "own (le_app e) a \<Longrightarrow> le_step run own e (e\<lparr>le_app := a\<rparr>)"

text \<open>The callbacks of \<open>main\<close>; an error of \<open>Start\<close> is only logged.\<close>

definition admin_callback :: "le_callback \<Rightarrow> ('c, 't) Scheduler \<Rightarrow> ('c, 't) Scheduler \<Rightarrow> bool" where
  "admin_callback c s s' \<longleftrightarrow> (case c of
     OnElected \<Rightarrow> \<exists>page online now ord dropped err. sched_Start page online now ord dropped s = Done (err, s')
   | OnRevoked \<Rightarrow> sched_Stop s = Done s')"

text \<open>The end of \<open>main\<close>: with an election only that is stopped.\<close>

definition shutdown :: "'s Election option \<Rightarrow> ('c, 't) Scheduler \<Rightarrow> 's Election option option \<times> ('c, 't) Scheduler outcome" where
  "shutdown el s = (case el of Some e \<Rightarrow> (Some (le_Stop e), Done s) | None \<Rightarrow> (None, sched_Stop s))"

end
