(* ===== verification/Cluster_Props.thy ===== *)
theory Cluster_Props
  imports Cluster
begin

text \<open>
  What the lock and the election guarantee between nodes, and what they do not. \<open>redis_ok\<close> states the
  documented behaviour of the Redis commands, read through \<open>look\<close>: the value of a key and its expiry time.
\<close>

section \<open>The lock\<close>

definition redis_ok :: "'r RedisCmds \<Rightarrow> ('r \<Rightarrow> string \<Rightarrow> (string \<times> time) option) \<Rightarrow> bool" where
  "redis_ok rc look \<longleftrightarrow>
     (\<forall>k t r. rc_Get rc k t r = (case look r k of Some (v, e) \<Rightarrow> if t < e then Some v else None | None \<Rightarrow> None)) \<and>
     (\<forall>k v ttl t r. 0 < ttl \<longrightarrow> (case rc_Get rc k t r of
        Some _ \<Rightarrow> rc_SetNX rc k v ttl t r = (False, r)
      | None \<Rightarrow> \<exists>r'. rc_SetNX rc k v ttl t r = (True, r') \<and> look r' = (look r)(k \<mapsto> (v, t + ttl)))) \<and>
     (\<forall>k t r. rc_Get rc k t r \<noteq> None \<longrightarrow> (\<exists>r'. rc_Del rc k t r = (1, r') \<and> look r' = (look r)(k := None))) \<and>
     (\<forall>k n t r v. rc_Get rc k t r = Some v \<longrightarrow>
        (\<exists>r'. rc_PExpire rc k n t r = (1, r') \<and> look r' = (look r)(k \<mapsto> (v, t + n * millisecond))))"

lemma redis_get:
  "redis_ok rc look \<Longrightarrow> rc_Get rc k t r = (case look r k of Some (v, e) \<Rightarrow> if t < e then Some v else None | None \<Rightarrow> None)"
  by (simp add: redis_ok_def)

lemma redis_setnx: "redis_ok rc look \<Longrightarrow> 0 < ttl \<Longrightarrow> (case rc_Get rc k t r of
    Some _ \<Rightarrow> rc_SetNX rc k v ttl t r = (False, r)
  | None \<Rightarrow> \<exists>r'. rc_SetNX rc k v ttl t r = (True, r') \<and> look r' = (look r)(k \<mapsto> (v, t + ttl)))"
  unfolding redis_ok_def by blast

lemma redis_taken: "redis_ok rc look \<Longrightarrow> 0 < ttl \<Longrightarrow> rc_Get rc k t r = Some x \<Longrightarrow> rc_SetNX rc k v ttl t r = (False, r)"
  using redis_setnx [where rc = rc and k = k and v = v and t = t and r = r] by fastforce

lemma redis_free: "redis_ok rc look \<Longrightarrow> 0 < ttl \<Longrightarrow> rc_Get rc k t r = None \<Longrightarrow>
    \<exists>r'. rc_SetNX rc k v ttl t r = (True, r') \<and> look r' = (look r)(k \<mapsto> (v, t + ttl))"
  using redis_setnx [where rc = rc and k = k and v = v and t = t and r = r] by fastforce

lemma redis_del: "redis_ok rc look \<Longrightarrow> rc_Get rc k t r = Some v \<Longrightarrow>
    \<exists>r'. rc_Del rc k t r = (1, r') \<and> look r' = (look r)(k := None)"
  unfolding redis_ok_def by blast

text \<open>A server that satisfies it: a map from keys to values with their expiry.\<close>

definition map_redis :: "(string \<rightharpoonup> string \<times> time) RedisCmds" where
  "map_redis =
     (let get = (\<lambda>k t r. case r k of Some (v, e) \<Rightarrow> if t < e then Some v else None | None \<Rightarrow> None)
      in \<lparr>rc_Get = get,
          rc_SetNX = (\<lambda>k v ttl t r. if get k t r = None then (True, r(k \<mapsto> (v, t + ttl))) else (False, r)),
          rc_Del = (\<lambda>k t r. if get k t r = None then (0, r) else (1, r(k := None))),
          rc_PExpire = (\<lambda>k n t r. case get k t r of None \<Rightarrow> (0, r) | Some v \<Rightarrow> (1, r(k \<mapsto> (v, t + n * millisecond))))\<rparr>)"

lemma map_redis_ok: "redis_ok map_redis (\<lambda>r. r)"
  by (auto simp: redis_ok_def map_redis_def Let_def split: option.split)

datatype lock_op = OpTry string duration | OpRelease string | OpExtend string duration

fun lock_do :: "'r RedisCmds \<Rightarrow> string \<Rightarrow> lock_op \<times> delivery \<times> time \<Rightarrow> 'r \<Rightarrow> 'r" where
  "lock_do rc key (OpTry v ttl, dl, t) r = snd (TryLock rc dl key v ttl t r)"
| "lock_do rc key (OpRelease v, dl, t) r = snd (redis_ReleaseLock rc dl key v t r)"
| "lock_do rc key (OpExtend v ttl, dl, t) r = snd (ExtendLock rc dl key v ttl t r)"

text \<open>What other clients may do while the lock of \<open>v\<close> runs until \<open>until\<close>.\<close>

fun foreign :: "string \<Rightarrow> time \<Rightarrow> lock_op \<times> delivery \<times> time \<Rightarrow> bool" where
  "foreign v until (OpTry w ttl, dl, t) \<longleftrightarrow> 0 < ttl \<and> t < until"
| "foreign v until (OpRelease w, dl, t) \<longleftrightarrow> w \<noteq> v \<and> t < until"
| "foreign v until (OpExtend w ttl, dl, t) \<longleftrightarrow> w \<noteq> v \<and> t < until"

lemma with_net_snd: "snd (with_net dl (n, r) r) = r"
  by (simp add: with_net_def split: delivery.split)

lemma with_net_False: "fst (with_net dl (False, r') r) \<noteq> Inr True"
  by (simp add: with_net_def split: delivery.split)

lemma TryLock_True:
  assumes "redis_ok rc look" "0 < ttl" "TryLock rc dl key v ttl t r = (Inr True, r')"
  shows "dl = Answered \<and> rc_Get rc key t r = None \<and> look r' = (look r)(key \<mapsto> (v, t + ttl))"
proof -
  have a: "dl = Answered" "rc_SetNX rc key v ttl t r = (True, r')"
    using assms(3) by (auto simp: TryLock_def with_net_def prod_eq_iff split: delivery.splits)
  have n: "rc_Get rc key t r = None"
    using a(2) redis_taken [OF assms(1,2)] by (cases "rc_Get rc key t r") auto
  show ?thesis using redis_free [OF assms(1,2) n, of v] a n by auto
qed

lemma foreign_keeps:
  assumes "redis_ok rc look" "look r key = Some (v, until)" "foreign v until (op, dl, t)"
  shows "lock_do rc key (op, dl, t) r = r"
proof -
  have get: "rc_Get rc key t r = Some v"
    using assms by (cases op) (auto simp: redis_get [OF assms(1)])
  show ?thesis
  proof (cases op)
    case (OpTry w ttl)
    then show ?thesis using assms(3) redis_taken [OF assms(1) _ get, of ttl w] by (simp add: TryLock_def with_net_snd)
  next
    case (OpRelease w)
    then have "release_script rc key w t r = (0, r)" using assms(3) get by (auto simp: release_script_def)
    then show ?thesis
      using OpRelease by (auto simp: redis_ReleaseLock_def with_net_def split: delivery.splits)
  next
    case (OpExtend w ttl)
    then have "extend_script rc key w (go_div ttl millisecond) t r = (0, r)"
      using assms(3) get by (auto simp: extend_script_def)
    then show ?thesis
      using OpExtend by (auto simp: ExtendLock_def with_net_def split: delivery.splits)
  qed
qed

lemma foreign_run:
  assumes "redis_ok rc look" "look r key = Some (v, until)" "list_all (foreign v until) ops"
  shows "fold (lock_do rc key) ops r = r"
  using assms(3)
proof (induction ops)
  case (Cons x ops)
  obtain op dl t where "x = (op, dl, t)" by (cases x)
  then show ?case using Cons foreign_keeps [OF assms(1,2)] by simp
qed simp

text \<open>Property C4: a lock taken with \<open>TryLock\<close> keeps everybody else out until it expires: whatever requests
  the other clients make in between, lost ones included, no \<open>TryLock\<close> of that key succeeds, and the owner's
  release is still accepted and frees the key.\<close>

theorem lock_exclusive:
  assumes "redis_ok rc look" "0 < ttl" "TryLock rc dl key v ttl t r = (Inr True, r1)"
    "list_all (foreign v (t + ttl)) ops" "0 < ttl'" "t' < t + ttl"
  shows "let r2 = fold (lock_do rc key) ops r1
    in fst (TryLock rc dl' key w ttl' t' r2) \<noteq> Inr True \<and>
       (\<exists>r3. redis_ReleaseLock rc Answered key v t' r2 = (None, r3) \<and> rc_Get rc key t' r3 = None)"
proof -
  have l: "look r1 key = Some (v, t + ttl)" using TryLock_True [OF assms(1-3)] by simp
  have get: "rc_Get rc key t' r1 = Some v" using l assms(6) by (simp add: redis_get [OF assms(1)])
  obtain r3 where d: "rc_Del rc key t' r1 = (1, r3)" "look r3 = (look r1)(key := None)"
    using redis_del [OF assms(1) get] by blast
  have "fst (TryLock rc dl' key w ttl' t' r1) \<noteq> Inr True"
    using redis_taken [OF assms(1,5) get, of w] by (simp add: TryLock_def with_net_False)
  moreover have "redis_ReleaseLock rc Answered key v t' r1 = (None, r3)"
    by (simp add: redis_ReleaseLock_def release_script_def with_net_def get d)
  moreover have "rc_Get rc key t' r3 = None" by (simp add: redis_get [OF assms(1)] d)
  ultimately show ?thesis by (simp add: foreign_run [OF assms(1) l assms(4)])
qed

lemma lock_exclusive_witness:
  "fst (TryLock map_redis Answered ''k'' ''b'' 30 20 (fold (lock_do map_redis ''k'')
     [(OpTry ''b'' 30, LostReply ''timeout'', 5), (OpRelease ''b'', Answered, 6)]
     (snd (TryLock map_redis Answered ''k'' ''a'' 30 0 Map.empty)))) \<noteq> Inr True"
proof -
  have t: "TryLock map_redis Answered ''k'' ''a'' 30 0 Map.empty = (Inr True, [''k'' \<mapsto> (''a'', 30)])"
    by (simp add: TryLock_def with_net_def map_redis_def)
  show ?thesis
    using lock_exclusive [OF map_redis_ok _ t, of "[(OpTry ''b'' 30, LostReply ''timeout'', 5), (OpRelease ''b'', Answered, 6)]"
        30 20 Answered "''b''"] t by (simp add: Let_def)
qed

text \<open>Property C9: the lock does not make a trigger unique. It is released as soon as the trigger has been
  handed out, so a second node that handles the same trigger of the same job afterwards gets the lock too
  and does all that a node does that holds it.\<close>

theorem lock_does_not_deduplicate:
  assumes "redis_ok rc look" "handle_with_lock rc (Answered, t) (Answered, t') lb an task (r, s) = Done (r', s')"
    "rc_Get rc (lock_key (ji_ID (tt_job task))) t r = None" "t' < t + lockTTL" "t' \<le> u"
  shows "\<exists>r2. handle_with_lock rc (Answered, u) rl lb2 an2 task (r', s2) =
    and_then (handleTask lb2 (an2\<lparr>an_lock := Inr True\<rparr>) task s2) (\<lambda>s3. Done (r2, s3))"
proof -
  let ?key = "lock_key (ji_ID (tt_job task))" and ?val = "sd_nodeID s @ '':'' @ an_uuid an"
  have ttl: "0 < lockTTL" by (simp add: lockTTL_def second_def)
  obtain r1 where a: "rc_SetNX rc ?key ?val lockTTL t r = (True, r1)" "look r1 = (look r)(?key \<mapsto> (?val, t + lockTTL))"
    using redis_free [OF assms(1) ttl assms(3), of ?val] by blast
  have "rc_Get rc ?key t' r1 = Some ?val" using assms(4) by (simp add: redis_get [OF assms(1)] a)
  moreover from redis_del [OF assms(1) this] obtain r3 where
    d: "rc_Del rc ?key t' r1 = (1, r3)" "look r3 = (look r1)(?key := None)" by blast
  ultimately have "r' = r3"
    using assms(2) a
    by (cases "handleTask lb (an\<lparr>an_lock := Inr True\<rparr>) task s")
      (simp_all add: handle_with_lock_def TryLock_def with_net_def redis_ReleaseLock_def release_script_def)
  then have free: "rc_Get rc ?key u r' = None" by (simp add: redis_get [OF assms(1)] d)
  let ?val2 = "sd_nodeID s2 @ '':'' @ an_uuid an2"
  obtain r4 where b: "rc_SetNX rc ?key ?val2 lockTTL u r' = (True, r4)"
    using redis_free [OF assms(1) ttl free, of ?val2] by blast
  then show ?thesis by (auto simp: handle_with_lock_def TryLock_def with_net_def)
qed

lemma demo_answers_lock: "(demo_answers x)\<lparr>an_lock := y\<rparr> = demo_answers y"
  by (simp add: demo_answers_def)

lemma lock_does_not_deduplicate_witness:
  "\<exists>r' s' r2 s2. handle_with_lock map_redis (Answered, 0) (Answered, 1) demo_libs (demo_answers (Inl [])) (demo_trigger demo_cron)
       (Map.empty, demo_sched demo_cron) = Done (r', s') \<and>
     handle_with_lock map_redis (Answered, 2) (Answered, 3) demo_libs (demo_answers (Inl [])) (demo_trigger demo_cron)
       (r', demo_sched demo_cron) = Done (r2, s2)"
proof -
  obtain s' where h: "handleTask demo_libs (demo_answers (Inr True)) (demo_trigger demo_cron) (demo_sched demo_cron) = Done s'"
    using demo_handled by blast
  have "\<exists>r'. handle_with_lock map_redis (Answered, 0) (Answered, 1) demo_libs (demo_answers (Inl [])) (demo_trigger demo_cron)
      (Map.empty, demo_sched demo_cron) = Done (r', s')"
    by (simp add: handle_with_lock_def TryLock_def with_net_def map_redis_def demo_answers_lock h Let_def)
  then obtain r' where r': "handle_with_lock map_redis (Answered, 0) (Answered, 1) demo_libs (demo_answers (Inl []))
      (demo_trigger demo_cron) (Map.empty, demo_sched demo_cron) = Done (r', s')" ..
  have "\<exists>r2. handle_with_lock map_redis (Answered, 2) (Answered, 3) demo_libs (demo_answers (Inl [])) (demo_trigger demo_cron)
      (r', demo_sched demo_cron) = Done (r2, s')"
    using lock_does_not_deduplicate [OF map_redis_ok r', of 2 "(Answered, 3)" demo_libs "demo_answers (Inl [])" "demo_sched demo_cron"]
    by (simp add: redis_get [OF map_redis_ok] lockTTL_def second_def demo_answers_lock h)
  then show ?thesis using r' by blast
qed

section \<open>The election\<close>

fun alternate :: "bool \<Rightarrow> le_callback list \<Rightarrow> bool" where
  "alternate b [] = True"
| "alternate b (c # cs) \<longleftrightarrow> c = (if b then OnElected else OnRevoked) \<and> alternate (\<not> b) cs"

lemma alternate_snoc:
  "alternate b (cs @ [c]) \<longleftrightarrow> alternate b cs \<and> c = (if b = even (length cs) then OnElected else OnRevoked)"
  by (induction cs arbitrary: b) auto

definition le_inv :: "'s Election \<Rightarrow> bool" where
  "le_inv e \<longleftrightarrow> alternate True (le_log e) \<and> (le_isLeader e \<longleftrightarrow> odd (length (le_log e))) \<and>
     (le_isLeader e \<longleftrightarrow> le_pc e = LeWatch) \<and> mset (le_go e) \<subseteq># mset (le_log e)"

lemma le_step_inv:
  assumes "le_step run own e e'" "le_inv e"
  shows "le_inv e'"
  using assms(1)
proof (cases rule: le_step.cases)
  case (le_callback c a)
  have "mset (le_go e) - {#c#} \<subseteq># mset (le_log e)"
    by (rule subset_mset.order_trans [OF diff_subset_eq_self]) (use assms(2) in \<open>simp add: le_inv_def\<close>)
  then show ?thesis using le_callback assms(2) by (auto simp: le_inv_def)
next
  case le_stopped
  then show ?thesis using assms(2) by (auto simp: le_inv_def le_Stop_def split: if_splits)
qed (use assms(2) in \<open>auto simp: le_inv_def le_won_def le_lost_def le_spawn_def alternate_snoc split: option.split\<close>)

lemma NewLeaderElection_inv: "le_inv (NewLeaderElection i s)"
  by (simp add: le_inv_def NewLeaderElection_def)

text \<open>Whatever etcd answers, the callbacks are started in turn, first for an election, then for a
  revocation; a node takes itself for the leader exactly between the two, while it watches the leader key.\<close>

lemma election_alternates:
  assumes "(le_step run own)\<^sup>*\<^sup>* (NewLeaderElection i s) e"
  shows "alternate True (le_log e) \<and> (IsLeader e \<longleftrightarrow> odd (length (le_log e))) \<and>
    (IsLeader e \<longleftrightarrow> le_pc e = LeWatch) \<and> mset (le_go e) \<subseteq># mset (le_log e)"
proof -
  have "le_inv e"
    using assms by (induction rule: rtranclp_induct) (auto intro: NewLeaderElection_inv le_step_inv)
  then show ?thesis by (auto simp: le_inv_def IsLeader_def)
qed

lemma won_and_lost:
  "(le_step run own)\<^sup>*\<^sup>* (NewLeaderElection i s) (le_lost (le_won ((NewLeaderElection i s)\<lparr>le_pc := LeCampaign\<rparr>)))"
proof -
  let ?e0 = "NewLeaderElection i s"
  let ?e1 = "?e0\<lparr>le_pc := LeCampaign\<rparr>"
  have 1: "le_step run own ?e0 ?e1" by (rule le_campaign) (simp_all add: NewLeaderElection_def)
  have 2: "le_step run own ?e1 (le_won ?e1)" by (rule le_elected) simp
  have 3: "le_step run own (le_won ?e1) (le_lost (le_won ?e1))"
    by (rule le_watch_closed) (simp add: le_won_def le_spawn_def)
  show ?thesis
    by (rule converse_rtranclp_into_rtranclp [where r = "le_step run own", OF 1],
        rule converse_rtranclp_into_rtranclp [where r = "le_step run own", OF 2],
        rule r_into_rtranclp [where r = "le_step run own", OF 3])
qed

lemma election_alternates_witness:
  "\<exists>e :: nat Election. (le_step (\<lambda>_ s s'. s' = Suc s) (\<lambda>_ _. False))\<^sup>*\<^sup>* (NewLeaderElection ''n'' 0) e \<and>
     le_log e = [OnElected, OnRevoked] \<and> \<not> IsLeader e \<and> alternate True (le_log e)"
proof -
  note run = won_and_lost [of "\<lambda>_ s s'. s' = Suc s" "\<lambda>_ _. False" "''n''" "0 :: nat"]
  show ?thesis
    using election_alternates [OF run] run
    by (intro exI conjI) (auto simp: le_lost_def le_won_def le_spawn_def NewLeaderElection_def IsLeader_def)
qed

text \<open>The callbacks run in goroutines of their own, so the revocation may overtake the election it
  revokes: then \<open>Stop\<close> finds nothing to stop, \<open>Start\<close> comes last, and the node schedules although it is not
  the leader and no callback is left that would stop it.\<close>

lemma revocation_overtaken:
  assumes "\<not> sd_running s" "sched_Start page online now ord dropped s = Done (err, s1)"
  shows "\<exists>e. (le_step admin_callback own)\<^sup>*\<^sup>* (NewLeaderElection i s) e \<and> \<not> IsLeader e \<and> le_go e = [] \<and> le_app e = s1"
proof -
  let ?e = "le_lost (le_won ((NewLeaderElection i s)\<lparr>le_pc := LeCampaign\<rparr>))"
  let ?f = "?e\<lparr>le_go := remove1 OnRevoked (le_go ?e), le_app := s\<rparr>"
  let ?g = "?f\<lparr>le_go := remove1 OnElected (le_go ?f), le_app := s1\<rparr>"
  have e: "le_go ?e = [OnElected, OnRevoked]" "le_app ?e = s" "\<not> le_isLeader ?e"
    by (simp_all add: le_lost_def le_won_def le_spawn_def NewLeaderElection_def)
  have "admin_callback OnRevoked s s" using assms(1) by (simp add: admin_callback_def sched_Stop_def)
  then have 1: "le_step admin_callback own ?e ?f" by (intro le_callback) (simp_all add: e)
  have "admin_callback OnElected s s1" unfolding admin_callback_def using assms(2) by simp blast
  then have 2: "le_step admin_callback own ?f ?g" by (intro le_callback) (simp_all add: e)
  have "(le_step admin_callback own)\<^sup>*\<^sup>* (NewLeaderElection i s) ?g"
    using won_and_lost [of admin_callback own i s] 1 2
    by (meson rtranclp.rtrancl_into_rtrancl)
  then show ?thesis by (intro exI [of _ ?g]) (simp add: e IsLeader_def)
qed

lemma start_demo:
  "\<exists>s1. sched_Start (pages []) (Inr []) 0 [] False demo_new = Done (None, s1) \<and> sd_running s1 \<and>
     running (sd_wheel s1)"
proof -
  obtain s1 where s1: "sched_Start (pages []) (Inr []) 0 [] False demo_new = Done (None, s1)"
    using restart_is_dead_witness by blast
  then show ?thesis using Start_frame [OF s1] by (auto simp: tw_New_def)
qed

lemma revocation_overtaken_witness:
  "\<exists>e. (le_step admin_callback (internal_step demo_libs))\<^sup>*\<^sup>* (NewLeaderElection ''node'' demo_new) e \<and>
     \<not> IsLeader e \<and> le_go e = [] \<and> sd_running (le_app e)"
proof -
  obtain s1 where s1: "sched_Start (pages []) (Inr []) 0 [] False demo_new = Done (None, s1)" "sd_running s1"
    using start_demo by blast
  then show ?thesis using revocation_overtaken [OF sched_New_simps(2) s1(1)] by blast
qed

section \<open>A stopped wheel never turns again\<close>

definition dead :: "('c, 't) Scheduler \<Rightarrow> bool" where
  "dead s \<longleftrightarrow> tw_started (sd_wheel s) \<and> tw_stopped (sd_wheel s)"

lemma dead_no_fire: "dead s \<Longrightarrow> \<not> wheel_runs (sd_wheel s) w"
  by (auto simp: dead_def elim: wheel_runs.cases)

lemma adds_flags: "adds k w w' \<Longrightarrow> tw_started w' = tw_started w \<and> tw_stopped w' = tw_stopped w"
  by (auto simp: adds_def tw_Add_def new_task_def Let_def)

lemma scheduleWheel_dead: "scheduleWheel d job s = Done s' \<Longrightarrow> dead s' = dead s"
  by (auto dest!: scheduleWheel_Done adds_flags simp: dead_def)

lemma dead_fields [simp]:
  "dead (s\<lparr>sd_store := st\<rparr>) = dead s" "dead (s\<lparr>sd_callbacks := cs\<rparr>) = dead s" "dead (s\<lparr>sd_workerCh := ts\<rparr>) = dead s"
  "dead (s\<lparr>sd_calls := q\<rparr>) = dead s" "dead (s\<lparr>sd_executorStore := es\<rparr>) = dead s" "dead (emit ef s) = dead s"
  by (simp_all add: dead_def emit_def)

lemma reschedule_dead:
  assumes "reschedule lb an job s = Done s'"
  shows "dead s' = dead s"
proof (cases "ji_CronExpression job = []")
  case True
  then show ?thesis using assms by (auto simp: reschedule_def)
next
  case False
  show ?thesis
  proof (cases "lb_cron lb (ji_CronExpression job)")
    case (Inl err)
    then show ?thesis using assms False by (simp add: reschedule_def)
  next
    case (Inr sched)
    then show ?thesis using assms False
      by (auto simp: reschedule_def Let_def dest!: scheduleWheel_dead split: option.splits if_splits)
  qed
qed

lemma handleTask_dead:
  assumes "handleTask lb an task s = Done s'"
  shows "dead s' = dead s"
proof -
  have locked: "dead s1 = dead s" if h: "handle_locked lb an task s = Done s1" for s1
  proof -
    obtain s0 where "talks (ji_ID (tt_job task), tt_triggerType task) s s0" "reschedule lb an (tt_job task) s0 = Done s1"
      by (rule handle_locked_cases [OF h])
    then show ?thesis using reschedule_dead [of lb an "tt_job task" s0 s1] by (simp add: talks_def dead_def)
  qed
  then show ?thesis
    using assms by (cases "handle_locked lb an task s") (auto simp: handleTask_def split: sum.splits bool.splits if_splits)
qed

lemma internal_dead:
  assumes "internal_step lb s s'" "dead s"
  shows "dead s'"
  using assms(1)
proof cases
  case (is_wheel w)
  then show ?thesis using dead_no_fire [OF assms(2)] by blast
next
  case (is_callback fn)
  obtain k t where fn: "fn = (k, t)" by (cases fn)
  then show ?thesis using is_callback assms(2)
    by (auto simp: wheel_callback_def try_send_def dead_def split: option.split)
next
  case (is_worker task tasks an)
  then show ?thesis using handleTask_dead [OF is_worker(3)] assms(2) by simp
next
  case (is_call c net start "end")
  then show ?thesis using assms(2)
    by (auto simp: callExecutor_def Let_def dead_def emit_def split: prod.splits option.splits)
qed (use assms(2) in \<open>simp_all add: dead_def\<close>)

lemma Start_dead:
  assumes "sched_Start page online now ord d s = Done (err, s')" "dead s"
  shows "dead s'"
proof (cases "sd_running s")
  case True
  then show ?thesis using assms by (simp add: sched_Start_def)
next
  case False
  then obtain r s1 where b: "bootstrap page online now s = Done (r, s1)"
    using assms(1) by (cases "bootstrap page online now s") (auto simp: sched_Start_def)
  then have s1: "dead s1" using bootstrap_frame [OF b] assms(2) by (simp add: dead_def)
  show ?thesis
  proof (cases r)
    case (Some x)
    then show ?thesis using assms(1) False b s1 by (simp add: sched_Start_def)
  next
    case None
    then obtain s2 where "schedule_all d (store_Range ord (sd_store s1)) s1 = Done s2"
      "sd_wheel s' = tw_Start (sd_wheel s2)"
      using assms(1) False b by (cases "schedule_all d (store_Range ord (sd_store s1)) s1") (auto simp: sched_Start_def)
    then show ?thesis using schedule_all_wheel s1 by (fastforce simp: dead_def tw_Start_def)
  qed
qed

lemma callback_dead: "admin_callback c s s' \<Longrightarrow> dead s \<Longrightarrow> dead s'"
proof (cases c)
  case OnElected
  assume "admin_callback c s s'" "dead s"
  then show ?thesis using OnElected Start_dead by (auto simp: admin_callback_def)
next
  case OnRevoked
  assume "admin_callback c s s'" "dead s"
  then show ?thesis using OnRevoked by (auto simp: admin_callback_def dead_def sched_Stop_def split: if_splits)
qed

lemma election_dead:
  assumes "(le_step admin_callback (internal_step lb))\<^sup>*\<^sup>* e e'" "dead (le_app e)"
  shows "dead (le_app e')"
  using assms
proof (induction rule: rtranclp_induct)
  case (step e1 e2)
  from step(2) show ?case
    by (cases rule: le_step.cases)
      (use step in \<open>auto simp: le_won_def le_lost_def le_spawn_def le_Stop_def intro: internal_dead callback_dead
        split: option.split if_splits\<close>)
qed simp

text \<open>Property C8: a node that has once lost its leadership never fires another trigger. When the revocation
  callback has stopped a running scheduler, no later election, start or step of the scheduler makes the
  wheel turn again, although \<open>Start\<close> reports success.\<close>

theorem regained_leadership_is_dead:
  assumes "sd_running s" "running (sd_wheel s)" "admin_callback OnRevoked s (le_app e)"
    "(le_step admin_callback (internal_step lb))\<^sup>*\<^sup>* e e'"
  shows "\<not> wheel_runs (sd_wheel (le_app e')) w"
proof -
  have "sched_Stop s = Done (le_app e)" using assms(3) by (simp add: admin_callback_def)
  then have "sd_wheel (le_app e) = (sd_wheel s)\<lparr>tw_stopped := True\<rparr>"
    using assms(1,2) by (auto simp: sched_Stop_def Let_def tw_Stop_def dest!: sym [of _ "le_app e"] split: if_splits)
  then have "dead (le_app e)" using assms(2) by (simp add: dead_def)
  from dead_no_fire [OF election_dead [OF assms(4) this]] show ?thesis .
qed

lemma regained_leadership_is_dead_witness:
  "\<exists>s2 e. sched_Stop (the (case sched_Start (pages []) (Inr []) 0 [] False demo_new of Done (_, s1) \<Rightarrow> Some s1 | _ \<Rightarrow> None)) = Done s2 \<and>
     (le_step admin_callback (internal_step demo_libs))\<^sup>*\<^sup>* (NewLeaderElection ''node'' s2) e \<and> length (le_log e) = 2 \<and>
     (\<nexists>w. wheel_runs (sd_wheel (le_app e)) w)"
proof -
  obtain s1 where s1: "sched_Start (pages []) (Inr []) 0 [] False demo_new = Done (None, s1)" "sd_running s1" "running (sd_wheel s1)"
    using start_demo by blast
  have "sd_stopCh s1 = sd_stopCh demo_new" using Start_frame [OF s1(1)] by simp
  then obtain s2 where s2: "sched_Stop s1 = Done s2" using s1(3) by (simp add: sched_Stop_def Let_def s1(2))
  have a: "admin_callback OnRevoked s1 (le_app (NewLeaderElection ''node'' s2))"
    by (simp add: admin_callback_def s2 NewLeaderElection_def)
  note run = won_and_lost [of admin_callback "internal_step demo_libs" "''node''" s2]
  show ?thesis
    using regained_leadership_is_dead [OF s1(2,3) a run] run s1(1) s2
    by (intro exI conjI) (auto simp: le_lost_def le_won_def le_spawn_def NewLeaderElection_def)
qed

end
