(* ===== verification/Stat_Service.thy ===== *)
theory Stat_Service
  imports List_DB XError
begin

text \<open>
  The small services of \<open>internal/service\<close>: \<open>stat_service.go\<close> (hourly statistics), \<open>job_group_service.go\<close>,
  \<open>alarm_service.go\<close> (dispatch and the webhook channel) and \<open>es_log_service.go\<close> with the search request of
  \<open>pkg/es/es.go\<close>. The tables are \<open>gorm\<close> records, as in the DAO; GORM's upsert of the
  statistics (\<open>Assign\<close> with \<open>FirstOrCreate\<close>), the raw SQL of the group service, JSON, HTTP and the Elasticsearch server are arguments.
\<close>

section \<open>Hourly statistics\<close>

record ScheduleStat =
  hs_ID :: int
  hs_StatHour :: time
  hs_TotalCount :: int
  hs_SuccessCount :: int
  hs_FailCount :: int
  hs_TimeoutCount :: int
  hs_CreateTime :: time

text \<open>The \<open>SELECT\<close> of \<open>Aggregate\<close>; \<open>SUM\<close> over no row is \<open>NULL\<close>, which is scanned as zero.\<close>

definition count_status :: "log_status \<Rightarrow> JobLog list \<Rightarrow> int" where
  "count_status st ls = sum_list (map (\<lambda>l. if jl_Status l = st then 1 else 0) ls)"

definition in_hour :: "time \<Rightarrow> JobLog \<Rightarrow> bool" where
  "in_hour h l \<longleftrightarrow> h \<le> jl_TriggerTime l \<and> jl_TriggerTime l < h + hour"

definition hour_stat :: "time \<Rightarrow> JobLog list \<Rightarrow> ScheduleStat" where
  "hour_stat h ls = \<lparr>hs_ID = 0, hs_StatHour = h, hs_TotalCount = int (length ls),
     hs_SuccessCount = count_status 1 ls, hs_FailCount = count_status 2 ls, hs_TimeoutCount = count_status 4 ls,
     hs_CreateTime = zero_time\<rparr>"

text \<open>\<open>Where(w).Assign(a).FirstOrCreate(&stat)\<close> of GORM is the argument \<open>upsert w a stat\<close>.\<close>

type_synonym 'db upsert = "ScheduleStat \<Rightarrow> ScheduleStat \<Rightarrow> ScheduleStat \<Rightarrow> 'db \<Rightarrow> db_error option \<times> 'db"

definition zero_stat :: ScheduleStat where
  "zero_stat = \<lparr>hs_ID = 0, hs_StatHour = zero_time, hs_TotalCount = 0, hs_SuccessCount = 0, hs_FailCount = 0,
     hs_TimeoutCount = 0, hs_CreateTime = zero_time\<rparr>"

definition stat_Aggregate :: "'db tables \<Rightarrow> 'db upsert \<Rightarrow> time \<Rightarrow> 'db \<Rightarrow> db_error option \<times> 'db" where
  "stat_Aggregate tb upsert t db =
     (let h = time_truncate t hour
      in case gm_Find (tb_logs tb) (find_all (in_hour h) NoOrder) db of
           Inl err \<Rightarrow> (Some err, db)
         | Inr ls \<Rightarrow> let stat = hour_stat h ls
             in upsert (zero_stat\<lparr>hs_StatHour := h\<rparr>) (stat\<lparr>hs_StatHour := zero_time\<rparr>) stat db)"

definition GetRecentStats :: "(ScheduleStat, 'db) gorm \<Rightarrow> time \<Rightarrow> int \<Rightarrow> 'db \<Rightarrow> db_error + ScheduleStat list" where
  "GetRecentStats tbS now hours db =
     (let since = time_truncate (now + - hours * hour) hour
      in gm_Find tbS (find_all (\<lambda>r. hs_StatHour r \<ge> since) (Asc hs_StatHour)) db)"

record Dashboard =
  db_total :: int
  db_success :: int
  db_fail :: int
  db_timeout :: int
  db_successRate :: real
  db_hourly :: "ScheduleStat list"

definition GetDashboardStats :: "(ScheduleStat, 'db) gorm \<Rightarrow> time \<Rightarrow> 'db \<Rightarrow> db_error + Dashboard" where
  "GetDashboardStats tbS now db =
     (case GetRecentStats tbS now 24 db of
        Inl err \<Rightarrow> Inl err
      | Inr stats \<Rightarrow>
          let (tot, success, failed, timeout) = foldl (\<lambda>(a, b, c, d) st. (a + hs_TotalCount st, b + hs_SuccessCount st,
                c + hs_FailCount st, d + hs_TimeoutCount st)) (0, 0, 0, 0) stats;
              successRate = (if tot > 0 then real_of_int success / real_of_int tot * 100 else 0)
          in Inr \<lparr>db_total = tot, db_success = success, db_fail = failed, db_timeout = timeout,
                  db_successRate = successRate, db_hourly = stats\<rparr>)"

section \<open>Job groups\<close>

record JobGroup =
  jg_ID :: int
  jg_Name :: string
  jg_Description :: string
  jg_CreateTime :: time

record 'db group_tables =
  gt_groups :: "(JobGroup, 'db) gorm"
  gt_ungroup :: "int \<Rightarrow> 'db \<Rightarrow> db_error option \<times> 'db"

definition CreateGroup :: "'db group_tables \<Rightarrow> string \<Rightarrow> string \<Rightarrow> 'db \<Rightarrow> (go_error + JobGroup) \<times> 'db" where
  "CreateGroup gt name description db =
     (case gm_Create (gt_groups gt) \<lparr>jg_ID = 0, jg_Name = name, jg_Description = description, jg_CreateTime = zero_time\<rparr> db of
        (Inl err, db1) \<Rightarrow> (Inl (XErr (xerr_Wrap CodeInternalServer (Some (db_text err)) [''create group failed''])), db1)
      | (Inr r, db1) \<Rightarrow> (Inr r, db1))"

definition ListGroups :: "'db group_tables \<Rightarrow> 'db \<Rightarrow> db_error + JobGroup list" where
  "ListGroups gt db = gm_Find (gt_groups gt) (find_all (\<lambda>_. True) (Desc jg_CreateTime)) db"

text \<open>Two statements without a transaction.\<close>

definition DeleteGroup :: "'db group_tables \<Rightarrow> int \<Rightarrow> 'db \<Rightarrow> go_error option \<times> 'db" where
  "DeleteGroup gt i db =
     (case gt_ungroup gt i db of
        (Some err, db1) \<Rightarrow> (Some (XErr (xerr_Wrap CodeInternalServer (Some (db_text err)) [])), db1)
      | (None, db1) \<Rightarrow>
          (case gm_Delete (gt_groups gt) i db1 of
             (err, db2) \<Rightarrow> (map_option (\<lambda>e. Plain (db_text e)) err, db2)))"

section \<open>Alarms\<close>

datatype alarm_level = AlarmWarn | AlarmError

record AlarmEvent =
  ae_JobID :: int
  ae_JobName :: string
  ae_LogID :: int
  ae_Level :: alarm_level
  ae_Message :: string
  ae_Time :: time

text \<open>A channel sends an event into the world and may fail; failures are logged.\<close>

type_synonym 'w alarmer = "AlarmEvent \<Rightarrow> 'w \<Rightarrow> string option \<times> 'w"

record 'w alarm_log =
  al_world :: 'w
  al_warnings :: "(alarm_level \<times> int \<times> string) list"

fun alarm_Notify :: "'w alarmer list \<Rightarrow> AlarmEvent \<Rightarrow> 'w alarm_log \<Rightarrow> 'w alarm_log" where
  "alarm_Notify [] ev s = s"
| "alarm_Notify (a # as) ev s =
     (case a ev (al_world s) of
        (None, w) \<Rightarrow> alarm_Notify as ev (s\<lparr>al_world := w\<rparr>)
      | (Some err, w) \<Rightarrow> alarm_Notify as ev
          (s\<lparr>al_world := w, al_warnings := al_warnings s @ [(ae_Level ev, ae_JobID ev, err)]\<rparr>))"

definition utf8 :: "nat list \<Rightarrow> string" where "utf8 bs = map (char_of :: nat \<Rightarrow> char) bs"

definition failed_text :: string where
  "failed_text = utf8 [228, 187, 187, 229, 138, 161, 230, 137, 167, 232, 161, 140, 229, 164, 177, 232, 180, 165, 58, 32]"

definition timeout_text :: string where
  "timeout_text = utf8 [228, 187, 187, 229, 138, 161, 230, 137, 167, 232, 161, 140, 232, 182, 133, 230, 151, 182, 32, 40,
     116, 105, 109, 101, 111, 117, 116, 61]"

definition NotifyJobFailed :: "'w alarmer list \<Rightarrow> time \<Rightarrow> JobRow \<Rightarrow> JobLog \<Rightarrow> 'w alarm_log \<Rightarrow> 'w alarm_log" where
  "NotifyJobFailed as now job lg = alarm_Notify as \<lparr>ae_JobID = ji_ID job, ae_JobName = ji_JobName job, ae_LogID = jl_ID lg,
     ae_Level = AlarmError, ae_Message = failed_text @ jl_ErrorMsg lg, ae_Time = now\<rparr>"

definition NotifyJobTimeout :: "'w alarmer list \<Rightarrow> time \<Rightarrow> JobRow \<Rightarrow> JobLog \<Rightarrow> 'w alarm_log \<Rightarrow> 'w alarm_log" where
  "NotifyJobTimeout as now job lg = alarm_Notify as \<lparr>ae_JobID = ji_ID job, ae_JobName = ji_JobName job, ae_LogID = jl_ID lg,
     ae_Level = AlarmWarn, ae_Message = timeout_text @ itoa (ji_Timeout job) @ ''s)'', ae_Time = now\<rparr>"

text \<open>An HTTP client: building a request may fail, the answer is a status.\<close>

record 'w http_post =
  hp_request :: "string \<Rightarrow> string option"
  hp_do :: "string \<Rightarrow> (string \<times> string) list \<Rightarrow> string \<Rightarrow> 'w \<Rightarrow> (string + int) \<times> 'w"

definition set_header :: "(string \<times> string) list \<Rightarrow> string \<times> string \<Rightarrow> (string \<times> string) list" where
  "set_header hs kv = filter (\<lambda>x. fst x \<noteq> fst kv) hs @ [kv]"

definition alarm_post :: "string \<Rightarrow> string \<Rightarrow> 'w http_post \<Rightarrow> string \<Rightarrow> (string \<times> string) list \<Rightarrow> string \<Rightarrow> 'w \<Rightarrow>
    string option \<times> 'w" where
  "alarm_post name verb hp url headers body w =
     (case hp_request hp url of
        Some err \<Rightarrow> (Some (name @ '': new request: '' @ err), w)
      | None \<Rightarrow>
          (case hp_do hp url headers body w of
             (Inl err, w1) \<Rightarrow> (Some (name @ '': '' @ verb @ '': '' @ err), w1)
           | (Inr status, w1) \<Rightarrow>
               (if status \<ge> 400 then Some (name @ '': server returned '' @ itoa status) else None, w1)))"

definition postJSON :: "'w http_post \<Rightarrow> string \<Rightarrow> string + string \<Rightarrow> 'w \<Rightarrow> string option \<times> 'w" where
  "postJSON hp url marshalled w =
     (case marshalled of
        Inl err \<Rightarrow> (Some (''postJSON: marshal: '' @ err), w)
      | Inr body \<Rightarrow> alarm_post ''postJSON'' ''do'' hp url [(''Content-Type'', ''application/json'')] body w)"

definition webhook_Send :: "'w http_post \<Rightarrow> (AlarmEvent \<Rightarrow> string) \<Rightarrow> string \<Rightarrow> (string \<times> string) list \<Rightarrow> 'w alarmer" where
  "webhook_Send hp json url headers ev =
     alarm_post ''webhook'' ''post'' hp url
       (foldl set_header [(''Content-Type'', ''application/json'')] headers) (json ev)"

section \<open>Log search\<close>

record LogDocument =
  ld_LogID :: int
  ld_JobID :: int
  ld_JobName :: string
  ld_ExecutorAddress :: string
  ld_Status :: int
  ld_LogContent :: string
  ld_TriggerTime :: time
  ld_DurationMs :: int
  ld_ErrorMsg :: string
  ld_ShardingIndex :: int
  ld_ShardingTotal :: int

record ESLogService =
  el_client :: bool
  el_enabled :: bool

definition es_Enabled :: "ESLogService \<Rightarrow> bool" where
  "es_Enabled sv \<longleftrightarrow> el_enabled sv \<and> el_client sv"

text \<open>The document that a goroutine then sends.\<close>

definition es_IndexLog :: "ESLogService \<Rightarrow> JobLog \<Rightarrow> string \<Rightarrow> string \<Rightarrow> LogDocument option" where
  "es_IndexLog sv lg jobName logContent =
     (if \<not> el_enabled sv \<or> \<not> el_client sv then None
      else Some \<lparr>ld_LogID = jl_ID lg, ld_JobID = jl_JobID lg, ld_JobName = jobName,
        ld_ExecutorAddress = jl_ExecutorAddress lg, ld_Status = jl_Status lg, ld_LogContent = logContent,
        ld_TriggerTime = jl_TriggerTime lg, ld_DurationMs = jl_DurationMs lg, ld_ErrorMsg = jl_ErrorMsg lg,
        ld_ShardingIndex = jl_ShardingIndex lg, ld_ShardingTotal = jl_ShardingTotal lg\<rparr>)"

record SearchLogsRequest =
  sq_Keyword :: string
  sq_JobID :: int
  sq_Status :: int
  sq_StartTime :: time
  sq_EndTime :: time
  sq_Page :: int
  sq_PageSize :: int

datatype es_clause =
    MatchContent string
  | TermJob int
  | TermStatus int
  | RangeTriggerTime "string option" "string option"

record es_query =
  eq_must :: "es_clause list"
  eq_from :: int
  eq_size :: int

definition search_defaults :: "SearchLogsRequest \<Rightarrow> SearchLogsRequest" where
  "search_defaults q =
     (let q = (if sq_Page q \<le> 0 then q\<lparr>sq_Page := 1\<rparr> else q)
      in if sq_PageSize q \<le> 0 then q\<lparr>sq_PageSize := 20\<rparr> else q)"

definition search_query :: "(time \<Rightarrow> string) \<Rightarrow> SearchLogsRequest \<Rightarrow> es_query" where
  "search_query rfc3339 q =
     \<lparr>eq_must = (if sq_Keyword q \<noteq> [] then [MatchContent (sq_Keyword q)] else []) @
        (if sq_JobID q > 0 then [TermJob (sq_JobID q)] else []) @
        (if sq_Status q > 0 then [TermStatus (sq_Status q)] else []) @
        (if \<not> is_zero_time (sq_StartTime q) \<or> \<not> is_zero_time (sq_EndTime q)
         then [RangeTriggerTime
                (if \<not> is_zero_time (sq_StartTime q) then Some (rfc3339 (sq_StartTime q)) else None)
                (if \<not> is_zero_time (sq_EndTime q) then Some (rfc3339 (sq_EndTime q)) else None)] else []),
      eq_from = (sq_Page q - 1) * sq_PageSize q, eq_size = sq_PageSize q\<rparr>"

datatype es_answer = NoAnswer string | ErrorStatus string | BadBody string | Hits int "LogDocument list"

definition es_SearchLogs :: "(time \<Rightarrow> string) \<Rightarrow> (es_query \<Rightarrow> es_answer) \<Rightarrow> ESLogService \<Rightarrow> SearchLogsRequest \<Rightarrow>
    (string + (LogDocument list \<times> int)) \<times> SearchLogsRequest" where
  "es_SearchLogs rfc3339 server sv q =
     (if \<not> el_enabled sv \<or> \<not> el_client sv then (Inr ([], 0), q)
      else let q1 = search_defaults q
           in (case server (search_query rfc3339 q1) of
                 NoAnswer err \<Rightarrow> Inl (''es: search: '' @ err)
               | ErrorStatus st \<Rightarrow> Inl (''es: search returned '' @ st)
               | BadBody err \<Rightarrow> Inl (''es: decode response: '' @ err)
               | Hits cnt docs \<Rightarrow> Inr (docs, cnt), q1))"

section \<open>What the services do\<close>

text \<open>Every channel is asked once, in order, whatever the ones before it answered.\<close>

fun ask_all :: "'w alarmer list \<Rightarrow> AlarmEvent \<Rightarrow> 'w \<Rightarrow> string option list \<times> 'w" where
  "ask_all [] ev w = ([], w)"
| "ask_all (a # as) ev w = (let (r, w1) = a ev w; (rs, w2) = ask_all as ev w1 in (r # rs, w2))"

lemma Notify_asks_all:
  "al_world (alarm_Notify as ev s) = snd (ask_all as ev (al_world s)) \<and>
   al_warnings (alarm_Notify as ev s) = al_warnings s @
     map (\<lambda>err. (ae_Level ev, ae_JobID ev, err)) (List.map_filter (\<lambda>r. r) (fst (ask_all as ev (al_world s))))"
proof (induction as arbitrary: s)
  case (Cons a as)
  obtain r w where a: "a ev (al_world s) = (r, w)" by force
  show ?case using Cons by (cases r) (simp_all add: a case_prod_beta List.map_filter_simps)
qed (simp add: List.map_filter_simps)

lemma Dashboard_sums:
  assumes "GetRecentStats tbS now 24 db = Inr stats"
  shows "\<exists>d. GetDashboardStats tbS now db = Inr d \<and> db_total d = sum_list (map hs_TotalCount stats) \<and>
    db_success d = sum_list (map hs_SuccessCount stats) \<and> db_fail d = sum_list (map hs_FailCount stats) \<and>
    db_timeout d = sum_list (map hs_TimeoutCount stats)"
proof -
  have "foldl (\<lambda>(a, b, c, d) st. (a + hs_TotalCount st, b + hs_SuccessCount st, c + hs_FailCount st, d + hs_TimeoutCount st))
      (a, b, c, d) stats =
    (a + sum_list (map hs_TotalCount stats), b + sum_list (map hs_SuccessCount stats),
     c + sum_list (map hs_FailCount stats), d + sum_list (map hs_TimeoutCount stats))" for a b c d
    by (induction stats arbitrary: a b c d) simp_all
  then show ?thesis using assms by (simp add: GetDashboardStats_def)
qed

lemma search_window: "let q1 = search_defaults q
  in 1 \<le> sq_Page q1 \<and> 1 \<le> sq_PageSize q1 \<and> 0 \<le> eq_from (search_query f q1) \<and>
     (0 < sq_Page q \<longrightarrow> sq_Page q1 = sq_Page q) \<and> (0 < sq_PageSize q \<longrightarrow> sq_PageSize q1 = sq_PageSize q)"
  by (simp add: search_defaults_def search_query_def Let_def)

lemma count_nonneg: "0 \<le> count_status st ls"
  by (induction ls) (auto simp: count_status_def)

lemma count_Cons: "count_status st (l # ls) = (if jl_Status l = st then 1 else 0) + count_status st ls"
  by (simp add: count_status_def)

lemma count_zero: "count_status st ls = 0 \<longleftrightarrow> st \<notin> jl_Status ` set ls"
proof (induction ls)
  case (Cons l ls)
  then show ?case using count_nonneg [of st ls] by (cases "jl_Status l = st") (auto simp: count_Cons)
qed (simp add: count_status_def)

text \<open>What the statistics of an hour say: every log of the hour is counted once, and a count is zero exactly when no
  log of the hour has its status.\<close>

lemma hour_stat_counts:
  "hs_TotalCount (hour_stat h ls) = int (length ls)"
  "hs_SuccessCount (hour_stat h ls) + hs_FailCount (hour_stat h ls) + hs_TimeoutCount (hour_stat h ls) \<le> int (length ls)"
  "hs_FailCount (hour_stat h ls) = 0 \<longleftrightarrow> 2 \<notin> jl_Status ` set ls"
proof -
  show "hs_TotalCount (hour_stat h ls) = int (length ls)" by (simp add: hour_stat_def)
  show "hs_FailCount (hour_stat h ls) = 0 \<longleftrightarrow> 2 \<notin> jl_Status ` set ls" by (simp add: hour_stat_def count_zero)
  show "hs_SuccessCount (hour_stat h ls) + hs_FailCount (hour_stat h ls) + hs_TimeoutCount (hour_stat h ls) \<le> int (length ls)"
    by (induction ls) (auto simp: hour_stat_def count_Cons count_status_def [where ls = "[]"])
qed

end
