(* ===== verification/Client_Options.thy ===== *)
theory Client_Options
  imports XError Script_Engine
begin

text \<open>
  The configuration (\<open>pkg/conf\<close>) and the constructors of the clients that \<open>main\<close> makes from it, with their
  functional options: \<open>pkg/mysql\<close>, \<open>pkg/redis\<close>, \<open>pkg/etcd\<close>, \<open>pkg/es\<close> and \<open>pkg/logger\<close>. The libraries behind them
  (viper, GORM, go-redis, the clients of etcd and Elasticsearch, zap) are arguments: what they answer to
  the one call the code makes.
\<close>

definition apply_opts :: "('o \<Rightarrow> 'o) list \<Rightarrow> 'o \<Rightarrow> 'o" where
  "apply_opts opts x = foldl (\<lambda>a opt. opt a) x opts"

lemma apply_opts_simps [simp]: "apply_opts [] x = x" "apply_opts (opt # opts) x = apply_opts opts (opt x)"
  by (simp_all add: apply_opts_def)

section \<open>Configuration\<close>

record EmailConfig =
  cm_Host :: string
  cm_Port :: int
  cm_Username :: string
  cm_Password :: string
  cm_From :: string
  cm_To :: "string list"

record AlarmConfig =
  ca_DingtalkWebhook :: string
  ca_WeComWebhook :: string
  ca_WebhookURL :: string
  ca_Email :: EmailConfig

record AppConfig =
  ap_Name :: string
  ap_Env :: string
  ap_Version :: string

record ServerConfig =
  cs_Host :: string
  cs_Port :: int
  cs_ReadTimeout :: duration
  cs_WriteTimeout :: duration
  cs_Mode :: string

record MySQLConfig =
  cy_DSN :: string
  cy_MaxOpenConns :: int
  cy_MaxIdleConns :: int
  cy_ConnMaxLifetime :: duration
  cy_ConnMaxIdleTime :: duration
  cy_SlowThreshold :: duration
  cy_LogLevel :: string

record RedisConfig =
  cd_Addr :: string
  cd_Password :: string
  cd_DB :: int
  cd_PoolSize :: int
  cd_MinIdleConns :: int
  cd_DialTimeout :: duration
  cd_ReadTimeout :: duration
  cd_WriteTimeout :: duration

record EtcdConfig =
  ce_Endpoints :: "string list"
  ce_DialTimeout :: duration
  ce_Username :: string
  ce_Password :: string

record ESConfig =
  ck_Addresses :: "string list"
  ck_Username :: string
  ck_Password :: string
  ck_Index :: string
  ck_Enabled :: bool

record LoggerConfig =
  cl_Level :: string
  cl_Filename :: string
  cl_MaxSizeMB :: int
  cl_MaxBackups :: int
  cl_MaxAgeDays :: int
  cl_Compress :: bool
  cl_JSON :: bool

record SchedulerConfig =
  cu_PreloadDuration :: duration
  cu_HeartbeatTimeout :: duration
  cu_NodeID :: string
  cu_UseRedisLock :: bool
  cu_InternalToken :: string

record ExecutorConfig =
  cx_AppName :: string
  cx_Address :: string
  cx_Port :: int
  cx_AdminURL :: string
  cx_Timeout :: duration
  cx_ScriptEngines :: "ScriptEngineConfig list"

record JWTConfig =
  cj_Secret :: string
  cj_ExpireDuration :: duration

record Config =
  cf_Alarm :: AlarmConfig
  cf_App :: AppConfig
  cf_Server :: ServerConfig
  cf_MySQL :: MySQLConfig
  cf_Redis :: RedisConfig
  cf_Etcd :: EtcdConfig
  cf_ES :: ESConfig
  cf_Logger :: LoggerConfig
  cf_Scheduler :: SchedulerConfig
  cf_Executor :: ExecutorConfig
  cf_JWT :: JWTConfig

subsection \<open>Loading\<close>

record loaderOptions =
  lo_configFile :: string
  lo_configType :: string
  lo_envPrefix :: string

definition WithConfigFile :: "string \<Rightarrow> loaderOptions \<Rightarrow> loaderOptions" where
  "WithConfigFile path o1 = o1\<lparr>lo_configFile := path\<rparr>"

definition WithConfigType :: "string \<Rightarrow> loaderOptions \<Rightarrow> loaderOptions" where
  "WithConfigType t o1 = o1\<lparr>lo_configType := t\<rparr>"

definition WithEnvPrefix :: "string \<Rightarrow> loaderOptions \<Rightarrow> loaderOptions" where
  "WithEnvPrefix pfx o1 = o1\<lparr>lo_envPrefix := pfx\<rparr>"

datatype conf_value = CStr string | CInt int | CBool bool

definition setDefaults :: "(string \<times> conf_value) list" where
  "setDefaults =
     [(''app.name'', CStr ''go-jobs''),
      (''app.env'', CStr ''dev''),
      (''app.version'', CStr ''1.0.0''),
      (''server.host'', CStr ''0.0.0.0''),
      (''server.port'', CInt 8080),
      (''server.read_timeout'', CStr ''30s''),
      (''server.write_timeout'', CStr ''30s''),
      (''server.mode'', CStr ''debug''),
      (''mysql.max_open_conns'', CInt 100),
      (''mysql.max_idle_conns'', CInt 10),
      (''mysql.conn_max_lifetime'', CStr ''1h''),
      (''mysql.conn_max_idle_time'', CStr ''30m''),
      (''mysql.slow_threshold'', CStr ''200ms''),
      (''mysql.log_level'', CStr ''warn''),
      (''redis.db'', CInt 0),
      (''redis.pool_size'', CInt 20),
      (''redis.dial_timeout'', CStr ''5s''),
      (''redis.read_timeout'', CStr ''3s''),
      (''redis.write_timeout'', CStr ''3s''),
      (''etcd.dial_timeout'', CStr ''5s''),
      (''logger.level'', CStr ''info''),
      (''logger.max_size_mb'', CInt 100),
      (''logger.max_backups'', CInt 7),
      (''logger.max_age_days'', CInt 30),
      (''logger.compress'', CBool True),
      (''scheduler.preload_duration'', CStr ''5s''),
      (''scheduler.heartbeat_timeout'', CStr ''30s''),
      (''scheduler.use_redis_lock'', CBool True),
      (''executor.timeout'', CStr ''60s''),
      (''jwt.expire_duration'', CStr ''24h'')]"

text \<open>What \<open>Load\<close> tells viper, and viper: reading the file, then decoding all values.\<close>

record 'v viper =
  vi_Read :: "loaderOptions \<Rightarrow> string \<times> string \<Rightarrow> (string \<times> conf_value) list \<Rightarrow> string + 'v"
  vi_Unmarshal :: "'v \<Rightarrow> string + Config"

definition conf_Load :: "'v viper \<Rightarrow> (loaderOptions \<Rightarrow> loaderOptions) list \<Rightarrow> string + Config" where
  "conf_Load vi opts =
     (let ops = apply_opts opts \<lparr>lo_configFile = ''config/config.yaml'', lo_configType = ''yaml'', lo_envPrefix = ''GOJOBS''\<rparr>
      in case vi_Read vi ops (''.'', ''_'') setDefaults of
           Inl err \<Rightarrow> Inl (''conf: read config file '' @ go_quote (lo_configFile ops) @ '': '' @ err)
         | Inr v \<Rightarrow>
             (case vi_Unmarshal vi v of
                Inl err \<Rightarrow> Inl (''conf: unmarshal config: '' @ err)
              | Inr cfg \<Rightarrow> Inr cfg))"

section \<open>MySQL\<close>

datatype gorm_level = GormError | GormWarn | GormInfo

record MySQLOptions =
  mo_DSN :: string
  mo_MaxOpenConns :: int
  mo_MaxIdleConns :: int
  mo_ConnMaxLifetime :: duration
  mo_ConnMaxIdleTime :: duration
  mo_SlowThreshold :: duration
  mo_LogLevel :: gorm_level

definition mysql_defaults :: MySQLOptions where
  "mysql_defaults = \<lparr>mo_DSN = [], mo_MaxOpenConns = 100, mo_MaxIdleConns = 10, mo_ConnMaxLifetime = hour,
     mo_ConnMaxIdleTime = 30 * minute, mo_SlowThreshold = 200 * millisecond, mo_LogLevel = GormWarn\<rparr>"

definition my_WithDSN :: "string \<Rightarrow> MySQLOptions \<Rightarrow> MySQLOptions" where
  "my_WithDSN dsn x = x\<lparr>mo_DSN := dsn\<rparr>"
definition my_WithMaxOpenConns :: "int \<Rightarrow> MySQLOptions \<Rightarrow> MySQLOptions" where
  "my_WithMaxOpenConns n x = x\<lparr>mo_MaxOpenConns := n\<rparr>"
definition my_WithMaxIdleConns :: "int \<Rightarrow> MySQLOptions \<Rightarrow> MySQLOptions" where
  "my_WithMaxIdleConns n x = x\<lparr>mo_MaxIdleConns := n\<rparr>"
definition my_WithConnMaxLifetime :: "duration \<Rightarrow> MySQLOptions \<Rightarrow> MySQLOptions" where
  "my_WithConnMaxLifetime d x = x\<lparr>mo_ConnMaxLifetime := d\<rparr>"
definition my_WithConnMaxIdleTime :: "duration \<Rightarrow> MySQLOptions \<Rightarrow> MySQLOptions" where
  "my_WithConnMaxIdleTime d x = x\<lparr>mo_ConnMaxIdleTime := d\<rparr>"
definition my_WithSlowThreshold :: "duration \<Rightarrow> MySQLOptions \<Rightarrow> MySQLOptions" where
  "my_WithSlowThreshold d x = x\<lparr>mo_SlowThreshold := d\<rparr>"
definition my_WithLogLevel :: "gorm_level \<Rightarrow> MySQLOptions \<Rightarrow> MySQLOptions" where
  "my_WithLogLevel l x = x\<lparr>mo_LogLevel := l\<rparr>"

text \<open>A connection pool with its limits, around the handle \<open>'h\<close> of the opened database.\<close>

record 'h sql_db =
  sq_handle :: 'h
  sq_maxOpen :: int
  sq_maxIdle :: int
  sq_lifetime :: duration
  sq_idleTime :: duration

definition mysql_New :: "(string \<Rightarrow> duration \<times> gorm_level \<Rightarrow> string + 'h) \<Rightarrow> ('h \<Rightarrow> string option) \<Rightarrow>
    (MySQLOptions \<Rightarrow> MySQLOptions) list \<Rightarrow> string + 'h sql_db" where
  "mysql_New gorm_open sql_DB opts =
     (let ops = apply_opts opts mysql_defaults
      in if mo_DSN ops = [] then Inl ''mysql: DSN is required''
         else case gorm_open (mo_DSN ops) (mo_SlowThreshold ops, mo_LogLevel ops) of
           Inl err \<Rightarrow> Inl (''mysql: open connection: '' @ err)
         | Inr h \<Rightarrow>
             (case sql_DB h of
                Some err \<Rightarrow> Inl (''mysql: get underlying sql.DB: '' @ err)
              | None \<Rightarrow> Inr \<lparr>sq_handle = h, sq_maxOpen = mo_MaxOpenConns ops, sq_maxIdle = mo_MaxIdleConns ops,
                  sq_lifetime = mo_ConnMaxLifetime ops, sq_idleTime = mo_ConnMaxIdleTime ops\<rparr>))"

text \<open>\<open>MustNew\<close>: \<open>None\<close> is a panic.\<close>

definition mysql_MustNew :: "(string \<Rightarrow> duration \<times> gorm_level \<Rightarrow> string + 'h) \<Rightarrow> ('h \<Rightarrow> string option) \<Rightarrow>
    (MySQLOptions \<Rightarrow> MySQLOptions) list \<Rightarrow> 'h sql_db option" where
  "mysql_MustNew gorm_open sql_DB opts =
     (case mysql_New gorm_open sql_DB opts of Inl err \<Rightarrow> None | Inr db \<Rightarrow> Some db)"

section \<open>Redis\<close>

record RedisOptions =
  ro_Addr :: string
  ro_Password :: string
  ro_DB :: int
  ro_PoolSize :: int
  ro_MinIdleConns :: int
  ro_DialTimeout :: duration
  ro_ReadTimeout :: duration
  ro_WriteTimeout :: duration

definition redis_defaults :: RedisOptions where
  "redis_defaults = \<lparr>ro_Addr = ''localhost:6379'', ro_Password = [], ro_DB = 0, ro_PoolSize = 20, ro_MinIdleConns = 5,
     ro_DialTimeout = 5 * second, ro_ReadTimeout = 3 * second, ro_WriteTimeout = 3 * second\<rparr>"

definition rd_WithAddr :: "string \<Rightarrow> RedisOptions \<Rightarrow> RedisOptions" where
  "rd_WithAddr addr x = x\<lparr>ro_Addr := addr\<rparr>"
definition rd_WithPassword :: "string \<Rightarrow> RedisOptions \<Rightarrow> RedisOptions" where
  "rd_WithPassword pwd x = x\<lparr>ro_Password := pwd\<rparr>"
definition rd_WithDB :: "int \<Rightarrow> RedisOptions \<Rightarrow> RedisOptions" where
  "rd_WithDB db x = x\<lparr>ro_DB := db\<rparr>"
definition rd_WithPoolSize :: "int \<Rightarrow> RedisOptions \<Rightarrow> RedisOptions" where
  "rd_WithPoolSize n x = x\<lparr>ro_PoolSize := n\<rparr>"
definition rd_WithMinIdleConns :: "int \<Rightarrow> RedisOptions \<Rightarrow> RedisOptions" where
  "rd_WithMinIdleConns n x = x\<lparr>ro_MinIdleConns := n\<rparr>"
definition rd_WithDialTimeout :: "duration \<Rightarrow> RedisOptions \<Rightarrow> RedisOptions" where
  "rd_WithDialTimeout d x = x\<lparr>ro_DialTimeout := d\<rparr>"
definition rd_WithReadTimeout :: "duration \<Rightarrow> RedisOptions \<Rightarrow> RedisOptions" where
  "rd_WithReadTimeout d x = x\<lparr>ro_ReadTimeout := d\<rparr>"
definition rd_WithWriteTimeout :: "duration \<Rightarrow> RedisOptions \<Rightarrow> RedisOptions" where
  "rd_WithWriteTimeout d x = x\<lparr>ro_WriteTimeout := d\<rparr>"

text \<open>The client is its options; \<open>ping\<close> is the answer of the server within five seconds.\<close>

definition redis_New :: "(RedisOptions \<Rightarrow> string option) \<Rightarrow> (RedisOptions \<Rightarrow> RedisOptions) list \<Rightarrow> string + RedisOptions" where
  "redis_New ping opts =
     (let ops = apply_opts opts redis_defaults
      in case ping ops of Some err \<Rightarrow> Inl (''redis: ping failed: '' @ err) | None \<Rightarrow> Inr ops)"

definition redis_MustNew :: "(RedisOptions \<Rightarrow> string option) \<Rightarrow> (RedisOptions \<Rightarrow> RedisOptions) list \<Rightarrow> RedisOptions option" where
  "redis_MustNew ping opts = (case redis_New ping opts of Inl err \<Rightarrow> None | Inr c \<Rightarrow> Some c)"

section \<open>Etcd\<close>

record EtcdOptions =
  to_Endpoints :: "string list"
  to_DialTimeout :: duration
  to_Username :: string
  to_Password :: string

definition etcd_defaults :: EtcdOptions where
  "etcd_defaults = \<lparr>to_Endpoints = [''127.0.0.1:2379''], to_DialTimeout = 5 * second, to_Username = [], to_Password = []\<rparr>"

definition et_WithEndpoints :: "string list \<Rightarrow> EtcdOptions \<Rightarrow> EtcdOptions" where
  "et_WithEndpoints eps x = x\<lparr>to_Endpoints := eps\<rparr>"
definition et_WithDialTimeout :: "duration \<Rightarrow> EtcdOptions \<Rightarrow> EtcdOptions" where
  "et_WithDialTimeout d x = x\<lparr>to_DialTimeout := d\<rparr>"
definition et_WithCredentials :: "string \<Rightarrow> string \<Rightarrow> EtcdOptions \<Rightarrow> EtcdOptions" where
  "et_WithCredentials u p x = x\<lparr>to_Username := u, to_Password := p\<rparr>"

definition etcd_NewClient :: "(EtcdOptions \<Rightarrow> string + 'e) \<Rightarrow> (EtcdOptions \<Rightarrow> EtcdOptions) list \<Rightarrow> string + 'e" where
  "etcd_NewClient clientv3_New opts =
     (case clientv3_New (apply_opts opts etcd_defaults) of
        Inl err \<Rightarrow> Inl (''etcd: new client: '' @ err) | Inr cli \<Rightarrow> Inr cli)"

section \<open>Elasticsearch\<close>

record ESOptions =
  ko_Addresses :: "string list"
  ko_Username :: string
  ko_Password :: string
  ko_Index :: string

definition ek_WithAddresses :: "string list \<Rightarrow> ESOptions \<Rightarrow> ESOptions" where
  "ek_WithAddresses addrs x = x\<lparr>ko_Addresses := addrs\<rparr>"
definition ek_WithCredentials :: "string \<Rightarrow> string \<Rightarrow> ESOptions \<Rightarrow> ESOptions" where
  "ek_WithCredentials u p x = x\<lparr>ko_Username := u, ko_Password := p\<rparr>"
definition ek_WithIndex :: "string \<Rightarrow> ESOptions \<Rightarrow> ESOptions" where
  "ek_WithIndex idx x = x\<lparr>ko_Index := idx\<rparr>"

record 'k ESClient =
  kc_Client :: 'k
  kc_Index :: string

definition es_client_New :: "(string list \<times> string \<times> string \<Rightarrow> string + 'k) \<Rightarrow> (ESOptions \<Rightarrow> ESOptions) list \<Rightarrow>
    string + 'k ESClient" where
  "es_client_New newClient opts =
     (let ops = apply_opts opts \<lparr>ko_Addresses = [], ko_Username = [], ko_Password = [], ko_Index = ''go-jobs-logs''\<rparr>
      in case newClient (ko_Addresses ops, ko_Username ops, ko_Password ops) of
           Inl err \<Rightarrow> Inl (''es: new client: '' @ err)
         | Inr cli \<Rightarrow> Inr \<lparr>kc_Client = cli, kc_Index = ko_Index ops\<rparr>)"

section \<open>Logger\<close>

record LogOptions =
  wo_Level :: string
  wo_Filename :: string
  wo_MaxSizeMB :: int
  wo_MaxBackups :: int
  wo_MaxAgeDays :: int
  wo_Compress :: bool
  wo_Caller :: bool
  wo_JSON :: bool

definition log_defaults :: LogOptions where
  "log_defaults = \<lparr>wo_Level = ''info'', wo_Filename = [], wo_MaxSizeMB = 100, wo_MaxBackups = 7, wo_MaxAgeDays = 30,
     wo_Compress = True, wo_Caller = True, wo_JSON = False\<rparr>"

definition lg_WithLevel :: "string \<Rightarrow> LogOptions \<Rightarrow> LogOptions" where "lg_WithLevel l x = x\<lparr>wo_Level := l\<rparr>"
definition lg_WithFilename :: "string \<Rightarrow> LogOptions \<Rightarrow> LogOptions" where "lg_WithFilename f x = x\<lparr>wo_Filename := f\<rparr>"
definition lg_WithMaxSizeMB :: "int \<Rightarrow> LogOptions \<Rightarrow> LogOptions" where "lg_WithMaxSizeMB mb x = x\<lparr>wo_MaxSizeMB := mb\<rparr>"
definition lg_WithMaxBackups :: "int \<Rightarrow> LogOptions \<Rightarrow> LogOptions" where "lg_WithMaxBackups n x = x\<lparr>wo_MaxBackups := n\<rparr>"
definition lg_WithMaxAgeDays :: "int \<Rightarrow> LogOptions \<Rightarrow> LogOptions" where "lg_WithMaxAgeDays d x = x\<lparr>wo_MaxAgeDays := d\<rparr>"
definition lg_WithCompress :: "bool \<Rightarrow> LogOptions \<Rightarrow> LogOptions" where "lg_WithCompress c x = x\<lparr>wo_Compress := c\<rparr>"
definition lg_WithCaller :: "bool \<Rightarrow> LogOptions \<Rightarrow> LogOptions" where "lg_WithCaller c x = x\<lparr>wo_Caller := c\<rparr>"
definition lg_WithJSON :: "bool \<Rightarrow> LogOptions \<Rightarrow> LogOptions" where "lg_WithJSON j x = x\<lparr>wo_JSON := j\<rparr>"

datatype zap_level = DebugLevel | InfoLevel | WarnLevel | ErrorLevel

definition parseLevel :: "string \<Rightarrow> zap_level" where
  "parseLevel l = (if l = ''debug'' then DebugLevel else if l = ''warn'' then WarnLevel
     else if l = ''error'' then ErrorLevel else InfoLevel)"

datatype log_sink = Stdout | Rotated string int int int bool

record zap_logger =
  za_level :: zap_level
  za_json :: bool
  za_sinks :: "log_sink list"
  za_stacktrace :: zap_level
  za_caller :: bool

definition log_build :: "LogOptions \<Rightarrow> zap_logger" where
  "log_build x = \<lparr>za_level = parseLevel (wo_Level x), za_json = wo_JSON x,
     za_sinks = [Stdout] @ (if wo_Filename x \<noteq> []
       then [Rotated (wo_Filename x) (wo_MaxSizeMB x) (wo_MaxBackups x) (wo_MaxAgeDays x) (wo_Compress x)] else []),
     za_stacktrace = ErrorLevel, za_caller = wo_Caller x\<rparr>"

definition log_Init :: "(LogOptions \<Rightarrow> LogOptions) list \<Rightarrow> zap_logger option" where
  "log_Init opts = Some (log_build (apply_opts opts log_defaults))"

text \<open>\<open>global\<close> and the logger it falls back to before \<open>Init\<close>.\<close>

definition log_Logger :: "zap_logger \<Rightarrow> zap_logger option \<Rightarrow> zap_logger \<times> zap_logger option" where
  "log_Logger development global =
     (case global of None \<Rightarrow> (development, Some development) | Some l \<Rightarrow> (l, global))"

section \<open>What the admin makes of its configuration\<close>

definition gorm_log_level :: "string \<Rightarrow> gorm_level" where
  "gorm_log_level l = (if l = ''info'' then GormInfo else if l = ''error'' then GormError else GormWarn)"

definition admin_logger :: "Config \<Rightarrow> zap_logger option" where
  "admin_logger cfg = (let l = cf_Logger cfg in
     log_Init [lg_WithLevel (cl_Level l), lg_WithFilename (cl_Filename l), lg_WithJSON (cl_JSON l),
       lg_WithMaxSizeMB (cl_MaxSizeMB l), lg_WithCompress (cl_Compress l)])"

definition admin_mysql :: "(string \<Rightarrow> duration \<times> gorm_level \<Rightarrow> string + 'h) \<Rightarrow> ('h \<Rightarrow> string option) \<Rightarrow> Config \<Rightarrow>
    'h sql_db option" where
  "admin_mysql gorm_open sql_DB cfg = (let m = cf_MySQL cfg in
     mysql_MustNew gorm_open sql_DB [my_WithDSN (cy_DSN m), my_WithMaxOpenConns (cy_MaxOpenConns m),
       my_WithMaxIdleConns (cy_MaxIdleConns m), my_WithConnMaxLifetime (cy_ConnMaxLifetime m),
       my_WithSlowThreshold (cy_SlowThreshold m), my_WithLogLevel (gorm_log_level (cy_LogLevel m))])"

definition admin_redis :: "(RedisOptions \<Rightarrow> string option) \<Rightarrow> Config \<Rightarrow> RedisOptions option" where
  "admin_redis ping cfg = (let r = cf_Redis cfg in
     redis_MustNew ping [rd_WithAddr (cd_Addr r), rd_WithPassword (cd_Password r), rd_WithDB (cd_DB r),
       rd_WithPoolSize (cd_PoolSize r)])"

definition admin_etcd :: "(EtcdOptions \<Rightarrow> string + 'e) \<Rightarrow> Config \<Rightarrow> 'e option" where
  "admin_etcd clientv3_New cfg = (let e = cf_Etcd cfg in
     if ce_Endpoints e \<noteq> [] \<and> ce_Endpoints e ! 0 \<noteq> []
     then (case etcd_NewClient clientv3_New [et_WithEndpoints (ce_Endpoints e), et_WithDialTimeout (ce_DialTimeout e)] of
             Inl err \<Rightarrow> None | Inr cli \<Rightarrow> Some cli)
     else None)"

text \<open>Settings that are read from the file and passed on by nobody.\<close>

lemma settings_ignored:
  "admin_mysql go sd (cfg\<lparr>cf_MySQL := (cf_MySQL cfg)\<lparr>cy_ConnMaxIdleTime := d\<rparr>\<rparr>) = admin_mysql go sd cfg"
  "admin_redis ping (cfg\<lparr>cf_Redis := (cf_Redis cfg)\<lparr>cd_MinIdleConns := n, cd_DialTimeout := d, cd_ReadTimeout := d2,
     cd_WriteTimeout := d3\<rparr>\<rparr>) = admin_redis ping cfg"
  "admin_etcd cn (cfg\<lparr>cf_Etcd := (cf_Etcd cfg)\<lparr>ce_Username := u, ce_Password := p\<rparr>\<rparr>) = admin_etcd cn cfg"
  "admin_logger (cfg\<lparr>cf_Logger := (cf_Logger cfg)\<lparr>cl_MaxBackups := n, cl_MaxAgeDays := m\<rparr>\<rparr>) = admin_logger cfg"
  by (simp_all add: admin_mysql_def admin_redis_def admin_etcd_def admin_logger_def Let_def)

end
