(* ===== verification/Outside_Channels.thy ===== *)
theory Outside_Channels
  imports Stat_Service Client_Options
begin

text \<open>
  The messages that leave the admin: the mail, DingTalk and WeCom channels of
  \<open>internal/service/alarm_service.go\<close>, the requests of \<open>pkg/es/es.go\<close>, and the wrapper of the cron library
  \<open>pkg/cron\<close>. Texts are the bytes of their UTF-8 encoding. SMTP, HTTP, the Elasticsearch server, JSON and
  the cron parser are arguments.
\<close>

section \<open>Alarm texts\<close>

definition line_feed :: string where "line_feed = [CHR 0x0A]"
definition crlf :: string where "crlf = [CHR 0x0D, CHR 0x0A]"

definition level_text :: "alarm_level \<Rightarrow> string" where
  "level_text l = (case l of AlarmWarn \<Rightarrow> ''WARN'' | AlarmError \<Rightarrow> ''ERROR'')"

text \<open>The Chinese labels of the texts.\<close>

definition lb_job :: string where "lb_job = utf8 [228, 187, 187, 229, 138, 161]"
definition lb_log :: string where "lb_log = utf8 [230, 151, 165, 229, 191, 151] @ ''ID''"
definition lb_level :: string where "lb_level = utf8 [231, 186, 167, 229, 136, 171]"
definition lb_info :: string where "lb_info = utf8 [228, 191, 161, 230, 129, 175]"
definition lb_time :: string where "lb_time = utf8 [230, 151, 182, 233, 151, 180]"
definition lb_alarm :: string where "lb_alarm = utf8 [229, 145, 138, 232, 173, 166]"

definition text_line :: "string \<Rightarrow> string \<Rightarrow> string" where "text_line label val = label @ '': '' @ val"

definition named_job :: "AlarmEvent \<Rightarrow> string" where
  "named_job ev = ae_JobName ev @ '' (ID: '' @ itoa (ae_JobID ev) @ '')''"

subsection \<open>Mail\<close>

record EmailAlarmer =
  em_Host :: string
  em_Port :: int
  em_Username :: string
  em_Password :: string
  em_From :: string
  em_To :: "string list"

definition mail_subject :: "AlarmEvent \<Rightarrow> string" where
  "mail_subject ev = ''[go-jobs]['' @ level_text (ae_Level ev) @ ''] Job #'' @ itoa (ae_JobID ev) @ '' - '' @ ae_JobName ev"

definition mail_body :: "int \<Rightarrow> AlarmEvent \<Rightarrow> string" where
  "mail_body loc ev = go_join [text_line lb_job (named_job ev), text_line lb_log (itoa (ae_LogID ev)),
     text_line lb_level (level_text (ae_Level ev)), text_line lb_info (ae_Message ev),
     text_line lb_time (FormatTime loc (ae_Time ev))] line_feed"

definition mail_message :: "int \<Rightarrow> AlarmEvent \<Rightarrow> string" where
  "mail_message loc ev = ''Subject: '' @ mail_subject ev @ crlf @ ''Content-Type: text/plain; charset=utf-8'' @ crlf @ crlf @
     mail_body loc ev"

text \<open>\<open>send\<close> is \<open>smtp.SendMail\<close> with the address, the plain authentication (identity, user, password, host), the
  sender, the receivers and the message.\<close>

definition email_Send :: "(string \<Rightarrow> string \<times> string \<times> string \<times> string \<Rightarrow> string \<Rightarrow> string list \<Rightarrow> string \<Rightarrow> 'w \<Rightarrow>
    string option \<times> 'w) \<Rightarrow> int \<Rightarrow> EmailAlarmer \<Rightarrow> 'w alarmer" where
  "email_Send send loc a ev =
     send (em_Host a @ '':'' @ itoa (em_Port a)) ([], em_Username a, em_Password a, em_Host a) (em_From a) (em_To a)
       (mail_message loc ev)"

text \<open>The header of a message: its lines up to the first empty one.\<close>

fun mail_lines :: "string \<Rightarrow> string list" where
  "mail_lines [] = [[]]"
| "mail_lines [c] = [[c]]"
| "mail_lines (c # d # cs) = (if c = CHR 0x0D \<and> d = CHR 0x0A then [] # mail_lines cs
     else case mail_lines (d # cs) of [] \<Rightarrow> [[c]] | l # ls \<Rightarrow> (c # l) # ls)"

definition mail_header :: "string \<Rightarrow> string list" where "mail_header m = takeWhile (\<lambda>l. l \<noteq> []) (mail_lines m)"

lemma mail_lines_crlf: "CHR 0x0D \<notin> set l \<Longrightarrow> mail_lines (l @ crlf @ m) = l # mail_lines m"
proof (induction l)
  case Nil
  then show ?case by (simp add: crlf_def)
next
  case (Cons c l)
  then show ?case by (cases "l @ crlf @ m") (auto simp: crlf_def)
qed

lemma itoa_no_cr: "CHR 0x0D \<notin> set (itoa n)"
  using id_char_itoa [of n] id_char_not [of "CHR 0x0D"] by (auto simp: list_all_iff is_space_def)

text \<open>The name of a job goes into the subject as it is, so it can add header lines to the mail.\<close>

lemma mail_header_injection:
  assumes "ae_JobName ev = name @ crlf @ hdr @ crlf @ rest" "CHR 0x0D \<notin> set name" "CHR 0x0D \<notin> set hdr" "hdr \<noteq> []"
  shows "hdr \<in> set (mail_header (mail_message loc ev))"
proof -
  let ?sub = "''Subject: [go-jobs]['' @ level_text (ae_Level ev) @ ''] Job #'' @ itoa (ae_JobID ev) @ '' - '' @ name"
  have cr: "CHR 0x0D \<notin> set ?sub" using assms(2) itoa_no_cr by (simp add: level_text_def split: alarm_level.split)
  let ?rest = "rest @ crlf @ ''Content-Type: text/plain; charset=utf-8'' @ crlf @ crlf @ mail_body loc ev"
  have "mail_message loc ev = ?sub @ crlf @ hdr @ crlf @ ?rest"
    by (simp add: mail_message_def mail_subject_def assms(1))
  then have "mail_lines (mail_message loc ev) = ?sub # hdr # mail_lines ?rest"
    using mail_lines_crlf [OF cr] mail_lines_crlf [OF assms(3)] by metis
  then show ?thesis by (simp add: mail_header_def assms(4))
qed

subsection \<open>DingTalk and WeCom\<close>

datatype chat_payload =
    Markdown string string
  | TextMsg string

definition dingtalk_payload :: "int \<Rightarrow> AlarmEvent \<Rightarrow> chat_payload" where
  "dingtalk_payload loc ev =
     (let levelEmoji = (if ae_Level ev = AlarmError then utf8 [240, 159, 148, 180] else utf8 [226, 154, 160, 239, 184, 143]);
          item = (\<lambda>label val. ''- **'' @ label @ ''**: '' @ val);
          body = ''## '' @ levelEmoji @ '' [go-jobs] '' @ lb_job @ lb_alarm @ line_feed @ line_feed @
            go_join [item (lb_job @ utf8 [229, 144, 141]) (named_job ev), item lb_log (itoa (ae_LogID ev)),
              item lb_level (level_text (ae_Level ev) @ '' '' @ levelEmoji), item lb_info (ae_Message ev),
              item lb_time (FormatTime loc (ae_Time ev))] line_feed
      in Markdown (''[go-jobs] '' @ level_text (ae_Level ev) @ '' '' @ lb_alarm @ '' - '' @ ae_JobName ev) body)"

definition wecom_payload :: "int \<Rightarrow> AlarmEvent \<Rightarrow> chat_payload" where
  "wecom_payload loc ev = TextMsg (''[go-jobs] '' @ lb_job @ lb_alarm @ line_feed @
     go_join [text_line lb_job (named_job ev), text_line lb_level (level_text (ae_Level ev)), text_line lb_info (ae_Message ev),
       text_line lb_time (FormatTime loc (ae_Time ev))] line_feed)"

definition dingtalk_Send :: "'w http_post \<Rightarrow> (chat_payload \<Rightarrow> string + string) \<Rightarrow> int \<Rightarrow> string \<Rightarrow> 'w alarmer" where
  "dingtalk_Send hp json loc url ev = postJSON hp url (json (dingtalk_payload loc ev))"

definition wecom_Send :: "'w http_post \<Rightarrow> (chat_payload \<Rightarrow> string + string) \<Rightarrow> int \<Rightarrow> string \<Rightarrow> 'w alarmer" where
  "wecom_Send hp json loc url ev = postJSON hp url (json (wecom_payload loc ev))"

text \<open>The channels that \<open>main\<close> sets up: those with an address in the configuration, mail never.\<close>

definition admin_alarmers :: "'w http_post \<Rightarrow> (chat_payload \<Rightarrow> string + string) \<Rightarrow> (AlarmEvent \<Rightarrow> string) \<Rightarrow> int \<Rightarrow>
    Config \<Rightarrow> 'w alarmer list" where
  "admin_alarmers hp json json_event loc cfg = (let a = cf_Alarm cfg in
     (if ca_DingtalkWebhook a \<noteq> [] then [dingtalk_Send hp json loc (ca_DingtalkWebhook a)] else []) @
     (if ca_WeComWebhook a \<noteq> [] then [wecom_Send hp json loc (ca_WeComWebhook a)] else []) @
     (if ca_WebhookURL a \<noteq> [] then [webhook_Send hp json_event (ca_WebhookURL a) []] else []))"

lemma no_mail_alarms:
  "admin_alarmers hp json je loc (cfg\<lparr>cf_Alarm := (cf_Alarm cfg)\<lparr>ca_Email := em\<rparr>\<rparr>) = admin_alarmers hp json je loc cfg"
  by (simp add: admin_alarmers_def Let_def)

section \<open>The Elasticsearch client\<close>

datatype es_field = EsLong | EsInteger | EsKeyword | EsDate | EsText "string option"

text \<open>The server: a request that gets no answer (\<open>Inl\<close>), or a status; \<open>Some\<close> text is the status of an error.\<close>

record 'k es_server =
  sv_exists :: "string \<Rightarrow> 'k \<Rightarrow> string + int"
  sv_create :: "string \<Rightarrow> (string \<times> es_field) list \<Rightarrow> 'k \<Rightarrow> (string + string option) \<times> 'k"
  sv_index :: "string \<Rightarrow> string \<Rightarrow> LogDocument \<Rightarrow> 'k \<Rightarrow> (string + string option) \<times> 'k"

text \<open>A \<open>LogDocument\<close> can always be marshalled.\<close>

definition client_IndexLog :: "'k es_server \<Rightarrow> string \<Rightarrow> LogDocument \<Rightarrow> 'k \<Rightarrow> string option \<times> 'k" where
  "client_IndexLog sv index doc k =
     (case sv_index sv index (itoa (ld_LogID doc)) doc k of
        (Inl err, k1) \<Rightarrow> (Some (''es: index log '' @ itoa (ld_LogID doc) @ '': '' @ err), k1)
      | (Inr (Some st), k1) \<Rightarrow> (Some (''es: index log '' @ itoa (ld_LogID doc) @ '': status='' @ st), k1)
      | (Inr None, k1) \<Rightarrow> (None, k1))"

definition log_mapping :: "(string \<times> es_field) list" where
  "log_mapping =
     [(''log_id'', EsLong), (''job_id'', EsLong), (''job_name'', EsKeyword), (''executor_address'', EsKeyword),
      (''status'', EsInteger), (''log_content'', EsText (Some ''standard'')), (''trigger_time'', EsDate),
      (''duration_ms'', EsLong), (''error_msg'', EsText None), (''sharding_index'', EsInteger),
      (''sharding_total'', EsInteger)]"

definition EnsureIndex :: "'k es_server \<Rightarrow> string \<Rightarrow> 'k \<Rightarrow> string option \<times> 'k" where
  "EnsureIndex sv index k =
     (case sv_exists sv index k of
        Inl err \<Rightarrow> (Some (''es: check index exists: '' @ err), k)
      | Inr st \<Rightarrow>
          if st = 200 then (None, k)
          else (case sv_create sv index log_mapping k of
             (Inl err, k1) \<Rightarrow> (Some (''es: create index: '' @ err), k1)
           | (Inr (Some status), k1) \<Rightarrow> (Some (''es: create index returned '' @ status), k1)
           | (Inr None, k1) \<Rightarrow> (None, k1)))"

text \<open>The client of \<open>main\<close>: a failure to make it disables the search, one to make the index is logged.\<close>

definition admin_es :: "(string list \<times> string \<times> string \<Rightarrow> string + 'c) \<Rightarrow> 'k es_server \<Rightarrow> Config \<Rightarrow> 'k \<Rightarrow>
    'c ESClient option \<times> 'k" where
  "admin_es newClient sv cfg k = (let e = cf_ES cfg in
     if ck_Enabled e \<and> ck_Addresses e \<noteq> []
     then (case es_client_New newClient [ek_WithAddresses (ck_Addresses e), ek_WithCredentials (ck_Username e) (ck_Password e),
             ek_WithIndex (ck_Index e)] of
             Inl err \<Rightarrow> (None, k)
           | Inr c \<Rightarrow> (Some c, snd (EnsureIndex sv (kc_Index c) k)))
     else (None, k))"

text \<open>An index that is not configured replaces the default of the client by the empty name.\<close>

lemma es_default_index_lost:
  "ck_Index (cf_ES cfg) = [] \<Longrightarrow> admin_es nc sv cfg k = (Some c, k') \<Longrightarrow>
     kc_Index c = [] \<and> k' = snd (EnsureIndex sv [] k)"
  by (auto simp: admin_es_def es_client_New_def ek_WithAddresses_def ek_WithCredentials_def ek_WithIndex_def Let_def
      split: if_splits sum.splits)

section \<open>Cron expressions\<close>

definition cron_NextTime :: "(string \<Rightarrow> string + (time \<Rightarrow> time)) \<Rightarrow> string \<Rightarrow> time \<Rightarrow> string + time" where
  "cron_NextTime parse expr from_time =
     (case parse expr of Inl err \<Rightarrow> Inl (''cron: parse '' @ go_quote expr @ '': '' @ err) | Inr sched \<Rightarrow> Inr (sched from_time))"

definition cron_IsValid :: "(string \<Rightarrow> string + (time \<Rightarrow> time)) \<Rightarrow> string \<Rightarrow> bool" where
  "cron_IsValid parse expr \<longleftrightarrow> (case parse expr of Inl err \<Rightarrow> False | Inr sched \<Rightarrow> True)"

lemma cron_valid_next: "cron_IsValid parse expr \<longleftrightarrow> (\<exists>t. cron_NextTime parse expr from_time = Inr t)"
  by (simp add: cron_IsValid_def cron_NextTime_def split: sum.split)

end
