(* ===== verification/Admin_Main.thy ===== *)
theory Admin_Main
  imports Admin_Props Cluster_Props Buffer_Props Outside_Channels
begin

text \<open>
  \<open>cmd/admin/main.go\<close>: the parts that \<open>main\<close> makes from the configuration, its start with or without an
  election, the background tickers, the complete set of routes (those of \<open>Admin_API\<close>, the health probe and
  the closures for statistics, log search and groups), and the shutdown; and the second set of routes in
  \<open>api/router.go\<close>.
\<close>

section \<open>Parts\<close>

definition admin_nodeID :: "string \<Rightarrow> Config \<Rightarrow> string" where
  "admin_nodeID localIP cfg =
     (let nodeID = cu_NodeID (cf_Scheduler cfg)
      in if nodeID = [] then NodeID localIP (cs_Port (cf_Server cfg)) else nodeID)"

definition admin_buffer :: "JobLog \<Rightarrow> 'db \<Rightarrow> 'db Buffer option" where
  "admin_buffer unused db =
     (case buf_New unused db [bf_WithBatchSize 500, bf_WithFlushInterval (2 * second), bf_WithRingCap 2000] of
        None \<Rightarrow> None | Some b \<Rightarrow> buf_Start b)"

definition admin_execStore :: "Entry \<Rightarrow> Config \<Rightarrow> EStore" where
  "admin_execStore unused cfg = es_New unused [es_WithProbeInterval (10 * second), es_WithProbeTimeout (2 * second),
     es_WithHeartbeatTTL (cu_HeartbeatTimeout (cf_Scheduler cfg))]"

definition admin_engine :: "string \<Rightarrow> Config \<Rightarrow> ('c, 't) Engine" where
  "admin_engine nodeID cfg = tpl_New [tpl_WithEnv (ap_Env (cf_App cfg)), tpl_WithNodeID nodeID, tpl_WithCacheSize 1024]"

definition admin_sched :: "time \<Rightarrow> string \<Rightarrow> Entry \<Rightarrow> string \<Rightarrow> Config \<Rightarrow> ('c, 't) Scheduler" where
  "admin_sched now uuid unused nodeID cfg =
     sched_New now uuid True (Some (admin_execStore unused cfg))
       [sched_WithPreloadWindow (cu_PreloadDuration (cf_Scheduler cfg)), sched_WithNodeID nodeID,
        sched_WithRateLimiter (Some NewRegistry), sched_WithParamEngine (Some (admin_engine nodeID cfg))]"

definition admin_users :: "Config \<Rightarrow> UserService" where
  "admin_users cfg = NewUserService (cj_Secret (cf_JWT cfg)) (cj_ExpireDuration (cf_JWT cfg))"

definition admin_esLog :: "'k ESClient option \<Rightarrow> Config \<Rightarrow> ESLogService" where
  "admin_esLog client cfg = \<lparr>el_client = client \<noteq> None, el_enabled = ck_Enabled (cf_ES cfg) \<and> client \<noteq> None\<rparr>"

section \<open>Start\<close>

text \<open>Whether \<open>main\<close> has an election: etcd is configured, its client can be made and so can the session.\<close>

definition admin_elects :: "(EtcdOptions \<Rightarrow> string + 'e) \<Rightarrow> ('e \<Rightarrow> string option) \<Rightarrow> Config \<Rightarrow> bool" where
  "admin_elects clientv3_New new_session cfg =
     (case admin_etcd clientv3_New cfg of None \<Rightarrow> False | Some cli \<Rightarrow> new_session cli = None)"

datatype 's launched = Electing "'s Election" | Standalone 's | Fatal string

text \<open>With an election the scheduler waits for the callback, without one it is started, and the process ends
  when that fails.\<close>

definition admin_launch :: "bool \<Rightarrow> string \<Rightarrow> (('c, 't) Scheduler \<Rightarrow> (string option \<times> ('c, 't) Scheduler) outcome) \<Rightarrow>
    ('c, 't) Scheduler \<Rightarrow> ('c, 't) Scheduler launched outcome" where
  "admin_launch elects nodeID start s =
     (if elects then Done (Electing (NewLeaderElection nodeID s))
      else and_then (start s) (\<lambda>(err, s1). Done (case err of None \<Rightarrow> Standalone s1 | Some e \<Rightarrow> Fatal e)))"

text \<open>An etcd that cannot be reached at the start makes every node run as if it were the only one.\<close>

lemma unreachable_etcd_standalone:
  assumes "\<And>x. clientv3_New x = Inl err" "start s = Done (None, s1)"
  shows "admin_launch (admin_elects clientv3_New new_session cfg) nodeID start s = Done (Standalone s1)"
  using assms by (simp add: admin_launch_def admin_elects_def admin_etcd_def etcd_NewClient_def Let_def)

section \<open>Background tickers\<close>

definition tick_sweep :: "('c, 't, 'db) Env \<Rightarrow> time \<Rightarrow> ('c, 't, 'db) Admin \<Rightarrow> ('c, 't, 'db) Admin" where
  "tick_sweep ev now s = snd (on_exec (\<lambda>e. ((), exec_Sweep (ev_tables ev) now e)) s)"

definition tick_retry :: "('c, 't, 'db) Env \<Rightarrow> time \<Rightarrow> ('c, 't, 'db) Admin \<Rightarrow> ('c, 't, 'db) Admin" where
  "tick_retry ev now s = snd (on_jobs (\<lambda>j. ((), retry_Run (ev_tables ev) now j)) s)"

text \<open>An error of the aggregation is logged; the hour is the one before the tick.\<close>

definition tick_stat :: "('c, 't, 'db) Env \<Rightarrow> 'db upsert \<Rightarrow> time \<Rightarrow> ('c, 't, 'db) Admin \<Rightarrow> ('c, 't, 'db) Admin" where
  "tick_stat ev upsert t s = snd (on_jobs (on_db (stat_Aggregate (ev_tables ev) upsert (t + - hour))) s)"

section \<open>Routes\<close>

text \<open>\<open>fmt.Sscanf(s, "%d", &n)\<close>: spaces but no line end, a sign, digits, whatever follows; \<open>None\<close> is an error,
  after which the variable has its old value.\<close>

definition sscan_int :: "string \<Rightarrow> int option" where
  "sscan_int s =
     (let t = dropWhile (\<lambda>c. is_space c \<and> c \<noteq> CHR 0x0A) s;
          (neg, u) = (case t of [] \<Rightarrow> (False, [])
             | c # cs \<Rightarrow> if c = CHR ''-'' then (True, cs) else if c = CHR ''+'' then (False, cs) else (False, t));
          digits = takeWhile is_digit u
      in if digits = [] then None
         else let n = (if neg then - int (atou digits) else int (atou digits)) in if in_i64 n then Some n else None)"

definition main_queryInt :: "Request \<Rightarrow> string \<Rightarrow> int \<Rightarrow> int" where
  "main_queryInt q key defaultVal =
     (let s = query_of q key
      in if s = [] then defaultVal else case sscan_int s of None \<Rightarrow> defaultVal | Some n \<Rightarrow> n)"

datatype main_data =
    ApiData resp_data
  | HealthData string bool
  | DashboardData Dashboard
  | SearchData "LogDocument list" int int int
  | GroupData JobGroup
  | GroupList "JobGroup list"
  | NoMainData

type_synonym main_reply = "R \<times> main_data"

record ('c, 't, 'db) MainEnv =
  me_env :: "('c, 't, 'db) Env"
  me_stats :: "(ScheduleStat, 'db) gorm"
  me_groups :: "'db group_tables"
  me_es :: ESLogService
  me_server :: "es_query \<Rightarrow> es_answer"
  me_rfc3339 :: "time \<Rightarrow> string"
  me_now :: time
  me_node :: string
  me_group_body :: "string + string \<times> string"

definition main_ok :: "main_data \<Rightarrow> main_reply" where
  "main_ok x = (\<lparr>r_status = 200, r_Code = 0, r_Message = ''success''\<rparr>, x)"

text \<open>Some of the closures leave out the message.\<close>

definition main_silent :: "main_data \<Rightarrow> main_reply" where
  "main_silent x = (\<lparr>r_status = 200, r_Code = 0, r_Message = []\<rparr>, x)"

definition main_error :: "int \<Rightarrow> int \<Rightarrow> string \<Rightarrow> main_reply" where
  "main_error st code msg = (\<lparr>r_status = st, r_Code = code, r_Message = msg\<rparr>, NoMainData)"

definition h_Dashboard :: "('c, 't, 'db) MainEnv \<Rightarrow> ('c, 't, 'db) Admin \<Rightarrow> main_reply" where
  "h_Dashboard me s =
     (case GetDashboardStats (me_stats me) (me_now me) (ad_db s) of
        Inl err \<Rightarrow> main_error 500 1500 (db_text err) | Inr d \<Rightarrow> main_ok (DashboardData d))"

definition search_request :: "Request \<Rightarrow> SearchLogsRequest" where
  "search_request q =
     (let jid = query_of q ''job_id''
      in \<lparr>sq_Keyword = query_of q ''keyword'',
          sq_JobID = (if jid \<noteq> [] then case sscan_int jid of Some n \<Rightarrow> n | None \<Rightarrow> 0 else 0), sq_Status = 0,
          sq_StartTime = zero_time, sq_EndTime = zero_time, sq_Page = main_queryInt q ''page'' 1,
          sq_PageSize = main_queryInt q ''page_size'' 20\<rparr>)"

definition h_Search :: "('c, 't, 'db) MainEnv \<Rightarrow> Request \<Rightarrow> main_reply" where
  "h_Search me q =
     (if \<not> es_Enabled (me_es me) then main_error 400 1001 ''ES is not enabled''
      else case es_SearchLogs (me_rfc3339 me) (me_server me) (me_es me) (search_request q) of
        (Inl err, req) \<Rightarrow> main_error 500 1500 err
      | (Inr (docs, cnt), req) \<Rightarrow> main_silent (SearchData docs cnt (sq_Page req) (sq_PageSize req)))"

definition h_ListGroups :: "('c, 't, 'db) MainEnv \<Rightarrow> ('c, 't, 'db) Admin \<Rightarrow> main_reply" where
  "h_ListGroups me s =
     (case ListGroups (me_groups me) (ad_db s) of
        Inl err \<Rightarrow> main_error 500 1500 (db_text err) | Inr gs \<Rightarrow> main_silent (GroupList gs))"

definition h_CreateGroup :: "('c, 't, 'db) MainEnv \<Rightarrow> ('c, 't, 'db) Admin \<Rightarrow> main_reply \<times> ('c, 't, 'db) Admin" where
  "h_CreateGroup me s =
     (case me_group_body me of
        Inl err \<Rightarrow> (main_error 400 1001 err, s)
      | Inr (name, description) \<Rightarrow>
          let (res, s1) = on_jobs (on_db (CreateGroup (me_groups me) name description)) s
          in (case res of Inl err \<Rightarrow> main_error 500 1500 (error_text err) | Inr g \<Rightarrow> main_silent (GroupData g), s1))"

text \<open>An ID that cannot be read is zero.\<close>

definition h_DeleteGroup :: "('c, 't, 'db) MainEnv \<Rightarrow> string \<Rightarrow> ('c, 't, 'db) Admin \<Rightarrow> main_reply \<times> ('c, 't, 'db) Admin" where
  "h_DeleteGroup me idText s =
     (let i = (case sscan_int idText of Some n \<Rightarrow> n | None \<Rightarrow> 0);
          (err, s1) = on_jobs (on_db (DeleteGroup (me_groups me) i)) s
      in (case err of Some e \<Rightarrow> main_error 500 1500 (error_text e) | None \<Rightarrow> main_silent NoMainData, s1))"

definition with_jwt :: "('c, 't, 'db) MainEnv \<Rightarrow> Request \<Rightarrow> ('c, 't, 'db) Admin \<Rightarrow>
    (('c, 't, 'db) Admin \<Rightarrow> main_reply \<times> ('c, 't, 'db) Admin) \<Rightarrow> main_reply \<times> ('c, 't, 'db) Admin" where
  "with_jwt me q s f = (let ev = me_env me in
     case JWTAuth (ev_jwt ev) (ev_authNow ev) (ev_users ev) (hq_auth q) of
       Inl resp \<Rightarrow> ((resp, NoMainData), s) | Inr ss \<Rightarrow> f s)"

datatype own_route = Health | StatsDashboard | LogsSearch | GroupsList | GroupsCreate | GroupsDelete string | ApiRoute

definition main_route :: "Request \<Rightarrow> own_route" where
  "main_route q =
     (let m = hq_method q; p = hq_path q
      in if m = ''GET'' \<and> p = [''health''] then Health
         else if m = ''GET'' \<and> p = [''api'', ''stats'', ''dashboard''] then StatsDashboard
         else if m = ''GET'' \<and> p = [''api'', ''logs'', ''search''] then LogsSearch
         else if m = ''GET'' \<and> p = [''api'', ''groups''] then GroupsList
         else if m = ''POST'' \<and> p = [''api'', ''groups''] then GroupsCreate
         else if m = ''DELETE'' \<and> length p = 3 \<and> take 2 p = [''api'', ''groups''] then GroupsDelete (p ! 2)
         else ApiRoute)"

definition main_api :: "('c, 't, 'db) MainEnv \<Rightarrow> Request \<Rightarrow> ('c, 't, 'db) Admin \<Rightarrow> main_reply \<times> ('c, 't, 'db) Admin" where
  "main_api me q s =
     (case main_route q of
        Health \<Rightarrow> ((\<lparr>r_status = 200, r_Code = 0, r_Message = ''ok''\<rparr>, HealthData (me_node me) (es_Enabled (me_es me))), s)
      | StatsDashboard \<Rightarrow> with_jwt me q s (\<lambda>s. (h_Dashboard me s, s))
      | LogsSearch \<Rightarrow> with_jwt me q s (\<lambda>s. (h_Search me q, s))
      | GroupsList \<Rightarrow> with_jwt me q s (\<lambda>s. (h_ListGroups me s, s))
      | GroupsCreate \<Rightarrow> with_jwt me q s (h_CreateGroup me)
      | GroupsDelete i \<Rightarrow> with_jwt me q s (h_DeleteGroup me i)
      | ApiRoute \<Rightarrow> (let ((resp, x), s1) = admin_api (me_env me) q s in ((resp, ApiData x), s1)))"

section \<open>Shutdown\<close>

text \<open>The parts of the running process that the shutdown touches. The steps come in this order after the signal;
  \<open>StopBuffer\<close> closes the buffer and then waits for its loop, which drains it, \<open>None\<close> is a panic. Requests that
  come before the last step are still handled.\<close>

record ('c, 't, 'db) AdminProcess =
  mp_ticking :: bool
  mp_run :: "('c, 't) Scheduler launched"
  mp_buffer :: "'db Buffer"
  mp_serving :: bool

datatype shutdown_step = StopTickers | StopScheduling | StopBuffer | StopServer

fun shutdown_do :: "shutdown_step \<Rightarrow> ('c, 't, 'db) AdminProcess \<Rightarrow> ('c, 't, 'db) AdminProcess outcome option" where
  "shutdown_do StopTickers p = Some (Done (p\<lparr>mp_ticking := False\<rparr>))"
| "shutdown_do StopScheduling p =
     (case mp_run p of
        Electing e \<Rightarrow> (case le_Stop e of None \<Rightarrow> None | Some e1 \<Rightarrow> Some (Done (p\<lparr>mp_run := Electing e1\<rparr>)))
      | Standalone s \<Rightarrow> Some (and_then (sched_Stop s) (\<lambda>s1. Done (p\<lparr>mp_run := Standalone s1\<rparr>)))
      | Fatal err \<Rightarrow> Some (Done p))"
| "shutdown_do StopBuffer p = (case buf_close (mp_buffer p) of None \<Rightarrow> None | Some b \<Rightarrow> Some (Done (p\<lparr>mp_buffer := b\<rparr>)))"
| "shutdown_do StopServer p = Some (Done (p\<lparr>mp_serving := False\<rparr>))"

definition shutdown_order :: "shutdown_step list" where
  "shutdown_order = [StopTickers, StopScheduling, StopBuffer, StopServer]"

text \<open>At the shutdown of a node with an election its scheduler is not stopped, and the server is still there when
  the buffer has been closed.\<close>

lemma shutdown_leader_keeps_scheduling:
  assumes "mp_run p = Electing e" "le_Stop e = Some e1"
  shows "shutdown_do StopScheduling p = Some (Done (p\<lparr>mp_run := Electing e1\<rparr>)) \<and> le_app e1 = le_app e"
  using assms by (auto simp: le_Stop_def split: if_splits)

lemma shutdown_serves_without_buffer:
  assumes "shutdown_do StopBuffer p = Some (Done p1)"
  shows "bf_stopCh (mp_buffer p1) \<and> mp_serving p1 = mp_serving p \<and> mp_run p1 = mp_run p"
  using assms by (auto simp: buf_close_def split: if_splits)

section \<open>The second router\<close>

text \<open>\<open>SetupAdminRouter\<close> in \<open>api/router.go\<close>: no templates, statistics, search or groups.\<close>

definition route_api_v1 :: "('c, 't, 'db) Env \<Rightarrow> Request \<Rightarrow> Session option \<Rightarrow> string list \<Rightarrow> ('c, 't, 'db) Admin \<Rightarrow>
    (reply \<times> ('c, 't, 'db) Admin) option" where
  "route_api_v1 ev q ss path s =
     (case path of
        [] \<Rightarrow> None
      | p # ps \<Rightarrow>
          if p = ''user'' \<and> ps = [''me''] \<and> hq_method q = ''GET'' then Some (h_GetCurrentUser ev ss s, s)
          else if p = ''jobs'' then route_jobs ev q ss ps s
          else if p = ''logs'' then route_logs ev q ps s
          else if p = ''executors'' \<and> ps = [] \<and> hq_method q = ''GET'' then Some (h_ListExecutors ev q s, s)
          else None)"

definition SetupAdminRouter :: "('c, 't, 'db) Env \<Rightarrow> Request \<Rightarrow> ('c, 't, 'db) Admin \<Rightarrow> main_reply \<times> ('c, 't, 'db) Admin" where
  "SetupAdminRouter ev q s =
     (if hq_method q = ''GET'' \<and> hq_path q = [''health'']
      then ((\<lparr>r_status = 200, r_Code = 0, r_Message = ''ok''\<rparr>, NoMainData), s)
      else case hq_path q of
        p # path \<Rightarrow>
          if p \<noteq> ''api'' then ((page_not_found, ApiData NoData), s)
          else if login_route q path
          then (let ((resp, x), s1) = h_Login ev (bind_login (ev_unbound ev) (bd_login (hq_body q))) s in ((resp, ApiData x), s1))
          else if internal_route q path
          then (let ((resp, x), s1) = route_internal ev q (path ! 1) s in ((resp, ApiData x), s1))
          else (case JWTAuth (ev_jwt ev) (ev_authNow ev) (ev_users ev) (hq_auth q) of
             Inl resp \<Rightarrow> (if route_api_v1 ev q None path s = None then ((page_not_found, ApiData NoData), s)
                         else ((resp, ApiData NoData), s))
           | Inr ss \<Rightarrow> (case route_api_v1 ev q (Some ss) path s of
               None \<Rightarrow> ((page_not_found, ApiData NoData), s)
             | Some ((resp, x), s1) \<Rightarrow> ((resp, ApiData x), s1)))
      | [] \<Rightarrow> ((page_not_found, ApiData NoData), s))"

text \<open>\<open>SetupExecutorRouter\<close> registers no route but the probe.\<close>

definition SetupExecutorRouter :: "Request \<Rightarrow> R" where
  "SetupExecutorRouter q =
     (if hq_method q = ''GET'' \<and> hq_path q = [''health''] then \<lparr>r_status = 200, r_Code = 0, r_Message = ''ok''\<rparr>
      else page_not_found)"

end
