(* ===== verification/Main_Props.thy ===== *)
theory Main_Props
  imports Admin_Main
begin

text \<open>
  What the complete server of \<open>cmd/admin/main.go\<close> lets through, in terms of the routes of \<open>Admin_API\<close> and its own,
  that the role of a token is never looked at, how the unused router of \<open>api/router.go\<close> compares with it, and what an unset secret opens.
\<close>

section \<open>Credentials\<close>

text \<open>A reply that carries data of the services; the health probe gives the node's name to everybody.\<close>

fun discloses :: "main_data \<Rightarrow> bool" where
  "discloses (ApiData x) \<longleftrightarrow> x \<noteq> NoData"
| "discloses (HealthData n b) \<longleftrightarrow> False"
| "discloses NoMainData \<longleftrightarrow> False"
| "discloses _ \<longleftrightarrow> True"

definition token_accepted :: "('c, 't, 'db) MainEnv \<Rightarrow> Request \<Rightarrow> bool" where
  "token_accepted me q \<longleftrightarrow>
     (\<exists>ss. JWTAuth (ev_jwt (me_env me)) (ev_authNow (me_env me)) (ev_users (me_env me)) (hq_auth q) = Inr ss)"

lemma with_jwt_refused: "\<not> token_accepted me q \<Longrightarrow> snd (with_jwt me q s f) = s \<and> snd (fst (with_jwt me q s f)) = NoMainData"
  by (cases "JWTAuth (ev_jwt (me_env me)) (ev_authNow (me_env me)) (ev_users (me_env me)) (hq_auth q)")
    (auto simp: token_accepted_def with_jwt_def Let_def)

lemma internal_no_data: "snd (fst (route_internal ev q sub s)) = NoData"
  by (simp add: route_internal_def case_prod_beta Let_def)

text \<open>A reply of the API routes with data, without an accepted token, is that of a login.\<close>

lemma api_data:
  assumes "snd (fst (admin_api ev q s)) \<noteq> NoData"
    "\<nexists>ss. JWTAuth (ev_jwt ev) (ev_authNow ev) (ev_users ev) (hq_auth q) = Inr ss"
  shows "hq_path q = [''api'', ''login''] \<and> (\<exists>p. snd (fst (admin_api ev q s)) = LoginData p)"
proof -
  obtain path where path: "hq_path q = ''api'' # path"
    using assms by (auto simp: admin_api_def split: list.splits if_splits)
  have login: "login_route q path"
  proof (rule ccontr)
    assume n: "\<not> login_route q path"
    then show False
    proof (cases "internal_route q path")
      case True
      then show False using assms(1) path n by (simp add: admin_api_def internal_no_data)
    next
      case False
      then show False
        using assms path n
        by (cases "JWTAuth (ev_jwt ev) (ev_authNow ev) (ev_users ev) (hq_auth q)") (auto simp: admin_api_def split: if_splits)
    qed
  qed
  let ?r = "h_Login ev (bind_login (ev_unbound ev) (bd_login (hq_body q))) s"
  have eq: "admin_api ev q s = ?r" using login path by (simp add: admin_api_def)
  have "\<exists>p. snd (fst ?r) = LoginData p"
    using assms(1) unfolding eq by (auto simp: h_Login_def bad_request_def respond_def case_prod_beta Let_def split: sum.splits)
  then show ?thesis using login path unfolding eq by (simp add: login_route_def)
qed

lemma main_api_own: "main_route q \<noteq> ApiRoute \<Longrightarrow> \<not> token_accepted me q \<Longrightarrow>
    snd (main_api me q s) = s \<and> \<not> discloses (snd (fst (main_api me q s)))"
  by (cases "main_route q") (simp_all add: main_api_def with_jwt_refused)

lemma main_api_api: "main_route q = ApiRoute \<Longrightarrow> snd (main_api me q s) = snd (admin_api (me_env me) q s) \<and>
    snd (fst (main_api me q s)) = ApiData (snd (fst (admin_api (me_env me) q s)))"
  by (simp add: main_api_def case_prod_beta)

text \<open>Property C2: over all routes of the admin server, a request that changes the state of the services or gets any
  of their data is a login that was answered with a token, a call of an executor with the shared token, or
  carries a token that \<open>JWTAuth\<close> accepts.\<close>

theorem server_needs_credentials:
  assumes "snd (main_api me q s) \<noteq> s \<or> discloses (snd (fst (main_api me q s)))"
  shows "(hq_path q = [''api'', ''login''] \<and> (\<exists>p. snd (fst (main_api me q s)) = ApiData (LoginData p))) \<or>
    (take 2 (hq_path q) = [''api'', ''executor''] \<and> hq_token q = admin_token (ev_internalToken (me_env me))) \<or>
    (\<exists>ss. JWTAuth (ev_jwt (me_env me)) (ev_authNow (me_env me)) (ev_users (me_env me)) (hq_auth q) = Inr ss)"
proof (cases "token_accepted me q")
  case False
  then have route: "main_route q = ApiRoute" using assms main_api_own by blast
  note eqs = main_api_api [OF route, of me s]
  show ?thesis
  proof (cases "snd (main_api me q s) = s")
    case True
    then have "snd (fst (admin_api (me_env me) q s)) \<noteq> NoData" using assms eqs by simp
    from api_data [OF this] show ?thesis using False eqs by (auto simp: token_accepted_def)
  next
    case changed: False
    then have "snd (admin_api (me_env me) q s) \<noteq> s" using eqs by simp
    from changes_need_credentials [OF this] show ?thesis using eqs by auto
  qed
qed (simp add: token_accepted_def)

section \<open>Roles\<close>

lemma main_route_auth [simp]: "main_route (q\<lparr>hq_auth := a\<rparr>) = main_route q"
  by (simp add: main_route_def)

text \<open>Property C33: two accepted tokens of one user that differ in the role get the same answer and the same effect on
  every route of the admin server, those of \<open>RegisterRoutes\<close> and those \<open>main\<close> adds: no route is reserved to
  administrators.\<close>

theorem role_is_ignored:
  assumes "JWTAuth (ev_jwt (me_env me)) (ev_authNow (me_env me)) (ev_users (me_env me)) (hq_auth q) = Inr ss"
    and "JWTAuth (ev_jwt (me_env me)) (ev_authNow (me_env me)) (ev_users (me_env me)) a = Inr (ss\<lparr>ss_userRole := r\<rparr>)"
  shows "main_api me (q\<lparr>hq_auth := a\<rparr>) s = main_api me q s"
proof -
  have "with_jwt me (q\<lparr>hq_auth := a\<rparr>) s f = with_jwt me q s f" for f using assms by (simp add: with_jwt_def)
  moreover have "h_Search me (q\<lparr>hq_auth := a\<rparr>) = h_Search me q"
    by (simp add: h_Search_def search_request_def main_queryInt_def query_of_def Let_def)
  ultimately show ?thesis
    using api_role_is_ignored [OF assms] by (cases "main_route q") (simp_all add: main_api_def)
qed

section \<open>A server to try it on\<close>

definition demo_main :: "time \<Rightarrow> (unit, string, list_db) MainEnv" where
  "demo_main now = \<lparr>me_env = demo_env now, me_stats = list_table (\<lambda>_. []) (\<lambda>_ db. db) hs_ID (\<lambda>_ r. r) (\<lambda>r. r),
     me_groups = \<lparr>gt_groups = list_table (\<lambda>_. []) (\<lambda>_ db. db) jg_ID (\<lambda>_ r. r) (\<lambda>r. r), gt_ungroup = (\<lambda>_ db. (None, db))\<rparr>,
     me_es = \<lparr>el_client = False, el_enabled = False\<rparr>, me_server = (\<lambda>_. NoAnswer ''refused''), me_rfc3339 = (\<lambda>_. []),
     me_now = now, me_node = ''node-1'', me_group_body = Inl ''EOF''\<rparr>"

lemma demo_main_login:
  "main_route demo_login = ApiRoute" "main_api (demo_main 0) demo_login demo_admin =
     (case admin_api (demo_env 0) demo_login demo_admin of ((resp, x), s1) \<Rightarrow> ((resp, ApiData x), s1))"
  by (simp_all add: main_route_def main_api_def demo_login_def demo_call_def demo_main_def case_prod_beta)

lemma server_needs_credentials_witness:
  "\<exists>p. snd (fst (main_api (demo_main 0) demo_login demo_admin)) = ApiData (LoginData p)"
proof -
  have "snd (main_api (demo_main 0) demo_login demo_admin) \<noteq> demo_admin"
    using demo_login_reply(2) by (simp add: demo_main_login(2) case_prod_beta)
  then have "snd (main_api (demo_main 0) demo_login demo_admin) \<noteq> demo_admin \<or>
      discloses (snd (fst (main_api (demo_main 0) demo_login demo_admin)))" ..
  from server_needs_credentials [OF this] show ?thesis
    by (auto simp: demo_login_def demo_call_def demo_main_def demo_env_def JWTAuth_def)
qed

lemma role_is_ignored_witness:
  "main_api (demo_main 5) ((demo_call ''DELETE'' [''api'', ''groups'', ''1''] (demo_session RoleAdmin))\<lparr>hq_auth := demo_session RoleNormal\<rparr>)
     demo_admin = main_api (demo_main 5) (demo_call ''DELETE'' [''api'', ''groups'', ''1''] (demo_session RoleAdmin)) demo_admin"
  by (rule role_is_ignored [where ss = "\<lparr>ss_userID = 1, ss_username = ''ann'', ss_userRole = RoleAdmin\<rparr>" and r = RoleNormal])
    (simp_all add: demo_main_def demo_session_auth demo_call_def)

lemma probe_is_public:
  "main_api (demo_main now) (demo_call ''GET'' [''health''] []) s =
     ((\<lparr>r_status = 200, r_Code = 0, r_Message = ''ok''\<rparr>, HealthData ''node-1'' False), s)"
  by (simp add: main_api_def main_route_def demo_call_def demo_main_def es_Enabled_def)

section \<open>The second router\<close>

lemma route_v1:
  "(path = [] \<or> hd path \<noteq> ''job-templates'') \<Longrightarrow> route_api_v1 ev q ss path s = route_api ev q ss path s"
  by (cases path) (auto simp: route_api_v1_def route_api_def)

text \<open>Outside the templates and the closures of \<open>main\<close> the router of \<open>api/router.go\<close> is the server of \<open>main\<close>.\<close>

lemma routers_agree:
  assumes "main_route q = ApiRoute" "take 2 (hq_path q) \<noteq> [''api'', ''job-templates'']"
  shows "SetupAdminRouter (me_env me) q s = main_api me q s"
proof (cases "hq_path q")
  case Nil
  then show ?thesis using assms(1) by (simp add: SetupAdminRouter_def main_api_def admin_api_def)
next
  case (Cons p path)
  have health: "\<not> (hq_method q = ''GET'' \<and> hq_path q = [''health''])"
    using assms(1) by (auto simp: main_route_def Let_def)
  show ?thesis
  proof (cases "p = ''api''")
    case True
    then have "path = [] \<or> hd path \<noteq> ''job-templates''" using assms(2) Cons by (cases path) auto
    note v1 = route_v1 [OF this]
    show ?thesis
    proof (cases "login_route q path \<or> internal_route q path")
      case True
      then show ?thesis
        using assms(1) health Cons \<open>p = ''api''\<close> by (auto simp: SetupAdminRouter_def main_api_def admin_api_def case_prod_beta)
    next
      case False
      show ?thesis
      proof (cases "JWTAuth (ev_jwt (me_env me)) (ev_authNow (me_env me)) (ev_users (me_env me)) (hq_auth q)")
        case (Inl resp)
        then show ?thesis
          using assms(1) health Cons \<open>p = ''api''\<close> False by (simp add: SetupAdminRouter_def main_api_def admin_api_def v1)
      next
        case (Inr ss)
        then show ?thesis
          using assms(1) health Cons \<open>p = ''api''\<close> False
          by (cases "route_api (me_env me) q (Some ss) path s")
            (simp_all add: SetupAdminRouter_def main_api_def admin_api_def v1 case_prod_beta)
      qed
    qed
  next
    case False
    then show ?thesis using assms(1) health Cons by (simp add: SetupAdminRouter_def main_api_def admin_api_def)
  qed
qed

section \<open>The secret\<close>

text \<open>No default and no check: without \<open>jwt.secret\<close> in the configuration the key is empty, and whoever signs
  claims with the empty key has the session he wants.\<close>

lemma unset_secret_forges:
  assumes "issues_tokens jw" "cj_Secret (cf_JWT cfg) = []" "jw_Sign jw [] c = Inr tok" "now < cl_ExpiresAt (numeric_dates c)"
  shows "JWTAuth jw now (admin_users cfg) (''Bearer '' @ tok) =
    Inr \<lparr>ss_userID = cl_UserID c, ss_username = cl_Username c, ss_userRole = cl_Role c\<rparr>"
proof -
  have key: "us_jwtSecret (admin_users cfg) = []" using assms(2) by (simp add: admin_users_def NewUserService_def)
  have "us_ParseToken jw now (admin_users cfg) tok = Inr (numeric_dates c)"
    using issued_parse [OF assms(1), of "admin_users cfg" c tok now] assms(3,4) by (simp add: key)
  then show ?thesis unfolding JWTAuth_bearer by (simp add: numeric_dates_def)
qed

end
