(* ===== verification/Job_SDK.thy ===== *)
theory Job_SDK
  imports Runner
begin

text \<open>
  \<open>pkg/jobsdk\<close>: handlers registered with a descriptor and wrapped with a context of their own, a timeout that
  can only be tightened and the recovery of panics; with the job context that the runner puts into a
  \<open>context.Context\<close>. A context is its deadline and the job context in it. JSON decoding is an argument of
  \<open>Bind\<close>. A handler gets the context and returns it with the lines it logged; a panic is a result.
\<close>

section \<open>Contexts\<close>

record JobContext =
  jc_LogID :: int
  jc_JobID :: int
  jc_ShardingIndex :: int
  jc_ShardingTotal :: int

record goctx =
  cx_deadline :: "time option"
  cx_job :: "JobContext option"

definition WithJobContext :: "goctx \<Rightarrow> JobContext \<Rightarrow> goctx" where
  "WithJobContext ctx jc = ctx\<lparr>cx_job := Some jc\<rparr>"

definition no_job :: JobContext where
  "no_job = \<lparr>jc_LogID = 0, jc_JobID = 0, jc_ShardingIndex = 0, jc_ShardingTotal = 0\<rparr>"

definition GetJobContext :: "goctx \<Rightarrow> JobContext \<times> bool" where
  "GetJobContext ctx = (case cx_job ctx of None \<Rightarrow> (no_job, False) | Some jc \<Rightarrow> (jc, True))"

text \<open>\<open>context.WithTimeout\<close>: a deadline after the parent's is the parent's.\<close>

definition with_timeout :: "time \<Rightarrow> duration \<Rightarrow> goctx \<Rightarrow> goctx" where
  "with_timeout now d ctx =
     ctx\<lparr>cx_deadline := Some (case cx_deadline ctx of None \<Rightarrow> now + d | Some dl \<Rightarrow> if dl < now + d then dl else now + d)\<rparr>"

text \<open>The context of the runner for a request, up to its cancellation.\<close>

definition request_ctx :: "time \<Rightarrow> RunRequest \<Rightarrow> goctx" where
  "request_ctx now req =
     WithJobContext
       (let ctx = \<lparr>cx_deadline = None, cx_job = None\<rparr>
        in if rq_Timeout req > 0 then with_timeout now (i64 (rq_Timeout req * second)) ctx else ctx)
       \<lparr>jc_LogID = rq_LogID req, jc_JobID = rq_JobID req, jc_ShardingIndex = rq_ShardingIndex req,
        jc_ShardingTotal = rq_ShardingTotal req\<rparr>"

section \<open>Context of a handler\<close>

record jobContext =
  jx_ctx :: goctx
  jx_param :: string
  jx_jc :: JobContext
  jx_lines :: "string list"

definition newJobContext :: "goctx \<Rightarrow> string \<Rightarrow> JobContext \<Rightarrow> jobContext" where
  "newJobContext ctx param jc = \<lparr>jx_ctx = ctx, jx_param = param, jx_jc = jc, jx_lines = []\<rparr>"

text \<open>\<open>decode\<close> is \<open>json.Unmarshal\<close> into the target.\<close>

definition sdk_Bind :: "(string \<Rightarrow> string + 'v) \<Rightarrow> jobContext \<Rightarrow> string + 'v" where
  "sdk_Bind decode c =
     (let s = trim_space (jx_param c); s = (if s = [] then ''{}'' else s)
      in case decode s of
           Inl err \<Rightarrow> Inl (''jobsdk: Bind: '' @ err @ '' (param='' @ go_quote (jx_param c) @ '')'')
         | Inr v \<Rightarrow> Inr v)"

definition sdk_RawParam :: "jobContext \<Rightarrow> string" where "sdk_RawParam c = jx_param c"

text \<open>\<open>line\<close> is the formatted message.\<close>

definition sdk_Log :: "string \<Rightarrow> jobContext \<Rightarrow> jobContext" where "sdk_Log line c = c\<lparr>jx_lines := jx_lines c @ [line]\<rparr>"

definition sdk_LogLines :: "jobContext \<Rightarrow> string list" where "sdk_LogLines c = jx_lines c"
definition sdk_JobID :: "jobContext \<Rightarrow> int" where "sdk_JobID c = jc_JobID (jx_jc c)"
definition sdk_LogID :: "jobContext \<Rightarrow> int" where "sdk_LogID c = jc_LogID (jx_jc c)"
definition sdk_ShardingIndex :: "jobContext \<Rightarrow> int" where "sdk_ShardingIndex c = jc_ShardingIndex (jx_jc c)"

definition sdk_ShardingTotal :: "jobContext \<Rightarrow> int" where
  "sdk_ShardingTotal c = (if jc_ShardingTotal (jx_jc c) = 0 then 1 else jc_ShardingTotal (jx_jc c))"

section \<open>Descriptors and results\<close>

record Desc =
  dc_Name :: string
  dc_Timeout :: duration
  dc_Retry :: int
  dc_panicRecoverSet :: bool
  dc_panicRecover :: bool

definition WithPanicRecover :: "bool \<Rightarrow> Desc \<Rightarrow> Desc" where
  "WithPanicRecover v d = d\<lparr>dc_panicRecoverSet := True, dc_panicRecover := v\<rparr>"

definition shouldRecover :: "Desc \<Rightarrow> bool" where
  "shouldRecover d = (if dc_panicRecoverSet d then dc_panicRecover d else True)"

datatype sdk_error = HandlerError string | PanicError string

fun sdk_error_text :: "sdk_error \<Rightarrow> string" where
  "sdk_error_text (HandlerError e) = e"
| "sdk_error_text (PanicError v) = ''jobsdk: handler panic: '' @ v"

fun IsPanic :: "sdk_error option \<Rightarrow> bool" where
  "IsPanic (Some (PanicError v)) = True"
| "IsPanic err = False"

datatype fn_result = Returns "sdk_error option" | Panics string

type_synonym HandlerFunc = "jobContext \<Rightarrow> fn_result \<times> jobContext"

text \<open>A handler of the executor: the clock when it looks at the deadline and when it sets one, the context and
  the parameter.\<close>

type_synonym Handler = "time \<Rightarrow> time \<Rightarrow> goctx \<Rightarrow> string \<Rightarrow> fn_result"

section \<open>Wrapping\<close>

definition exec_ctx :: "Desc \<Rightarrow> time \<Rightarrow> time \<Rightarrow> goctx \<Rightarrow> goctx" where
  "exec_ctx d now setNow ctx =
     (if dc_Timeout d > 0 \<and> (case cx_deadline ctx of None \<Rightarrow> True | Some dl \<Rightarrow> time_sub dl now > dc_Timeout d)
      then with_timeout setNow (dc_Timeout d) ctx else ctx)"

definition wrapHandler :: "Desc \<Rightarrow> HandlerFunc \<Rightarrow> Handler" where
  "wrapHandler d fn now setNow ctx param =
     (let execCtx = exec_ctx d now setNow ctx; jc = fst (GetJobContext execCtx)
      in case fst (fn (newJobContext execCtx param jc)) of
           Returns err \<Rightarrow> Returns err
         | Panics v \<Rightarrow> if shouldRecover d then Returns (Some (PanicError v)) else Panics v)"

section \<open>Registration\<close>

record SDK =
  sk_reg :: "string \<rightharpoonup> Handler"
  sk_desc :: "string \<rightharpoonup> Desc"

definition sdk_New :: "(string \<rightharpoonup> Handler) \<Rightarrow> SDK" where
  "sdk_New reg = \<lparr>sk_reg = reg, sk_desc = Map.empty\<rparr>"

definition storeDesc :: "Desc \<Rightarrow> SDK \<Rightarrow> SDK" where
  "storeDesc d s = s\<lparr>sk_desc := (sk_desc s)(dc_Name d \<mapsto> d)\<rparr>"

text \<open>\<open>Register\<close> of the executor's registry; the text of a panic, and the state it leaves.\<close>

definition reg_handler :: "string \<Rightarrow> Handler \<Rightarrow> SDK \<Rightarrow> string option \<times> SDK" where
  "reg_handler name h s =
     (if sk_reg s name \<noteq> None then (Some (''executor: handler '' @ go_quote name @ '' already registered''), s)
      else (None, s\<lparr>sk_reg := (sk_reg s)(name \<mapsto> h)\<rparr>))"

definition sdk_Register :: "Desc \<Rightarrow> HandlerFunc \<Rightarrow> SDK \<Rightarrow> string option \<times> SDK" where
  "sdk_Register d fn s =
     (if dc_Name d = [] then (Some ''jobsdk: Register called with empty Desc.Name'', s)
      else reg_handler (dc_Name d) (wrapHandler d fn) (storeDesc d s))"

text \<open>A struct-style handler is its descriptor, its \<open>Execute\<close> and the name of its type.\<close>

definition sdk_RegisterHandler :: "Desc \<times> HandlerFunc \<times> string \<Rightarrow> SDK \<Rightarrow> string option \<times> SDK" where
  "sdk_RegisterHandler h s =
     (case h of (d, execute, typeName) \<Rightarrow>
        if dc_Name d = [] then (Some (''jobsdk: RegisterHandler: '' @ typeName @ '' returned empty Desc.Name''), s)
        else reg_handler (dc_Name d) (wrapHandler d execute) (storeDesc d s))"

definition DescOf :: "string \<Rightarrow> SDK \<Rightarrow> Desc option" where "DescOf name s = sk_desc s name"

definition sdk_Names :: "string list \<Rightarrow> SDK \<Rightarrow> string list" where "sdk_Names ord s = map fst (go_range (sk_desc s) ord)"

section \<open>The contract of a wrapped handler\<close>

definition ctx_until :: "goctx \<Rightarrow> time \<Rightarrow> bool" where
  "ctx_until ctx t \<longleftrightarrow> (case cx_deadline ctx of None \<Rightarrow> False | Some dl \<Rightarrow> dl \<le> t)"

lemma newJobContext_simps:
  "jx_ctx (newJobContext ctx param jc) = ctx" "jx_param (newJobContext ctx param jc) = param"
  "jx_jc (newJobContext ctx param jc) = jc" "jx_lines (newJobContext ctx param jc) = []"
  by (simp_all add: newJobContext_def)

text \<open>Property C32: a wrapped handler calls the function once, on a context with the parameter and the job context
  of the call, whose deadline is never after the one of the call and never after the time limit of the
  descriptor (below the largest \<open>Duration\<close>); the function's own result comes back, its panic comes back as a panic
  error, and only with \<open>WithPanicRecover(false)\<close> does the panic go on.\<close>

theorem wrapHandler_contract:
  assumes "now \<le> setNow"
  shows "\<exists>c. wrapHandler d fn now setNow ctx param =
      (case fst (fn c) of Returns err \<Rightarrow> Returns err
       | Panics v \<Rightarrow> if dc_panicRecoverSet d \<and> \<not> dc_panicRecover d then Panics v else Returns (Some (PanicError v))) \<and>
    sdk_RawParam c = param \<and> jx_jc c = fst (GetJobContext ctx) \<and> sdk_LogLines c = [] \<and>
    (case cx_deadline ctx of None \<Rightarrow> True | Some dl \<Rightarrow> ctx_until (jx_ctx c) dl) \<and>
    (0 < dc_Timeout d \<and> dc_Timeout d < i64_max \<longrightarrow> ctx_until (jx_ctx c) (setNow + dc_Timeout d)) \<and>
    (dc_Timeout d \<le> 0 \<longrightarrow> jx_ctx c = ctx)"
proof -
  let ?c = "newJobContext (exec_ctx d now setNow ctx) param (fst (GetJobContext (exec_ctx d now setNow ctx)))"
  have "cx_job (exec_ctx d now setNow ctx) = cx_job ctx" by (simp add: exec_ctx_def with_timeout_def)
  then have "fst (GetJobContext (exec_ctx d now setNow ctx)) = fst (GetJobContext ctx)" by (simp add: GetJobContext_def)
  moreover have "case cx_deadline ctx of None \<Rightarrow> True | Some dl \<Rightarrow> ctx_until (exec_ctx d now setNow ctx) dl"
    by (simp add: exec_ctx_def with_timeout_def ctx_until_def split: option.split)
  moreover have "ctx_until (exec_ctx d now setNow ctx) (setNow + dc_Timeout d)" if "0 < dc_Timeout d \<and> dc_Timeout d < i64_max"
    using assms that by (auto simp: exec_ctx_def with_timeout_def ctx_until_def time_sub_def i64_min_def i64_max_def split: option.split)
  moreover have "dc_Timeout d \<le> 0 \<Longrightarrow> exec_ctx d now setNow ctx = ctx" by (simp add: exec_ctx_def)
  ultimately show ?thesis
    by (intro exI [of _ ?c]) (simp add: wrapHandler_def shouldRecover_def newJobContext_simps sdk_RawParam_def sdk_LogLines_def Let_def
      split: option.splits fn_result.split)
qed

lemma wrapHandler_contract_witness:
  "wrapHandler \<lparr>dc_Name = ''mail'', dc_Timeout = 5, dc_Retry = 0, dc_panicRecoverSet = False, dc_panicRecover = False\<rparr>
     (\<lambda>c. (Panics ''boom'', c)) 10 11 \<lparr>cx_deadline = Some 100, cx_job = None\<rparr> ''p'' = Returns (Some (PanicError ''boom''))"
  using wrapHandler_contract [of 10 11 "\<lparr>dc_Name = ''mail'', dc_Timeout = 5, dc_Retry = 0, dc_panicRecoverSet = False, dc_panicRecover = False\<rparr>"
      "\<lambda>c. (Panics ''boom'', c)" "\<lparr>cx_deadline = Some 100, cx_job = None\<rparr>" "''p''"]
  by simp

section \<open>Registrations\<close>

text \<open>The registrations of a program, which a panic ends.\<close>

fun register_all :: "(Desc \<times> HandlerFunc) list \<Rightarrow> SDK \<Rightarrow> SDK option" where
  "register_all [] s = Some s"
| "register_all ((d, fn) # rs) s =
     (case sdk_Register d fn s of (None, s1) \<Rightarrow> register_all rs s1 | (Some msg, s1) \<Rightarrow> None)"

lemma named_upd:
  assumes "dc_Name d \<notin> (dc_Name \<circ> fst) ` set rs"
  shows "m(dc_Name d \<mapsto> v) ++ map_of (map (\<lambda>(d, fn). (dc_Name d, g d fn)) rs) =
    m ++ map_of ((dc_Name d, v) # map (\<lambda>(d, fn). (dc_Name d, g d fn)) rs)"
proof -
  have "dc_Name d \<notin> fst ` set (map (\<lambda>(d, fn). (dc_Name d, g d fn)) rs)" using assms by force
  then have "map_of (map (\<lambda>(d, fn). (dc_Name d, g d fn)) rs) (dc_Name d) = None" unfolding map_of_eq_None_iff .
  then show ?thesis by (intro ext) (simp add: map_add_def split: option.split)
qed

lemma register_all_spec:
  "register_all rs s = (if (\<forall>r \<in> set rs. dc_Name (fst r) \<noteq> [] \<and> sk_reg s (dc_Name (fst r)) = None) \<and> distinct (map (dc_Name \<circ> fst) rs)
     then Some (s\<lparr>sk_reg := sk_reg s ++ map_of (map (\<lambda>(d, fn). (dc_Name d, wrapHandler d fn)) rs),
                  sk_desc := sk_desc s ++ map_of (map (\<lambda>(d, fn). (dc_Name d, d)) rs)\<rparr>) else None)"
proof (induction rs arbitrary: s)
  case (Cons r rs)
  obtain d fn where r: "r = (d, fn)" by (cases r)
  show ?case
  proof (cases "dc_Name d \<noteq> [] \<and> sk_reg s (dc_Name d) = None")
    case True
    let ?s = "s\<lparr>sk_desc := (sk_desc s)(dc_Name d \<mapsto> d), sk_reg := (sk_reg s)(dc_Name d \<mapsto> wrapHandler d fn)\<rparr>"
    have reg: "register_all (r # rs) s = register_all rs ?s"
      using True by (simp add: r sdk_Register_def reg_handler_def storeDesc_def)
    show ?thesis
    proof (cases "dc_Name d \<in> (dc_Name \<circ> fst) ` set rs")
      case dup: True
      then have "\<not> (\<forall>r \<in> set rs. dc_Name (fst r) \<noteq> [] \<and> sk_reg ?s (dc_Name (fst r)) = None)" by force
      moreover have "\<not> distinct (map (dc_Name \<circ> fst) (r # rs))" using dup by (simp add: r)
      ultimately show ?thesis unfolding reg Cons.IH by (simp only: simp_thms if_False)
    next
      case new: False
      then have eq: "(\<forall>r \<in> set rs. dc_Name (fst r) \<noteq> [] \<and> sk_reg ?s (dc_Name (fst r)) = None) \<longleftrightarrow>
          (\<forall>r \<in> set rs. dc_Name (fst r) \<noteq> [] \<and> sk_reg s (dc_Name (fst r)) = None)" by force
      have maps: "sk_reg ?s ++ map_of (map (\<lambda>(d, fn). (dc_Name d, wrapHandler d fn)) rs) =
          sk_reg s ++ map_of (map (\<lambda>(d, fn). (dc_Name d, wrapHandler d fn)) (r # rs))"
        "sk_desc ?s ++ map_of (map (\<lambda>(d, fn). (dc_Name d, d)) rs) = sk_desc s ++ map_of (map (\<lambda>(d, fn). (dc_Name d, d)) (r # rs))"
        using named_upd [OF new, of "sk_reg s" "wrapHandler d fn" wrapHandler] named_upd [OF new, of "sk_desc s" d "\<lambda>d fn. d"] by (simp_all add: r)
      have ok: "(\<forall>r \<in> set (r # rs). dc_Name (fst r) \<noteq> [] \<and> sk_reg s (dc_Name (fst r)) = None) \<and> distinct (map (dc_Name \<circ> fst) (r # rs)) \<longleftrightarrow>
          (\<forall>r \<in> set rs. dc_Name (fst r) \<noteq> [] \<and> sk_reg s (dc_Name (fst r)) = None) \<and> distinct (map (dc_Name \<circ> fst) rs)"
        using new True by (simp add: r)
      have "?s\<lparr>sk_reg := m, sk_desc := n\<rparr> = s\<lparr>sk_reg := m, sk_desc := n\<rparr>" for m n by simp
      then show ?thesis unfolding reg Cons.IH eq maps ok by (simp only:)
    qed
  next
    case False
    then show ?thesis by (auto simp: r sdk_Register_def reg_handler_def storeDesc_def)
  qed
qed simp

text \<open>A program's registrations on a fresh registry go through exactly when the names are non-empty
  and differ; then every name has the descriptor and the wrapped function it was registered with, and no
  other name has either. A second registration under a name panics, but has replaced the descriptor of the
  first by then: the handler stays, and \<open>DescOf\<close> describes another one.\<close>

lemma registrations:
  "(register_all rs (sdk_New Map.empty) = None \<longleftrightarrow> \<not> ([] \<notin> set (map (dc_Name \<circ> fst) rs) \<and> distinct (map (dc_Name \<circ> fst) rs))) \<and>
   (case register_all rs (sdk_New Map.empty) of None \<Rightarrow> True
    | Some s \<Rightarrow> DescOf n s = map_of (map (\<lambda>(d, fn). (dc_Name d, d)) rs) n \<and>
        sk_reg s n = map_of (map (\<lambda>(d, fn). (dc_Name d, wrapHandler d fn)) rs) n) \<and>
   (case sdk_Register d fn (sdk_New Map.empty) of (Some msg, s) \<Rightarrow> dc_Name d = []
    | (None, s) \<Rightarrow> (case sdk_Register (d\<lparr>dc_Timeout := t\<rparr>) fn' s of (None, s1) \<Rightarrow> False
        | (Some msg, s1) \<Rightarrow> sk_reg s1 = [dc_Name d \<mapsto> wrapHandler d fn] \<and> DescOf (dc_Name d) s1 = Some (d\<lparr>dc_Timeout := t\<rparr>)))"
proof (intro conjI)
  show "register_all rs (sdk_New Map.empty) = None \<longleftrightarrow> \<not> ([] \<notin> set (map (dc_Name \<circ> fst) rs) \<and> distinct (map (dc_Name \<circ> fst) rs))"
    by (simp add: register_all_spec sdk_New_def image_iff) metis
  show "case register_all rs (sdk_New Map.empty) of None \<Rightarrow> True
    | Some s \<Rightarrow> DescOf n s = map_of (map (\<lambda>(d, fn). (dc_Name d, d)) rs) n \<and>
        sk_reg s n = map_of (map (\<lambda>(d, fn). (dc_Name d, wrapHandler d fn)) rs) n"
    by (simp add: register_all_spec sdk_New_def DescOf_def)
qed (simp add: sdk_Register_def reg_handler_def storeDesc_def sdk_New_def DescOf_def)

end
