(* ===== verification/Executor_Main.thy ===== *)
theory Executor_Main
  imports API_Props Job_SDK Client_Options
begin

text \<open>
  \<open>cmd/executor/main.go\<close>: what the executor makes of its configuration, its two handlers, its start with the
  registration at the admin, the health probe, and the order of its shutdown.
\<close>

section \<open>Handlers\<close>

text \<open>\<open>demoJob\<close> waits two seconds or for the end of its context: \<open>done\<close> is when that ends and why. When both
  have happened the \<open>select\<close> picks one, \<open>pick\<close>.\<close>

definition demoJob :: "time \<Rightarrow> (time \<times> string) option \<Rightarrow> bool \<Rightarrow> string option" where
  "demoJob started ends pick =
     (case ends of
        None \<Rightarrow> None
      | Some (t, err) \<Rightarrow>
          if t < started + 2 * second then Some err
          else if t = started + 2 * second \<and> pick then Some err else None)"

definition shardingDemoJob :: Handler where
  "shardingDemoJob now setNow ctx param =
     (let (jc, ok) = GetJobContext ctx
      in if \<not> ok then Returns (Some (HandlerError ''no job context'')) else Returns None)"

definition registerHandlers :: "Registry \<Rightarrow> Registry option" where
  "registerHandlers r =
     (case hr_Register ''demoJob'' r of None \<Rightarrow> None | Some r1 \<Rightarrow> hr_Register ''shardingDemoJob'' r1)"

section \<open>Start\<close>

definition executor_port :: "Config \<Rightarrow> int" where
  "executor_port cfg = (if cx_Port (cf_Executor cfg) = 0 then 9901 else cx_Port (cf_Executor cfg))"

definition executor_address :: "string \<Rightarrow> Config \<Rightarrow> string" where
  "executor_address localIP cfg =
     (if cx_Address (cf_Executor cfg) = [] then localIP @ '':'' @ itoa (executor_port cfg) else cx_Address (cf_Executor cfg))"

definition executor_registrar :: "string \<Rightarrow> Config \<Rightarrow> AutoRegistrar" where
  "executor_registrar localIP cfg =
     NewAutoRegistrar (cx_AdminURL (cf_Executor cfg))
       \<lparr>rr_AppName = cx_AppName (cf_Executor cfg), rr_Title = cx_AppName (cf_Executor cfg),
        rr_Address = executor_address localIP cfg, rr_Version = ap_Version (cf_App cfg)\<rparr> []"

text \<open>The engines that failed to register are only logged.\<close>

definition executor_engines :: "os \<Rightarrow> Config \<Rightarrow> EngineRegistry \<Rightarrow> EngineRegistry" where
  "executor_engines os cfg builtin = (let es = cx_ScriptEngines (cf_Executor cfg) in
     if length es > 0 then snd (LoadFromConfig os (confToEngineConfigs es) builtin) else builtin)"

definition executor_runner :: "os \<Rightarrow> Config \<Rightarrow> EngineRegistry \<Rightarrow> Registry \<Rightarrow> Runner" where
  "executor_runner os cfg builtin reg =
     NewRunner (dom builtin) reg
       [WithScriptEngineRegistry (Some (dom (executor_engines os cfg builtin))), WithGracefulTimeout (30 * second)]"

text \<open>A running executor; \<open>None\<close> is the end of the process: a second registration of a handler panics, and
  \<open>Fatal\<close> exits when the registration at the admin fails.\<close>

record ExecutorProcess =
  xp_runner :: Runner
  xp_registrar :: AutoRegistrar
  xp_engines :: EngineRegistry
  xp_listening :: bool

definition executor_launch :: "'s world \<Rightarrow> os \<Rightarrow> EngineRegistry \<Rightarrow> string \<Rightarrow> Config \<Rightarrow> 's \<Rightarrow> ExecutorProcess option \<times> 's" where
  "executor_launch world os builtin localIP cfg s =
     (case registerHandlers hr_New of
        None \<Rightarrow> (None, s)
      | Some reg \<Rightarrow>
          (case ar_Start world (executor_registrar localIP cfg) s of
             ((Some err, ar), s1) \<Rightarrow> (None, s1)
           | ((None, ar), s1) \<Rightarrow>
               (Some \<lparr>xp_runner = executor_runner os cfg builtin reg, xp_registrar = ar,
                  xp_engines = executor_engines os cfg builtin, xp_listening = True\<rparr>, s1)))"

record ExecutorHealth =
  eh_address :: string
  eh_types :: "string list"
  eh_draining :: bool

definition executor_health :: "string list \<Rightarrow> ExecutorProcess \<Rightarrow> ExecutorHealth" where
  "executor_health ord p = \<lparr>eh_address = rr_Address (ar_req (xp_registrar p)), eh_types = se_Types ord (xp_engines p),
     eh_draining = IsStopped (xp_runner p)\<rparr>"

text \<open>The shutdown: deregister, close the server (an error is only logged), then claim the runner's stop.\<close>

definition executor_shutdown :: "'s world \<Rightarrow> ExecutorProcess \<Rightarrow> 's \<Rightarrow> ExecutorProcess \<times> 's" where
  "executor_shutdown world p s =
     (let (ar, s1) = ar_Stop world (xp_registrar p) s;
          p = p\<lparr>xp_registrar := ar\<rparr>;
          p = p\<lparr>xp_listening := False\<rparr>
      in (p\<lparr>xp_runner := stop_claim (xp_runner p)\<rparr>, s1))"

section \<open>What the executor does\<close>

lemma handlers_registered: "registerHandlers hr_New = Some {''demoJob'', ''shardingDemoJob''}"
  by (simp add: registerHandlers_def hr_Register_def hr_New_def insert_commute)

lemma registrar_url: "ar_adminURL (executor_registrar localIP cfg) = cx_AdminURL (cf_Executor cfg)"
  by (simp add: executor_registrar_def NewAutoRegistrar_def)

text \<open>Property C3: an executor never gets past its start. Whatever its configuration and the token configured at
  the admin, when its admin URL leads to an admin of this code the registration is refused, the process ends, and
  the admin has not changed; and whenever an executor does run, the admin it talked to had answered 200.\<close>

theorem executor_never_starts:
  "executor_launch (admin_world registrar_token internalToken unbound tb now storeNow (cx_AdminURL (cf_Executor cfg)))
     os builtin localIP cfg svc = (None, svc) \<and>
   (\<forall>p s1. executor_launch world os builtin localIP cfg s = (Some p, s1) \<longrightarrow>
     (\<exists>msg. fst (world (cx_AdminURL (cf_Executor cfg) @ ''/api/executor/register'') (ar_req (executor_registrar localIP cfg)) s) =
        Response 200 msg))"
proof (intro conjI allI impI)
  have adm: "''/api/executor/register'' \<in> set admin_routes" by (simp add: admin_routes_def)
  from ar_post_refused [OF adm, of internalToken unbound tb now storeNow "executor_registrar localIP cfg"]
  show "executor_launch (admin_world registrar_token internalToken unbound tb now storeNow (cx_AdminURL (cf_Executor cfg)))
     os builtin localIP cfg svc = (None, svc)"
    by (simp add: executor_launch_def handlers_registered ar_Start_def ar_register_def registrar_url)
next
  fix p s1
  assume l: "executor_launch world os builtin localIP cfg s = (Some p, s1)"
  let ?ar = "executor_registrar localIP cfg"
  let ?url = "cx_AdminURL (cf_Executor cfg) @ ''/api/executor/register''"
  have "fst (ar_post world ''/api/executor/register'' ?ar s) = None"
    using l by (auto simp: executor_launch_def handlers_registered ar_Start_def ar_register_def prod_eq_iff
        split: option.splits prod.splits)
  then show "\<exists>msg. fst (world ?url (ar_req ?ar) s) = Response 200 msg"
    by (cases "world ?url (ar_req ?ar) s") (auto simp: ar_post_def registrar_url Let_def split: http_answer.splits if_splits)
qed

text \<open>With an admin that accepts the registration the executor runs.\<close>

definition accepting :: "nat world" where "accepting url req s = (Response 200 [], Suc s)"

lemma launch_accepted:
  "\<exists>p. executor_launch accepting os builtin localIP cfg 0 = (Some p, 1) \<and> xp_listening p"
  by (simp add: executor_launch_def handlers_registered ar_Start_def ar_register_def ar_post_def accepting_def)

lemma executor_never_starts_witness:
  "\<forall>os builtin localIP cfg. \<exists>p msg. executor_launch accepting os builtin localIP cfg 0 = (Some p, 1) \<and>
     fst (accepting (cx_AdminURL (cf_Executor cfg) @ ''/api/executor/register'') (ar_req (executor_registrar localIP cfg)) 0) =
       Response 200 msg"
proof (intro allI)
  fix os builtin localIP cfg
  obtain p where p: "executor_launch accepting os builtin localIP cfg 0 = (Some p, 1)" using launch_accepted by blast
  have "\<exists>msg. fst (accepting (cx_AdminURL (cf_Executor cfg) @ ''/api/executor/register'')
      (ar_req (executor_registrar localIP cfg)) 0) = Response 200 msg"
    by (rule executor_never_starts [where world = accepting and s = 0, THEN conjunct2, rule_format, OF p])
  then show "\<exists>p msg. executor_launch accepting os builtin localIP cfg 0 = (Some p, 1) \<and>
     fst (accepting (cx_AdminURL (cf_Executor cfg) @ ''/api/executor/register'') (ar_req (executor_registrar localIP cfg)) 0) =
       Response 200 msg" using p by blast
qed

text \<open>After the shutdown the runner refuses every request.\<close>

lemma shutdown_refuses:
  "fst (runner_Run t req (xp_runner (fst (executor_shutdown world p s)))) = Some ErrRunnerStopped"
  by (simp add: executor_shutdown_def case_prod_beta Let_def runner_Run_def run_check_def stop_claim_def)

end
