(* ===== verification/Background_Loops.thy ===== *)
theory Background_Loops
  imports Executor_Store Idempotency
begin

text \<open>
  The goroutines that run in the background of the stores: the probe loop and the sweep loop of
  \<open>pkg/executorstore\<close> with \<open>Start\<close>, \<open>Stop\<close>, the semaphore of \<open>probeAll\<close> and the wait group, and the collector of
  \<open>pkg/idempotency\<close>. A step is one communication or one critical section; a \<open>select\<close> that has more than one
  ready case takes any of them.
\<close>

section \<open>The loops of the executor store\<close>

text \<open>The probe loop: waiting, starting one goroutine per entry, waiting for them. A ticker with an interval that
  is not positive and a channel of negative capacity are panics.\<close>

datatype probe_pc = PrOff | PrSelect | PrSpawn "nat list" | PrWait | PrEnded | PrCrashed

datatype sweep_pc = SwOff | SwSelect | SwEnded

text \<open>\<open>es_probing\<close> of the store holds the entries whose goroutine runs, which is what fills the semaphore.\<close>

record StoreProc =
  sp_store :: EStore
  sp_stopCh :: bool
  sp_cancelled :: bool
  sp_wg :: nat
  sp_probe :: probe_pc
  sp_sweep :: sweep_pc

definition store_proc :: "EStore \<Rightarrow> StoreProc" where
  "store_proc s = \<lparr>sp_store = s, sp_stopCh = False, sp_cancelled = False, sp_wg = 0, sp_probe = PrOff, sp_sweep = SwOff\<rparr>"

definition es_Start :: "StoreProc \<Rightarrow> StoreProc" where
  "es_Start p = p\<lparr>sp_wg := sp_wg p + 2,
     sp_probe := (if eo_ProbeInterval (es_opts (sp_store p)) \<le> 0 then PrCrashed else PrSelect), sp_sweep := SwSelect\<rparr>"

text \<open>\<open>Stop\<close> closes the channel, which panics (\<open>None\<close>) the second time, and returns when the wait group is empty.\<close>

definition es_Stop :: "StoreProc \<Rightarrow> StoreProc option" where
  "es_Stop p = (if sp_stopCh p then None else Some (p\<lparr>sp_stopCh := True\<rparr>))"

definition stop_returns :: "StoreProc \<Rightarrow> bool" where
  "stop_returns p \<longleftrightarrow> sp_stopCh p \<and> sp_wg p = 0"

definition sp_ending :: "StoreProc \<Rightarrow> bool" where
  "sp_ending p \<longleftrightarrow> sp_stopCh p \<or> sp_cancelled p"

definition sp_conc :: "StoreProc \<Rightarrow> int" where
  "sp_conc p = eo_ProbeConcurrency (es_opts (sp_store p))"

inductive es_client :: "EStore \<Rightarrow> EStore \<Rightarrow> bool" where
  "es_client s (es_Register now e s)"
| "es_client s (es_Heartbeat now appName address cpu memory s)"
| "es_client s (es_Deregister appName address s)"
| "es_client s (es_Bootstrap now es s)"

datatype loop_act = ByClient | ByTick | ByLoop

inductive loops_step :: "loop_act \<Rightarrow> StoreProc \<Rightarrow> StoreProc \<Rightarrow> bool" where
  lp_client: "es_client (sp_store p) s \<Longrightarrow> loops_step ByClient p (p\<lparr>sp_store := s\<rparr>)"
| lp_start: "sp_probe p = PrOff \<Longrightarrow> loops_step ByClient p (es_Start p)"
| lp_stop: "es_Stop p = Some p' \<Longrightarrow> loops_step ByClient p p'"
| lp_cancel: "loops_step ByClient p (p\<lparr>sp_cancelled := True\<rparr>)"
| lp_tick: "sp_probe p = PrSelect \<Longrightarrow> orders_ok gord ord (sp_store p) \<Longrightarrow> ts = all_entries gord ord (sp_store p) \<Longrightarrow>
    loops_step ByTick p (p\<lparr>sp_probe := if ts = [] then PrSelect else if sp_conc p < 0 then PrCrashed else PrSpawn ts\<rparr>)"
| lp_spawn: "sp_probe p = PrSpawn (e # ts) \<Longrightarrow> int (length (es_probing (sp_store p))) < sp_conc p \<Longrightarrow>
    loops_step ByLoop p (p\<lparr>sp_probe := PrSpawn ts, sp_store := (sp_store p)\<lparr>es_probing := es_probing (sp_store p) @ [e]\<rparr>\<rparr>)"
| lp_spawned: "sp_probe p = PrSpawn [] \<Longrightarrow> loops_step ByLoop p (p\<lparr>sp_probe := PrWait\<rparr>)"
| lp_probe: "e \<in> set (es_probing (sp_store p)) \<Longrightarrow> loops_step ByLoop p (p\<lparr>sp_store := probeOne e err (sp_store p)\<rparr>)"
| lp_wait: "sp_probe p = PrWait \<Longrightarrow> es_probing (sp_store p) = [] \<Longrightarrow> loops_step ByLoop p (p\<lparr>sp_probe := PrSelect\<rparr>)"
| lp_end: "sp_probe p = PrSelect \<Longrightarrow> sp_ending p \<Longrightarrow>
    loops_step ByLoop p (p\<lparr>sp_probe := PrEnded, sp_wg := sp_wg p - 1\<rparr>)"
| lp_sweep: "sp_sweep p = SwSelect \<Longrightarrow> orders_ok gord ord (sp_store p) \<Longrightarrow>
    loops_step ByTick p (p\<lparr>sp_store := sweepTTL now gord ord (sp_store p)\<rparr>)"
| lp_sweep_end: "sp_sweep p = SwSelect \<Longrightarrow> sp_ending p \<Longrightarrow>
    loops_step ByLoop p (p\<lparr>sp_sweep := SwEnded, sp_wg := sp_wg p - 1\<rparr>)"

inductive loops_reachable :: "StoreProc \<Rightarrow> bool" where
  lr_init: "loops_reachable (store_proc (es_New unused opts))"
| lr_more: "loops_reachable p \<Longrightarrow> loops_step a p p' \<Longrightarrow> loops_reachable p'"

section \<open>What holds in every state\<close>

definition live_goroutines :: "StoreProc \<Rightarrow> nat" where
  "live_goroutines p = (if sp_probe p \<in> {PrOff, PrEnded} then 0 else 1) + (if sp_sweep p = SwSelect then 1 else 0)"

definition spawn_list :: "StoreProc \<Rightarrow> nat list" where
  "spawn_list p = (case sp_probe p of PrSpawn ts \<Rightarrow> ts | _ \<Rightarrow> [])"

text \<open>Probes run only between the start of a round and its end, never more than the semaphore admits.\<close>

definition loops_inv :: "StoreProc \<Rightarrow> bool" where
  "loops_inv p \<longleftrightarrow> es_inv (sp_store p) \<and> sp_wg p = live_goroutines p \<and>
     (\<forall>e \<in> set (spawn_list p). e < es_fresh (sp_store p)) \<and>
     (es_probing (sp_store p) \<noteq> [] \<longrightarrow> int (length (es_probing (sp_store p))) \<le> sp_conc p \<and>
        (sp_probe p = PrWait \<or> (\<exists>ts. sp_probe p = PrSpawn ts))) \<and>
     (sp_probe p = PrOff \<longleftrightarrow> sp_sweep p = SwOff)"

lemma Heartbeat_frame:
  "es_probing (es_Heartbeat now app addr c m s) = es_probing s" "es_opts (es_Heartbeat now app addr c m s) = es_opts s"
  "es_fresh (es_Heartbeat now app addr c m s) = es_fresh s"
  by (simp_all add: es_Heartbeat_def upd_entry_def Let_def split: option.split)

lemma Register_frame:
  "es_probing (es_Register now e s) = es_probing s" "es_opts (es_Register now e s) = es_opts s"
  "es_fresh (es_Register now e s) = Suc (es_fresh s)"
  by (simp_all add: es_Register_def getOrCreateGroup_def Let_def split: option.split)

lemma Deregister_frame:
  "es_probing (es_Deregister app addr s) = es_probing s" "es_opts (es_Deregister app addr s) = es_opts s"
  "es_fresh (es_Deregister app addr s) = es_fresh s"
  by (simp_all add: es_Deregister_def Let_def split: option.split prod.split)

lemma Bootstrap_frame:
  "es_probing (es_Bootstrap now es s) = es_probing s \<and> es_opts (es_Bootstrap now es s) = es_opts s \<and>
   es_fresh s \<le> es_fresh (es_Bootstrap now es s)"
proof (induction es arbitrary: s)
  case (Cons e es)
  show ?case using Cons [of "es_Register now e s"] Cons [of s] by (auto simp: Register_frame)
qed simp

lemma client_frame:
  assumes "es_client s s'"
  shows "es_probing s' = es_probing s" "es_opts s' = es_opts s" "es_fresh s \<le> es_fresh s'" "es_inv s \<Longrightarrow> es_inv s'"
  using assms
  by (cases rule: es_client.cases; simp add: Register_frame Heartbeat_frame Deregister_frame Bootstrap_frame
      es_inv_Register es_inv_Heartbeat es_inv_Deregister es_inv_Bootstrap)+

lemma sweep_frame: "es_probing (sweepTTL now gord ord s) = es_probing s" "es_opts (sweepTTL now gord ord s) = es_opts s"
  "es_fresh (sweepTTL now gord ord s) = es_fresh s"
proof -
  have "es_probing (fold (sweep_entry now ttl) ps s) = es_probing s \<and> es_opts (fold (sweep_entry now ttl) ps s) = es_opts s \<and>
      es_fresh (fold (sweep_entry now ttl) ps s) = es_fresh s" for ttl ps
    by (induction ps arbitrary: s) (auto simp: sweep_entry_def upd_entry_def)
  then show "es_probing (sweepTTL now gord ord s) = es_probing s" "es_opts (sweepTTL now gord ord s) = es_opts s"
    "es_fresh (sweepTTL now gord ord s) = es_fresh s" by (simp_all add: sweepTTL_def)
qed

lemma probe_frame: "es_opts (probeOne e err s) = es_opts s" "es_fresh (probeOne e err s) = es_fresh s"
  "es_probing (probeOne e err s) = remove1 e (es_probing s)"
  by (simp_all add: probeOne_def upd_entry_def Let_def)

lemma targets_fresh: "es_inv s \<Longrightarrow> orders_ok gord ord s \<Longrightarrow> e \<in> set (all_entries gord ord s) \<Longrightarrow> e < es_fresh s"
  unfolding es_inv_def by (auto simp: all_entries_lookup)

lemma loops_inv_same:
  "sp_store p' = sp_store p \<Longrightarrow> sp_wg p' = sp_wg p \<Longrightarrow> sp_probe p' = sp_probe p \<Longrightarrow> sp_sweep p' = sp_sweep p \<Longrightarrow>
    loops_inv p' = loops_inv p"
  unfolding loops_inv_def live_goroutines_def spawn_list_def sp_conc_def by metis

lemma loops_inv_fresh: "loops_inv p \<Longrightarrow> e \<in> set (spawn_list p) \<Longrightarrow> e < es_fresh (sp_store p)"
  by (simp add: loops_inv_def)

lemma loops_step_inv:
  assumes "loops_step a p p'" "loops_inv p"
  shows "loops_inv p'"
  using assms(1)
proof (cases rule: loops_step.cases)
  case (lp_client s)
  note f = client_frame [OF lp_client(3)]
  have p': "sp_store p' = s" "sp_wg p' = sp_wg p" "sp_probe p' = sp_probe p" "sp_sweep p' = sp_sweep p"
    using lp_client(2) by simp_all
  have eqs: "spawn_list p' = spawn_list p" "live_goroutines p' = live_goroutines p" "sp_conc p' = sp_conc p"
    unfolding spawn_list_def live_goroutines_def sp_conc_def p' f(2) by (rule refl)+
  have "\<forall>e \<in> set (spawn_list p). e < es_fresh s" using assms(2) f(3) by (auto simp: loops_inv_def)
  moreover have "es_inv s" using assms(2) f(4) by (simp add: loops_inv_def)
  ultimately show ?thesis
    using assms(2) unfolding loops_inv_def p' eqs f(1) by blast
next
  case lp_start
  then show ?thesis using assms(2)
    by (auto simp: loops_inv_def live_goroutines_def spawn_list_def sp_conc_def es_Start_def)
next
  case lp_stop
  then show ?thesis using assms(2) loops_inv_same [of p' p] by (auto simp: es_Stop_def split: if_splits)
next
  case lp_cancel
  then show ?thesis using assms(2) loops_inv_same [of p' p] by simp
next
  case (lp_tick gord ord ts)
  then show ?thesis using assms(2) targets_fresh [of "sp_store p" gord ord]
    by (auto simp: loops_inv_def live_goroutines_def spawn_list_def sp_conc_def split: if_splits)
next
  case (lp_spawn e ts)
  then have "es_inv ((sp_store p)\<lparr>es_probing := es_probing (sp_store p) @ [e]\<rparr>)"
    using assms(2) by (intro es_inv_probing) (auto simp: loops_inv_def spawn_list_def es_inv_def)
  then show ?thesis using lp_spawn assms(2)
    by (auto simp: loops_inv_def live_goroutines_def spawn_list_def sp_conc_def)
next
  case (lp_probe e err)
  then have "es_probing (sp_store p) \<noteq> []" by auto
  then show ?thesis using lp_probe assms(2)
    by (auto simp: loops_inv_def live_goroutines_def spawn_list_def sp_conc_def probe_frame es_inv_probe length_remove1
        split: if_splits)
next
  case (lp_sweep gord ord now)
  then show ?thesis using assms(2)
    by (auto simp: loops_inv_def live_goroutines_def spawn_list_def sp_conc_def sweep_frame es_inv_sweep)
qed (use assms(2) in \<open>auto simp: loops_inv_def live_goroutines_def spawn_list_def sp_conc_def sp_ending_def\<close>)

lemma loops_reachable_inv: "loops_reachable p \<Longrightarrow> loops_inv p"
proof (induction rule: loops_reachable.induct)
  case (lr_init unused opts)
  show ?case
    using es_inv_New [of unused opts]
    by (auto simp: loops_inv_def store_proc_def live_goroutines_def spawn_list_def es_New_def)
next
  case (lr_more p a p')
  then show ?case using loops_step_inv by blast
qed

section \<open>Does Stop return?\<close>

text \<open>Every step of the loops that is not a tick brings the end nearer.\<close>

definition loop_work :: "StoreProc \<Rightarrow> nat" where
  "loop_work p = (case sp_probe p of PrSpawn ts \<Rightarrow> 2 * length ts + 3 | PrWait \<Rightarrow> 2 | PrSelect \<Rightarrow> 1 | _ \<Rightarrow> 0) +
     length (es_probing (sp_store p)) + (if sp_sweep p = SwSelect then 1 else 0)"

lemma loop_work_less:
  assumes "loops_step ByLoop p p'"
  shows "loop_work p' < loop_work p"
  using assms
proof (cases rule: loops_step.cases)
  case (lp_probe e err)
  then have "0 < length (es_probing (sp_store p))" by (cases "es_probing (sp_store p)") auto
  then show ?thesis using lp_probe by (simp add: loop_work_def probe_frame length_remove1)
qed (simp_all add: loop_work_def)

lemma loop_conc: "loops_step a p p' \<Longrightarrow> sp_conc p' = sp_conc p"
  by (cases rule: loops_step.cases) (auto simp: sp_conc_def client_frame es_Start_def es_Stop_def probe_frame sweep_frame
      split: if_splits)

lemma loop_stopped: "loops_step a p p' \<Longrightarrow> sp_stopCh p \<Longrightarrow> sp_stopCh p'"
  by (cases rule: loops_step.cases) (auto simp: es_Start_def es_Stop_def split: if_splits)

text \<open>A semaphore that admits nobody: the first send of a round waits for ever.\<close>

definition spawn_stuck :: "StoreProc \<Rightarrow> bool" where
  "spawn_stuck p \<longleftrightarrow> sp_conc p \<le> 0 \<and> (\<exists>e ts. sp_probe p = PrSpawn (e # ts))"

lemma stuck_step:
  assumes "loops_step a p p'" "spawn_stuck p"
  shows "spawn_stuck p'"
  using assms(1)
  by (cases rule: loops_step.cases)
    (use assms(2) loop_conc [OF assms(1)] in \<open>auto simp: spawn_stuck_def es_Stop_def split: if_splits\<close>)

lemma stuck_wg: "loops_inv p \<Longrightarrow> spawn_stuck p \<Longrightarrow> 0 < sp_wg p"
  by (auto simp: loops_inv_def spawn_stuck_def live_goroutines_def)

text \<open>As long as the wait group is not empty some goroutine can go on.\<close>

lemma loops_progress:
  assumes "loops_inv p" "sp_stopCh p" "0 < sp_wg p" "sp_probe p \<noteq> PrCrashed" "\<not> spawn_stuck p"
  shows "\<exists>p'. loops_step ByLoop p p'"
proof -
  let ?ps = "es_probing (sp_store p)"
  have ending: "sp_ending p" using assms(2) by (simp add: sp_ending_def)
  have probe: "\<exists>p'. loops_step ByLoop p p'" if "?ps \<noteq> []"
    using lp_probe [of "hd ?ps" p] that by (meson hd_in_set)
  consider (sel) "sp_probe p = PrSelect" | (spawned) "sp_probe p = PrSpawn []"
    | (spawn) e ts where "sp_probe p = PrSpawn (e # ts)" | (waiting) "sp_probe p = PrWait"
    | (sweep) "sp_sweep p = SwSelect"
  proof (cases "sp_probe p")
    case PrOff
    then show ?thesis using assms(1,3) by (simp add: loops_inv_def live_goroutines_def)
  next
    case PrEnded
    then show ?thesis using assms(1,3) sweep by (auto simp: loops_inv_def live_goroutines_def split: if_splits)
  next
    case (PrSpawn es)
    then show ?thesis using spawned spawn by (cases es) auto
  qed (use assms(4) sel waiting in auto)
  then show ?thesis
  proof cases
    case sel
    then show ?thesis using lp_end ending by blast
  next
    case spawned
    then show ?thesis using lp_spawned by blast
  next
    case (spawn e ts)
    then have "0 < sp_conc p" using assms(5) by (auto simp: spawn_stuck_def)
    then show ?thesis using lp_spawn [OF spawn] probe by (cases "?ps = []") auto
  next
    case waiting
    then show ?thesis using lp_wait [OF waiting] probe by blast
  next
    case sweep
    then show ?thesis using lp_sweep_end ending by blast
  qed
qed

lemma not_stuck_step:
  assumes "loops_step ByLoop p p'" "\<not> spawn_stuck p" "sp_probe p \<noteq> PrCrashed"
  shows "\<not> spawn_stuck p' \<and> sp_probe p' \<noteq> PrCrashed"
  using assms(1)
  by (cases rule: loops_step.cases) (use assms(2,3) loop_conc [OF assms(1)] in \<open>auto simp: spawn_stuck_def\<close>)

lemma loops_finish:
  assumes "loops_inv p" "sp_stopCh p" "sp_probe p \<noteq> PrCrashed" "\<not> spawn_stuck p"
  shows "\<exists>p'. (loops_step ByLoop)\<^sup>*\<^sup>* p p' \<and> stop_returns p'"
  using assms
proof (induction "loop_work p" arbitrary: p rule: less_induct)
  case less
  show ?case
  proof (cases "sp_wg p = 0")
    case True
    then show ?thesis using less.prems(2) by (intro exI [of _ p]) (simp add: stop_returns_def)
  next
    case False
    then obtain p1 where s: "loops_step ByLoop p p1" using loops_progress less.prems by blast
    then obtain p' where "(loops_step ByLoop)\<^sup>*\<^sup>* p1 p'" "stop_returns p'"
      using less.hyps [OF loop_work_less [OF s]] loops_step_inv [OF s] loop_stopped [OF s] not_stuck_step [OF s] less.prems
      by blast
    then show ?thesis using s by (meson converse_rtranclp_into_rtranclp)
  qed
qed

text \<open>Property C40: after the stop channel has been closed, \<open>Stop\<close> of the executor store can return, by steps of the
  loops alone, exactly when the probe loop is not in a round it cannot start because the probe concurrency is
  zero; in that case it does not return whatever else happens.\<close>

theorem store_stop_returns_iff:
  assumes "loops_reachable p" "sp_stopCh p" "sp_probe p \<noteq> PrCrashed"
  shows "((\<exists>p'. (loops_step ByLoop)\<^sup>*\<^sup>* p p' \<and> stop_returns p') \<longleftrightarrow> \<not> spawn_stuck p) \<and>
    (spawn_stuck p \<longrightarrow> (\<forall>p'. (\<lambda>q q'. \<exists>a. loops_step a q q')\<^sup>*\<^sup>* p p' \<longrightarrow> \<not> stop_returns p'))"
proof -
  let ?any = "\<lambda>q q'. \<exists>a. loops_step a q q'"
  have inv: "loops_inv p" using assms(1) by (rule loops_reachable_inv)
  have never: "\<not> stop_returns p'" if "?any\<^sup>*\<^sup>* p p'" "spawn_stuck p" for p'
  proof -
    have "loops_inv p' \<and> spawn_stuck p'"
      using that(1) by (induction rule: rtranclp_induct) (use inv that(2) loops_step_inv stuck_step in blast)+
    then show ?thesis using stuck_wg by (auto simp: stop_returns_def)
  qed
  have "?any\<^sup>*\<^sup>* p p'" if "(loops_step ByLoop)\<^sup>*\<^sup>* p p'" for p'
    by (rule rtranclp_mono [THEN predicate2D, OF _ that]) blast
  then show ?thesis using never loops_finish [OF inv assms(2,3)] by blast
qed

text \<open>A store with one executor and no room for probes.\<close>

definition narrow_store :: EStore where
  "narrow_store = es_Register 5 (demo_executor ''app'' ''a1'') (es_New demo_entry [es_WithProbeConcurrency 0])"

definition stuck_proc :: StoreProc where
  "stuck_proc = (es_Start (store_proc narrow_store))\<lparr>sp_probe := PrSpawn [0], sp_stopCh := True\<rparr>"

lemma narrow_facts:
  "es_groups narrow_store = [''app'' \<mapsto> [''a1'' \<mapsto> 0]]" "es_opts narrow_store = es_defaultOptions\<lparr>eo_ProbeConcurrency := 0\<rparr>"
  by (simp_all add: narrow_store_def es_New_def es_Register_def getOrCreateGroup_def newAppGroup_def grp_add_def
      demo_executor_def es_WithProbeConcurrency_def Let_def)

lemma narrow_entries: "orders_ok [''app''] (\<lambda>_. [''a1'']) narrow_store \<and>
    all_entries [''app''] (\<lambda>_. [''a1'']) narrow_store = [0]"
  by (auto simp: orders_ok_def iter_order_def all_entries_def narrow_facts grp_listAll_def split: if_splits)

lemma stuck_proc_reachable: "loops_reachable stuck_proc"
proof -
  let ?s0 = "es_New demo_entry [es_WithProbeConcurrency 0]"
  let ?p1 = "store_proc narrow_store"
  let ?p2 = "es_Start ?p1"
  let ?p3 = "?p2\<lparr>sp_probe := PrSpawn [0]\<rparr>"
  have "loops_step ByClient (store_proc ?s0) ((store_proc ?s0)\<lparr>sp_store := narrow_store\<rparr>)"
    unfolding narrow_store_def by (rule lp_client) (simp add: store_proc_def es_client.intros(1))
  then have 1: "loops_reachable ?p1" using lr_more [OF lr_init] by (simp add: store_proc_def)
  have "loops_step ByClient ?p1 ?p2" by (rule lp_start) (simp add: store_proc_def)
  then have 2: "loops_reachable ?p2" using lr_more [OF 1] by blast
  have st: "sp_store ?p2 = narrow_store" "sp_probe ?p2 = PrSelect" "sp_conc ?p2 = 0"
    by (simp_all add: es_Start_def store_proc_def sp_conc_def narrow_facts es_defaultOptions_def second_def)
  have "loops_step ByTick ?p2 (?p2\<lparr>sp_probe := if [0] = ([] :: nat list) then PrSelect
      else if sp_conc ?p2 < 0 then PrCrashed else PrSpawn [0]\<rparr>)"
    by (rule lp_tick [where gord = "[''app'']" and ord = "\<lambda>_. [''a1'']"]) (use st narrow_entries in simp_all)
  then have 3: "loops_reachable ?p3" using lr_more [OF 2] st by simp
  have "loops_step ByClient ?p3 stuck_proc"
    by (rule lp_stop) (simp add: es_Stop_def stuck_proc_def es_Start_def store_proc_def)
  then show ?thesis using lr_more [OF 3] by blast
qed

lemma store_stop_returns_iff_witness:
  "\<not> (\<exists>p'. (loops_step ByLoop)\<^sup>*\<^sup>* stuck_proc p' \<and> stop_returns p')"
proof -
  have "spawn_stuck stuck_proc"
    by (simp add: spawn_stuck_def stuck_proc_def es_Start_def store_proc_def sp_conc_def narrow_facts)
  then show ?thesis
    using store_stop_returns_iff [OF stuck_proc_reachable] by (simp add: stuck_proc_def)
qed

section \<open>The collector of the idempotency table\<close>

text \<open>The goroutine of \<open>New\<close> with its stop channel; \<open>Stop\<close> returns when it has ended. A step of it changes the table
  only by a collection, and none follows its end.\<close>

record TableProc =
  tp_table :: Table
  tp_stopCh :: bool
  tp_live :: bool

definition table_proc :: "(IdemOptions \<Rightarrow> IdemOptions) list \<Rightarrow> TableProc" where
  "table_proc opts = \<lparr>tp_table = tbl_New opts, tp_stopCh = False, tp_live = True\<rparr>"

definition tbl_Stop :: "TableProc \<Rightarrow> TableProc option" where
  "tbl_Stop p = (if tp_stopCh p then None else Some (p\<lparr>tp_stopCh := True\<rparr>))"

inductive gc_step :: "TableProc \<Rightarrow> TableProc \<Rightarrow> bool" where
  gc_client: "(case e of Gc now ord \<Rightarrow> False | _ \<Rightarrow> True) \<Longrightarrow> gc_step p (p\<lparr>tp_table := snd (idem_step e (tp_table p))\<rparr>)"
| gc_close: "tbl_Stop p = Some p' \<Longrightarrow> gc_step p p'"
| gc_tick: "tp_live p \<Longrightarrow> iter_order (tbl_records (tp_table p)) ord \<Longrightarrow>
    gc_step p (p\<lparr>tp_table := tbl_gc now ord (tp_table p)\<rparr>)"
| gc_end: "tp_live p \<Longrightarrow> tp_stopCh p \<Longrightarrow> gc_step p (p\<lparr>tp_live := False\<rparr>)"

inductive_cases gc_stepE: "gc_step p p'"

text \<open>A record that runs is never collected, and after the end of the goroutine nothing is.\<close>

lemma gc_keeps_running:
  assumes "tbl_records t k = Some r" "is_zero_time (rec_expireAt r)" "iter_order (tbl_records t) ord"
  shows "tbl_records (tbl_gc now ord t) k = Some r"
  using assms by (simp add: tbl_gc_records expired_def)

lemma gc_ended: "gc_step p p' \<Longrightarrow> \<not> tp_live p \<Longrightarrow> \<not> tp_live p' \<and>
    (tp_table p' = tp_table p \<or> (\<exists>e. (case e of Gc now ord \<Rightarrow> False | _ \<Rightarrow> True) \<and> tp_table p' = snd (idem_step e (tp_table p))))"
  by (erule gc_stepE) (auto simp: tbl_Stop_def split: if_splits)

end
