(* ===== verification/Spec2Isabelle.thy ===== *)
theory Spec2Isabelle
  imports Job_Store Store_Interleaving Wheel_Props Router Rate_Limit Idempotency Start_Props Utils XError Tpl_Props
    Service_Props Tpl_Service Executor_Service Runner_Props API_Props Buffer_Props Script_Props
    Observer_Props Facade_Props Main_Props Executor_Main Background_Loops
begin

text \<open>
  A verification development for go-jobs, a distributed job scheduler in Go (all paths below are under
  \<open>src/go-jobs\<close>).

  \<^bold>\<open>The program.\<close> An admin node (\<open>cmd/admin\<close>) keeps jobs in MySQL. Its scheduler loads the enabled ones into
  an in-memory store, puts a timer for the next trigger of each into a timing wheel, and a pool of workers
  handles what the wheel fires: lock, block strategy, rate limit, routing to an executor of the job's
  application, rendering of the parameter, the call over HTTP, the log, the next trigger. Executors
  (\<open>cmd/executor\<close>) register with the admin and run handlers or scripts, each log ID once. Around this are
  the services and handlers of the admin API, job templates, a write buffer for logs, and an SDK for
  handlers.

  \<^bold>\<open>How the code is modelled.\<close> Structs are records, enumerations keep their constants, functions that
  change state take it and return it. Pointers that are shared (heap entries, wheel tasks, registry
  entries, label maps, buffered logs) are addresses into an explicit store. Errors are values of
  \<open>error + 'a\<close> or options; a panic, a channel that blocks and a loop that does not end are results
  (\<open>outcome\<close>, \<open>option\<close>). Times and durations are nanoseconds as integers; arithmetic that can overflow in
  the code goes through \<open>i64\<close>, and the results of \<open>float64\<close> operations are rounded. The iteration order of a Go map is an argument. Goroutines are step relations
  whose steps are the critical sections and channel operations of the code: \<open>runner_step\<close>, \<open>buf_step\<close>, the
  relations of the wheel's loop and of the scheduler. The methods of the job store are transitions where one
  goroutine uses it, and \<open>store_step\<close> cuts them at their operations on the \<open>sync.Map\<close>, the counter and the heap. The clock is an argument of each operation that reads it.

  \<^bold>\<open>Theories.\<close>
  \<^item> \<open>Go_Prelude\<close>, \<open>Go_Heap\<close>: integers, division, map iteration, times; \<open>container/heap\<close> with back indices, for
    the trigger heap and the wheel's overflow heap (locale \<open>less_order\<close>, interpreted on both orders).
  \<^item> \<open>Job_Model\<close> (\<open>internal/model\<close>), \<open>XError\<close> (\<open>pkg/xerror\<close>), \<open>Utils\<close> (\<open>pkg/utils\<close>).
  \<^item> \<open>Job_Store\<close> (\<open>pkg/jobstore\<close>): jobs, trigger heap, dirty flags; refinement of a map from IDs to a job and two
    flags through the locale \<open>job_registry\<close>. \<open>Store_Interleaving\<close>: its methods as steps of concurrent calls, what
    holds of the index, the heap and the counter in every interleaving, and the job that comes back after \<open>Remove\<close>.
  \<^item> \<open>Time_Wheel\<close> (\<open>pkg/timewheel\<close>): four levels, overflow heap, the two channels; \<open>Wheel_Timing\<close>, \<open>Wheel_Firing\<close>,
    \<open>Wheel_Props\<close>, \<open>Wheel_Scope\<close>: when a task fires, what a tick does, the loop, what a step can touch.
  \<^item> \<open>Router\<close> (\<open>route_strategy.go\<close>), \<open>Rate_Limit\<close> (\<open>pkg/ratelimit\<close>, over the rounded arithmetic of
    \<open>Go_Float\<close>), \<open>Param_Tpl\<close> (\<open>pkg/paramtpl\<close>): the
    parts a trigger passes through. \<open>Executor_Store\<close> (\<open>pkg/executorstore\<close>): the executors it can go to, with
    probing; refinement of a map from (application, address) (locale \<open>address_source\<close>).
  \<^item> \<open>Dispatch\<close>, \<open>Lifecycle\<close> (\<open>internal/scheduler\<close>): the handler of a trigger and the client; construction, start,
    stop, the job operations, the flush loop. \<open>Sched_Props\<close>, \<open>Sched_Theorems\<close>, \<open>Start_Props\<close>: where triggers go,
    rescheduling, lost triggers, the start that blocks, the paging of the bootstrap.
  \<^item> \<open>Dao\<close> (\<open>internal/dao\<close>), \<open>List_DB\<close>: the queries over an interface of GORM, and an instance of lists.
  \<^item> \<open>Job_Service\<close>, \<open>Service_Props\<close>, \<open>Executor_Service\<close>, \<open>Tpl_Service\<close>, \<open>User_Service\<close> (\<open>internal/service\<close>);
    \<open>Job_Tpl\<close>, \<open>Tpl_Props\<close> (\<open>pkg/jobtpl\<close>): the template registry refines a map from names to contents, as long as the
    filters of \<open>List\<close> only read the templates they are lent. The writes of the flush loop to the database are in
    \<open>Service_Props\<close>.
  \<^item> \<open>Idempotency\<close> (\<open>pkg/idempotency\<close>), \<open>Runner\<close>, \<open>Runner_Props\<close> (\<open>internal/executor\<close>): the executor's table, running
    set and runner under every interleaving. \<open>Script_Engine\<close>, \<open>Script_Props\<close>: script processes. \<open>Job_SDK\<close>
    (\<open>pkg/jobsdk\<close>).
  \<^item> \<open>Executor_API\<close>, \<open>API_Props\<close>: the HTTP interface between the nodes. \<open>Admin_API\<close>, \<open>Admin_Props\<close>: the handlers and
    routes of the admin with their authentication.
  \<^item> \<open>Log_Buffer\<close>, \<open>Buffer_Props\<close> (\<open>pkg/logbuffer\<close>): the write buffer with its flush loop.
  \<^item> \<open>Metrics\<close>, \<open>Metrics_Facade\<close>, \<open>Metrics_Observer\<close> (\<open>pkg/metrics\<close>): the registry with its exposition format, the
    facade over the providers with the push in parts, the observers with their channels; \<open>Metrics_Props\<close>, \<open>Facade_Props\<close>,
    \<open>Observer_Props\<close>: what a histogram and a label text say, the facade as counts per series, no event lost or
    counted twice.
  \<^item> \<open>Cluster\<close>, \<open>Cluster_Props\<close> (\<open>pkg/redis\<close>, \<open>pkg/etcd\<close>): the lock around a trigger and the leader election, over
    several nodes, with requests and answers that get lost.
  \<^item> \<open>Stat_Service\<close>, \<open>Outside_Channels\<close> (\<open>internal/service\<close>, \<open>pkg/es\<close>, \<open>pkg/cron\<close>): statistics, groups, alarms, log
    search. \<open>Client_Options\<close> (\<open>pkg/conf\<close>, \<open>pkg/mysql\<close>, \<open>pkg/redis\<close>, \<open>pkg/etcd\<close>, \<open>pkg/es\<close>, \<open>pkg/logger\<close>): the
    configuration and the constructors of the clients.
  \<^item> \<open>Background_Loops\<close>: the goroutines of the executor store and of the idempotency table, with their stop.
  \<^item> \<open>Executor_Main\<close> (\<open>cmd/executor\<close>), \<open>Admin_Main\<close>, \<open>Main_Props\<close> (\<open>cmd/admin\<close>, \<open>api/router.go\<close>): the two processes:
    their parts, start, tickers, all routes, shutdown.

  \<^bold>\<open>What the theorems show.\<close> Invariants of every component with internal structure (trigger heap, wheel,
  registries, runner, buffer) under all its operations; refinements of abstract maps; the behaviour of a
  trigger on every branch; that the wheel fires each due task once and never early; that an executor never
  runs a log ID twice at a time; that requests that change or read anything carry credentials; that a lock
  keeps other nodes out; that metrics count every event once. Where the code does not do what it means to,
  the theorem states what it does: triggers that are lost with the lock and triggers that two nodes both
  handle, a start that blocks on more than 4096 jobs, a leader that never fires again after it has lost the
  leadership once, an executor that never gets past its registration, API calls the scheduler never hears
  of, a last push of metrics that is never sent, a removed job that a concurrent call
  puts back into the trigger heap, scripts failed by the output limit.

  \<^bold>\<open>Bounds.\<close> Loops are recursive functions with a proof of termination: the paging of the bootstrap by the
  rows that are left, the heap loops by the index, the drain of the buffer by the ring. There is no fuel. A
  loop that can run for ever is a relation or a partial result. Temporary IDs of the log buffer are
  distinct below \<open>2^62\<close> creations. A finite \<open>float64\<close> has no upper end in the model.

  \<^bold>\<open>Hypotheses.\<close> What is not in the repository is a parameter: GORM and MySQL (\<open>gorm\<close>, with \<open>creates_with\<close>,
  \<open>counts_rows\<close>, \<open>finds_first\<close>, \<open>updates_all\<close>, \<open>stores_logs\<close>, \<open>pages_rows\<close> for what is documented of them, and the upsert of the statistics), the
  cron parser, Go's \<open>text/template\<close>, the commands of Redis (\<open>redis_ok\<close>), etcd (its answers are chosen by the
  environment), Elasticsearch, viper, the formatting of numbers, the network, the operating system, JWT
  (\<open>issues_tokens\<close>) and bcrypt. Every theorem with such a hypothesis has a witness on a concrete instance.

  \<^bold>\<open>Not modelled.\<close> The helpers that hand a message to the logger; JSON, gin, CORS and the request logger;
  signals, listeners and the exit of the processes; \<open>internal/dao/dao.go\<close>, a copy of the DAOs that are
  modelled from the other files of its package, and the duplicate declarations of \<open>internal/model\<close>;
  \<open>LocalIP\<close> and \<open>NewRequestID\<close>, which only read the interfaces and the random source. Strings are bytes, and
  the functions on characters treat them as ASCII.
\<close>

end
